(* ===== verification/Prelude.thy ===== *)
theory Prelude
  imports Complex_Main
begin

text \<open>
  What the component theories share: the exceptions of Python's runtime as values,
  results that are either an exception or a value, a state changed in place that
  survives a raised exception, Python's indexing from the end of a list, and the
  collections of lemmas the component proofs use.
\<close>

section \<open>Lemma collections\<close>

named_theorems inv_intros \<open>an operation keeps its component's invariant\<close>
named_theorems step_simps \<open>equations that run one step of a component\<close>

section \<open>Exceptions and results\<close>

text \<open>The exceptions that the interpreter itself raises in the modelled code.\<close>

datatype pyexc =
    AssertionError
  | KeyError
  | IndexError
  | TypeError
  | ValueError
  | AttributeError
  | NameError
  | ZeroDivisionError
  | OSError

text \<open>A raised exception: one of the component's own classes, or one of the runtime's.\<close>

datatype 'e exn = Own 'e | Py pyexc

type_synonym ('e, 'a) res = "'e exn + 'a"

definition raise_own :: "'e \<Rightarrow> ('e, 'a) res" where
  "raise_own e = Inl (Own e)"

definition raise_py :: "pyexc \<Rightarrow> ('e, 'a) res" where
  "raise_py e = Inl (Py e)"

fun rbind :: "'e + 'a \<Rightarrow> ('a \<Rightarrow> 'e + 'b) \<Rightarrow> 'e + 'b" where
  "rbind (Inl e) f = Inl e"
| "rbind (Inr x) f = f x"

definition py_assert :: "bool \<Rightarrow> ('e, unit) res" where
  "py_assert b = (if b then Inr () else Inl (Py AssertionError))"

lemma rbind_Inr_iff: "rbind r f = Inr y \<longleftrightarrow> (\<exists>x. r = Inr x \<and> f x = Inr y)"
  by (cases r) auto

lemma rbind_Inl_iff: "rbind r f = Inl e \<longleftrightarrow> r = Inl e \<or> (\<exists>x. r = Inr x \<and> f x = Inl e)"
  by (cases r) auto

lemma rbind_assoc: "rbind (rbind r f) g = rbind r (\<lambda>x. rbind (f x) g)"
  by (cases r) auto

lemma py_assert_simps [simp]:
  "py_assert b = Inr u \<longleftrightarrow> b"
  "py_assert b = Inl e \<longleftrightarrow> \<not> b \<and> e = Py AssertionError"
  by (auto simp: py_assert_def)

lemma rbind_assert: "rbind (py_assert b) f = (if b then f () else Inl (Py AssertionError))"
  by (simp add: py_assert_def)

text \<open>\<open>mapM\<close>-like traversal: a Python comprehension whose body may raise.\<close>

fun traverse :: "('a \<Rightarrow> 'e + 'b) \<Rightarrow> 'a list \<Rightarrow> 'e + 'b list" where
  "traverse f [] = Inr []"
| "traverse f (x # xs) = rbind (f x) (\<lambda>y. rbind (traverse f xs) (\<lambda>ys. Inr (y # ys)))"

lemma traverse_Inr_iff:
  "traverse f xs = Inr ys \<longleftrightarrow> list_all2 (\<lambda>x y. f x = Inr y) xs ys"
  by (induction xs arbitrary: ys) (auto simp: rbind_Inr_iff list_all2_Cons1)

lemma traverse_total: "(\<And>x. x \<in> set xs \<Longrightarrow> f x = Inr (g x)) \<Longrightarrow> traverse f xs = Inr (map g xs)"
  by (induction xs) auto

lemma traverse_length: "traverse f xs = Inr ys \<Longrightarrow> length ys = length xs"
  by (auto simp: traverse_Inr_iff dest: list_all2_lengthD)

section \<open>Objects changed in place\<close>

text \<open>
  An operation on an object gives the object it leaves and the exception it raised, if any.
  A client that lets exceptions pass stops at the first one; a client that catches them
  goes on from the object the operation left.
\<close>

fun run_ops :: "('s \<Rightarrow> 'op \<Rightarrow> 's \<times> 'e option) \<Rightarrow> 's \<Rightarrow> 'op list \<Rightarrow> 's \<times> 'e option" where
  "run_ops step s [] = (s, None)"
| "run_ops step s (op # ops) =
     (case step s op of (s', Some e) \<Rightarrow> (s', Some e) | (s', None) \<Rightarrow> run_ops step s' ops)"

text \<open>One statement after another: the second runs on what the first left, unless that raised.\<close>

definition then_do :: "'s \<times> 'e option \<Rightarrow> ('s \<Rightarrow> 's \<times> 'e option) \<Rightarrow> 's \<times> 'e option" where
  "then_do r f = (case r of (s, Some e) \<Rightarrow> (s, Some e) | (s, None) \<Rightarrow> f s)"

lemma then_do_simps [simp]:
  "then_do (s, None) f = f s" "then_do (s, Some e) f = (s, Some e)"
  by (simp_all add: then_do_def)

lemma then_do_ok: "then_do r f = (s', None) \<longleftrightarrow> (\<exists>s. r = (s, None) \<and> f s = (s', None))"
  by (cases r; cases "snd r") auto

inductive reachable :: "('s \<Rightarrow> 'op \<Rightarrow> 's \<times> 'e option) \<Rightarrow> 's \<Rightarrow> 's \<Rightarrow> bool"
  for step s0 where
  reachable_init: "reachable step s0 s0"
| reachable_step: "reachable step s0 s \<Longrightarrow> reachable step s0 (fst (step s op))"

lemma run_ops_reachable: "reachable step s0 s \<Longrightarrow> reachable step s0 (fst (run_ops step s ops))"
proof (induction ops arbitrary: s)
  case Nil
  then show ?case by simp
next
  case (Cons op ops)
  have "reachable step s0 (fst (step s op))" using Cons.prems by (rule reachable_step)
  then show ?case using Cons.IH by (auto split: prod.split option.split)
qed

text \<open>The contract: an invariant that every operation keeps, also when it raises.\<close>

locale invariant_machine =
  fixes step :: "'s \<Rightarrow> 'op \<Rightarrow> 's \<times> 'e option"
    and inv :: "'s \<Rightarrow> bool"
  assumes step_inv: "inv s \<Longrightarrow> inv (fst (step s op))"
begin

lemma reachable_inv: "reachable step s0 s \<Longrightarrow> inv s0 \<Longrightarrow> inv s"
  by (induction rule: reachable.induct) (auto intro: step_inv)

lemma run_inv: "inv s \<Longrightarrow> inv (fst (run_ops step s ops))"
  by (rule reachable_inv [OF run_ops_reachable [OF reachable.reachable_init]])

end

text \<open>The stronger contract: besides, every operation moves up in a preorder.\<close>

locale monotone_machine = invariant_machine step inv
  for step :: "'s \<Rightarrow> 'op \<Rightarrow> 's \<times> 'e option" and inv :: "'s \<Rightarrow> bool" +
  fixes below :: "'s \<Rightarrow> 's \<Rightarrow> bool"
  assumes below_refl: "below s s"
    and below_trans: "below s t \<Longrightarrow> below t u \<Longrightarrow> below s u"
    and step_below: "inv s \<Longrightarrow> below s (fst (step s op))"
begin

lemma reachable_below: "reachable step s0 s \<Longrightarrow> inv s0 \<Longrightarrow> below s0 s"
proof (induction rule: reachable.induct)
  case reachable_init
  then show ?case by (simp add: below_refl)
next
  case (reachable_step s op)
  then show ?case using reachable_inv step_below below_trans by blast
qed

lemma run_below: "inv s \<Longrightarrow> below s (fst (run_ops step s ops))"
  by (rule reachable_below [OF run_ops_reachable [OF reachable.reachable_init]])

end

section \<open>Lists and maps\<close>

text \<open>Python's \<open>xs[-1]\<close>, \<open>None\<close> where it raises \<open>IndexError\<close>.\<close>

definition last_opt :: "'a list \<Rightarrow> 'a option" where
  "last_opt xs = (if xs = [] then None else Some (last xs))"

lemma last_opt_simps [simp]:
  "last_opt [] = None"
  "last_opt (xs @ [x]) = Some x"
  "last_opt [x] = Some x"
  "last_opt xs = None \<longleftrightarrow> xs = []"
  by (auto simp: last_opt_def)

lemma last_opt_Some: "last_opt xs = Some x \<longleftrightarrow> xs \<noteq> [] \<and> last xs = x"
  by (auto simp: last_opt_def)

text \<open>Replacing the last element, which is what mutating the object \<open>xs[-1]\<close> does.\<close>

definition set_last :: "'a list \<Rightarrow> 'a \<Rightarrow> 'a list" where
  "set_last xs y = butlast xs @ [y]"

lemma set_last_snoc [simp]: "set_last (xs @ [x]) y = xs @ [y]"
  by (simp add: set_last_def)

lemma set_last_single [simp]: "set_last [x] y = [y]"
  by (simp add: set_last_def)

lemma set_last_props [simp]:
  "set_last xs y \<noteq> []"
  "last (set_last xs y) = y"
  "butlast (set_last xs y) = butlast xs"
  "last_opt (set_last xs y) = Some y"
  by (auto simp: set_last_def)

lemma map_eq_single [simp]: "[k \<mapsto> v] k = Some v"
  by simp

end
