(* ===== verification/Ckpt.thy ===== *)
theory Ckpt
  imports Prelude
begin

text \<open>
  The checkpoint dispatcher of the Thermos runner, \<^verbatim>\<open>apache/thermos/common/ckpt.py\<close>:
  the replay of a stream of \<^verbatim>\<open>RunnerCkpt\<close> records into a \<^verbatim>\<open>RunnerState\<close>, the process
  state machine and the calls of the registered handlers.  Objects are mutated in
  place, so every operation returns the state it leaves behind also when it raises.
  A handler is an identifier; its calls are returned as events, in the order made.
  Log messages are left out.
\<close>

section \<open>The records of the stream\<close>

datatype process_state = P_WAITING | P_FORKED | P_RUNNING | P_SUCCESS | P_KILLED | P_FAILED | P_LOST

datatype task_state = T_ACTIVE | T_SUCCESS | T_FAILED | T_KILLED | T_LOST | T_CLEANING | T_FINALIZING

record process_status =
  ps_seq :: "int option"
  ps_process :: "string option"
  ps_state :: "process_state option"
  ps_coordinator_pid :: "int option"
  ps_fork_time :: "rat option"
  ps_start_time :: "rat option"
  ps_pid :: "int option"
  ps_stop_time :: "rat option"
  ps_return_code :: "int option"

record task_status =
  ts_state :: "task_state option"
  ts_timestamp_ms :: "int option"
  ts_runner_pid :: "int option"
  ts_runner_uid :: "int option"

record runner_header =
  rh_task_id :: string
  rh_launch_time_ms :: int
  rh_sandbox :: string
  rh_log_dir :: "string option"
  rh_hostname :: string
  rh_user :: string
  rh_uid :: "int option"
  rh_ports :: "(string \<times> int) list"

record runner_ckpt =
  rc_header :: "runner_header option"
  rc_process :: "process_status option"
  rc_task :: "task_status option"

record runner_state =
  rs_header :: "runner_header option"
  rs_statuses :: "task_status list option"
  rs_processes :: "string option \<Rightarrow> process_status list option"

definition empty_status :: process_status where
  "empty_status = \<lparr>ps_seq = None, ps_process = None, ps_state = None, ps_coordinator_pid = None,
     ps_fork_time = None, ps_start_time = None, ps_pid = None, ps_stop_time = None,
     ps_return_code = None\<rparr>"

definition empty_runner_state :: runner_state where
  "empty_runner_state = \<lparr>rs_header = None, rs_statuses = None, rs_processes = Map.empty\<rparr>"

definition process_ckpt :: "process_status \<Rightarrow> runner_ckpt" where
  "process_ckpt p = \<lparr>rc_header = None, rc_process = Some p, rc_task = None\<rparr>"

definition task_ckpt :: "task_status \<Rightarrow> runner_ckpt" where
  "task_ckpt t = \<lparr>rc_header = None, rc_process = None, rc_task = Some t\<rparr>"

definition header_ckpt :: "runner_header \<Rightarrow> runner_ckpt" where
  "header_ckpt h = \<lparr>rc_header = Some h, rc_process = None, rc_task = None\<rparr>"

lemmas ckpt_records = process_ckpt_def task_ckpt_def header_ckpt_def

datatype ckpt_error = ErrorRecoveringState | InvalidSequenceNumber | InvalidHandler

type_synonym ckpt_exn = "ckpt_error exn"

section \<open>Copying the fields of an update\<close>

datatype pfield = F_seq | F_process | F_state | F_coordinator_pid | F_fork_time | F_start_time
  | F_pid | F_stop_time | F_return_code

fun has_field :: "process_status \<Rightarrow> pfield \<Rightarrow> bool" where
  "has_field p F_seq = (ps_seq p \<noteq> None)"
| "has_field p F_process = (ps_process p \<noteq> None)"
| "has_field p F_state = (ps_state p \<noteq> None)"
| "has_field p F_coordinator_pid = (ps_coordinator_pid p \<noteq> None)"
| "has_field p F_fork_time = (ps_fork_time p \<noteq> None)"
| "has_field p F_start_time = (ps_start_time p \<noteq> None)"
| "has_field p F_pid = (ps_pid p \<noteq> None)"
| "has_field p F_stop_time = (ps_stop_time p \<noteq> None)"
| "has_field p F_return_code = (ps_return_code p \<noteq> None)"

fun set_field :: "process_status \<Rightarrow> pfield \<Rightarrow> process_status \<Rightarrow> process_status" where
  "set_field u F_seq p = p\<lparr>ps_seq := ps_seq u\<rparr>"
| "set_field u F_process p = p\<lparr>ps_process := ps_process u\<rparr>"
| "set_field u F_state p = p\<lparr>ps_state := ps_state u\<rparr>"
| "set_field u F_coordinator_pid p = p\<lparr>ps_coordinator_pid := ps_coordinator_pid u\<rparr>"
| "set_field u F_fork_time p = p\<lparr>ps_fork_time := ps_fork_time u\<rparr>"
| "set_field u F_start_time p = p\<lparr>ps_start_time := ps_start_time u\<rparr>"
| "set_field u F_pid p = p\<lparr>ps_pid := ps_pid u\<rparr>"
| "set_field u F_stop_time p = p\<lparr>ps_stop_time := ps_stop_time u\<rparr>"
| "set_field u F_return_code p = p\<lparr>ps_return_code := ps_return_code u\<rparr>"

definition assert_nonempty :: "process_status \<Rightarrow> pfield list \<Rightarrow> bool" where
  "assert_nonempty p fs = list_all (has_field p) fs"

definition copy_fields ::
  "process_status \<Rightarrow> process_status \<Rightarrow> pfield list \<Rightarrow> process_status \<times> ckpt_exn option" where
  "copy_fields p u fs = (if assert_nonempty u fs then (fold (set_field u) fs p, None)
     else (p, Some (Py AssertionError)))"

section \<open>The process state machine\<close>

definition terminal_process_state :: "process_state option \<Rightarrow> bool" where
  "terminal_process_state s =
     (s \<in> {Some P_SUCCESS, Some P_FAILED, Some P_KILLED, Some P_LOST})"

definition is_terminal :: "process_status \<Rightarrow> bool" where
  "is_terminal u = terminal_process_state (ps_state u)"

text \<open>\<^verbatim>\<open>assert_process_state_in(...)\<close> followed by a \<^verbatim>\<open>copy_fields\<close>.\<close>

definition guarded_copy :: "process_state option list \<Rightarrow> process_status \<Rightarrow> process_status
    \<Rightarrow> pfield list \<Rightarrow> process_status \<times> ckpt_exn option" where
  "guarded_copy expected p u fs =
     (if ps_state p \<in> set expected then copy_fields p u fs
      else (p, Some (Own ErrorRecoveringState)))"

text \<open>In the \<^verbatim>\<open>FAILED\<close> branch the source tests the state of the update, not of the process,
  before it copies \<^verbatim>\<open>stop_time\<close> and \<^verbatim>\<open>return_code\<close>.\<close>

definition update_failed :: "process_status \<Rightarrow> process_status \<Rightarrow> process_status \<times> ckpt_exn option" where
  "update_failed p u =
     (if ps_state p \<in> {Some P_WAITING, Some P_RUNNING} then
        (case (if ps_state u = Some P_RUNNING then copy_fields p u [F_stop_time, F_return_code]
               else (p, None)) of
           (p', Some e) \<Rightarrow> (p', Some e)
         | (p', None) \<Rightarrow> copy_fields p' u [F_state])
      else (p, Some (Own ErrorRecoveringState)))"

definition update_process_state ::
  "process_status \<Rightarrow> process_status \<Rightarrow> process_status \<times> ckpt_exn option" where
  "update_process_state p0 u =
     (case copy_fields p0 u [F_seq] of
        (p, Some e) \<Rightarrow> (p, Some e)
      | (p, None) \<Rightarrow>
          (case ps_state u of
             None \<Rightarrow> (p, Some (Own ErrorRecoveringState))
           | Some P_WAITING \<Rightarrow> guarded_copy [None] p u [F_state, F_process]
           | Some P_FORKED \<Rightarrow>
               guarded_copy [Some P_WAITING] p u [F_state, F_fork_time, F_coordinator_pid]
           | Some P_RUNNING \<Rightarrow> guarded_copy [Some P_FORKED] p u [F_state, F_start_time, F_pid]
           | Some P_SUCCESS \<Rightarrow>
               guarded_copy [Some P_RUNNING] p u [F_state, F_stop_time, F_return_code]
           | Some P_FAILED \<Rightarrow> update_failed p u
           | Some P_KILLED \<Rightarrow>
               guarded_copy [Some P_FORKED, Some P_RUNNING] p u [F_state, F_stop_time, F_return_code]
           | Some P_LOST \<Rightarrow> guarded_copy [Some P_FORKED, Some P_RUNNING] p u [F_state]))"

section \<open>Handlers\<close>

record 'h dispatcher =
  d_task :: "'h list"
  d_process :: "'h list"
  d_universal :: "'h list"

definition new_dispatcher :: "'h dispatcher" where
  "new_dispatcher = \<lparr>d_task = [], d_process = [], d_universal = []\<rparr>"

text \<open>The three booleans are the \<^verbatim>\<open>isinstance\<close> tests against \<^verbatim>\<open>TaskStateHandler\<close>,
  \<^verbatim>\<open>ProcessStateHandler\<close> and \<^verbatim>\<open>UniversalStateHandler\<close>; the first that holds decides.\<close>

definition register_handler ::
  "'h dispatcher \<Rightarrow> bool \<times> bool \<times> bool \<Rightarrow> 'h \<Rightarrow> (ckpt_error, 'h dispatcher) res" where
  "register_handler d kinds h =
     (case kinds of (is_task, is_process, is_universal) \<Rightarrow>
        if is_task then Inr (d\<lparr>d_task := d_task d @ [h]\<rparr>)
        else if is_process then Inr (d\<lparr>d_process := d_process d @ [h]\<rparr>)
        else if is_universal then Inr (d\<lparr>d_universal := d_universal d @ [h]\<rparr>)
        else Inl (Own InvalidHandler))"

datatype 'h event =
    On_initialization 'h runner_header
  | On_process_transition 'h "process_state option" process_status
  | On_task_transition 'h "task_state option" task_status
  | On_process 'h process_state process_status
  | On_task 'h task_state task_status

definition run_header_dispatch :: "'h dispatcher \<Rightarrow> runner_header \<Rightarrow> 'h event list" where
  "run_header_dispatch d h = map (\<lambda>x. On_initialization x h) (d_universal d)"

text \<open>The universal handlers come first; the name of the method of the others is looked up
  in \<^verbatim>\<open>_VALUES_TO_NAMES\<close>, which has no entry for \<^verbatim>\<open>None\<close>.\<close>

definition run_process_dispatch :: "'h dispatcher \<Rightarrow> process_state option \<Rightarrow> process_status
    \<Rightarrow> 'h event list \<times> ckpt_exn option" where
  "run_process_dispatch d s u =
     (let ev = map (\<lambda>x. On_process_transition x s u) (d_universal d) in
      if d_process d = [] then (ev, None)
      else case s of
             None \<Rightarrow> (ev, Some (Py KeyError))
           | Some s' \<Rightarrow> (ev @ map (\<lambda>x. On_process x s' u) (d_process d), None))"

definition run_task_dispatch :: "'h dispatcher \<Rightarrow> task_state option \<Rightarrow> task_status
    \<Rightarrow> 'h event list \<times> ckpt_exn option" where
  "run_task_dispatch d s u =
     (let ev = map (\<lambda>x. On_task_transition x s u) (d_universal d) in
      if d_task d = [] then (ev, None)
      else case s of
             None \<Rightarrow> (ev, Some (Py KeyError))
           | Some s' \<Rightarrow> (ev @ map (\<lambda>x. On_task x s' u) (d_task d), None))"

section \<open>Dispatch\<close>

type_synonym 'h dispatch_result = "runner_state \<times> 'h event list \<times> ckpt_exn option"

definition would_update :: "runner_state \<Rightarrow> runner_ckpt \<Rightarrow> (ckpt_error, bool) res" where
  "would_update st rc =
     (case rc_process rc of
        None \<Rightarrow> Inr False
      | Some u \<Rightarrow>
          (case rs_processes st (ps_process u) of
             None \<Rightarrow> Inr True
           | Some runs \<Rightarrow>
               (case last_opt runs of
                  None \<Rightarrow> Inl (Py IndexError)
                | Some cur \<Rightarrow>
                    (case (ps_seq cur, ps_seq u) of
                       (Some a, Some b) \<Rightarrow> Inr (a < b)
                     | _ \<Rightarrow> Inl (Py TypeError)))))"

definition dispatch_header ::
  "'h dispatcher \<Rightarrow> runner_state \<Rightarrow> runner_header \<Rightarrow> 'h dispatch_result" where
  "dispatch_header d st h =
     (if rs_header st \<noteq> None then (st, [], Some (Own ErrorRecoveringState))
      else (st\<lparr>rs_header := Some h\<rparr>, run_header_dispatch d h, None))"

definition dispatch_task ::
  "'h dispatcher \<Rightarrow> bool \<Rightarrow> runner_state \<Rightarrow> task_status \<Rightarrow> 'h dispatch_result" where
  "dispatch_task d trunc st t =
     (if rs_statuses st = Some [] then (st, [], Some (Py IndexError))
      else let old = (case rs_statuses st of None \<Rightarrow> [] | Some ss \<Rightarrow> ss);
               st' = st\<lparr>rs_statuses := Some (if trunc then [t] else old @ [t])\<rparr>
           in (st', run_task_dispatch d (ts_state t) t))"

text \<open>The run a \<^verbatim>\<open>WAITING\<close> update opens: a fresh \<^verbatim>\<open>ProcessStatus\<close> with the last sequence number.\<close>

definition open_run :: "bool \<Rightarrow> process_status list option \<Rightarrow> process_status list" where
  "open_run trunc runs =
     (case runs of
        None \<Rightarrow> [empty_status\<lparr>ps_seq := Some (-1)\<rparr>]
      | Some rs \<Rightarrow>
          let new = empty_status\<lparr>ps_seq := ps_seq (last rs)\<rparr>
          in if trunc then [new] else rs @ [new])"

text \<open>The last lines of the process case: the state machine runs on the last run of the
  process and the handlers are called.\<close>

definition run_state_machine ::
  "'h dispatcher \<Rightarrow> runner_state \<Rightarrow> process_status \<Rightarrow> 'h dispatch_result" where
  "run_state_machine d st u =
     (case rs_processes st (ps_process u) of
        None \<Rightarrow> (st, [], Some (Own ErrorRecoveringState))
      | Some runs \<Rightarrow>
          (case last_opt runs of
             None \<Rightarrow> (st, [], Some (Py IndexError))
           | Some cur \<Rightarrow>
               (case update_process_state cur u of (cur', err) \<Rightarrow>
                  let st' = st\<lparr>rs_processes :=
                        (rs_processes st)(ps_process u := Some (set_last runs cur'))\<rparr>
                  in (case err of
                        Some e \<Rightarrow> (st', [], Some e)
                      | None \<Rightarrow> (st', run_process_dispatch d (ps_state u) u)))))"

definition out_of_order :: "process_status \<Rightarrow> process_status \<Rightarrow> (ckpt_error, bool) res" where
  "out_of_order cur u =
     (case ps_seq cur of None \<Rightarrow> Inl (Py TypeError) | Some s \<Rightarrow> Inr (ps_seq u \<noteq> Some (s + 1)))"

definition enter_waiting ::
  "bool \<Rightarrow> runner_state \<Rightarrow> process_status \<Rightarrow> runner_state" where
  "enter_waiting trunc st u =
     st\<lparr>rs_processes := (rs_processes st)(ps_process u :=
          Some (open_run trunc (rs_processes st (ps_process u))))\<rparr>"

definition dispatch_process ::
  "'h dispatcher \<Rightarrow> bool \<Rightarrow> bool \<Rightarrow> runner_state \<Rightarrow> process_status \<Rightarrow> 'h dispatch_result" where
  "dispatch_process d recovery trunc st u =
     (if rs_processes st (ps_process u) = Some [] then (st, [], Some (Py IndexError))
      else
        let current_run = (case rs_processes st (ps_process u) of
                             None \<Rightarrow> None | Some runs \<Rightarrow> last_opt runs)
        in case (case current_run of None \<Rightarrow> Inr False | Some cur \<Rightarrow> out_of_order cur u) of
             Inl e \<Rightarrow> (st, [], Some e)
           | Inr True \<Rightarrow> (if recovery then (st, [], None)
                          else (st, [], Some (Own InvalidSequenceNumber)))
           | Inr False \<Rightarrow>
               (if ps_state u = Some P_WAITING then
                  (if \<not> (case current_run of None \<Rightarrow> True | Some cur \<Rightarrow> is_terminal cur)
                   then (st, [], Some (Py AssertionError))
                   else run_state_machine d (enter_waiting trunc st u) u)
                else run_state_machine d st u))"

definition dispatch :: "'h dispatcher \<Rightarrow> bool \<Rightarrow> bool \<Rightarrow> runner_state \<Rightarrow> runner_ckpt
    \<Rightarrow> 'h dispatch_result" where
  "dispatch d recovery trunc st rc =
     (case rc_header rc of Some h \<Rightarrow> dispatch_header d st h
      | None \<Rightarrow>
          (case rc_task rc of Some t \<Rightarrow> dispatch_task d trunc st t
           | None \<Rightarrow>
               (case rc_process rc of Some u \<Rightarrow> dispatch_process d recovery trunc st u
                | None \<Rightarrow> (st, [], Some (Own ErrorRecoveringState)))))"

section \<open>Reading a whole stream\<close>

text \<open>\<^verbatim>\<open>iter_updates\<close> yields the records of the file; \<open>broken\<close> says that reading ends in an
  \<^verbatim>\<open>IOError\<close>, \<^verbatim>\<open>OSError\<close> or \<^verbatim>\<open>RecordIO.Error\<close>, which it turns into \<^verbatim>\<open>ErrorRecoveringState\<close>.
  The file itself is the argument: its records and how the reading ends.\<close>

record ckpt_stream =
  cs_updates :: "runner_ckpt list"
  cs_broken :: bool

definition iter_updates :: "ckpt_stream \<Rightarrow> runner_ckpt list \<times> ckpt_exn option" where
  "iter_updates s = (cs_updates s, if cs_broken s then Some (Own ErrorRecoveringState) else None)"

definition iter_statuses :: "ckpt_stream \<Rightarrow> task_status list \<times> ckpt_exn option" where
  "iter_statuses s = (case iter_updates s of (us, e) \<Rightarrow> (List.map_filter rc_task us, e))"

fun replay :: "'h dispatcher \<Rightarrow> bool \<Rightarrow> bool \<Rightarrow> runner_state \<Rightarrow> runner_ckpt list
    \<Rightarrow> 'h dispatch_result" where
  "replay d recovery trunc st [] = (st, [], None)"
| "replay d recovery trunc st (rc # rcs) =
     (case dispatch d recovery trunc st rc of
        (st', ev, Some e) \<Rightarrow> (st', ev, Some e)
      | (st', ev, None) \<Rightarrow>
          (case replay d recovery trunc st' rcs of (st'', ev', e) \<Rightarrow> (st'', ev @ ev', e)))"

text \<open>\<^verbatim>\<open>from_file\<close>: the class's own errors give \<^verbatim>\<open>None\<close>, the runtime's pass through.\<close>

definition from_file :: "bool \<Rightarrow> ckpt_stream \<Rightarrow> (ckpt_error, runner_state option) res" where
  "from_file trunc s =
     (case replay (new_dispatcher :: nat dispatcher) False trunc empty_runner_state
             (fst (iter_updates s)) of
        (st, _, Some (Own e)) \<Rightarrow> Inr None
      | (st, _, Some (Py e)) \<Rightarrow> Inl (Py e)
      | (st, _, None) \<Rightarrow> (case snd (iter_updates s) of
                            None \<Rightarrow> Inr (Some st)
                          | Some (Own e) \<Rightarrow> Inr None
                          | Some (Py e) \<Rightarrow> Inl (Py e)))"

section \<open>Truncation\<close>

definition keep_last :: "'a list \<Rightarrow> 'a list" where
  "keep_last xs = (if xs = [] then [] else [last xs])"

definition last_view :: "runner_state \<Rightarrow> runner_state" where
  "last_view st = st\<lparr>rs_statuses := map_option keep_last (rs_statuses st),
     rs_processes := (\<lambda>n. map_option keep_last (rs_processes st n))\<rparr>"

lemma keep_last_simps [simp]:
  "keep_last [] = []" "keep_last [x] = [x]" "keep_last (xs @ [x]) = [x]"
  "keep_last xs = [] \<longleftrightarrow> xs = []"
  by (auto simp: keep_last_def)

lemma last_opt_keep_last [simp]: "last_opt (keep_last xs) = last_opt xs"
  by (auto simp: keep_last_def last_opt_def)

lemma last_view_sel [simp]:
  "rs_header (last_view st) = rs_header st"
  "rs_statuses (last_view st) = map_option keep_last (rs_statuses st)"
  "rs_processes (last_view st) n = map_option keep_last (rs_processes st n)"
  by (simp_all add: last_view_def)

lemma last_view_upd:
  "last_view (st\<lparr>rs_header := h\<rparr>) = (last_view st)\<lparr>rs_header := h\<rparr>"
  "last_view (st\<lparr>rs_statuses := s\<rparr>) = (last_view st)\<lparr>rs_statuses := map_option keep_last s\<rparr>"
  "last_view (st\<lparr>rs_processes := (rs_processes st)(n \<mapsto> runs)\<rparr>) =
     (last_view st)\<lparr>rs_processes := (rs_processes (last_view st))(n \<mapsto> keep_last runs)\<rparr>"
  by (auto simp: last_view_def fun_eq_iff intro!: runner_state.equality)

definition view_result :: "'h dispatch_result \<Rightarrow> 'h dispatch_result" where
  "view_result r = (case r of (st, ev, e) \<Rightarrow> (last_view st, ev, e))"

lemma view_result_simp [simp]: "view_result (st, r) = (last_view st, r)"
  by (cases r) (simp add: view_result_def)

lemma set_last_keep_last [simp]:
  "set_last (keep_last xs) y = [y]" "keep_last (set_last xs y) = [y]"
  by (simp_all add: keep_last_def set_last_def)

lemma run_state_machine_last_view:
  "run_state_machine d (last_view st) u = view_result (run_state_machine d st u)"
  by (auto simp: run_state_machine_def last_view_upd Let_def
        split: option.split prod.split)

lemma open_run_keep_last:
  "rs \<noteq> Some [] \<Longrightarrow> open_run True (map_option keep_last rs) = keep_last (open_run False rs)"
  by (cases rs) (auto simp: open_run_def keep_last_def Let_def)

lemma enter_waiting_last_view:
  "rs_processes st (ps_process u) \<noteq> Some [] \<Longrightarrow>
     enter_waiting True (last_view st) u = last_view (enter_waiting False st u)"
  by (simp add: enter_waiting_def last_view_upd open_run_keep_last)

lemma current_run_last_view:
  "(case rs_processes (last_view st) n of None \<Rightarrow> None | Some runs \<Rightarrow> last_opt runs) =
   (case rs_processes st n of None \<Rightarrow> None | Some runs \<Rightarrow> last_opt runs)"
  by (auto split: option.split)

lemma dispatch_process_last_view:
  "dispatch_process d recovery True (last_view st) u =
   view_result (dispatch_process d recovery False st u)"
proof (cases "rs_processes st (ps_process u) = Some []")
  case True
  then show ?thesis by (simp add: dispatch_process_def)
next
  case False
  then have "rs_processes (last_view st) (ps_process u) \<noteq> Some []"
    by auto
  with False show ?thesis
    by (simp add: dispatch_process_def current_run_last_view enter_waiting_last_view
          run_state_machine_last_view Let_def del: last_view_sel(3) split: sum.split bool.split)
qed

lemma dispatch_task_last_view:
  "dispatch_task d True (last_view st) t = view_result (dispatch_task d False st t)"
  by (auto simp: dispatch_task_def last_view_upd Let_def split: option.split)

lemma dispatch_header_last_view:
  "dispatch_header d (last_view st) h = view_result (dispatch_header d st h)"
  by (auto simp: dispatch_header_def last_view_upd)

lemma dispatch_truncate:
  "dispatch d recovery True (last_view st) rc = view_result (dispatch d recovery False st rc)"
  by (simp add: dispatch_def dispatch_process_last_view dispatch_task_last_view
        dispatch_header_last_view split: option.split)

lemma replay_truncate:
  "replay d recovery True (last_view st) rcs = view_result (replay d recovery False st rcs)"
proof (induction rcs arbitrary: st)
  case Nil
  then show ?case by simp
next
  case (Cons rc rcs)
  obtain st' ev e where D: "dispatch d recovery False st rc = (st', ev, e)"
    by (metis prod_cases3)
  show ?case
    by (cases e) (simp_all add: dispatch_truncate D Cons.IH split: prod.split)
qed

lemma last_view_empty: "last_view empty_runner_state = empty_runner_state"
  by (simp add: last_view_def empty_runner_state_def)

lemma from_file_trunc:
  "from_file True s = (case from_file False s of
     Inl e \<Rightarrow> Inl e | Inr r \<Rightarrow> Inr (map_option last_view r))"
  using replay_truncate [of "new_dispatcher :: nat dispatcher" False empty_runner_state
      "fst (iter_updates s)"]
  by (simp add: from_file_def last_view_empty view_result_def
       split: prod.split option.split exn.split)

section \<open>Recovery\<close>

lemma would_update_no_op:
  assumes "would_update st (process_ckpt u) = Inr False"
  shows "dispatch d True tr st (process_ckpt u) = (st, [], None)"
proof -
  from assms obtain runs cur a b where
    "rs_processes st (ps_process u) = Some runs" "last_opt runs = Some cur"
    "ps_seq cur = Some a" "ps_seq u = Some b" "b \<le> a"
    by (auto simp: would_update_def process_ckpt_def split: option.splits)
  then show ?thesis
    by (auto simp: dispatch_def process_ckpt_def dispatch_process_def out_of_order_def)
qed

section \<open>What a recorded run looks like\<close>

definition forked_fields :: "process_status \<Rightarrow> bool" where
  "forked_fields p = (ps_fork_time p \<noteq> None \<and> ps_coordinator_pid p \<noteq> None)"

definition started_fields :: "process_status \<Rightarrow> bool" where
  "started_fields p = (ps_start_time p \<noteq> None \<and> ps_pid p \<noteq> None)"

definition stopped_fields :: "process_status \<Rightarrow> bool" where
  "stopped_fields p = (ps_stop_time p \<noteq> None \<and> ps_return_code p \<noteq> None)"

definition no_stop_fields :: "process_status \<Rightarrow> bool" where
  "no_stop_fields p = (ps_stop_time p = None \<and> ps_return_code p = None)"

lemmas field_groups = forked_fields_def started_fields_def stopped_fields_def no_stop_fields_def

definition run_ok :: "string option \<Rightarrow> process_status \<Rightarrow> bool" where
  "run_ok n p =
     (n \<noteq> None \<and> ps_process p = n \<and> ps_seq p \<noteq> None \<and>
      (case ps_state p of
         None \<Rightarrow> False
       | Some P_WAITING \<Rightarrow> ps_coordinator_pid p = None \<and> ps_pid p = None \<and> no_stop_fields p
       | Some P_FORKED \<Rightarrow> forked_fields p \<and> no_stop_fields p
       | Some P_RUNNING \<Rightarrow> forked_fields p \<and> started_fields p \<and> no_stop_fields p
       | Some P_SUCCESS \<Rightarrow> forked_fields p \<and> started_fields p \<and> stopped_fields p
       | Some P_KILLED \<Rightarrow> forked_fields p \<and> stopped_fields p
       | Some P_FAILED \<Rightarrow> no_stop_fields p
       | Some P_LOST \<Rightarrow> forked_fields p \<and> no_stop_fields p))"

definition seq_of :: "process_status \<Rightarrow> int" where
  "seq_of p = (case ps_seq p of None \<Rightarrow> 0 | Some s \<Rightarrow> s)"

definition history_ok :: "string option \<Rightarrow> process_status list \<Rightarrow> bool" where
  "history_ok n runs =
     (runs \<noteq> [] \<and> list_all (run_ok n) runs \<and> list_all is_terminal (butlast runs) \<and>
      sorted_wrt (\<lambda>a b. seq_of a < seq_of b) runs)"

definition state_ok :: "runner_state \<Rightarrow> bool" where
  "state_ok st =
     (rs_statuses st \<noteq> Some [] \<and>
      (\<forall>n runs. rs_processes st n = Some runs \<longrightarrow> history_ok n runs))"

text \<open>The fields an update must carry for the state it announces.\<close>

definition carries :: "process_status \<Rightarrow> bool" where
  "carries u =
     (ps_seq u \<noteq> None \<and>
      (case ps_state u of
         None \<Rightarrow> False
       | Some P_WAITING \<Rightarrow> ps_process u \<noteq> None
       | Some P_FORKED \<Rightarrow> forked_fields u
       | Some P_RUNNING \<Rightarrow> started_fields u
       | Some P_SUCCESS \<Rightarrow> stopped_fields u
       | Some P_KILLED \<Rightarrow> stopped_fields u
       | Some P_FAILED \<Rightarrow> True
       | Some P_LOST \<Rightarrow> True))"

text \<open>The edges of the process state machine inside one run.\<close>

inductive process_edge :: "process_state option \<Rightarrow> process_state \<Rightarrow> bool" where
  edge_create: "process_edge None P_WAITING"
| edge_fork: "process_edge (Some P_WAITING) P_FORKED"
| edge_run: "process_edge (Some P_FORKED) P_RUNNING"
| edge_success: "process_edge (Some P_RUNNING) P_SUCCESS"
| edge_failed: "s \<in> {P_WAITING, P_RUNNING} \<Longrightarrow> process_edge (Some s) P_FAILED"
| edge_killed: "s \<in> {P_FORKED, P_RUNNING} \<Longrightarrow> process_edge (Some s) P_KILLED"
| edge_lost: "s \<in> {P_FORKED, P_RUNNING} \<Longrightarrow> process_edge (Some s) P_LOST"

inductive_simps process_edge_simps [simp]:
  "process_edge s P_WAITING" "process_edge s P_FORKED" "process_edge s P_RUNNING"
  "process_edge s P_SUCCESS" "process_edge s P_FAILED" "process_edge s P_KILLED"
  "process_edge s P_LOST"

lemmas copy_simps = copy_fields_def assert_nonempty_def guarded_copy_def update_failed_def

lemma update_accepts:
  "snd (update_process_state p u) = None \<longleftrightarrow>
     carries u \<and> (\<exists>s. ps_state u = Some s \<and> process_edge (ps_state p) s)"
  by (cases "ps_state u"; cases "the (ps_state u)")
     (auto simp: update_process_state_def copy_simps carries_def field_groups split: if_splits)

lemma update_result:
  assumes "update_process_state p u = (p', None)"
  shows "ps_seq p' = ps_seq u" "ps_state p' = ps_state u"
    "ps_process p' = (if ps_state u = Some P_WAITING then ps_process u else ps_process p)"
  using assms
  by (cases "ps_state u"; cases "the (ps_state u)";
      auto simp: update_process_state_def copy_simps split: if_splits)+

lemma update_failed_stop_fields:
  assumes "update_process_state p u = (p', None)" "ps_state u = Some P_FAILED"
  shows "ps_stop_time p' = ps_stop_time p" "ps_return_code p' = ps_return_code p"
  using assms
  by (auto simp: update_process_state_def copy_simps split: if_splits)

lemma update_run_ok:
  assumes "update_process_state p u = (p', None)" "run_ok n p" "ps_process u = n"
  shows "run_ok n p'"
  using assms
  by (cases "ps_state u"; cases "the (ps_state u)")
     (auto simp: update_process_state_def copy_simps run_ok_def field_groups split: if_splits)

lemma update_fresh_ok:
  assumes "update_process_state (empty_status\<lparr>ps_seq := s\<rparr>) u = (p', None)"
  shows "run_ok (ps_process u) p'" "ps_state u = Some P_WAITING"
  using assms
  by (cases "ps_state u"; cases "the (ps_state u)";
      auto simp: update_process_state_def copy_simps run_ok_def field_groups empty_status_def
       split: if_splits)+

definition current_run :: "runner_state \<Rightarrow> string option \<Rightarrow> process_status option" where
  "current_run st n = (case rs_processes st n of None \<Rightarrow> None | Some runs \<Rightarrow> last_opt runs)"

definition in_sequence :: "process_status option \<Rightarrow> process_status \<Rightarrow> bool" where
  "in_sequence cur u = (case cur of None \<Rightarrow> True
     | Some c \<Rightarrow> ps_seq c \<noteq> None \<and> ps_seq u = Some (seq_of c + 1))"

text \<open>The runs the state machine finds: for a \<^verbatim>\<open>WAITING\<close> update a run is opened first.\<close>

definition target_runs :: "bool \<Rightarrow> runner_state \<Rightarrow> process_status \<Rightarrow> process_status list option" where
  "target_runs tr st u =
     (if ps_state u = Some P_WAITING
      then (if (case current_run st (ps_process u) of None \<Rightarrow> True | Some c \<Rightarrow> is_terminal c)
            then Some (open_run tr (rs_processes st (ps_process u))) else None)
      else rs_processes st (ps_process u))"

definition put_runs :: "runner_state \<Rightarrow> string option \<Rightarrow> process_status list \<Rightarrow> runner_state" where
  "put_runs st n runs = st\<lparr>rs_processes := (rs_processes st)(n \<mapsto> runs)\<rparr>"

lemma put_runs_sel [simp]:
  "rs_header (put_runs st n runs) = rs_header st"
  "rs_statuses (put_runs st n runs) = rs_statuses st"
  "rs_processes (put_runs st n runs) m = (if m = n then Some runs else rs_processes st m)"
  "put_runs (put_runs st n runs) n runs' = put_runs st n runs'"
  by (auto simp: put_runs_def)

lemma enter_waiting_put:
  "enter_waiting tr st u = put_runs st (ps_process u) (open_run tr (rs_processes st (ps_process u)))"
  by (simp add: enter_waiting_def put_runs_def)

lemma run_state_machine_Some:
  assumes "rs_processes st (ps_process u) = Some runs" "runs \<noteq> []"
    "update_process_state (last runs) u = (c, e)"
  shows "run_state_machine d st u =
    (let st' = put_runs st (ps_process u) (set_last runs c)
     in case e of Some x \<Rightarrow> (st', [], Some x) | None \<Rightarrow> (st', run_process_dispatch d (ps_state u) u))"
  using assms by (simp add: run_state_machine_def put_runs_def last_opt_def)

lemma run_process_dispatch_Some:
  "snd (run_process_dispatch d (Some s) u) = None"
  by (simp add: run_process_dispatch_def Let_def)

lemma open_run_nonempty [simp]: "open_run tr rs \<noteq> []"
  by (auto simp: open_run_def Let_def split: option.split)

lemma last_open_run: "\<exists>s. last (open_run tr rs) = empty_status\<lparr>ps_seq := s\<rparr>"
  by (auto simp: open_run_def Let_def split: option.split)

text \<open>What a process update without an error has done.\<close>

lemma dispatch_process_success:
  assumes "dispatch_process d recovery tr st u = (st', ev, None)"
  obtains (skipped) "recovery" "st' = st" "ev = []" "\<not> in_sequence (current_run st (ps_process u)) u"
  | (applied) runs c where "in_sequence (current_run st (ps_process u)) u"
      "target_runs tr st u = Some runs" "runs \<noteq> []"
      "update_process_state (last runs) u = (c, None)"
      "st' = put_runs st (ps_process u) (set_last runs c)"
      "run_process_dispatch d (ps_state u) u = (ev, None)"
proof -
  let ?n = "ps_process u"
  have ne: "rs_processes st ?n \<noteq> Some []"
    using assms by (auto simp: dispatch_process_def)
  have A: thesis if seq: "in_sequence (current_run st ?n) u"
    and run: "run_state_machine d (if ps_state u = Some P_WAITING then enter_waiting tr st u else st) u
        = (st', ev, None)"
    and wait: "ps_state u = Some P_WAITING \<Longrightarrow>
        (case current_run st ?n of None \<Rightarrow> True | Some c \<Rightarrow> is_terminal c)"
  proof -
    let ?st = "if ps_state u = Some P_WAITING then enter_waiting tr st u else st"
    obtain runs where runs: "rs_processes ?st ?n = Some runs"
      using run by (auto simp: run_state_machine_def split: option.splits)
    have nonempty: "runs \<noteq> []"
      using runs ne by (auto simp: enter_waiting_put split: if_splits)
    have target: "target_runs tr st u = Some runs"
      using runs wait by (auto simp: target_runs_def enter_waiting_put split: if_splits)
    obtain c e where upd: "update_process_state (last runs) u = (c, e)"
      by (cases "update_process_state (last runs) u")
    show thesis
    proof (rule applied [OF seq target nonempty])
      from run_state_machine_Some [OF runs nonempty upd, of d] run
      have e: "e = None" and st': "st' = put_runs ?st ?n (set_last runs c)"
        and ev: "run_process_dispatch d (ps_state u) u = (ev, None)"
        by (auto simp: Let_def split: option.splits)
      show "run_process_dispatch d (ps_state u) u = (ev, None)" by (rule ev)
      show "update_process_state (last runs) u = (c, None)" using upd e by simp
      show "st' = put_runs st ?n (set_last runs c)"
        using st' by (auto simp: enter_waiting_put split: if_splits)
    qed
  qed
  show thesis
  proof (cases "in_sequence (current_run st ?n) u")
    case False
    then show thesis
      using assms ne skipped
      by (auto simp: dispatch_process_def in_sequence_def current_run_def out_of_order_def
            seq_of_def last_opt_def Let_def split: option.splits if_splits)
  next
    case True
    show thesis
      by (rule A [OF True]; use assms ne True in
        \<open>auto simp: dispatch_process_def in_sequence_def current_run_def out_of_order_def
            seq_of_def last_opt_def Let_def split: option.splits if_splits\<close>)
  qed
qed

lemma history_ok_set_last:
  assumes "history_ok n runs" "run_ok n c" "seq_of (last runs) \<le> seq_of c"
  shows "history_ok n (set_last runs c)"
proof -
  obtain xs x where runs: "runs = xs @ [x]"
    using assms(1) by (metis history_ok_def rev_exhaust)
  show ?thesis
    using assms by (auto simp: runs history_ok_def sorted_wrt_append list_all_iff)
qed

lemma history_ok_snoc:
  assumes "history_ok n runs" "is_terminal (last runs)" "run_ok n c"
    "seq_of (last runs) < seq_of c"
  shows "history_ok n (runs @ [c])"
proof -
  obtain xs x where runs: "runs = xs @ [x]"
    using assms(1) by (metis history_ok_def rev_exhaust)
  have "seq_of y < seq_of c" if "y \<in> set runs" for y
    using assms that by (auto simp: runs history_ok_def sorted_wrt_append)
  then show ?thesis
    using assms by (auto simp: runs history_ok_def sorted_wrt_append list_all_iff
        butlast_append)
qed

lemma history_ok_single: "run_ok n c \<Longrightarrow> history_ok n [c]"
  by (simp add: history_ok_def)

lemma applied_history_ok:
  assumes ok: "state_ok st" and seq: "in_sequence (current_run st (ps_process u)) u"
    and target: "target_runs tr st u = Some runs"
    and upd: "update_process_state (last runs) u = (c, None)"
  shows "history_ok (ps_process u) (set_last runs c)"
proof -
  let ?n = "ps_process u"
  have hist: "history_ok ?n rs" if "rs_processes st ?n = Some rs" for rs
    using ok that by (simp add: state_ok_def)
  have ne: "rs \<noteq> []" if "rs_processes st ?n = Some rs" for rs
    using hist [OF that] by (simp add: history_ok_def)
  have sc: "seq_of c = seq_of u" using update_result [OF upd] by (simp add: seq_of_def)
  have su: "seq_of (last rs) < seq_of u" if "rs_processes st ?n = Some rs" for rs
    using seq that ne [OF that]
    by (auto simp: in_sequence_def current_run_def last_opt_def seq_of_def)
  show ?thesis
  proof (cases "ps_state u = Some P_WAITING")
    case True
    then have runs: "runs = open_run tr (rs_processes st ?n)"
      and trm: "case current_run st ?n of None \<Rightarrow> True | Some c \<Rightarrow> is_terminal c"
      using target by (auto simp: target_runs_def split: if_splits)
    obtain s where "last runs = empty_status\<lparr>ps_seq := s\<rparr>"
      using last_open_run runs by metis
    then have c: "run_ok ?n c" using update_fresh_ok(1) upd by metis
    show ?thesis
    proof (cases "rs_processes st ?n")
      case None
      then show ?thesis using c by (simp add: runs open_run_def history_ok_single)
    next
      case (Some rs)
      have "is_terminal (last rs)"
        using trm Some ne [OF Some] by (simp add: current_run_def last_opt_def)
      then show ?thesis
        using history_ok_snoc [OF hist [OF Some] _ c] su [OF Some] sc history_ok_single [OF c]
        by (simp add: runs open_run_def Some Let_def)
    qed
  next
    case False
    then have runs: "rs_processes st ?n = Some runs"
      using target by (simp add: target_runs_def)
    have "run_ok ?n (last runs)"
      using hist [OF runs] by (auto simp: history_ok_def list_all_iff)
    then show ?thesis
      using hist [OF runs] update_run_ok [OF upd _ refl] su [OF runs] sc
      by (intro history_ok_set_last) auto
  qed
qed

lemma dispatch_process_state_ok:
  assumes "dispatch_process d recovery tr st u = (st', ev, None)" "state_ok st"
  shows "state_ok st'"
  using assms(1)
proof (cases rule: dispatch_process_success)
  case skipped
  then show ?thesis using assms(2) by simp
next
  case (applied runs c)
  then show ?thesis
    using applied_history_ok [OF assms(2) applied(1,2,4)] assms(2)
    by (auto simp: state_ok_def)
qed

lemma dispatch_state_ok [inv_intros]:
  assumes "state_ok st" "dispatch d recovery tr st rc = (st', ev, None)"
  shows "state_ok st'"
proof -
  have "state_ok st'" if "dispatch_header d st h = (st', ev, None)" for h
    using assms(1) that by (auto simp: dispatch_header_def state_ok_def split: if_splits)
  moreover have "state_ok st'" if "dispatch_task d tr st t = (st', ev, None)" for t
    using assms(1) that
    by (auto simp: dispatch_task_def state_ok_def Let_def split: if_splits option.splits)
  ultimately show ?thesis
    using assms dispatch_process_state_ok
    by (auto simp: dispatch_def split: option.splits)
qed

lemma replay_state_ok:
  "replay d recovery tr st rcs = (st', ev, None) \<Longrightarrow> state_ok st \<Longrightarrow> state_ok st'"
proof (induction rcs arbitrary: st ev)
  case Nil
  then show ?case by simp
next
  case (Cons rc rcs)
  then obtain st1 ev1 ev2 where "dispatch d recovery tr st rc = (st1, ev1, None)"
    "replay d recovery tr st1 rcs = (st', ev2, None)"
    by (auto split: prod.splits option.splits)
  then show ?case using Cons.IH Cons.prems(2) dispatch_state_ok by metis
qed

lemma state_ok_empty [simp]: "state_ok empty_runner_state"
  by (simp add: state_ok_def empty_runner_state_def)

lemma from_file_ok:
  assumes "from_file tr s = Inr (Some st)"
  shows "state_ok st"
  using assms replay_state_ok [of "new_dispatcher :: nat dispatcher" False tr empty_runner_state
      "fst (iter_updates s)"]
  by (auto simp: from_file_def split: prod.splits option.splits exn.splits)

section \<open>The abstract process machine\<close>

text \<open>Per process only the sequence number and the state of the latest run.\<close>

type_synonym process_spec = "string option \<Rightarrow> (int \<times> process_state) option"

definition spec_of :: "runner_state \<Rightarrow> process_spec" where
  "spec_of st n = (case current_run st n of
     Some p \<Rightarrow> (case ps_state p of Some s \<Rightarrow> Some (seq_of p, s) | None \<Rightarrow> None)
   | None \<Rightarrow> None)"

inductive spec_step :: "process_spec \<Rightarrow> process_status \<Rightarrow> process_spec \<Rightarrow> bool" where
  spec_start: "m (ps_process u) = None \<Longrightarrow> ps_state u = Some P_WAITING \<Longrightarrow> ps_seq u = Some k \<Longrightarrow>
    spec_step m u (m(ps_process u \<mapsto> (k, P_WAITING)))"
| spec_restart: "m (ps_process u) = Some (k, s) \<Longrightarrow> terminal_process_state (Some s) \<Longrightarrow>
    ps_state u = Some P_WAITING \<Longrightarrow> ps_seq u = Some (k + 1) \<Longrightarrow>
    spec_step m u (m(ps_process u \<mapsto> (k + 1, P_WAITING)))"
| spec_move: "m (ps_process u) = Some (k, s) \<Longrightarrow> process_edge (Some s) s' \<Longrightarrow>
    ps_state u = Some s' \<Longrightarrow> ps_seq u = Some (k + 1) \<Longrightarrow>
    spec_step m u (m(ps_process u \<mapsto> (k + 1, s')))"

lemma current_run_ok:
  assumes "state_ok st" "current_run st n = Some p"
  shows "run_ok n p"
  using assms
  by (auto simp: current_run_def state_ok_def history_ok_def list_all_iff last_opt_def
      split: option.splits if_splits)

lemma run_ok_state: "run_ok n p \<Longrightarrow> \<exists>s. ps_state p = Some s"
  by (auto simp: run_ok_def split: option.splits)

lemma run_ok_seq: "run_ok n p \<Longrightarrow> ps_seq p = Some (seq_of p)"
  by (auto simp: run_ok_def seq_of_def)

lemma spec_of_None:
  assumes "state_ok st"
  shows "spec_of st n = None \<longleftrightarrow> rs_processes st n = None"
proof -
  have "spec_of st n = None \<longleftrightarrow> current_run st n = None"
    using run_ok_state current_run_ok [OF assms]
    by (fastforce simp: spec_of_def split: option.splits)
  also have "\<dots> \<longleftrightarrow> rs_processes st n = None"
    using assms by (auto simp: current_run_def state_ok_def history_ok_def split: option.splits)
  finally show ?thesis .
qed

lemma spec_of_Some:
  "state_ok st \<Longrightarrow> spec_of st n = Some (k, s) \<longleftrightarrow>
    (\<exists>p. current_run st n = Some p \<and> ps_seq p = Some k \<and> ps_state p = Some s)"
  using run_ok_seq current_run_ok
  by (fastforce simp: spec_of_def split: option.splits)

lemma update_carries: "update_process_state p u = (p', None) \<Longrightarrow> carries u"
  using update_accepts [of p u] by simp

lemma spec_of_put:
  "ps_state c = Some s \<Longrightarrow> spec_of (put_runs st n (set_last runs c)) = (spec_of st)(n \<mapsto> (seq_of c, s))"
  by (auto simp: spec_of_def current_run_def fun_eq_iff)

lemma target_runs_state:
  assumes "state_ok st" "target_runs tr st u = Some runs"
  shows "if ps_state u = Some P_WAITING then ps_state (last runs) = None
         else current_run st (ps_process u) = Some (last runs)"
  using assms
  by (auto simp: target_runs_def open_run_def empty_status_def current_run_def last_opt_def Let_def
      state_ok_def history_ok_def split: if_splits option.splits)

lemma dispatch_spec_step:
  assumes "state_ok st" "dispatch d False tr st (process_ckpt u) = (st', ev, None)"
  shows "spec_step (spec_of st) u (spec_of st')"
proof -
  have "dispatch_process d False tr st u = (st', ev, None)"
    using assms(2) by (simp add: dispatch_def process_ckpt_def)
  then show ?thesis
  proof (cases rule: dispatch_process_success)
    case (applied runs c)
    let ?n = "ps_process u"
    obtain s where s: "ps_state u = Some s" "process_edge (ps_state (last runs)) s" "carries u"
      using update_accepts [of "last runs" u] applied(4) by auto
    have c: "ps_state c = Some s" "seq_of c = seq_of u"
      using update_result [OF applied(4)] s by (auto simp: seq_of_def)
    have seq: "ps_seq u = Some (seq_of u)"
      using s(3) by (auto simp: carries_def seq_of_def)
    have spec: "spec_of st' = (spec_of st)(?n \<mapsto> (seq_of u, s))"
      using spec_of_put [OF c(1)] applied(5) c by simp
    have next_seq: "seq_of u = k + 1" if "spec_of st ?n = Some (k, t)" for k t
      using applied(1) that seq
      by (auto simp: spec_of_Some [OF assms(1)] in_sequence_def seq_of_def)
    show ?thesis
    proof (cases "s = P_WAITING")
      case True
      show ?thesis
      proof (cases "spec_of st ?n")
        case None
        then show ?thesis using spec_start [of "spec_of st" u "seq_of u"] None s seq True by (simp add: spec)
      next
        case (Some kt)
        obtain k t where kt: "kt = (k, t)" by (cases kt)
        have "terminal_process_state (Some t)"
          using applied(2) Some kt s True
          by (auto simp: target_runs_def spec_of_Some [OF assms(1)] is_terminal_def
              split: if_splits)
        then show ?thesis
          using spec_restart [of "spec_of st" u k t] Some kt s seq True next_seq [of k t]
          by (simp add: spec)
      qed
    next
      case False
      have "current_run st ?n = Some (last runs)"
        using target_runs_state [OF assms(1) applied(2)] s False by simp
      moreover obtain t where t: "ps_state (last runs) = Some t"
        using current_run_ok [OF assms(1) calculation] run_ok_state by blast
      ultimately have "spec_of st ?n = Some (seq_of (last runs), t)"
        by (simp add: spec_of_def)
      then show ?thesis
        using spec_move [of "spec_of st" u _ t s] s seq next_seq t by (simp add: spec)
    qed
  qed simp
qed

lemma dispatch_accepts:
  assumes "state_ok st"
  shows "snd (snd (dispatch d False tr st (process_ckpt u))) = None \<longleftrightarrow>
     carries u \<and> (\<exists>m. spec_step (spec_of st) u m)"
proof
  assume ok: "snd (snd (dispatch d False tr st (process_ckpt u))) = None"
  then obtain st' ev where D: "dispatch d False tr st (process_ckpt u) = (st', ev, None)"
    by (metis prod.collapse)
  then have "dispatch_process d False tr st u = (st', ev, None)"
    by (simp add: dispatch_def process_ckpt_def)
  then have "carries u"
    by (cases rule: dispatch_process_success) (auto dest: update_carries)
  then show "carries u \<and> (\<exists>m. spec_step (spec_of st) u m)"
    using dispatch_spec_step [OF assms D] by blast
next
  assume R: "carries u \<and> (\<exists>m. spec_step (spec_of st) u m)"
  then obtain m where step: "spec_step (spec_of st) u m" and u: "carries u" by blast
  let ?n = "ps_process u"
  have run: "snd (snd (run_state_machine d st' u)) = None"
    if "rs_processes st' ?n = Some runs" "runs \<noteq> []" "process_edge (ps_state (last runs)) s"
      "ps_state u = Some s" for st' runs s
  proof -
    obtain c e where upd: "update_process_state (last runs) u = (c, e)" by fastforce
    then have "e = None" using update_accepts [of "last runs" u] u that by auto
    then show ?thesis
      using run_state_machine_Some [OF that(1,2) upd, of d] that(4)
      by (simp add: Let_def run_process_dispatch_Some)
  qed
  have D: "dispatch d False tr st (process_ckpt u) = dispatch_process d False tr st u"
    by (simp add: dispatch_def process_ckpt_def)
  have fresh: "ps_state (last (open_run tr rs)) = None" for rs
    using last_open_run [of tr rs] by (auto simp: empty_status_def)
  show "snd (snd (dispatch d False tr st (process_ckpt u))) = None"
    using step
  proof (cases rule: spec_step.cases)
    case (spec_start k)
    have "snd (snd (run_state_machine d (enter_waiting tr st u) u)) = None"
      by (rule run [of _ "open_run tr None" P_WAITING])
         (use spec_start spec_of_None [OF assms] fresh in \<open>auto simp: enter_waiting_put\<close>)
    then show ?thesis
      unfolding D using spec_start spec_of_None [OF assms, of ?n] by (simp add: dispatch_process_def)
  next
    case (spec_restart k s)
    then obtain rs p where rs: "rs_processes st ?n = Some rs" "rs \<noteq> []" "last_opt rs = Some p"
      "ps_seq p = Some k" "ps_state p = Some s"
      by (auto simp: spec_of_Some [OF assms] current_run_def last_opt_def split: option.splits if_splits)
    have "snd (snd (run_state_machine d (enter_waiting tr st u) u)) = None"
      by (rule run [of _ "open_run tr (Some rs)" P_WAITING])
         (use spec_restart rs fresh in \<open>auto simp: enter_waiting_put\<close>)
    then show ?thesis
      unfolding D using spec_restart rs
      by (simp add: dispatch_process_def out_of_order_def is_terminal_def)
  next
    case (spec_move k s s')
    then obtain rs p where rs: "rs_processes st ?n = Some rs" "rs \<noteq> []" "last_opt rs = Some p"
      "ps_seq p = Some k" "ps_state p = Some s" "last rs = p"
      by (auto simp: spec_of_Some [OF assms] current_run_def last_opt_def split: option.splits if_splits)
    have "snd (snd (run_state_machine d st u)) = None"
      by (rule run [of _ rs s']) (use spec_move rs in auto)
    moreover have "ps_state u \<noteq> Some P_WAITING"
      using spec_move by auto
    ultimately show ?thesis
      unfolding D using spec_move rs
      by (simp add: dispatch_process_def out_of_order_def)
  qed
qed

lemma run_state_machine_statuses: "rs_statuses (fst (run_state_machine d st u)) = rs_statuses st"
  by (auto simp: run_state_machine_def Let_def put_runs_def split: option.splits prod.splits)

lemma dispatch_process_statuses: "rs_statuses (fst (dispatch_process d rec tr st u)) = rs_statuses st"
  by (auto simp: dispatch_process_def run_state_machine_statuses enter_waiting_def Let_def put_runs_def
      split: option.splits prod.splits sum.splits bool.splits)

lemma dispatch_replay_append:
  "replay d rec tr st xs = (st', ev, None) \<Longrightarrow>
     replay d rec tr st (xs @ ys) =
       (case replay d rec tr st' ys of (st'', ev', e) \<Rightarrow> (st'', ev @ ev', e))"
proof (induction xs arbitrary: st ev)
  case (Cons x xs)
  then obtain st1 ev1 ev2 where "dispatch d rec tr st x = (st1, ev1, None)"
    "replay d rec tr st1 xs = (st', ev2, None)" "ev = ev1 @ ev2"
    by (auto split: prod.splits option.splits)
  then show ?case using Cons.IH by (auto split: prod.splits)
qed simp

section \<open>Properties\<close>

text \<open>A status that carries every field, for the concrete runs below.\<close>

definition full_status :: "string \<Rightarrow> int \<Rightarrow> process_state \<Rightarrow> process_status" where
  "full_status n k s = \<lparr>ps_seq = Some k, ps_process = Some n, ps_state = Some s,
     ps_coordinator_pid = Some 7, ps_fork_time = Some 1, ps_start_time = Some 2, ps_pid = Some 8,
     ps_stop_time = Some 3, ps_return_code = Some 0\<rparr>"

definition sample_stream :: ckpt_stream where
  "sample_stream = \<lparr>cs_updates = map process_ckpt
     [full_status ''p'' 0 P_WAITING, full_status ''p'' 1 P_FORKED, full_status ''p'' 2 P_RUNNING,
      full_status ''p'' 3 P_FAILED, full_status ''p'' 4 P_WAITING], cs_broken = False\<rparr>"

lemmas run_dispatch = replay.simps dispatch_def process_ckpt_def dispatch_process_def
  out_of_order_def is_terminal_def terminal_process_state_def enter_waiting_def open_run_def
  run_state_machine_def update_process_state_def copy_simps run_process_dispatch_def
  empty_status_def full_status_def Let_def new_dispatcher_def last_opt_def set_last_def

text \<open>C21: a checkpoint file that \<open>from_file\<close> reads leaves only well-formed histories:
  every process has at least one run, the sequence numbers of its runs strictly increase, every
  run but the last is terminal, and a run carries exactly the times and ids that its state
  implies, whether or not old runs are truncated.\<close>

theorem from_file_state_ok:
  assumes "from_file tr s = Inr (Some st)"
  shows "state_ok st"
  using assms by (rule from_file_ok)

theorem from_file_state_ok_witness:
  "\<exists>st. from_file False sample_stream = Inr (Some st) \<and> state_ok st \<and>
     map_option length (rs_processes st (Some ''p'')) = Some 2"
proof -
  obtain st where st: "from_file False sample_stream = Inr (Some st)"
    "map_option length (rs_processes st (Some ''p'')) = Some 2"
    by (simp add: from_file_def sample_stream_def iter_updates_def empty_runner_state_def run_dispatch)
  then show ?thesis using from_file_state_ok [of False sample_stream st] by blast
qed

text \<open>C1: in order replay refines the abstract process machine: from a well-formed
  state a process update is accepted exactly when it carries the fields its state needs and the
  machine has a step for it (next sequence number, legal edge), and then the new state is the
  machine's step and is well-formed again.\<close>

theorem dispatch_refines_machine:
  assumes "state_ok st" "dispatch d False tr st (process_ckpt u) = (st', ev, e)"
  shows "(e = None \<longleftrightarrow> carries u \<and> (\<exists>m. spec_step (spec_of st) u m)) \<and>
    (e = None \<longrightarrow> spec_step (spec_of st) u (spec_of st') \<and> state_ok st')"
  using assms dispatch_accepts [OF assms(1), of d tr u] dispatch_spec_step [of st d tr u st' ev]
    dispatch_state_ok [of st d False tr "process_ckpt u" st' ev]
  by auto

theorem dispatch_refines_machine_witness:
  "\<exists>st' ev. dispatch (new_dispatcher :: nat dispatcher) False False empty_runner_state
      (process_ckpt (full_status ''p'' 0 P_WAITING)) = (st', ev, None) \<and> state_ok st' \<and>
    spec_step (spec_of empty_runner_state) (full_status ''p'' 0 P_WAITING) (spec_of st')"
proof -
  obtain st' ev where D: "dispatch (new_dispatcher :: nat dispatcher) False False
      empty_runner_state (process_ckpt (full_status ''p'' 0 P_WAITING)) = (st', ev, None)"
    by (simp add: empty_runner_state_def run_dispatch)
  show ?thesis
    using dispatch_refines_machine [OF state_ok_empty D] D by blast
qed

text \<open>C24: truncation only forgets history: replaying a file with
  \<open>truncate\<close> raises the same error, or gives the same state with every list of
  runs and of task statuses cut to its last element.\<close>

theorem from_file_truncate:
  "from_file True s = (case from_file False s of
     Inl e \<Rightarrow> Inl e | Inr r \<Rightarrow> Inr (map_option last_view r))"
  by (rule from_file_trunc)

text \<open>An update that \<open>would_update\<close> reports as not ahead of the
  process's high-water mark is ignored in recovery mode: the state is unchanged, no handler is
  called and nothing is raised.\<close>

theorem would_update_skip:
  assumes "would_update st (process_ckpt u) = Inr False"
  shows "dispatch d True tr st (process_ckpt u) = (st, [], None)"
  using assms by (rule would_update_no_op)

theorem would_update_skip_witness:
  "dispatch (new_dispatcher :: nat dispatcher) True False
     (put_runs empty_runner_state (Some ''p'') [full_status ''p'' 3 P_RUNNING])
     (process_ckpt (full_status ''p'' 2 P_FORKED)) =
   (put_runs empty_runner_state (Some ''p'') [full_status ''p'' 3 P_RUNNING], [], None)"
  by (rule would_update_skip)
     (simp add: would_update_def process_ckpt_def full_status_def)

text \<open>A run that goes to \<open>FAILED\<close> never gets the stop time and return code
  that the update carries: the branch copies them only if the update itself is
  \<open>RUNNING\<close>, which it is not.\<close>

theorem failed_drops_exit_status:
  assumes "update_process_state p u = (p', None)" "ps_state u = Some P_FAILED"
  shows "ps_stop_time p' = ps_stop_time p \<and> ps_return_code p' = ps_return_code p"
  using update_failed_stop_fields [OF assms] by simp

theorem failed_drops_exit_status_witness:
  "\<exists>p'. update_process_state (empty_status\<lparr>ps_state := Some P_RUNNING\<rparr>) (full_status ''p'' 3 P_FAILED)
        = (p', None) \<and> ps_return_code p' = None \<and>
     ps_return_code (full_status ''p'' 3 P_FAILED) = Some 0"
proof -
  obtain p' where U: "update_process_state (empty_status\<lparr>ps_state := Some P_RUNNING\<rparr>)
      (full_status ''p'' 3 P_FAILED) = (p', None)"
    by (simp add: update_process_state_def copy_simps full_status_def)
  then show ?thesis
    using failed_drops_exit_status [OF U] by (simp add: empty_status_def full_status_def)
qed

end
