(* ===== verification/RecordIO.thy ===== *)
theory RecordIO
  imports Prelude "HOL-Library.Word" "HOL-Library.Sublist"
begin

text \<open>
  Length-prefixed record streams, \<^verbatim>\<open>twitter/common/recordio/recordio.py\<close>: a record is a
  four-byte big-endian length and that many bytes.  A file handle is the bytes of the file,
  a position and a mode; the codec is a pair of functions, as the source takes it as an
  argument.  Whether a call of \<^verbatim>\<open>write\<close> fails is an argument too.  Writers append: the
  callers open their files in an append mode.
\<close>

type_synonym byte = "8 word"

record fp =
  fp_data :: "byte list"
  fp_pos :: nat
  fp_mode :: string

datatype rec_error = PrematureEndOfStream | RecordSizeExceeded | InvalidTypeException
  | InvalidFileHandle | InvalidArgument | InvalidCodec | StructError

type_synonym 'a rec_res = "(rec_error, 'a) res"

definition record_header_size :: nat where
  "record_header_size = 4"

definition maximum_record_size :: nat where
  "maximum_record_size = 64 * 1024 * 1024"

section \<open>Files\<close>

definition fp_seek :: "fp \<Rightarrow> nat \<Rightarrow> fp" where
  "fp_seek f pos = f\<lparr>fp_pos := pos\<rparr>"

definition fp_read :: "nat \<Rightarrow> fp \<Rightarrow> byte list \<times> fp" where
  "fp_read n f = (let bs = take n (drop (fp_pos f) (fp_data f))
                  in (bs, f\<lparr>fp_pos := fp_pos f + length bs\<rparr>))"

definition fp_write :: "byte list \<Rightarrow> fp \<Rightarrow> fp" where
  "fp_write bs f = f\<lparr>fp_data := fp_data f @ bs, fp_pos := length (fp_data f) + length bs\<rparr>"

text \<open>\<^verbatim>\<open>struct.pack('>L', n)\<close> and \<^verbatim>\<open>struct.unpack('>L', header)[0]\<close>.\<close>

definition pack_be32 :: "nat \<Rightarrow> byte list option" where
  "pack_be32 n = (if n < 2 ^ 32
     then Some [of_nat (n div 2 ^ 24), of_nat (n div 2 ^ 16), of_nat (n div 2 ^ 8), of_nat n]
     else None)"

definition unpack_be32 :: "byte list \<Rightarrow> nat" where
  "unpack_be32 bs = foldl (\<lambda>n b. n * 256 + unat b) 0 bs"

section \<open>Streams\<close>

text \<open>The checks of \<^verbatim>\<open>_Stream.__init__\<close>: the handle must be file-like, the codec a codec.\<close>

definition stream_init :: "bool \<Rightarrow> bool \<Rightarrow> unit rec_res" where
  "stream_init is_filelike is_codec =
     (if \<not> is_filelike then Inl (Own InvalidFileHandle)
      else if \<not> is_codec then Inl (Own InvalidCodec) else Inr ())"

definition mode_has :: "string \<Rightarrow> char \<Rightarrow> bool" where
  "mode_has mode c = (c \<in> set mode)"

definition reader_init :: "bool \<Rightarrow> bool \<Rightarrow> string \<Rightarrow> unit rec_res" where
  "reader_init is_filelike is_codec mode =
     rbind (stream_init is_filelike is_codec) (\<lambda>_.
       if (mode_has mode (CHR ''w'') \<or> mode_has mode (CHR ''a'')) \<and> \<not> mode_has mode (CHR ''+'')
       then Inl (Own InvalidFileHandle) else Inr ())"

definition writer_init :: "bool \<Rightarrow> bool \<Rightarrow> string \<Rightarrow> unit rec_res" where
  "writer_init is_filelike is_codec mode =
     rbind (stream_init is_filelike is_codec) (\<lambda>_.
       if \<not> mode_has mode (CHR ''w'') \<and> \<not> mode_has mode (CHR ''a'') \<and> \<not> mode_has mode (CHR ''+'')
       then Inl (Own InvalidFileHandle) else Inr ())"

definition do_read :: "(byte list \<Rightarrow> 'a rec_res) \<Rightarrow> fp \<Rightarrow> 'a option rec_res \<times> fp" where
  "do_read decode f =
     (case fp_read record_header_size f of (header, f1) \<Rightarrow>
        if length header = 0 then (Inr None, f1)
        else if length header \<noteq> record_header_size then (Inl (Own PrematureEndOfStream), f1)
        else let blob_len = unpack_be32 header in
             if blob_len > maximum_record_size then (Inl (Own RecordSizeExceeded), f1)
             else (case fp_read blob_len f1 of (blob, f2) \<Rightarrow>
                     if length blob \<noteq> blob_len then (Inl (Own PrematureEndOfStream), f2)
                     else (rbind (decode blob) (\<lambda>x. Inr (Some x)), f2)))"

definition try_read :: "(byte list \<Rightarrow> 'a rec_res) \<Rightarrow> fp \<Rightarrow> 'a option rec_res \<times> fp" where
  "try_read decode f =
     (case do_read decode f of
        (Inl (Own PrematureEndOfStream), f') \<Rightarrow> (Inr None, fp_seek f' (fp_pos f))
      | r \<Rightarrow> r)"

text \<open>\<open>ok1\<close> and \<open>ok2\<close> say whether the two writes succeed.\<close>

definition do_write ::
  "('a \<Rightarrow> byte list rec_res) \<Rightarrow> bool \<Rightarrow> bool \<Rightarrow> 'a \<Rightarrow> fp \<Rightarrow> bool rec_res \<times> fp" where
  "do_write encode ok1 ok2 rc f =
     (case encode rc of
        Inl e \<Rightarrow> (Inl e, f)
      | Inr blob \<Rightarrow>
          (case pack_be32 (length blob) of
             None \<Rightarrow> (Inl (Own StructError), f)
           | Some header \<Rightarrow>
               (if \<not> ok1 then (Inr False, f)
                else let f1 = fp_write header f in
                     if \<not> ok2 then (Inr False, f1) else (Inr True, fp_write blob f1))))"

text \<open>\<^verbatim>\<open>Writer.append\<close>: the file is looked up by name; \<open>None\<close> is a file that does not exist.\<close>

definition writer_append :: "('a \<Rightarrow> byte list rec_res) \<Rightarrow> bool \<Rightarrow> bool \<Rightarrow> bool \<Rightarrow> fp option \<Rightarrow> 'a
    \<Rightarrow> bool rec_res \<times> fp option" where
  "writer_append encode is_codec ok1 ok2 file rc =
     (if \<not> is_codec then (Inl (Own InvalidCodec), file)
      else case file of
             None \<Rightarrow> (Inr False, None)
           | Some f \<Rightarrow> (case do_write encode ok1 ok2 rc f of (r, f') \<Rightarrow> (r, Some f')))"

text \<open>\<^verbatim>\<open>Reader.__iter__\<close> on a duplicate of the handle, from the start of the file: it stops at
  the end of the data and at the first blob that is false (\<open>truthy\<close> is Python's test).
  Every record takes at least its header, so a fuel of the file's length is enough.\<close>

fun iter_from :: "(byte list \<Rightarrow> 'a rec_res) \<Rightarrow> ('a \<Rightarrow> bool) \<Rightarrow> nat \<Rightarrow> fp
    \<Rightarrow> 'a list \<times> rec_error exn option" where
  "iter_from decode truthy 0 f = ([], None)"
| "iter_from decode truthy (Suc n) f =
     (case do_read decode f of
        (Inl e, _) \<Rightarrow> ([], Some e)
      | (Inr None, _) \<Rightarrow> ([], None)
      | (Inr (Some x), f') \<Rightarrow>
          (if truthy x then (case iter_from decode truthy n f' of (xs, e) \<Rightarrow> (x # xs, e))
           else ([], None)))"

definition reader_iter :: "(byte list \<Rightarrow> 'a rec_res) \<Rightarrow> ('a \<Rightarrow> bool) \<Rightarrow> fp
    \<Rightarrow> 'a list \<times> rec_error exn option" where
  "reader_iter decode truthy f =
     iter_from decode truthy (Suc (length (fp_data f))) (fp_seek f 0)"

text \<open>The loop of the readers that follow a growing file: \<^verbatim>\<open>try_read\<close> until it gives nothing.\<close>

fun drain :: "(byte list \<Rightarrow> 'a rec_res) \<Rightarrow> nat \<Rightarrow> fp \<Rightarrow> 'a list rec_res \<times> fp" where
  "drain decode 0 f = (Inr [], f)"
| "drain decode (Suc n) f =
     (case try_read decode f of
        (Inl e, f') \<Rightarrow> (Inl e, f')
      | (Inr None, f') \<Rightarrow> (Inr [], f')
      | (Inr (Some x), f') \<Rightarrow>
          (case drain decode n f' of
             (Inl e, f'') \<Rightarrow> (Inl e, f'')
           | (Inr xs, f'') \<Rightarrow> (Inr (x # xs), f'')))"

definition drain_all :: "(byte list \<Rightarrow> 'a rec_res) \<Rightarrow> fp \<Rightarrow> 'a list rec_res \<times> fp" where
  "drain_all decode f = drain decode (Suc (length (fp_data f))) f"

section \<open>Headers\<close>

lemma pack_length: "pack_be32 n = Some h \<Longrightarrow> length h = 4"
  by (auto simp: pack_be32_def split: if_splits)

lemma unat_byte: "unat (of_nat n :: byte) = n mod 256"
  by (simp add: unat_of_nat)

lemma unpack_pack: "pack_be32 n = Some h \<Longrightarrow> unpack_be32 h = n"
proof -
  assume "pack_be32 n = Some h"
  then have n: "n < 4294967296"
    and h: "h = [of_nat (n div 16777216), of_nat (n div 65536), of_nat (n div 256), of_nat n]"
    by (auto simp: pack_be32_def split: if_splits)
  have d: "n div 65536 = n div 256 div 256" "n div 16777216 = n div 256 div 256 div 256"
    by (simp_all add: div_mult2_eq [symmetric])
  have "n div 256 div 256 div 256 < 256"
    using n by (simp add: div_mult2_eq [symmetric] less_mult_imp_div_less)
  then show ?thesis
    unfolding h unpack_be32_def d by (simp add: unat_byte)
qed

section \<open>Frames\<close>

definition frame :: "byte list \<Rightarrow> byte list" where
  "frame blob = (case pack_be32 (length blob) of Some h \<Rightarrow> h @ blob | None \<Rightarrow> [])"

definition frames :: "('a \<Rightarrow> byte list) \<Rightarrow> 'a list \<Rightarrow> byte list" where
  "frames enc xs = concat (map (frame \<circ> enc) xs)"

lemma frames_simps [simp]:
  "frames enc [] = []"
  "frames enc (x # xs) = frame (enc x) @ frames enc xs"
  "frames enc (xs @ ys) = frames enc xs @ frames enc ys"
  by (auto simp: frames_def)

text \<open>What the codec must do for the records at hand: decoding gives back what was encoded,
  within the reader's size limit.\<close>

definition codec_ok :: "('a \<Rightarrow> byte list) \<Rightarrow> (byte list \<Rightarrow> 'a rec_res) \<Rightarrow> 'a \<Rightarrow> bool" where
  "codec_ok enc dec x = (dec (enc x) = Inr x \<and> length (enc x) \<le> maximum_record_size)"

lemma frame_split:
  assumes "length blob \<le> maximum_record_size"
  obtains h where "frame blob = h @ blob" "length h = 4" "unpack_be32 h = length blob"
proof -
  have "length blob < 2 ^ 32" using assms by (simp add: maximum_record_size_def)
  then obtain h where h: "pack_be32 (length blob) = Some h" by (simp add: pack_be32_def)
  show thesis
    using that [of h] pack_length [OF h] unpack_pack [OF h] by (simp add: frame_def h)
qed

lemma length_frame: "length blob \<le> maximum_record_size \<Longrightarrow> length (frame blob) = 4 + length blob"
  by (metis frame_split length_append)

lemma do_read_frame:
  assumes "codec_ok enc dec x" "fp_data f = pre @ frame (enc x) @ post" "fp_pos f = length pre"
  shows "do_read dec f = (Inr (Some x), fp_seek f (length pre + length (frame (enc x))))"
proof -
  have len: "length (enc x) \<le> maximum_record_size" using assms(1) by (simp add: codec_ok_def)
  obtain h where h: "frame (enc x) = h @ enc x" "length h = 4" "unpack_be32 h = length (enc x)"
    using frame_split [OF len] by blast
  then have "h \<noteq> []" by auto
  then show ?thesis
    using assms h len
    by (simp add: do_read_def fp_read_def record_header_size_def codec_ok_def fp_seek_def Let_def
        add.assoc)
qed

lemma try_read_frame:
  "codec_ok enc dec x \<Longrightarrow> fp_data f = pre @ frame (enc x) @ post \<Longrightarrow> fp_pos f = length pre \<Longrightarrow>
     try_read dec f = (Inr (Some x), fp_seek f (length pre + length (frame (enc x))))"
  by (simp add: try_read_def do_read_frame)

text \<open>A torn record, of which only a proper prefix is in the file, reads as nothing.\<close>

lemma try_read_torn:
  assumes x: "length blob \<le> maximum_record_size"
    and torn: "strict_prefix part (frame blob)"
    and f: "fp_data f = pre @ part" "fp_pos f = length pre"
  shows "try_read dec f = (Inr None, f)"
proof -
  obtain h where h: "frame blob = h @ blob" "length h = 4" "unpack_be32 h = length blob"
    using frame_split [OF x] by blast
  obtain rest where rest: "h @ blob = part @ rest" "rest \<noteq> []"
    using torn h(1) by (auto simp: strict_prefix_def prefix_def)
  have same: "f\<lparr>fp_pos := length pre\<rparr> = f" using f(2) by simp
  show ?thesis
  proof (cases "length part < 4")
    case True
    then show ?thesis
      using f same
      by (auto simp: try_read_def do_read_def fp_read_def record_header_size_def fp_seek_def)
  next
    case False
    then obtain b where b: "part = h @ b" "blob = b @ rest"
      using rest h(2) by (metis (no_types, lifting) append_eq_append_conv_if append_eq_conv_conj
          append_take_drop_id linorder_not_le)
    then have "length b < length blob" "h \<noteq> []" using rest(2) h(2) by auto
    then show ?thesis
      using f same h x b
      by (simp add: try_read_def do_read_def fp_read_def record_header_size_def fp_seek_def Let_def)
  qed
qed

lemma try_read_end:
  "fp_pos f = length (fp_data f) \<Longrightarrow> try_read dec f = (Inr None, f)"
  by (simp add: try_read_def do_read_def fp_read_def)

section \<open>Whole streams\<close>

definition torn_tail :: "byte list \<Rightarrow> bool" where
  "torn_tail part = (part = [] \<or>
     (\<exists>blob. length blob \<le> maximum_record_size \<and> strict_prefix part (frame blob)))"

lemma try_read_tail:
  "torn_tail part \<Longrightarrow> fp_data f = pre @ part \<Longrightarrow> fp_pos f = length pre \<Longrightarrow>
     try_read dec f = (Inr None, f)"
  using try_read_torn [of _ part f pre dec] try_read_end [of f dec]
  by (auto simp: torn_tail_def)

lemma fp_seek_simps [simp]:
  "fp_data (fp_seek f p) = fp_data f" "fp_pos (fp_seek f p) = p" "fp_mode (fp_seek f p) = fp_mode f"
  "fp_seek (fp_seek f p) q = fp_seek f q" "fp_seek f (fp_pos f) = f"
  by (simp_all add: fp_seek_def)

lemma drain_frames:
  "(\<And>x. x \<in> set xs \<Longrightarrow> codec_ok enc dec x) \<Longrightarrow> torn_tail part \<Longrightarrow>
     fp_data f = pre @ frames enc xs @ part \<Longrightarrow> fp_pos f = length pre \<Longrightarrow> length xs < n \<Longrightarrow>
     drain dec n f = (Inr xs, fp_seek f (length pre + length (frames enc xs)))"
proof (induction xs arbitrary: n f pre)
  case Nil
  then obtain m where n: "n = Suc m" by (cases n) auto
  have "try_read dec f = (Inr None, f)"
    using Nil by (intro try_read_tail [of part f pre]) auto
  then show ?case using Nil(4) fp_seek_simps(5) [of f] by (simp add: n del: fp_seek_simps)
next
  case (Cons x xs)
  then obtain m where n: "n = Suc m" "length xs < m" by (cases n) auto
  let ?f = "fp_seek f (length pre + length (frame (enc x)))"
  have "try_read dec f = (Inr (Some x), ?f)"
    using Cons.prems by (intro try_read_frame [of _ _ _ _ _ "frames enc xs @ part"]) auto
  moreover have "drain dec m ?f = (Inr xs, fp_seek ?f (length (pre @ frame (enc x)) + length (frames enc xs)))"
    using Cons.prems n by (intro Cons.IH) auto
  ultimately show ?case by (simp add: n add.assoc)
qed

lemma length_frames_ge:
  "(\<And>x. x \<in> set xs \<Longrightarrow> codec_ok enc dec x) \<Longrightarrow> length xs \<le> length (frames enc xs)"
  by (induction xs) (auto simp: length_frame codec_ok_def)

lemma drain_all_frames:
  assumes "\<And>x. x \<in> set xs \<Longrightarrow> codec_ok enc dec x" "torn_tail part"
    "fp_data f = pre @ frames enc xs @ part" "fp_pos f = length pre"
  shows "drain_all dec f = (Inr xs, fp_seek f (length pre + length (frames enc xs)))"
  unfolding drain_all_def
proof (rule drain_frames [OF assms])
  have "length xs \<le> length (frames enc xs)" using assms(1) by (rule length_frames_ge)
  then show "length xs < Suc (length (fp_data f))" using assms(3) by simp
qed

lemma iter_frames:
  "(\<And>x. x \<in> set xs \<Longrightarrow> codec_ok enc dec x) \<Longrightarrow> fp_data f = pre @ frames enc xs \<Longrightarrow>
     fp_pos f = length pre \<Longrightarrow> length xs < n \<Longrightarrow>
     iter_from dec truthy n f = (takeWhile truthy xs, None)"
proof (induction xs arbitrary: n f pre)
  case Nil
  then obtain m where n: "n = Suc m" by (cases n) auto
  then show ?case using Nil by (simp add: do_read_def fp_read_def)
next
  case (Cons x xs)
  then obtain m where n: "n = Suc m" "length xs < m" by (cases n) auto
  let ?f = "fp_seek f (length pre + length (frame (enc x)))"
  have "do_read dec f = (Inr (Some x), ?f)"
    using Cons.prems by (intro do_read_frame [of _ _ _ _ _ "frames enc xs"]) auto
  moreover have "iter_from dec truthy m ?f = (takeWhile truthy xs, None)"
    using Cons.prems n by (intro Cons.IH [of _ "pre @ frame (enc x)"]) auto
  ultimately show ?case by (simp add: n)
qed

lemma reader_iter_frames:
  assumes "\<And>x. x \<in> set xs \<Longrightarrow> codec_ok enc dec x" "fp_data f = frames enc xs"
  shows "reader_iter dec truthy f = (takeWhile truthy xs, None)"
  unfolding reader_iter_def
  by (rule iter_frames [of _ enc _ _ "[]"])
     (use assms length_frames_ge [of xs enc dec] in \<open>auto simp: less_Suc_eq_le\<close>)

text \<open>Writing a list of records.\<close>

fun write_all :: "('a \<Rightarrow> byte list rec_res) \<Rightarrow> 'a list \<Rightarrow> fp \<Rightarrow> fp" where
  "write_all encode [] f = f"
| "write_all encode (x # xs) f = write_all encode xs (snd (do_write encode True True x f))"

lemma do_write_ok:
  assumes "length (enc x) < 2 ^ 32"
  shows "do_write (\<lambda>y. Inr (enc y)) True True x f = (Inr True, fp_write (frame (enc x)) f)"
  using assms by (simp add: do_write_def pack_be32_def frame_def fp_write_def Let_def)

lemma write_all_data:
  "(\<And>x. x \<in> set xs \<Longrightarrow> length (enc x) < 2 ^ 32) \<Longrightarrow>
     fp_data (write_all (\<lambda>y. Inr (enc y)) xs f) = fp_data f @ frames enc xs"
  by (induction xs arbitrary: f) (simp_all add: do_write_ok fp_write_def)

lemma codec_ok_size: "codec_ok enc dec x \<Longrightarrow> length (enc x) < 2 ^ 32"
  by (simp add: codec_ok_def maximum_record_size_def)

section \<open>Properties\<close>

text \<open>C11: a reader that follows a growing record file sees every record exactly once.
  When a writer has written \<open>xs\<close> and part of a further record, draining the file from
  its start gives \<open>xs\<close> and leaves the position before the torn record; when the file has
  grown by the complete records \<open>ys\<close>, draining again gives \<open>ys\<close>.\<close>

theorem follow_writer:
  assumes "\<And>x. x \<in> set (xs @ ys) \<Longrightarrow> codec_ok enc dec x" "torn_tail part" "torn_tail part'"
    "fp_data f = fp_data (write_all (\<lambda>y. Inr (enc y)) xs f0) @ part" "fp_data f0 = []" "fp_pos f = 0"
    "fp_data f' = fp_data (write_all (\<lambda>y. Inr (enc y)) (xs @ ys) f0) @ part'"
    "fp_pos f' = fp_pos (snd (drain_all dec f))"
  shows "fst (drain_all dec f) = Inr xs \<and> fst (drain_all dec f') = Inr ys"
proof -
  have size: "length (enc x) < 2 ^ 32" if "x \<in> set (xs @ ys)" for x
    using assms(1) [OF that] by (rule codec_ok_size)
  have data: "fp_data f = frames enc xs @ part" "fp_data f' = frames enc xs @ frames enc ys @ part'"
    using assms(4,5,7) write_all_data [of xs enc f0] write_all_data [of "xs @ ys" enc f0] size
    by auto
  have 1: "drain_all dec f = (Inr xs, fp_seek f (length ([] :: byte list) + length (frames enc xs)))"
    by (rule drain_all_frames) (use assms data in auto)
  have "drain_all dec f' =
      (Inr ys, fp_seek f' (length (frames enc xs) + length (frames enc ys)))"
    by (rule drain_all_frames) (use assms data 1 in auto)
  then show ?thesis using 1 by simp
qed

lemma sample_write:
  "fp_data (write_all Inr [[7]] \<lparr>fp_data = [], fp_pos = 0, fp_mode = ''ab''\<rparr>) = [0, 0, 0, 1, 7]"
  by (simp add: do_write_def pack_be32_def fp_write_def)

theorem follow_writer_witness:
  "\<exists>f. fp_data f = [0, 0, 0, 1, 7, 0, 0] \<and> fst (drain_all (\<lambda>bs. Inr bs) f) = Inr [[7]]"
proof -
  let ?empty = "\<lparr>fp_data = [], fp_pos = 0, fp_mode = ''ab''\<rparr>"
  let ?f = "\<lparr>fp_data = [0, 0, 0, 1, 7, 0, 0], fp_pos = 0, fp_mode = ''rb''\<rparr>"
  let ?f' = "\<lparr>fp_data = fp_data (write_all Inr [[7]] ?empty),
    fp_pos = fp_pos (snd (drain_all Inr ?f)), fp_mode = ''rb''\<rparr>"
  have none: "torn_tail []" by (simp add: torn_tail_def)
  have torn: "torn_tail [0, 0]"
    unfolding torn_tail_def
    by (rule disjI2, rule exI [of _ "[]"])
       (simp_all add: maximum_record_size_def frame_def pack_be32_def strict_prefix_def)
  have "fst (drain_all Inr ?f) = Inr [[7]] \<and> fst (drain_all Inr ?f') = Inr []"
    by (rule follow_writer [of "[[7]]" "[]" "\<lambda>b. b" Inr "[0, 0]" "[]" ?f ?empty ?f', OF _ torn none])
       (simp_all add: codec_ok_def maximum_record_size_def sample_write [simplified])
  then show ?thesis by (intro exI [of _ ?f]) simp
qed

text \<open>The writer has no size limit where the reader has one: a record of more than
  64 MB (and less than 4 GB) is written without complaint and makes every later read of the
  stream raise \<open>RecordSizeExceeded\<close>.\<close>

theorem oversized_record_unreadable:
  assumes "encode x = Inr blob" "maximum_record_size < length blob" "length blob < 2 ^ 32"
    "do_write encode True True x f = (r, f')"
  shows "r = Inr True \<and>
    fst (try_read decode (fp_seek f' (length (fp_data f)))) = Inl (Own RecordSizeExceeded)"
proof -
  obtain h where h: "pack_be32 (length blob) = Some h"
    using assms(3) by (simp add: pack_be32_def)
  have l: "length h = 4" "unpack_be32 h = length blob"
    using pack_length [OF h] unpack_pack [OF h] by auto
  then have "h \<noteq> []" by auto
  then show ?thesis
    using assms h l
    by (auto simp: do_write_def try_read_def do_read_def fp_read_def fp_write_def Let_def
        record_header_size_def)
qed

theorem oversized_record_unreadable_witness:
  "\<exists>f'. fst (try_read Inr (fp_seek f' 0)) = Inl (Own RecordSizeExceeded) \<and>
     length (fp_data f') = 4 + (maximum_record_size + 1)"
proof -
  let ?f = "\<lparr>fp_data = [], fp_pos = 0, fp_mode = ''ab''\<rparr>"
  let ?blob = "replicate (maximum_record_size + 1) (0 :: byte)"
  obtain r f' where w: "do_write Inr True True ?blob ?f = (r, f')" by fastforce
  have b: "maximum_record_size < length ?blob" "length ?blob < 2 ^ 32"
    by (simp_all add: maximum_record_size_def)
  have "length (fp_data f') = 4 + (maximum_record_size + 1)"
    using w b(2) pack_length
    by (auto simp: do_write_def pack_be32_def fp_write_def maximum_record_size_def Let_def
        simp del: replicate_Suc)
  then show ?thesis
    using oversized_record_unreadable [OF refl b w, of Inr] by (intro exI [of _ f']) simp
qed

end
