(* ===== verification/Muxer.thy ===== *)
theory Muxer
  imports Ckpt RecordIO
begin

text \<open>
  The multiplexer of the process checkpoints, \<^verbatim>\<open>apache/thermos/core/muxer.py\<close>.  The state is
  the dictionary of handles, in insertion order, and the watermarks; a handle is the position
  in the process's checkpoint file.  The world says what opening a file does, what the file
  holds and whether \<^verbatim>\<open>fstat\<close> succeeds; the decoding of a record is an argument.
\<close>

datatype mux_error = ProcessExists | ProcessNotFound | CorruptCheckpoint | Record_error rec_error

type_synonym mux_exn = "mux_error exn"

datatype open_result = Opened | No_entry | Open_failed

record mux_world =
  mw_open :: "string \<Rightarrow> open_result"
  mw_data :: "string \<Rightarrow> byte list"
  mw_fstat_ok :: "string \<Rightarrow> bool"

record muxer =
  mx_processes :: "(string \<times> nat option) list"
  mx_watermarks :: "string \<Rightarrow> int option"

definition new_muxer :: muxer where
  "new_muxer = \<lparr>mx_processes = [], mx_watermarks = Map.empty\<rparr>"

type_synonym ckpt_decoder = "byte list \<Rightarrow> runner_ckpt rec_res"

fun mux_exn_of :: "rec_error exn \<Rightarrow> mux_exn" where
  "mux_exn_of (Own e) = Own (Record_error e)"
| "mux_exn_of (Py e) = Py e"

definition handle :: "mux_world \<Rightarrow> string \<Rightarrow> nat \<Rightarrow> fp" where
  "handle w name pos = \<lparr>fp_data = mw_data w name, fp_pos = pos, fp_mode = ''rb''\<rparr>"

definition mux_register :: "muxer \<Rightarrow> string \<Rightarrow> int \<Rightarrow> muxer \<times> mux_exn option" where
  "mux_register m name watermark =
     (if name \<in> fst ` set (mx_processes m) then (m, Some (Own ProcessExists))
      else (\<lparr>mx_processes = mx_processes m @ [(name, None)],
             mx_watermarks = (mx_watermarks m)(name \<mapsto> watermark)\<rparr>, None))"

definition mux_unregister :: "muxer \<Rightarrow> string \<Rightarrow> muxer \<times> mux_exn option" where
  "mux_unregister m name =
     (if name \<notin> fst ` set (mx_processes m) then (m, Some (Own ProcessNotFound))
      else (\<lparr>mx_processes = filter (\<lambda>p. fst p \<noteq> name) (mx_processes m),
             mx_watermarks = (mx_watermarks m)(name := None)\<rparr>, None))"

text \<open>The loop of \<^verbatim>\<open>_fast_forward_stream\<close>: the handle it leaves and the exception, if any.
  Every round reads a record, so the length of the file bounds the rounds.\<close>

fun fast_forward :: "ckpt_decoder \<Rightarrow> int \<Rightarrow> int \<Rightarrow> nat \<Rightarrow> fp \<Rightarrow> fp \<times> mux_exn option" where
  "fast_forward dec watermark current 0 f = (f, None)"
| "fast_forward dec watermark current (Suc n) f =
     (if \<not> current < watermark then (f, None)
      else case try_read dec f of
             (Inl e, f') \<Rightarrow> (f', Some (mux_exn_of e))
           | (Inr None, f') \<Rightarrow> (f', None)
           | (Inr (Some rc), f') \<Rightarrow>
               (case rc_process rc of
                  None \<Rightarrow> (f', Some (Py AttributeError))
                | Some u \<Rightarrow>
                    (case ps_seq u of
                       None \<Rightarrow> (f', Some (Py TypeError))
                     | Some new \<Rightarrow>
                         (if new > watermark then (fp_seek f' (fp_pos f), None)
                          else fast_forward dec watermark new n f'))))"

definition fast_forward_stream ::
  "ckpt_decoder \<Rightarrow> mux_world \<Rightarrow> muxer \<Rightarrow> string \<Rightarrow> nat option \<Rightarrow> nat option \<times> mux_exn option" where
  "fast_forward_stream dec w m name pos =
     (case mx_watermarks m name of
        None \<Rightarrow> (pos, Some (Py KeyError))
      | Some watermark \<Rightarrow>
          (case pos of
             None \<Rightarrow> (None, Some (Py AssertionError))
           | Some p \<Rightarrow>
               (case fast_forward dec watermark (-1) (Suc (length (mw_data w name)))
                       (handle w name p) of
                  (f, e) \<Rightarrow> (Some (fp_pos f), e))))"

text \<open>\<^verbatim>\<open>_bind_processes\<close>: a file that is not there yet is skipped, any other failure to open is
  only logged and the missing handle is fast-forwarded.\<close>

fun bind_list :: "ckpt_decoder \<Rightarrow> mux_world \<Rightarrow> muxer \<Rightarrow> (string \<times> nat option) list
    \<Rightarrow> (string \<times> nat option) list \<times> mux_exn option" where
  "bind_list dec w m [] = ([], None)"
| "bind_list dec w m ((name, Some p) # rest) =
     (case bind_list dec w m rest of (rest', e) \<Rightarrow> ((name, Some p) # rest', e))"
| "bind_list dec w m ((name, None) # rest) =
     (case mw_open w name of
        No_entry \<Rightarrow> (case bind_list dec w m rest of (rest', e) \<Rightarrow> ((name, None) # rest', e))
      | opened \<Rightarrow>
          (case fast_forward_stream dec w m name (if opened = Opened then Some 0 else None) of
             (pos, Some e) \<Rightarrow> ((name, pos) # rest, Some e)
           | (pos, None) \<Rightarrow>
               (case bind_list dec w m rest of (rest', e) \<Rightarrow> ((name, pos) # rest', e))))"

definition bind_processes :: "ckpt_decoder \<Rightarrow> mux_world \<Rightarrow> muxer \<Rightarrow> muxer \<times> mux_exn option" where
  "bind_processes dec w m =
     (case bind_list dec w m (mx_processes m) of (ps, e) \<Rightarrow> (m\<lparr>mx_processes := ps\<rparr>, e))"

text \<open>\<^verbatim>\<open>has_data\<close>: a reader on a handle that is \<^verbatim>\<open>None\<close> raises \<^verbatim>\<open>InvalidFileHandle\<close>; a read that
  finds data seeks back.\<close>

definition set_handle :: "muxer \<Rightarrow> string \<Rightarrow> nat \<Rightarrow> muxer" where
  "set_handle m name pos =
     m\<lparr>mx_processes := map (\<lambda>(n, p). if n = name then (n, Some pos) else (n, p)) (mx_processes m)\<rparr>"

definition mux_has_data ::
  "ckpt_decoder \<Rightarrow> mux_world \<Rightarrow> muxer \<Rightarrow> string \<Rightarrow> muxer \<times> (mux_exn + bool)" where
  "mux_has_data dec w m name =
     (case bind_processes dec w m of
        (m', Some e) \<Rightarrow> (m', Inl e)
      | (m', None) \<Rightarrow>
          (case map_of (mx_processes m') name of
             None \<Rightarrow> (m', Inr False)
           | Some None \<Rightarrow> (m', Inl (Own (Record_error InvalidFileHandle)))
           | Some (Some pos) \<Rightarrow>
               (if \<not> mw_fstat_ok w name then (m', Inr False)
                else case try_read dec (handle w name pos) of
                       (Inl e, f) \<Rightarrow> (set_handle m' name (fp_pos f), Inl (mux_exn_of e))
                     | (Inr None, f) \<Rightarrow> (set_handle m' name (fp_pos f), Inr False)
                     | (Inr (Some _), f) \<Rightarrow> (set_handle m' name pos, Inr True))))"

fun select_list :: "ckpt_decoder \<Rightarrow> mux_world \<Rightarrow> (string \<times> nat option) list
    \<Rightarrow> (string \<times> nat option) list \<times> (mux_exn + runner_ckpt list)" where
  "select_list dec w [] = ([], Inr [])"
| "select_list dec w ((name, None) # rest) =
     (case select_list dec w rest of (rest', r) \<Rightarrow> ((name, None) # rest', r))"
| "select_list dec w ((name, Some p) # rest) =
     (if mw_fstat_ok w name \<and> p < length (mw_data w name) then
        (case drain_all dec (handle w name p) of
           (Inl e, f) \<Rightarrow> ((name, Some (fp_pos f)) # rest, Inl (mux_exn_of e))
         | (Inr us, f) \<Rightarrow>
             (case select_list dec w rest of
                (rest', r) \<Rightarrow> ((name, Some (fp_pos f)) # rest', rbind r (\<lambda>vs. Inr (us @ vs)))))
      else (case select_list dec w rest of (rest', r) \<Rightarrow> ((name, Some p) # rest', r)))"

definition mux_select ::
  "ckpt_decoder \<Rightarrow> mux_world \<Rightarrow> muxer \<Rightarrow> muxer \<times> (mux_exn + runner_ckpt list)" where
  "mux_select dec w m =
     (case bind_processes dec w m of
        (m', Some e) \<Rightarrow> (m', Inl e)
      | (m', None) \<Rightarrow>
          (case select_list dec w (mx_processes m') of
             (ps, r) \<Rightarrow> (m'\<lparr>mx_processes := ps\<rparr>, r)))"

section \<open>Fast forward\<close>

definition ckpt_seq :: "runner_ckpt \<Rightarrow> int option" where
  "ckpt_seq rc = (case rc_process rc of None \<Rightarrow> None | Some u \<Rightarrow> ps_seq u)"

definition at_most :: "int \<Rightarrow> runner_ckpt \<Rightarrow> bool" where
  "at_most watermark rc = (case ckpt_seq rc of None \<Rightarrow> False | Some s \<Rightarrow> s \<le> watermark)"

text \<open>A process checkpoint: complete process updates with increasing sequence numbers, each
  readable by the decoder, and perhaps a torn record at the end.\<close>

definition process_records :: "(runner_ckpt \<Rightarrow> byte list) \<Rightarrow> ckpt_decoder \<Rightarrow> runner_ckpt list \<Rightarrow> bool" where
  "process_records enc dec rcs =
     (list_all (codec_ok enc dec) rcs \<and> list_all (\<lambda>rc. ckpt_seq rc \<noteq> None) rcs \<and>
      sorted_wrt (\<lambda>a b. the (ckpt_seq a) < the (ckpt_seq b)) rcs)"





section \<open>Select\<close>

text \<open>What the muxer knows of one process: \<open>d\<close> has been delivered (or is at most the
  watermark when the file is not open yet), \<open>t\<close> is complete in the file and not yet
  delivered, \<open>part\<close> is the torn record at its end.\<close>

definition tracks :: "mux_world \<Rightarrow> (runner_ckpt \<Rightarrow> byte list) \<Rightarrow> ckpt_decoder \<Rightarrow> (string \<Rightarrow> int option)
    \<Rightarrow> string \<times> nat option \<Rightarrow> runner_ckpt list \<times> runner_ckpt list \<times> byte list \<Rightarrow> bool" where
  "tracks w enc dec watermarks h dt =
     (case (h, dt) of ((name, pos), (d, t, part)) \<Rightarrow>
        process_records enc dec (d @ t) \<and> torn_tail part \<and> mw_fstat_ok w name \<and>
        mw_data w name = frames enc (d @ t) @ part \<and>
        (case pos of
           Some p \<Rightarrow> p = length (frames enc d)
         | None \<Rightarrow> mw_open w name = Opened \<and>
             (case watermarks name of None \<Rightarrow> False
              | Some wm \<Rightarrow> 0 \<le> wm \<and> d = takeWhile (at_most wm) (d @ t))))"

definition delivered_pos :: "(runner_ckpt \<Rightarrow> byte list) \<Rightarrow> string \<times> nat option
    \<Rightarrow> runner_ckpt list \<Rightarrow> string \<times> nat option" where
  "delivered_pos enc h ds = (fst h, Some (length (frames enc ds)))"








text \<open>After a select every process is tracked with nothing left to deliver, and stays tracked
  when its file grows.\<close>

lemma tracks_delivered:
  assumes "tracks w enc dec wms h (d, t, part)"
    and "mw_data w' (fst h) = frames enc ((d @ t) @ new) @ part'" "mw_fstat_ok w' (fst h)"
    and "process_records enc dec ((d @ t) @ new)" "torn_tail part'"
  shows "tracks w' enc dec wms (delivered_pos enc h (d @ t)) (d @ t, new, part')"
  using assms by (simp add: tracks_def delivered_pos_def)

section \<open>Registration\<close>

lemma register_ok:
  "name \<notin> fst ` set (mx_processes m) \<Longrightarrow>
     snd (mux_register m name wm) = None \<and>
     mx_processes (fst (mux_register m name wm)) = mx_processes m @ [(name, None)]"
  by (simp add: mux_register_def)

definition mux_ok :: "muxer \<Rightarrow> bool" where
  "mux_ok m = (distinct (map fst (mx_processes m)) \<and>
     (\<forall>n. n \<in> fst ` set (mx_processes m) \<longleftrightarrow> mx_watermarks m n \<noteq> None))"

lemma mux_ok_new: "mux_ok new_muxer"
  by (simp add: mux_ok_def new_muxer_def)

lemma mux_ok_register [inv_intros]: "mux_ok m \<Longrightarrow> mux_ok (fst (mux_register m n wm))"
  by (auto simp: mux_ok_def mux_register_def)

lemma mux_ok_unregister [inv_intros]: "mux_ok m \<Longrightarrow> mux_ok (fst (mux_unregister m n))"
  by (auto simp: mux_ok_def mux_unregister_def distinct_map inj_on_def)

lemma bind_list_names: "map fst (fst (bind_list dec w m hs)) = map fst hs"
  by (induction dec w m hs rule: bind_list.induct)
     (auto split: prod.splits open_result.splits option.splits)

lemma select_list_names: "map fst (fst (select_list dec w hs)) = map fst hs"
  by (induction dec w hs rule: select_list.induct)
     (auto split: prod.splits sum.splits)

lemma set_handle_names: "map fst (mx_processes (set_handle m name p)) = map fst (mx_processes m)"
  by (auto simp: set_handle_def)

lemma mux_ok_names:
  assumes "mux_ok m" "map fst (mx_processes m') = map fst (mx_processes m)"
    "mx_watermarks m' = mx_watermarks m"
  shows "mux_ok m'"
  using assms unfolding mux_ok_def by (metis image_set)

lemma bind_processes_same:
  "map fst (mx_processes (fst (bind_processes dec w m))) = map fst (mx_processes m)"
  "mx_watermarks (fst (bind_processes dec w m)) = mx_watermarks m"
  using bind_list_names [of dec w m "mx_processes m"]
  by (auto simp: bind_processes_def split: prod.split)

lemma select_same:
  "map fst (mx_processes (fst (mux_select dec w m))) = map fst (mx_processes m)"
  "mx_watermarks (fst (mux_select dec w m)) = mx_watermarks m"
proof -
  obtain m' e where b: "bind_processes dec w m = (m', e)" by fastforce
  obtain ps r where s: "select_list dec w (mx_processes m') = (ps, r)" by fastforce
  show "map fst (mx_processes (fst (mux_select dec w m))) = map fst (mx_processes m)"
    "mx_watermarks (fst (mux_select dec w m)) = mx_watermarks m"
    using bind_processes_same [of dec w m] select_list_names [of dec w "mx_processes m'"] b s
    by (cases e; simp add: mux_select_def)+
qed

lemma has_data_same:
  "map fst (mx_processes (fst (mux_has_data dec w m n))) = map fst (mx_processes m)"
  "mx_watermarks (fst (mux_has_data dec w m n)) = mx_watermarks m"
  using bind_processes_same [of dec w m]
  by (auto simp: mux_has_data_def set_handle_names split: prod.splits option.splits sum.splits)
     (auto simp: set_handle_def)

datatype mux_op = Register string int | Unregister string | Has_data mux_world string | Select mux_world

fun mux_step :: "ckpt_decoder \<Rightarrow> muxer \<Rightarrow> mux_op \<Rightarrow> muxer \<times> mux_exn option" where
  "mux_step dec m (Register n wm) = mux_register m n wm"
| "mux_step dec m (Unregister n) = mux_unregister m n"
| "mux_step dec m (Has_data w n) =
     (case mux_has_data dec w m n of (m', Inl e) \<Rightarrow> (m', Some e) | (m', Inr _) \<Rightarrow> (m', None))"
| "mux_step dec m (Select w) =
     (case mux_select dec w m of (m', Inl e) \<Rightarrow> (m', Some e) | (m', Inr _) \<Rightarrow> (m', None))"

lemma mux_step_ok: "mux_ok m \<Longrightarrow> mux_ok (fst (mux_step dec m op))"
proof (cases op)
  case (Has_data w n)
  assume "mux_ok m"
  then have "mux_ok (fst (mux_has_data dec w m n))"
    using has_data_same by (rule mux_ok_names)
  then show ?thesis by (simp add: Has_data split: prod.split sum.split) auto
next
  case (Select w)
  assume "mux_ok m"
  then have "mux_ok (fst (mux_select dec w m))"
    using select_same by (rule mux_ok_names)
  then show ?thesis by (simp add: Select split: prod.split sum.split) auto
qed (simp_all add: inv_intros)

interpretation mux: invariant_machine "mux_step dec" mux_ok
  by unfold_locales (rule mux_step_ok)

section \<open>Properties\<close>


definition sample_ckpt :: "int \<Rightarrow> runner_ckpt" where
  "sample_ckpt k = process_ckpt (empty_status\<lparr>ps_seq := Some k, ps_process := Some ''p''\<rparr>)"


definition sample_dec :: ckpt_decoder where
  "sample_dec bs = Inr (sample_ckpt (if bs = [1] then 1 else 2))"

definition sample_world :: mux_world where
  "sample_world = \<lparr>mw_open = (\<lambda>_. Opened), mw_data = (\<lambda>_. [0, 0, 0, 1, 1, 0, 0, 0, 1, 2, 0]),
     mw_fstat_ok = (\<lambda>_. True)\<rparr>"


text \<open>\<open>has_data\<close> does not answer for a process whose checkpoint file is not there
  yet: the handle is still \<open>None\<close> and the reader built on it raises
  \<open>InvalidFileHandle\<close>.\<close>

theorem has_data_unbound_raises:
  assumes "mux_ok m" "map_of (mx_processes m) name = Some None" "mw_open w name = No_entry"
    "bind_processes dec w m = (m', None)"
  shows "snd (mux_has_data dec w m name) = Inl (Own (Record_error InvalidFileHandle))"
proof -
  have keep: "map_of hs name = Some None \<Longrightarrow> snd (bind_list dec w m hs) = None \<Longrightarrow>
      map_of (fst (bind_list dec w m hs)) name = Some None" for hs
  proof (induction hs)
    case (Cons h hs)
    obtain n p where h: "h = (n, p)" by (cases h)
    show ?case
    proof (cases p)
      case None
      then show ?thesis
        using Cons assms(3)
        by (cases "n = name"; cases "mw_open w n")
           (auto simp: h split: prod.splits option.splits)
    qed (use Cons in \<open>auto simp: h split: prod.splits if_splits\<close>)
  qed simp
  have "map_of (mx_processes m') name = Some None"
    using keep [OF assms(2)] assms(4) by (auto simp: bind_processes_def split: prod.splits)
  then show ?thesis by (simp add: mux_has_data_def assms(4))
qed

theorem has_data_unbound_raises_witness:
  "snd (mux_has_data sample_dec (sample_world\<lparr>mw_open := (\<lambda>_. No_entry)\<rparr>)
      (fst (mux_register new_muxer ''p'' 0)) ''p'') = Inl (Own (Record_error InvalidFileHandle))"
  by (rule has_data_unbound_raises)
     (auto simp: mux_ok_def mux_register_def new_muxer_def bind_processes_def)

end
