(* ===== verification/Monitor.thy ===== *)
theory Monitor
  imports Ckpt RecordIO
begin

text \<open>
  The monitor of one task, \<^verbatim>\<open>apache/thermos/monitoring/monitor.py\<close>: it follows the runner's
  checkpoint file from a remembered offset and applies the records with a dispatcher that has
  no handlers.  The file is an argument of every operation that looks at it.
\<close>

datatype ckpt_file = Present "byte list" | Missing | Unreadable

record task_monitor =
  tm_state :: runner_state
  tm_head :: nat

datatype monitor_error = Dispatch_error ckpt_error | Read_error rec_error

fun of_dispatch :: "ckpt_exn \<Rightarrow> monitor_error exn" where
  "of_dispatch (Own e) = Own (Dispatch_error e)"
| "of_dispatch (Py e) = Py e"

fun of_read :: "rec_error exn \<Rightarrow> monitor_error exn" where
  "of_read (Own e) = Own (Read_error e)"
| "of_read (Py e) = Py e"

definition ckpt_handle :: "byte list \<Rightarrow> nat \<Rightarrow> fp" where
  "ckpt_handle data pos = \<lparr>fp_data = data, fp_pos = pos, fp_mode = ''rb''\<rparr>"

definition no_handlers :: "unit dispatcher" where
  "no_handlers = new_dispatcher"

text \<open>The \<^verbatim>\<open>while True\<close> loop: it stops when nothing more can be read and at a record that is
  out of sequence; every other error of the dispatcher leaves the loop.\<close>

fun apply_loop :: "(byte list \<Rightarrow> runner_ckpt rec_res) \<Rightarrow> nat \<Rightarrow> runner_state \<Rightarrow> fp
    \<Rightarrow> runner_state \<times> fp \<times> monitor_error exn option" where
  "apply_loop dec 0 st f = (st, f, None)"
| "apply_loop dec (Suc n) st f =
     (case try_read dec f of
        (Inl e, f') \<Rightarrow> (st, f', Some (of_read e))
      | (Inr None, f') \<Rightarrow> (st, f', None)
      | (Inr (Some rc), f') \<Rightarrow>
          (case dispatch no_handlers False False st rc of
             (st', _, None) \<Rightarrow> apply_loop dec n st' f'
           | (st', _, Some (Own InvalidSequenceNumber)) \<Rightarrow> (st', f', None)
           | (st', _, Some e) \<Rightarrow> (st', f', Some (of_dispatch e))))"

definition apply_states :: "(byte list \<Rightarrow> runner_ckpt rec_res) \<Rightarrow> ckpt_file \<Rightarrow> task_monitor
    \<Rightarrow> task_monitor \<times> (monitor_error, bool) res" where
  "apply_states dec file tm =
     (case file of
        Missing \<Rightarrow> (tm, Inr False)
      | Unreadable \<Rightarrow> (tm, Inl (Py OSError))
      | Present data \<Rightarrow>
          (if tm_head tm < length data then
             (case apply_loop dec (Suc (length data)) (tm_state tm) (ckpt_handle data (tm_head tm)) of
                (st, f, Some e) \<Rightarrow> (tm\<lparr>tm_state := st\<rparr>, Inl e)
              | (st, f, None) \<Rightarrow>
                  (\<lparr>tm_state = st, tm_head = fp_pos f\<rparr>, Inr (tm_head tm \<noteq> fp_pos f)))
           else (tm, Inr False)))"

definition task_monitor_init :: "(byte list \<Rightarrow> runner_ckpt rec_res) \<Rightarrow> ckpt_file
    \<Rightarrow> (monitor_error, task_monitor) res" where
  "task_monitor_init dec file =
     (case apply_states dec file \<lparr>tm_state = empty_runner_state, tm_head = 0\<rparr> of
        (tm, Inr _) \<Rightarrow> Inr tm | (_, Inl e) \<Rightarrow> Inl e)"

definition refresh :: "(byte list \<Rightarrow> runner_ckpt rec_res) \<Rightarrow> ckpt_file \<Rightarrow> task_monitor
    \<Rightarrow> task_monitor \<times> (monitor_error, bool) res" where
  "refresh = apply_states"

definition get_state :: "(byte list \<Rightarrow> runner_ckpt rec_res) \<Rightarrow> ckpt_file \<Rightarrow> task_monitor
    \<Rightarrow> task_monitor \<times> (monitor_error, runner_state) res" where
  "get_state dec file tm =
     (case apply_states dec file tm of (tm', r) \<Rightarrow> (tm', rbind r (\<lambda>_. Inr (tm_state tm'))))"

definition get_sandbox :: "(byte list \<Rightarrow> runner_ckpt rec_res) \<Rightarrow> ckpt_file \<Rightarrow> task_monitor
    \<Rightarrow> task_monitor \<times> (monitor_error, string option) res" where
  "get_sandbox dec file tm =
     (case get_state dec file tm of
        (tm', r) \<Rightarrow> (tm', rbind r (\<lambda>st. Inr (map_option rh_sandbox (rs_header st)))))"

definition monitor_task_state :: "(byte list \<Rightarrow> runner_ckpt rec_res) \<Rightarrow> ckpt_file \<Rightarrow> task_monitor
    \<Rightarrow> task_monitor \<times> (monitor_error, task_state option) res" where
  "monitor_task_state dec file tm =
     (case get_state dec file tm of
        (tm', r) \<Rightarrow> (tm', rbind r (\<lambda>st.
          Inr (case rs_statuses st of
                 Some (s # ss) \<Rightarrow> ts_state (last (s # ss)) | _ \<Rightarrow> Some T_ACTIVE))))"

text \<open>The loop of \<^verbatim>\<open>get_active_processes\<close> for one process of the dictionary: its last run and
  the number of that run, when it is running.\<close>

definition active_process :: "runner_state \<Rightarrow> string option \<Rightarrow> (process_status \<times> nat) option" where
  "active_process st n =
     (case rs_processes st n of
        None \<Rightarrow> None
      | Some runs \<Rightarrow>
          (if length runs = 0 then None
           else if ps_state (last runs) = Some P_RUNNING then Some (last runs, length runs - 1)
           else None))"

definition get_active_processes :: "(byte list \<Rightarrow> runner_ckpt rec_res) \<Rightarrow> ckpt_file \<Rightarrow> task_monitor
    \<Rightarrow> task_monitor \<times> (monitor_error, string option \<Rightarrow> (process_status \<times> nat) option) res" where
  "get_active_processes dec file tm =
     (case apply_states dec file tm of (tm', r) \<Rightarrow> (tm', rbind r (\<lambda>_. Inr (active_process (tm_state tm')))))"

section \<open>Following the file\<close>

lemma apply_loop_frames:
  "(\<And>x. x \<in> set xs \<Longrightarrow> codec_ok enc dec x) \<Longrightarrow> torn_tail part \<Longrightarrow>
     fp_data f = pre @ frames enc xs @ part \<Longrightarrow> fp_pos f = length pre \<Longrightarrow> length xs < n \<Longrightarrow>
     replay no_handlers False False st xs = (st', ev, None) \<Longrightarrow>
     apply_loop dec n st f = (st', fp_seek f (length pre + length (frames enc xs)), None)"
proof (induction xs arbitrary: n f pre st ev)
  case Nil
  then obtain m where n: "n = Suc m" by (cases n) auto
  have "try_read dec f = (Inr None, f)"
    using Nil by (intro try_read_tail [of part f pre]) auto
  then show ?case using Nil(4,6) fp_seek_simps(5) [of f] by (simp add: n del: fp_seek_simps)
next
  case (Cons x xs)
  then obtain m where n: "n = Suc m" "length xs < m" by (cases n) auto
  let ?f = "fp_seek f (length pre + length (frame (enc x)))"
  have rd: "try_read dec f = (Inr (Some x), ?f)"
    using Cons.prems by (intro try_read_frame [of _ _ _ _ _ "frames enc xs @ part"]) auto
  obtain st1 ev1 ev2 where d: "dispatch no_handlers False False st x = (st1, ev1, None)"
    and r: "replay no_handlers False False st1 xs = (st', ev2, None)"
    using Cons.prems(6) by (auto split: prod.splits option.splits)
  have "apply_loop dec m st1 ?f =
      (st', fp_seek ?f (length (pre @ frame (enc x)) + length (frames enc xs)), None)"
    by (rule Cons.IH [OF _ Cons.prems(2) _ _ n(2) r]) (use Cons.prems in auto)
  then show ?case using rd d by (simp add: n add.assoc)
qed

text \<open>A monitor that has applied \<open>rcs\<close>.\<close>

definition follows :: "(runner_ckpt \<Rightarrow> byte list) \<Rightarrow> runner_ckpt list \<Rightarrow> task_monitor \<Rightarrow> bool" where
  "follows enc rcs tm =
     (tm_head tm = length (frames enc rcs) \<and>
      (\<exists>ev. replay no_handlers False False empty_runner_state rcs = (tm_state tm, ev, None)))"

lemma replay_append:
  "replay d r t st (xs @ ys) =
     (case replay d r t st xs of
        (st', ev, Some e) \<Rightarrow> (st', ev, Some e)
      | (st', ev, None) \<Rightarrow> (case replay d r t st' ys of (st'', ev', e) \<Rightarrow> (st'', ev @ ev', e)))"
  by (induction xs arbitrary: st) (auto split: prod.splits option.splits)

lemma apply_states_follows:
  assumes tm: "follows enc xs tm"
    and codec: "\<And>x. x \<in> set (xs @ ys) \<Longrightarrow> codec_ok enc dec x" and torn: "torn_tail part"
    and ok: "replay no_handlers False False empty_runner_state (xs @ ys) = (st, ev, None)"
  shows "apply_states dec (Present (frames enc (xs @ ys) @ part)) tm =
    (\<lparr>tm_state = st, tm_head = length (frames enc (xs @ ys))\<rparr>, Inr (ys \<noteq> []))"
proof -
  have head: "tm_head tm = length (frames enc xs)" using tm by (simp add: follows_def)
  obtain ev2 where r: "replay no_handlers False False (tm_state tm) ys = (st, ev2, None)"
    using tm ok by (auto simp: follows_def replay_append split: prod.splits option.splits)
  have len: "length ys \<le> length (frames enc ys)"
    using codec by (intro length_frames_ge [of ys enc dec]) simp
  let ?f = "ckpt_handle (frames enc (xs @ ys) @ part) (tm_head tm)"
  have loop: "apply_loop dec (Suc (length (frames enc (xs @ ys) @ part))) (tm_state tm) ?f =
      (st, fp_seek ?f (length (frames enc xs) + length (frames enc ys)), None)"
    by (rule apply_loop_frames [OF _ torn _ _ _ r])
       (use codec len in \<open>auto simp: ckpt_handle_def head\<close>)
  show ?thesis
  proof (cases "ys = [] \<and> part = []")
    case True
    then have "tm_state tm = st" using r by simp
    then show ?thesis using True head by (simp add: apply_states_def)
  next
    case False
    have "part \<noteq> [] \<or> 0 < length (frames enc ys)" using False len by auto
    moreover have "frames enc ys \<noteq> [] \<longleftrightarrow> ys \<noteq> []" using len by auto
    ultimately show ?thesis
      using loop by (auto simp: apply_states_def head)
  qed
qed

lemma follows_init: "follows enc [] \<lparr>tm_state = empty_runner_state, tm_head = 0\<rparr>"
  by (simp add: follows_def)

text \<open>An error of the dispatcher other than a sequence error keeps the offset, so the records
  before it are applied again.\<close>

lemma apply_states_error_keeps_head:
  "snd (apply_states dec file tm) = Inl e \<Longrightarrow> tm_head (fst (apply_states dec file tm)) = tm_head tm"
  by (auto simp: apply_states_def split: ckpt_file.splits if_splits prod.splits option.splits)

section \<open>Properties\<close>

text \<open>C32: following the file in pieces is replaying it at once: a monitor that has
  applied the records \<open>xs\<close> and looks again when \<open>ys\<close> and perhaps a torn record have been
  added holds the state of a replay of the whole stream, stands after \<open>ys\<close>, and reports
  an update exactly when \<open>ys\<close> is not empty.\<close>

theorem monitor_incremental:
  assumes "follows enc xs tm" "\<And>x. x \<in> set (xs @ ys) \<Longrightarrow> codec_ok enc dec x" "torn_tail part"
    "replay no_handlers False False empty_runner_state (xs @ ys) = (st, ev, None)"
  shows "\<exists>tm'. apply_states dec (Present (frames enc (xs @ ys) @ part)) tm = (tm', Inr (ys \<noteq> [])) \<and>
    tm_state tm' = st \<and> follows enc (xs @ ys) tm' \<and> state_ok (tm_state tm')"
  using apply_states_follows [OF assms] assms(4) replay_state_ok [OF assms(4)]
  by (simp add: follows_def)

theorem monitor_incremental_witness:
  "\<exists>tm'. apply_states (\<lambda>_. Inr (process_ckpt (full_status ''p'' 0 P_WAITING)))
      (Present [0, 0, 0, 1, 5]) \<lparr>tm_state = empty_runner_state, tm_head = 0\<rparr> = (tm', Inr True) \<and>
    state_ok (tm_state tm') \<and> tm_head tm' = 5"
proof -
  let ?c = "process_ckpt (full_status ''p'' 0 P_WAITING)"
  let ?enc = "\<lambda>_. [5]" and ?dec = "\<lambda>_. Inr ?c"
  obtain st ev where r: "replay no_handlers False False empty_runner_state ([] @ [?c]) = (st, ev, None)"
    by (simp add: empty_runner_state_def no_handlers_def run_dispatch)
  have c: "codec_ok ?enc ?dec x" if "x \<in> set ([] @ [?c])" for x
    using that by (simp add: codec_ok_def maximum_record_size_def)
  have t: "torn_tail []" by (simp add: torn_tail_def)
  have f: "frames ?enc ([] @ [?c]) @ [] = [0, 0, 0, 1, 5]"
    by (simp add: frame_def pack_be32_def)
  obtain tm' where "apply_states ?dec (Present [0, 0, 0, 1, 5])
      \<lparr>tm_state = empty_runner_state, tm_head = 0\<rparr> = (tm', Inr True)"
    "follows ?enc ([] @ [?c]) tm'" "state_ok (tm_state tm')"
    using monitor_incremental [OF follows_init c t r] unfolding f by auto
  then show ?thesis by (auto simp: follows_def frame_def pack_be32_def)
qed

end
