(* ===== verification/Planner.thy ===== *)
theory Planner
  imports Prelude
begin

text \<open>
  The planners of the Thermos runner, \<^verbatim>\<open>apache/thermos/common/planner.py\<close>.  A Python set of
  process names is a list where the code iterates it in a loop that must end and a HOL set
  elsewhere; the order of a list is never used.  Operations change the planner in place and
  may raise after a change, so each returns the state it leaves and the exception, if any.
  The clock is an argument: every operation takes the time it reads (or is given).
\<close>

section \<open>Planner\<close>

datatype plan_error = InvalidSchedule

type_synonym deps = "string \<Rightarrow> string set option"

definition no_deps :: "deps \<Rightarrow> string \<Rightarrow> bool" where
  "no_deps dependencies p = (case dependencies p of None \<Rightarrow> True | Some s \<Rightarrow> s = {})"

definition filter_runnable :: "string list \<Rightarrow> deps \<Rightarrow> string list" where
  "filter_runnable processes dependencies = [p \<leftarrow> processes. no_deps dependencies p]"

definition filter_dependencies :: "deps \<Rightarrow> string set \<Rightarrow> deps" where
  "filter_dependencies dependencies given = (\<lambda>p. map_option (\<lambda>s. s - given) (dependencies p))"

function satisfiable :: "string list \<Rightarrow> deps \<Rightarrow> bool" where
  "satisfiable processes dependencies =
     (let runnables = filter_runnable processes dependencies in
      if runnables = [] then processes = []
      else satisfiable [p \<leftarrow> processes. p \<notin> set runnables]
             (filter_dependencies dependencies (set runnables)))"
  by pat_completeness auto

termination
proof (relation "measure (length \<circ> fst)")
  show "wf (measure (length \<circ> (fst :: string list \<times> deps \<Rightarrow> string list)))" by simp
next
  fix processes :: "string list" and dependencies :: deps and runnables
  assume r: "runnables = filter_runnable processes dependencies" "runnables \<noteq> []"
  then obtain p where "p \<in> set runnables" by (metis list.set_intros(1) neq_Nil_conv)
  moreover from this have "p \<in> set processes" using r by (simp add: filter_runnable_def)
  ultimately have "length [p \<leftarrow> processes. p \<notin> set runnables] < length processes"
    by (auto intro: length_filter_less)
  then show "(([p \<leftarrow> processes. p \<notin> set runnables],
      filter_dependencies dependencies (set runnables)), (processes, dependencies))
      \<in> measure (length \<circ> fst)" by simp
qed

declare satisfiable.simps [simp del]

record planner =
  pl_processes :: "string list"
  pl_dependencies :: deps
  pl_running :: "string set"
  pl_finished :: "string set"
  pl_failed :: "string set"

definition restrict_deps :: "string list \<Rightarrow> deps \<Rightarrow> deps" where
  "restrict_deps processes dependencies =
     (\<lambda>p. if p \<in> set processes
          then Some (case dependencies p of None \<Rightarrow> {} | Some s \<Rightarrow> s) else None)"

definition planner_init :: "string list \<Rightarrow> deps \<Rightarrow> (plan_error, planner) res" where
  "planner_init processes dependencies =
     (let ps = remdups processes; ds = restrict_deps ps dependencies in
      if satisfiable ps ds
      then Inr \<lparr>pl_processes = ps, pl_dependencies = ds, pl_running = {}, pl_finished = {},
             pl_failed = {}\<rparr>
      else Inl (Own InvalidSchedule))"

definition pl_runnable :: "planner \<Rightarrow> string list" where
  "pl_runnable pl =
     filter_runnable
       [p \<leftarrow> pl_processes pl. p \<notin> pl_running pl \<and> p \<notin> pl_finished pl \<and> p \<notin> pl_failed pl]
       (filter_dependencies (pl_dependencies pl) (pl_finished pl))"

type_synonym 's outcome = "'s \<times> pyexc option"

definition checked :: "bool \<Rightarrow> 's \<Rightarrow> 's \<Rightarrow> 's outcome" where
  "checked ok s s' = (if ok then (s', None) else (s, Some AssertionError))"

definition pl_reset :: "planner \<Rightarrow> string \<Rightarrow> planner outcome" where
  "pl_reset pl p =
     checked (p \<in> pl_running pl \<and> p \<notin> pl_finished pl \<and> p \<notin> pl_failed pl) pl
       (pl\<lparr>pl_running := pl_running pl - {p}\<rparr>)"

definition pl_set_running :: "planner \<Rightarrow> string \<Rightarrow> planner outcome" where
  "pl_set_running pl p =
     checked (p \<notin> pl_failed pl \<and> p \<notin> pl_finished pl \<and>
              (p \<in> pl_running pl \<or> p \<in> set (pl_runnable pl))) pl
       (pl\<lparr>pl_running := insert p (pl_running pl)\<rparr>)"

definition pl_set_finished :: "planner \<Rightarrow> string \<Rightarrow> planner outcome" where
  "pl_set_finished pl p =
     checked (p \<in> pl_running pl \<and> p \<notin> pl_failed pl) pl
       (pl\<lparr>pl_running := pl_running pl - {p}, pl_finished := insert p (pl_finished pl)\<rparr>)"

definition pl_set_failed :: "planner \<Rightarrow> string \<Rightarrow> planner outcome" where
  "pl_set_failed pl p =
     checked (p \<in> pl_running pl \<and> p \<notin> pl_finished pl) pl
       (pl\<lparr>pl_running := pl_running pl - {p}, pl_failed := insert p (pl_failed pl)\<rparr>)"

definition pl_is_complete :: "planner \<Rightarrow> bool" where
  "pl_is_complete pl = (pl_finished pl \<union> pl_failed pl = set (pl_processes pl))"

section \<open>Task planner\<close>

record process_config =
  pc_name :: string
  pc_daemon :: bool
  pc_ephemeral :: bool
  pc_max_failures :: int
  pc_min_duration :: rat
  pc_final :: bool

text \<open>A task: its processes and, where it has constraints, the \<^verbatim>\<open>order\<close> of each.\<close>

record task_config =
  tc_processes :: "process_config list"
  tc_constraints :: "string list list option"

record task_attributes =
  ta_min_duration :: rat
  ta_is_daemon :: bool
  ta_max_failures :: int
  ta_is_ephemeral :: bool

definition total_run_limit :: int where
  "total_run_limit = 2 ^ 63 - 1"

definition plan_infinity :: rat where
  "plan_infinity = 2 ^ 1024 - 2 ^ 971"

text \<open>\<^verbatim>\<open>filter(None, ps)\<close> keeps every process.\<close>

definition filter_processes :: "(process_config \<Rightarrow> bool) option \<Rightarrow> task_config \<Rightarrow> process_config list" where
  "filter_processes process_filter task =
     (case process_filter of None \<Rightarrow> tc_processes task | Some f \<Rightarrow> filter f (tc_processes task))"

text \<open>\<^verbatim>\<open>dict(...)\<close> of pairs: of two processes with one name the later wins.\<close>

definition process_map :: "process_config list \<Rightarrow> string \<Rightarrow> process_config option" where
  "process_map ps = map_of (rev (map (\<lambda>p. (pc_name p, p)) ps))"

text \<open>The pairs of one \<^verbatim>\<open>order\<close> constraint: \<open>(earlier, later)\<close> for neighbours.\<close>

fun add_order ::
  "(string \<Rightarrow> process_config option) \<Rightarrow> string list \<Rightarrow> deps \<Rightarrow> (plan_error, deps) res" where
  "add_order pm (a # b # rest) ds =
     (case (pm a, pm b) of
        (Some pa, Some pb) \<Rightarrow>
          (if pc_daemon pa then Inl (Own InvalidSchedule)
           else if \<not> pc_ephemeral pb \<and> pc_ephemeral pa then Inl (Own InvalidSchedule)
           else add_order pm (b # rest)
                  (ds(b \<mapsto> insert a (case ds b of None \<Rightarrow> {} | Some s \<Rightarrow> s))))
      | _ \<Rightarrow> Inl (Py KeyError))"
| "add_order pm _ ds = Inr ds"

fun add_constraints ::
  "(string \<Rightarrow> process_config option) \<Rightarrow> string list \<Rightarrow> string list list \<Rightarrow> deps
     \<Rightarrow> (plan_error, deps) res" where
  "add_constraints pm processes [] ds = Inr ds"
| "add_constraints pm processes (names # rest) ds =
     (let subset = list_all (\<lambda>n. n \<in> set processes) names;
          disjoint = list_all (\<lambda>n. n \<notin> set processes) names
      in if subset = disjoint then Inl (Own InvalidSchedule)
         else if \<not> subset then add_constraints pm processes rest ds
         else rbind (add_order pm names ds) (add_constraints pm processes rest))"

definition extract_dependencies ::
  "task_config \<Rightarrow> (process_config \<Rightarrow> bool) option \<Rightarrow> (plan_error, string list \<times> deps) res" where
  "extract_dependencies task process_filter =
     (let ps = filter_processes process_filter task;
          processes = remdups (map pc_name ps)
      in case tc_constraints task of
           None \<Rightarrow> Inr (processes, Map.empty)
         | Some cs \<Rightarrow> rbind (add_constraints (process_map ps) processes cs Map.empty)
                        (\<lambda>ds. Inr (processes, ds)))"

record task_planner =
  tp_planner :: planner
  tp_last_terminal :: "string \<Rightarrow> rat option"
  tp_failures :: "string \<Rightarrow> int"
  tp_successes :: "string \<Rightarrow> int"
  tp_losses :: "string \<Rightarrow> int"
  tp_attributes :: "string \<Rightarrow> task_attributes option"
  tp_ephemerals :: "string set"

definition attributes_of :: "process_config \<Rightarrow> task_attributes" where
  "attributes_of p = \<lparr>ta_min_duration = pc_min_duration p, ta_is_daemon = pc_daemon p,
     ta_max_failures = pc_max_failures p, ta_is_ephemeral = pc_ephemeral p\<rparr>"

definition task_planner_init ::
  "task_config \<Rightarrow> (process_config \<Rightarrow> bool) option \<Rightarrow> (plan_error, task_planner) res" where
  "task_planner_init task process_filter =
     rbind (extract_dependencies task process_filter) (\<lambda>(processes, ds).
     rbind (planner_init processes ds) (\<lambda>pl.
       let ps = filter_processes process_filter task in
       Inr \<lparr>tp_planner = pl, tp_last_terminal = Map.empty, tp_failures = (\<lambda>_. 0),
            tp_successes = (\<lambda>_. 0), tp_losses = (\<lambda>_. 0),
            tp_attributes = (\<lambda>n. map_option attributes_of (process_map ps n)),
            tp_ephemerals = set (map pc_name (filter pc_ephemeral ps))\<rparr>))"

text \<open>\<^verbatim>\<open>get_wait\<close>: a process that has ended before has attributes unless it is unknown.\<close>

definition get_wait :: "task_planner \<Rightarrow> string \<Rightarrow> rat \<Rightarrow> pyexc + rat" where
  "get_wait tp p now =
     (case tp_last_terminal tp p of
        None \<Rightarrow> Inr 0
      | Some t \<Rightarrow> (case tp_attributes tp p of
                     None \<Rightarrow> Inl KeyError
                   | Some a \<Rightarrow> Inr (ta_min_duration a - (now - t))))"

definition record_termination_time :: "task_planner \<Rightarrow> string \<Rightarrow> rat \<Rightarrow> task_planner" where
  "record_termination_time tp p now =
     tp\<lparr>tp_last_terminal := (tp_last_terminal tp)(p \<mapsto> now)\<rparr>"

definition is_ready :: "task_planner \<Rightarrow> string \<Rightarrow> rat \<Rightarrow> pyexc + bool" where
  "is_ready tp p now = rbind (get_wait tp p now) (\<lambda>w. Inr (w \<le> 0))"

definition is_waiting :: "task_planner \<Rightarrow> string \<Rightarrow> rat \<Rightarrow> pyexc + bool" where
  "is_waiting tp p now = rbind (is_ready tp p now) (\<lambda>b. Inr (\<not> b))"

fun filterM :: "('a \<Rightarrow> 'e + bool) \<Rightarrow> 'a list \<Rightarrow> 'e + 'a list" where
  "filterM f [] = Inr []"
| "filterM f (x # xs) = rbind (f x) (\<lambda>b. rbind (filterM f xs) (\<lambda>ys. Inr (if b then x # ys else ys)))"

definition runnable_at :: "task_planner \<Rightarrow> rat \<Rightarrow> pyexc + string list" where
  "runnable_at tp now = filterM (\<lambda>p. is_ready tp p now) (pl_runnable (tp_planner tp))"

definition waiting_at :: "task_planner \<Rightarrow> rat \<Rightarrow> pyexc + string list" where
  "waiting_at tp now = filterM (\<lambda>p. is_waiting tp p now) (pl_runnable (tp_planner tp))"

definition min_wait :: "task_planner \<Rightarrow> rat \<Rightarrow> pyexc + rat" where
  "min_wait tp now =
     rbind (runnable_at tp now) (\<lambda>ready.
       if ready \<noteq> [] then Inr 0
       else rbind (waiting_at tp now) (\<lambda>waiters.
            rbind (traverse (\<lambda>p. get_wait tp p now) waiters) (\<lambda>waits.
              Inr (if waits \<noteq> [] then Min (set waits) else plan_infinity))))"

definition on_planner :: "task_planner \<Rightarrow> planner outcome \<Rightarrow> task_planner outcome" where
  "on_planner tp r = (tp\<lparr>tp_planner := fst r\<rparr>, snd r)"

definition tp_set_running :: "task_planner \<Rightarrow> string \<Rightarrow> task_planner outcome" where
  "tp_set_running tp p = on_planner tp (pl_set_running (tp_planner tp) p)"

definition has_reached_run_limit :: "task_planner \<Rightarrow> string \<Rightarrow> bool" where
  "has_reached_run_limit tp p =
     (tp_successes tp p + tp_failures tp p + tp_losses tp p \<ge> total_run_limit)"

definition failure_transition :: "task_planner \<Rightarrow> string \<Rightarrow> task_planner outcome" where
  "failure_transition tp p =
     (if has_reached_run_limit tp p then on_planner tp (pl_set_failed (tp_planner tp) p)
      else case tp_attributes tp p of
             None \<Rightarrow> (tp, Some KeyError)
           | Some a \<Rightarrow>
               (if ta_max_failures a = 0 \<or> tp_failures tp p < ta_max_failures a
                then on_planner tp (pl_reset (tp_planner tp) p)
                else if ta_is_ephemeral a then on_planner tp (pl_set_finished (tp_planner tp) p)
                else on_planner tp (pl_set_failed (tp_planner tp) p)))"

definition add_failure :: "task_planner \<Rightarrow> string \<Rightarrow> rat \<Rightarrow> task_planner outcome" where
  "add_failure tp p now =
     (let tp1 = record_termination_time tp p now;
          tp2 = tp1\<lparr>tp_failures := (tp_failures tp1)(p := tp_failures tp1 p + 1)\<rparr>
      in failure_transition tp2 p)"

definition success_transition :: "task_planner \<Rightarrow> string \<Rightarrow> task_planner outcome" where
  "success_transition tp p =
     (if has_reached_run_limit tp p then on_planner tp (pl_set_failed (tp_planner tp) p)
      else case tp_attributes tp p of
             None \<Rightarrow> (tp, Some KeyError)
           | Some a \<Rightarrow>
               (if \<not> ta_is_daemon a then on_planner tp (pl_set_finished (tp_planner tp) p)
                else on_planner tp (pl_reset (tp_planner tp) p)))"

definition add_success :: "task_planner \<Rightarrow> string \<Rightarrow> rat \<Rightarrow> task_planner outcome" where
  "add_success tp p now =
     (let tp1 = record_termination_time tp p now;
          tp2 = tp1\<lparr>tp_successes := (tp_successes tp1)(p := tp_successes tp1 p + 1)\<rparr>
      in success_transition tp2 p)"

definition tp_set_failed :: "task_planner \<Rightarrow> string \<Rightarrow> task_planner outcome" where
  "tp_set_failed tp p = on_planner tp (pl_set_failed (tp_planner tp) p)"

definition lost_transition :: "task_planner \<Rightarrow> string \<Rightarrow> task_planner outcome" where
  "lost_transition tp p =
     (if has_reached_run_limit tp p then on_planner tp (pl_set_failed (tp_planner tp) p)
      else on_planner tp (pl_reset (tp_planner tp) p))"

definition lost :: "task_planner \<Rightarrow> string \<Rightarrow> rat \<Rightarrow> task_planner outcome" where
  "lost tp p now =
     (let tp1 = record_termination_time tp p now;
          tp2 = tp1\<lparr>tp_losses := (tp_losses tp1)(p := tp_losses tp1 p + 1)\<rparr>
      in lost_transition tp2 p)"

definition tp_is_complete :: "task_planner \<Rightarrow> bool" where
  "tp_is_complete tp =
     (set (pl_processes (tp_planner tp)) =
        pl_finished (tp_planner tp) \<union> pl_failed (tp_planner tp) \<union> tp_ephemerals tp)"

section \<open>Satisfiable schedules\<close>

definition dep_set :: "deps \<Rightarrow> string \<Rightarrow> string set" where
  "dep_set ds p = (case ds p of None \<Rightarrow> {} | Some s \<Rightarrow> s)"

definition dep_rel :: "string list \<Rightarrow> deps \<Rightarrow> (string \<times> string) set" where
  "dep_rel ps ds = {(q, p). p \<in> set ps \<and> q \<in> dep_set ds p}"

lemma no_deps_iff: "no_deps ds p \<longleftrightarrow> dep_set ds p = {}"
  by (auto simp: no_deps_def dep_set_def split: option.split)

lemma dep_set_filter [simp]: "dep_set (filter_dependencies ds R) p = dep_set ds p - R"
  by (auto simp: dep_set_def filter_dependencies_def split: option.split)

lemma set_filter_runnable: "set (filter_runnable ps ds) = {p \<in> set ps. dep_set ds p = {}}"
  by (simp add: filter_runnable_def no_deps_iff)

lemma acyclic_minus_sources:
  assumes acyc: "acyclic {(q, p). p \<in> P - R \<and> q \<in> D p - R}"
    and sources: "\<And>p. p \<in> R \<Longrightarrow> D p = {}"
  shows "acyclic {(q, p). p \<in> P \<and> q \<in> D p}"
proof (rule acyclicI, rule allI, rule notI)
  let ?big = "{(q, p). p \<in> P \<and> q \<in> D p}" and ?small = "{(q, p). p \<in> P - R \<and> q \<in> D p - R}"
  fix x assume x: "(x, x) \<in> ?big\<^sup>+"
  have "x \<notin> R" using x sources by (auto elim: tranclE)
  have "(x, y) \<in> ?small\<^sup>+" if "(x, y) \<in> ?big\<^sup>+" for y
    using that
  proof (induction rule: trancl_induct)
    case (base y)
    then show ?case using sources \<open>x \<notin> R\<close> by blast
  next
    case (step y z)
    have "y \<notin> R" using step(1) sources by (auto elim: tranclE)
    then have "(y, z) \<in> ?small" using step(2) sources by blast
    with step(3) show ?case by (rule trancl_into_trancl)
  qed
  with x have "(x, x) \<in> ?small\<^sup>+" by blast
  with acyc show False by (simp add: acyclic_def)
qed

lemma source_exists:
  assumes "acyclic (dep_rel ps ds)" "\<forall>p \<in> set ps. dep_set ds p \<subseteq> set ps" "ps \<noteq> []"
  shows "\<exists>p \<in> set ps. dep_set ds p = {}"
proof -
  have "dep_rel ps ds \<subseteq> set ps \<times> set ps"
    using assms(2) by (auto simp: dep_rel_def)
  then have "finite (dep_rel ps ds)"
    by (rule finite_subset) simp
  then have wf: "wf (dep_rel ps ds)"
    using assms(1) by (rule finite_acyclic_wf)
  obtain p where p: "p \<in> set ps" using assms(3) by (meson last_in_set)
  obtain m where m: "m \<in> set ps" "\<And>q. (q, m) \<in> dep_rel ps ds \<Longrightarrow> q \<notin> set ps"
    using wfE_min [OF wf p] by metis
  have "q \<notin> dep_set ds m" for q
  proof
    assume q: "q \<in> dep_set ds m"
    then have "(q, m) \<in> dep_rel ps ds" using m(1) by (simp add: dep_rel_def)
    then have "q \<notin> set ps" by (rule m(2))
    then show False using q m(1) assms(2) by blast
  qed
  then have "dep_set ds m = {}" by blast
  with m(1) show ?thesis by blast
qed

lemma satisfiable_acyclic:
  "satisfiable ps ds \<longleftrightarrow> (\<forall>p \<in> set ps. dep_set ds p \<subseteq> set ps) \<and> acyclic (dep_rel ps ds)"
proof (induction ps ds rule: satisfiable.induct)
  case (1 ps ds)
  let ?R = "filter_runnable ps ds"
  show ?case
  proof (cases "?R = []")
    case True
    then have none: "\<not> (\<exists>p \<in> set ps. dep_set ds p = {})"
      using set_filter_runnable [of ps ds] by auto
    have "satisfiable ps ds \<longleftrightarrow> ps = []"
      using True by (simp add: satisfiable.simps)
    also have "\<dots> \<longleftrightarrow> (\<forall>p \<in> set ps. dep_set ds p \<subseteq> set ps) \<and> acyclic (dep_rel ps ds)"
      using none source_exists [of ps ds] by (auto simp: dep_rel_def acyclic_def)
    finally show ?thesis .
  next
    case False
    let ?ps = "[p \<leftarrow> ps. p \<notin> set ?R]" and ?ds = "filter_dependencies ds (set ?R)"
    have R: "set ?R = {p \<in> set ps. dep_set ds p = {}}" by (rule set_filter_runnable)
    have "satisfiable ps ds \<longleftrightarrow> satisfiable ?ps ?ds"
      using False by (subst satisfiable.simps) (simp add: Let_def)
    also have "\<dots> \<longleftrightarrow> (\<forall>p \<in> set ?ps. dep_set ?ds p \<subseteq> set ?ps) \<and> acyclic (dep_rel ?ps ?ds)"
      using "1.IH" [OF refl False] .
    also have "(\<forall>p \<in> set ?ps. dep_set ?ds p \<subseteq> set ?ps) \<longleftrightarrow>
        (\<forall>p \<in> set ps. dep_set ds p \<subseteq> set ps)"
      using R by auto
    also have "acyclic (dep_rel ?ps ?ds) \<longleftrightarrow> acyclic (dep_rel ps ds)"
    proof
      have rel: "dep_rel ?ps ?ds = {(q, p). p \<in> set ps - set ?R \<and> q \<in> dep_set ds p - set ?R}"
        by (auto simp: dep_rel_def)
      assume "acyclic (dep_rel ?ps ?ds)"
      then have "acyclic {(q, p). p \<in> set ps - set ?R \<and> q \<in> dep_set ds p - set ?R}"
        unfolding rel .
      then show "acyclic (dep_rel ps ds)"
        unfolding dep_rel_def by (rule acyclic_minus_sources) (use R in auto)
    next
      assume "acyclic (dep_rel ps ds)"
      then show "acyclic (dep_rel ?ps ?ds)"
        by (rule acyclic_subset) (auto simp: dep_rel_def)
    qed
    finally show ?thesis .
  qed
qed

lemma dep_set_restrict [simp]:
  "dep_set (restrict_deps ps ds) p = (if p \<in> set ps then dep_set ds p else {})"
  by (auto simp: dep_set_def restrict_deps_def split: option.split)

lemma planner_init_ok:
  "(\<exists>pl. planner_init ps ds = Inr pl) \<longleftrightarrow>
     (\<forall>p \<in> set ps. dep_set ds p \<subseteq> set ps) \<and> acyclic {(q, p). p \<in> set ps \<and> q \<in> dep_set ds p}"
proof -
  have "{(q, p). p \<in> set ps \<and> q \<in> (if p \<in> set ps then dep_set ds p else {})} =
      {(q, p). p \<in> set ps \<and> q \<in> dep_set ds p}" by auto
  then show ?thesis
    by (auto simp: planner_init_def Let_def satisfiable_acyclic dep_rel_def)
qed

section \<open>The invariant of a plan\<close>

definition pl_ok :: "planner \<Rightarrow> bool" where
  "pl_ok pl =
     (pl_running pl \<union> pl_finished pl \<union> pl_failed pl \<subseteq> set (pl_processes pl) \<and>
      pl_running pl \<inter> pl_finished pl = {} \<and> pl_running pl \<inter> pl_failed pl = {} \<and>
      pl_finished pl \<inter> pl_failed pl = {} \<and>
      (\<forall>p \<in> set (pl_processes pl). dep_set (pl_dependencies pl) p \<subseteq> set (pl_processes pl)) \<and>
      acyclic (dep_rel (pl_processes pl) (pl_dependencies pl)) \<and>
      (\<forall>p \<in> pl_running pl \<union> pl_finished pl \<union> pl_failed pl.
         dep_set (pl_dependencies pl) p \<subseteq> pl_finished pl))"

definition tp_ok :: "task_planner \<Rightarrow> bool" where
  "tp_ok tp =
     (pl_ok (tp_planner tp) \<and> tp_ephemerals tp \<subseteq> set (pl_processes (tp_planner tp)) \<and>
      (\<forall>p \<in> set (pl_processes (tp_planner tp)). tp_attributes tp p \<noteq> None))"

lemma set_pl_runnable:
  "set (pl_runnable pl) =
     {p \<in> set (pl_processes pl) - pl_running pl - pl_finished pl - pl_failed pl.
        dep_set (pl_dependencies pl) p \<subseteq> pl_finished pl}"
  by (auto simp: pl_runnable_def set_filter_runnable)

lemma fst_checked [simp]: "fst (checked b s s') = (if b then s' else s)"
  by (simp add: checked_def)

lemma snd_checked [simp]: "snd (checked b s s') = None \<longleftrightarrow> b"
  by (simp add: checked_def)

lemma pl_ok_reset [inv_intros]: "pl_ok pl \<Longrightarrow> pl_ok (fst (pl_reset pl p))"
  unfolding pl_ok_def pl_reset_def by auto

lemma pl_ok_set_running [inv_intros]: "pl_ok pl \<Longrightarrow> pl_ok (fst (pl_set_running pl p))"
  unfolding pl_ok_def pl_set_running_def by (auto simp: set_pl_runnable)

lemma pl_ok_set_finished [inv_intros]: "pl_ok pl \<Longrightarrow> pl_ok (fst (pl_set_finished pl p))"
  unfolding pl_ok_def pl_set_finished_def by auto

lemma pl_ok_set_failed [inv_intros]: "pl_ok pl \<Longrightarrow> pl_ok (fst (pl_set_failed pl p))"
  unfolding pl_ok_def pl_set_failed_def by auto

text \<open>The processes and their dependencies never change.\<close>

lemma pl_fixed [simp]:
  "pl_processes (fst (pl_reset pl p)) = pl_processes pl"
  "pl_processes (fst (pl_set_running pl p)) = pl_processes pl"
  "pl_processes (fst (pl_set_finished pl p)) = pl_processes pl"
  "pl_processes (fst (pl_set_failed pl p)) = pl_processes pl"
  "pl_dependencies (fst (pl_reset pl p)) = pl_dependencies pl"
  "pl_dependencies (fst (pl_set_running pl p)) = pl_dependencies pl"
  "pl_dependencies (fst (pl_set_finished pl p)) = pl_dependencies pl"
  "pl_dependencies (fst (pl_set_failed pl p)) = pl_dependencies pl"
  by (simp_all add: pl_reset_def pl_set_running_def pl_set_finished_def pl_set_failed_def)

lemma pl_init_ok:
  assumes "planner_init ps ds = Inr pl"
  shows "pl_ok pl" "set (pl_processes pl) = set ps"
  using assms
  by (auto simp: planner_init_def Let_def pl_ok_def satisfiable_acyclic dep_rel_def
      split: if_splits; blast)+

text \<open>Whatever is neither running nor done waits for a failed process when nothing runs and
  nothing is runnable.\<close>

lemma blocked_by_failure:
  assumes ok: "pl_ok pl" and idle: "pl_running pl = {}" "pl_runnable pl = []"
  shows "p \<in> set (pl_processes pl) \<Longrightarrow> p \<notin> pl_finished pl \<union> pl_failed pl \<Longrightarrow>
     \<exists>f \<in> pl_failed pl. (f, p) \<in> (dep_rel (pl_processes pl) (pl_dependencies pl))\<^sup>+"
proof -
  let ?r = "dep_rel (pl_processes pl) (pl_dependencies pl)"
  have "?r \<subseteq> set (pl_processes pl) \<times> set (pl_processes pl)"
    using ok unfolding pl_ok_def dep_rel_def by blast
  then have "finite ?r" by (rule finite_subset) simp
  then have wf: "wf ?r"
    using ok finite_acyclic_wf unfolding pl_ok_def by blast
  show "p \<in> set (pl_processes pl) \<Longrightarrow> p \<notin> pl_finished pl \<union> pl_failed pl \<Longrightarrow>
     \<exists>f \<in> pl_failed pl. (f, p) \<in> ?r\<^sup>+"
    using wf
  proof (induction p rule: wf_induct_rule)
    case (less p)
    have "p \<notin> set (pl_runnable pl)" using idle by simp
    then obtain q where q: "q \<in> dep_set (pl_dependencies pl) p" "q \<notin> pl_finished pl"
      using less.prems idle(1) unfolding set_pl_runnable by blast
    then have qp: "(q, p) \<in> ?r" using less.prems(1) by (simp add: dep_rel_def)
    have "q \<in> set (pl_processes pl)"
      using ok q(1) less.prems(1) unfolding pl_ok_def by blast
    show ?case
    proof (cases "q \<in> pl_failed pl")
      case True
      then show ?thesis using qp by blast
    next
      case False
      then obtain f where "f \<in> pl_failed pl" "(f, q) \<in> ?r\<^sup>+"
        using less.IH [OF qp] \<open>q \<in> set (pl_processes pl)\<close> q(2) by blast
      then show ?thesis using qp by (meson trancl_into_trancl)
    qed
  qed
qed

section \<open>The operations of the task planner as one machine\<close>

datatype plan_op = Set_running string | Add_success string rat | Add_failure string rat
  | Lost string rat | Set_failed string

fun plan_step :: "task_planner \<Rightarrow> plan_op \<Rightarrow> task_planner outcome" where
  "plan_step tp (Set_running p) = tp_set_running tp p"
| "plan_step tp (Add_success p t) = add_success tp p t"
| "plan_step tp (Add_failure p t) = add_failure tp p t"
| "plan_step tp (Lost p t) = lost tp p t"
| "plan_step tp (Set_failed p) = tp_set_failed tp p"

lemmas transitions = add_success_def add_failure_def lost_def success_transition_def
  failure_transition_def lost_transition_def record_termination_time_def Let_def

text \<open>Every operation leaves the planner part as one of the four plan operations left it.\<close>

lemma plan_step_planner:
  "tp_planner (fst (plan_step tp op)) \<in>
     {tp_planner tp} \<union> (\<Union>p. {fst (pl_reset (tp_planner tp) p), fst (pl_set_running (tp_planner tp) p),
        fst (pl_set_finished (tp_planner tp) p), fst (pl_set_failed (tp_planner tp) p)})"
  by (cases op)
     (auto simp: tp_set_running_def tp_set_failed_def transitions on_planner_def
       split: option.split)

lemma plan_step_fixed [simp]:
  "tp_attributes (fst (plan_step tp op)) = tp_attributes tp"
  "tp_ephemerals (fst (plan_step tp op)) = tp_ephemerals tp"
  by (cases op; auto simp: tp_set_running_def tp_set_failed_def transitions on_planner_def
       split: option.split)+

lemma plan_step_processes [simp]:
  "pl_processes (tp_planner (fst (plan_step tp op))) = pl_processes (tp_planner tp)"
  "pl_dependencies (tp_planner (fst (plan_step tp op))) = pl_dependencies (tp_planner tp)"
  using plan_step_planner [of tp op] by auto

lemma plan_step_ok: "tp_ok tp \<Longrightarrow> tp_ok (fst (plan_step tp op))"
  using plan_step_planner [of tp op] inv_intros
  unfolding tp_ok_def by auto

definition plan_below :: "task_planner \<Rightarrow> task_planner \<Rightarrow> bool" where
  "plan_below s t =
     (pl_finished (tp_planner s) \<subseteq> pl_finished (tp_planner t) \<and>
      pl_failed (tp_planner s) \<subseteq> pl_failed (tp_planner t) \<and>
      (\<forall>p. tp_failures s p \<le> tp_failures t p \<and> tp_successes s p \<le> tp_successes t p \<and>
           tp_losses s p \<le> tp_losses t p))"

lemma plan_step_below: "plan_below tp (fst (plan_step tp op))"
proof -
  have "pl_finished (tp_planner tp) \<subseteq> pl_finished (tp_planner (fst (plan_step tp op)))"
    "pl_failed (tp_planner tp) \<subseteq> pl_failed (tp_planner (fst (plan_step tp op)))"
    using plan_step_planner [of tp op]
    by (auto simp: pl_reset_def pl_set_running_def pl_set_finished_def pl_set_failed_def
        split: if_splits)
  then show ?thesis
    by (cases op; auto simp: plan_below_def tp_set_running_def tp_set_failed_def transitions
        on_planner_def split: option.split)
qed

interpretation tp: monotone_machine plan_step tp_ok plan_below
proof unfold_locales
  show "plan_below s s" for s by (simp add: plan_below_def)
  show "plan_below s u" if "plan_below s t" "plan_below t u" for s t u
    using that unfolding plan_below_def by (meson order_trans)
qed (simp_all add: plan_step_ok plan_step_below)

section \<open>Waiting for the minimum duration\<close>

definition wait_of :: "task_planner \<Rightarrow> string \<Rightarrow> rat \<Rightarrow> rat" where
  "wait_of tp p now = (case tp_last_terminal tp p of None \<Rightarrow> 0
     | Some t \<Rightarrow> ta_min_duration (the (tp_attributes tp p)) - (now - t))"

lemma filterM_total:
  "(\<And>x. x \<in> set xs \<Longrightarrow> f x = Inr (g x)) \<Longrightarrow> filterM f xs = Inr (filter g xs)"
  by (induction xs) auto

lemma get_wait_ok:
  assumes "tp_ok tp" "p \<in> set (pl_runnable (tp_planner tp))"
  shows "get_wait tp p now = Inr (wait_of tp p now)"
proof -
  have "tp_attributes tp p \<noteq> None"
    using assms by (simp add: tp_ok_def set_pl_runnable)
  then show ?thesis by (auto simp: get_wait_def wait_of_def split: option.split)
qed

lemma runnable_at_eq:
  "tp_ok tp \<Longrightarrow> runnable_at tp now = Inr [p \<leftarrow> pl_runnable (tp_planner tp). wait_of tp p now \<le> 0]"
  unfolding runnable_at_def by (rule filterM_total) (simp add: is_ready_def get_wait_ok)

lemma waiting_at_eq:
  "tp_ok tp \<Longrightarrow> waiting_at tp now = Inr [p \<leftarrow> pl_runnable (tp_planner tp). \<not> wait_of tp p now \<le> 0]"
  unfolding waiting_at_def by (rule filterM_total) (simp add: is_waiting_def is_ready_def get_wait_ok)

lemma min_wait_eq:
  assumes "tp_ok tp"
  shows "min_wait tp now =
    Inr (if \<exists>p \<in> set (pl_runnable (tp_planner tp)). wait_of tp p now \<le> 0 then 0
         else if pl_runnable (tp_planner tp) = [] then plan_infinity
         else Min ((\<lambda>p. wait_of tp p now) ` set (pl_runnable (tp_planner tp))))"
proof -
  let ?R = "pl_runnable (tp_planner tp)"
  let ?W = "[p \<leftarrow> ?R. \<not> wait_of tp p now \<le> 0]"
  have W: "traverse (\<lambda>p. get_wait tp p now) ?W = Inr (map (\<lambda>p. wait_of tp p now) ?W)"
    by (rule traverse_total) (use assms in \<open>simp add: get_wait_ok\<close>)
  show ?thesis
  proof (cases "\<exists>p \<in> set ?R. wait_of tp p now \<le> 0")
    case True
    then show ?thesis
      by (auto simp: min_wait_def runnable_at_eq [OF assms] filter_empty_conv)
  next
    case False
    then have "?W = ?R" "[p \<leftarrow> ?R. wait_of tp p now \<le> 0] = []"
      by (auto simp: filter_empty_conv filter_id_conv)
    then show ?thesis
      using W False
      by (simp add: min_wait_def runnable_at_eq [OF assms] waiting_at_eq [OF assms])
  qed
qed

lemma wait_of_shift:
  "wait_of tp p (now + d) = (case tp_last_terminal tp p of None \<Rightarrow> 0 | Some _ \<Rightarrow> wait_of tp p now - d)"
  by (auto simp: wait_of_def split: option.split)

lemma wait_of_positive: "wait_of tp p now > 0 \<Longrightarrow> wait_of tp p (now + d) = wait_of tp p now - d"
  by (auto simp: wait_of_def split: option.splits)

lemma min_wait_earliest:
  assumes ok: "tp_ok tp" and R: "pl_runnable (tp_planner tp) \<noteq> []"
  shows "\<exists>w ready. min_wait tp now = Inr w \<and> 0 \<le> w \<and>
     runnable_at tp (now + w) = Inr ready \<and> ready \<noteq> [] \<and>
     (\<forall>d. 0 \<le> d \<longrightarrow> d < w \<longrightarrow> runnable_at tp (now + d) = Inr [])"
proof (cases "\<exists>p \<in> set (pl_runnable (tp_planner tp)). wait_of tp p now \<le> 0")
  case True
  then show ?thesis
    by (auto simp: min_wait_eq [OF ok] runnable_at_eq [OF ok] filter_empty_conv)
next
  case False
  let ?S = "(\<lambda>p. wait_of tp p now) ` set (pl_runnable (tp_planner tp))"
  have S: "finite ?S" "?S \<noteq> {}" using R by auto
  from Min_in [OF S] obtain p where p: "p \<in> set (pl_runnable (tp_planner tp))"
    "wait_of tp p now = Min ?S" by auto
  have pos: "0 < wait_of tp q now" if "q \<in> set (pl_runnable (tp_planner tp))" for q
    using False that by auto
  have w: "min_wait tp now = Inr (Min ?S)"
    using False R by (simp add: min_wait_eq [OF ok])
  have "wait_of tp p (now + Min ?S) = 0"
    using wait_of_positive [OF pos [OF p(1)]] p(2) by simp
  moreover have "0 < wait_of tp q (now + d)"
    if "q \<in> set (pl_runnable (tp_planner tp))" "d < Min ?S" for q d
  proof -
    have "Min ?S \<le> wait_of tp q now" using that(1) S(1) by (intro Min_le) auto
    then show ?thesis using wait_of_positive [OF pos [OF that(1)]] that(2) by simp
  qed
  ultimately have z: "wait_of tp p (now + Min ?S) \<le> 0"
    and nz: "\<And>q d. q \<in> set (pl_runnable (tp_planner tp)) \<Longrightarrow> d < Min ?S \<Longrightarrow> \<not> wait_of tp q (now + d) \<le> 0"
    by (simp, meson not_le)
  have "[q \<leftarrow> pl_runnable (tp_planner tp). wait_of tp q (now + Min ?S) \<le> 0] \<noteq> []"
    unfolding filter_empty_conv using p(1) z by blast
  moreover have "\<forall>d. 0 \<le> d \<longrightarrow> d < Min ?S \<longrightarrow>
      [q \<leftarrow> pl_runnable (tp_planner tp). wait_of tp q (now + d) \<le> 0] = []"
    unfolding filter_empty_conv using nz by blast
  moreover have "0 \<le> Min ?S" using pos [OF p(1)] p(2) by linarith
  ultimately show ?thesis
    using w by (simp add: runnable_at_eq [OF ok])
qed

section \<open>Failures\<close>

lemma add_failure_running:
  assumes ok: "tp_ok tp" and run: "p \<in> pl_running (tp_planner tp)"
    and a: "tp_attributes tp p = Some a"
    and limit: "tp_successes tp p + tp_failures tp p + tp_losses tp p + 1 < total_run_limit"
  shows "\<exists>tp'. add_failure tp p now = (tp', None) \<and>
     tp_failures tp' p = tp_failures tp p + 1 \<and> p \<notin> pl_running (tp_planner tp') \<and>
     (if ta_max_failures a = 0 \<or> tp_failures tp p + 1 < ta_max_failures a
      then p \<in> set (pl_runnable (tp_planner tp'))
      else if ta_is_ephemeral a then p \<in> pl_finished (tp_planner tp')
      else p \<in> pl_failed (tp_planner tp'))"
proof -
  have "pl_ok (tp_planner tp)" using ok by (simp add: tp_ok_def)
  then have P: "p \<in> set (pl_processes (tp_planner tp))" "p \<notin> pl_finished (tp_planner tp)"
    "p \<notin> pl_failed (tp_planner tp)"
    "dep_set (pl_dependencies (tp_planner tp)) p \<subseteq> pl_finished (tp_planner tp)"
    using run unfolding pl_ok_def by auto
  show ?thesis
    using run a limit P
    by (auto simp: transitions has_reached_run_limit_def on_planner_def pl_reset_def
        pl_set_finished_def pl_set_failed_def checked_def set_pl_runnable)
qed

section \<open>Extracting the dependencies of a task\<close>

definition legal_dep :: "(string \<Rightarrow> process_config option) \<Rightarrow> string \<Rightarrow> string \<Rightarrow> bool" where
  "legal_dep pm q p = (\<exists>cq cp. pm q = Some cq \<and> pm p = Some cp \<and> \<not> pc_daemon cq \<and>
     (pc_ephemeral cq \<longrightarrow> pc_ephemeral cp))"

lemma dep_set_upd: "dep_set (ds(b \<mapsto> s)) p = (if p = b then s else dep_set ds p)"
  by (simp add: dep_set_def)

lemma add_order_deps:
  "add_order pm names ds = Inr ds' \<Longrightarrow> q \<in> dep_set ds' p \<Longrightarrow>
     q \<in> dep_set ds p \<or> (\<exists>i. Suc i < length names \<and> names ! i = q \<and> names ! Suc i = p \<and> legal_dep pm q p)"
proof (induction names arbitrary: ds)
  case Nil
  then show ?case by simp
next
  case (Cons a names)
  show ?case
  proof (cases names)
  case Nil
  then show ?thesis using Cons.prems by simp
next
  case names: (Cons b rest)
  let ?s = "insert a (case ds b of None \<Rightarrow> {} | Some s \<Rightarrow> s)"
  obtain pa pb where pm: "pm a = Some pa" "pm b = Some pb" "\<not> pc_daemon pa"
    "pc_ephemeral pb \<or> \<not> pc_ephemeral pa"
    and rec: "add_order pm (b # rest) (ds(b \<mapsto> ?s)) = Inr ds'"
    using Cons.prems(1) names by (auto split: option.splits if_splits)
  have legal: "legal_dep pm a b" using pm by (auto simp: legal_dep_def)
  have IH: "q \<in> dep_set (ds(b \<mapsto> ?s)) p \<or> (\<exists>i. Suc i < length (b # rest) \<and>
      (b # rest) ! i = q \<and> (b # rest) ! Suc i = p \<and> legal_dep pm q p)"
    by (rule Cons.IH [unfolded names, OF rec Cons.prems(2)])
  then show ?thesis
  proof
    assume "q \<in> dep_set (ds(b \<mapsto> ?s)) p"
    then have "q \<in> dep_set ds p \<or> (q = a \<and> p = b)"
      by (auto simp: dep_set_upd dep_set_def split: if_splits)
    then show ?thesis
    proof
      assume "q = a \<and> p = b"
      then have "Suc 0 < length (a # b # rest) \<and> (a # b # rest) ! 0 = q \<and>
         (a # b # rest) ! Suc 0 = p \<and> legal_dep pm q p" using legal by simp
      then show ?thesis unfolding names by blast
    qed simp
  next
    assume "\<exists>i. Suc i < length (b # rest) \<and> (b # rest) ! i = q \<and> (b # rest) ! Suc i = p \<and> legal_dep pm q p"
    then obtain i where "Suc (Suc i) < length (a # b # rest)" "(a # b # rest) ! Suc i = q"
      "(a # b # rest) ! Suc (Suc i) = p" "legal_dep pm q p" by auto
    then show ?thesis unfolding names by blast
  qed
  qed
qed

lemma add_constraints_legal:
  "add_constraints pm ps cs ds = Inr ds' \<Longrightarrow> \<forall>p q. q \<in> dep_set ds p \<longrightarrow> legal_dep pm q p \<Longrightarrow>
     q \<in> dep_set ds' p \<Longrightarrow> legal_dep pm q p"
proof (induction pm ps cs ds arbitrary: ds' rule: add_constraints.induct)
  case (1 pm ps ds)
  then show ?case by simp
next
  case (2 pm ps names rest ds)
  show ?case
  proof (cases "list_all (\<lambda>n. n \<in> set ps) names")
    case False
    then show ?thesis using 2 by (auto simp: Let_def split: if_splits)
  next
    case True
    then obtain ds1 where o: "add_order pm names ds = Inr ds1"
      and c: "add_constraints pm ps rest ds1 = Inr ds'"
      and nd: "\<not> list_all (\<lambda>n. n \<notin> set ps) names"
      using "2.prems"(1) by (auto simp: Let_def rbind_Inr_iff split: if_splits)
    have "\<forall>p q. q \<in> dep_set ds1 p \<longrightarrow> legal_dep pm q p"
      using add_order_deps [OF o] "2.prems"(2) by blast
    then show ?thesis
      using "2.IH"(2) [OF refl refl _ _ c] True nd "2.prems"(3) by auto
  qed
qed

lemma set_filter_processes_names:
  "process_map ps n \<noteq> None \<longleftrightarrow> n \<in> set (map pc_name ps)"
proof -
  have "dom (process_map ps) = set (map pc_name ps)"
    by (simp add: process_map_def dom_map_of_conv_image_fst image_image)
  then show ?thesis by blast
qed

lemma extract_names:
  "extract_dependencies task f = Inr (processes, ds) \<Longrightarrow>
     processes = remdups (map pc_name (filter_processes f task))"
  by (auto simp: extract_dependencies_def Let_def rbind_Inr_iff split: option.splits)

lemma extract_legal:
  assumes "extract_dependencies task f = Inr (processes, ds)" "q \<in> dep_set ds p"
  shows "legal_dep (process_map (filter_processes f task)) q p"
proof (cases "tc_constraints task")
  case None
  then show ?thesis using assms by (auto simp: extract_dependencies_def dep_set_def Let_def)
next
  case (Some cs)
  then have "add_constraints (process_map (filter_processes f task)) processes cs Map.empty = Inr ds"
    using assms(1) by (auto simp: extract_dependencies_def Let_def rbind_Inr_iff)
  then show ?thesis
    using add_constraints_legal assms(2) by (metis dep_set_def empty_iff option.simps(4))
qed

lemma task_planner_init_ok:
  assumes "task_planner_init task f = Inr tp"
  shows "tp_ok tp"
    "q \<in> dep_set (pl_dependencies (tp_planner tp)) p \<Longrightarrow>
       legal_dep (process_map (filter_processes f task)) q p"
proof -
  let ?ps = "filter_processes f task"
  obtain processes ds pl where e: "extract_dependencies task f = Inr (processes, ds)"
    and pl: "planner_init processes ds = Inr pl"
    and tp: "tp_planner tp = pl" "tp_ephemerals tp = set (map pc_name (filter pc_ephemeral ?ps))"
      "\<And>n. tp_attributes tp n = map_option attributes_of (process_map ?ps n)"
    using assms by (auto simp: task_planner_init_def rbind_Inr_iff Let_def)
  have set: "set (pl_processes pl) = set (map pc_name ?ps)"
    using pl_init_ok(2) [OF pl] extract_names [OF e] by simp
  have "tp_attributes tp p \<noteq> None" if "p \<in> set (pl_processes pl)" for p
    using that set_filter_processes_names [of ?ps p] by (simp add: set tp(3))
  then show "tp_ok tp"
    using pl_init_ok(1) [OF pl] set by (auto simp: tp_ok_def tp(1,2))
  assume "q \<in> dep_set (pl_dependencies (tp_planner tp)) p"
  then have "q \<in> dep_set ds p"
    using pl by (auto simp: tp planner_init_def Let_def split: if_splits)
  then show "legal_dep (process_map ?ps) q p"
    by (rule extract_legal [OF e])
qed

lemma reachable_tp_ok:
  "task_planner_init task f = Inr tp0 \<Longrightarrow> reachable plan_step tp0 tp \<Longrightarrow> tp_ok tp"
  using task_planner_init_ok(1) tp.reachable_inv by blast

lemma reachable_fixed:
  "reachable plan_step tp0 tp \<Longrightarrow>
     pl_processes (tp_planner tp) = pl_processes (tp_planner tp0) \<and>
     pl_dependencies (tp_planner tp) = pl_dependencies (tp_planner tp0)"
  by (induction rule: reachable.induct) auto

lemma tp_ok_pl_ok [simp]: "tp_ok tp \<Longrightarrow> pl_ok (tp_planner tp)"
  by (simp add: tp_ok_def)

section \<open>Properties\<close>

definition sample_process :: "string \<Rightarrow> process_config" where
  "sample_process n = \<lparr>pc_name = n, pc_daemon = False, pc_ephemeral = False, pc_max_failures = 2,
     pc_min_duration = 5, pc_final = False\<rparr>"

definition sample_task :: task_config where
  "sample_task = \<lparr>tc_processes = [sample_process ''a'', sample_process ''b''],
     tc_constraints = Some [[''a'', ''b'']]\<rparr>"

lemmas run_plan = task_planner_init_def extract_dependencies_def filter_processes_def
  sample_task_def sample_process_def process_map_def planner_init_def restrict_deps_def
  satisfiable.simps filter_runnable_def no_deps_def filter_dependencies_def Let_def
  attributes_of_def

lemma sample_planner: "\<exists>tp. task_planner_init sample_task None = Inr tp \<and>
    pl_processes (tp_planner tp) = [''a'', ''b''] \<and> pl_running (tp_planner tp) = {} \<and>
    tp_last_terminal tp = Map.empty \<and> pl_finished (tp_planner tp) = {} \<and>
    pl_failed (tp_planner tp) = {} \<and> pl_runnable (tp_planner tp) = [''a''] \<and>
    pl_dependencies (tp_planner tp) ''b'' = Some {''a''} \<and>
    tp_attributes tp ''a'' = Some (attributes_of (sample_process ''a'')) \<and>
    tp_successes tp ''a'' = 0 \<and> tp_failures tp ''a'' = 0 \<and> tp_losses tp ''a'' = 0"
  by (simp add: run_plan pl_runnable_def)

text \<open>C3: the planner accepts a schedule exactly when every dependency of a process is
  itself a process of the plan and the dependencies have no cycle; the loop that decides it
  ends on every input.\<close>

theorem planner_init_iff:
  "(\<exists>pl. planner_init ps ds = Inr pl) \<longleftrightarrow>
     (\<forall>p \<in> set ps. dep_set ds p \<subseteq> set ps) \<and> acyclic {(q, p). p \<in> set ps \<and> q \<in> dep_set ds p}"
  by (rule planner_init_ok)

theorem planner_init_iff_witness:
  "\<not> acyclic {(q, p). p \<in> set [''a'', ''b''] \<and>
       q \<in> dep_set [''a'' \<mapsto> {''b''}, ''b'' \<mapsto> {''a''}] p} \<and>
   (\<exists>pl. planner_init [''a'', ''b''] [''b'' \<mapsto> {''a''}] = Inr pl)"
proof
  have "\<not> (\<exists>pl. planner_init [''a'', ''b''] [''a'' \<mapsto> {''b''}, ''b'' \<mapsto> {''a''}] = Inr pl)"
    by (simp add: run_plan)
  then show "\<not> acyclic {(q, p). p \<in> set [''a'', ''b''] \<and>
       q \<in> dep_set [''a'' \<mapsto> {''b''}, ''b'' \<mapsto> {''a''}] p}"
    unfolding planner_init_iff by (simp add: dep_set_def)
  show "\<exists>pl. planner_init [''a'', ''b''] [''b'' \<mapsto> {''a''}] = Inr pl"
    by (simp add: run_plan)
qed

text \<open>C2: in every state that a task planner reaches, whatever operations are called and
  whatever exceptions they raise, the running, finished and failed processes are disjoint, a
  process is in one of these sets only if all its dependencies are finished, no regular process
  depends on a daemon nor a non-ephemeral one on an ephemeral one, and what was finished or
  failed before stays so.\<close>

theorem plan_safety:
  assumes "task_planner_init task f = Inr tp0" "reachable plan_step tp0 tp"
    "reachable plan_step tp tp'"
  shows "pl_running (tp_planner tp) \<inter> (pl_finished (tp_planner tp) \<union> pl_failed (tp_planner tp)) = {} \<and>
    pl_finished (tp_planner tp) \<inter> pl_failed (tp_planner tp) = {} \<and>
    (\<forall>p \<in> pl_running (tp_planner tp) \<union> pl_finished (tp_planner tp) \<union> pl_failed (tp_planner tp).
      \<forall>q \<in> dep_set (pl_dependencies (tp_planner tp)) p.
        q \<in> pl_finished (tp_planner tp) \<and> legal_dep (process_map (filter_processes f task)) q p) \<and>
    pl_finished (tp_planner tp) \<subseteq> pl_finished (tp_planner tp') \<and>
    pl_failed (tp_planner tp) \<subseteq> pl_failed (tp_planner tp')"
proof -
  have ok: "tp_ok tp" using assms(1,2) by (rule reachable_tp_ok)
  then have below: "plan_below tp tp'" using tp.reachable_below [OF assms(3)] by blast
  have legal: "legal_dep (process_map (filter_processes f task)) q p"
    if "q \<in> dep_set (pl_dependencies (tp_planner tp)) p" for q p
    using task_planner_init_ok(2) [OF assms(1)] that reachable_fixed [OF assms(2)] by simp
  have "pl_ok (tp_planner tp)" using ok by simp
  then show ?thesis
    using below legal unfolding pl_ok_def plan_below_def by blast
qed

theorem plan_safety_witness:
  "\<exists>tp0 tp. task_planner_init sample_task None = Inr tp0 \<and>
     tp = fst (plan_step tp0 (Set_running ''a'')) \<and> ''a'' \<in> pl_running (tp_planner tp) \<and>
     ''a'' \<notin> pl_finished (tp_planner tp)"
proof -
  obtain tp0 where tp0: "task_planner_init sample_task None = Inr tp0"
    "pl_runnable (tp_planner tp0) = [''a'']" "pl_failed (tp_planner tp0) = {}"
    "pl_finished (tp_planner tp0) = {}"
    using sample_planner by blast
  let ?tp = "fst (plan_step tp0 (Set_running ''a''))"
  have R: "reachable plan_step tp0 ?tp" by (intro reachable.intros)
  have A: "''a'' \<in> pl_running (tp_planner ?tp)"
    using tp0 by (simp add: tp_set_running_def on_planner_def pl_set_running_def)
  have "''a'' \<notin> pl_finished (tp_planner ?tp)"
    using conjunct1 [OF plan_safety [OF tp0(1) R reachable.reachable_init]] A by fast
  then show ?thesis
    using tp0(1) A by (intro exI [of _ tp0] exI [of _ ?tp]) simp
qed

text \<open>C4: a reachable plan with nothing running and nothing runnable is not stuck for any
  other reason than failures: every process that is not done is, through its dependencies,
  downstream of a failed one.\<close>

theorem plan_never_stuck:
  assumes "task_planner_init task f = Inr tp0" "reachable plan_step tp0 tp"
    "pl_running (tp_planner tp) = {}" "pl_runnable (tp_planner tp) = []"
    "p \<in> set (pl_processes (tp_planner tp))"
    "p \<notin> pl_finished (tp_planner tp) \<union> pl_failed (tp_planner tp)"
  shows "\<exists>q \<in> pl_failed (tp_planner tp).
    (q, p) \<in> (dep_rel (pl_processes (tp_planner tp)) (pl_dependencies (tp_planner tp)))\<^sup>+"
proof -
  have "pl_ok (tp_planner tp)" using reachable_tp_ok [OF assms(1,2)] by simp
  then show ?thesis using blocked_by_failure assms(3-6) by blast
qed

theorem plan_never_stuck_witness:
  "\<exists>tp0 tp. task_planner_init sample_task None = Inr tp0 \<and> reachable plan_step tp0 tp \<and>
     ''b'' \<notin> pl_finished (tp_planner tp) \<union> pl_failed (tp_planner tp) \<and>
     (''a'', ''b'') \<in> (dep_rel (pl_processes (tp_planner tp)) (pl_dependencies (tp_planner tp)))\<^sup>+"
proof -
  obtain tp0 where tp0: "task_planner_init sample_task None = Inr tp0"
    "pl_processes (tp_planner tp0) = [''a'', ''b'']" "pl_running (tp_planner tp0) = {}"
    "pl_runnable (tp_planner tp0) = [''a'']" "pl_failed (tp_planner tp0) = {}"
    "pl_finished (tp_planner tp0) = {}" "pl_dependencies (tp_planner tp0) ''b'' = Some {''a''}"
    using sample_planner by blast
  let ?tp1 = "fst (plan_step tp0 (Set_running ''a''))"
  let ?tp = "fst (plan_step ?tp1 (Set_failed ''a''))"
  have R: "reachable plan_step tp0 ?tp" by (intro reachable.intros)
  have 1: "pl_running (tp_planner ?tp1) = {''a''}" "pl_failed (tp_planner ?tp1) = {}"
    "pl_finished (tp_planner ?tp1) = {}"
    using tp0(2-6) by (simp_all add: tp_set_running_def on_planner_def pl_set_running_def)
  then have 2: "pl_running (tp_planner ?tp) = {}" "pl_failed (tp_planner ?tp) = {''a''}"
    "pl_finished (tp_planner ?tp) = {}"
    by (simp_all add: tp_set_failed_def on_planner_def pl_set_failed_def)
  have 3: "pl_runnable (tp_planner ?tp) = []"
    using 2 tp0(2,7)
    by (simp del: plan_step.simps add: pl_runnable_def filter_runnable_def no_deps_def filter_dependencies_def)
  have F: "pl_running (tp_planner ?tp) = {}" "pl_runnable (tp_planner ?tp) = []"
    "pl_failed (tp_planner ?tp) = {''a''}" "pl_finished (tp_planner ?tp) = {}"
    "''b'' \<in> set (pl_processes (tp_planner ?tp))"
    using 2 3 tp0(2) by (simp_all del: plan_step.simps)
  show ?thesis
    using plan_never_stuck [OF tp0(1) R F(1,2,5)] R F(3,4) tp0(1)
    by (intro exI [of _ tp0] exI [of _ ?tp]) simp
qed

text \<open>\<open>min_wait\<close> is exact: with something runnable it returns a wait after
  which a process is ready, and before which none is.\<close>

theorem min_wait_exact:
  assumes "tp_ok tp" "pl_runnable (tp_planner tp) \<noteq> []"
  shows "\<exists>w ready. min_wait tp now = Inr w \<and> 0 \<le> w \<and>
     runnable_at tp (now + w) = Inr ready \<and> ready \<noteq> [] \<and>
     (\<forall>d. 0 \<le> d \<longrightarrow> d < w \<longrightarrow> runnable_at tp (now + d) = Inr [])"
  using assms by (rule min_wait_earliest)

theorem min_wait_exact_witness:
  "\<exists>tp w. task_planner_init sample_task None = Inr tp \<and> min_wait tp 100 = Inr w \<and> 0 \<le> w"
proof -
  obtain tp where tp: "task_planner_init sample_task None = Inr tp"
    "pl_runnable (tp_planner tp) = [''a'']"
    using sample_planner by blast
  show ?thesis
    using min_wait_exact [OF task_planner_init_ok(1) [OF tp(1)], of 100] tp by auto
qed

text \<open>The failure limit: a failure of a running process raises nothing, counts once and
  takes the process off the running set; below \<open>max_failures\<close> (or without a limit) the
  process is runnable again, at the limit it is failed, or finished if it is ephemeral.\<close>

theorem add_failure_limit:
  assumes "tp_ok tp" "p \<in> pl_running (tp_planner tp)" "tp_attributes tp p = Some a"
    "tp_successes tp p + tp_failures tp p + tp_losses tp p + 1 < total_run_limit"
  shows "\<exists>tp'. add_failure tp p now = (tp', None) \<and>
     tp_failures tp' p = tp_failures tp p + 1 \<and> p \<notin> pl_running (tp_planner tp') \<and>
     (if ta_max_failures a = 0 \<or> tp_failures tp p + 1 < ta_max_failures a
      then p \<in> set (pl_runnable (tp_planner tp'))
      else if ta_is_ephemeral a then p \<in> pl_finished (tp_planner tp')
      else p \<in> pl_failed (tp_planner tp'))"
  using assms by (rule add_failure_running)

theorem add_failure_limit_witness:
  "\<exists>tp tp'. reachable plan_step tp tp \<and> add_failure tp ''a'' 9 = (tp', None) \<and>
     ''a'' \<in> set (pl_runnable (tp_planner tp'))"
proof -
  obtain tp0 where tp0: "task_planner_init sample_task None = Inr tp0"
    "pl_runnable (tp_planner tp0) = [''a'']" "pl_failed (tp_planner tp0) = {}"
    "pl_finished (tp_planner tp0) = {}"
    "tp_attributes tp0 ''a'' = Some (attributes_of (sample_process ''a''))"
    "tp_successes tp0 ''a'' = 0" "tp_failures tp0 ''a'' = 0" "tp_losses tp0 ''a'' = 0"
    using sample_planner by blast
  let ?tp = "fst (plan_step tp0 (Set_running ''a''))"
  have ok: "tp_ok ?tp" using plan_step_ok [OF task_planner_init_ok(1) [OF tp0(1)]] .
  have F: "''a'' \<in> pl_running (tp_planner ?tp)"
    "tp_attributes ?tp ''a'' = Some (attributes_of (sample_process ''a''))"
    "tp_successes ?tp ''a'' + tp_failures ?tp ''a'' + tp_losses ?tp ''a'' + 1 < total_run_limit"
    "tp_failures ?tp ''a'' = 0"
    using tp0 by (auto simp: tp_set_running_def on_planner_def pl_set_running_def
        total_run_limit_def)
  show ?thesis
    using add_failure_limit [OF ok F(1-3), of 9] F(4)
    by (auto simp: attributes_of_def sample_process_def intro: reachable.intros)
qed

end
