(* ===== verification/Status.thy ===== *)
theory Status
  imports Prelude
begin

text \<open>
  Status checkers of the executor: \<^verbatim>\<open>apache/aurora/executor/common/status_checker.py\<close>,
  \<^verbatim>\<open>kill_manager.py\<close> and \<^verbatim>\<open>resource_manager.py\<close> beside it, and the thread that polls
  them, \<^verbatim>\<open>apache/aurora/executor/status_manager.py\<close>.  The interface of a checker is a locale;
  each of the checkers of the executor interprets it.
\<close>

section \<open>Status results\<close>

text \<open>The values of Mesos's \<^verbatim>\<open>TaskState\<close>, those the executor does not name in one constructor.\<close>

datatype mesos_state = TASK_STARTING | TASK_RUNNING | TASK_FINISHED | TASK_FAILED | TASK_KILLED
  | TASK_LOST | TASK_OTHER string

record status_result =
  sr_reason :: "string option"
  sr_status :: mesos_state

text \<open>\<open>None\<close> is a status that is not a value of \<^verbatim>\<open>TaskState\<close>.\<close>

definition status_result_init :: "string option \<Rightarrow> mesos_state option \<Rightarrow> pyexc + status_result" where
  "status_result_init reason status =
     (case status of None \<Rightarrow> Inl ValueError
      | Some s \<Rightarrow> Inr \<lparr>sr_reason = reason, sr_status = s\<rparr>)"

definition status_result_eq :: "status_result \<Rightarrow> status_result \<Rightarrow> bool" where
  "status_result_eq a b = (sr_status a = sr_status b \<and> sr_reason a = sr_reason b)"

definition live_state :: "mesos_state \<Rightarrow> bool" where
  "live_state s = (s = TASK_RUNNING \<or> s = TASK_STARTING)"

definition terminal_result :: "status_result option \<Rightarrow> bool" where
  "terminal_result r = (case r of None \<Rightarrow> False | Some s \<Rightarrow> \<not> live_state (sr_status s))"

section \<open>The interface\<close>

text \<open>A checker is a state that changes by events (a health check, a kill, a poll) and a status
  read from it.  What the status manager relies on is that a terminal proposal is not taken
  back: the task is killed on it.\<close>

locale status_checker =
  fixes react :: "'s \<Rightarrow> 'e \<Rightarrow> 's"
    and status :: "'s \<Rightarrow> status_result option"
  assumes terminal_stays: "terminal_result (status s) \<Longrightarrow> terminal_result (status (react s e))"
begin

lemma terminal_forever: "terminal_result (status s) \<Longrightarrow> terminal_result (status (foldl react s es))"
  by (induction es arbitrary: s) (auto intro: terminal_stays)

lemma live_before:
  "\<not> terminal_result (status (foldl react s (es @ es'))) \<Longrightarrow>
     \<not> terminal_result (status (foldl react s es))"
  using terminal_forever by (metis foldl_append)

end

text \<open>A checker whose terminal proposal does not even change its reason.\<close>

locale fixed_status_checker = status_checker react status
  for react :: "'s \<Rightarrow> 'e \<Rightarrow> 's" and status :: "'s \<Rightarrow> status_result option" +
  assumes terminal_fixed: "terminal_result (status s) \<Longrightarrow> status (react s e) = status s"
begin

lemma terminal_fixed_forever:
  "terminal_result (status s) \<Longrightarrow> status (foldl react s es) = status s"
  by (induction es arbitrary: s) (auto simp: terminal_fixed)

end

section \<open>Chained status checkers\<close>

text \<open>What reading the status of one checker gives: a result or \<^verbatim>\<open>None\<close>, or an object of
  another type.\<close>

datatype reading = Reads "status_result option" | Not_a_result

text \<open>\<^verbatim>\<open>ChainedStatusChecker\<close> keeps the status it proposed last.\<close>

definition in_terminal_state :: "status_result option \<Rightarrow> bool" where
  "in_terminal_state st =
     (case st of None \<Rightarrow> False
      | Some s \<Rightarrow> sr_status s \<noteq> TASK_RUNNING \<and> sr_status s \<noteq> TASK_STARTING)"

text \<open>The comparison of the source's \<^verbatim>\<open>cur_status == TaskState.Value('TASK_RUNNING')\<close>: a
  \<^verbatim>\<open>StatusResult\<close> never equals a number.\<close>

definition result_equals_value :: "status_result \<Rightarrow> mesos_state \<Rightarrow> bool" where
  "result_equals_value r v = False"

datatype chain_outcome = Chain_raises | Chain_terminal status_result
  | Chain_status "status_result option"

fun chain_loop :: "status_result option \<Rightarrow> reading list \<Rightarrow> chain_outcome" where
  "chain_loop cur [] = Chain_status cur"
| "chain_loop cur (Not_a_result # rs) = Chain_raises"
| "chain_loop cur (Reads None # rs) = chain_loop cur rs"
| "chain_loop cur (Reads (Some r) # rs) =
     (if sr_status r = TASK_STARTING then chain_loop (Some r) rs
      else if sr_status r = TASK_RUNNING then
        (if (case cur of None \<Rightarrow> True | Some c \<Rightarrow> result_equals_value c TASK_RUNNING)
         then chain_loop (Some r) rs else chain_loop cur rs)
      else Chain_terminal r)"

text \<open>One read of \<^verbatim>\<open>status\<close>: the stored status afterwards and what is returned or raised.\<close>

definition chained_status ::
  "status_result option \<Rightarrow> reading list \<Rightarrow> status_result option \<times> (pyexc + status_result option)" where
  "chained_status st readings =
     (if in_terminal_state st then (st, Inr st)
      else case chain_loop None readings of
             Chain_raises \<Rightarrow> (st, Inl TypeError)
           | Chain_terminal r \<Rightarrow> (Some r, Inr (Some r))
           | Chain_status c \<Rightarrow> (c, Inr c))"

definition chain_react :: "status_result option \<Rightarrow> reading list \<Rightarrow> status_result option" where
  "chain_react st readings = fst (chained_status st readings)"

section \<open>Kill manager and resource manager\<close>

record kill_manager =
  km_killed :: bool
  km_reason :: "string option"

definition new_kill_manager :: kill_manager where
  "new_kill_manager = \<lparr>km_killed = False, km_reason = None\<rparr>"

definition km_status :: "kill_manager \<Rightarrow> status_result option" where
  "km_status k = (if km_killed k then Some \<lparr>sr_reason = km_reason k, sr_status = TASK_KILLED\<rparr> else None)"

definition km_kill :: "kill_manager \<Rightarrow> string \<Rightarrow> kill_manager" where
  "km_kill k reason = k\<lparr>km_reason := Some reason, km_killed := True\<rparr>"

text \<open>The resource manager compares one sample of the disk use with the limit; the message's
  numbers are the two amounts.\<close>

definition rm_status :: "(int \<Rightarrow> int \<Rightarrow> string) \<Rightarrow> int \<Rightarrow> int \<Rightarrow> bool \<times> status_result option" where
  "rm_status message max_disk sample =
     (if sample > max_disk
      then (True, Some \<lparr>sr_reason = Some (message max_disk sample), sr_status = TASK_FAILED\<rparr>)
      else (False, None))"

section \<open>Status manager\<close>

datatype manager_event = Running_callback status_result | Unhealthy_callback status_result

text \<open>The polling loop over the statuses the checker reports, in order: the callbacks made, and
  whether the loop has ended.\<close>

fun manager_run :: "bool \<Rightarrow> status_result option list \<Rightarrow> manager_event list \<times> bool" where
  "manager_run dispatched [] = ([], False)"
| "manager_run dispatched (None # rs) = manager_run dispatched rs"
| "manager_run dispatched (Some r # rs) =
     (if sr_status r = TASK_RUNNING then
        (if \<not> dispatched then (case manager_run True rs of (ev, b) \<Rightarrow> (Running_callback r # ev, b))
         else manager_run dispatched rs)
      else if sr_status r \<noteq> TASK_STARTING then ([Unhealthy_callback r], True)
      else manager_run dispatched rs)"

text \<open>The checks of \<^verbatim>\<open>StatusManager.__init__\<close>.\<close>

definition manager_init :: "bool \<Rightarrow> bool \<Rightarrow> bool \<Rightarrow> pyexc + unit" where
  "manager_init is_checker running_callable unhealthy_callable =
     (if \<not> is_checker then Inl TypeError
      else if \<not> running_callable then Inl TypeError
      else if \<not> unhealthy_callable then Inl TypeError else Inr ())"

section \<open>The checkers keep the contract\<close>

lemma in_terminal_state_eq: "in_terminal_state st = terminal_result st"
  by (auto simp: in_terminal_state_def terminal_result_def live_state_def split: option.split)

interpretation chain: fixed_status_checker chain_react "\<lambda>st. st"
proof
  show "chain_react s e = s" if "terminal_result s" for s e
    using that by (simp add: chain_react_def chained_status_def in_terminal_state_eq)
  then show "terminal_result (chain_react s e)" if "terminal_result s" for s e
    using that by simp
qed

interpretation killed: status_checker km_kill km_status
  by unfold_locales (simp add: km_kill_def km_status_def terminal_result_def live_state_def)

section \<open>The computed status\<close>

fun priority :: "status_result option \<Rightarrow> nat" where
  "priority None = 0"
| "priority (Some r) = (if sr_status r = TASK_RUNNING then 1 else if sr_status r = TASK_STARTING then 2 else 3)"

text \<open>The priority of the documentation: the greatest of the checkers' statuses.\<close>

definition chain_spec :: "status_result option list \<Rightarrow> nat" where
  "chain_spec rs = foldr (\<lambda>r n. max (priority r) n) rs 0"

lemma priority_le: "priority r \<le> 3"
  by (cases r) auto

lemma chain_spec_le: "chain_spec rs \<le> 3"
  by (induction rs) (auto simp: chain_spec_def priority_le)

lemma chain_loop_spec:
  "priority cur \<le> 2 \<Longrightarrow>
     (case chain_loop cur (map Reads rs) of
        Chain_raises \<Rightarrow> False
      | Chain_terminal r \<Rightarrow> priority (Some r) = 3 \<and> Some r \<in> set rs \<and> chain_spec rs = 3
      | Chain_status c \<Rightarrow> priority c = max (priority cur) (chain_spec rs) \<and> c \<in> insert cur (set rs) \<and>
          chain_spec rs \<le> 2)"
proof (induction rs arbitrary: cur)
  case Nil
  then show ?case by (simp add: chain_spec_def)
next
  case (Cons r rs)
  have IH: "priority c \<le> 2 \<Longrightarrow>
     (case chain_loop c (map Reads rs) of
        Chain_raises \<Rightarrow> False
      | Chain_terminal r \<Rightarrow> priority (Some r) = 3 \<and> Some r \<in> set rs \<and> chain_spec rs = 3
      | Chain_status d \<Rightarrow> priority d = max (priority c) (chain_spec rs) \<and> d \<in> insert c (set rs) \<and>
          chain_spec rs \<le> 2)" for c
    by (rule Cons.IH)
  show ?case
  proof (cases r)
    case None
    then show ?thesis using IH [OF Cons.prems]
      by (auto simp: chain_spec_def split: chain_outcome.splits)
  next
    case (Some s)
    consider (start) "sr_status s = TASK_STARTING" | (run) "sr_status s = TASK_RUNNING"
      | (other) "sr_status s \<noteq> TASK_STARTING" "sr_status s \<noteq> TASK_RUNNING" by blast
    then show ?thesis
    proof cases
      case start
      then show ?thesis using IH [of "Some s"] Cons.prems
        by (auto simp: Some chain_spec_def split: chain_outcome.splits)
    next
      case run
      then show ?thesis
        using IH [of "Some s"] IH [OF Cons.prems] Cons.prems
        by (cases cur) (auto simp: Some chain_spec_def result_equals_value_def split: chain_outcome.splits)
    next
      case other
      have "max 3 (chain_spec rs) = 3" using chain_spec_le [of rs] by simp
      then show ?thesis using other by (simp add: Some chain_spec_def)
    qed
  qed
qed

section \<open>Properties\<close>

text \<open>Outside a terminal state a chain of checkers that all report results or
  nothing proposes a status of the greatest priority among theirs (unhealthy over starting over
  running over nothing), and it is one of theirs; in a terminal state it proposes the stored
  status whatever they report.\<close>

theorem chained_status_priority:
  "if terminal_result st then chained_status st (map Reads rs) = (st, Inr st)
   else \<exists>r. chained_status st (map Reads rs) = (r, Inr r) \<and> priority r = chain_spec rs \<and>
     r \<in> insert None (set rs)"
  using chain_loop_spec [of None rs]
  by (auto simp: chained_status_def in_terminal_state_eq split: chain_outcome.splits)

text \<open>Over any series of reported statuses the status manager makes the running
  callback at most once and only for a running status, makes the unhealthy callback at most
  once, as its last act, for the first status that is neither running nor starting, and ends
  its loop exactly then.\<close>

definition first_unhealthy :: "status_result option list \<Rightarrow> status_result option" where
  "first_unhealthy rs = (case filter terminal_result rs of [] \<Rightarrow> None | r # _ \<Rightarrow> r)"

definition first_running :: "status_result option list \<Rightarrow> status_result option" where
  "first_running rs =
     (case filter (\<lambda>r. case r of None \<Rightarrow> False | Some s \<Rightarrow> sr_status s = TASK_RUNNING)
             (takeWhile (\<lambda>r. \<not> terminal_result r) rs) of [] \<Rightarrow> None | r # _ \<Rightarrow> r)"

definition events_of :: "(status_result \<Rightarrow> manager_event) \<Rightarrow> status_result option \<Rightarrow> manager_event list" where
  "events_of f r = (case r of None \<Rightarrow> [] | Some s \<Rightarrow> [f s])"

lemma manager_run_aux:
  "manager_run b rs =
     ((if b then [] else events_of Running_callback (first_running rs)) @
        events_of Unhealthy_callback (first_unhealthy rs), first_unhealthy rs \<noteq> None)"
proof (induction rs arbitrary: b)
  case Nil
  then show ?case by (simp add: first_running_def first_unhealthy_def events_of_def)
next
  case (Cons r rs)
  then show ?case
    by (cases r)
       (auto simp: first_running_def first_unhealthy_def events_of_def terminal_result_def live_state_def
         split: prod.split)
qed

theorem manager_run_exact:
  "manager_run False rs = (events_of Running_callback (first_running rs) @
     events_of Unhealthy_callback (first_unhealthy rs), first_unhealthy rs \<noteq> None)"
  by (simp add: manager_run_aux)

end
