(* ===== verification/Health.thy ===== *)
theory Health
  imports Status
begin

text \<open>
  Health checking, \<^verbatim>\<open>apache/aurora/executor/common/health_checker.py\<close>: the counters of the
  thread that runs the check, the status read from them and the choice of the checker for a
  task.  A check is what the snooze file and the callable give; seconds are rationals.
\<close>

section \<open>The checking thread\<close>

record health =
  hc_interval :: rat
  hc_attempts :: int
  hc_forgiving :: int
  hc_max_failures :: int
  hc_min_successes :: int
  hc_max_attempts :: int
  hc_failures :: int
  hc_successes :: int
  hc_running :: bool
  hc_healthy :: bool
  hc_reason :: "string option"
  hc_snoozed :: bool

definition health_init :: "rat \<Rightarrow> rat option \<Rightarrow> int \<Rightarrow> int \<Rightarrow> pyexc + health" where
  "health_init interval grace max_failures min_successes =
     (let grace_period = (case grace of Some g \<Rightarrow> g | None \<Rightarrow> interval * 2) in
      if interval = 0 then Inl ZeroDivisionError
      else let forgiving = \<lceil>grace_period / interval\<rceil> in
        Inr \<lparr>hc_interval = interval, hc_attempts = 0, hc_forgiving = forgiving,
             hc_max_failures = max_failures, hc_min_successes = min_successes,
             hc_max_attempts = forgiving + max_failures + min_successes,
             hc_failures = 0, hc_successes = 0, hc_running = False, hc_healthy = True,
             hc_reason = None, hc_snoozed = False\<rparr>)"

text \<open>One probe: the snooze file exists, the callable returns, or it raises.\<close>

datatype probe = Snooze | Returns bool "string option" | Raises string

definition perform_check :: "health \<Rightarrow> probe \<Rightarrow> health \<times> bool \<times> string option" where
  "perform_check h p =
     (case p of
        Snooze \<Rightarrow> (h\<lparr>hc_snoozed := True\<rparr>, True, None)
      | Returns ok reason \<Rightarrow> (h\<lparr>hc_snoozed := False\<rparr>, ok, reason)
      | Raises e \<Rightarrow> (h\<lparr>hc_snoozed := False\<rparr>, False, Some (''Internal health check error: '' @ e)))"

definition should_fail_fast :: "health \<Rightarrow> bool" where
  "should_fail_fast h =
     (if \<not> hc_running h then
        let attempts_remaining = hc_max_attempts h - hc_attempts h;
            successes_needed = hc_min_successes h - hc_successes h
        in attempts_remaining > 1 \<and> successes_needed > attempts_remaining
      else False)"

definition should_ignore_failure :: "health \<Rightarrow> bool" where
  "should_ignore_failure h = (hc_attempts h \<le> hc_forgiving h)"

definition should_enforce_deadline :: "health \<Rightarrow> bool" where
  "should_enforce_deadline h = (\<not> hc_running h \<and> hc_attempts h > hc_max_attempts h)"

definition update_count :: "health \<Rightarrow> bool \<Rightarrow> string option \<Rightarrow> health" where
  "update_count h is_healthy reason =
     (if \<not> is_healthy then
        let h1 = (if hc_successes h > 0 then h\<lparr>hc_successes := 0\<rparr> else h) in
        if should_ignore_failure h1 then h1
        else
          let h2 = (if should_fail_fast h1 then h1\<lparr>hc_healthy := False, hc_reason := reason\<rparr> else h1);
              h3 = h2\<lparr>hc_failures := hc_failures h2 + 1\<rparr>
          in if hc_failures h3 > hc_max_failures h3
             then h3\<lparr>hc_healthy := False, hc_reason := reason\<rparr> else h3
      else
        let h1 = h\<lparr>hc_successes := hc_successes h + 1\<rparr>;
            h2 = (if \<not> hc_running h1 \<and> hc_successes h1 \<ge> hc_min_successes h1
                  then h1\<lparr>hc_running := True\<rparr> else h1)
        in if hc_failures h2 > 0 then h2\<lparr>hc_failures := 0\<rparr> else h2)"

definition do_health_check :: "health \<Rightarrow> probe \<Rightarrow> health" where
  "do_health_check h p =
     (if should_enforce_deadline h
      then h\<lparr>hc_healthy := False, hc_reason := Some ''Not enough successful health checks in time.''\<rparr>
      else case perform_check h p of
             (h1, is_healthy, reason) \<Rightarrow>
               let h2 = (if hc_attempts h1 \<le> hc_max_attempts h1
                         then h1\<lparr>hc_attempts := hc_attempts h1 + 1\<rparr> else h1)
               in update_count h2 is_healthy reason)"

text \<open>\<^verbatim>\<open>run\<close>: one check per interval until the thread is stopped; the list of probes is what
  happens before that.\<close>

definition health_run :: "health \<Rightarrow> probe list \<Rightarrow> health" where
  "health_run = foldl do_health_check"

section \<open>The status\<close>

definition hc_status :: "health \<Rightarrow> status_result option" where
  "hc_status h =
     (if hc_healthy h then
        (if hc_running h then Some \<lparr>sr_reason = Some ''Task is healthy.'', sr_status = TASK_RUNNING\<rparr>
         else Some \<lparr>sr_reason = None, sr_status = TASK_STARTING\<rparr>)
      else Some \<lparr>sr_reason = Some (''Failed health check! '' @
                   (case hc_reason h of None \<Rightarrow> ''None'' | Some r \<Rightarrow> r)), sr_status = TASK_FAILED\<rparr>)"

definition noop_status :: "status_result option" where
  "noop_status = Some \<lparr>sr_reason = Some ''No health-check defined, task is assumed healthy.'',
     sr_status = TASK_RUNNING\<rparr>"

text \<open>\<^verbatim>\<open>_timing_wrapper\<close>: the number of checks and the total latency.\<close>

definition record_latency :: "int \<times> rat \<Rightarrow> rat \<Rightarrow> rat \<Rightarrow> int \<times> rat" where
  "record_latency stats start stop = (fst stats + 1, snd stats + (stop - start))"

section \<open>Choosing the checker\<close>

datatype wrapped_cmd = Bash string | Containerized string string string

datatype chosen_checker =
    No_op
  | Shell wrapped_cmd bool
  | Http int "string option" "string option" "int option"

record health_config =
  hk_shell_command :: "string option"
  hk_http_endpoint :: "string option"
  hk_http_response :: "string option"
  hk_http_response_code :: "int option"

text \<open>A shell check, when the configuration has one, wins over the \<^verbatim>\<open>health\<close> port; the
  Boolean of \<open>Shell\<close> is whether the command runs as the user of the job's role.
  \<open>interpolate\<close> is the substitution of ports and instance into the command.\<close>

definition choose_checker ::
  "bool \<Rightarrow> string \<Rightarrow> string \<Rightarrow> (string \<Rightarrow> string) \<Rightarrow> bool \<Rightarrow> string \<Rightarrow> health_config
     \<Rightarrow> (string \<Rightarrow> int option) \<Rightarrow> chosen_checker" where
  "choose_checker nosetuid executor_user role interpolate is_filesystem_image fs_root cfg portmap =
     (case hk_shell_command cfg of
        Some cmd \<Rightarrow>
          (let interpolated = interpolate cmd in
           Shell (if is_filesystem_image
                  then Containerized interpolated (if nosetuid then executor_user else role) fs_root
                  else Bash interpolated)
             (\<not> nosetuid \<and> \<not> is_filesystem_image))
      | None \<Rightarrow>
          (case portmap ''health'' of
             None \<Rightarrow> No_op
           | Some port \<Rightarrow> Http port (hk_http_endpoint cfg) (hk_http_response cfg)
                            (hk_http_response_code cfg)))"

section \<open>The counters\<close>

definition probe_ok :: "probe \<Rightarrow> bool" where
  "probe_ok p = (case p of Snooze \<Rightarrow> True | Returns ok _ \<Rightarrow> ok | Raises _ \<Rightarrow> False)"

lemmas check_defs = do_health_check_def perform_check_def update_count_def Let_def

lemma check_static [simp]:
  "hc_forgiving (do_health_check h p) = hc_forgiving h"
  "hc_max_failures (do_health_check h p) = hc_max_failures h"
  "hc_min_successes (do_health_check h p) = hc_min_successes h"
  "hc_max_attempts (do_health_check h p) = hc_max_attempts h"
  by (cases p; simp add: check_defs)+

lemma check_sticky:
  "\<not> hc_healthy h \<Longrightarrow> \<not> hc_healthy (do_health_check h p)"
  "hc_running h \<Longrightarrow> hc_running (do_health_check h p)"
  by (cases p; simp add: check_defs)+

lemma terminal_hc_status: "terminal_result (hc_status h) \<longleftrightarrow> \<not> hc_healthy h"
  by (simp add: terminal_result_def hc_status_def live_state_def)

interpretation health: status_checker do_health_check hc_status
  by unfold_locales (simp add: terminal_hc_status check_sticky)

lemma run_static [simp]:
  "hc_forgiving (health_run h ps) = hc_forgiving h"
  "hc_max_failures (health_run h ps) = hc_max_failures h"
  "hc_min_successes (health_run h ps) = hc_min_successes h"
  "hc_max_attempts (health_run h ps) = hc_max_attempts h"
  unfolding health_run_def by (induction ps arbitrary: h) auto

lemma run_snoc: "health_run h (ps @ [p]) = do_health_check (health_run h ps) p"
  by (simp add: health_run_def)

lemma check_attempts:
  "hc_attempts (do_health_check h p) =
     (if should_enforce_deadline h then hc_attempts h
      else if hc_attempts h \<le> hc_max_attempts h then hc_attempts h + 1 else hc_attempts h)"
  by (cases p) (simp_all add: check_defs)

text \<open>Up to one more than the maximum, every check counts.\<close>

lemma run_attempts:
  "hc_attempts h = 0 \<Longrightarrow> int (length ps) \<le> hc_max_attempts h + 1 \<Longrightarrow>
     hc_attempts (health_run h ps) = int (length ps)"
proof (induction ps rule: rev_induct)
  case Nil
  then show ?case by (simp add: health_run_def)
next
  case (snoc p ps)
  then have IH: "hc_attempts (health_run h ps) = int (length ps)" by simp
  show ?case
    using snoc.prems IH
    by (simp add: run_snoc check_attempts should_enforce_deadline_def)
qed

lemma run_decided:
  assumes "hc_attempts h = 0" "0 \<le> hc_max_attempts h"
    "int (length ps) = hc_max_attempts h + 2"
  shows "hc_running (health_run h ps) \<or> \<not> hc_healthy (health_run h ps)"
proof -
  obtain qs p where ps: "ps = qs @ [p]"
    using assms(2,3) by (cases ps rule: rev_cases) auto
  have a: "hc_attempts (health_run h qs) = hc_max_attempts h + 1"
    using run_attempts [of h qs] assms by (simp add: ps)
  show ?thesis
  proof (cases "hc_running (health_run h qs)")
    case True
    then show ?thesis using check_sticky(2) by (simp add: ps run_snoc)
  next
    case False
    then show ?thesis
      using a by (simp add: ps run_snoc do_health_check_def should_enforce_deadline_def)
  qed
qed

lemma run_decided_later:
  assumes "hc_attempts h = 0" "0 \<le> hc_max_attempts h"
    "hc_max_attempts h + 2 \<le> int (length ps)"
  shows "hc_running (health_run h ps) \<or> \<not> hc_healthy (health_run h ps)"
proof -
  let ?n = "nat (hc_max_attempts h + 2)"
  have "hc_running (health_run h (take ?n ps)) \<or> \<not> hc_healthy (health_run h (take ?n ps))"
    using assms by (intro run_decided) auto
  moreover have "hc_running (health_run g qs)" if "hc_running g" for g qs
    using that unfolding health_run_def
    by (induction qs arbitrary: g) (auto intro: check_sticky)
  moreover have "\<not> hc_healthy (health_run g qs)" if "\<not> hc_healthy g" for g qs
    using health.terminal_forever [of g qs] that by (simp add: terminal_hc_status health_run_def)
  ultimately show ?thesis
    by (metis append_take_drop_id foldl_append health_run_def)
qed

lemma check_forgiven:
  assumes "hc_healthy h" "hc_attempts h < hc_forgiving h" "hc_forgiving h \<le> hc_max_attempts h"
  shows "hc_healthy (do_health_check h p)"
  using assms
  by (cases p) (auto simp: check_defs should_enforce_deadline_def should_ignore_failure_def)

lemma run_forgiven:
  "hc_healthy h \<Longrightarrow> hc_attempts h = 0 \<Longrightarrow> hc_forgiving h \<le> hc_max_attempts h \<Longrightarrow>
     int (length ps) \<le> hc_forgiving h \<Longrightarrow> hc_healthy (health_run h ps)"
proof (induction ps rule: rev_induct)
  case Nil
  then show ?case by (simp add: health_run_def)
next
  case (snoc p ps)
  have "hc_attempts (health_run h ps) = int (length ps)"
    using snoc.prems by (intro run_attempts) auto
  then show ?case
    using snoc by (auto simp: run_snoc intro!: check_forgiven)
qed

text \<open>Past the grace attempts, a running task.\<close>

lemma check_failure:
  assumes "hc_running h" "hc_forgiving h \<le> hc_attempts h" "hc_forgiving h \<le> hc_max_attempts h"
    "\<not> probe_ok p"
  shows "hc_failures (do_health_check h p) = hc_failures h + 1"
    "hc_healthy (do_health_check h p) \<longleftrightarrow> hc_healthy h \<and> hc_failures h + 1 \<le> hc_max_failures h"
    "hc_forgiving h \<le> hc_attempts (do_health_check h p)"
  using assms
  by (cases p; auto simp: probe_ok_def check_defs should_enforce_deadline_def should_fail_fast_def
      should_ignore_failure_def)+

lemma check_success:
  assumes "hc_running h" "probe_ok p" "0 \<le> hc_failures h"
  shows "hc_failures (do_health_check h p) = 0" "hc_healthy (do_health_check h p) = hc_healthy h"
    "hc_attempts h \<le> hc_attempts (do_health_check h p)"
  using assms
  by (cases p; auto simp: probe_ok_def check_defs should_enforce_deadline_def)+

text \<open>The failures at the end of a list of probes, and the longest run of failures in it.\<close>

fun longest_failures :: "int \<Rightarrow> probe list \<Rightarrow> int" where
  "longest_failures n [] = n"
| "longest_failures n (p # ps) =
     (if probe_ok p then max n (longest_failures 0 ps) else longest_failures (n + 1) ps)"

lemma longest_failures_ge: "0 \<le> n \<Longrightarrow> n \<le> longest_failures n ps"
proof (induction ps arbitrary: n)
  case (Cons p ps)
  have "n + 1 \<le> longest_failures (n + 1) ps" using Cons by simp
  then show ?case by simp
qed simp

lemma run_limit:
  "hc_running h \<Longrightarrow> hc_forgiving h \<le> hc_attempts h \<Longrightarrow> hc_forgiving h \<le> hc_max_attempts h \<Longrightarrow>
     0 \<le> hc_failures h \<Longrightarrow> hc_healthy h \<Longrightarrow> hc_failures h \<le> hc_max_failures h \<Longrightarrow>
     hc_healthy (health_run h ps) \<longleftrightarrow> longest_failures (hc_failures h) ps \<le> hc_max_failures h"
proof (induction ps arbitrary: h)
  case Nil
  then show ?case by (simp add: health_run_def)
next
  case (Cons p ps)
  let ?h = "do_health_check h p"
  have run: "health_run h (p # ps) = health_run ?h ps" by (simp add: health_run_def)
  have running: "hc_running ?h" using Cons.prems(1) by (rule check_sticky)
  show ?case
  proof (cases "probe_ok p")
    case True
    note c = check_success [OF Cons.prems(1) True Cons.prems(4)]
    have "hc_healthy (health_run ?h ps) \<longleftrightarrow> longest_failures 0 ps \<le> hc_max_failures h"
      using Cons.IH [of ?h] running c Cons.prems by auto
    then show ?thesis using True run Cons.prems by simp
  next
    case False
    note c = check_failure [OF Cons.prems(1-3) False]
    show ?thesis
    proof (cases "hc_failures h + 1 \<le> hc_max_failures h")
      case True
      then show ?thesis
        using Cons.IH [of ?h] running c Cons.prems False run by auto
    next
      case no: False
      then have "\<not> hc_healthy ?h" using c(2) by simp
      then have "\<not> hc_healthy (health_run ?h ps)"
        using health.terminal_forever [of ?h ps] by (simp add: terminal_hc_status health_run_def)
      then show ?thesis
        using no False run longest_failures_ge [of "hc_failures h + 1" ps] Cons.prems(4) by auto
    qed
  qed
qed

section \<open>Properties\<close>

text \<open>C17: a checked task does not hang between starting and running: whatever the
  checks give, after two more checks than the maximal number of attempts the task has been
  reported running or is unhealthy; during the forgiven attempts no failure makes it unhealthy;
  and an unhealthy task is never reported healthy again.\<close>

theorem health_decided:
  assumes "health_init interval grace maxf mins = Inr h" "0 < interval" "0 \<le> maxf" "0 \<le> mins"
    "0 \<le> (case grace of None \<Rightarrow> interval | Some g \<Rightarrow> g)"
  shows "(hc_max_attempts h + 2 \<le> int (length ps) \<longrightarrow>
            hc_running (health_run h ps) \<or> terminal_result (hc_status (health_run h ps))) \<and>
    (int (length ps) \<le> hc_forgiving h \<longrightarrow> \<not> terminal_result (hc_status (health_run h ps))) \<and>
    (terminal_result (hc_status (health_run h ps)) \<longrightarrow>
       terminal_result (hc_status (health_run h (ps @ qs))))"
proof -
  have "0 \<le> (case grace of None \<Rightarrow> interval * 2 | Some g \<Rightarrow> g) / interval"
    using assms(2,5) by (auto split: option.splits)
  then have init: "hc_attempts h = 0" "hc_healthy h" "0 \<le> hc_max_attempts h"
    "hc_forgiving h \<le> hc_max_attempts h"
    using assms(1-4) by (auto simp: health_init_def Let_def split: if_splits)
  show ?thesis
    using run_decided_later [OF init(1,3), of ps] run_forgiven [OF init(2,1,4), of ps]
      health.terminal_forever [of "health_run h ps" qs]
    by (auto simp: terminal_hc_status health_run_def)
qed

theorem health_decided_witness:
  "\<exists>h. health_init 10 (Some 20) 1 1 = Inr h \<and> hc_max_attempts h = 4 \<and>
     hc_healthy (health_run h [Returns False None, Raises ''x'']) \<and>
     \<not> hc_healthy (health_run h (replicate 6 (Returns False None)))"
proof -
  obtain h where h: "health_init 10 (Some 20) 1 1 = Inr h" "hc_max_attempts h = 4"
    "hc_forgiving h = 2" "\<not> hc_running (health_run h (replicate 6 (Returns False None)))"
    by (simp add: health_init_def Let_def health_run_def numeral_eq_Suc check_defs
        should_enforce_deadline_def should_ignore_failure_def should_fail_fast_def)
  then show ?thesis
    using health_decided [OF h(1), of "replicate 6 (Returns False None)" "[]"]
      health_decided [OF h(1), of "[Returns False None, Raises ''x'']" "[]"]
    by (simp add: terminal_hc_status)
qed

text \<open>A running, healthy task past its forgiven attempts stays healthy exactly as
  long as no run of consecutive failures, those already counted included, is longer than
  \<open>max_consecutive_failures\<close>; checks under a snooze file count as successes.\<close>

theorem health_failure_limit:
  assumes "hc_running h" "hc_healthy h" "hc_forgiving h \<le> hc_attempts h"
    "hc_forgiving h \<le> hc_max_attempts h" "0 \<le> hc_failures h" "hc_failures h \<le> hc_max_failures h"
  shows "terminal_result (hc_status (health_run h ps)) \<longleftrightarrow>
    longest_failures (hc_failures h) ps > hc_max_failures h"
  using run_limit [OF assms(1,3,4,5,2,6), of ps] by (simp add: terminal_hc_status not_le)

theorem health_failure_limit_witness:
  "\<exists>h. hc_running h \<and> hc_max_failures h = 1 \<and>
     terminal_result (hc_status (health_run h [Returns False None, Raises ''x''])) \<and>
     \<not> terminal_result (hc_status (health_run h [Returns False None, Snooze, Raises ''x'']))"
proof -
  let ?h = "\<lparr>hc_interval = 1, hc_attempts = 3, hc_forgiving = 2, hc_max_failures = 1,
     hc_min_successes = 1, hc_max_attempts = 4, hc_failures = 0, hc_successes = 1, hc_running = True,
     hc_healthy = True, hc_reason = None, hc_snoozed = False\<rparr>"
  have "terminal_result (hc_status (health_run ?h [Returns False None, Raises ''x'']))"
    "\<not> terminal_result (hc_status (health_run ?h [Returns False None, Snooze, Raises ''x'']))"
    using health_failure_limit [of ?h] by (simp_all add: probe_ok_def)
  then show ?thesis by (intro exI [of _ ?h]) simp
qed

end
