(* ===== verification/RunnerProcess.thy ===== *)
theory RunnerProcess
  imports Status Ckpt "HOL-Library.Word"
begin

text \<open>
  The executor's handle on the forked Thermos runner,
  \<^verbatim>\<open>apache/aurora/executor/thermos_task_runner.py\<close>, and the HTTP escalation around it,
  \<^verbatim>\<open>apache/aurora/executor/http_lifecycle.py\<close>.  What the operating system answers (waitpid, the
  marker files of the task, the HTTP endpoints) is an argument, one answer per question in the
  order asked.  Times are in milliseconds.
\<close>

section \<open>Exit statuses\<close>

text \<open>\<^verbatim>\<open>apache/thermos/common/statuses.py\<close>.\<close>

definition internal_error :: int where "internal_error = 101"
definition invalid_task :: int where "invalid_task = 102"
definition unknown_error :: int where "unknown_error = 103"
definition unknown_user :: int where "unknown_user = 104"
definition terminal_task :: int where "terminal_task = 105"

lemmas exit_codes = internal_error_def invalid_task_def unknown_error_def unknown_user_def
  terminal_task_def

text \<open>\<^verbatim>\<open>struct.unpack('bb', struct.pack('H', status))\<close>: the low and the high byte, read as
  signed; a status outside 16 bits does not pack.\<close>

definition decode_status :: "nat \<Rightarrow> (int \<times> int) option" where
  "decode_status status =
     (if status < 2 ^ 16 then
        let exit_signal = (of_nat status :: 8 word);
            exit_status = (of_nat (status div 2 ^ 8) :: 8 word)
        in Some (uint (and exit_signal 0x7F), sint exit_status)
      else None)"

section \<open>The runner process\<close>

datatype runner_error = Task_error string | Struct_error

record trunner =
  tr_popen :: bool
  tr_signal :: "int option"
  tr_rc :: "int option"
  tr_status :: "status_result option"
  tr_dead :: bool
  tr_kill_signal :: bool
  tr_forking :: bool
  tr_forked :: bool
  tr_sent :: "string list"

definition new_trunner :: trunner where
  "new_trunner = \<lparr>tr_popen = False, tr_signal = None, tr_rc = None, tr_status = None, tr_dead = False,
     tr_kill_signal = False, tr_forking = False, tr_forked = False, tr_sent = []\<rparr>"

datatype wait_result = Still_running | Exited nat | No_child | Wait_failed

text \<open>\<^verbatim>\<open>is_alive\<close>: the runner it leaves and the answer.\<close>

definition is_alive :: "trunner \<Rightarrow> wait_result \<Rightarrow> trunner \<times> (runner_error, bool) res" where
  "is_alive r w =
     (if \<not> tr_popen r then (r, Inr False)
      else if tr_dead r then (r, Inr False)
      else case w of
             Still_running \<Rightarrow> (r, Inr True)
           | Exited status \<Rightarrow>
               (case decode_status status of
                  None \<Rightarrow> (r, Inl (Own Struct_error))
                | Some (sg, rc) \<Rightarrow>
                    (r\<lparr>tr_signal := Some sg, tr_rc := Some rc, tr_dead := True\<rparr>, Inr False))
           | No_child \<Rightarrow> (r\<lparr>tr_dead := True\<rparr>, Inr False)
           | Wait_failed \<Rightarrow> (r, Inl (Py OSError)))"

definition exit_state_map :: "task_state \<Rightarrow> status_result option" where
  "exit_state_map s =
     (case s of
        T_ACTIVE \<Rightarrow> Some \<lparr>sr_reason = Some ''Runner died while task was active.'', sr_status = TASK_LOST\<rparr>
      | T_FAILED \<Rightarrow> Some \<lparr>sr_reason = Some ''Task failed.'', sr_status = TASK_FAILED\<rparr>
      | T_KILLED \<Rightarrow> Some \<lparr>sr_reason = Some ''Task killed.'', sr_status = TASK_KILLED\<rparr>
      | T_LOST \<Rightarrow> Some \<lparr>sr_reason = Some ''Task lost.'', sr_status = TASK_LOST\<rparr>
      | T_SUCCESS \<Rightarrow> Some \<lparr>sr_reason = Some ''Task finished.'', sr_status = TASK_FINISHED\<rparr>
      | T_CLEANING \<Rightarrow> None
      | T_FINALIZING \<Rightarrow> None)"

text \<open>The status of a runner that is not alive; \<open>show_int\<close> prints a number or \<^verbatim>\<open>None\<close>, \<open>state\<close> is
  the task state the monitor gives.\<close>

definition dead_status :: "(int option \<Rightarrow> string) \<Rightarrow> trunner \<Rightarrow> task_state option \<Rightarrow> status_result" where
  "dead_status show_int r state =
     (if tr_signal r \<noteq> Some 0 then
        \<lparr>sr_reason = Some (''Task killed by signal '' @ show_int (tr_signal r) @ ''.''),
         sr_status = TASK_KILLED\<rparr>
      else if tr_rc r = Some 0 \<or> tr_rc r = Some terminal_task then
        (case (case state of None \<Rightarrow> None | Some s \<Rightarrow> exit_state_map s) of
           None \<Rightarrow> \<lparr>sr_reason = Some ''Task checkpoint could not be read.'', sr_status = TASK_LOST\<rparr>
         | Some res \<Rightarrow> res)
      else if tr_rc r = Some unknown_user then
        \<lparr>sr_reason = Some ''Task started with unknown user.'', sr_status = TASK_FAILED\<rparr>
      else if tr_rc r = Some internal_error then
        \<lparr>sr_reason = Some ''Thermos failed with internal error.'', sr_status = TASK_LOST\<rparr>
      else if tr_rc r = Some invalid_task then
        \<lparr>sr_reason = Some ''Thermos received an invalid task.'', sr_status = TASK_FAILED\<rparr>
      else if tr_rc r = Some unknown_error then
        \<lparr>sr_reason = Some ''Thermos failed with an unknown error.'', sr_status = TASK_LOST\<rparr>
      else
        \<lparr>sr_reason = Some (''Thermos exited for unknown reason (exit status: '' @ show_int (tr_rc r) @ '')''),
         sr_status = TASK_LOST\<rparr>)"

definition compute_status :: "(int option \<Rightarrow> string) \<Rightarrow> trunner \<Rightarrow> wait_result \<Rightarrow> task_state option
    \<Rightarrow> trunner \<times> (runner_error, status_result option) res" where
  "compute_status show_int r w state =
     (case is_alive r w of
        (r', Inl e) \<Rightarrow> (r', Inl e)
      | (r', Inr True) \<Rightarrow> (r', Inr None)
      | (r', Inr False) \<Rightarrow> (r', Inr (Some (dead_status show_int r' state))))"

text \<open>\<^verbatim>\<open>status\<close> computes once and keeps the first result.\<close>

definition read_status :: "(int option \<Rightarrow> string) \<Rightarrow> trunner \<Rightarrow> wait_result \<Rightarrow> task_state option
    \<Rightarrow> trunner \<times> (runner_error, status_result option) res" where
  "read_status show_int r w state =
     (case tr_status r of
        Some s \<Rightarrow> (r, Inr (Some s))
      | None \<Rightarrow>
          (case compute_status show_int r w state of
             (r', Inl e) \<Rightarrow> (r', Inl e)
           | (r', Inr s) \<Rightarrow> (r'\<lparr>tr_status := s\<rparr>, Inr s)))"

text \<open>\<^verbatim>\<open>terminate_runner\<close>; \<open>ok\<close> is whether sending the signal succeeds (a failure is logged).\<close>

definition terminate_runner :: "trunner \<Rightarrow> bool \<Rightarrow> wait_result \<Rightarrow> bool
    \<Rightarrow> trunner \<times> (runner_error, unit) res" where
  "terminate_runner r as_loss w ok =
     (if tr_kill_signal r then (r, Inr ())
      else case is_alive (r\<lparr>tr_kill_signal := True\<rparr>) w of
             (r', Inl e) \<Rightarrow> (r', Inl e)
           | (r', Inr False) \<Rightarrow> (r', Inr ())
           | (r', Inr True) \<Rightarrow>
               ((if ok then r'\<lparr>tr_sent := tr_sent r' @ [if as_loss then ''SIGUSR2'' else ''SIGUSR1'']\<rparr>
                 else r'), Inr ()))"

section \<open>Waiting\<close>

definition poll_interval :: int where
  "poll_interval = 500"

text \<open>What one round of waiting sees: whether the marker files say the task is started, what
  \<^verbatim>\<open>waitpid\<close> answers and the task state.\<close>

record tick =
  tk_started :: bool
  tk_wait :: wait_result
  tk_state :: "task_state option"

text \<open>The loop of \<^verbatim>\<open>wait_start\<close>; \<open>ticks k\<close> is what round \<open>k\<close> sees.  The result is the
  runner, the number of rounds and the error, if any.\<close>

function wait_start_loop :: "(int option \<Rightarrow> string) \<Rightarrow> (nat \<Rightarrow> tick) \<Rightarrow> int \<Rightarrow> int \<Rightarrow> nat \<Rightarrow> trunner
    \<Rightarrow> trunner \<times> nat \<times> runner_error exn option" where
  "wait_start_loop show_int ticks timeout waited k r =
     (if waited < timeout then
        (if tk_started (ticks k) then (r, Suc k, None)
         else let waited' = waited + poll_interval in
           case is_alive r (tk_wait (ticks k)) of
             (r', Inl e) \<Rightarrow> (r', k, Some e)
           | (r', Inr True) \<Rightarrow> wait_start_loop show_int ticks timeout waited' (Suc k) r'
           | (r', Inr False) \<Rightarrow>
               (if tr_rc r' \<noteq> Some 0 then
                  (r', k, Some (Own (Task_error (''Task failed: '' @
                     (case sr_reason (dead_status show_int r' (tk_state (ticks k))) of
                        None \<Rightarrow> ''None'' | Some m \<Rightarrow> m)))))
                else (r', Suc k, None)))
      else (r, k, None))"
  by pat_completeness auto

termination
  by (relation "measure (\<lambda>(_, _, timeout, waited, _). nat (timeout - waited))")
     (auto simp: poll_interval_def)

declare wait_start_loop.simps [simp del]

definition wait_start :: "(int option \<Rightarrow> string) \<Rightarrow> (nat \<Rightarrow> tick) \<Rightarrow> bool \<Rightarrow> int \<Rightarrow> trunner
    \<Rightarrow> trunner \<times> (runner_error, unit) res" where
  "wait_start show_int ticks ok timeout r =
     (case wait_start_loop show_int ticks timeout 0 0 r of
        (r', k, Some e) \<Rightarrow> (r', Inl e)
      | (r', k, None) \<Rightarrow>
          (if tk_started (ticks k) then (r', Inr ())
           else case terminate_runner r' True (tk_wait (ticks k)) ok of
                  (r'', Inl e) \<Rightarrow> (r'', Inl e)
                | (r'', Inr _) \<Rightarrow>
                    (r'', Inl (Own (Task_error ''Task did not start within deadline.'')))))"

text \<open>\<^verbatim>\<open>start\<close>: \<open>forks\<close> is whether \<^verbatim>\<open>Popen\<close> succeeds.\<close>

definition start_runner :: "(int option \<Rightarrow> string) \<Rightarrow> (nat \<Rightarrow> tick) \<Rightarrow> bool \<Rightarrow> bool \<Rightarrow> int \<Rightarrow> trunner
    \<Rightarrow> trunner \<times> (runner_error, unit) res" where
  "start_runner show_int ticks ok forks timeout r =
     (let r1 = r\<lparr>tr_forking := True\<rparr> in
      if \<not> forks then (r1, Inl (Own (Task_error ''OSError'')))
      else wait_start show_int ticks ok timeout (r1\<lparr>tr_popen := True, tr_forked := True\<rparr>))"

text \<open>The two waiting loops of \<^verbatim>\<open>stop\<close> share the time already waited.\<close>

function wait_dead_loop :: "(nat \<Rightarrow> wait_result) \<Rightarrow> int \<Rightarrow> int \<Rightarrow> nat \<Rightarrow> trunner
    \<Rightarrow> trunner \<times> int \<times> nat \<times> runner_error exn option" where
  "wait_dead_loop waits timeout waited k r =
     (case is_alive r (waits k) of
        (r', Inl e) \<Rightarrow> (r', waited, k, Some e)
      | (r', Inr False) \<Rightarrow> (r', waited, Suc k, None)
      | (r', Inr True) \<Rightarrow>
          (if waited < timeout then wait_dead_loop waits timeout (waited + poll_interval) (Suc k) r'
           else (r', waited, Suc k, None)))"
  by pat_completeness auto

termination
  by (relation "measure (\<lambda>(_, timeout, waited, _). nat (timeout - waited))")
     (auto simp: poll_interval_def)

declare wait_dead_loop.simps [simp del]

function wait_finished_loop :: "(nat \<Rightarrow> bool) \<Rightarrow> int \<Rightarrow> int \<Rightarrow> nat \<Rightarrow> nat" where
  "wait_finished_loop finished timeout waited j =
     (if \<not> finished j \<and> waited < timeout
      then wait_finished_loop finished timeout (waited + poll_interval) (Suc j) else j)"
  by pat_completeness auto

termination
  by (relation "measure (\<lambda>(_, timeout, waited, _). nat (timeout - waited))")
     (auto simp: poll_interval_def)

declare wait_finished_loop.simps [simp del]

text \<open>\<^verbatim>\<open>stop\<close>: \<open>waits\<close> answers \<^verbatim>\<open>waitpid\<close> (the first for the kill, the next for the loop, the one
  after the loop for the test), \<open>state\<close> is the task state afterwards, \<open>finished\<close> answers whether
  the task's finished marker exists.  The Boolean returned says whether \<^verbatim>\<open>quitquitquit\<close> ran.\<close>

definition stop_runner :: "(nat \<Rightarrow> wait_result) \<Rightarrow> bool \<Rightarrow> task_state option \<Rightarrow> (nat \<Rightarrow> bool) \<Rightarrow> int \<Rightarrow> trunner
    \<Rightarrow> trunner \<times> bool \<times> (runner_error, unit) res" where
  "stop_runner waits ok state finished timeout r =
     (if \<not> tr_forking r then (r, False, Inl (Own (Task_error ''Failed to call TaskRunner.start.'')))
      else case terminate_runner r False (waits 0) ok of
        (r1, Inl e) \<Rightarrow> (r1, False, Inl e)
      | (r1, Inr _) \<Rightarrow>
          (case wait_dead_loop waits timeout 0 1 r1 of
             (r2, waited, k, Some e) \<Rightarrow> (r2, False, Inl e)
           | (r2, waited, k, None) \<Rightarrow>
               (case is_alive r2 (waits k) of
                  (r3, Inl e) \<Rightarrow> (r3, False, Inl e)
                | (r3, Inr alive) \<Rightarrow>
                    (if \<not> alive \<and> state \<noteq> Some T_ACTIVE then (r3, False, Inr ())
                     else let j = wait_finished_loop finished timeout waited 0 in
                       if finished j then (r3, True, Inr ())
                       else (r3, True, Inl (Own (Task_error ''Task did not stop within deadline.'')))))))"

section \<open>HTTP lifecycle\<close>

record http_lifecycle =
  hl_port :: string
  hl_graceful_endpoint :: string
  hl_graceful_wait :: "int option"
  hl_shutdown_endpoint :: string
  hl_shutdown_wait :: "int option"

definition default_escalation_wait :: int where
  "default_escalation_wait = 5"

text \<open>\<^verbatim>\<open>wrap\<close>: \<open>None\<close> is the bare runner, otherwise the port and the escalation endpoints with
  their waits in seconds.\<close>

definition http_wrap :: "http_lifecycle option \<Rightarrow> (string \<Rightarrow> int option) \<Rightarrow> (int \<times> (string \<times> int) list) option" where
  "http_wrap lifecycle portmap =
     (case lifecycle of
        None \<Rightarrow> None
      | Some hl \<Rightarrow>
          (let wait = (\<lambda>w. case w of Some s \<Rightarrow> s | None \<Rightarrow> default_escalation_wait) in
           case portmap (hl_port hl) of
             None \<Rightarrow> None
           | Some port \<Rightarrow> Some (port, [(hl_graceful_endpoint hl, wait (hl_graceful_wait hl)),
                                        (hl_shutdown_endpoint hl, wait (hl_shutdown_wait hl))])))"

text \<open>\<^verbatim>\<open>_terminate_http\<close>: \<open>handled e\<close> is the answer of endpoint \<open>e\<close>, \<open>terminal k\<close> whether the
  \<open>k\<close>-th reading of the runner's status is a result.  \<open>wait_handled\<close> is the inner loop: whether
  a status was seen, and the readings made.\<close>

function wait_handled :: "(nat \<Rightarrow> bool) \<Rightarrow> int \<Rightarrow> int \<Rightarrow> nat \<Rightarrow> bool \<times> nat" where
  "wait_handled terminal wait_time waited k =
     (if terminal k then (True, Suc k)
      else if waited \<ge> wait_time then (False, Suc k)
      else wait_handled terminal wait_time (waited + 1) (Suc k))"
  by pat_completeness auto

termination
  by (relation "measure (\<lambda>(_, wait_time, waited, _). nat (wait_time - waited))") auto

declare wait_handled.simps [simp del]

fun terminate_http :: "(string \<Rightarrow> bool) \<Rightarrow> (nat \<Rightarrow> bool) \<Rightarrow> nat \<Rightarrow> (string \<times> int) list \<Rightarrow> string list \<times> bool \<times> nat" where
  "terminate_http handled terminal k [] = ([], False, k)"
| "terminate_http handled terminal k ((e, w) # rest) =
     (if handled e then
        (case wait_handled terminal w 0 k of
           (True, k') \<Rightarrow> ([e], True, k')
         | (False, k') \<Rightarrow> (case terminate_http handled terminal k' rest of (es, b, k'') \<Rightarrow> (e # es, b, k'')))
      else (case terminate_http handled terminal k rest of (es, b, k'') \<Rightarrow> (e # es, b, k'')))"

section \<open>Statuses are kept\<close>

lemma dead_status_terminal: "terminal_result (Some (dead_status show_int r st))"
  by (auto simp: dead_status_def terminal_result_def live_state_def exit_state_map_def
      split: option.split task_state.split)

lemma read_status_keeps:
  "tr_status r = Some s \<Longrightarrow> read_status show_int r w st = (r, Inr (Some s))"
  by (simp add: read_status_def)

interpretation runner: fixed_status_checker
  "\<lambda>r (w, st). fst (read_status show_int r w st)" tr_status
proof
  fix r :: trunner and e :: "wait_result \<times> task_state option"
  assume "terminal_result (tr_status r)"
  then obtain s where s: "tr_status r = Some s" by (cases "tr_status r") (auto simp: terminal_result_def)
  show "tr_status (case e of (w, st) \<Rightarrow> fst (read_status show_int r w st)) = tr_status r"
    by (cases e) (simp add: read_status_keeps [OF s])
  then show "terminal_result (tr_status (case e of (w, st) \<Rightarrow> fst (read_status show_int r w st)))"
    using \<open>terminal_result (tr_status r)\<close> by simp
qed

lemma read_status_value:
  assumes "tr_status r = None" "read_status show_int r w st = (r', Inr (Some s))"
  shows "\<exists>r''. s = dead_status show_int r'' st \<and> is_alive r w = (r'', Inr False)"
  using assms
  by (auto simp: read_status_def compute_status_def split: prod.splits sum.splits bool.splits)

section \<open>Bytes of a wait status\<close>

lemma low_seven_bits: "uint (and (of_nat n :: 8 word) 0x7F) = int (n mod 128)"
proof -
  have m: "(0x7F :: 8 word) = mask 7" by (simp add: mask_eq_exp_minus_1)
  have "uint (and (of_nat n :: 8 word) 0x7F) = take_bit 7 (uint (of_nat n :: 8 word))"
    unfolding m take_bit_eq_mask [symmetric] by (rule unsigned_take_bit_eq)
  also have "\<dots> = int n mod 256 mod 128"
    by (simp only: take_bit_eq_mod unsigned_of_nat) (simp add: zmod_int)
  also have "\<dots> = int (n mod 128)"
    by (simp add: zmod_int mod_mod_cancel)
  finally show ?thesis .
qed

lemma signed_byte:
  assumes "n < 256"
  shows "sint (of_nat n :: 8 word) = (if n < 128 then int n else int n - 256)"
proof (cases "n < 128")
  case True
  then show ?thesis
    by (simp add: sint_uint signed_take_bit_eq_take_bit_shift take_bit_eq_mod unsigned_of_nat)
next
  case False
  have "(int n + 128) mod 256 = (int n - 128 + 256) mod 256" by (simp add: algebra_simps)
  also have "\<dots> = int n - 128" using assms False by (simp only: mod_add_self2) simp
  finally show ?thesis
    using assms False
    by (simp add: sint_uint signed_take_bit_eq_take_bit_shift take_bit_eq_mod unsigned_of_nat)
qed

lemma decode_status_eq:
  "decode_status n = (if n < 65536
     then Some (int (n mod 128), if n div 256 < 128 then int (n div 256) else int (n div 256) - 256)
     else None)"
proof (cases "n < 65536")
  case True
  then have "n div 256 < 256" by (simp add: less_mult_imp_div_less)
  then show ?thesis
    using True by (simp add: decode_status_def low_seven_bits signed_byte Let_def)
qed (simp add: decode_status_def)

lemma decode_wait_status:
  assumes "code < 256" "core \<le> 1" "sig < 128"
  shows "decode_status (code * 256 + core * 128 + sig) =
    Some (int sig, if code < 128 then int code else int code - 256)"
proof -
  have "code * 256 + core * 128 + sig = sig + (code * 2 + core) * 128" by simp
  then have "(code * 256 + core * 128 + sig) mod 128 = sig mod 128"
    by (simp only: mod_mult_self1)
  moreover have "(code * 256 + core * 128 + sig) div 256 = code"
    using assms by (intro div_nat_eqI) auto
  moreover have "code * 256 + core * 128 + sig < 65536"
    using assms by simp
  ultimately show ?thesis
    using assms by (simp add: decode_status_eq)
qed

section \<open>Waiting for the start\<close>

lemma wait_start_loop_rounds:
  "0 \<le> waited \<Longrightarrow> wait_start_loop show_int ticks timeout waited k r = (r', k', e) \<Longrightarrow>
     k \<le> k' \<and> (if waited < timeout then (int (k' - k) - 1) * poll_interval < timeout - waited else k' = k)"
proof (induction show_int ticks timeout waited k r arbitrary: k' rule: wait_start_loop.induct)
  case (1 show_int ticks timeout waited k r)
  note res = "1.prems"(2)
  show ?case
  proof (cases "waited < timeout \<and> \<not> tk_started (ticks k)")
    case False
    then show ?thesis
      using res by (auto simp: wait_start_loop.simps [of show_int ticks timeout waited k r] poll_interval_def
          split: if_splits)
  next
    case loop: True
    obtain r1 a where a: "is_alive r (tk_wait (ticks k)) = (r1, a)" by fastforce
    show ?thesis
    proof (cases "a = Inr True")
      case True
      have "wait_start_loop show_int ticks timeout (waited + poll_interval) (Suc k) r1 = (r', k', e)"
        using res loop a True by (simp add: wait_start_loop.simps [of show_int ticks timeout waited k r] Let_def)
      then have "Suc k \<le> k'" "if waited + poll_interval < timeout
         then (int (k' - Suc k) - 1) * poll_interval < timeout - (waited + poll_interval) else k' = Suc k"
        using "1.IH" [of "waited + poll_interval" r1 "Inr True" True k'] loop a True "1.prems"(1)
        by (auto simp: poll_interval_def)
      then show ?thesis using loop by (auto simp: poll_interval_def of_nat_diff split: if_splits)
    next
      case False
      then have "k' = k \<or> k' = Suc k"
        using res loop a by (auto simp: wait_start_loop.simps [of show_int ticks timeout waited k r] Let_def
            split: sum.splits bool.splits if_splits)
      then show ?thesis using loop by (auto simp: poll_interval_def)
    qed
  qed
qed

text \<open>A start without an error is a started task.\<close>

lemma wait_start_ok:
  assumes "wait_start show_int ticks ok timeout r = (r', Inr ())"
  shows "\<exists>k. tk_started (ticks k) \<and> (int k - 1) * poll_interval \<le> max 0 timeout"
proof -
  obtain r1 k e where L: "wait_start_loop show_int ticks timeout 0 0 r = (r1, k, e)"
    by (metis prod_cases3)
  then have "tk_started (ticks k)"
    using assms by (auto simp: wait_start_def split: option.splits if_splits prod.splits sum.splits)
  then show ?thesis
    using wait_start_loop_rounds [of 0 show_int ticks timeout 0 r r1 k e] L by (auto simp: poll_interval_def split: if_splits)
qed

section \<open>Properties\<close>

text \<open>Reading the runner's exit: a wait status of exit code \<open>code\<close>, core flag
  and signal decodes to the signal and the code as a signed byte, and the status derived from it
  is the signal's \<open>TASK_KILLED\<close>, the checkpoint's verdict for the codes 0 and 105, the
  documented failure for 101 to 104, and \<open>TASK_LOST\<close> otherwise; it is always terminal.\<close>

theorem exit_status_decoded:
  assumes "code < 256" "core \<le> 1" "sig < 128" "tr_popen r" "\<not> tr_dead r" "tr_status r = None"
    "read_status show_int r (Exited (code * 256 + core * 128 + sig)) st = (r', res)"
  shows "\<exists>s. res = Inr (Some s) \<and> tr_status r' = Some s \<and> terminal_result (Some s) \<and>
    sr_status s =
      (if sig \<noteq> 0 then TASK_KILLED
       else if code = 0 \<or> code = 105 then
         (case st of Some T_SUCCESS \<Rightarrow> TASK_FINISHED | Some T_FAILED \<Rightarrow> TASK_FAILED
          | Some T_KILLED \<Rightarrow> TASK_KILLED | _ \<Rightarrow> TASK_LOST)
       else if code = 102 \<or> code = 104 then TASK_FAILED else TASK_LOST)"
proof -
  let ?rc = "if code < 128 then int code else int code - 256"
  let ?r = "r\<lparr>tr_signal := Some (int sig), tr_rc := Some ?rc, tr_dead := True\<rparr>"
  have "is_alive r (Exited (code * 256 + core * 128 + sig)) = (?r, Inr False)"
    using assms(4,5) by (simp add: is_alive_def decode_wait_status [OF assms(1-3)])
  then have res: "res = Inr (Some (dead_status show_int ?r st))"
    "tr_status r' = Some (dead_status show_int ?r st)"
    using assms(6,7) by (auto simp: read_status_def compute_status_def)
  show ?thesis
    using res dead_status_terminal [of show_int ?r st] assms(1)
    by (auto simp: dead_status_def exit_codes exit_state_map_def split: option.split task_state.split)
qed

theorem exit_status_decoded_witness:
  "\<exists>s. snd (read_status (\<lambda>_. ''-'') (new_trunner\<lparr>tr_popen := True\<rparr>) (Exited (102 * 256)) None) =
      Inr (Some s) \<and> sr_status s = TASK_FAILED"
proof -
  obtain r' res where R: "read_status (\<lambda>_. ''-'') (new_trunner\<lparr>tr_popen := True\<rparr>)
      (Exited (102 * 256 + 0 * 128 + 0)) None = (r', res)" by fastforce
  show ?thesis
    using exit_status_decoded [of 102 0 0 "new_trunner\<lparr>tr_popen := True\<rparr>", OF _ _ _ _ _ _ R] R
    by (auto simp: new_trunner_def)
qed

text \<open>\<open>wait_start\<close> ends on every input, after at most one round per poll interval
  of the timeout and two more, and returns normally only when a marker of the task was seen.\<close>

theorem wait_start_decides:
  assumes "wait_start show_int ticks ok timeout r = (r', Inr ())"
  shows "\<exists>k. tk_started (ticks k) \<and> (int k - 1) * poll_interval \<le> max 0 timeout"
  using assms by (rule wait_start_ok)

theorem wait_start_decides_witness:
  "\<exists>r'. wait_start (\<lambda>_. ''-'') (\<lambda>k. \<lparr>tk_started = 1 \<le> k, tk_wait = Still_running, tk_state = None\<rparr>)
      True 2000 (new_trunner\<lparr>tr_popen := True\<rparr>) = (r', Inr ()) \<and>
    (\<exists>k. 1 \<le> k \<and> (int k - 1) * poll_interval \<le> 2000)"
proof -
  let ?t = "\<lambda>k :: nat. \<lparr>tk_started = 1 \<le> k, tk_wait = Still_running, tk_state = None\<rparr>"
  let ?r = "new_trunner\<lparr>tr_popen := True\<rparr>"
  have "wait_start_loop (\<lambda>_. ''-'') ?t 2000 0 0 ?r = (?r, 2, None)"
    by (subst wait_start_loop.simps)
       (simp add: new_trunner_def poll_interval_def is_alive_def, subst wait_start_loop.simps, simp)
  then have W: "wait_start (\<lambda>_. ''-'') ?t True 2000 ?r = (?r, Inr ())"
    by (simp add: wait_start_def)
  show ?thesis
    using wait_start_decides [OF W] W by (intro exI [of _ ?r]) auto
qed

end
