(* ===== verification/Executor.thy ===== *)
theory Executor
  imports Status
begin

text \<open>
  The Mesos executor, \<^verbatim>\<open>apache/aurora/executor/aurora_executor.py\<close> on
  \<^verbatim>\<open>apache/aurora/executor/executor_base.py\<close>.  Every launched task has a thread that runs
  \<open>_run\<close>; a thread is its position in that method, and a step moves one thread over one of
  its stages, with what the sandbox, the runner or the checkers do as an argument.  Kills, the
  driver's calls and the callbacks of the status manager are steps too, so that every
  interleaving is a sequence of steps.  Updates are recorded in the order sent.
\<close>

section \<open>State\<close>

datatype run_phase = At_sandbox | At_runner | At_start | At_manager | At_end

type_synonym update = "string option \<times> mesos_state \<times> string option"

record executor =
  ex_task_id :: "string option"
  ex_runner :: bool
  ex_kill_manager :: kill_manager
  ex_runner_aborted :: bool
  ex_runner_started :: bool
  ex_sandbox_initialized :: bool
  ex_sandbox_created :: bool
  ex_manager_started :: bool
  ex_terminated :: bool
  ex_launched :: bool
  ex_stopping :: bool
  ex_updates :: "update list"
  ex_threads :: "run_phase list"

definition new_executor :: executor where
  "new_executor = \<lparr>ex_task_id = None, ex_runner = False, ex_kill_manager = new_kill_manager,
     ex_runner_aborted = False, ex_runner_started = False, ex_sandbox_initialized = False,
     ex_sandbox_created = False, ex_manager_started = False, ex_terminated = False,
     ex_launched = False, ex_stopping = False, ex_updates = [], ex_threads = []\<rparr>"

definition status_is_terminal :: "mesos_state \<Rightarrow> bool" where
  "status_is_terminal s = (s \<in> {TASK_FAILED, TASK_FINISHED, TASK_KILLED, TASK_LOST})"

text \<open>\<^verbatim>\<open>send_update\<close>: a state it has no name for is refused.\<close>

definition send_update :: "executor \<Rightarrow> string option \<Rightarrow> mesos_state \<Rightarrow> string option \<Rightarrow> executor" where
  "send_update ex tid s msg =
     (case s of TASK_OTHER _ \<Rightarrow> ex
      | _ \<Rightarrow> ex\<lparr>ex_updates := ex_updates ex @ [(tid, s, msg)]\<rparr>)"

definition die :: "executor \<Rightarrow> mesos_state \<Rightarrow> string \<Rightarrow> executor" where
  "die ex s msg = (send_update ex (ex_task_id ex) s (Some msg))\<lparr>ex_stopping := True\<rparr>"

section \<open>The stages of \<^verbatim>\<open>_run\<close>\<close>

datatype stage_outcome = Done | Timed_out | Task_failure string | Sandbox_failure string
  | Other_exception string | Not_a_runner | Handled_exception

definition initialize_sandbox :: "executor \<Rightarrow> stage_outcome \<Rightarrow> executor \<times> bool" where
  "initialize_sandbox ex out =
     (let ex1 = ex\<lparr>ex_sandbox_initialized := True\<rparr> in
      case out of
        Done \<Rightarrow> (ex1\<lparr>ex_sandbox_created := True\<rparr>, True)
      | Timed_out \<Rightarrow> (die ex1 TASK_FAILED ''Timed out waiting for sandbox to initialize!'', False)
      | Sandbox_failure e \<Rightarrow> (die ex1 TASK_FAILED (''Failed to initialize sandbox: '' @ e), False)
      | _ \<Rightarrow> (die ex1 TASK_FAILED ''Unknown exception initializing sandbox'', False))"

definition start_task_runner :: "executor \<Rightarrow> stage_outcome \<Rightarrow> executor \<times> bool" where
  "start_task_runner ex out =
     (let ex1 = (if ex_runner_aborted ex
                 then die ex TASK_KILLED ''Task killed during initialization.'' else ex) in
      case out of
        Done \<Rightarrow> (ex1\<lparr>ex_runner_started := True\<rparr>, True)
      | Task_failure e \<Rightarrow> (die ex1 TASK_FAILED (''Task initialization failed: '' @ e), False)
      | Timed_out \<Rightarrow> (die ex1 TASK_LOST ''Timed out waiting for task to start!'', False)
      | _ \<Rightarrow> (die ex1 TASK_FAILED ''Unknown exception starting runner'', False))"

text \<open>One stage of a thread: the executor afterwards and where the thread is.\<close>

definition run_stage :: "executor \<Rightarrow> run_phase \<Rightarrow> stage_outcome \<Rightarrow> executor \<times> run_phase" where
  "run_stage ex ph out =
     (case ph of
        At_sandbox \<Rightarrow>
          (case initialize_sandbox (send_update ex (ex_task_id ex) TASK_STARTING None) out of
             (ex', True) \<Rightarrow> (ex', At_runner) | (ex', False) \<Rightarrow> (ex', At_end))
      | At_runner \<Rightarrow>
          (case out of
             Task_failure e \<Rightarrow> (die (ex\<lparr>ex_runner_aborted := True\<rparr>) TASK_FAILED e, At_end)
           | Not_a_runner \<Rightarrow> (die (ex\<lparr>ex_runner := True\<rparr>) TASK_FAILED ''Unrecognized task!'', At_end)
           | Done \<Rightarrow> (ex\<lparr>ex_runner := True\<rparr>, At_start)
           | _ \<Rightarrow> (ex, At_end))
      | At_start \<Rightarrow>
          (case start_task_runner ex out of
             (ex', True) \<Rightarrow> (ex', At_manager) | (ex', False) \<Rightarrow> (ex', At_end))
      | At_manager \<Rightarrow>
          (case out of
             Done \<Rightarrow> (ex\<lparr>ex_manager_started := True\<rparr>, At_end)
           | Handled_exception \<Rightarrow> (die ex TASK_FAILED ''Internal error'', At_end)
           | _ \<Rightarrow> (ex, At_end))
      | At_end \<Rightarrow> (ex, At_end))"

section \<open>Driver calls and callbacks\<close>

text \<open>\<^verbatim>\<open>launchTask\<close>: \<open>valid\<close> is whether the task's data deserialises.\<close>

definition launch_task :: "executor \<Rightarrow> string \<Rightarrow> bool \<Rightarrow> executor" where
  "launch_task ex tid valid =
     (let ex1 = ex\<lparr>ex_launched := True\<rparr> in
      if ex_runner ex1 then send_update ex1 (Some tid) TASK_LOST (Some ''Task already running on this executor'')
      else
        let ex2 = ex1\<lparr>ex_task_id := Some tid\<rparr> in
        if \<not> valid then
          (send_update ex2 (Some tid) TASK_FAILED (Some ''Could not deserialize task.''))\<lparr>ex_stopping := True\<rparr>
        else ex2\<lparr>ex_threads := ex_threads ex2 @ [At_sandbox]\<rparr>)"

definition signal_kill_manager :: "executor \<Rightarrow> string \<Rightarrow> string \<Rightarrow> executor" where
  "signal_kill_manager ex tid reason =
     (if ex_task_id ex = None then ex
      else if ex_task_id ex \<noteq> Some tid then ex
      else if \<not> ex_sandbox_created ex then ex\<lparr>ex_runner_aborted := True\<rparr>
      else ex\<lparr>ex_kill_manager := km_kill (ex_kill_manager ex) reason\<rparr>)"

definition kill_task :: "executor \<Rightarrow> string \<Rightarrow> executor" where
  "kill_task ex tid = signal_kill_manager ex tid ''Instructed to kill task.''"

definition executor_shutdown :: "executor \<Rightarrow> executor" where
  "executor_shutdown ex =
     (case ex_task_id ex of
        None \<Rightarrow> ex
      | Some tid \<Rightarrow> if tid = [] then ex
                    else signal_kill_manager ex tid ''Told to shut down executor.'')"

definition signal_running :: "executor \<Rightarrow> status_result \<Rightarrow> executor" where
  "signal_running ex r = send_update ex (ex_task_id ex) TASK_RUNNING (sr_reason r)"

text \<open>What stopping the checkers or the runner does: timeouts, \<^verbatim>\<open>AttributeError\<close> and
  \<^verbatim>\<open>RuntimeError\<close> are logged, every other exception (a \<^verbatim>\<open>TaskError\<close> of the runner among
  them) leaves \<^verbatim>\<open>_shutdown\<close>.\<close>

datatype stop_outcome = Stopped | Stop_timeout | Stop_logged | Stop_raises

definition shutdown_task :: "executor \<Rightarrow> status_result option \<Rightarrow> stop_outcome \<Rightarrow> stop_outcome
    \<Rightarrow> status_result \<Rightarrow> executor \<times> bool" where
  "shutdown_task ex runner_status checkers runner result =
     (if checkers = Stop_raises then (ex, False)
      else if runner = Stop_raises then (ex, False)
      else
        let exit_status = (case runner_status of Some s \<Rightarrow> s | None \<Rightarrow> result) in
        ((send_update ex (ex_task_id ex) (sr_status exit_status) (sr_reason result))
           \<lparr>ex_terminated := True, ex_stopping := True\<rparr>, True))"

section \<open>Steps\<close>

datatype ex_action =
    Launch string bool
  | Run_thread nat stage_outcome
  | Kill string
  | Shutdown
  | Running_reported status_result
  | Unhealthy_reported "status_result option" stop_outcome stop_outcome status_result

fun ex_step :: "executor \<Rightarrow> ex_action \<Rightarrow> executor" where
  "ex_step ex (Launch tid valid) = launch_task ex tid valid"
| "ex_step ex (Run_thread i out) =
     (if i < length (ex_threads ex) then
        (case run_stage ex (ex_threads ex ! i) out of
           (ex', ph) \<Rightarrow> ex'\<lparr>ex_threads := (ex_threads ex')[i := ph]\<rparr>)
      else ex)"
| "ex_step ex (Kill tid) = kill_task ex tid"
| "ex_step ex Shutdown = executor_shutdown ex"
| "ex_step ex (Running_reported r) =
     (if ex_manager_started ex then signal_running ex r else ex)"
| "ex_step ex (Unhealthy_reported rs co ro r) =
     (if ex_manager_started ex then fst (shutdown_task ex rs co ro r) else ex)"

definition ex_run :: "executor \<Rightarrow> ex_action list \<Rightarrow> executor" where
  "ex_run = foldl ex_step"

section \<open>Invariant\<close>

definition no_running :: "update list \<Rightarrow> bool" where
  "no_running us = list_all (\<lambda>u. fst (snd u) \<noteq> TASK_RUNNING) us"

text \<open>What holds when a thread stands before a stage.\<close>

definition phase_ok :: "executor \<Rightarrow> run_phase \<Rightarrow> bool" where
  "phase_ok ex ph =
     (case ph of At_sandbox \<Rightarrow> True | At_runner \<Rightarrow> ex_sandbox_created ex | At_start \<Rightarrow> ex_runner ex
      | At_manager \<Rightarrow> ex_runner_started ex | At_end \<Rightarrow> True)"

definition flags_ok :: "executor \<Rightarrow> bool" where
  "flags_ok ex =
     ((ex_sandbox_created ex \<longrightarrow> ex_sandbox_initialized ex) \<and>
      (ex_runner ex \<longrightarrow> ex_sandbox_created ex) \<and>
      (ex_runner_started ex \<longrightarrow> ex_runner ex) \<and>
      (ex_manager_started ex \<longrightarrow> ex_runner_started ex) \<and>
      (km_killed (ex_kill_manager ex) \<longrightarrow> ex_sandbox_created ex) \<and>
      (ex_terminated ex \<longrightarrow> ex_stopping ex \<and> ex_manager_started ex) \<and>
      (ex_manager_started ex \<or> no_running (ex_updates ex)))"

definition ex_ok :: "executor \<Rightarrow> bool" where
  "ex_ok ex =
     (flags_ok ex \<and> list_all (phase_ok ex) (ex_threads ex) \<and>
      (ex_task_id ex = None \<longrightarrow> ex_threads ex = []))"

definition flags_below :: "executor \<Rightarrow> executor \<Rightarrow> bool" where
  "flags_below a b =
     ((ex_sandbox_created a \<longrightarrow> ex_sandbox_created b) \<and> (ex_runner a \<longrightarrow> ex_runner b) \<and>
      (ex_runner_started a \<longrightarrow> ex_runner_started b))"

lemma phase_ok_mono: "flags_below a b \<Longrightarrow> phase_ok a ph \<Longrightarrow> phase_ok b ph"
  by (auto simp: flags_below_def phase_ok_def split: run_phase.splits)

lemma phases_ok_mono: "flags_below a b \<Longrightarrow> list_all (phase_ok a) phs \<Longrightarrow> list_all (phase_ok b) phs"
  using phase_ok_mono by (auto simp: list_all_iff)

lemma send_update_simps [simp]:
  "ex_task_id (send_update ex t s m) = ex_task_id ex"
  "ex_runner (send_update ex t s m) = ex_runner ex"
  "ex_kill_manager (send_update ex t s m) = ex_kill_manager ex"
  "ex_runner_aborted (send_update ex t s m) = ex_runner_aborted ex"
  "ex_runner_started (send_update ex t s m) = ex_runner_started ex"
  "ex_sandbox_initialized (send_update ex t s m) = ex_sandbox_initialized ex"
  "ex_sandbox_created (send_update ex t s m) = ex_sandbox_created ex"
  "ex_manager_started (send_update ex t s m) = ex_manager_started ex"
  "ex_terminated (send_update ex t s m) = ex_terminated ex"
  "ex_stopping (send_update ex t s m) = ex_stopping ex"
  "ex_threads (send_update ex t s m) = ex_threads ex"
  by (auto simp: send_update_def split: mesos_state.split)

lemma no_running_send [simp]:
  "no_running (ex_updates (send_update ex t s m)) \<longleftrightarrow> no_running (ex_updates ex) \<and> s \<noteq> TASK_RUNNING"
  by (cases s) (auto simp: send_update_def no_running_def)

lemma die_simps [simp]:
  "ex_task_id (die ex s m) = ex_task_id ex"
  "ex_runner (die ex s m) = ex_runner ex"
  "ex_kill_manager (die ex s m) = ex_kill_manager ex"
  "ex_runner_aborted (die ex s m) = ex_runner_aborted ex"
  "ex_runner_started (die ex s m) = ex_runner_started ex"
  "ex_sandbox_initialized (die ex s m) = ex_sandbox_initialized ex"
  "ex_sandbox_created (die ex s m) = ex_sandbox_created ex"
  "ex_manager_started (die ex s m) = ex_manager_started ex"
  "ex_terminated (die ex s m) = ex_terminated ex"
  "ex_stopping (die ex s m)"
  "ex_threads (die ex s m) = ex_threads ex"
  by (simp_all add: die_def)

lemma no_running_die [simp]:
  "no_running (ex_updates (die ex s m)) \<longleftrightarrow> no_running (ex_updates ex) \<and> s \<noteq> TASK_RUNNING"
  by (simp add: die_def)

lemma list_all_update: "list_all P xs \<Longrightarrow> P y \<Longrightarrow> list_all P (xs[i := y])"
  using set_update_subset_insert by (fastforce simp: list_all_iff)


lemma ex_ok_same:
  "ex_ok ex \<Longrightarrow> flags_ok ex' \<Longrightarrow> flags_below ex ex' \<Longrightarrow> ex_threads ex' = ex_threads ex \<Longrightarrow>
     ex_task_id ex' = ex_task_id ex \<Longrightarrow> ex_ok ex'"
  using phases_ok_mono by (auto simp: ex_ok_def)

lemma ex_ok_launch [inv_intros]:
  assumes "ex_ok ex"
  shows "ex_ok (launch_task ex tid valid)"
proof -
  have mono: "list_all (phase_ok ex') (ex_threads ex)" if "flags_below ex ex'" for ex'
    using assms that phases_ok_mono by (auto simp: ex_ok_def)
  have "flags_ok (launch_task ex tid valid)"
    using assms by (auto simp: ex_ok_def flags_ok_def launch_task_def Let_def)
  moreover have "list_all (phase_ok (launch_task ex tid valid)) (ex_threads ex)"
    by (rule mono) (simp add: flags_below_def launch_task_def Let_def)
  moreover have "ex_threads (launch_task ex tid valid) \<in> {ex_threads ex, ex_threads ex @ [At_sandbox]}"
    by (simp add: launch_task_def Let_def)
  moreover have "ex_task_id (launch_task ex tid valid) = None \<longrightarrow>
      ex_task_id ex = None \<and> ex_threads (launch_task ex tid valid) = ex_threads ex"
    by (simp add: launch_task_def Let_def)
  moreover have "phase_ok (launch_task ex tid valid) At_sandbox" by (simp add: phase_ok_def)
  ultimately show ?thesis
    using assms unfolding ex_ok_def by auto
qed

lemma ex_ok_kill [inv_intros]: "ex_ok ex \<Longrightarrow> ex_ok (signal_kill_manager ex tid reason)"
  by (rule ex_ok_same [of ex])
     (auto simp: ex_ok_def flags_ok_def flags_below_def signal_kill_manager_def km_kill_def)

lemma ex_ok_shutdown [inv_intros]: "ex_ok ex \<Longrightarrow> ex_ok (executor_shutdown ex)"
  by (auto simp: executor_shutdown_def inv_intros split: option.split)

lemma ex_ok_running [inv_intros]: "ex_ok ex \<Longrightarrow> ex_manager_started ex \<Longrightarrow> ex_ok (signal_running ex r)"
  by (rule ex_ok_same [of ex]) (simp_all add: ex_ok_def flags_ok_def flags_below_def signal_running_def)

lemma ex_ok_shutdown_task [inv_intros]:
  "ex_ok ex \<Longrightarrow> ex_manager_started ex \<Longrightarrow> ex_ok (fst (shutdown_task ex rs co ro r))"
  by (rule ex_ok_same [of ex])
     (simp_all add: ex_ok_def flags_ok_def flags_below_def shutdown_task_def Let_def)

lemmas stage_defs = run_stage_def initialize_sandbox_def start_task_runner_def Let_def

lemma stage_flags:
  assumes "flags_ok ex" "phase_ok ex ph" "run_stage ex ph out = (ex', ph')"
  shows "flags_ok ex'"
  using assms
  by (cases ph; cases out; simp add: stage_defs flags_ok_def phase_ok_def split: if_splits; force)

lemma stage_phase:
  assumes "run_stage ex ph out = (ex', ph')" "phase_ok ex ph"
  shows "phase_ok ex' ph'" "flags_below ex ex'" "ex_threads ex' = ex_threads ex"
    "ex_task_id ex' = ex_task_id ex"
  using assms
  by (cases ph; cases out; auto simp: stage_defs phase_ok_def flags_below_def split: if_splits)+

lemma ex_step_ok: "ex_ok ex \<Longrightarrow> ex_ok (ex_step ex a)"
proof (cases a)
  case (Run_thread i out)
  assume ok: "ex_ok ex"
  show ?thesis
  proof (cases "i < length (ex_threads ex)")
    case True
    have ph: "phase_ok ex (ex_threads ex ! i)"
      using ok True by (simp add: ex_ok_def list_all_length)
    obtain ex' ph' where st: "run_stage ex (ex_threads ex ! i) out = (ex', ph')" by fastforce
    note sp = stage_phase [OF st ph]
    have fl: "flags_ok ex'" using stage_flags [OF _ ph st] ok by (simp add: ex_ok_def)
    let ?ex = "ex'\<lparr>ex_threads := (ex_threads ex)[i := ph']\<rparr>"
    have "list_all (phase_ok ex') ((ex_threads ex)[i := ph'])"
      using phases_ok_mono [OF sp(2)] ok sp(1) by (intro list_all_update) (auto simp: ex_ok_def)
    then have "list_all (phase_ok ?ex) ((ex_threads ex)[i := ph'])"
      using phases_ok_mono [of ex' ?ex] by (simp add: flags_below_def)
    moreover have "flags_ok ?ex" using fl by (simp add: flags_ok_def)
    ultimately have "ex_ok ?ex" using ok sp(4) by (simp add: ex_ok_def)
    then show ?thesis using True sp(3) by (simp add: Run_thread st)
  qed (use ok in \<open>simp add: Run_thread\<close>)
qed (auto simp: inv_intros kill_task_def)

interpretation executor: invariant_machine "\<lambda>ex a. (ex_step ex a, None :: unit option)" ex_ok
  by unfold_locales (simp add: ex_step_ok)


section \<open>Properties\<close>



text \<open>A kill of the task that is running takes effect: once the sandbox exists
  the kill manager proposes \<open>TASK_KILLED\<close>, and then the chain of the runner and the
  checkers proposes a terminal status to the status manager even if no other checker does;
  before that the abort of the runner's start is requested.  A kill of any other task changes
  nothing.\<close>

theorem kill_takes_effect:
  "(ex_task_id ex = Some tid \<and> ex_sandbox_created ex \<longrightarrow>
     km_status (ex_kill_manager (kill_task ex tid)) =
        Some \<lparr>sr_reason = Some ''Instructed to kill task.'', sr_status = TASK_KILLED\<rparr> \<and>
     (\<forall>rs. \<exists>r s. chained_status None
        (Reads (km_status (ex_kill_manager (kill_task ex tid))) # map Reads rs) = (r, Inr r) \<and>
        terminal_result r \<and> chained_status None [Reads None, Reads r] = (s, Inr s) \<and> terminal_result s)) \<and>
   (ex_task_id ex = Some tid \<and> \<not> ex_sandbox_created ex \<longrightarrow> ex_runner_aborted (kill_task ex tid)) \<and>
   (ex_task_id ex \<noteq> Some tid \<longrightarrow> kill_task ex tid = ex)"
  by (auto simp: kill_task_def signal_kill_manager_def km_status_def km_kill_def chained_status_def
      in_terminal_state_def terminal_result_def live_state_def)

theorem kill_takes_effect_witness:
  "ex_runner_aborted (kill_task (launch_task new_executor ''t'' True) ''t'') \<and>
   kill_task (launch_task new_executor ''t'' True) ''u'' = launch_task new_executor ''t'' True"
  using kill_takes_effect [of "launch_task new_executor ''t'' True" "''t''"]
    kill_takes_effect [of "launch_task new_executor ''t'' True" "''u''"]
  by (simp add: launch_task_def new_executor_def)

text \<open>An abort that arrives before the sandbox exists does not stop the start: the
  stage sends \<open>TASK_KILLED\<close>, starts the runner all the same and goes on to start the
  status manager.\<close>

theorem aborted_start_goes_on:
  assumes "ex_runner_aborted ex" "run_stage ex At_start Done = (ex', ph)"
  shows "ph = At_manager \<and> ex_runner_started ex' \<and>
    (\<exists>msg. ex_updates ex' = ex_updates ex @ [(ex_task_id ex, TASK_KILLED, msg)])"
  using assms by (auto simp: stage_defs die_def send_update_def)

theorem aborted_start_goes_on_witness:
  "\<exists>ex'. ex' = ex_run new_executor [Launch ''t'' True, Kill ''t'', Run_thread 0 Done, Run_thread 0 Done,
       Run_thread 0 Done] \<and> ex_runner_started ex' \<and> (Some ''t'', TASK_KILLED, Some ''Task killed during initialization.'') \<in> set (ex_updates ex')"
proof -
  let ?ex = "ex_run new_executor [Launch ''t'' True, Kill ''t'', Run_thread 0 Done, Run_thread 0 Done]"
  have 1: "ex_runner_aborted ?ex" "ex_threads ?ex = [At_start]" "ex_task_id ?ex = Some ''t''"
    by (simp_all add: ex_run_def new_executor_def launch_task_def stage_defs send_update_def
        kill_task_def signal_kill_manager_def)
  obtain ex' ph where S: "run_stage ?ex At_start Done = (ex', ph)" by fastforce
  have 2: "ex_step ?ex (Run_thread 0 Done) = ex'\<lparr>ex_threads := (ex_threads ex')[0 := ph]\<rparr>"
    using 1 S by simp
  have 3: "(Some ''t'', TASK_KILLED, Some ''Task killed during initialization.'') \<in> set (ex_updates ex')"
    using S 1 by (auto simp: stage_defs die_def send_update_def)
  have 4: "ex_run new_executor [Launch ''t'' True, Kill ''t'', Run_thread 0 Done, Run_thread 0 Done,
       Run_thread 0 Done] = ex_step ?ex (Run_thread 0 Done)"
    by (simp add: ex_run_def)
  show ?thesis
    using aborted_start_goes_on [OF 1(1) S] 2 3 unfolding 4 by simp
qed

text \<open>A \<^verbatim>\<open>TaskError\<close> of the runner's stop leaves \<^verbatim>\<open>_shutdown\<close> without a terminal update.\<close>

lemma shutdown_raises_no_update:
  "shutdown_task ex rs co Stop_raises r = (ex, False)"
  by (simp add: shutdown_task_def)

end
