(* ===== verification/TaskRunner.thy ===== *)
theory TaskRunner
  imports Ckpt Planner Muxer
begin

text \<open>
  The Thermos task runner, \<^verbatim>\<open>apache/thermos/core/runner.py\<close>: the handlers that keep the plan,
  the muxer and the process table in step with the checkpointed state, the scheduling pass, the
  stages of a task and the kill path.  The runner's state holds the dispatcher's state, the two
  plans, the muxer and the log of the effects on the system (signals, checkpoint writes, forks);
  the clock, the scan of the processes and the outcome of a fork are arguments.
\<close>

section \<open>State\<close>

datatype runner_failure = Internal_error | Invalid_task | State_error | Permission_error | Ckpt_failure ckpt_error
  | Mux_failure mux_error

type_synonym runner_exn = "runner_failure exn"

fun of_ckpt_exn :: "ckpt_exn \<Rightarrow> runner_exn" where
  "of_ckpt_exn (Own e) = Own (Ckpt_failure e)"
| "of_ckpt_exn (Py e) = Py e"

fun of_mux_exn :: "mux_exn \<Rightarrow> runner_exn" where
  "of_mux_exn (Own e) = Own (Mux_failure e)"
| "of_mux_exn (Py e) = Py e"

datatype runner_effect = Write_ckpt runner_ckpt | Kill_process string | Terminate_orphans
  | Terminate_process string | Initialize_task | Finalize_task | Rebind string "int option" "rat option"
  | Fork string

datatype which_plan = Regular | Finalizing

record runner =
  tk_state :: runner_state
  tk_regular :: task_planner
  tk_finalizing :: task_planner
  tk_plan :: "which_plan option"
  tk_known :: "string list"
  tk_processes :: "string \<Rightarrow> int option"
  tk_watcher :: muxer
  tk_recovery :: bool
  tk_terminal_state :: "task_state option"
  tk_finalization_start :: "rat option"
  tk_preemption_deadline :: "rat option"
  tk_max_failures :: int
  tk_max_concurrency :: int
  tk_finalization_wait :: rat
  tk_effects :: "runner_effect list"

type_synonym runner_out = "runner \<times> runner_exn option"

definition effect :: "runner \<Rightarrow> runner_effect \<Rightarrow> runner" where
  "effect r e = r\<lparr>tk_effects := tk_effects r @ [e]\<rparr>"

definition plan_of :: "runner \<Rightarrow> which_plan \<Rightarrow> task_planner" where
  "plan_of r w = (case w of Regular \<Rightarrow> tk_regular r | Finalizing \<Rightarrow> tk_finalizing r)"

definition set_plan :: "runner \<Rightarrow> which_plan \<Rightarrow> task_planner \<Rightarrow> runner" where
  "set_plan r w tp = (case w of Regular \<Rightarrow> r\<lparr>tk_regular := tp\<rparr> | Finalizing \<Rightarrow> r\<lparr>tk_finalizing := tp\<rparr>)"

text \<open>A method call on \<^verbatim>\<open>self._runner._plan\<close>, which is \<^verbatim>\<open>None\<close> until the task is active.\<close>

definition on_plan :: "runner \<Rightarrow> (task_planner \<Rightarrow> task_planner outcome) \<Rightarrow> runner_out" where
  "on_plan r f =
     (case tk_plan r of
        None \<Rightarrow> (r, Some (Py AttributeError))
      | Some w \<Rightarrow> (case f (plan_of r w) of (tp, e) \<Rightarrow> (set_plan r w tp, map_option Py e)))"

definition on_watcher :: "runner \<Rightarrow> (muxer \<Rightarrow> muxer \<times> mux_exn option) \<Rightarrow> runner_out" where
  "on_watcher r f = (case f (tk_watcher r) of (m, e) \<Rightarrow> (r\<lparr>tk_watcher := m\<rparr>, map_option of_mux_exn e))"

definition pop_process :: "runner \<Rightarrow> string \<Rightarrow> runner_out" where
  "pop_process r n =
     (case tk_processes r n of
        None \<Rightarrow> (r, Some (Py KeyError))
      | Some _ \<Rightarrow> (r\<lparr>tk_processes := (tk_processes r)(n := None)\<rparr>, None))"

section \<open>Process handlers\<close>

definition handle_waiting :: "runner \<Rightarrow> string \<Rightarrow> int \<Rightarrow> runner_out" where
  "handle_waiting r n seq =
     (if n \<notin> set (tk_known r) then (r, Some (Own Internal_error))
      else on_watcher (r\<lparr>tk_processes := (tk_processes r)(n \<mapsto> seq + 1)\<rparr>)
             (\<lambda>m. mux_register m n (seq - 1)))"

definition handle_forked :: "runner \<Rightarrow> string \<Rightarrow> int option \<Rightarrow> rat option \<Rightarrow> runner_out" where
  "handle_forked r n coordinator_pid fork_time =
     (case tk_processes r n of
        None \<Rightarrow> (r, Some (Py KeyError))
      | Some _ \<Rightarrow> on_plan (effect r (Rebind n coordinator_pid fork_time)) (\<lambda>tp. tp_set_running tp n))"

definition handle_running :: "runner \<Rightarrow> string \<Rightarrow> runner_out" where
  "handle_running r n = on_plan r (\<lambda>tp. tp_set_running tp n)"

definition process_cleanup :: "runner \<Rightarrow> string \<Rightarrow> runner" where
  "process_cleanup r n = (if tk_recovery r then r else effect r (Kill_process n))"

definition forget_process :: "runner \<Rightarrow> string \<Rightarrow> runner_out" where
  "forget_process r n =
     then_do (pop_process (process_cleanup r n) n) (\<lambda>r. on_watcher r (\<lambda>m. mux_unregister m n))"

definition handle_success :: "runner \<Rightarrow> string \<Rightarrow> rat \<Rightarrow> runner_out" where
  "handle_success r n now = then_do (forget_process r n) (\<lambda>r. on_plan r (\<lambda>tp. add_success tp n now))"

definition handle_failed :: "runner \<Rightarrow> string \<Rightarrow> rat \<Rightarrow> runner_out" where
  "handle_failed r n now = then_do (forget_process r n) (\<lambda>r. on_plan r (\<lambda>tp. add_failure tp n now))"

definition handle_lost :: "runner \<Rightarrow> string \<Rightarrow> rat \<Rightarrow> runner_out" where
  "handle_lost r n now = then_do (forget_process r n) (\<lambda>r. on_plan r (\<lambda>tp. lost tp n now))"

definition handle_killed :: "runner \<Rightarrow> string \<Rightarrow> rat \<Rightarrow> runner_out" where
  "handle_killed r n now = then_do (forget_process r n) (\<lambda>r. on_plan r (\<lambda>tp. lost tp n now))"

text \<open>The handlers of one process transition: the universal handler writes the checkpoint,
  then the handler of the state runs.\<close>

definition handle_process :: "runner \<Rightarrow> rat \<Rightarrow> process_state \<Rightarrow> string \<Rightarrow> process_status \<Rightarrow> runner_out" where
  "handle_process r now s n u =
     (case s of
        P_WAITING \<Rightarrow> handle_waiting r n (seq_of u)
      | P_FORKED \<Rightarrow> handle_forked r n (ps_coordinator_pid u) (ps_fork_time u)
      | P_RUNNING \<Rightarrow> handle_running r n
      | P_SUCCESS \<Rightarrow> handle_success r n now
      | P_FAILED \<Rightarrow> handle_failed r n now
      | P_LOST \<Rightarrow> handle_lost r n now
      | P_KILLED \<Rightarrow> handle_killed r n now)"

definition ckpt_write :: "runner \<Rightarrow> runner_ckpt \<Rightarrow> runner" where
  "ckpt_write r rc = (if tk_recovery r then r else effect r (Write_ckpt rc))"

definition runner_dispatcher :: "unit dispatcher" where
  "runner_dispatcher = \<lparr>d_task = [()], d_process = [()], d_universal = [()]\<rparr>"

fun handle_process_event :: "rat \<Rightarrow> unit event \<Rightarrow> runner \<Rightarrow> runner_out" where
  "handle_process_event now (On_process_transition _ _ u) r = (ckpt_write r (process_ckpt u), None)"
| "handle_process_event now (On_process _ s u) r =
     (case ps_process u of
        None \<Rightarrow> (r, Some (if s = P_WAITING then Own Internal_error else Py KeyError))
      | Some n \<Rightarrow> handle_process r now s n u)"
| "handle_process_event now _ r = (r, None)"

fun handle_events :: "('ev \<Rightarrow> runner \<Rightarrow> runner_out) \<Rightarrow> 'ev list \<Rightarrow> runner \<Rightarrow> runner_out" where
  "handle_events h [] r = (r, None)"
| "handle_events h (e # es) r = then_do (h e r) (handle_events h es)"

text \<open>\<^verbatim>\<open>dispatch\<close> of a process update with the runner's handlers.\<close>

definition dispatch_update :: "runner \<Rightarrow> rat \<Rightarrow> bool \<Rightarrow> process_status \<Rightarrow> runner_out" where
  "dispatch_update r now recovery u =
     (case dispatch runner_dispatcher recovery False (tk_state r) (process_ckpt u) of
        (st, ev, e) \<Rightarrow>
          then_do (handle_events (handle_process_event now) ev (r\<lparr>tk_state := st\<rparr>))
            (\<lambda>r. (r, map_option of_ckpt_exn e)))"

definition current_process_run :: "runner \<Rightarrow> string \<Rightarrow> process_status option" where
  "current_process_run r n = current_run (tk_state r) (Some n)"

text \<open>\<^verbatim>\<open>_set_process_status\<close> without a forced sequence number; \<open>extra\<close> are the further
  fields of the update.\<close>

definition set_process_status :: "runner \<Rightarrow> rat \<Rightarrow> string \<Rightarrow> process_state \<Rightarrow> process_status \<Rightarrow> runner_out" where
  "set_process_status r now n s extra =
     (case (case current_process_run r n of
              None \<Rightarrow> if s = P_WAITING then Inr 0 else Inl (Py AssertionError)
            | Some cur \<Rightarrow> (case ps_seq cur of None \<Rightarrow> Inl (Py TypeError) | Some k \<Rightarrow> Inr (k + 1))) of
        Inl e \<Rightarrow> (r, Some e)
      | Inr seq \<Rightarrow> dispatch_update r now (tk_recovery r)
          (extra\<lparr>ps_process := Some n, ps_state := Some s, ps_seq := Some seq\<rparr>))"

section \<open>Killing\<close>

text \<open>The scan of the process tree: per process the live coordinator, the live pid and whether
  there are further pids.\<close>

type_synonym tree_scan = "(string \<times> int option \<times> int option \<times> int list) list"

definition has_pids :: "int option \<times> int option \<times> int list \<Rightarrow> bool" where
  "has_pids t = (case t of (coordinator, pid, tree) \<Rightarrow>
     (coordinator \<noteq> None \<and> coordinator \<noteq> Some 0) \<or> (pid \<noteq> None \<and> pid \<noteq> Some 0) \<or> tree \<noteq> [])"

definition kill_one :: "rat \<Rightarrow> string \<times> int option \<times> int option \<times> int list \<Rightarrow> runner \<Rightarrow> runner_out" where
  "kill_one now p r =
     (case p of (n, pids) \<Rightarrow>
        (case current_process_run r n of
           None \<Rightarrow> (r, Some (Py AttributeError))
         | Some cur \<Rightarrow>
             (if terminal_process_state (ps_state cur) then (effect r (Kill_process n), None)
              else if has_pids pids then
                set_process_status r now n P_KILLED
                  (empty_status\<lparr>ps_stop_time := Some now, ps_return_code := Some (-1)\<rparr>)
              else if ps_state cur \<noteq> Some P_WAITING then set_process_status r now n P_LOST empty_status
              else (r, None))))"

definition kill_all :: "rat \<Rightarrow> tree_scan \<Rightarrow> runner \<Rightarrow> runner_out" where
  "kill_all now scan r = handle_events (kill_one now) scan r"

definition terminate_plan :: "runner \<Rightarrow> which_plan \<Rightarrow> string list \<Rightarrow> runner" where
  "terminate_plan r w running =
     (let r1 = effect r Terminate_orphans in
      foldl (\<lambda>r n. case current_process_run r n of
                     None \<Rightarrow> r
                   | Some cur \<Rightarrow> (if ps_state cur \<in> {Some P_FORKED, Some P_RUNNING}
                                  then effect r (Terminate_process n) else r)) r1 running)"

section \<open>Task handlers\<close>

definition task_cleanup :: "rat \<Rightarrow> tree_scan \<Rightarrow> runner \<Rightarrow> runner_out" where
  "task_cleanup now scan r =
     (if tk_recovery r then (r, None)
      else then_do (kill_all now scan r) (\<lambda>r. (effect r Finalize_task, None)))"

text \<open>\<open>running\<close> is the iteration order of the regular plan's running set.\<close>

definition handle_task :: "rat \<Rightarrow> tree_scan \<Rightarrow> string list \<Rightarrow> task_state \<Rightarrow> task_status \<Rightarrow> runner \<Rightarrow> runner_out" where
  "handle_task now scan running s t r =
     (let start = (case ts_timestamp_ms t of None \<Rightarrow> Inl (Py TypeError) | Some ms \<Rightarrow> Inr (of_int ms / 1000)) in
      case s of
        T_ACTIVE \<Rightarrow>
          (let r1 = r\<lparr>tk_plan := Some Regular\<rparr> in
           (if tk_recovery r1 then r1 else effect r1 Initialize_task, None))
      | T_CLEANING \<Rightarrow>
          (case start of Inl e \<Rightarrow> (r, Some e)
           | Inr ts \<Rightarrow> (terminate_plan (r\<lparr>tk_finalization_start := Some ts\<rparr>) Regular running, None))
      | T_FINALIZING \<Rightarrow>
          then_do (if tk_recovery r then (r, None) else kill_all now scan r)
            (\<lambda>r. let r1 = r\<lparr>tk_plan := Some Finalizing\<rparr> in
               if tk_finalization_start r1 \<noteq> None then (r1, None)
               else case start of Inl e \<Rightarrow> (r1, Some e)
                    | Inr ts \<Rightarrow> (r1\<lparr>tk_finalization_start := Some ts\<rparr>, None))
      | _ \<Rightarrow> task_cleanup now scan r)"

fun handle_task_event :: "rat \<Rightarrow> tree_scan \<Rightarrow> string list \<Rightarrow> unit event \<Rightarrow> runner \<Rightarrow> runner_out" where
  "handle_task_event now scan running (On_task_transition _ _ t) r = (ckpt_write r (task_ckpt t), None)"
| "handle_task_event now scan running (On_task _ s t) r = handle_task now scan running s t r"
| "handle_task_event now scan running _ r = (r, None)"

text \<open>\<^verbatim>\<open>_set_task_status\<close>: the status is dispatched with the handlers above.\<close>

definition set_task_status :: "runner \<Rightarrow> rat \<Rightarrow> int \<Rightarrow> int \<Rightarrow> tree_scan \<Rightarrow> string list \<Rightarrow> task_state \<Rightarrow> runner_out" where
  "set_task_status r now pid uid scan running s =
     (let t = \<lparr>ts_state = Some s, ts_timestamp_ms = Some \<lfloor>now * 1000\<rfloor>, ts_runner_pid = Some pid,
               ts_runner_uid = Some uid\<rparr> in
      case dispatch runner_dispatcher (tk_recovery r) False (tk_state r) (task_ckpt t) of
        (st, ev, e) \<Rightarrow>
          then_do (handle_events (handle_task_event now scan running) ev (r\<lparr>tk_state := st\<rparr>))
            (\<lambda>r. (r, map_option of_ckpt_exn e)))"

section \<open>Health and deadlines\<close>

definition task_state_of :: "runner \<Rightarrow> task_state option" where
  "task_state_of r =
     (case rs_statuses (tk_state r) of Some (s # ss) \<Rightarrow> ts_state (last (s # ss)) | _ \<Rightarrow> Some T_ACTIVE)"

definition terminal_task_state :: "task_state option \<Rightarrow> bool" where
  "terminal_task_state s = (s \<in> {Some T_SUCCESS, Some T_FAILED, Some T_KILLED, Some T_LOST})"

definition deadlocked :: "task_planner \<Rightarrow> rat \<Rightarrow> pyexc + bool" where
  "deadlocked tp now =
     rbind (runnable_at tp now) (\<lambda>runnable. rbind (waiting_at tp now) (\<lambda>waiting.
       Inr (pl_running (tp_planner tp) = {} \<and> runnable = [] \<and> waiting = [] \<and> \<not> tp_is_complete tp)))"

definition is_healthy :: "runner \<Rightarrow> rat \<Rightarrow> pyexc + bool" where
  "is_healthy r now =
     rbind (deadlocked (tk_regular r) now) (\<lambda>dead.
       Inr (\<not> dead \<and> (tk_max_failures r = 0 \<or>
              int (card (pl_failed (tp_planner (tk_regular r)))) < tk_max_failures r)))"

definition finalization_remaining :: "runner \<Rightarrow> rat \<Rightarrow> rat" where
  "finalization_remaining r now =
     (case tk_preemption_deadline r of
        Some d \<Rightarrow> if d \<noteq> 0 then max 0 (d - now)
                  else (case tk_finalization_start r of None \<Rightarrow> plan_infinity
                        | Some s \<Rightarrow> max 0 (tk_finalization_wait r - max 0 (now - s)))
      | None \<Rightarrow> (case tk_finalization_start r of None \<Rightarrow> plan_infinity
                  | Some s \<Rightarrow> max 0 (tk_finalization_wait r - max 0 (now - s))))"

definition runner_terminal_state :: "runner \<Rightarrow> rat \<Rightarrow> pyexc + task_state" where
  "runner_terminal_state r now =
     (case tk_terminal_state r of
        Some s \<Rightarrow> if s \<noteq> T_ACTIVE then Inr s
                  else rbind (is_healthy r now) (\<lambda>h. Inr (if h then T_SUCCESS else T_FAILED))
      | None \<Rightarrow> rbind (is_healthy r now) (\<lambda>h. Inr (if h then T_SUCCESS else T_FAILED)))"

definition lost_timeout :: rat where
  "lost_timeout = 60"

text \<open>\<open>coordinator\<close> is the live coordinator of the scan, \<open>has_data\<close> the muxer's answer.\<close>

definition is_process_lost :: "runner \<Rightarrow> rat \<Rightarrow> int option \<Rightarrow> (runner_failure, bool) res \<Rightarrow> string
    \<Rightarrow> (runner_failure, bool) res" where
  "is_process_lost r now coordinator has_data n =
     (case current_process_run r n of
        None \<Rightarrow> Inl (Own Internal_error)
      | Some cur \<Rightarrow>
          (if ps_state cur = Some P_FORKED then
             (case ps_fork_time cur of None \<Rightarrow> Inl (Py TypeError)
              | Some t \<Rightarrow> Inr (now - t > lost_timeout))
           else if ps_state cur \<noteq> Some P_RUNNING then Inr False
           else if coordinator \<noteq> None then Inr False
           else rbind has_data (\<lambda>b. Inr (\<not> b))))"

section \<open>The scheduling pass\<close>

text \<open>\<open>is_lost n\<close> is the answer of \<^verbatim>\<open>is_process_lost\<close> for a running process.\<close>

definition mark_lost :: "rat \<Rightarrow> (runner \<Rightarrow> string \<Rightarrow> (runner_failure, bool) res) \<Rightarrow> string \<Rightarrow> runner \<Rightarrow> runner_out" where
  "mark_lost now is_lost n r =
     (case is_lost r n of
        Inl e \<Rightarrow> (r, Some e)
      | Inr False \<Rightarrow> (r, None)
      | Inr True \<Rightarrow> set_process_status r now n P_LOST empty_status)"

definition pick_processes :: "int \<Rightarrow> nat \<Rightarrow> string list \<Rightarrow> string list" where
  "pick_processes max_concurrency running names =
     (if max_concurrency = 0 then names
      else take (nat (max (max_concurrency - int running) 0)) names)"

text \<open>\<open>starts n\<close> is whether \<^verbatim>\<open>Process.start\<close> succeeds in the parent; its errors mark the
  process failed.\<close>

definition launch_one :: "rat \<Rightarrow> (string \<Rightarrow> bool) \<Rightarrow> string \<Rightarrow> runner \<Rightarrow> runner_out" where
  "launch_one now starts n r =
     then_do
       (case tk_processes r n of
          Some _ \<Rightarrow>
            (case current_process_run r n of
               None \<Rightarrow> (r, Some (Py AttributeError))
             | Some cur \<Rightarrow> if ps_state cur = Some P_WAITING then (r, None)
                           else (r, Some (Py AssertionError)))
        | None \<Rightarrow> set_process_status r now n P_WAITING empty_status)
       (\<lambda>r. if starts n then (effect r (Fork n), None)
            else set_process_status r now n P_FAILED empty_status)"

text \<open>\<^verbatim>\<open>_run_plan\<close>: the runner, the exception, and whether anything was launched.  \<open>running\<close>
  is the iteration order of the plan's running set; a set of runnable processes is taken in the
  order of the plan's process list.\<close>

definition run_plan :: "runner \<Rightarrow> which_plan \<Rightarrow> rat \<Rightarrow> (runner \<Rightarrow> string \<Rightarrow> (runner_failure, bool) res)
    \<Rightarrow> (string \<Rightarrow> bool) \<Rightarrow> string list \<Rightarrow> runner_out \<times> bool" where
  "run_plan r w now is_lost starts running =
     (case handle_events (mark_lost now is_lost) running r of
        (r1, Some e) \<Rightarrow> ((r1, Some e), False)
      | (r1, None) \<Rightarrow>
          (case runnable_at (plan_of r1 w) now of
             Inl e \<Rightarrow> ((r1, Some (Py e)), False)
           | Inr runnable \<Rightarrow>
               let picked = pick_processes (tk_max_concurrency r1) (length running) runnable
               in (handle_events (launch_one now starts) picked r1, list_ex starts picked)))"

section \<open>Stages\<close>

definition active_wait :: "runner \<Rightarrow> rat \<Rightarrow> bool \<Rightarrow> pyexc + rat option" where
  "active_wait r now launched =
     rbind (is_healthy r now) (\<lambda>healthy.
       if tp_is_complete (tk_regular r) then Inr None
       else if \<not> healthy then Inr None
       else rbind (min_wait (tk_regular r) now) (\<lambda>w.
              Inr (Some (if launched then max 1 w else min 15 w))))"

definition cleaning_wait :: "runner \<Rightarrow> rat \<Rightarrow> bool \<Rightarrow> rat option" where
  "cleaning_wait r now has_running =
     (if finalization_remaining r now > 0 \<and> has_running
      then Some (min (finalization_remaining r now) 1) else None)"

definition finalizing_wait :: "runner \<Rightarrow> rat \<Rightarrow> pyexc + rat option" where
  "finalizing_wait r now =
     rbind (deadlocked (tk_finalizing r) now) (\<lambda>dead.
       if dead then Inr None
       else if finalization_remaining r now > 0 \<and> \<not> tp_is_complete (tk_finalizing r)
            then Inr (Some (min (finalization_remaining r now) 1)) else Inr None)"

definition transition_to :: "runner \<Rightarrow> rat \<Rightarrow> task_state \<Rightarrow> pyexc + task_state" where
  "transition_to r now s =
     (case s of
        T_ACTIVE \<Rightarrow> Inr T_CLEANING
      | T_CLEANING \<Rightarrow>
          (if finalization_remaining r now \<le> 0 then runner_terminal_state r now else Inr T_FINALIZING)
      | T_FINALIZING \<Rightarrow> runner_terminal_state r now
      | _ \<Rightarrow> Inl KeyError)"

section \<open>Updates from the processes\<close>

definition dispatch_all :: "rat \<Rightarrow> process_status list \<Rightarrow> runner \<Rightarrow> runner_out" where
  "dispatch_all now us r = handle_events (\<lambda>u r. dispatch_update r now (tk_recovery r) u) us r"

definition has_active_processes :: "runner \<Rightarrow> string list \<Rightarrow> bool" where
  "has_active_processes r names =
     list_ex (\<lambda>n. case current_process_run r n of None \<Rightarrow> False
                   | Some cur \<Rightarrow> \<not> terminal_process_state (ps_state cur)) names"

text \<open>The loop of \<^verbatim>\<open>collect_updates\<close>: one batch of updates per \<^verbatim>\<open>select\<close>, one second apart.\<close>

fun collect_loop :: "rat \<Rightarrow> rat option \<Rightarrow> rat \<Rightarrow> process_status list list \<Rightarrow> runner \<Rightarrow> runner_out \<times> nat" where
  "collect_loop now timeout waited [] r = ((r, None), 0)"
| "collect_loop now timeout waited (us # batches) r =
     (case dispatch_all now us r of
        (r', Some e) \<Rightarrow> ((r', Some e), 0)
      | (r', None) \<Rightarrow>
          (if us \<noteq> [] then ((r', None), length us)
           else if (case timeout of None \<Rightarrow> False | Some t \<Rightarrow> waited \<ge> t) then ((r', None), 0)
           else collect_loop now timeout (waited + 1) batches r'))"

text \<open>\<^verbatim>\<open>_replay_process_ckpts\<close>: updates that would change the state are returned, the others are
  dispatched in recovery mode.\<close>

fun replay_process_ckpts :: "rat \<Rightarrow> process_status list \<Rightarrow> runner \<Rightarrow> runner_out \<times> process_status list" where
  "replay_process_ckpts now [] r = ((r, None), [])"
| "replay_process_ckpts now (u # us) r =
     (case would_update (tk_state r) (process_ckpt u) of
        Inl e \<Rightarrow> ((r, Some (of_ckpt_exn e)), [])
      | Inr True \<Rightarrow> (case replay_process_ckpts now us r of (out, rest) \<Rightarrow> (out, u # rest))
      | Inr False \<Rightarrow>
          (case dispatch_update r now True u of
             (r', Some e) \<Rightarrow> ((r', Some e), [])
           | (r', None) \<Rightarrow> replay_process_ckpts now us r'))"

section \<open>Logger configuration\<close>

record logger_config =
  lg_destination :: string
  lg_mode :: string
  lg_rotate :: "(int \<times> int) option"

text \<open>\<^verbatim>\<open>_build_process_logger_args\<close>: the process's logger wins over the flags, the flags over
  the defaults; a size and a number of backups are given only in rotate mode.  Sizes are in bytes.\<close>

definition logger_args :: "string \<Rightarrow> string \<Rightarrow> int \<Rightarrow> int \<Rightarrow> string option \<Rightarrow> string option \<Rightarrow> int option
    \<Rightarrow> int option \<Rightarrow> logger_config option \<Rightarrow> string \<times> string \<times> int option \<times> int option" where
  "logger_args def_dest def_mode def_size def_backups flag_dest flag_mode flag_mb flag_backups logger =
     (let given = (\<lambda>(f :: string option) d. case f of Some v \<Rightarrow> if v = [] then d else v | None \<Rightarrow> d);
          dest = (case logger of None \<Rightarrow> given flag_dest def_dest | Some l \<Rightarrow> lg_destination l);
          mode = (case logger of None \<Rightarrow> given flag_mode def_mode | Some l \<Rightarrow> lg_mode l)
      in if mode \<noteq> ''rotate'' then (dest, mode, None, None)
         else case logger of
                None \<Rightarrow>
                  (dest, mode,
                   Some (case flag_mb of Some mb \<Rightarrow> if mb = 0 then def_size else mb * 1048576 | None \<Rightarrow> def_size),
                   Some (case flag_backups of Some b \<Rightarrow> if b = 0 then def_backups else b | None \<Rightarrow> def_backups))
              | Some l \<Rightarrow>
                  (case lg_rotate l of
                     None \<Rightarrow> (dest, mode, Some def_size, Some def_backups)
                   | Some (sz, backups) \<Rightarrow> (dest, mode, Some sz, Some backups)))"

section \<open>The runner's tables follow the checkpointed state\<close>

definition run_state :: "runner \<Rightarrow> string \<Rightarrow> process_state option" where
  "run_state r n = (case current_process_run r n of None \<Rightarrow> None | Some p \<Rightarrow> ps_state p)"

definition live_run :: "process_state option \<Rightarrow> bool" where
  "live_run s = (s \<in> {Some P_WAITING, Some P_FORKED, Some P_RUNNING})"

definition synced :: "runner \<Rightarrow> bool" where
  "synced r =
     (case tk_plan r of
        None \<Rightarrow> False
      | Some w \<Rightarrow>
          state_ok (tk_state r) \<and> tp_ok (plan_of r w) \<and> mux_ok (tk_watcher r) \<and>
          (\<forall>n. (n \<in> pl_running (tp_planner (plan_of r w)) \<longleftrightarrow> run_state r n \<in> {Some P_FORKED, Some P_RUNNING}) \<and>
               (n \<in> fst ` set (mx_processes (tk_watcher r)) \<longleftrightarrow> live_run (run_state r n)) \<and>
               (tk_processes r n \<noteq> None \<longleftrightarrow> live_run (run_state r n))))"

lemma plan_ops_running:
  assumes "tp_ok tp" "p \<in> pl_running (tp_planner tp)"
  shows "\<exists>tp'. add_success tp p now = (tp', None) \<and> tp_ok tp' \<and>
      pl_running (tp_planner tp') = pl_running (tp_planner tp) - {p}"
    "\<exists>tp'. add_failure tp p now = (tp', None) \<and> tp_ok tp' \<and>
      pl_running (tp_planner tp') = pl_running (tp_planner tp) - {p}"
    "\<exists>tp'. lost tp p now = (tp', None) \<and> tp_ok tp' \<and>
      pl_running (tp_planner tp') = pl_running (tp_planner tp) - {p}"
    "\<exists>tp'. tp_set_running tp p = (tp', None) \<and> tp_ok tp' \<and>
      pl_running (tp_planner tp') = pl_running (tp_planner tp)"
proof -
  have "pl_ok (tp_planner tp)" using assms(1) by simp
  then have p: "p \<in> set (pl_processes (tp_planner tp))" "p \<notin> pl_finished (tp_planner tp)"
    "p \<notin> pl_failed (tp_planner tp)"
    using assms(2) unfolding pl_ok_def by auto
  then obtain a where a: "tp_attributes tp p = Some a"
    using assms(1) unfolding tp_ok_def by auto
  have ok: "tp_ok (fst (plan_step tp op))" for op using assms(1) by (rule plan_step_ok)
  show "\<exists>tp'. add_success tp p now = (tp', None) \<and> tp_ok tp' \<and>
      pl_running (tp_planner tp') = pl_running (tp_planner tp) - {p}"
    using ok [of "Add_success p now"] p a assms(2)
    by (auto simp: transitions on_planner_def pl_reset_def pl_set_finished_def pl_set_failed_def
        checked_def split: if_splits)
  show "\<exists>tp'. add_failure tp p now = (tp', None) \<and> tp_ok tp' \<and>
      pl_running (tp_planner tp') = pl_running (tp_planner tp) - {p}"
    using ok [of "Add_failure p now"] p a assms(2)
    by (auto simp: transitions on_planner_def pl_reset_def pl_set_finished_def pl_set_failed_def
        checked_def split: if_splits)
  show "\<exists>tp'. lost tp p now = (tp', None) \<and> tp_ok tp' \<and>
      pl_running (tp_planner tp') = pl_running (tp_planner tp) - {p}"
    using ok [of "Lost p now"] p a assms(2)
    by (auto simp: transitions on_planner_def pl_reset_def pl_set_failed_def checked_def split: if_splits)
  show "\<exists>tp'. tp_set_running tp p = (tp', None) \<and> tp_ok tp' \<and>
      pl_running (tp_planner tp') = pl_running (tp_planner tp)"
    using ok [of "Set_running p"] p assms(2)
    by (auto simp: tp_set_running_def on_planner_def pl_set_running_def checked_def)
qed

lemma plan_start_runnable:
  assumes "tp_ok tp" "p \<in> set (pl_runnable (tp_planner tp))"
  shows "\<exists>tp'. tp_set_running tp p = (tp', None) \<and> tp_ok tp' \<and>
      pl_running (tp_planner tp') = insert p (pl_running (tp_planner tp))"
  using plan_step_ok [OF assms(1), of "Set_running p"] assms(2)
  by (auto simp: tp_set_running_def on_planner_def pl_set_running_def checked_def set_pl_runnable)

lemma plan_of_set_plan [simp]:
  "plan_of (set_plan r w tp) w = tp" "tk_plan (set_plan r w tp) = tk_plan r"
  "tk_state (set_plan r w tp) = tk_state r" "tk_watcher (set_plan r w tp) = tk_watcher r"
  "tk_processes (set_plan r w tp) = tk_processes r" "tk_known (set_plan r w tp) = tk_known r"
  "tk_recovery (set_plan r w tp) = tk_recovery r"
  by (cases w; simp add: plan_of_def set_plan_def)+

lemma plan_of_update [simp]:
  "plan_of (r\<lparr>tk_watcher := m\<rparr>) w = plan_of r w"
  "plan_of (r\<lparr>tk_processes := f\<rparr>) w = plan_of r w"
  "plan_of (r\<lparr>tk_state := st\<rparr>) w = plan_of r w"
  "plan_of (r\<lparr>tk_effects := ef\<rparr>) w = plan_of r w"
  by (cases w; simp add: plan_of_def)+

lemma effect_simps [simp]:
  "tk_plan (effect r e) = tk_plan r" "tk_state (effect r e) = tk_state r"
  "tk_watcher (effect r e) = tk_watcher r" "tk_processes (effect r e) = tk_processes r"
  "tk_known (effect r e) = tk_known r" "plan_of (effect r e) w = plan_of r w"
  "tk_recovery (effect r e) = tk_recovery r"
  by (simp_all add: effect_def)

lemma write_simps [simp]:
  "tk_plan (ckpt_write r e) = tk_plan r" "tk_state (ckpt_write r e) = tk_state r"
  "tk_watcher (ckpt_write r e) = tk_watcher r" "tk_processes (ckpt_write r e) = tk_processes r"
  "tk_known (ckpt_write r e) = tk_known r" "plan_of (ckpt_write r e) w = plan_of r w"
  "tk_plan (process_cleanup r n) = tk_plan r" "tk_state (process_cleanup r n) = tk_state r"
  "tk_watcher (process_cleanup r n) = tk_watcher r" "tk_processes (process_cleanup r n) = tk_processes r"
  "tk_known (process_cleanup r n) = tk_known r" "plan_of (process_cleanup r n) w = plan_of r w"
  by (simp_all add: ckpt_write_def process_cleanup_def)

text \<open>The part of \<open>synced\<close> that the handlers change, for given run states.\<close>

definition tables_ok :: "runner \<Rightarrow> which_plan \<Rightarrow> (string \<Rightarrow> process_state option) \<Rightarrow> bool" where
  "tables_ok r w run =
     (tk_plan r = Some w \<and> tp_ok (plan_of r w) \<and> mux_ok (tk_watcher r) \<and>
      (\<forall>n. (n \<in> pl_running (tp_planner (plan_of r w)) \<longleftrightarrow> run n \<in> {Some P_FORKED, Some P_RUNNING}) \<and>
           (n \<in> fst ` set (mx_processes (tk_watcher r)) \<longleftrightarrow> live_run (run n)) \<and>
           (tk_processes r n \<noteq> None \<longleftrightarrow> live_run (run n))))"

lemma synced_tables:
  "synced r \<longleftrightarrow> (\<exists>w. state_ok (tk_state r) \<and> tables_ok r w (run_state r))"
  by (auto simp: synced_def tables_ok_def split: option.splits)

lemma watch_unregister_ok:
  assumes "mux_ok m" "n \<in> fst ` set (mx_processes m)"
  shows "\<exists>m'. mux_unregister m n = (m', None) \<and> mux_ok m' \<and>
    fst ` set (mx_processes m') = fst ` set (mx_processes m) - {n}"
proof -
  have "mux_ok (fst (mux_unregister m n))" using assms(1) by (rule mux_ok_unregister)
  then show ?thesis using assms(2) by (auto simp: mux_unregister_def)
qed

lemma watch_register_ok:
  assumes "mux_ok m" "n \<notin> fst ` set (mx_processes m)"
  shows "\<exists>m'. mux_register m n wm = (m', None) \<and> mux_ok m' \<and>
    fst ` set (mx_processes m') = insert n (fst ` set (mx_processes m))"
proof -
  have "mux_ok (fst (mux_register m n wm))" using assms(1) by (rule mux_ok_register)
  then show ?thesis using assms(2) by (auto simp: mux_register_def)
qed

lemma forget_ok:
  assumes t: "tables_ok r w run" and n: "live_run (run n)"
  shows "\<exists>r'. forget_process r n = (r', None) \<and> tk_state r' = tk_state r \<and> plan_of r' w = plan_of r w \<and>
    tk_plan r' = Some w \<and> mux_ok (tk_watcher r') \<and>
    fst ` set (mx_processes (tk_watcher r')) = fst ` set (mx_processes (tk_watcher r)) - {n} \<and>
    tk_processes r' = (tk_processes r)(n := None)"
proof -
  obtain k where k: "tk_processes r n = Some k" and m: "n \<in> fst ` set (mx_processes (tk_watcher r))"
    using t n by (auto simp: tables_ok_def)
  obtain m' where m': "mux_unregister (tk_watcher r) n = (m', None)" "mux_ok m'"
    "fst ` set (mx_processes m') = fst ` set (mx_processes (tk_watcher r)) - {n}"
    using watch_unregister_ok [OF _ m] t by (auto simp: tables_ok_def)
  then show ?thesis
    using k t by (simp add: forget_process_def pop_process_def on_watcher_def tables_ok_def)
qed

lemma finish_ok:
  assumes t: "tables_ok r w run" and n: "run n \<in> {Some P_FORKED, Some P_RUNNING}"
    and s: "\<not> live_run s"
    and op: "\<And>tp. tp_ok tp \<Longrightarrow> n \<in> pl_running (tp_planner tp) \<Longrightarrow> \<exists>tp'. f tp = (tp', None) \<and> tp_ok tp' \<and>
      pl_running (tp_planner tp') = pl_running (tp_planner tp) - {n}"
  shows "\<exists>r'. then_do (forget_process r n) (\<lambda>r. on_plan r f) = (r', None) \<and>
    tk_state r' = tk_state r \<and> tables_ok r' w (run(n := s))"
proof -
  obtain r1 where r1: "forget_process r n = (r1, None)" "tk_state r1 = tk_state r"
    "plan_of r1 w = plan_of r w" "tk_plan r1 = Some w" "mux_ok (tk_watcher r1)"
    "fst ` set (mx_processes (tk_watcher r1)) = fst ` set (mx_processes (tk_watcher r)) - {n}"
    "tk_processes r1 = (tk_processes r)(n := None)"
    using forget_ok [OF t, of n] n by (auto simp: live_run_def)
  have "tp_ok (plan_of r w)" "n \<in> pl_running (tp_planner (plan_of r w))"
    using t n by (auto simp: tables_ok_def)
  then obtain tp' where tp': "f (plan_of r w) = (tp', None)" "tp_ok tp'"
    "pl_running (tp_planner tp') = pl_running (tp_planner (plan_of r w)) - {n}"
    using op by blast
  have "s \<notin> {Some P_FORKED, Some P_RUNNING}" using s by (auto simp: live_run_def)
  then have "tables_ok (set_plan r1 w tp') w (run(n := s))"
    using r1 tp' t s by (auto simp: tables_ok_def)
  then show ?thesis using r1 tp' by (simp add: on_plan_def)
qed

lemma handle_process_ok:
  assumes t: "tables_ok r w run" and edge: "process_edge (run0) s"
    and run0: "run0 = (if s = P_WAITING then None else run n)"
    and wait: "s = P_WAITING \<longrightarrow> \<not> live_run (run n) \<and> n \<in> set (tk_known r)"
    and fork: "s = P_FORKED \<longrightarrow> n \<in> set (pl_runnable (tp_planner (plan_of r w)))"
    and fail: "\<not> (s = P_FAILED \<and> run n = Some P_WAITING)"
  shows "\<exists>r'. handle_process r now s n u = (r', None) \<and> tk_state r' = tk_state r \<and>
    tables_ok r' w (run(n := Some s))"
proof -
  have tp: "tp_ok (plan_of r w)" using t by (simp add: tables_ok_def)
  show ?thesis
  proof (cases s)
    case P_WAITING
    have out: "n \<notin> fst ` set (mx_processes (tk_watcher r))" using t wait P_WAITING by (simp add: tables_ok_def)
    obtain m' where "mux_register (tk_watcher r) n (seq_of u - 1) = (m', None)" "mux_ok m'"
      "fst ` set (mx_processes m') = insert n (fst ` set (mx_processes (tk_watcher r)))"
      using watch_register_ok [OF _ out, of "seq_of u - 1"] t by (auto simp: tables_ok_def)
    then show ?thesis
      using t wait P_WAITING
      by (auto simp: handle_process_def handle_waiting_def on_watcher_def tables_ok_def live_run_def)
  next
    case P_FORKED
    then have w0: "run n = Some P_WAITING" using edge run0 by simp
    then obtain k where "tk_processes r n = Some k" using t by (auto simp: tables_ok_def live_run_def)
    moreover obtain tp' where "tp_set_running (plan_of r w) n = (tp', None)" "tp_ok tp'"
      "pl_running (tp_planner tp') = insert n (pl_running (tp_planner (plan_of r w)))"
      using plan_start_runnable [OF tp] fork P_FORKED by blast
    ultimately show ?thesis
      using t w0 P_FORKED
      by (auto simp: handle_process_def handle_forked_def on_plan_def tables_ok_def live_run_def)
  next
    case P_RUNNING
    then have w0: "run n = Some P_FORKED" using edge run0 by simp
    then have "n \<in> pl_running (tp_planner (plan_of r w))" using t by (simp add: tables_ok_def)
    then obtain tp' where "tp_set_running (plan_of r w) n = (tp', None)" "tp_ok tp'"
      "pl_running (tp_planner tp') = pl_running (tp_planner (plan_of r w))"
      using plan_ops_running(4) [OF tp] by blast
    then show ?thesis
      using t w0 P_RUNNING
      by (auto simp: handle_process_def handle_running_def on_plan_def tables_ok_def live_run_def)
  next
    case P_SUCCESS
    then have "run n \<in> {Some P_FORKED, Some P_RUNNING}" using edge run0 by simp
    then show ?thesis
      using finish_ok [OF t, of n "Some P_SUCCESS" "\<lambda>tp. add_success tp n now"] plan_ops_running(1) P_SUCCESS
      by (simp add: handle_process_def handle_success_def live_run_def)
  next
    case P_FAILED
    then have "run n \<in> {Some P_FORKED, Some P_RUNNING}" using edge run0 fail by auto
    then show ?thesis
      using finish_ok [OF t, of n "Some P_FAILED" "\<lambda>tp. add_failure tp n now"] plan_ops_running(2) P_FAILED
      by (simp add: handle_process_def handle_failed_def live_run_def)
  next
    case P_LOST
    then have "run n \<in> {Some P_FORKED, Some P_RUNNING}" using edge run0 by auto
    then show ?thesis
      using finish_ok [OF t, of n "Some P_LOST" "\<lambda>tp. lost tp n now"] plan_ops_running(3) P_LOST
      by (simp add: handle_process_def handle_lost_def live_run_def)
  next
    case P_KILLED
    then have "run n \<in> {Some P_FORKED, Some P_RUNNING}" using edge run0 by auto
    then show ?thesis
      using finish_ok [OF t, of n "Some P_KILLED" "\<lambda>tp. lost tp n now"] plan_ops_running(3) P_KILLED
      by (simp add: handle_process_def handle_killed_def live_run_def)
  qed
qed

lemma run_process_dispatch_events:
  "run_process_dispatch runner_dispatcher (Some s) u = ([On_process_transition () (Some s) u, On_process () s u], None)"
  by (simp add: run_process_dispatch_def runner_dispatcher_def)

lemma run_state_put:
  assumes "ps_process u = Some n" "update_process_state p u = (c, None)" "ps_state u = Some s"
    "tk_state r = put_runs st (ps_process u) (set_last runs c)"
    "run0 = (\<lambda>n. case current_run st (Some n) of None \<Rightarrow> None | Some p \<Rightarrow> ps_state p)"
  shows "run_state r = run0(n := Some s)"
proof -
  have "ps_state c = Some s" using update_result [OF assms(2)] assms(3) by simp
  then show ?thesis
    using assms by (auto simp: run_state_def current_process_run_def current_run_def fun_eq_iff)
qed

lemma dispatch_update_synced:
  assumes "synced r" and u: "ps_process u = Some n" "ps_state u = Some s"
    and ok: "snd (snd (dispatch runner_dispatcher False False (tk_state r) (process_ckpt u))) = None"
    and wait: "s = P_WAITING \<Longrightarrow> n \<in> set (tk_known r)"
    and fork: "s = P_FORKED \<Longrightarrow> \<forall>w. tk_plan r = Some w \<longrightarrow> n \<in> set (pl_runnable (tp_planner (plan_of r w)))"
    and fail: "\<not> (s = P_FAILED \<and> run_state r n = Some P_WAITING)"
  shows "\<exists>r'. dispatch_update r now False u = (r', None) \<and> synced r' \<and>
    tk_state r' = fst (dispatch runner_dispatcher False False (tk_state r) (process_ckpt u))"
proof -
  obtain st' ev where D: "dispatch runner_dispatcher False False (tk_state r) (process_ckpt u) = (st', ev, None)"
    using ok by (metis prod.collapse)
  then have "dispatch_process runner_dispatcher False False (tk_state r) u = (st', ev, None)"
    by (simp add: dispatch_def process_ckpt_def)
  obtain w where w: "state_ok (tk_state r)" "tables_ok r w (run_state r)"
    using assms(1) by (auto simp: synced_tables)
  have st': "state_ok st'" using dispatch_state_ok [OF w(1) D] .
  show ?thesis
    using \<open>dispatch_process runner_dispatcher False False (tk_state r) u = (st', ev, None)\<close>
  proof (cases rule: dispatch_process_success)
    case (applied runs c)
    let ?r = "ckpt_write (r\<lparr>tk_state := st'\<rparr>) (process_ckpt u)"
    have edge: "process_edge (ps_state (last runs)) s"
      using update_accepts [of "last runs" u] applied(4) u(2) by auto
    have tgt: "if s = P_WAITING then ps_state (last runs) = None
         else current_run (tk_state r) (Some n) = Some (last runs)"
      using target_runs_state [OF w(1) applied(2)] u by (simp split: if_splits)
    have live: "s = P_WAITING \<longrightarrow> \<not> live_run (run_state r n)"
      using applied(2) u
      by (auto simp: target_runs_def run_state_def current_process_run_def is_terminal_def live_run_def
          terminal_process_state_def split: option.splits if_splits)
    have T: "tables_ok ?r w (run_state r)"
      using w(2) by (simp add: tables_ok_def)
    have "\<exists>r'. handle_process ?r now s n u = (r', None) \<and> tk_state r' = tk_state ?r \<and>
      tables_ok r' w ((run_state r)(n := Some s))"
    proof (rule handle_process_ok [OF T, of "ps_state (last runs)"])
      show "process_edge (ps_state (last runs)) s" by (rule edge)
      show "ps_state (last runs) = (if s = P_WAITING then None else run_state r n)"
        using tgt by (simp add: run_state_def current_process_run_def split: if_splits)
      show "s = P_WAITING \<longrightarrow> \<not> live_run (run_state r n) \<and> n \<in> set (tk_known ?r)"
        using live wait by simp
      show "s = P_FORKED \<longrightarrow> n \<in> set (pl_runnable (tp_planner (plan_of ?r w)))"
        using fork w(2) by (simp add: tables_ok_def)
      show "\<not> (s = P_FAILED \<and> run_state r n = Some P_WAITING)" by (rule fail)
    qed
    then obtain r' where r': "handle_process ?r now s n u = (r', None)" "tk_state r' = st'"
      "tables_ok r' w ((run_state r)(n := Some s))" by auto
    have ev: "ev = [On_process_transition () (Some s) u, On_process () s u]"
      using applied(6) u by (simp add: run_process_dispatch_events)
    have "run_state r' = (run_state r)(n := Some s)"
      by (rule run_state_put [OF u(1) applied(4) u(2)])
         (use r' applied(5) in \<open>auto simp: run_state_def current_process_run_def fun_eq_iff\<close>)
    then have "synced r'" using r' st' by (auto simp: synced_tables)
    moreover have "dispatch_update r now False u = (r', None)"
      using D r'(1) u by (simp add: dispatch_update_def ev)
    ultimately show ?thesis using D r'(2) by simp
  qed simp
qed

section \<open>The run loop and the kill path\<close>

text \<open>What one round of the loop gets from its surroundings.\<close>

record round =
  rd_now :: rat
  rd_pid :: int
  rd_uid :: int
  rd_is_lost :: "runner \<Rightarrow> string \<Rightarrow> (runner_failure, bool) res"
  rd_starts :: "string \<Rightarrow> bool"
  rd_running :: "string list"
  rd_names :: "string list"
  rd_has_running :: bool
  rd_scan :: tree_scan
  rd_batches :: "process_status list list"

definition staged :: "runner \<Rightarrow> pyexc + rat option \<Rightarrow> runner_out \<times> rat option" where
  "staged r w = (case w of Inl e \<Rightarrow> ((r, Some (Py e)), None) | Inr x \<Rightarrow> ((r, None), x))"

definition run_stage :: "round \<Rightarrow> task_state \<Rightarrow> runner \<Rightarrow> runner_out \<times> rat option" where
  "run_stage rd s r =
     (case s of
        T_ACTIVE \<Rightarrow>
          (case run_plan r Regular (rd_now rd) (rd_is_lost rd) (rd_starts rd) (rd_running rd) of
             ((r', Some e), _) \<Rightarrow> ((r', Some e), None)
           | ((r', None), launched) \<Rightarrow> staged r' (active_wait r' (rd_now rd) launched))
      | T_CLEANING \<Rightarrow> ((r, None), cleaning_wait r (rd_now rd) (rd_has_running rd))
      | T_FINALIZING \<Rightarrow>
          (case run_plan r Finalizing (rd_now rd) (rd_is_lost rd) (rd_starts rd) (rd_running rd) of
             ((r', Some e), _) \<Rightarrow> ((r', Some e), None)
           | ((r', None), _) \<Rightarrow> staged r' (finalizing_wait r' (rd_now rd)))
      | _ \<Rightarrow> ((r, Some (Py KeyError)), None))"

definition collect_updates :: "round \<Rightarrow> rat option \<Rightarrow> runner \<Rightarrow> runner_out \<times> nat" where
  "collect_updates rd timeout r =
     (if has_active_processes r (rd_names rd) then collect_loop (rd_now rd) timeout 0 (rd_batches rd) r
      else ((r, None), 0))"

definition round_status :: "round \<Rightarrow> task_state \<Rightarrow> runner \<Rightarrow> runner_out" where
  "round_status rd s r = set_task_status r (rd_now rd) (rd_pid rd) (rd_uid rd) (rd_scan rd) (rd_running rd) s"

text \<open>One turn of \<^verbatim>\<open>_run\<close> in a task that is not terminal.\<close>

definition run_round :: "round \<Rightarrow> runner \<Rightarrow> runner_out" where
  "run_round rd r =
     (case task_state_of r of
        None \<Rightarrow> (r, Some (Py KeyError))
      | Some s \<Rightarrow>
          (case run_stage rd s r of
             ((r1, Some e), _) \<Rightarrow> (r1, Some e)
           | ((r1, None), Some wait) \<Rightarrow> fst (collect_updates rd (Some wait) r1)
           | ((r1, None), None) \<Rightarrow>
               (case transition_to r1 (rd_now rd) s of
                  Inl e \<Rightarrow> (r1, Some (Py e))
                | Inr s' \<Rightarrow> round_status rd s' r1)))"

fun run_rounds :: "round list \<Rightarrow> runner \<Rightarrow> runner_out" where
  "run_rounds [] r = (r, None)"
| "run_rounds (rd # rds) r =
     (if terminal_task_state (task_state_of r) then (r, None)
      else then_do (run_round rd r) (run_rounds rds))"

text \<open>\<^verbatim>\<open>control\<close> up to its \<^verbatim>\<open>yield\<close>: \<open>opened\<close> is whether \<^verbatim>\<open>open_checkpoint\<close> got the lock,
  \<open>updates\<close> what the muxer selects, \<open>header\<close> the header written when there is none.\<close>

definition resume_task :: "rat \<Rightarrow> process_status list \<Rightarrow> runner_header \<Rightarrow> runner \<Rightarrow> runner_out" where
  "resume_task now updates header r =
     (case replay_process_ckpts now updates r of
        ((r1, Some e), _) \<Rightarrow> (r1, Some e)
      | ((r1, None), unapplied) \<Rightarrow>
          (if terminal_task_state (task_state_of r1) then (r1, Some (Own State_error))
           else let r2 = (if rs_header (tk_state r1) = None
                          then ckpt_write (r1\<lparr>tk_state := (tk_state r1)\<lparr>rs_header := Some header\<rparr>\<rparr>)
                                 \<lparr>rc_header = Some header, rc_process = None, rc_task = None\<rparr>
                          else r1)
                in handle_events (\<lambda>u r. dispatch_update r now False u) unapplied r2))"

definition take_control :: "round \<Rightarrow> bool \<Rightarrow> process_status list \<Rightarrow> runner_header \<Rightarrow> runner \<Rightarrow> runner_out" where
  "take_control rd opened updates header r =
     (if terminal_task_state (task_state_of r) then (r, Some (Own State_error))
      else if \<not> opened then (r, Some (Own Permission_error))
      else let r1 = r\<lparr>tk_recovery := False\<rparr> in
        then_do (case task_state_of r1 of None \<Rightarrow> (r1, Some (Py KeyError)) | Some s \<Rightarrow> round_status rd s r1)
          (resume_task (rd_now rd) updates header))"

text \<open>The body of \<^verbatim>\<open>kill\<close> under control; an exception there is logged and swallowed.\<close>

definition kill_body :: "round \<Rightarrow> task_state \<Rightarrow> round list \<Rightarrow> runner \<Rightarrow> runner_out" where
  "kill_body rd terminal rds r =
     (if terminal_task_state (task_state_of r) then (r, None)
      else let r1 = r\<lparr>tk_terminal_state := Some terminal\<rparr> in
        then_do (if task_state_of r1 = Some T_ACTIVE then round_status rd T_CLEANING r1 else (r1, None))
          (run_rounds rds))"

definition kill_task :: "round \<Rightarrow> bool \<Rightarrow> task_state \<Rightarrow> rat \<Rightarrow> process_status list \<Rightarrow> runner_header \<Rightarrow> round list
    \<Rightarrow> runner \<Rightarrow> runner_out" where
  "kill_task rd opened terminal preemption_wait updates header rds r =
     (if terminal \<notin> {T_KILLED, T_LOST} then (r, Some (Py AssertionError))
      else then_do (take_control rd opened updates header
                      (r\<lparr>tk_preemption_deadline := Some (rd_now rd + preemption_wait)\<rparr>))
             (\<lambda>r. (fst (kill_body rd terminal rds r), None)))"

definition lose_task :: "round \<Rightarrow> bool \<Rightarrow> process_status list \<Rightarrow> runner_header \<Rightarrow> round list \<Rightarrow> runner \<Rightarrow> runner_out" where
  "lose_task rd opened updates header rds r = kill_task rd opened T_LOST 0 updates header rds r"

definition run_task :: "round \<Rightarrow> bool \<Rightarrow> process_status list \<Rightarrow> runner_header \<Rightarrow> round list \<Rightarrow> runner \<Rightarrow> runner_out" where
  "run_task rd opened updates header rds r =
     (if terminal_task_state (task_state_of r) then (r, None)
      else then_do (take_control rd opened updates header r) (\<lambda>r. (fst (run_rounds rds r), None)))"

lemma fst_then_do: "f (fst (then_do x g)) = f (fst x)" if "\<And>s. f (fst (g s)) = f s"
  using that by (cases x; cases "snd x") auto

lemma on_plan_state [simp]: "tk_state (fst (on_plan r f)) = tk_state r"
  by (auto simp: on_plan_def split: option.splits prod.splits)

lemma on_watcher_state [simp]: "tk_state (fst (on_watcher r f)) = tk_state r"
  by (auto simp: on_watcher_def split: prod.splits)

lemma forget_state [simp]: "tk_state (fst (forget_process r n)) = tk_state r"
  by (auto simp: forget_process_def pop_process_def fst_then_do [where f = tk_state] split: option.splits)

lemma handle_process_state [simp]: "tk_state (fst (handle_process r now s n u)) = tk_state r"
  by (cases s)
     (auto simp: handle_process_def handle_waiting_def handle_forked_def handle_running_def handle_success_def
       handle_failed_def handle_lost_def handle_killed_def fst_then_do [where f = tk_state] split: option.splits)

lemma handle_process_event_state: "tk_state (fst (handle_process_event now e r)) = tk_state r"
  by (cases e) (auto split: option.splits)

lemma handle_events_keep:
  assumes "\<And>e r. f (fst (h e r)) = f r"
  shows "f (fst (handle_events h es r)) = f r"
proof (induction es arbitrary: r)
  case (Cons e es)
  obtain r1 x where h: "h e r = (r1, x)" by fastforce
  then have "f r1 = f r" using assms [of e r] by simp
  then show ?case using h Cons.IH by (cases x) auto
qed simp

lemma dispatch_update_statuses:
  "rs_statuses (tk_state (fst (dispatch_update r now rec u))) = rs_statuses (tk_state r)"
proof -
  obtain st ev e where D: "dispatch runner_dispatcher rec False (tk_state r) (process_ckpt u) = (st, ev, e)"
    by (metis prod.collapse)
  have "rs_statuses st = rs_statuses (tk_state r)"
    using D dispatch_process_statuses [of runner_dispatcher rec False "tk_state r" u]
    by (simp add: dispatch_def process_ckpt_def)
  moreover have "tk_state (fst (handle_events (handle_process_event now) ev (r\<lparr>tk_state := st\<rparr>))) = st"
    by (subst handle_events_keep [where f = tk_state]) (simp_all add: handle_process_event_state)
  ultimately show ?thesis
    using D by (simp add: dispatch_update_def fst_then_do [where f = tk_state])
qed

lemma set_process_status_statuses:
  "rs_statuses (tk_state (fst (set_process_status r now n s x))) = rs_statuses (tk_state r)"
  by (auto simp: set_process_status_def dispatch_update_statuses split: sum.splits)

lemma kill_all_statuses: "rs_statuses (tk_state (fst (kill_all now scan r))) = rs_statuses (tk_state r)"
  unfolding kill_all_def
  by (rule handle_events_keep [where f = "\<lambda>r. rs_statuses (tk_state r)"])
     (auto simp: kill_one_def set_process_status_statuses split: option.splits)

lemma terminate_plan_state: "tk_state (terminate_plan r w ns) = tk_state r"
proof -
  have "tk_state (foldl (\<lambda>r n. case current_process_run r n of None \<Rightarrow> r
      | Some cur \<Rightarrow> (if ps_state cur \<in> {Some P_FORKED, Some P_RUNNING}
                     then effect r (Terminate_process n) else r)) r ns) = tk_state r" for r
    by (induction ns arbitrary: r) (auto split: option.splits)
  then show ?thesis by (simp add: terminate_plan_def)
qed

lemma handle_task_statuses:
  "rs_statuses (tk_state (fst (handle_task now scan ns s t r))) = rs_statuses (tk_state r)"
proof -
  let ?f = "\<lambda>r. rs_statuses (tk_state r)"
  have K: "?f (fst (kill_all now scan r)) = ?f r" for r by (rule kill_all_statuses)
  have C: "?f (fst (task_cleanup now scan r)) = ?f r"
    by (auto simp: task_cleanup_def K fst_then_do [where f = ?f])
  show ?thesis
    by (cases s)
       (auto simp: handle_task_def C K Let_def terminate_plan_state fst_then_do [where f = ?f]
         split: option.splits sum.splits)
qed

lemma task_state_of_snoc: "rs_statuses (tk_state r) = Some (ss @ [t]) \<Longrightarrow> task_state_of r = ts_state t"
  by (cases ss) (auto simp: task_state_of_def)

lemma set_task_status_state:
  assumes "rs_statuses (tk_state r) \<noteq> Some []"
  shows "task_state_of (fst (set_task_status r now pid uid scan ns s)) = Some s"
proof -
  let ?f = "\<lambda>r. rs_statuses (tk_state r)"
  let ?t = "\<lparr>ts_state = Some s, ts_timestamp_ms = Some \<lfloor>now * 1000\<rfloor>, ts_runner_pid = Some pid,
               ts_runner_uid = Some uid\<rparr>"
  obtain st ev e where D: "dispatch runner_dispatcher (tk_recovery r) False (tk_state r) (task_ckpt ?t) = (st, ev, e)"
    by (metis prod.collapse)
  then obtain ss where ss: "rs_statuses st = Some (ss @ [?t])"
    using assms by (auto simp: dispatch_def task_ckpt_def dispatch_task_def Let_def)
  have "?f (fst (handle_task_event now scan ns e r)) = ?f r" for e r
    by (cases e) (auto simp: handle_task_statuses)
  then have "?f (fst (handle_events (handle_task_event now scan ns) ev (r\<lparr>tk_state := st\<rparr>))) = rs_statuses st"
    by (subst handle_events_keep [where f = ?f]) simp_all
  then have "?f (fst (set_task_status r now pid uid scan ns s)) = Some (ss @ [?t])"
    using D ss by (simp add: set_task_status_def Let_def fst_then_do [where f = ?f])
  then show ?thesis using task_state_of_snoc by fastforce
qed

lemma then_do_unit: "then_do x (\<lambda>r. (r, None)) = x"
  by (cases x; cases "snd x") auto

lemma then_do_nil: "then_do x (handle_events h []) = x"
  by (cases x; cases "snd x") auto

lemma accepted_update:
  assumes "state_ok (tk_state r)" and u: "ps_process u = Some n" "ps_state u = Some s"
    and ok: "snd (snd (dispatch runner_dispatcher False False (tk_state r) (process_ckpt u))) = None"
  obtains st' where
    "dispatch_update r now False u = handle_process (ckpt_write (r\<lparr>tk_state := st'\<rparr>) (process_ckpt u)) now s n u"
    "\<And>r'. tk_state r' = st' \<Longrightarrow> run_state r' = (run_state r)(n := Some s)"
proof -
  obtain st' ev where D: "dispatch runner_dispatcher False False (tk_state r) (process_ckpt u) = (st', ev, None)"
    using ok by (metis prod.collapse)
  then have "dispatch_process runner_dispatcher False False (tk_state r) u = (st', ev, None)"
    by (simp add: dispatch_def process_ckpt_def)
  then show thesis
  proof (cases rule: dispatch_process_success)
    case (applied runs c)
    have "ev = [On_process_transition () (Some s) u, On_process () s u]"
      using applied(6) u by (simp add: run_process_dispatch_events)
    then have "dispatch_update r now False u =
        handle_process (ckpt_write (r\<lparr>tk_state := st'\<rparr>) (process_ckpt u)) now s n u"
      using D u by (simp add: dispatch_update_def then_do_unit then_do_nil)
    moreover have "run_state r' = (run_state r)(n := Some s)" if "tk_state r' = st'" for r'
      by (rule run_state_put [OF u(1) applied(4) u(2)])
         (use that applied(5) in \<open>auto simp: run_state_def current_process_run_def fun_eq_iff\<close>)
    ultimately show thesis using that by blast
  qed simp
qed

lemma add_failure_not_running:
  assumes "n \<notin> pl_running (tp_planner tp)" "tp_attributes tp n \<noteq> None"
  shows "\<exists>tp'. add_failure tp n now = (tp', Some AssertionError) \<and>
    pl_running (tp_planner tp') = pl_running (tp_planner tp)"
  using assms
  by (auto simp: add_failure_def failure_transition_def record_termination_time_def on_planner_def Let_def
      pl_reset_def pl_set_failed_def pl_set_finished_def checked_def)

section \<open>Properties\<close>


definition sample_runner :: "task_planner \<Rightarrow> runner" where
  "sample_runner tp = \<lparr>tk_state = empty_runner_state, tk_regular = tp, tk_finalizing = tp, tk_plan = Some Regular,
     tk_known = [''a'', ''b''], tk_processes = (\<lambda>_. None), tk_watcher = new_muxer, tk_recovery = False,
     tk_terminal_state = None, tk_finalization_start = None, tk_preemption_deadline = None,
     tk_max_failures = 1, tk_max_concurrency = 0, tk_finalization_wait = 30, tk_effects = []\<rparr>"

lemma sample_synced: "\<exists>tp. synced (sample_runner tp) \<and> tp_attributes tp ''a'' \<noteq> None"
proof -
  obtain tp where tp: "task_planner_init sample_task None = Inr tp"
    "tp_attributes tp ''a'' = Some (attributes_of (sample_process ''a''))" "pl_running (tp_planner tp) = {}"
    using sample_planner by blast
  then have "tp_ok tp" using task_planner_init_ok(1) by blast
  then have "synced (sample_runner tp)"
    using tp state_ok_empty mux_ok_new
    by (simp add: synced_def sample_runner_def plan_of_def run_state_def current_process_run_def current_run_def
        live_run_def empty_runner_state_def new_muxer_def)
  then show ?thesis using tp(2) by auto
qed


text \<open>When a process cannot be started (\<open>Process.start\<close> raises one of its own errors),
  marking it failed breaks the scheduling pass: the run is checkpointed as \<open>FAILED\<close>, but the plan
  never saw the process running, so its bookkeeping raises \<open>AssertionError\<close>, which nothing on the
  path to the run loop catches.\<close>

theorem launch_failure_raises:
  assumes "synced r" "tk_recovery r = False" "run_state r n = Some P_WAITING" "tk_plan r = Some w"
    "tp_attributes (plan_of r w) n \<noteq> None" "\<not> starts n"
  shows "\<exists>r'. launch_one now starts n r = (r', Some (Py AssertionError)) \<and> run_state r' n = Some P_FAILED \<and>
    n \<notin> pl_running (tp_planner (plan_of r' w))"
proof -
  have ok: "state_ok (tk_state r)" and t: "tables_ok r w (run_state r)"
    using assms(1,4) by (auto simp: synced_tables tables_ok_def)
  obtain cur where cur: "current_process_run r n = Some cur" "ps_state cur = Some P_WAITING"
    using assms(3) by (auto simp: run_state_def split: option.splits)
  have seq: "ps_seq cur = Some (seq_of cur)"
    using run_ok_seq [OF current_run_ok [OF ok]] cur(1) by (simp add: current_process_run_def)
  let ?u = "empty_status\<lparr>ps_process := Some n, ps_state := Some P_FAILED, ps_seq := Some (seq_of cur + 1)\<rparr>"
  have "spec_of (tk_state r) (ps_process ?u) = Some (seq_of cur, P_WAITING)"
    using cur by (simp add: spec_of_def current_process_run_def)
  then have "spec_step (spec_of (tk_state r)) ?u ((spec_of (tk_state r))(ps_process ?u \<mapsto> (seq_of cur + 1, P_FAILED)))"
    by (rule spec_move) simp_all
  then have "snd (snd (dispatch runner_dispatcher False False (tk_state r) (process_ckpt ?u))) = None"
    using dispatch_accepts [OF ok, of runner_dispatcher False ?u] by (auto simp: carries_def)
  then obtain st' where D: "dispatch_update r now False ?u =
      handle_process (ckpt_write (r\<lparr>tk_state := st'\<rparr>) (process_ckpt ?u)) now P_FAILED n ?u"
    and run: "\<And>r'. tk_state r' = st' \<Longrightarrow> run_state r' = (run_state r)(n := Some P_FAILED)"
    using accepted_update [OF ok, of ?u n P_FAILED now] by auto
  let ?r = "ckpt_write (r\<lparr>tk_state := st'\<rparr>) (process_ckpt ?u)"
  have "tables_ok ?r w (run_state r)" using t by (simp add: tables_ok_def)
  then obtain r1 where r1: "forget_process ?r n = (r1, None)" "tk_state r1 = st'"
    "plan_of r1 w = plan_of r w" "tk_plan r1 = Some w"
    using forget_ok [of ?r w "run_state r" n] assms(3) by (auto simp: live_run_def)
  have "n \<notin> pl_running (tp_planner (plan_of r w))"
    using t assms(3) by (simp add: tables_ok_def)
  then obtain tp' where tp': "add_failure (plan_of r w) n now = (tp', Some AssertionError)"
    "n \<notin> pl_running (tp_planner tp')"
    using add_failure_not_running assms(5) by blast
  have "dispatch_update r now False ?u = (set_plan r1 w tp', Some (Py AssertionError))"
    using r1 tp' by (simp add: D handle_process_def handle_failed_def on_plan_def)
  moreover have "tk_processes r n \<noteq> None" using t assms(3) by (simp add: tables_ok_def live_run_def)
  ultimately have "launch_one now starts n r = (set_plan r1 w tp', Some (Py AssertionError))"
    using cur assms(2,6) seq by (auto simp: launch_one_def set_process_status_def)
  then show ?thesis using run [of "set_plan r1 w tp'"] r1(2) tp'(2) by simp
qed

theorem launch_failure_raises_witness:
  "\<exists>r r'. launch_one 6 (\<lambda>_. False) ''a'' r = (r', Some (Py AssertionError)) \<and>
     run_state r' ''a'' = Some P_FAILED"
proof -
  obtain tp where tp: "synced (sample_runner tp)" "tp_attributes tp ''a'' \<noteq> None" using sample_synced by blast
  let ?u = "full_status ''a'' 0 P_WAITING"
  obtain r where r: "dispatch_update (sample_runner tp) 5 False ?u = (r, None)" "tk_recovery r = False"
    "tk_plan r = Some Regular" "plan_of r Regular = tp" "run_state r ''a'' = Some P_WAITING"
    by (simp add: dispatch_update_def runner_dispatcher_def run_dispatch sample_runner_def empty_runner_state_def
        handle_process_def handle_waiting_def on_watcher_def mux_register_def new_muxer_def ckpt_write_def
        effect_def plan_of_def run_state_def current_process_run_def current_run_def)
  have "snd (snd (dispatch runner_dispatcher False False (tk_state (sample_runner tp)) (process_ckpt ?u))) = None"
    by (simp add: runner_dispatcher_def run_dispatch sample_runner_def empty_runner_state_def)
  then have "synced r"
    using dispatch_update_synced [OF tp(1), of ?u "''a''" P_WAITING 5] r(1)
    by (auto simp: full_status_def sample_runner_def)
  then show ?thesis
    using launch_failure_raises [of r "''a''" Regular "\<lambda>_. False" 6] r tp(2) by auto
qed

text \<open>C26: the kill path ends: in \<open>CLEANING\<close>, once no finalization time remains, one
  round of the loop puts the task in its terminal state, the forced one if the runner was killed and
  otherwise \<open>SUCCESS\<close> or \<open>FAILED\<close> by the health of the regular plan, whatever happens while the
  remaining processes are killed.\<close>

theorem cleaning_deadline:
  assumes "task_state_of r = Some T_CLEANING" "finalization_remaining r (rd_now rd) \<le> 0"
    "tk_terminal_state r \<noteq> Some T_ACTIVE" "tk_terminal_state r = None \<longrightarrow> is_healthy r (rd_now rd) = Inr h"
  shows "task_state_of (fst (run_round rd r)) =
    Some (case tk_terminal_state r of Some t \<Rightarrow> t | None \<Rightarrow> if h then T_SUCCESS else T_FAILED)"
proof -
  let ?t = "case tk_terminal_state r of Some t \<Rightarrow> t | None \<Rightarrow> if h then T_SUCCESS else T_FAILED"
  have "transition_to r (rd_now rd) T_CLEANING = Inr ?t"
    using assms by (auto simp: transition_to_def runner_terminal_state_def split: option.splits)
  moreover have "run_stage rd T_CLEANING r = ((r, None), None)"
    using assms(2) by (simp add: run_stage_def cleaning_wait_def)
  moreover have "rs_statuses (tk_state r) \<noteq> Some []"
    using assms(1) by (auto simp: task_state_of_def)
  ultimately show ?thesis
    using assms(1) by (simp add: run_round_def round_status_def set_task_status_state)
qed

theorem cleaning_deadline_witness:
  "\<exists>r rd. task_state_of (fst (run_round rd r)) = Some T_LOST \<and> task_state_of r = Some T_CLEANING"
proof -
  obtain tp where tp: "synced (sample_runner tp)" using sample_synced by blast
  let ?r = "(sample_runner tp)\<lparr>tk_state := empty_runner_state\<lparr>rs_statuses := Some [\<lparr>ts_state = Some T_CLEANING,
      ts_timestamp_ms = Some 7000, ts_runner_pid = Some 1, ts_runner_uid = Some 0\<rparr>]\<rparr>,
      tk_terminal_state := Some T_LOST, tk_preemption_deadline := Some 10\<rparr>"
  let ?rd = "\<lparr>rd_now = 20, rd_pid = 1, rd_uid = 0, rd_is_lost = \<lambda>_ _. Inr False, rd_starts = \<lambda>_. True,
      rd_running = [], rd_names = [], rd_has_running = True, rd_scan = [], rd_batches = []\<rparr>"
  have "task_state_of ?r = Some T_CLEANING" by (simp add: task_state_of_def)
  moreover have "finalization_remaining ?r (rd_now ?rd) \<le> 0" by (simp add: finalization_remaining_def)
  ultimately show ?thesis using cleaning_deadline [of ?r ?rd undefined] by fastforce
qed

end
