(* ===== verification/Helper.thy ===== *)
theory Helper
  imports Ckpt
begin

text \<open>
  The checkpoint-only operations of \<^verbatim>\<open>apache/thermos/core/helper.py\<close>: deciding whether a pid is
  the one that was forked, scanning the processes of a task, signalling them, and killing a task
  through its checkpoint without a runner.  The table of the system's processes (psutil's answers)
  is an argument; the signals sent and the records written are the results.
\<close>

section \<open>The system's processes\<close>

datatype 'a ps_result = Ps_value 'a | No_such_process | Ps_error

record ps_process =
  pp_pid :: int
  pp_create_time :: "rat ps_result"
  pp_uids :: "int option ps_result"
  pp_username :: "string option ps_result"
  pp_children :: "int list ps_result"

type_synonym ps_table = "int \<Rightarrow> ps_process ps_result"

definition max_start_time_drift :: rat where
  "max_start_time_drift = 10"

text \<open>\<^verbatim>\<open>this_is_really_our_pid\<close>: the creation time must be near the checkpointed one, then the
  uid decides where it is known (a process launched as root may have changed its uid), the user name
  otherwise.  \<^verbatim>\<open>username()\<close> gives \<^verbatim>\<open>None\<close> here where it raises \<^verbatim>\<open>KeyError\<close>.\<close>

definition our_pid :: "ps_process \<Rightarrow> int option \<Rightarrow> string \<Rightarrow> rat option \<Rightarrow> pyexc + bool ps_result" where
  "our_pid p uid user start_time =
     (case pp_create_time p of
        No_such_process \<Rightarrow> Inr No_such_process
      | Ps_error \<Rightarrow> Inr Ps_error
      | Ps_value created \<Rightarrow>
          (case start_time of
             None \<Rightarrow> Inl TypeError
           | Some start \<Rightarrow>
               (if \<bar>start - created\<bar> \<ge> max_start_time_drift then Inr (Ps_value False)
                else case uid of
                  Some u \<Rightarrow>
                    (case pp_uids p of
                       Ps_value (Some v) \<Rightarrow> Inr (Ps_value (v = u \<or> u = 0))
                     | _ \<Rightarrow> Inr (Ps_value False))
                | None \<Rightarrow>
                    (case pp_username p of
                       Ps_value (Some v) \<Rightarrow> Inr (Ps_value (v = user))
                     | Ps_value None \<Rightarrow> Inr (Ps_value False)
                     | No_such_process \<Rightarrow> Inr No_such_process
                     | Ps_error \<Rightarrow> Inr Ps_error))))"

definition truthy_pid :: "int option \<Rightarrow> int option" where
  "truthy_pid p = (case p of Some n \<Rightarrow> if n = 0 then None else Some n | None \<Rightarrow> None)"

text \<open>The live process behind a checkpointed pid, \<^verbatim>\<open>None\<close> where psutil or the heuristic says no.\<close>

definition live_process :: "ps_table \<Rightarrow> runner_header \<Rightarrow> int option \<Rightarrow> rat option \<Rightarrow> pyexc + ps_process option" where
  "live_process ps h pid start_time =
     (case truthy_pid pid of
        None \<Rightarrow> Inr None
      | Some n \<Rightarrow>
          (case ps n of
             Ps_value p \<Rightarrow> rbind (our_pid p (rh_uid h) (rh_user h) start_time)
               (\<lambda>r. Inr (case r of Ps_value True \<Rightarrow> Some p | _ \<Rightarrow> None))
           | _ \<Rightarrow> Inr None))"

type_synonym scan_result = "int option \<times> int option \<times> int list"

definition scan_process :: "ps_table \<Rightarrow> runner_state \<Rightarrow> string option \<Rightarrow> pyexc + scan_result" where
  "scan_process ps st n =
     (case rs_processes st n of
        None \<Rightarrow> Inl KeyError
      | Some runs \<Rightarrow>
          (case last_opt runs of
             None \<Rightarrow> Inl IndexError
           | Some run \<Rightarrow>
               (case rs_header st of
                  None \<Rightarrow> Inl AttributeError
                | Some h \<Rightarrow>
                    rbind (live_process ps h (ps_coordinator_pid run) (ps_fork_time run)) (\<lambda>c.
                    rbind (live_process ps h (ps_pid run) (ps_start_time run)) (\<lambda>p.
                      Inr (if c = None then None else ps_coordinator_pid run,
                           map_option pp_pid p,
                           case p of
                             None \<Rightarrow> []
                           | Some q \<Rightarrow> if pp_pid q = 0 then []
                                       else (case pp_children q of Ps_value cs \<Rightarrow> cs | _ \<Rightarrow> [])))))))"

definition scan_tree :: "ps_table \<Rightarrow> runner_state \<Rightarrow> string option list \<Rightarrow> pyexc + (string option \<times> scan_result) list" where
  "scan_tree ps st names = traverse (\<lambda>n. rbind (scan_process ps st n) (\<lambda>r. Inr (n, r))) names"

section \<open>Signals\<close>

text \<open>\<^verbatim>\<open>safe_signal\<close> swallows every error, so a signal is only recorded.\<close>

datatype sig = Sigterm int | Sigkill int | Sigkill_group int

definition get_process_tuple :: "ps_table \<Rightarrow> runner_state \<Rightarrow> string option \<Rightarrow> pyexc + scan_result" where
  "get_process_tuple ps st n =
     (if rs_processes st n \<in> {None, Some []} then Inl AssertionError else scan_process ps st n)"

definition get_coordinator_group :: "runner_state \<Rightarrow> string option \<Rightarrow> pyexc + int option" where
  "get_coordinator_group st n =
     (case rs_processes st n of
        Some (r # rs) \<Rightarrow> Inr (ps_coordinator_pid (last (r # rs)))
      | _ \<Rightarrow> Inl AssertionError)"

definition opt_signal :: "(int \<Rightarrow> sig) \<Rightarrow> int option \<Rightarrow> sig list" where
  "opt_signal f p = (case truthy_pid p of None \<Rightarrow> [] | Some n \<Rightarrow> [f n])"

definition terminate_orphans :: "ps_table \<Rightarrow> runner_state \<Rightarrow> string option list \<Rightarrow> int list \<Rightarrow> pyexc + sig list" where
  "terminate_orphans ps st names children =
     rbind (scan_tree ps st names) (\<lambda>scans.
       let coordinators = List.map_filter (\<lambda>s. truthy_pid (fst (snd s))) scans
       in Inr (map Sigterm (filter (\<lambda>c. c \<notin> set coordinators) children)))"

definition terminate_process :: "ps_table \<Rightarrow> runner_state \<Rightarrow> string option \<Rightarrow> pyexc + sig list \<times> bool" where
  "terminate_process ps st n =
     rbind (get_process_tuple ps st n) (\<lambda>(_, pid, _).
       Inr (opt_signal Sigterm pid, truthy_pid pid \<noteq> None))"

definition kill_process :: "ps_table \<Rightarrow> runner_state \<Rightarrow> string option \<Rightarrow> pyexc + sig list \<times> bool" where
  "kill_process ps st n =
     rbind (get_coordinator_group st n) (\<lambda>group.
     rbind (get_process_tuple ps st n) (\<lambda>(coordinator, pid, tree).
       Inr (opt_signal Sigkill_group group @ opt_signal Sigkill coordinator @ opt_signal Sigkill pid @
              map Sigkill tree,
            truthy_pid coordinator \<noteq> None \<or> truthy_pid pid \<noteq> None \<or> tree \<noteq> [])))"

section \<open>Leadership of a checkpoint\<close>

datatype helper_error = Helper_error | Permission_error

datatype os_kill = Kill_sent | Kill_eperm | Kill_esrch | Kill_other

definition kill_runner :: "runner_state option \<Rightarrow> int \<Rightarrow> (int option \<Rightarrow> os_kill) \<Rightarrow> (helper_error, bool) res" where
  "kill_runner st self kill_it =
     (case st of
        None \<Rightarrow> Inl (Own Helper_error)
      | Some s \<Rightarrow>
          (case rs_statuses s of
             Some (t # ts) \<Rightarrow>
               let pid = ts_runner_pid (last (t # ts)) in
               if pid = Some self then Inl (Own Helper_error)
               else (case kill_it pid of
                       Kill_sent \<Rightarrow> Inr True
                     | Kill_eperm \<Rightarrow> Inr False
                     | Kill_esrch \<Rightarrow> Inr True
                     | Kill_other \<Rightarrow> Inl (Py OSError))
           | _ \<Rightarrow> Inl (Own Helper_error)))"

text \<open>\<open>locked\<close> is the first attempt at the lock, \<open>relocked\<close> the blocking one after the leader was killed.\<close>

definition open_checkpoint :: "bool \<Rightarrow> bool \<Rightarrow> bool \<Rightarrow> (helper_error, bool) res \<Rightarrow> (helper_error, unit) res" where
  "open_checkpoint locked force relocked killed =
     (if locked then Inr ()
      else if force then rbind killed (\<lambda>k. if k \<and> relocked then Inr () else Inl (Own Permission_error))
      else Inl (Own Permission_error))"

section \<open>Task records\<close>

text \<open>\<open>is_active\<close> and \<open>is_finished\<close> say which record files exist; the results are the new ones.\<close>

definition initialize_task :: "bool \<Rightarrow> bool \<Rightarrow> (helper_error, bool \<times> bool) res" where
  "initialize_task is_active is_finished =
     (if is_finished then Inl (Own Helper_error) else Inr (True, is_finished))"

definition finalize_task :: "bool \<Rightarrow> bool \<Rightarrow> (helper_error, bool \<times> bool) res" where
  "finalize_task is_active is_finished =
     (if \<not> is_active then Inl (Own Helper_error)
      else if is_finished then Inl (Own Helper_error) else Inr (False, True))"

section \<open>Killing a task through its checkpoint\<close>

definition task_status_now :: "rat \<Rightarrow> int \<Rightarrow> int \<Rightarrow> task_state \<Rightarrow> task_status" where
  "task_status_now now pid uid s = \<lparr>ts_state = Some s, ts_timestamp_ms = Some \<lfloor>now * 1000\<rfloor>,
     ts_runner_pid = Some pid, ts_runner_uid = Some uid\<rparr>"

text \<open>What is written for one process: \<^verbatim>\<open>KILLED\<close> if something was killed, otherwise \<^verbatim>\<open>LOST\<close>
  unless it was still waiting.\<close>

definition kill_record :: "ps_table \<Rightarrow> rat \<Rightarrow> runner_state \<Rightarrow> string option \<Rightarrow> pyexc + sig list \<times> process_status list" where
  "kill_record ps now st n =
     (case rs_processes st n of
        None \<Rightarrow> Inr ([], [])
      | Some runs \<Rightarrow>
          (case last_opt runs of
             None \<Rightarrow> Inl IndexError
           | Some cur \<Rightarrow>
               (if terminal_process_state (ps_state cur) then Inr ([], [])
                else rbind (kill_process ps st n) (\<lambda>(sigs, killed).
                  if killed then
                    (case ps_seq cur of None \<Rightarrow> Inl TypeError
                     | Some k \<Rightarrow> Inr (sigs, [empty_status\<lparr>ps_process := n, ps_state := Some P_KILLED,
                         ps_seq := Some (k + 1), ps_return_code := Some (-9), ps_stop_time := Some now\<rparr>]))
                  else if ps_state cur \<noteq> Some P_WAITING then
                    (case ps_seq cur of None \<Rightarrow> Inl TypeError
                     | Some k \<Rightarrow> Inr (sigs, [empty_status\<lparr>ps_process := n, ps_state := Some P_LOST,
                         ps_seq := Some (k + 1)\<rparr>]))
                  else Inr (sigs, [])))))"

text \<open>The records written under the lock; \<open>names\<close> is the iteration order of the processes.\<close>

definition kill_records :: "ps_table \<Rightarrow> rat \<Rightarrow> int \<Rightarrow> int \<Rightarrow> task_state \<Rightarrow> runner_state \<Rightarrow> string option list
    \<Rightarrow> pyexc + sig list \<times> runner_ckpt list" where
  "kill_records ps now pid uid terminal st names =
     rbind (traverse (kill_record ps now st) names) (\<lambda>rs.
       Inr (concat (map fst rs),
            [task_ckpt (task_status_now now pid uid T_ACTIVE)] @
            map process_ckpt (concat (map snd rs)) @
            [task_ckpt (task_status_now now pid uid terminal)]))"

datatype kill_outcome = Left_alone | Finalized | Killed "sig list" "runner_ckpt list"

text \<open>\<^verbatim>\<open>TaskRunnerHelper.kill\<close> up to its last step, \<^verbatim>\<open>finalize_task\<close>; \<open>opened\<close> is the outcome of
  \<^verbatim>\<open>open_checkpoint\<close>.\<close>

definition helper_kill :: "ps_table \<Rightarrow> rat \<Rightarrow> int \<Rightarrow> int \<Rightarrow> task_state \<Rightarrow> bool \<Rightarrow> runner_state option
    \<Rightarrow> (helper_error, unit) res \<Rightarrow> string option list \<Rightarrow> (helper_error, kill_outcome) res" where
  "helper_kill ps now pid uid terminal force st opened names =
     (if terminal \<notin> {T_KILLED, T_LOST} then Inl (Own Helper_error)
      else case st of
        None \<Rightarrow> Inr (if force then Finalized else Left_alone)
      | Some s \<Rightarrow>
          (if rs_header s = None \<or> rs_statuses s = None then Inr (if force then Finalized else Left_alone)
           else rbind opened (\<lambda>_.
             case rs_statuses s of
               Some (t # ts) \<Rightarrow>
                 (if ts_state (last (t # ts)) \<in> {Some T_SUCCESS, Some T_FAILED, Some T_KILLED, Some T_LOST}
                  then Inr Finalized
                  else (case kill_records ps now pid uid terminal s names of
                          Inl e \<Rightarrow> Inl (Py e)
                        | Inr (sigs, rcs) \<Rightarrow> Inr (Killed sigs rcs)))
             | _ \<Rightarrow> Inl (Py IndexError))))"

section \<open>What a kill leaves in the checkpoint\<close>

text \<open>An update that moves its process along an edge from the state it is in.\<close>

definition moves :: "runner_state \<Rightarrow> process_status \<Rightarrow> bool" where
  "moves st u = (carries u \<and> (\<exists>k s s'. spec_of st (ps_process u) = Some (k, s) \<and> process_edge (Some s) s' \<and>
     ps_state u = Some s' \<and> ps_seq u = Some (k + 1)))"

lemma move_dispatch:
  assumes "state_ok st" "moves st u"
  obtains st' ev where "dispatch d False tr st (process_ckpt u) = (st', ev, None)" "state_ok st'"
    "rs_statuses st' = rs_statuses st" "spec_of st' = (spec_of st)(ps_process u \<mapsto> (seq_of u, the (ps_state u)))"
proof -
  obtain k s s' where m: "carries u" "spec_of st (ps_process u) = Some (k, s)" "process_edge (Some s) s'"
    "ps_state u = Some s'" "ps_seq u = Some (k + 1)"
    using assms(2) by (auto simp: moves_def)
  have "spec_step (spec_of st) u ((spec_of st)(ps_process u \<mapsto> (k + 1, s')))"
    using m by (auto intro: spec_move)
  then obtain st' ev where D: "dispatch d False tr st (process_ckpt u) = (st', ev, None)"
    using dispatch_accepts [OF assms(1), of d tr u] m(1) by (metis prod.collapse)
  have "spec_step (spec_of st) u (spec_of st')" by (rule dispatch_spec_step [OF assms(1) D])
  then have "spec_of st' = (spec_of st)(ps_process u \<mapsto> (seq_of u, the (ps_state u)))"
    using m by (cases rule: spec_step.cases) (auto simp: seq_of_def)
  moreover have "rs_statuses st' = rs_statuses st"
    using D dispatch_process_statuses [of d False tr st u] by (simp add: dispatch_def process_ckpt_def)
  ultimately show thesis using that D dispatch_state_ok [OF assms(1) D] by blast
qed

lemma moves_replay:
  "state_ok st \<Longrightarrow> distinct (map ps_process us) \<Longrightarrow> \<forall>u\<in>set us. moves st u \<Longrightarrow>
     \<exists>st' ev. replay d False tr st (map process_ckpt us) = (st', ev, None) \<and> state_ok st' \<and>
       rs_statuses st' = rs_statuses st \<and>
       (\<forall>u\<in>set us. spec_of st' (ps_process u) = Some (seq_of u, the (ps_state u))) \<and>
       (\<forall>n. n \<notin> ps_process ` set us \<longrightarrow> spec_of st' n = spec_of st n)"
proof (induction us arbitrary: st)
  case (Cons u us)
  obtain st1 ev where D: "dispatch d False tr st (process_ckpt u) = (st1, ev, None)" "state_ok st1"
    "rs_statuses st1 = rs_statuses st" "spec_of st1 = (spec_of st)(ps_process u \<mapsto> (seq_of u, the (ps_state u)))"
    using move_dispatch [of st u d tr] Cons.prems by auto
  have "\<forall>v\<in>set us. moves st1 v"
  proof
    fix v assume v: "v \<in> set us"
    then have "ps_process v \<noteq> ps_process u" using Cons.prems(2) by (auto simp: image_iff)
    then have "spec_of st1 (ps_process v) = spec_of st (ps_process v)" by (simp add: D(4))
    then show "moves st1 v" using v Cons.prems(3) by (simp add: moves_def)
  qed
  then obtain st' ev' where R: "replay d False tr st1 (map process_ckpt us) = (st', ev', None)" "state_ok st'"
    "rs_statuses st' = rs_statuses st1"
    "\<forall>v\<in>set us. spec_of st' (ps_process v) = Some (seq_of v, the (ps_state v))"
    "\<forall>n. n \<notin> ps_process ` set us \<longrightarrow> spec_of st' n = spec_of st1 n"
    using Cons.IH [OF D(2)] Cons.prems(2) by auto
  have "spec_of st' (ps_process u) = Some (seq_of u, the (ps_state u))"
    using R(5) D(4) Cons.prems(2) by auto
  moreover have "spec_of st' n = spec_of st n" if "n \<notin> ps_process ` set (u # us)" for n
    using R(5) D(4) that by simp
  ultimately show ?case using D(1,3) R(1-4) by simp
qed simp

text \<open>A run that is still waiting has no pids, so there is nothing to kill.\<close>

lemma kill_waiting:
  assumes "state_ok st" "current_run st n = Some cur" "ps_state cur = Some P_WAITING"
    "kill_process ps st n = Inr (sigs, killed)"
  shows "\<not> killed"
proof -
  have cur: "ps_coordinator_pid cur = None" "ps_pid cur = None"
    using current_run_ok [OF assms(1,2)] assms(3) by (auto simp: run_ok_def)
  then show ?thesis
    using assms(2,4)
    by (auto simp: kill_process_def get_process_tuple_def scan_process_def current_run_def live_process_def
        truthy_pid_def rbind_Inr_iff split: option.splits if_splits)
qed

definition settled :: "process_state \<Rightarrow> bool" where
  "settled s = (s = P_WAITING \<or> terminal_process_state (Some s))"

lemma kill_record_cases:
  assumes "state_ok st" "rs_processes st n \<noteq> None" "kill_record ps now st n = Inr (sigs, us)"
  shows "(us = [] \<and> (\<forall>k s. spec_of st n = Some (k, s) \<longrightarrow> settled s)) \<or>
    (\<exists>u. us = [u] \<and> ps_process u = n \<and> moves st u \<and> settled (the (ps_state u)))"
proof -
  obtain runs cur where cur: "rs_processes st n = Some runs" "last_opt runs = Some cur" "current_run st n = Some cur"
    using assms(1,2) by (auto simp: current_run_def state_ok_def history_ok_def last_opt_def)
  obtain s where s: "ps_state cur = Some s" "ps_seq cur = Some (seq_of cur)"
    using current_run_ok [OF assms(1) cur(3)] run_ok_state run_ok_seq by blast
  have spec: "spec_of st n = Some (seq_of cur, s)" using cur(3) s by (simp add: spec_of_def)
  show ?thesis
  proof (cases "terminal_process_state (ps_state cur)")
    case True
    then show ?thesis using assms(3) cur s spec by (simp add: kill_record_def settled_def)
  next
    case False
    then obtain killed where K: "kill_process ps st n = Inr (sigs, killed)"
      "us = (if killed then [empty_status\<lparr>ps_process := n, ps_state := Some P_KILLED,
          ps_seq := Some (seq_of cur + 1), ps_return_code := Some (-9), ps_stop_time := Some now\<rparr>]
        else if ps_state cur \<noteq> Some P_WAITING then
          [empty_status\<lparr>ps_process := n, ps_state := Some P_LOST, ps_seq := Some (seq_of cur + 1)\<rparr>] else [])"
      using assms(3) cur s by (auto simp: kill_record_def rbind_Inr_iff split: if_splits)
    show ?thesis
    proof (cases "s = P_WAITING")
      case True
      then show ?thesis using K kill_waiting [OF assms(1) cur(3)] s spec by (auto simp: settled_def)
    next
      case F: False
      then have "s = P_FORKED \<or> s = P_RUNNING"
        using False s by (cases s) (auto simp: terminal_process_state_def)
      then show ?thesis
        using K spec F s
        by (auto simp: moves_def settled_def terminal_process_state_def carries_def field_groups)
    qed
  qed
qed

lemma kill_records_moves:
  assumes "state_ok st" "distinct names" "\<forall>n\<in>set names. rs_processes st n \<noteq> None"
    "traverse (kill_record ps now st) names = Inr rs"
  shows "(\<forall>u\<in>set (concat (map snd rs)). moves st u \<and> settled (the (ps_state u)) \<and> ps_process u \<in> set names) \<and>
    distinct (map ps_process (concat (map snd rs))) \<and>
    (\<forall>n\<in>set names. n \<in> ps_process ` set (concat (map snd rs)) \<or>
       (\<forall>k s. spec_of st n = Some (k, s) \<longrightarrow> settled s))"
  using assms(2-4)
proof (induction names arbitrary: rs)
  case (Cons n names)
  obtain sigs us rest where r: "kill_record ps now st n = Inr (sigs, us)"
    "traverse (kill_record ps now st) names = Inr rest" "rs = (sigs, us) # rest"
    using Cons.prems(3) by (auto simp: rbind_Inr_iff)
  have IH: "\<forall>u\<in>set (concat (map snd rest)). moves st u \<and> settled (the (ps_state u)) \<and> ps_process u \<in> set names"
    "distinct (map ps_process (concat (map snd rest)))"
    "\<forall>m\<in>set names. m \<in> ps_process ` set (concat (map snd rest)) \<or>
       (\<forall>k s. spec_of st m = Some (k, s) \<longrightarrow> settled s)"
    using Cons.IH [OF _ _ r(2)] Cons.prems(1,2) by auto
  from kill_record_cases [OF assms(1) _ r(1)] Cons.prems(2)
  have "(us = [] \<and> (\<forall>k s. spec_of st n = Some (k, s) \<longrightarrow> settled s)) \<or>
    (\<exists>u. us = [u] \<and> ps_process u = n \<and> moves st u \<and> settled (the (ps_state u)))" by simp
  then show ?case
  proof
    assume "us = [] \<and> (\<forall>k s. spec_of st n = Some (k, s) \<longrightarrow> settled s)"
    then show ?thesis using IH r(3) by auto
  next
    assume "\<exists>u. us = [u] \<and> ps_process u = n \<and> moves st u \<and> settled (the (ps_state u))"
    then obtain u where u: "us = [u]" "ps_process u = n" "moves st u" "settled (the (ps_state u))" by blast
    have "n \<notin> ps_process ` set (concat (map snd rest))"
      using IH(1) Cons.prems(1) by auto
    then show ?thesis using IH u r(3) by auto
  qed
qed simp

lemma dispatch_task_now:
  assumes "rs_statuses st = Some ss" "ss \<noteq> []"
  shows "dispatch (new_dispatcher :: nat dispatcher) False False st (task_ckpt t) =
    (st\<lparr>rs_statuses := Some (ss @ [t])\<rparr>, [], None)"
  using assms
  by (simp add: dispatch_def task_ckpt_def dispatch_task_def run_task_dispatch_def new_dispatcher_def)

lemma spec_of_statuses [simp]: "spec_of (st\<lparr>rs_statuses := x\<rparr>) = spec_of st"
  by (simp add: spec_of_def current_run_def fun_eq_iff)

lemma moves_statuses [simp]: "moves (st\<lparr>rs_statuses := x\<rparr>) = moves st"
  by (simp add: moves_def fun_eq_iff)

lemma kill_records_replay:
  assumes st: "state_ok st" "rs_statuses st = Some ss" "ss \<noteq> []"
    and names: "distinct names" "set names = {n. rs_processes st n \<noteq> None}"
    and rcs: "kill_records ps now pid uid terminal st names = Inr (sigs, rcs)"
  shows "\<exists>st' ev. replay (new_dispatcher :: nat dispatcher) False False st rcs = (st', ev, None) \<and>
    (\<exists>ts. rs_statuses st' = Some (ts @ [task_status_now now pid uid terminal])) \<and>
    (\<forall>n k s. spec_of st' n = Some (k, s) \<longrightarrow> settled s)"
proof -
  obtain rs where rs: "traverse (kill_record ps now st) names = Inr rs"
    "rcs = [task_ckpt (task_status_now now pid uid T_ACTIVE)] @ map process_ckpt (concat (map snd rs)) @
       [task_ckpt (task_status_now now pid uid terminal)]"
    using rcs by (auto simp: kill_records_def rbind_Inr_iff)
  let ?us = "concat (map snd rs)" and ?a = "task_status_now now pid uid T_ACTIVE"
  let ?st1 = "st\<lparr>rs_statuses := Some (ss @ [?a])\<rparr>"
  have us: "\<forall>u\<in>set ?us. moves st u \<and> settled (the (ps_state u)) \<and> ps_process u \<in> set names"
    "distinct (map ps_process ?us)"
    "\<forall>n\<in>set names. n \<in> ps_process ` set ?us \<or> (\<forall>k s. spec_of st n = Some (k, s) \<longrightarrow> settled s)"
    using kill_records_moves [OF st(1) names(1) _ rs(1)] names(2) by auto
  have "state_ok ?st1" using st(1) by (simp add: state_ok_def)
  then obtain st2 ev2 where R: "replay (new_dispatcher :: nat dispatcher) False False ?st1 (map process_ckpt ?us) =
      (st2, ev2, None)" "rs_statuses st2 = rs_statuses ?st1"
    "\<forall>u\<in>set ?us. spec_of st2 (ps_process u) = Some (seq_of u, the (ps_state u))"
    "\<forall>n. n \<notin> ps_process ` set ?us \<longrightarrow> spec_of st2 n = spec_of ?st1 n"
    using moves_replay [of ?st1 ?us "new_dispatcher :: nat dispatcher" False] us(1,2) by auto
  let ?st' = "st2\<lparr>rs_statuses := Some (ss @ [?a] @ [task_status_now now pid uid terminal])\<rparr>"
  have "replay (new_dispatcher :: nat dispatcher) False False st rcs = (?st', ev2, None)"
    using dispatch_task_now [OF st(2,3)] dispatch_task_now [of st2 "ss @ [?a]"] R(2)
    by (simp add: rs(2) dispatch_replay_append [OF R(1)])
  moreover have "settled s" if s: "spec_of ?st' n = Some (k, s)" for n k s
  proof (cases "n \<in> ps_process ` set ?us")
    case True
    then show ?thesis using R(3) us(1) s by auto
  next
    case False
    then have n: "spec_of st n = Some (k, s)" using R(4) s by simp
    then have "n \<in> set names" using spec_of_None [OF st(1), of n] names(2) by simp
    then show ?thesis using us(3) False n by blast
  qed
  ultimately show ?thesis by (auto simp del: append_assoc intro!: exI [of _ "ss @ [?a]"])
qed

section \<open>Properties\<close>

text \<open>C12: a task that is killed through its checkpoint alone leaves a file that still
  recovers: the records written are accepted after the ones that were there, the task ends in the
  requested state, and every process is terminal or was never started.\<close>

theorem helper_kill_replays:
  assumes "from_file False s = Inr (Some st)" "distinct names" "set names = {n. rs_processes st n \<noteq> None}"
    "helper_kill ps now pid uid terminal force (Some st) opened names = Inr (Killed sigs rcs)"
  shows "\<exists>st'. from_file False (s\<lparr>cs_updates := cs_updates s @ rcs\<rparr>) = Inr (Some st') \<and>
    (\<exists>ts. rs_statuses st' = Some (ts @ [task_status_now now pid uid terminal])) \<and>
    (\<forall>n k p. spec_of st' n = Some (k, p) \<longrightarrow> p = P_WAITING \<or> terminal_process_state (Some p))"
proof -
  have ok: "state_ok st" using assms(1) by (rule from_file_ok)
  obtain ss where ss: "rs_statuses st = Some ss" "ss \<noteq> []"
    and K: "kill_records ps now pid uid terminal st names = Inr (sigs, rcs)"
    using assms(4) by (auto simp: helper_kill_def rbind_Inr_iff split: if_splits option.splits list.splits sum.splits)
  obtain ev where R: "replay (new_dispatcher :: nat dispatcher) False False empty_runner_state (cs_updates s) =
      (st, ev, None)" "\<not> cs_broken s"
    using assms(1) by (auto simp: from_file_def iter_updates_def split: prod.splits option.splits exn.splits if_splits)
  obtain st' ev' where R': "replay (new_dispatcher :: nat dispatcher) False False st rcs = (st', ev', None)"
    "\<exists>ts. rs_statuses st' = Some (ts @ [task_status_now now pid uid terminal])"
    "\<forall>n k p. spec_of st' n = Some (k, p) \<longrightarrow> settled p"
    using kill_records_replay [OF ok ss assms(2,3) K] by blast
  have "from_file False (s\<lparr>cs_updates := cs_updates s @ rcs\<rparr>) = Inr (Some st')"
    using R(2) R'(1) by (simp add: from_file_def iter_updates_def dispatch_replay_append [OF R(1)])
  then show ?thesis using R'(2,3) by (auto simp: settled_def)
qed

definition sample_header :: runner_header where
  "sample_header = \<lparr>rh_task_id = ''t'', rh_launch_time_ms = 0, rh_sandbox = ''s'', rh_log_dir = None,
     rh_hostname = ''h'', rh_user = ''u'', rh_uid = Some 5, rh_ports = []\<rparr>"

text \<open>Pid 7 is a coordinator of ours, pid 8 belongs to another user.\<close>

definition sample_table :: ps_table where
  "sample_table n =
     (if n = 7 then Ps_value \<lparr>pp_pid = 7, pp_create_time = Ps_value 3, pp_uids = Ps_value (Some 5),
                              pp_username = Ps_value None, pp_children = Ps_value [8]\<rparr>
      else if n = 8 then Ps_value \<lparr>pp_pid = 8, pp_create_time = Ps_value 3, pp_uids = Ps_value (Some 6),
                              pp_username = Ps_value None, pp_children = Ps_value []\<rparr>
      else No_such_process)"

definition running_stream :: ckpt_stream where
  "running_stream = \<lparr>cs_updates = [\<lparr>rc_header = Some sample_header, rc_process = None, rc_task = None\<rparr>,
     task_ckpt (task_status_now 0 1 0 T_ACTIVE), process_ckpt (full_status ''p'' 0 P_WAITING),
     process_ckpt (full_status ''p'' 1 P_FORKED), process_ckpt (full_status ''p'' 2 P_RUNNING)], cs_broken = False\<rparr>"

lemmas run_helper = running_stream_def from_file_def iter_updates_def run_dispatch empty_runner_state_def
  dispatch_header_def run_header_dispatch_def task_ckpt_def dispatch_task_def run_task_dispatch_def

lemma running_file: "\<exists>st. from_file False running_stream = Inr (Some st) \<and> rs_header st = Some sample_header \<and>
    rs_statuses st = Some [task_status_now 0 1 0 T_ACTIVE] \<and>
    rs_processes st = Map.empty(Some ''p'' \<mapsto> [(full_status ''p'' 2 P_RUNNING)\<lparr>ps_stop_time := None, ps_return_code := None\<rparr>])"
  by (simp add: run_helper)

lemmas run_kill = kill_record_def kill_process_def get_coordinator_group_def get_process_tuple_def
  scan_process_def live_process_def our_pid_def truthy_pid_def opt_signal_def sample_table_def
  sample_header_def full_status_def max_start_time_drift_def last_opt_def terminal_process_state_def

theorem helper_kill_replays_witness:
  "\<exists>rcs st'. from_file False (running_stream\<lparr>cs_updates := cs_updates running_stream @ rcs\<rparr>) = Inr (Some st') \<and>
     rcs \<noteq> [] \<and> (\<exists>ts. rs_statuses st' = Some (ts @ [task_status_now 50 9 0 T_LOST]))"
proof -
  obtain st where st: "from_file False running_stream = Inr (Some st)" "rs_header st = Some sample_header"
    "rs_statuses st = Some [task_status_now 0 1 0 T_ACTIVE]"
    "rs_processes st = Map.empty(Some ''p'' \<mapsto> [(full_status ''p'' 2 P_RUNNING)\<lparr>ps_stop_time := None, ps_return_code := None\<rparr>])"
    using running_file by blast
  obtain sigs us where K: "kill_record sample_table 50 st (Some ''p'') = Inr (sigs, us)"
    using st by (simp add: run_kill)
  then have H: "helper_kill sample_table 50 9 0 T_LOST False (Some st) (Inr ()) [Some ''p''] =
      Inr (Killed sigs ([task_ckpt (task_status_now 50 9 0 T_ACTIVE)] @ map process_ckpt us @
        [task_ckpt (task_status_now 50 9 0 T_LOST)]))"
    using st by (simp add: helper_kill_def kill_records_def task_status_now_def)
  have "set [Some ''p''] = {n. rs_processes st n \<noteq> None}" by (auto simp: st(4))
  from helper_kill_replays [OF st(1) _ this H] show ?thesis by fastforce
qed

definition owned :: "ps_process \<Rightarrow> runner_header \<Rightarrow> rat option \<Rightarrow> bool" where
  "owned p h start =
     (\<exists>t c. start = Some t \<and> pp_create_time p = Ps_value c \<and> \<bar>t - c\<bar> < 10 \<and>
       (case rh_uid h of
          Some u \<Rightarrow> \<exists>v. pp_uids p = Ps_value (Some v) \<and> (v = u \<or> u = 0)
        | None \<Rightarrow> pp_username p = Ps_value (Some (rh_user h))))"

definition signal_allowed :: "ps_table \<Rightarrow> runner_header \<Rightarrow> process_status \<Rightarrow> sig \<Rightarrow> bool" where
  "signal_allowed ps h run x =
     (case x of
        Sigterm p \<Rightarrow> False
      | Sigkill_group g \<Rightarrow> ps_coordinator_pid run = Some g
      | Sigkill p \<Rightarrow>
          (\<exists>q. ps_coordinator_pid run = Some p \<and> ps p = Ps_value q \<and> owned q h (ps_fork_time run)) \<or>
          (\<exists>m q. ps_pid run = Some m \<and> ps m = Ps_value q \<and> owned q h (ps_start_time run) \<and>
             (p = pp_pid q \<or> (\<exists>cs. pp_children q = Ps_value cs \<and> p \<in> set cs))))"

lemma opt_signal_mem: "x \<in> set (opt_signal f p) \<longleftrightarrow> (\<exists>m. p = Some m \<and> m \<noteq> 0 \<and> x = f m)"
  by (cases p) (auto simp: opt_signal_def truthy_pid_def)

lemma our_pid_owned:
  assumes "our_pid q (rh_uid h) (rh_user h) start = Inr (Ps_value True)"
  shows "owned q h start"
proof -
  obtain c where c: "pp_create_time q = Ps_value c"
    using assms by (cases "pp_create_time q") (simp_all add: our_pid_def)
  obtain t where t: "start = Some t"
    using assms c by (cases start) (simp_all add: our_pid_def)
  have d: "\<bar>t - c\<bar> < 10"
    using assms c t by (simp add: our_pid_def max_start_time_drift_def split: if_splits)
  show ?thesis
  proof (cases "rh_uid h")
    case None
    then show ?thesis
      using assms c t d by (auto simp: our_pid_def owned_def max_start_time_drift_def split: ps_result.splits option.splits)
  next
    case (Some u)
    then show ?thesis
      using assms c t d by (auto simp: our_pid_def owned_def max_start_time_drift_def split: ps_result.splits option.splits)
  qed
qed

lemma live_process_owned:
  assumes "live_process ps h pid start = Inr (Some q)"
  shows "\<exists>m. pid = Some m \<and> ps m = Ps_value q \<and> owned q h start"
proof -
  obtain m where m: "pid = Some m" "truthy_pid pid = Some m"
    using assms by (cases pid) (auto simp: live_process_def truthy_pid_def split: if_splits)
  obtain p where p: "ps m = Ps_value p"
    using assms m(2) by (cases "ps m") (simp_all add: live_process_def)
  obtain r where r: "our_pid p (rh_uid h) (rh_user h) start = Inr r"
    "(case r of Ps_value True \<Rightarrow> Some p | _ \<Rightarrow> None) = Some q"
    using assms m(2) p by (auto simp: live_process_def rbind_Inr_iff)
  then have "r = Ps_value True" "p = q" by (auto split: ps_result.splits bool.splits)
  then show ?thesis using m p r(1) our_pid_owned by blast
qed

lemma scan_process_owned:
  assumes "scan_process ps st n = Inr (c, p, tree)" "current_run st n = Some run" "rs_header st = Some h"
  shows "(c \<noteq> None \<longrightarrow> c = ps_coordinator_pid run \<and>
      (\<exists>m q. c = Some m \<and> ps m = Ps_value q \<and> owned q h (ps_fork_time run))) \<and>
    (p \<noteq> None \<or> tree \<noteq> [] \<longrightarrow>
      (\<exists>m q. ps_pid run = Some m \<and> ps m = Ps_value q \<and> owned q h (ps_start_time run) \<and> p = Some (pp_pid q) \<and>
        (tree = [] \<or> pp_children q = Ps_value tree)))"
proof -
  obtain cq pq where L: "live_process ps h (ps_coordinator_pid run) (ps_fork_time run) = Inr cq"
    "live_process ps h (ps_pid run) (ps_start_time run) = Inr pq"
    "c = (if cq = None then None else ps_coordinator_pid run)" "p = map_option pp_pid pq"
    "tree = (case pq of None \<Rightarrow> [] | Some q \<Rightarrow> if pp_pid q = 0 then []
        else (case pp_children q of Ps_value cs \<Rightarrow> cs | _ \<Rightarrow> []))"
    using assms by (auto simp: scan_process_def current_run_def rbind_Inr_iff split: option.splits)
  have "cq = Some q \<Longrightarrow> \<exists>m. ps_coordinator_pid run = Some m \<and> ps m = Ps_value q \<and> owned q h (ps_fork_time run)" for q
    using live_process_owned L(1) by blast
  moreover have "pq = Some q \<Longrightarrow> \<exists>m. ps_pid run = Some m \<and> ps m = Ps_value q \<and> owned q h (ps_start_time run)" for q
    using live_process_owned L(2) by blast
  ultimately show ?thesis
    using L(3-5) by (cases cq; cases pq) (auto split: if_splits ps_result.splits)
qed

text \<open>C28: killing a process signals, apart from the checkpointed coordinator's group, only
  pids that passed the ownership heuristic and descendants of such a pid: the process was created
  within ten seconds of the checkpointed time, and its uid is the recorded one, or root was recorded, or
  without a recorded uid its user name is the recorded one.\<close>

theorem kill_signals_owned:
  assumes "kill_process ps st n = Inr (sigs, killed)" "current_run st n = Some run" "rs_header st = Some h"
    "x \<in> set sigs"
  shows "signal_allowed ps h run x"
proof -
  obtain g c p tree where K: "get_coordinator_group st n = Inr g" "scan_process ps st n = Inr (c, p, tree)"
    "sigs = opt_signal Sigkill_group g @ opt_signal Sigkill c @ opt_signal Sigkill p @ map Sigkill tree"
    using assms(1) by (auto simp: kill_process_def get_process_tuple_def rbind_Inr_iff split: if_splits)
  have g: "g = ps_coordinator_pid run"
    using K(1) assms(2) by (auto simp: get_coordinator_group_def current_run_def last_opt_def split: option.splits list.splits)
  note scan = scan_process_owned [OF K(2) assms(2,3)]
  consider m where "g = Some m" "x = Sigkill_group m" | m where "c = Some m" "x = Sigkill m"
    | m where "p = Some m" "x = Sigkill m" | m where "m \<in> set tree" "x = Sigkill m"
    using assms(4) by (auto simp: K(3) opt_signal_mem)
  then show ?thesis
  proof cases
    case 1
    then show ?thesis using g by (simp add: signal_allowed_def)
  next
    case 2
    then show ?thesis using scan by (auto simp: signal_allowed_def)
  next
    case 3
    then obtain k q where "ps_pid run = Some k" "ps k = Ps_value q" "owned q h (ps_start_time run)" "m = pp_pid q"
      using scan by auto
    then show ?thesis using 3 by (auto simp: signal_allowed_def)
  next
    case 4
    then obtain k q where "ps_pid run = Some k" "ps k = Ps_value q" "owned q h (ps_start_time run)"
      "pp_children q = Ps_value tree"
      using scan by (cases tree) auto
    then show ?thesis using 4 by (auto simp: signal_allowed_def)
  qed
qed

theorem kill_signals_owned_witness:
  "\<exists>st sigs run. kill_process sample_table st (Some ''p'') = Inr (sigs, True) \<and>
     sigs = [Sigkill_group 7, Sigkill 7] \<and> (\<forall>x\<in>set sigs. signal_allowed sample_table sample_header run x)"
proof -
  obtain st :: runner_state where st: "rs_header st = Some sample_header"
    "rs_processes st = Map.empty(Some ''p'' \<mapsto> [(full_status ''p'' 2 P_RUNNING)\<lparr>ps_fork_time := Some 4,
        ps_stop_time := None, ps_return_code := None\<rparr>])"
    by (rule that [of "\<lparr>rs_header = Some sample_header, rs_statuses = None,
        rs_processes = Map.empty(Some ''p'' \<mapsto> [(full_status ''p'' 2 P_RUNNING)\<lparr>ps_fork_time := Some 4,
        ps_stop_time := None, ps_return_code := None\<rparr>])\<rparr>"]) simp_all
  let ?run = "(full_status ''p'' 2 P_RUNNING)\<lparr>ps_fork_time := Some 4, ps_stop_time := None, ps_return_code := None\<rparr>"
  have run: "current_run st (Some ''p'') = Some ?run" "rs_processes st (Some ''p'') = Some [?run]"
    using st by (simp_all add: current_run_def)
  have "live_process sample_table sample_header (Some 7) (Some 4) = Inr (Some \<lparr>pp_pid = 7, pp_create_time = Ps_value 3,
      pp_uids = Ps_value (Some 5), pp_username = Ps_value None, pp_children = Ps_value [8]\<rparr>)"
    by (simp add: live_process_def truthy_pid_def sample_table_def sample_header_def our_pid_def max_start_time_drift_def)
  moreover have "live_process sample_table sample_header (Some 8) (Some 2) = Inr None"
    by (simp add: live_process_def truthy_pid_def sample_table_def sample_header_def our_pid_def max_start_time_drift_def)
  ultimately have "scan_process sample_table st (Some ''p'') = Inr (Some 7, None, [])"
    using run(2) st(1) by (simp add: scan_process_def full_status_def)
  then have K: "kill_process sample_table st (Some ''p'') = Inr ([Sigkill_group 7, Sigkill 7], True)"
    using run(2) by (simp add: kill_process_def get_coordinator_group_def get_process_tuple_def opt_signal_def
        truthy_pid_def full_status_def)
  have "\<forall>x\<in>set [Sigkill_group 7, Sigkill 7]. signal_allowed sample_table sample_header ?run x"
    using kill_signals_owned [OF K run(1) st(1)] by blast
  then show ?thesis using K by blast
qed

end
