(* ===== verification/Sla.thy ===== *)
theory Sla
  imports Prelude "HOL-Library.AList" "HOL-Library.List_Lexorder" "HOL-Library.Char_ord"
begin

text \<open>
  The uptime SLA of jobs, \<^verbatim>\<open>apache/aurora/client/api/sla.py\<close>, with the grouping of hosts of
  \<^verbatim>\<open>apache/aurora/client/base.py\<close>: the uptime vector of a job, the wait until it meets its SLA, and
  which groups of hosts can go down without a job missing it.  Floating point numbers are rationals
  here; the order in which a Python set of jobs or hosts is walked is the order of first occurrence.
\<close>

section \<open>Groups of hosts\<close>

text \<open>\<^verbatim>\<open>GROUPING_FUNCTIONS\<close> maps the name of a grouping to a function from hosts to group keys.\<close>

type_synonym grouping_table = "(string \<times> (string \<Rightarrow> string)) list"

definition group_by_host :: "string \<Rightarrow> string" where
  "group_by_host h = h"

definition no_grouping :: "string \<Rightarrow> string" where
  "no_grouping h = ''_all_hosts_''"

definition grouping_functions :: grouping_table where
  "grouping_functions = [(''by_host'', group_by_host), (''none'', no_grouping)]"

definition add_grouping :: "string \<Rightarrow> (string \<Rightarrow> string) \<Rightarrow> grouping_table \<Rightarrow> grouping_table" where
  "add_grouping name f t = AList.update name f t"

definition remove_grouping :: "string \<Rightarrow> grouping_table \<Rightarrow> pyexc + grouping_table" where
  "remove_grouping name t = (if name \<in> fst ` set t then Inr (AList.delete name t) else Inl KeyError)"

text \<open>\<^verbatim>\<open>die\<close> ends the program.\<close>

datatype client_exit = Die

definition get_grouping_or_die :: "grouping_table \<Rightarrow> string \<Rightarrow> client_exit + (string \<Rightarrow> string)" where
  "get_grouping_or_die t name = (case map_of t name of None \<Rightarrow> Inl Die | Some f \<Rightarrow> Inr f)"

type_synonym host_groups = "(string \<times> string list) list"

definition group_with :: "(string \<Rightarrow> string) \<Rightarrow> string list \<Rightarrow> host_groups" where
  "group_with f hosts = map (\<lambda>k. (k, remdups (filter (\<lambda>h. f h = k) hosts))) (remdups (map f hosts))"

definition group_hosts :: "grouping_table \<Rightarrow> string list \<Rightarrow> string \<Rightarrow> client_exit + host_groups" where
  "group_hosts t hosts name = rbind (get_grouping_or_die t name) (\<lambda>f. Inr (group_with f hosts))"

section \<open>The uptime vector of a job\<close>

record job_key =
  jk_role :: string
  jk_env :: string
  jk_name :: string

datatype schedule_status = S_INIT | S_THROTTLED | S_PENDING | S_ASSIGNED | S_STARTING | S_RUNNING
  | S_FINISHED | S_PREEMPTING | S_RESTARTING | S_DRAINING | S_LOST | S_KILLED | S_FAILED | S_KILLING
  | S_PARTITIONED

record sched_task =
  tk_job :: job_key
  tk_host :: string
  tk_instance :: int
  tk_production :: bool
  tk_events :: "(schedule_status \<times> int) list"

text \<open>\<^verbatim>\<open>_instance_uptime\<close>: the first \<^verbatim>\<open>RUNNING\<close> event of a task counts, its time stamp in
  milliseconds; a later task of the same instance wins.\<close>

definition running_since :: "sched_task \<Rightarrow> int option" where
  "running_since t = map_option snd (find (\<lambda>e. fst e = S_RUNNING) (tk_events t))"

definition add_uptime :: "rat \<Rightarrow> sched_task \<Rightarrow> (int \<times> rat) list \<Rightarrow> (int \<times> rat) list" where
  "add_uptime now t m =
     (case running_since t of
        None \<Rightarrow> m
      | Some ms \<Rightarrow> AList.update (tk_instance t) (of_int \<lfloor>now - of_int ms / 1000\<rfloor>) m)"

definition instance_uptime :: "sched_task list \<Rightarrow> rat \<Rightarrow> (int \<times> rat) list" where
  "instance_uptime tasks now = fold (add_uptime now) tasks []"

definition uptimes :: "sched_task list \<Rightarrow> rat \<Rightarrow> rat list" where
  "uptimes tasks now = map snd (instance_uptime tasks now)"

definition total_or :: "nat option \<Rightarrow> nat \<Rightarrow> nat" where
  "total_or given n = (case given of None \<Rightarrow> n | Some k \<Rightarrow> if k = 0 then n else k)"

definition get_task_up_count :: "rat list \<Rightarrow> rat \<Rightarrow> nat option \<Rightarrow> rat" where
  "get_task_up_count ups duration total_tasks =
     (let n = total_or total_tasks (length ups);
          above = length (filter (\<lambda>u. u \<ge> duration) ups)
      in if n = 0 then 0 else 100 * of_nat above / of_nat n)"

definition get_wait_time_to_sla :: "rat list \<Rightarrow> rat \<Rightarrow> rat \<Rightarrow> nat option \<Rightarrow> rat option" where
  "get_wait_time_to_sla ups percentile duration total_tasks =
     (if get_task_up_count ups duration total_tasks \<ge> percentile then Some 0
      else let elements = int (length ups);
               n = total_or total_tasks (length ups);
               target_count = \<lceil>of_nat n * percentile / 100\<rceil>;
               index = elements - target_count
           in if index < 0 \<or> index \<ge> elements then None
              else Some (duration - sort ups ! nat index))"

definition get_job_uptime :: "rat list \<Rightarrow> rat \<Rightarrow> pyexc + rat" where
  "get_job_uptime ups percentile =
     (if percentile \<le> 0 \<or> percentile \<ge> 100 then Inl ValueError
      else let n = int (length ups);
               index = n - \<lfloor>percentile / 100 * of_int n\<rfloor> - 1
           in Inr (if 0 \<le> index \<and> index < n then sort ups ! nat index else 0))"

section \<open>All jobs of a cluster\<close>

record job_limit =
  jl_job :: job_key
  jl_percentage :: rat
  jl_duration :: rat

record job_details =
  jd_job :: job_key
  jd_percentage :: rat
  jd_safe :: bool
  jd_safe_in :: "rat option"

record domain =
  dm_tasks :: "sched_task list"
  dm_min_count :: int
  dm_now :: rat
  dm_hosts :: "string list option"

definition tasks_by_job :: "domain \<Rightarrow> job_key \<Rightarrow> sched_task list" where
  "tasks_by_job d j =
     (let ts = filter (\<lambda>t. tk_production t \<and> tk_job t = j) (dm_tasks d)
      in if int (length ts) \<ge> dm_min_count d then ts else [])"

definition domain_jobs :: "domain \<Rightarrow> job_key list" where
  "domain_jobs d = filter (\<lambda>j. tasks_by_job d j \<noteq> [])
     (remdups (map tk_job (filter tk_production (dm_tasks d))))"

definition jobs_by_host :: "domain \<Rightarrow> string \<Rightarrow> job_key list" where
  "jobs_by_host d h = filter (\<lambda>j. h \<in> tk_host ` set (tasks_by_job d j)) (domain_jobs d)"

definition hosts_by_job :: "domain \<Rightarrow> job_key \<Rightarrow> string set" where
  "hosts_by_job d j = tk_host ` set (tasks_by_job d j)"

definition known_hosts :: "domain \<Rightarrow> string list" where
  "known_hosts d = filter (\<lambda>h. jobs_by_host d h \<noteq> []) (remdups (map tk_host (dm_tasks d)))"

definition simulate_hosts_down :: "domain \<Rightarrow> job_key \<Rightarrow> string list \<Rightarrow> rat \<Rightarrow> rat \<times> nat \<times> rat list" where
  "simulate_hosts_down d j hosts duration =
     (let total_count = length (tasks_by_job d j);
          ups = uptimes (filter (\<lambda>t. tk_host t \<notin> set hosts) (tasks_by_job d j)) (dm_now d)
      in (get_task_up_count ups duration (Some total_count), total_count, ups))"

text \<open>\<^verbatim>\<open>_iter_groups\<close>: the hosts of each group with the jobs on those of them that pass the filter;
  an empty filter is no filter.\<close>

definition passes_filter :: "string list option \<Rightarrow> string \<Rightarrow> bool" where
  "passes_filter host_filter h = (case host_filter of None \<Rightarrow> True | Some hs \<Rightarrow> hs = [] \<or> h \<in> set hs)"

definition group_jobs :: "domain \<Rightarrow> string list option \<Rightarrow> string list \<Rightarrow> job_key list" where
  "group_jobs d host_filter hosts =
     remdups (concat (map (jobs_by_host d) (filter (passes_filter host_filter) hosts)))"

definition iter_groups :: "domain \<Rightarrow> grouping_table \<Rightarrow> string \<Rightarrow> string list \<Rightarrow> string list option
    \<Rightarrow> client_exit + (string list \<times> job_key list) list" where
  "iter_groups d t grouping hosts host_filter =
     rbind (group_hosts t hosts grouping) (\<lambda>gs.
       Inr (map (\<lambda>g. (snd g, group_jobs d host_filter (snd g))) (sort_key fst gs)))"

definition job_hosts :: "domain \<Rightarrow> string list \<Rightarrow> job_key \<Rightarrow> string list" where
  "job_hosts d hosts j = filter (\<lambda>h. h \<in> hosts_by_job d j) hosts"

definition limit_for :: "(job_key \<times> job_limit) list option \<Rightarrow> rat \<Rightarrow> rat \<Rightarrow> job_key \<Rightarrow> rat \<times> rat" where
  "limit_for limits percentage duration j =
     (case limits of
        None \<Rightarrow> (percentage, duration)
      | Some ls \<Rightarrow> (case map_of ls j of
                      None \<Rightarrow> (percentage, duration)
                    | Some l \<Rightarrow> (jl_percentage l, jl_duration l)))"

definition safe_limit :: "domain \<Rightarrow> (job_key \<times> job_limit) list option \<Rightarrow> rat \<Rightarrow> rat \<Rightarrow> string list \<Rightarrow> job_key
    \<Rightarrow> job_limit option" where
  "safe_limit d limits percentage duration hosts j =
     (case limit_for limits percentage duration j of
        (job_percentage, job_duration) \<Rightarrow>
          (let filtered = fst (simulate_hosts_down d j (job_hosts d hosts j) job_duration)
           in if filtered < job_percentage then None
              else Some \<lparr>jl_job = j, jl_percentage = filtered, jl_duration = job_duration\<rparr>))"

text \<open>The dictionary of a group: each host with its jobs, in the order they were looked at.\<close>

definition by_host :: "string list \<Rightarrow> (job_key \<times> string list \<times> 'a) list \<Rightarrow> (string \<times> 'a list) list" where
  "by_host hosts rows = filter (\<lambda>p. snd p \<noteq> [])
     (map (\<lambda>h. (h, map (\<lambda>r. snd (snd r)) (filter (\<lambda>r. h \<in> set (fst (snd r))) rows))) hosts)"

definition safe_group :: "domain \<Rightarrow> (job_key \<times> job_limit) list option \<Rightarrow> rat \<Rightarrow> rat \<Rightarrow> string list \<times> job_key list
    \<Rightarrow> (string \<times> job_limit list) list option" where
  "safe_group d limits percentage duration g =
     (case g of (hosts, jobs) \<Rightarrow>
        if list_ex (\<lambda>j. safe_limit d limits percentage duration hosts j = None) jobs then None
        else Some (by_host hosts
               (map (\<lambda>j. (j, job_hosts d hosts j, the (safe_limit d limits percentage duration hosts j))) jobs)))"

definition get_safe_hosts :: "domain \<Rightarrow> grouping_table \<Rightarrow> rat \<Rightarrow> rat \<Rightarrow> (job_key \<times> job_limit) list option \<Rightarrow> string
    \<Rightarrow> client_exit + (string \<times> job_limit list) list list" where
  "get_safe_hosts d t percentage duration limits grouping =
     rbind (iter_groups d t grouping (known_hosts d) (dm_hosts d)) (\<lambda>gs.
       Inr (List.map_filter (safe_group d limits percentage duration) gs))"

definition probe_details :: "domain \<Rightarrow> rat \<Rightarrow> rat \<Rightarrow> string list \<Rightarrow> job_key \<Rightarrow> job_details" where
  "probe_details d percentage duration hosts j =
     (case simulate_hosts_down d j (job_hosts d hosts j) duration of
        (filtered, total_count, ups) \<Rightarrow>
          (if filtered < percentage
           then \<lparr>jd_job = j, jd_percentage = filtered, jd_safe = False,
                 jd_safe_in = get_wait_time_to_sla ups percentage duration (Some total_count)\<rparr>
           else \<lparr>jd_job = j, jd_percentage = filtered, jd_safe = True, jd_safe_in = Some 0\<rparr>))"

definition probe_hosts :: "domain \<Rightarrow> grouping_table \<Rightarrow> rat \<Rightarrow> rat \<Rightarrow> string
    \<Rightarrow> client_exit + (string \<times> job_details list) list list" where
  "probe_hosts d t percentage duration grouping =
     rbind (iter_groups d t grouping (case dm_hosts d of None \<Rightarrow> [] | Some hs \<Rightarrow> hs) None) (\<lambda>gs.
       Inr (filter (\<lambda>g. g \<noteq> [])
         (map (\<lambda>(hosts, jobs). by_host hosts
            (map (\<lambda>j. (j, job_hosts d hosts j, probe_details d percentage duration hosts j)) jobs)) gs)))"

text \<open>\<^verbatim>\<open>get_domain_uptime_vector\<close>: \<open>query\<close> is the scheduler's answer to a task query by hosts or by
  jobs, \<open>None\<close> a response that is not \<^verbatim>\<open>OK\<close>.  With hosts given but no job found the cluster is not pulled.\<close>

definition get_tasks :: "('q \<Rightarrow> sched_task list option) \<Rightarrow> 'q \<Rightarrow> sched_task list" where
  "get_tasks query q = (case query q of None \<Rightarrow> [] | Some ts \<Rightarrow> ts)"

datatype sla_query = By_hosts "string list" | By_jobs "job_key list" | Everything

definition get_domain_uptime_vector :: "(sla_query \<Rightarrow> sched_task list option) \<Rightarrow> rat \<Rightarrow> int \<Rightarrow> string list option
    \<Rightarrow> domain" where
  "get_domain_uptime_vector query now min_count hosts =
     (let given = (case hosts of None \<Rightarrow> [] | Some hs \<Rightarrow> hs);
          jobs = (if given = [] then []
                  else remdups (map tk_job (get_tasks query (By_hosts given))));
          tasks = (if given \<noteq> [] \<and> jobs = [] then []
                   else if jobs = [] then get_tasks query Everything
                   else get_tasks query (By_jobs jobs))
      in \<lparr>dm_tasks = tasks, dm_min_count = min_count, dm_now = now, dm_hosts = hosts\<rparr>)"

section \<open>Waiting for the SLA\<close>

definition ups_above :: "rat list \<Rightarrow> rat \<Rightarrow> nat" where
  "ups_above ups x = length (filter (\<lambda>u. u \<ge> x) ups)"

lemma ups_above_sort: "ups_above (sort ups) x = ups_above ups x"
  by (simp add: ups_above_def filter_sort)

lemma ups_above_le: "ups_above ups x \<le> length ups"
  by (simp add: ups_above_def)

lemma ups_above_mono: "x \<le> y \<Longrightarrow> ups_above ups y \<le> ups_above ups x"
  by (induction ups) (auto simp: ups_above_def)

lemma ups_above_shift: "ups_above (map (\<lambda>u. u + w) ups) x = ups_above ups (x - w)"
  by (induction ups) (auto simp: ups_above_def algebra_simps)

lemma sorted_above:
  assumes "sorted s" "i < length s"
  shows "length s - i \<le> ups_above s (s ! i)"
    "y > s ! i \<Longrightarrow> ups_above s y \<le> length s - Suc i"
proof -
  have "\<forall>u\<in>set (drop i s). u \<ge> s ! i"
    using assms by (force simp: in_set_conv_nth intro: sorted_nth_mono)
  then have "filter (\<lambda>u. u \<ge> s ! i) (drop i s) = drop i s" by simp
  then have "ups_above s (s ! i) = length (filter (\<lambda>u. u \<ge> s ! i) (take i s)) + length (drop i s)"
    unfolding ups_above_def
    by (subst append_take_drop_id [of i s, symmetric], subst filter_append) (simp del: append_take_drop_id)
  then show "length s - i \<le> ups_above s (s ! i)" by simp
  assume y: "y > s ! i"
  have "\<forall>u\<in>set (take (Suc i) s). u \<le> s ! i"
    using assms by (force simp: in_set_conv_nth intro: sorted_nth_mono)
  then have "filter (\<lambda>u. u \<ge> y) (take (Suc i) s) = []" using y by (auto simp: filter_empty_conv)
  then have "ups_above s y = length (filter (\<lambda>u. u \<ge> y) (drop (Suc i) s))"
    unfolding ups_above_def
    by (subst append_take_drop_id [of "Suc i" s, symmetric], subst filter_append) (simp del: append_take_drop_id)
  also have "\<dots> \<le> length (drop (Suc i) s)" by (rule length_filter_le)
  finally show "ups_above s y \<le> length s - Suc i" by simp
qed

lemma up_count_above:
  "get_task_up_count ups d t =
     (if total_or t (length ups) = 0 then 0 else 100 * of_nat (ups_above ups d) / of_nat (total_or t (length ups)))"
  by (simp add: get_task_up_count_def ups_above_def Let_def)

text \<open>The uptimes \<open>w\<close> seconds from now, when nothing restarts.\<close>

definition later :: "rat \<Rightarrow> rat list \<Rightarrow> rat list" where
  "later w ups = map (\<lambda>u. u + w) ups"

lemma later_simps [simp]: "length (later w ups) = length ups" "ups_above (later w ups) d = ups_above ups (d - w)"
  by (simp_all add: later_def ups_above_shift)

lemma up_count_later:
  "get_task_up_count (later w ups) d t =
     (if total_or t (length ups) = 0 then 0
      else 100 * of_nat (ups_above ups (d - w)) / of_nat (total_or t (length ups)))"
  by (simp add: up_count_above later_def ups_above_shift)

lemma reaches_iff:
  fixes p :: rat
  assumes "n > 0"
  shows "100 * of_nat k / of_nat n \<ge> p \<longleftrightarrow> \<lceil>of_nat n * p / 100\<rceil> \<le> int k"
proof -
  have "100 * of_nat k / of_nat n \<ge> p \<longleftrightarrow> of_nat n * p / 100 \<le> of_nat k"
    using assms by (simp add: field_simps)
  also have "\<dots> \<longleftrightarrow> \<lceil>of_nat n * p / 100\<rceil> \<le> int k"
    by (simp add: ceiling_le_iff)
  finally show ?thesis .
qed

lemma wait_correct:
  assumes "get_wait_time_to_sla ups p d t = Some w"
  shows "0 \<le> w \<and> p \<le> get_task_up_count (later w ups) d t \<and>
    (\<forall>v. 0 \<le> v \<and> v < w \<longrightarrow> get_task_up_count (later v ups) d t < p)"
proof (cases "get_task_up_count ups d t \<ge> p")
  case True
  then have "w = 0" using assms by (simp add: get_wait_time_to_sla_def)
  then show ?thesis using True by (auto simp: later_def)
next
  case False
  let ?n = "total_or t (length ups)" and ?s = "sort ups"
  let ?t = "\<lceil>of_nat ?n * p / 100\<rceil>"
  define i where "i = int (length ups) - ?t"
  have i: "0 \<le> i" "i < int (length ups)" and w: "w = d - ?s ! nat i"
    using assms False by (auto simp: get_wait_time_to_sla_def Let_def i_def split: if_splits)
  have n: "?n > 0" using i by (auto simp: total_or_def split: option.splits)
  have len: "nat i < length ?s" using i by simp
  have up: "p \<le> get_task_up_count (later v ups) d t \<longleftrightarrow> ?t \<le> int (ups_above ?s (d - v))" for v
    using n reaches_iff [OF n] by (simp add: up_count_later ups_above_sort)
  have lo: "length ?s - nat i \<le> ups_above ?s (?s ! nat i)"
    by (rule sorted_above(1)) (use len in simp_all)
  have t: "?t = int (length ups) - i" by (simp add: i_def)
  have ok: "p \<le> get_task_up_count (later w ups) d t"
    unfolding up t using lo i w by simp
  have below: "\<not> p \<le> get_task_up_count (later v ups) d t" if "v < w" for v
  proof -
    have "ups_above ?s (d - v) \<le> length ?s - Suc (nat i)"
      by (rule sorted_above(2)) (use len that w in simp_all)
    then show ?thesis unfolding up t using i by auto
  qed
  have "0 \<le> w"
  proof (rule ccontr)
    assume "\<not> 0 \<le> w"
    then have "ups_above ups (d - w) \<le> ups_above ups d" by (intro ups_above_mono) simp
    then have "get_task_up_count (later w ups) d t \<le> get_task_up_count ups d t"
      using n by (simp add: up_count_later up_count_above divide_right_mono)
    then show False using ok False by simp
  qed
  then show ?thesis using ok below by (auto simp: not_le)
qed

lemma wait_infeasible:
  assumes "get_wait_time_to_sla ups p d t = None"
  shows "get_task_up_count (later v ups) d t < p"
proof -
  let ?n = "total_or t (length ups)"
  have low: "get_task_up_count ups d t < p"
    using assms by (auto simp: get_wait_time_to_sla_def split: if_splits)
  show ?thesis
  proof (cases "?n = 0")
    case True
    then show ?thesis using low by (simp add: up_count_later up_count_above)
  next
    case False
    then have n: "?n > 0" by simp
    have "\<not> \<lceil>of_nat ?n * p / 100\<rceil> \<le> int (ups_above ups d)"
      unfolding reaches_iff [OF n, symmetric] using low n by (simp add: up_count_above not_le)
    then have "0 < \<lceil>of_nat ?n * p / 100\<rceil>" by linarith
    then have "\<lceil>of_nat ?n * p / 100\<rceil> > int (length ups)"
      using assms low by (auto simp: get_wait_time_to_sla_def Let_def split: if_splits)
    then have "\<not> \<lceil>of_nat ?n * p / 100\<rceil> \<le> int (ups_above ups (d - v))"
      using ups_above_le [of ups "d - v"] by linarith
    then show ?thesis
      unfolding reaches_iff [OF n, symmetric] using n by (simp add: up_count_later not_le)
  qed
qed

section \<open>Groups that can go down\<close>

lemma tasks_by_job_in:
  "t \<in> set (tasks_by_job d j) \<Longrightarrow> j \<in> set (domain_jobs d) \<and> tk_job t = j"
proof -
  assume t: "t \<in> set (tasks_by_job d j)"
  then have "t \<in> set (dm_tasks d)" "tk_production t" "tk_job t = j"
    by (auto simp: tasks_by_job_def Let_def split: if_splits)
  moreover have "tasks_by_job d j \<noteq> []" using t by auto
  ultimately show ?thesis by (auto simp: domain_jobs_def)
qed

lemma group_jobs_in:
  assumes "t \<in> set (tasks_by_job d j)" "tk_host t \<in> set hosts" "passes_filter f (tk_host t)"
  shows "j \<in> set (group_jobs d f hosts)"
proof -
  have "j \<in> set (jobs_by_host d (tk_host t))"
    using assms(1) tasks_by_job_in [OF assms(1)] by (auto simp: jobs_by_host_def)
  then show ?thesis using assms(2,3) by (auto simp: group_jobs_def)
qed

lemma job_hosts_down:
  "filter (\<lambda>t. tk_host t \<notin> set (job_hosts d hosts j)) (tasks_by_job d j) =
   filter (\<lambda>t. tk_host t \<notin> set hosts) (tasks_by_job d j)"
  by (rule filter_cong) (auto simp: job_hosts_def hosts_by_job_def)

definition up_without :: "domain \<Rightarrow> job_key \<Rightarrow> string list \<Rightarrow> rat \<Rightarrow> rat" where
  "up_without d j hosts duration =
     get_task_up_count (uptimes (filter (\<lambda>t. tk_host t \<notin> set hosts) (tasks_by_job d j)) (dm_now d)) duration
       (Some (length (tasks_by_job d j)))"

lemma simulate_up_without: "fst (simulate_hosts_down d j (job_hosts d hosts j) duration) = up_without d j hosts duration"
  by (simp add: simulate_hosts_down_def up_without_def job_hosts_down Let_def)

lemma safe_limit_Some:
  "safe_limit d limits p dur hosts j \<noteq> None \<longleftrightarrow>
     fst (limit_for limits p dur j) \<le> up_without d j hosts (snd (limit_for limits p dur j))"
  by (auto simp: safe_limit_def simulate_up_without Let_def split: prod.split)

lemma safe_group_Some:
  assumes "safe_group d limits p dur (hosts, jobs) = Some g"
  shows "(\<forall>j\<in>set jobs. fst (limit_for limits p dur j) \<le> up_without d j hosts (snd (limit_for limits p dur j))) \<and>
    fst ` set g \<subseteq> set hosts"
  using assms safe_limit_Some [of d limits p dur hosts]
  by (auto simp: safe_group_def list_ex_iff by_host_def split: if_splits)

section \<open>Properties\<close>

text \<open>C22: the wait that \<open>get_wait_time_to_sla\<close> reports is the least one after which, if no
  instance restarts meanwhile, the job meets the SLA; without a wait no amount of time is enough.\<close>

theorem wait_to_sla_least:
  "case get_wait_time_to_sla ups p d t of
     None \<Rightarrow> \<forall>v. get_task_up_count (later v ups) d t < p
   | Some w \<Rightarrow> 0 \<le> w \<and> p \<le> get_task_up_count (later w ups) d t \<and>
       (\<forall>v. 0 \<le> v \<and> v < w \<longrightarrow> get_task_up_count (later v ups) d t < p)"
  using wait_correct [of ups p d t] wait_infeasible [of ups p d t] by (auto split: option.split)

theorem wait_to_sla_least_witness:
  "get_wait_time_to_sla [10, 40, 5, 7] 50 30 None = Some 20 \<and>
   get_task_up_count (later 20 [10, 40, 5, 7]) 30 None \<ge> 50 \<and> get_task_up_count (later 19 [10, 40, 5, 7]) 30 None < 50"
proof -
  have w: "get_wait_time_to_sla [10, 40, 5, 7] 50 30 None = Some 20"
    by (simp add: get_wait_time_to_sla_def get_task_up_count_def total_or_def Let_def)
  then show ?thesis using wait_to_sla_least [where ups = "[10, 40, 5, 7]" and p = 50 and d = 30 and t = None] by simp
qed

text \<open>C30: The hosts of a group that \<open>get_safe_hosts\<close> returns can all go down together: for
  every job with a counted task on one of the group's hosts (that passes the host filter), the share of
  the job's tasks that are up elsewhere for the job's duration still meets the job's limit.\<close>

theorem safe_hosts_keep_sla:
  assumes "get_safe_hosts d t p dur limits grouping = Inr groups" "g \<in> set groups"
  shows "\<exists>k hosts gs. group_hosts t (known_hosts d) grouping = Inr gs \<and> (k, hosts) \<in> set gs \<and> fst ` set g \<subseteq> set hosts \<and>
    (\<forall>j. \<forall>x\<in>set (tasks_by_job d j). tk_host x \<in> set hosts \<and> passes_filter (dm_hosts d) (tk_host x) \<longrightarrow>
       fst (limit_for limits p dur j) \<le> up_without d j hosts (snd (limit_for limits p dur j)))"
proof -
  obtain gs where gs: "group_hosts t (known_hosts d) grouping = Inr gs"
    "groups = List.map_filter (safe_group d limits p dur)
       (map (\<lambda>g. (snd g, group_jobs d (dm_hosts d) (snd g))) (sort_key fst gs))"
    using assms(1) by (auto simp: get_safe_hosts_def iter_groups_def rbind_Inr_iff)
  then obtain k hosts where g: "(k, hosts) \<in> set gs"
    "safe_group d limits p dur (hosts, group_jobs d (dm_hosts d) hosts) = Some g"
    using assms(2) by (auto simp: map_filter_def)
  have "fst (limit_for limits p dur j) \<le> up_without d j hosts (snd (limit_for limits p dur j))"
    if "x \<in> set (tasks_by_job d j)" "tk_host x \<in> set hosts" "passes_filter (dm_hosts d) (tk_host x)" for j x
    using safe_group_Some [OF g(2)] group_jobs_in [OF that] by blast
  then show ?thesis using gs(1) g(1) safe_group_Some [OF g(2)] by blast
qed

definition sla_job :: job_key where
  "sla_job = \<lparr>jk_role = ''r'', jk_env = ''e'', jk_name = ''n''\<rparr>"

definition sla_task :: "string \<Rightarrow> int \<Rightarrow> sched_task" where
  "sla_task h i = \<lparr>tk_job = sla_job, tk_host = h, tk_instance = i, tk_production = True,
     tk_events = [(S_PENDING, 0), (S_RUNNING, 5000)]\<rparr>"

definition sample_domain :: domain where
  "sample_domain = \<lparr>dm_tasks = [sla_task ''a'' 0, sla_task ''b'' 1], dm_min_count = 2, dm_now = 100, dm_hosts = None\<rparr>"

lemma sla_task_sel [simp]:
  "tk_job (sla_task h i) = sla_job" "tk_host (sla_task h i) = h" "tk_instance (sla_task h i) = i"
  "tk_production (sla_task h i)" "running_since (sla_task h i) = Some 5000"
  by (simp_all add: sla_task_def running_since_def)

lemma sample_domain_sel [simp]:
  "dm_tasks sample_domain = [sla_task ''a'' 0, sla_task ''b'' 1]" "dm_now sample_domain = 100"
  "dm_hosts sample_domain = None" "dm_min_count sample_domain = 2"
  by (simp_all add: sample_domain_def)

lemma sample_jobs: "tasks_by_job sample_domain j = (if j = sla_job then [sla_task ''a'' 0, sla_task ''b'' 1] else [])"
  by (auto simp: tasks_by_job_def Let_def)

lemma sample_hosts: "tk_host ` set (tasks_by_job sample_domain j) = (if j = sla_job then {''a'', ''b''} else {})"
  by (auto simp: sample_jobs image_def)

lemma sample_by_job: "hosts_by_job sample_domain j = (if j = sla_job then {''a'', ''b''} else {})"
  by (simp only: hosts_by_job_def sample_hosts)

lemma sample_safe: "safe_group sample_domain None 50 60 ([''a''], [sla_job]) =
    Some [(''a'', [\<lparr>jl_job = sla_job, jl_percentage = 50, jl_duration = 60\<rparr>])]"
  by (simp add: safe_group_def safe_limit_def limit_for_def simulate_hosts_down_def job_hosts_def sample_by_job
      sample_jobs by_host_def uptimes_def instance_uptime_def add_uptime_def get_task_up_count_def total_or_def Let_def)

theorem safe_hosts_keep_sla_witness:
  "\<exists>groups. get_safe_hosts sample_domain grouping_functions 50 60 None ''by_host'' = Inr groups \<and>
     (\<exists>g k hosts gs. g \<in> set groups \<and> fst ` set g = {''a''} \<and>
        group_hosts grouping_functions (known_hosts sample_domain) ''by_host'' = Inr gs \<and> (k, hosts) \<in> set gs \<and>
        ''a'' \<in> set hosts)"
proof -
  have jobs: "jobs_by_host sample_domain h = (if h \<in> {''a'', ''b''} then [sla_job] else [])" for h
    by (auto simp: jobs_by_host_def domain_jobs_def sample_hosts) (auto simp: sample_jobs)
  have hosts: "known_hosts sample_domain = [''a'', ''b'']"
    by (simp add: known_hosts_def jobs)
  have "group_hosts grouping_functions [''a'', ''b''] ''by_host'' = Inr [(''a'', [''a'']), (''b'', [''b''])]"
    by (simp add: group_hosts_def get_grouping_or_die_def grouping_functions_def group_with_def group_by_host_def)
  then have G: "get_safe_hosts sample_domain grouping_functions 50 60 None ''by_host'' =
      Inr (List.map_filter (safe_group sample_domain None 50 60) [([''a''], [sla_job]), ([''b''], [sla_job])])"
    by (simp add: get_safe_hosts_def iter_groups_def hosts group_jobs_def jobs passes_filter_def)
  let ?g = "[(''a'', [\<lparr>jl_job = sla_job, jl_percentage = 50, jl_duration = (60 :: rat)\<rparr>])]"
  have g: "?g \<in> set (List.map_filter (safe_group sample_domain None 50 60) [([''a''], [sla_job]), ([''b''], [sla_job])])"
    by (simp add: map_filter_def sample_safe)
  show ?thesis using safe_hosts_keep_sla [OF G g] G g by fastforce
qed

end
