(* ===== verification/HostMaintenance.thy ===== *)
theory HostMaintenance
  imports Sla
begin

text \<open>
  Host maintenance, \<^verbatim>\<open>apache/aurora/admin/host_maintenance.py\<close>, with the formatting of SLA results
  of \<^verbatim>\<open>apache/aurora/admin/admin_util.py\<close>: batches of hosts are checked against the SLA, drained, and
  handed to a callback.  The scheduler's answers are arguments: \<open>None\<close> is a response that is not \<^verbatim>\<open>OK\<close>,
  which ends the program.
\<close>

section \<open>SLA results\<close>

definition included :: "bool \<Rightarrow> job_details \<Rightarrow> bool" where
  "included unsafe_only d = (if unsafe_only then \<not> jd_safe d else True)"

text \<open>The rows that are printed, per host, and the hosts with at least one row.\<close>

definition format_sla_results :: "bool \<Rightarrow> (string \<times> job_details list) list list
    \<Rightarrow> (string \<times> job_details list) list \<times> string list" where
  "format_sla_results unsafe_only groups =
     (let rows = filter (\<lambda>r. snd r \<noteq> [])
            (concat (map (\<lambda>g. map (\<lambda>p. (fst p, filter (included unsafe_only) (snd p))) (sort_key fst g)) groups))
      in (rows, remdups (map fst rows)))"

definition sla_min_job_instance_count :: int where
  "sla_min_job_instance_count = 20"

text \<open>\<^verbatim>\<open>_check_sla\<close>: \<open>query\<close> is the scheduler's answer to the queries for the tasks.\<close>

definition check_sla :: "(sla_query \<Rightarrow> sched_task list option) \<Rightarrow> rat \<Rightarrow> grouping_table \<Rightarrow> string list \<Rightarrow> string
    \<Rightarrow> rat \<Rightarrow> rat \<Rightarrow> client_exit + string list" where
  "check_sla query now t hosts grouping percentage duration =
     rbind (probe_hosts (get_domain_uptime_vector query now sla_min_job_instance_count (Some hosts)) t
              percentage duration grouping) (\<lambda>groups.
       Inr (if groups = [] then []
            else if length groups > 1 then hosts
            else snd (format_sla_results True groups)))"

section \<open>Draining\<close>

datatype maintenance_mode = M_NONE | M_SCHEDULED | M_DRAINING | M_DRAINED

type_synonym host_statuses = "(string \<times> maintenance_mode) list"

definition check_status :: "(string list \<Rightarrow> host_statuses option) \<Rightarrow> string list \<Rightarrow> client_exit + host_statuses" where
  "check_status query hosts = (case query (remdups hosts) of None \<Rightarrow> Inl Die | Some st \<Rightarrow> Inr st)"

definition status_poll_interval :: int where
  "status_poll_interval = 5"

definition max_status_wait :: int where
  "max_status_wait = 300"

text \<open>The loop of \<^verbatim>\<open>_drain_hosts\<close>: \<open>interrupted k\<close> is the wait event before poll \<open>k\<close>, \<open>query k\<close> the
  scheduler at that poll.  The waiting time is bounded, so the loop ends.\<close>

function drain_loop :: "(nat \<Rightarrow> bool) \<Rightarrow> (nat \<Rightarrow> string list \<Rightarrow> host_statuses option) \<Rightarrow> nat \<Rightarrow> int \<Rightarrow> string list
    \<Rightarrow> client_exit + string list" where
  "drain_loop interrupted query k total_wait pending =
     (if interrupted k \<or> pending = [] then Inr pending
      else case check_status (query k) pending of
             Inl e \<Rightarrow> Inl e
           | Inr statuses \<Rightarrow>
               (let pending' = remdups (map fst (filter (\<lambda>h. snd h \<noteq> M_DRAINED) statuses));
                    total_wait' = total_wait + status_poll_interval
                in if pending' = [] then Inr []
                   else if total_wait' > max_status_wait then Inr pending'
                   else drain_loop interrupted query (Suc k) total_wait' pending'))"
  by pat_completeness auto

termination
  by (relation "measure (\<lambda>(_, _, _, total_wait, _). nat (max_status_wait + 1 - total_wait))")
     (auto simp: status_poll_interval_def max_status_wait_def)

declare drain_loop.simps [simp del]

record batch_env =
  be_tasks :: "sla_query \<Rightarrow> sched_task list option"
  be_now :: rat
  be_drain_ok :: bool
  be_interrupted :: "nat \<Rightarrow> bool"
  be_query :: "nat \<Rightarrow> string list \<Rightarrow> host_statuses option"

definition drain_hosts :: "batch_env \<Rightarrow> string list \<Rightarrow> client_exit + string list" where
  "drain_hosts env hosts =
     (if \<not> be_drain_ok env then Inl Die
      else drain_loop (be_interrupted env) (be_query env) 0 status_poll_interval hosts)"

section \<open>Maintenance\<close>

text \<open>Ending maintenance: the hosts that are still not out of it are logged.\<close>

definition complete_maintenance :: "bool \<Rightarrow> host_statuses \<Rightarrow> client_exit + string list" where
  "complete_maintenance ended statuses =
     (if \<not> ended then Inl Die else Inr (map fst (filter (\<lambda>h. snd h \<noteq> M_NONE) statuses)))"

text \<open>Starting it: the hosts that the scheduler knows; the others are logged.\<close>

definition start_maintenance :: "(string list \<Rightarrow> host_statuses option) \<Rightarrow> string list
    \<Rightarrow> client_exit + string list \<times> string list" where
  "start_maintenance start hosts =
     (case start (remdups hosts) of
        None \<Rightarrow> Inl Die
      | Some statuses \<Rightarrow>
          (let result = map fst statuses
           in Inr (result, if length result \<noteq> length hosts
                           then filter (\<lambda>h. h \<notin> set result) (remdups hosts) else [])))"

definition iter_batches :: "grouping_table \<Rightarrow> string list \<Rightarrow> string \<Rightarrow> client_exit + string list list" where
  "iter_batches t hosts grouping =
     rbind (group_hosts t hosts grouping) (\<lambda>gs. Inr (map snd (sort_key fst gs)))"

record maintenance =
  mt_not_drained :: "string list"
  mt_operated :: "string list"

text \<open>One batch: the unsafe hosts are skipped, the others drained, and the callback runs on those that
  are not in the set of hosts that were not drained so far.\<close>

definition maintain_batch :: "grouping_table \<Rightarrow> string \<Rightarrow> rat \<Rightarrow> rat \<Rightarrow> bool \<Rightarrow> batch_env \<Rightarrow> string list \<Rightarrow> maintenance
    \<Rightarrow> client_exit + maintenance" where
  "maintain_batch t grouping percentage duration callback env hosts m =
     rbind (check_sla (be_tasks env) (be_now env) t hosts grouping percentage duration) (\<lambda>unsafe.
       let failed = mt_not_drained m @ unsafe;
           drainable = filter (\<lambda>h. h \<notin> set unsafe) hosts
       in if unsafe \<noteq> [] \<and> drainable = [] then Inr (m\<lparr>mt_not_drained := failed\<rparr>)
          else rbind (drain_hosts env drainable) (\<lambda>left.
            Inr \<lparr>mt_not_drained = failed @ left,
                 mt_operated = mt_operated m @
                   (if callback then filter (\<lambda>h. h \<notin> set (failed @ left)) drainable else [])\<rparr>))"

fun maintain_batches :: "grouping_table \<Rightarrow> string \<Rightarrow> rat \<Rightarrow> rat \<Rightarrow> bool \<Rightarrow> (string list \<Rightarrow> batch_env) \<Rightarrow> string list list
    \<Rightarrow> maintenance \<Rightarrow> client_exit + maintenance" where
  "maintain_batches t grouping percentage duration callback env [] m = Inr m"
| "maintain_batches t grouping percentage duration callback env (hosts # batches) m =
     rbind (maintain_batch t grouping percentage duration callback (env hosts) hosts m)
       (maintain_batches t grouping percentage duration callback env batches)"

text \<open>The hosts that were drained, and the hosts on which the callback ran, in order.\<close>

definition perform_maintenance :: "(string list \<Rightarrow> host_statuses option) \<Rightarrow> grouping_table \<Rightarrow> string \<Rightarrow> rat \<Rightarrow> rat \<Rightarrow> bool
    \<Rightarrow> (string list \<Rightarrow> batch_env) \<Rightarrow> string list \<Rightarrow> client_exit + string list \<times> string list" where
  "perform_maintenance start t grouping percentage duration callback env hosts =
     rbind (start_maintenance start hosts) (\<lambda>(started, _).
     rbind (iter_batches t started grouping) (\<lambda>batches.
     rbind (maintain_batches t grouping percentage duration callback env batches
              \<lparr>mt_not_drained = [], mt_operated = []\<rparr>) (\<lambda>m.
       Inr (filter (\<lambda>h. h \<notin> set (mt_not_drained m)) (remdups started), mt_operated m))))"

definition perform_sla_maintenance :: "(string list \<Rightarrow> rat \<Rightarrow> rat \<Rightarrow> rat \<Rightarrow> bool) \<Rightarrow> string list \<Rightarrow> rat \<Rightarrow> rat \<Rightarrow> rat
    \<Rightarrow> client_exit + string list" where
  "perform_sla_maintenance sla_drain hosts percentage duration timeout =
     (if sla_drain (remdups hosts) percentage duration timeout then Inr (remdups hosts) else Inl Die)"

section \<open>What is drained is what is operated on\<close>

lemma unsafe_hosts:
  assumes "check_sla q now t hosts g p d = Inr unsafe"
  shows "set unsafe \<subseteq> set hosts"
proof -
  let ?d = "get_domain_uptime_vector q now sla_min_job_instance_count (Some hosts)"
  obtain groups where P: "probe_hosts ?d t p d g = Inr groups"
    "unsafe = (if groups = [] then [] else if length groups > 1 then hosts else snd (format_sla_results True groups))"
    using assms by (auto simp: check_sla_def rbind_Inr_iff)
  obtain f gs where gs: "gs = group_with f hosts"
    "groups = filter (\<lambda>g. g \<noteq> []) (map (\<lambda>(hosts, jobs). by_host hosts
       (map (\<lambda>j. (j, job_hosts ?d hosts j, probe_details ?d p d hosts j)) jobs))
       (map (\<lambda>g. (snd g, group_jobs ?d None (snd g))) (sort_key fst gs)))"
    using P(1) by (auto simp: probe_hosts_def iter_groups_def group_hosts_def rbind_Inr_iff get_domain_uptime_vector_def Let_def)
  have "fst ` set g \<subseteq> set hosts" if "g \<in> set groups" for g
    using that unfolding gs by (auto simp: by_host_def group_with_def)
  then have "set (snd (format_sla_results True groups)) \<subseteq> set hosts"
    by (force simp: format_sla_results_def Let_def)
  then show ?thesis using P(2) by auto
qed

text \<open>A scheduler that answers only about the hosts it is asked about.\<close>

definition answers_asked :: "(nat \<Rightarrow> string list \<Rightarrow> host_statuses option) \<Rightarrow> bool" where
  "answers_asked query = (\<forall>k q st. query k q = Some st \<longrightarrow> fst ` set st \<subseteq> set q)"

lemma drain_loop_subset:
  "answers_asked query \<Longrightarrow> drain_loop i query k w pending = Inr left \<Longrightarrow> set left \<subseteq> set pending"
proof (induction i query k w pending rule: drain_loop.induct)
  case (1 i query k w pending)
  show ?case
  proof (cases "i k \<or> pending = []")
    case True
    then show ?thesis using "1.prems"(2) by (simp add: drain_loop.simps)
  next
    case False
    let ?next = "\<lambda>st. remdups (map fst (filter (\<lambda>h. snd h \<noteq> M_DRAINED) st))"
    obtain st where st: "check_status (query k) pending = Inr st"
      using "1.prems"(2) False by (subst (asm) drain_loop.simps) (auto split: sum.splits)
    then have "fst ` set st \<subseteq> set pending"
      using "1.prems"(1) unfolding answers_asked_def check_status_def
      by (metis option.case_eq_if option.collapse set_remdups sum.distinct(1) sum.inject(2))
    then have sub: "set (?next st) \<subseteq> set pending" by auto
    show ?thesis
    proof (cases "?next st \<noteq> [] \<and> \<not> w + status_poll_interval > max_status_wait")
      case True
      then have "drain_loop i query (Suc k) (w + status_poll_interval) (?next st) = Inr left"
        using "1.prems"(2) False st by (subst (asm) drain_loop.simps) (simp add: Let_def)
      then have "set left \<subseteq> set (?next st)"
        using "1.IH" [OF False st _ refl] "1.prems"(1) True by simp
      then show ?thesis using sub by blast
    next
      case n: False
      then have "left = ?next st \<or> left = []"
        using "1.prems"(2) False st by (subst (asm) drain_loop.simps) (auto simp: Let_def split: if_splits)
      then show ?thesis using sub by auto
    qed
  qed
qed

lemma drain_hosts_subset:
  "answers_asked (be_query env) \<Longrightarrow> drain_hosts env hosts = Inr left \<Longrightarrow> set left \<subseteq> set hosts"
  using drain_loop_subset by (auto simp: drain_hosts_def split: if_splits)

text \<open>The host passed the SLA check of its batch and the drain of the batch did not leave it behind.\<close>

definition cleared :: "grouping_table \<Rightarrow> string \<Rightarrow> rat \<Rightarrow> rat \<Rightarrow> (string list \<Rightarrow> batch_env) \<Rightarrow> string list \<Rightarrow> string \<Rightarrow> bool" where
  "cleared t g p d env batch h =
     (\<exists>unsafe left. check_sla (be_tasks (env batch)) (be_now (env batch)) t batch g p d = Inr unsafe \<and> h \<notin> set unsafe \<and>
        drain_hosts (env batch) (filter (\<lambda>h. h \<notin> set unsafe) batch) = Inr left \<and> h \<notin> set left)"

lemma batch_step:
  assumes "maintain_batch t g p d True (env hosts) hosts m = Inr m'" "answers_asked (be_query (env hosts))"
    "distinct hosts" "set hosts \<inter> set (mt_not_drained m) = {}"
  shows "set (mt_not_drained m) \<subseteq> set (mt_not_drained m') \<and>
    set (mt_not_drained m') \<subseteq> set (mt_not_drained m) \<union> set hosts \<and>
    (\<exists>x. mt_operated m' = mt_operated m @ x \<and> distinct x \<and> set x = set hosts - set (mt_not_drained m') \<and>
       (\<forall>h\<in>set x. cleared t g p d env hosts h))"
proof -
  obtain unsafe where U: "check_sla (be_tasks (env hosts)) (be_now (env hosts)) t hosts g p d = Inr unsafe"
    using assms(1) by (auto simp: maintain_batch_def rbind_Inr_iff)
  have sub: "set unsafe \<subseteq> set hosts" by (rule unsafe_hosts [OF U])
  let ?drainable = "filter (\<lambda>h. h \<notin> set unsafe) hosts"
  show ?thesis
  proof (cases "unsafe \<noteq> [] \<and> ?drainable = []")
    case True
    then have "m' = m\<lparr>mt_not_drained := mt_not_drained m @ unsafe\<rparr>"
      using assms(1) U by (simp add: maintain_batch_def)
    then show ?thesis using sub True by (auto simp: filter_empty_conv)
  next
    case False
    then obtain left where L: "drain_hosts (env hosts) ?drainable = Inr left"
      "m' = \<lparr>mt_not_drained = (mt_not_drained m @ unsafe) @ left,
             mt_operated = mt_operated m @ filter (\<lambda>h. h \<notin> set ((mt_not_drained m @ unsafe) @ left)) ?drainable\<rparr>"
      using assms(1) U by (auto simp: maintain_batch_def rbind_Inr_iff Let_def)
    have "set left \<subseteq> set hosts" using drain_hosts_subset [OF assms(2) L(1)] by auto
    then show ?thesis using L sub assms(3,4) U by (auto simp: cleared_def)
  qed
qed

lemma batches_run:
  "maintain_batches t g p d True env (map snd gs) m = Inr m' \<Longrightarrow> (\<And>b. answers_asked (be_query (env b))) \<Longrightarrow>
   distinct (map fst gs) \<Longrightarrow> \<forall>(k, hs)\<in>set gs. distinct hs \<and> (\<forall>h\<in>set hs. f h = k \<and> h \<notin> set (mt_not_drained m)) \<Longrightarrow>
   set (mt_not_drained m) \<subseteq> set (mt_not_drained m') \<and>
   set (mt_not_drained m') \<subseteq> set (mt_not_drained m) \<union> (\<Union>g\<in>set gs. set (snd g)) \<and>
   (\<exists>x. mt_operated m' = mt_operated m @ x \<and> distinct x \<and>
      set x = (\<Union>g\<in>set gs. set (snd g)) - set (mt_not_drained m') \<and>
      (\<forall>h\<in>set x. \<exists>b\<in>set gs. h \<in> set (snd b) \<and> cleared t g p d env (snd b) h))"
proof (induction gs arbitrary: m)
  case Nil
  then show ?case by simp
next
  case (Cons kh gs)
  obtain k hosts where kh: "kh = (k, hosts)" by (cases kh)
  obtain m1 where B: "maintain_batch t g p d True (env hosts) hosts m = Inr m1"
    and R: "maintain_batches t g p d True env (map snd gs) m1 = Inr m'"
    using Cons.prems(1) kh by (auto simp: rbind_Inr_iff)
  have host: "distinct hosts" "\<And>h. h \<in> set hosts \<Longrightarrow> f h = k \<and> h \<notin> set (mt_not_drained m)"
    using Cons.prems(4) kh by auto
  obtain x where S: "set (mt_not_drained m) \<subseteq> set (mt_not_drained m1)"
    "set (mt_not_drained m1) \<subseteq> set (mt_not_drained m) \<union> set hosts"
    "mt_operated m1 = mt_operated m @ x" "distinct x" "set x = set hosts - set (mt_not_drained m1)"
    "\<forall>h\<in>set x. cleared t g p d env hosts h"
    using batch_step [of t g p d env hosts m m1, OF B Cons.prems(2) host(1)] host(2) by blast
  have rest: "\<And>k' hs h. (k', hs) \<in> set gs \<Longrightarrow> h \<in> set hs \<Longrightarrow> h \<notin> set hosts \<and> distinct hs \<and> f h = k' \<and>
      h \<notin> set (mt_not_drained m1)"
  proof -
    fix k' hs h assume g: "(k', hs) \<in> set gs" "h \<in> set hs"
    then have f: "distinct hs" "f h = k'" "h \<notin> set (mt_not_drained m)" using Cons.prems(4) by auto
    have "k' \<noteq> k" using Cons.prems(3) kh g(1) by force
    then have "h \<notin> set hosts" using host(2) f(2) by blast
    then show "h \<notin> set hosts \<and> distinct hs \<and> f h = k' \<and> h \<notin> set (mt_not_drained m1)" using f S(2) by blast
  qed
  have "\<forall>(k, hs)\<in>set gs. distinct hs \<and> (\<forall>h\<in>set hs. f h = k \<and> h \<notin> set (mt_not_drained m1))"
    using rest Cons.prems(4) by auto
  then obtain y where T: "set (mt_not_drained m1) \<subseteq> set (mt_not_drained m')"
    "set (mt_not_drained m') \<subseteq> set (mt_not_drained m1) \<union> (\<Union>g\<in>set gs. set (snd g))"
    "mt_operated m' = mt_operated m1 @ y" "distinct y"
    "set y = (\<Union>g\<in>set gs. set (snd g)) - set (mt_not_drained m')"
    "\<forall>h\<in>set y. \<exists>b\<in>set gs. h \<in> set (snd b) \<and> cleared t g p d env (snd b) h"
    using Cons.IH [OF R Cons.prems(2)] Cons.prems(3) by auto
  have disj: "set hosts \<inter> (\<Union>g\<in>set gs. set (snd g)) = {}" using rest by fastforce
  have x: "set x = set hosts - set (mt_not_drained m')"
    using S(5) T(1,2) disj by blast
  have "distinct (x @ y)" using S(4) T(4,5) x disj by auto
  moreover have "set (x @ y) = (\<Union>g\<in>set (kh # gs). set (snd g)) - set (mt_not_drained m')"
    using x T(5) kh by auto
  moreover have "\<forall>h\<in>set (x @ y). \<exists>b\<in>set (kh # gs). h \<in> set (snd b) \<and> cleared t g p d env (snd b) h"
    using S(5,6) T(6) kh by auto
  moreover have "mt_operated m' = mt_operated m @ x @ y" using S(3) T(3) by simp
  moreover have "set (mt_not_drained m') \<subseteq> set (mt_not_drained m) \<union> (\<Union>g\<in>set (kh # gs). set (snd g))"
    using T(2) S(2) kh by auto
  ultimately show ?case using S(1) T(1) by blast
qed

lemma sorted_groups_keys: "distinct (map fst (sort_key fst (group_with f hosts)))"
proof -
  let ?gs = "group_with f hosts"
  have "distinct (map fst ?gs)" by (simp add: group_with_def comp_def)
  then have "card (set (map fst ?gs)) = length (map fst ?gs)" by (rule distinct_card)
  then have "card (set (map fst (sort_key fst ?gs))) = length (map fst (sort_key fst ?gs))" by simp
  then show ?thesis by (rule card_distinct)
qed

section \<open>Properties\<close>

text \<open>The callback runs exactly once on every host that \<open>perform_maintenance\<close> reports as
  drained and on no other, provided that the scheduler answers only about the hosts it is asked about; and
  each of these hosts passed the SLA check of its batch and was not left behind by the drain of
  the batch.\<close>

theorem maintenance_operates_on_drained:
  assumes "perform_maintenance start t g p d True env hosts = Inr (drained, operated)"
    "\<And>b. answers_asked (be_query (env b))"
  shows "distinct operated \<and> set operated = set drained \<and>
    (\<forall>h\<in>set drained. \<exists>batch. h \<in> set batch \<and> cleared t g p d env batch h)"
proof -
  obtain started skipped batches m where S: "start_maintenance start hosts = Inr (started, skipped)"
    "iter_batches t started g = Inr batches"
    "maintain_batches t g p d True env batches \<lparr>mt_not_drained = [], mt_operated = []\<rparr> = Inr m"
    "drained = filter (\<lambda>h. h \<notin> set (mt_not_drained m)) (remdups started)" "operated = mt_operated m"
    using assms(1) by (auto simp: perform_maintenance_def rbind_Inr_iff)
  obtain f where f: "batches = map snd (sort_key fst (group_with f started))"
    using S(2) by (auto simp: iter_batches_def group_hosts_def rbind_Inr_iff)
  let ?gs = "sort_key fst (group_with f started)"
  have "\<forall>(k, hs)\<in>set ?gs. distinct hs \<and> (\<forall>h\<in>set hs. f h = k \<and> h \<notin> set (mt_not_drained \<lparr>mt_not_drained = [], mt_operated = []\<rparr>))"
    by (auto simp: group_with_def)
  from batches_run [OF S(3) [unfolded f] assms(2) sorted_groups_keys this]
  obtain x where x: "operated = x" "distinct x" "set x = (\<Union>g\<in>set ?gs. set (snd g)) - set (mt_not_drained m)"
    "\<forall>h\<in>set x. \<exists>b\<in>set ?gs. h \<in> set (snd b) \<and> cleared t g p d env (snd b) h"
    using S(5) by auto
  have "(\<Union>g\<in>set ?gs. set (snd g)) = set started" by (auto simp: group_with_def)
  then have "set operated = set drained" using x S(4) by auto
  then show ?thesis using x by blast
qed

text \<open>A scheduler without tasks that drains host \<open>a\<close> at once and \<open>b\<close> not before the wait is interrupted.\<close>

definition sample_env :: batch_env where
  "sample_env = \<lparr>be_tasks = (\<lambda>_. Some []), be_now = 0, be_drain_ok = True, be_interrupted = (\<lambda>k. k > 0),
     be_query = (\<lambda>k q. Some (map (\<lambda>h. (h, if h = ''a'' then M_DRAINED else M_DRAINING)) q))\<rparr>"

theorem maintenance_operates_on_drained_witness:
  "\<exists>drained operated. perform_maintenance (\<lambda>q. Some (map (\<lambda>h. (h, M_SCHEDULED)) q)) grouping_functions ''none'' 95 1800
      True (\<lambda>_. sample_env) [''a'', ''b''] = Inr (drained, operated) \<and> set operated = set drained \<and> set drained = {''a''}"
proof -
  have start: "start_maintenance (\<lambda>q. Some (map (\<lambda>h. (h, M_SCHEDULED)) q)) [''a'', ''b''] = Inr ([''a'', ''b''], [])"
    by (simp add: start_maintenance_def)
  have batches: "iter_batches grouping_functions [''a'', ''b''] ''none'' = Inr [[''a'', ''b'']]"
    by (simp add: iter_batches_def group_hosts_def get_grouping_or_die_def grouping_functions_def group_with_def no_grouping_def)
  have sla: "check_sla (be_tasks sample_env) (be_now sample_env) grouping_functions [''a'', ''b''] ''none'' 95 1800 = Inr []"
    by (simp add: check_sla_def probe_hosts_def iter_groups_def group_hosts_def get_grouping_or_die_def
        grouping_functions_def group_with_def no_grouping_def get_domain_uptime_vector_def get_tasks_def sample_env_def
        group_jobs_def jobs_by_host_def domain_jobs_def by_host_def passes_filter_def Let_def)
  have drain: "drain_hosts sample_env [''a'', ''b''] = Inr [''b'']"
    by (simp add: drain_hosts_def sample_env_def drain_loop.simps check_status_def status_poll_interval_def
        max_status_wait_def Let_def)
  have run: "perform_maintenance (\<lambda>q. Some (map (\<lambda>h. (h, M_SCHEDULED)) q)) grouping_functions ''none'' 95 1800
      True (\<lambda>_. sample_env) [''a'', ''b''] = Inr ([''a''], [''a''])"
    by (simp add: perform_maintenance_def start batches maintain_batch_def sla drain Let_def)
  have "answers_asked (be_query sample_env)" by (auto simp: answers_asked_def sample_env_def)
  then show ?thesis using run maintenance_operates_on_drained [OF run] by simp
qed

end
