(* ===== verification/Watcher.thy ===== *)
theory Watcher
  imports Sla
begin

text \<open>
  Watching the instances of a job: the health check and the instance watcher that an update or a rolling
  restart waits for (\<^verbatim>\<open>health_check.py\<close>, \<^verbatim>\<open>task_util.py\<close>, \<^verbatim>\<open>instance_watcher.py\<close> under
  \<^verbatim>\<open>apache/aurora/client/api\<close>) and the job monitor (\<^verbatim>\<open>job_monitor.py\<close>).  What the scheduler answers, the
  clock and the terminating event at each poll are arguments.
\<close>

section \<open>Tasks and their health\<close>

record task_report =
  tr_id :: string
  tr_instance :: int
  tr_status :: schedule_status
  tr_first_event :: "int option"

text \<open>\<^verbatim>\<open>StatusHelper.get_tasks\<close>: no tasks when the call fails or the response is not \<^verbatim>\<open>OK\<close>.\<close>

datatype task_response = Io_error | Not_ok | Tasks "task_report list"

definition get_reports :: "task_response \<Rightarrow> task_report list" where
  "get_reports r = (case r of Tasks ts \<Rightarrow> ts | _ \<Rightarrow> [])"

text \<open>\<^verbatim>\<open>StatusHealthCheck\<close>: the task ids seen so far, by instance.\<close>

type_synonym seen_ids = "int \<Rightarrow> string option"

definition check_health :: "seen_ids \<Rightarrow> task_report \<Rightarrow> seen_ids \<times> bool" where
  "check_health seen t =
     (if tr_status t = S_RUNNING then
        (case seen (tr_instance t) of
           Some i \<Rightarrow> (seen, tr_id t = i)
         | None \<Rightarrow> (seen(tr_instance t \<mapsto> tr_id t), True))
      else (seen, False))"

section \<open>The instance watcher\<close>

record watched =
  in_birthday :: "rat option"
  in_finished :: bool
  in_healthy :: bool

definition new_instance :: "rat option \<Rightarrow> bool \<Rightarrow> watched" where
  "new_instance birthday finished = \<lparr>in_birthday = birthday, in_finished = finished, in_healthy = False\<rparr>"

definition set_healthy :: "bool \<Rightarrow> watched \<Rightarrow> watched" where
  "set_healthy v i = i\<lparr>in_healthy := v, in_finished := True\<rparr>"

type_synonym instance_states = "int \<Rightarrow> watched option"

definition set_instance_healthy :: "rat \<Rightarrow> rat \<Rightarrow> int \<Rightarrow> instance_states \<Rightarrow> pyexc + instance_states" where
  "set_instance_healthy watch_secs now n st =
     (let i = (case st n of None \<Rightarrow> new_instance (Some now) False | Some i \<Rightarrow> i)
      in case in_birthday i of
           None \<Rightarrow> Inl TypeError
         | Some b \<Rightarrow> Inr (st(n \<mapsto> if now > b + watch_secs then set_healthy True i else i)))"

definition set_instance_unhealthy :: "int \<Rightarrow> instance_states \<Rightarrow> instance_states" where
  "set_instance_unhealthy n st =
     st(n \<mapsto> (case st n of Some i \<Rightarrow> set_healthy False i | None \<Rightarrow> new_instance None True))"

definition is_finished :: "instance_states \<Rightarrow> int \<Rightarrow> bool" where
  "is_finished st n = (case st n of None \<Rightarrow> False | Some i \<Rightarrow> in_finished i)"

text \<open>\<^verbatim>\<open>dict((task.assignedTask.instanceId, task) ...)\<close>: a later task wins.\<close>

definition task_of :: "task_report list \<Rightarrow> int \<Rightarrow> task_report option" where
  "task_of ts n = find (\<lambda>t. tr_instance t = n) (rev ts)"

definition watch_one :: "rat \<Rightarrow> rat \<Rightarrow> task_report list \<Rightarrow> int \<Rightarrow> instance_states \<times> seen_ids
    \<Rightarrow> pyexc + instance_states \<times> seen_ids" where
  "watch_one watch_secs now ts n s =
     (case s of (st, seen) \<Rightarrow>
        if is_finished st n then Inr (st, seen)
        else case task_of ts n of
               None \<Rightarrow> Inr (st, seen)
             | Some t \<Rightarrow>
                 (case check_health seen t of
                    (seen', True) \<Rightarrow> rbind (set_instance_healthy watch_secs now n st) (\<lambda>st'. Inr (st', seen'))
                  | (seen', False) \<Rightarrow> Inr (set_instance_unhealthy n st, seen')))"

fun watch_all :: "rat \<Rightarrow> rat \<Rightarrow> task_report list \<Rightarrow> int list \<Rightarrow> instance_states \<times> seen_ids
    \<Rightarrow> pyexc + instance_states \<times> seen_ids" where
  "watch_all watch_secs now ts [] s = Inr s"
| "watch_all watch_secs now ts (n # ns) s =
     rbind (watch_one watch_secs now ts n s) (watch_all watch_secs now ts ns)"

text \<open>One poll: whether the watcher was told to end before it, the answer and the time.\<close>

record watch_poll =
  wp_terminating :: bool
  wp_response :: task_response
  wp_now :: rat

datatype watch_result = Failed_instances "int list" | Terminated | Still_watching

fun watch_loop :: "rat \<Rightarrow> int list \<Rightarrow> watch_poll list \<Rightarrow> instance_states \<times> seen_ids \<Rightarrow> pyexc + watch_result" where
  "watch_loop watch_secs ids [] s = Inr Still_watching"
| "watch_loop watch_secs ids (p # ps) s =
     (if wp_terminating p then Inr Terminated
      else rbind (watch_all watch_secs (wp_now p) (get_reports (wp_response p)) ids s) (\<lambda>s'.
        if list_all (is_finished (fst s')) ids
        then Inr (Failed_instances (filter (\<lambda>n. \<not> in_healthy (the (fst s' n))) ids))
        else watch_loop watch_secs ids ps s'))"

definition watch :: "rat \<Rightarrow> int list \<Rightarrow> watch_poll list \<Rightarrow> pyexc + watch_result" where
  "watch watch_secs ids ps = watch_loop watch_secs (remdups ids) ps (Map.empty, Map.empty)"

section \<open>The job monitor\<close>

definition live_states :: "schedule_status list" where
  "live_states = [S_RUNNING, S_KILLING, S_RESTARTING, S_PREEMPTING, S_DRAINING, S_PARTITIONED]"

definition terminal_states :: "schedule_status list" where
  "terminal_states = [S_FAILED, S_FINISHED, S_KILLED, S_LOST]"

definition running_or_finished :: "schedule_status \<Rightarrow> bool" where
  "running_or_finished s = (s \<in> set (live_states @ terminal_states))"

definition monitor_terminal :: "schedule_status \<Rightarrow> bool" where
  "monitor_terminal s = (s \<in> set terminal_states)"

text \<open>\<^verbatim>\<open>states\<close>: per instance the status of the task whose first event is the latest; a task without
  events raises \<^verbatim>\<open>IndexError\<close>.\<close>

fun latest_states :: "task_report list \<Rightarrow> (int \<times> int \<times> schedule_status) list
    \<Rightarrow> pyexc + (int \<times> int \<times> schedule_status) list" where
  "latest_states [] m = Inr m"
| "latest_states (t # ts) m =
     (case tr_first_event t of
        None \<Rightarrow> Inl IndexError
      | Some first \<Rightarrow>
          (case map_of m (tr_instance t) of
             Some (old, _) \<Rightarrow> latest_states ts (if first > old
                then AList.update (tr_instance t) (first, tr_status t) m else m)
           | None \<Rightarrow> latest_states ts (AList.update (tr_instance t) (first, tr_status t) m)))"

definition monitor_states :: "task_response \<Rightarrow> pyexc + (int \<times> schedule_status) list" where
  "monitor_states r = rbind (latest_states (get_reports r) []) (\<lambda>m. Inr (map (\<lambda>(n, _, s). (n, s)) m))"

text \<open>The loop of \<^verbatim>\<open>wait_until\<close>, over what each poll sees; the interval doubles up to the maximum.\<close>

datatype wait_result = Reached | Timed_out | Still_waiting

fun wait_until :: "(schedule_status \<Rightarrow> bool) \<Rightarrow> bool \<Rightarrow> rat \<Rightarrow> rat \<Rightarrow> (bool \<times> task_response) list \<Rightarrow> pyexc + wait_result" where
  "wait_until p with_timeout max_interval interval [] = Inr Still_waiting"
| "wait_until p with_timeout max_interval interval ((terminating, r) # polls) =
     (if terminating then Inr Reached
      else rbind (monitor_states r) (\<lambda>ss.
        if list_all (\<lambda>s. p (snd s)) ss then Inr Reached
        else if with_timeout \<and> interval \<ge> max_interval then Inr Timed_out
        else wait_until p with_timeout max_interval (min max_interval (2 * interval)) polls))"

section \<open>The verdict on one instance\<close>

text \<open>What the polls reported about one instance.\<close>

definition reports :: "int \<Rightarrow> watch_poll list \<Rightarrow> (rat \<times> task_report) list" where
  "reports n ps = List.map_filter
     (\<lambda>p. map_option (\<lambda>t. (wp_now p, t)) (task_of (get_reports (wp_response p)) n)) ps"

text \<open>All reports show the same running task.\<close>

definition steady :: "(rat \<times> task_report) list \<Rightarrow> bool" where
  "steady rs = (\<forall>r\<in>set rs. tr_status (snd r) = S_RUNNING \<and> tr_id (snd r) = tr_id (snd (hd rs)))"

definition passed :: "rat \<Rightarrow> (rat \<times> task_report) list \<Rightarrow> bool" where
  "passed watch_secs rs = (\<exists>pre. pre \<noteq> [] \<and> (\<exists>post. rs = pre @ post) \<and> steady pre \<and>
     fst (last pre) > fst (hd pre) + watch_secs)"

definition verdict_ok :: "rat \<Rightarrow> watched option \<times> string option \<Rightarrow> (rat \<times> task_report) list \<Rightarrow> bool" where
  "verdict_ok watch_secs s rs =
     (case s of
        (None, seen) \<Rightarrow> rs = [] \<and> seen = None
      | (Some i, seen) \<Rightarrow>
          (if \<not> in_finished i then rs \<noteq> [] \<and> steady rs \<and> in_birthday i = Some (fst (hd rs)) \<and>
              seen = Some (tr_id (snd (hd rs)))
           else if in_healthy i then passed watch_secs rs
           else \<not> steady rs))"

lemma task_of_instance: "task_of ts n = Some t \<Longrightarrow> tr_instance t = n"
  by (auto simp: task_of_def find_Some_iff)

lemma passed_append: "passed w rs \<Longrightarrow> passed w (rs @ xs)"
  unfolding passed_def by (metis append.assoc)

lemma steady_append: "\<not> steady rs \<Longrightarrow> \<not> steady (rs @ xs)"
  by (cases rs) (auto simp: steady_def)

lemma verdict_finished:
  assumes "verdict_ok w (Some i, seen) rs" "in_finished i"
  shows "verdict_ok w (Some i, seen') (rs @ xs)"
  using assms passed_append steady_append by (auto simp: verdict_ok_def split: if_splits)

lemma watch_one_other:
  assumes "watch_one w now ts n (st, seen) = Inr (st', seen')" "m \<noteq> n"
  shows "st' m = st m \<and> seen' m = seen m"
  using assms task_of_instance [of ts n]
  by (auto simp: watch_one_def check_health_def set_instance_healthy_def set_instance_unhealthy_def rbind_Inr_iff Let_def
      split: if_splits option.splits prod.splits bool.splits)

definition report_now :: "rat \<Rightarrow> task_report list \<Rightarrow> int \<Rightarrow> (rat \<times> task_report) list" where
  "report_now now ts n = (case task_of ts n of None \<Rightarrow> [] | Some t \<Rightarrow> [(now, t)])"

lemma steady_snoc:
  "steady (rs @ [r]) \<longleftrightarrow> steady rs \<and> tr_status (snd r) = S_RUNNING \<and> (rs \<noteq> [] \<longrightarrow> tr_id (snd r) = tr_id (snd (hd rs)))"
  by (cases rs) (auto simp: steady_def)

lemma verdict_unhealthy:
  assumes "\<not> steady rs" shows "verdict_ok w (set_instance_unhealthy n st n, seen) rs"
  using assms by (auto simp: verdict_ok_def set_instance_unhealthy_def set_healthy_def new_instance_def split: option.splits)

lemma verdict_healthy:
  assumes "st n = None \<and> rs = [] \<or> (\<exists>i. st n = Some i \<and> \<not> in_finished i \<and> rs \<noteq> [] \<and> in_birthday i = Some (fst (hd rs)))"
    "steady (rs @ [(now, t)])"
  shows "\<exists>st'. set_instance_healthy w now n st = Inr st' \<and>
    verdict_ok w (st' n, Some (tr_id (snd (hd (rs @ [(now, t)]))))) (rs @ [(now, t)])"
proof -
  let ?rs = "rs @ [(now, t)]"
  define i where "i = (case st n of None \<Rightarrow> new_instance (Some now) False | Some i \<Rightarrow> i)"
  have i: "in_birthday i = Some (fst (hd ?rs))" "\<not> in_finished i"
    using assms(1) by (auto simp: i_def new_instance_def)
  have S: "set_instance_healthy w now n st =
      Inr (st(n \<mapsto> if now > fst (hd ?rs) + w then set_healthy True i else i))"
    using i(1) by (simp add: set_instance_healthy_def i_def Let_def)
  show ?thesis
  proof (cases "now > fst (hd ?rs) + w")
    case True
    then have "passed w ?rs" using assms(2) unfolding passed_def by (intro exI [of _ ?rs]) simp
    then show ?thesis using S True by (simp add: verdict_ok_def set_healthy_def)
  next
    case False
    then show ?thesis using S i assms(2) by (simp add: verdict_ok_def)
  qed
qed

lemma watch_one_verdict:
  assumes "verdict_ok w (st n, seen n) rs"
  shows "\<exists>st' seen'. watch_one w now ts n (st, seen) = Inr (st', seen') \<and>
    verdict_ok w (st' n, seen' n) (rs @ report_now now ts n)"
proof (cases "is_finished st n")
  case True
  then show ?thesis
    using assms verdict_finished by (auto simp: watch_one_def is_finished_def split: option.splits)
next
  case unfinished: False
  show ?thesis
  proof (cases "task_of ts n")
    case None
    then show ?thesis using assms unfinished by (simp add: watch_one_def report_now_def)
  next
    case (Some t)
    note t = Some task_of_instance [OF Some]
    have before: "st n = None \<and> rs = [] \<and> seen n = None \<or>
        (\<exists>i. st n = Some i \<and> \<not> in_finished i \<and> rs \<noteq> [] \<and> steady rs \<and> in_birthday i = Some (fst (hd rs)) \<and>
           seen n = Some (tr_id (snd (hd rs))))"
      using assms unfinished by (auto simp: verdict_ok_def is_finished_def split: option.splits if_splits)
    let ?rs = "rs @ [(now, t)]"
    show ?thesis
    proof (cases "steady ?rs")
      case True
      then have H: "check_health seen t = (seen(n \<mapsto> tr_id (snd (hd ?rs))), True)"
        using before t(2) by (auto simp: check_health_def steady_snoc fun_upd_idem)
      obtain st' where "set_instance_healthy w now n st = Inr st'"
        "verdict_ok w (st' n, Some (tr_id (snd (hd ?rs)))) ?rs"
        using verdict_healthy [of st n rs now t w] before True by blast
      then show ?thesis using H t(1) unfinished by (simp add: watch_one_def report_now_def)
    next
      case False
      then have H: "snd (check_health seen t) = False"
        using before t(2) by (auto simp: check_health_def steady_snoc) (simp_all add: steady_def)
      obtain seen' where "check_health seen t = (seen', False)" using H by (metis prod.collapse)
      then show ?thesis
        using verdict_unhealthy [OF False] t(1) unfinished by (simp add: watch_one_def report_now_def)
    qed
  qed
qed

lemma watch_all_verdict:
  "distinct ns \<Longrightarrow> \<forall>n\<in>set ns. verdict_ok w (st n, seen n) (rs n) \<Longrightarrow>
   \<exists>st' seen'. watch_all w now ts ns (st, seen) = Inr (st', seen') \<and>
     (\<forall>n\<in>set ns. verdict_ok w (st' n, seen' n) (rs n @ report_now now ts n)) \<and>
     (\<forall>m. m \<notin> set ns \<longrightarrow> st' m = st m \<and> seen' m = seen m)"
proof (induction ns arbitrary: st seen)
  case Nil
  then show ?case by simp
next
  case (Cons n ns)
  obtain st1 seen1 where A: "watch_one w now ts n (st, seen) = Inr (st1, seen1)"
    "verdict_ok w (st1 n, seen1 n) (rs n @ report_now now ts n)"
    using watch_one_verdict [of w st n seen "rs n" now ts] Cons.prems(2) by auto
  have other: "st1 m = st m \<and> seen1 m = seen m" if "m \<noteq> n" for m
    using watch_one_other [OF A(1) that] .
  have "\<forall>m\<in>set ns. verdict_ok w (st1 m, seen1 m) (rs m)"
    using Cons.prems other by (metis distinct.simps(2) list.set_intros(2))
  then obtain st' seen' where B: "watch_all w now ts ns (st1, seen1) = Inr (st', seen')"
    "\<forall>m\<in>set ns. verdict_ok w (st' m, seen' m) (rs m @ report_now now ts m)"
    "\<forall>m. m \<notin> set ns \<longrightarrow> st' m = st1 m \<and> seen' m = seen1 m"
    using Cons.IH [of st1 seen1] Cons.prems(1) by auto
  have "st' n = st1 n \<and> seen' n = seen1 n" using B(3) Cons.prems(1) by simp
  then show ?case using A B other by auto
qed

lemma reports_snoc: "reports n (ps @ [p]) = reports n ps @ report_now (wp_now p) (get_reports (wp_response p)) n"
  by (simp add: reports_def report_now_def map_filter_def split: option.splits)

text \<open>The verdict on all instances after some polls.\<close>

definition judged :: "rat \<Rightarrow> int list \<Rightarrow> int list \<Rightarrow> watch_poll list \<Rightarrow> bool" where
  "judged w ids failed ps =
     (\<forall>n\<in>set ids. if n \<in> set failed then \<not> steady (reports n ps) else passed w (reports n ps))"

lemma watch_loop_verdict:
  "distinct ids \<Longrightarrow> \<forall>n\<in>set ids. verdict_ok w (st n, seen n) (reports n before) \<Longrightarrow>
   \<exists>r. watch_loop w ids ps (st, seen) = Inr r \<and>
     (\<forall>failed. r = Failed_instances failed \<longrightarrow>
        (\<exists>pre post. ps = pre @ post \<and> judged w ids failed (before @ pre)))"
proof (induction ps arbitrary: st seen before)
  case Nil
  then show ?case by simp
next
  case (Cons p ps)
  show ?case
  proof (cases "wp_terminating p")
    case True
    then show ?thesis by simp
  next
    case False
    obtain st' seen' where A: "watch_all w (wp_now p) (get_reports (wp_response p)) ids (st, seen) = Inr (st', seen')"
      "\<forall>n\<in>set ids. verdict_ok w (st' n, seen' n) (reports n (before @ [p]))"
      using watch_all_verdict [OF Cons.prems(1), of w st seen "\<lambda>n. reports n before"] Cons.prems(2)
      unfolding reports_snoc by blast
    show ?thesis
    proof (cases "list_all (is_finished st') ids")
      case True
      let ?failed = "filter (\<lambda>n. \<not> in_healthy (the (st' n))) ids"
      have "judged w ids ?failed (before @ [p])"
        using A(2) True
        by (auto simp: judged_def verdict_ok_def list_all_iff is_finished_def split: option.splits)
      moreover have "p # ps = [p] @ ps" by simp
      ultimately have "\<exists>pre post. p # ps = pre @ post \<and> judged w ids ?failed (before @ pre)" by blast
      then show ?thesis using A(1) False True by simp
    next
      case go: False
      obtain r where R: "watch_loop w ids ps (st', seen') = Inr r"
        "\<forall>failed. r = Failed_instances failed \<longrightarrow>
          (\<exists>pre post. ps = pre @ post \<and> judged w ids failed ((before @ [p]) @ pre))"
        using Cons.IH [OF Cons.prems(1) A(2)] by blast
      have "\<exists>pre post. p # ps = pre @ post \<and> judged w ids failed (before @ pre)" if F: "r = Failed_instances failed" for failed
      proof -
        obtain pre post where P: "ps = pre @ post" "judged w ids failed ((before @ [p]) @ pre)"
          using R(2) F by blast
        have "judged w ids failed (before @ p # pre)" using P(2) by simp
        moreover have "p # ps = (p # pre) @ post" using P(1) by simp
        ultimately show ?thesis by blast
      qed
      moreover have "watch_loop w ids (p # ps) (st, seen) = Inr r" using R(1) A(1) False go by simp
      ultimately show ?thesis by blast
    qed
  qed
qed

section \<open>Properties\<close>

text \<open>The watcher's verdict: it never raises, and when it returns, every watched instance
  that it does not report as failed was reported by an initial part of the polls as one and the same
  running task for more than the watch time, and every failed one was seen with another task or
  another status than at first.\<close>

theorem watch_verdict:
  "\<exists>r. watch w ids ps = Inr r \<and>
     (\<forall>failed. r = Failed_instances failed \<longrightarrow>
        (\<exists>pre post. ps = pre @ post \<and>
           (\<forall>n\<in>set ids. if n \<in> set failed then \<not> steady (reports n pre) else passed w (reports n pre))))"
proof -
  have "\<forall>n\<in>set (remdups ids). verdict_ok w (Map.empty n, Map.empty n) (reports n [])"
    by (simp add: verdict_ok_def reports_def map_filter_def)
  from watch_loop_verdict [OF distinct_remdups this, of ps] show ?thesis
    unfolding watch_def judged_def append_Nil set_remdups .
qed

definition sample_report :: "int \<Rightarrow> string \<Rightarrow> task_report" where
  "sample_report n i = \<lparr>tr_id = i, tr_instance = n, tr_status = S_RUNNING, tr_first_event = Some 0\<rparr>"

definition sample_polls :: "watch_poll list" where
  "sample_polls =
     [\<lparr>wp_terminating = False, wp_response = Tasks [sample_report 0 ''x'', sample_report 1 ''y''], wp_now = 10\<rparr>,
      \<lparr>wp_terminating = False, wp_response = Io_error, wp_now = 30\<rparr>,
      \<lparr>wp_terminating = False, wp_response = Tasks [sample_report 0 ''x'', sample_report 1 ''z''], wp_now = 60\<rparr>]"

theorem watch_verdict_witness:
  "watch 45 [0, 1] sample_polls = Inr (Failed_instances [1]) \<and>
   (\<exists>pre post. sample_polls = pre @ post \<and> passed 45 (reports 0 pre) \<and> \<not> steady (reports 1 pre))"
proof -
  have W: "watch 45 [0, 1] sample_polls = Inr (Failed_instances [1])"
    by (simp add: watch_def sample_polls_def sample_report_def get_reports_def watch_one_def is_finished_def task_of_def
        check_health_def set_instance_healthy_def set_instance_unhealthy_def set_healthy_def new_instance_def Let_def)
  then show ?thesis using watch_verdict [of 45 "[0, 1]" sample_polls] by auto
qed

end
