(* ===== verification/Updater.thy ===== *)
theory Updater
  imports Watcher
begin

text \<open>
  Updates and rolling restarts of a job, \<^verbatim>\<open>updater_util.py\<close> and \<^verbatim>\<open>restarter.py\<close> under
  \<^verbatim>\<open>apache/aurora/client/api\<close>: the validated update settings, the ranges of instances sent to the
  scheduler, the failure threshold, and the restart loop.  The scheduler's answers and the watcher's
  verdicts are arguments.
\<close>

section \<open>Update settings\<close>

datatype update_strategy = Queue_strategy int | Batch_strategy int bool
  | Variable_batch_strategy "int list" bool

record updater_config =
  up_batch_size :: int
  up_watch_secs :: int
  up_max_total_failures :: int
  up_max_per_instance_failures :: int
  up_strategy :: "update_strategy option"
  up_sla_aware :: bool
  up_wait_for_batch :: bool
  up_rollback_on_failure :: bool
  up_pulse_interval :: "int option"

definition min_pulse_interval :: int where
  "min_pulse_interval = 60"

text \<open>The checks of \<^verbatim>\<open>UpdaterConfig.__init__\<close>, in its order; each raises \<^verbatim>\<open>ValueError\<close>.\<close>

definition updater_init :: "updater_config \<Rightarrow> pyexc + updater_config" where
  "updater_init c =
     (if up_batch_size c \<le> 0 then Inl ValueError
      else if up_watch_secs c < 0 then Inl ValueError
      else if (case up_pulse_interval c of None \<Rightarrow> False | Some p \<Rightarrow> p < min_pulse_interval) then Inl ValueError
      else if up_wait_for_batch c \<and> up_strategy c \<noteq> None then Inl ValueError
      else if up_batch_size c > 1 \<and> up_strategy c \<noteq> None then Inl ValueError
      else Inr c)"

section \<open>Instance ranges\<close>

text \<open>\<^verbatim>\<open>itertools.groupby\<close>: runs of consecutive elements with the same key.\<close>

function groupby :: "('a \<Rightarrow> 'k) \<Rightarrow> 'a list \<Rightarrow> 'a list list" where
  "groupby key [] = []"
| "groupby key (x # xs) =
     (x # takeWhile (\<lambda>y. key y = key x) xs) # groupby key (dropWhile (\<lambda>y. key y = key x) xs)"
  by pat_completeness auto

termination
  by (relation "measure (\<lambda>(_, xs). length xs)") (auto simp: le_imp_less_Suc length_dropWhile_le)

definition instances_to_ranges :: "int list \<Rightarrow> (int \<times> int) list option" where
  "instances_to_ranges instances =
     (if instances = [] then None
      else Some (map (\<lambda>g. let range_seq = map snd g in (hd range_seq, last range_seq))
                   (groupby (\<lambda>(i, n). int i - n) (List.enumerate 0 instances))))"

section \<open>The settings sent to the scheduler\<close>

text \<open>\<^verbatim>\<open>create_update_strategy_config\<close> of \<^verbatim>\<open>apache/aurora/config/thrift.py\<close>: the strategy with its group
  sizes.\<close>

record job_update_settings =
  js_group_size :: int
  js_max_per_instance_failures :: int
  js_max_failed_instances :: int
  js_min_wait_ms :: int
  js_rollback_on_failure :: bool
  js_wait_for_batch :: bool
  js_only_instances :: "(int \<times> int) list option"
  js_strategy :: update_strategy
  js_block_if_no_pulses_ms :: "int option"
  js_sla_aware :: bool

text \<open>\<open>group_size\<close> is the attribute \<^verbatim>\<open>groupSize\<close> of the pystachio choice object that the code reads.  The
  third branch of the source repeats the test for a batch strategy, so a variable batch strategy goes
  through none of them.\<close>

definition effective_strategy :: "(update_strategy \<Rightarrow> pyexc + int) \<Rightarrow> updater_config \<Rightarrow> pyexc + updater_config" where
  "effective_strategy group_size c =
     (case up_strategy c of
        None \<Rightarrow>
          Inr (c\<lparr>up_strategy := Some (if up_wait_for_batch c then Batch_strategy (up_batch_size c) False
                                      else Queue_strategy (up_batch_size c))\<rparr>)
      | Some (Queue_strategy n) \<Rightarrow>
          rbind (group_size (Queue_strategy n)) (\<lambda>g. Inr (c\<lparr>up_batch_size := g\<rparr>))
      | Some (Batch_strategy n autopause) \<Rightarrow>
          rbind (group_size (Batch_strategy n autopause)) (\<lambda>g.
            Inr (c\<lparr>up_batch_size := g, up_wait_for_batch := True\<rparr>))
      | Some (Variable_batch_strategy ns autopause) \<Rightarrow> Inr c)"

definition update_settings :: "updater_config \<Rightarrow> update_strategy \<Rightarrow> int list option \<Rightarrow> job_update_settings" where
  "update_settings c strategy instances =
     \<lparr>js_group_size = up_batch_size c,
      js_max_per_instance_failures = up_max_per_instance_failures c,
      js_max_failed_instances = up_max_total_failures c,
      js_min_wait_ms = up_watch_secs c * 1000,
      js_rollback_on_failure = up_rollback_on_failure c,
      js_wait_for_batch = up_wait_for_batch c,
      js_only_instances = (case instances of None \<Rightarrow> None | Some ns \<Rightarrow> instances_to_ranges ns),
      js_strategy = strategy,
      js_block_if_no_pulses_ms = (case up_pulse_interval c of
          None \<Rightarrow> None | Some p \<Rightarrow> if p = 0 then None else Some (p * 1000)),
      js_sla_aware = up_sla_aware c\<rparr>"

text \<open>The converted settings and the configuration object, which the conversion changes.\<close>

definition to_thrift_update_settings :: "(update_strategy \<Rightarrow> pyexc + int) \<Rightarrow> updater_config \<Rightarrow> int list option
    \<Rightarrow> pyexc + job_update_settings \<times> updater_config" where
  "to_thrift_update_settings group_size c instances =
     rbind (effective_strategy group_size c) (\<lambda>c'.
       case up_strategy c' of
         None \<Rightarrow> Inl AttributeError
       | Some s \<Rightarrow> Inr (update_settings c' s instances, c'))"

section \<open>The failure threshold\<close>

record failure_threshold =
  ft_max_per_instance :: int
  ft_max_total :: int
  ft_failures :: "(int \<times> int) list"

definition new_threshold :: "int \<Rightarrow> int \<Rightarrow> failure_threshold" where
  "new_threshold per_instance total_failures =
     \<lparr>ft_max_per_instance = per_instance, ft_max_total = total_failures, ft_failures = []\<rparr>"

definition failures_of :: "failure_threshold \<Rightarrow> int \<Rightarrow> int" where
  "failures_of ft n = (case map_of (ft_failures ft) n of None \<Rightarrow> 0 | Some k \<Rightarrow> k)"

definition count_failure :: "failure_threshold \<Rightarrow> int \<Rightarrow> failure_threshold" where
  "count_failure ft n = ft\<lparr>ft_failures := AList.update n (failures_of ft n + 1) (ft_failures ft)\<rparr>"

fun update_failure_counts :: "failure_threshold \<Rightarrow> int list \<Rightarrow> failure_threshold \<times> int list" where
  "update_failure_counts ft [] = (ft, [])"
| "update_failure_counts ft (n # ns) =
     (let ft' = count_failure ft n in
      case update_failure_counts ft' ns of
        (ft'', exceeded) \<Rightarrow>
          (ft'', if failures_of ft' n > ft_max_per_instance ft' then n # exceeded else exceeded))"

definition exceeded_count :: "failure_threshold \<Rightarrow> nat" where
  "exceeded_count ft = length (filter (\<lambda>p. snd p > ft_max_per_instance ft) (ft_failures ft))"

definition is_failed_update :: "failure_threshold \<Rightarrow> bool" where
  "is_failed_update ft = (int (exceeded_count ft) > ft_max_total ft)"

section \<open>Rolling restarts\<close>

record restart_settings =
  rs_batch_size :: int
  rs_max_per_instance_failures :: int
  rs_max_total_failures :: int

text \<open>Python's \<open>xs[:k]\<close> and \<open>xs[k:]\<close>, where a negative \<open>k\<close> counts from the end.\<close>

definition slice_to :: "'a list \<Rightarrow> int \<Rightarrow> 'a list" where
  "slice_to xs k = take (nat (if k < 0 then int (length xs) + k else k)) xs"

definition slice_from :: "'a list \<Rightarrow> int \<Rightarrow> 'a list" where
  "slice_from xs k = drop (nat (if k < 0 then int (length xs) + k else k)) xs"

datatype restart_result = Restarted | Threshold_reached | Restart_error | Nothing_to_do | Query_error
  | Still_restarting

text \<open>The loop of \<^verbatim>\<open>restart\<close>: \<open>restart_ok k\<close> is the answer of the \<open>k\<close>-th restart call and \<open>watched k\<close> the
  failed instances of the \<open>k\<close>-th watch.  The result carries the batches restarted, in order; the loop
  may not end, so the rounds are counted down.\<close>

fun restart_loop :: "int \<Rightarrow> (nat \<Rightarrow> int list \<Rightarrow> bool) \<Rightarrow> (nat \<Rightarrow> int list \<Rightarrow> int list) \<Rightarrow> nat \<Rightarrow> nat
    \<Rightarrow> failure_threshold \<Rightarrow> int list \<Rightarrow> restart_result \<times> int list list" where
  "restart_loop batch_size restart_ok watched 0 k ft instances =
     (if instances = [] \<or> is_failed_update ft
      then (if is_failed_update ft then Threshold_reached else Restarted, [])
      else (Still_restarting, []))"
| "restart_loop batch_size restart_ok watched (Suc rounds) k ft instances =
     (if instances = [] \<or> is_failed_update ft
      then (if is_failed_update ft then Threshold_reached else Restarted, [])
      else
        let batch = slice_to instances batch_size;
            rest = slice_from instances batch_size
        in if \<not> restart_ok k batch then (Restart_error, [batch])
           else
             let failed = watched k batch in
             case restart_loop batch_size restart_ok watched rounds (Suc k)
                    (fst (update_failure_counts ft failed)) (rest @ failed) of
               (result, batches) \<Rightarrow> (result, batch # batches))"

text \<open>\<open>active\<close> are the instances of the job's active tasks, \<^verbatim>\<open>None\<close> if the query failed.\<close>

definition restart_job :: "restart_settings \<Rightarrow> int list option \<Rightarrow> (nat \<Rightarrow> int list \<Rightarrow> bool)
    \<Rightarrow> (nat \<Rightarrow> int list \<Rightarrow> int list) \<Rightarrow> nat \<Rightarrow> int list \<Rightarrow> restart_result \<times> int list list" where
  "restart_job s active restart_ok watched rounds instances =
     (case active of
        None \<Rightarrow> (Query_error, [])
      | Some ids \<Rightarrow>
          (let chosen = (if instances = [] then sort ids else instances)
           in if chosen = [] then (Nothing_to_do, [])
              else restart_loop (rs_batch_size s) restart_ok watched rounds 0
                     (new_threshold (rs_max_per_instance_failures s) (rs_max_total_failures s)) chosen))"

section \<open>Ranges\<close>

text \<open>Consecutive indices with the same key are consecutive values.\<close>

definition range_key :: "nat \<times> int \<Rightarrow> int" where
  "range_key p = int (fst p) - snd p"

lemma key_eq: "(\<lambda>(i, n). int i - n) = range_key"
  by (auto simp: range_key_def fun_eq_iff)

lemma enumerate_run:
  assumes "\<forall>p\<in>set (List.enumerate i xs). range_key p = c" "xs \<noteq> []"
  shows "[hd xs..last xs] = xs \<and> hd xs \<le> last xs \<and> hd xs = int i - c"
  using assms
proof (induction xs arbitrary: i)
  case (Cons x xs)
  have x: "x = int i - c" using Cons.prems(1) by (simp add: range_key_def)
  show ?case
  proof (cases "xs = []")
    case False
    have "[hd xs..last xs] = xs \<and> hd xs \<le> last xs \<and> hd xs = int (Suc i) - c"
      by (rule Cons.IH) (use Cons.prems(1) False in simp_all)
    then have A: "[hd xs..last xs] = xs" "hd xs \<le> last xs" "hd xs = x + 1" using x by auto
    have "[x..last xs] = x # [x + 1..last xs]" by (rule upto_rec1) (use A(2,3) in simp)
    then have "[x..last xs] = x # xs" using A(1) unfolding A(3) by simp
    then show ?thesis using False A(2,3) x by simp
  qed (simp add: x)
qed simp

lemma enumerate_take: "take k (List.enumerate i xs) = List.enumerate i (take k xs)"
  by (induction xs arbitrary: i k) (auto simp: take_Cons split: nat.splits)

lemma enumerate_drop: "drop k (List.enumerate i xs) = List.enumerate (i + k) (drop k xs)"
  by (induction xs arbitrary: i k) (auto simp: drop_Cons split: nat.splits)

definition range_of_group :: "(nat \<times> int) list \<Rightarrow> int \<times> int" where
  "range_of_group g = (let range_seq = map snd g in (hd range_seq, last range_seq))"

abbreviation ranges_of :: "nat \<Rightarrow> int list \<Rightarrow> (int \<times> int) list" where
  "ranges_of i xs \<equiv> map range_of_group (groupby range_key (List.enumerate i xs))"

text \<open>The first group is a run of consecutive values, and the value after it does not continue it.\<close>

lemma first_range:
  obtains k where
    "ranges_of i (x # ys) = (x, last (x # take k ys)) # ranges_of (Suc i + k) (drop k ys)"
    "[x..last (x # take k ys)] = x # take k ys" "x \<le> last (x # take k ys)"
    "drop k ys = [] \<or> hd (drop k ys) \<noteq> last (x # take k ys) + 1"
proof -
  let ?P = "\<lambda>p. range_key p = range_key (i, x)"
  define k where "k = length (takeWhile ?P (List.enumerate (Suc i) ys))"
  let ?g = "(i, x) # takeWhile ?P (List.enumerate (Suc i) ys)"
  have tw: "takeWhile ?P (List.enumerate (Suc i) ys) = List.enumerate (Suc i) (take k ys)"
    unfolding k_def by (metis enumerate_take takeWhile_eq_take)
  have dw: "dropWhile ?P (List.enumerate (Suc i) ys) = List.enumerate (Suc i + k) (drop k ys)"
    unfolding k_def by (metis dropWhile_eq_drop enumerate_drop)
  have g: "?g = List.enumerate i (x # take k ys)" using tw by simp
  have run: "\<forall>p\<in>set (List.enumerate i (x # take k ys)). range_key p = range_key (i, x)"
    unfolding g [symmetric] by (auto dest: set_takeWhileD)
  have R: "range_of_group ?g = (x, last (x # take k ys))"
    unfolding g range_of_group_def Let_def map_snd_enumerate by simp
  have G: "[x..last (x # take k ys)] = x # take k ys" "x \<le> last (x # take k ys)"
    using enumerate_run [OF run] by simp_all
  have "last (x # take k ys) = x + int k" if "drop k ys \<noteq> []"
  proof -
    have "length [x..last (x # take k ys)] = Suc k" unfolding G(1) using that by (simp add: min_def)
    then show ?thesis using G(2) by simp
  qed
  moreover have "range_key (Suc i + k, hd (drop k ys)) \<noteq> range_key (i, x)" if ne: "drop k ys \<noteq> []"
  proof -
    have "List.enumerate (Suc i + k) (drop k ys) \<noteq> []" using ne by (cases "drop k ys") auto
    then have "\<not> ?P (hd (dropWhile ?P (List.enumerate (Suc i) ys)))" unfolding dw [symmetric] by (rule hd_dropWhile)
    then show ?thesis unfolding dw using ne by (cases "drop k ys") auto
  qed
  ultimately have N: "drop k ys = [] \<or> hd (drop k ys) \<noteq> last (x # take k ys) + 1"
    by (auto simp: range_key_def)
  have "ranges_of i (x # ys) = (x, last (x # take k ys)) # ranges_of (Suc i + k) (drop k ys)"
    using dw R by simp
  then show thesis using G N by (rule that)
qed

lemma ranges_expand:
  "concat (map (\<lambda>(a, b). [a..b]) (ranges_of i xs)) = xs \<and> (\<forall>(a, b)\<in>set (ranges_of i xs). a \<le> b)"
proof (induction "length xs" arbitrary: i xs rule: less_induct)
  case less
  show ?case
  proof (cases xs)
    case (Cons x ys)
    obtain k where k: "ranges_of i (x # ys) = (x, last (x # take k ys)) # ranges_of (Suc i + k) (drop k ys)"
      "[x..last (x # take k ys)] = x # take k ys" "x \<le> last (x # take k ys)"
      "drop k ys = [] \<or> hd (drop k ys) \<noteq> last (x # take k ys) + 1"
      by (rule first_range [of i x ys])
    have IH: "concat (map (\<lambda>(a, b). [a..b]) (ranges_of (Suc i + k) (drop k ys))) = drop k ys"
      "\<forall>(a, b)\<in>set (ranges_of (Suc i + k) (drop k ys)). a \<le> b"
      using less [of "drop k ys" "Suc i + k"] Cons by auto
    then show ?thesis unfolding Cons k(1) using k(2,3) by (simp del: upto.simps last.simps)
  qed simp
qed

lemma ranges_separated:
  "sorted_wrt (<) xs \<Longrightarrow> sorted_wrt (\<lambda>(a, b) (c, d). b + 1 < c) (ranges_of i xs)"
proof (induction "length xs" arbitrary: i xs rule: less_induct)
  case less
  show ?case
  proof (cases xs)
    case (Cons x ys)
    obtain k where k: "ranges_of i (x # ys) = (x, last (x # take k ys)) # ranges_of (Suc i + k) (drop k ys)"
      "[x..last (x # take k ys)] = x # take k ys" "x \<le> last (x # take k ys)"
      "drop k ys = [] \<or> hd (drop k ys) \<noteq> last (x # take k ys) + 1"
      by (rule first_range [of i x ys])
    have app: "sorted_wrt (<) ((x # take k ys) @ drop k ys)" using less.prems Cons by simp
    then have gt: "\<forall>c\<in>set (drop k ys). last (x # take k ys) < c" "sorted_wrt (<) (drop k ys)"
      unfolding sorted_wrt_append by (metis last_in_set list.distinct(1), blast)
    have "last (x # take k ys) + 1 < c" if cd: "(c, d) \<in> set (ranges_of (Suc i + k) (drop k ys))" for c d
    proof -
      have "c \<le> d" using ranges_expand [of "Suc i + k" "drop k ys"] cd by blast
      then have "c \<in> set (concat (map (\<lambda>(a, b). [a..b]) (ranges_of (Suc i + k) (drop k ys))))"
        using cd by (auto simp del: upto.simps intro!: bexI [of _ "(c, d)"])
      then have c: "c \<in> set (drop k ys)" unfolding conjunct1 [OF ranges_expand] .
      then have ne: "drop k ys \<noteq> []" by auto
      have "hd (drop k ys) \<le> c" using c gt(2) by (cases "drop k ys") auto
      moreover have "last (x # take k ys) < hd (drop k ys)" using gt(1) ne hd_in_set by blast
      ultimately show ?thesis using k(4) ne by linarith
    qed
    moreover have "sorted_wrt (\<lambda>(a, b) (c, d). b + 1 < c) (ranges_of (Suc i + k) (drop k ys))"
      using less.hyps [of "drop k ys" "Suc i + k"] gt(2) Cons by simp
    ultimately show ?thesis unfolding Cons k(1) sorted_wrt.simps by (auto simp del: set_map)
  qed simp
qed

lemma instances_to_ranges_eq: "instances_to_ranges xs = (if xs = [] then None else Some (ranges_of 0 xs))"
  by (simp add: instances_to_ranges_def key_eq range_of_group_def [abs_def] Let_def)

section \<open>Failure counts\<close>

lemma failures_count [simp]:
  "failures_of (count_failure ft n) m = (if m = n then failures_of ft n + 1 else failures_of ft m)"
  "ft_max_per_instance (count_failure ft n) = ft_max_per_instance ft"
  "ft_max_total (count_failure ft n) = ft_max_total ft"
  by (auto simp: failures_of_def count_failure_def update_conv')

lemma update_counts_Cons [simp]:
  "fst (update_failure_counts ft (n # ns)) = fst (update_failure_counts (count_failure ft n) ns)"
  by (simp add: Let_def split: prod.split)

declare update_failure_counts.simps(2) [simp del]

lemma update_counts:
  "failures_of (fst (update_failure_counts ft ns)) m = failures_of ft m + int (count_list ns m) \<and>
   ft_max_per_instance (fst (update_failure_counts ft ns)) = ft_max_per_instance ft \<and>
   ft_max_total (fst (update_failure_counts ft ns)) = ft_max_total ft"
  by (induction ns arbitrary: ft) auto

text \<open>A threshold that tolerates no failed instance is passed as soon as one instance failed too often.\<close>

lemma failed_update_iff:
  assumes "ft_max_total ft = 0" "distinct (map fst (ft_failures ft))" "ft_max_per_instance ft \<ge> 0"
  shows "is_failed_update ft \<longleftrightarrow> (\<exists>n. failures_of ft n > ft_max_per_instance ft)"
proof -
  have "is_failed_update ft \<longleftrightarrow> (\<exists>p\<in>set (ft_failures ft). snd p > ft_max_per_instance ft)"
    using assms(1) by (auto simp: is_failed_update_def exceeded_count_def filter_empty_conv)
  also have "\<dots> \<longleftrightarrow> (\<exists>n. failures_of ft n > ft_max_per_instance ft)"
  proof
    assume "\<exists>p\<in>set (ft_failures ft). snd p > ft_max_per_instance ft"
    then obtain n k where "(n, k) \<in> set (ft_failures ft)" "k > ft_max_per_instance ft" by auto
    then show "\<exists>n. failures_of ft n > ft_max_per_instance ft"
      using assms(2) by (intro exI [of _ n]) (simp add: failures_of_def)
  next
    assume "\<exists>n. failures_of ft n > ft_max_per_instance ft"
    then obtain n where "failures_of ft n > ft_max_per_instance ft" ..
    then obtain k where "map_of (ft_failures ft) n = Some k" "k > ft_max_per_instance ft"
      using assms(3) by (auto simp: failures_of_def split: option.splits)
    then show "\<exists>p\<in>set (ft_failures ft). snd p > ft_max_per_instance ft"
      using map_of_SomeD by (intro bexI [of _ "(n, k)"]) auto
  qed
  finally show ?thesis .
qed

lemma update_counts_distinct:
  "distinct (map fst (ft_failures ft)) \<Longrightarrow> distinct (map fst (ft_failures (fst (update_failure_counts ft ns))))"
  by (induction ns arbitrary: ft) (auto simp: count_failure_def distinct_update)

lemma slices:
  assumes "k > 0"
  shows "slice_to xs k @ slice_from xs k = xs" "xs \<noteq> [] \<Longrightarrow> slice_to xs k \<noteq> []"
  using assms by (simp_all add: slice_to_def slice_from_def)

section \<open>The restart loop ends\<close>

text \<open>How many restarts are left at most before an instance of the queue has failed too often.\<close>

definition tries_left :: "failure_threshold \<Rightarrow> int \<Rightarrow> int" where
  "tries_left ft n = ft_max_per_instance ft + 1 - failures_of ft n"

definition restarts_left :: "failure_threshold \<Rightarrow> int list \<Rightarrow> int" where
  "restarts_left ft q = (\<Sum>n\<in>set q. tries_left ft n)"

lemma count_distinct: "distinct ns \<Longrightarrow> count_list ns n = (if n \<in> set ns then 1 else 0)"
  by (induction ns) auto

lemma tries_left_counts:
  "distinct failed \<Longrightarrow> tries_left (fst (update_failure_counts ft failed)) n =
     tries_left ft n - (if n \<in> set failed then 1 else 0)"
  using update_counts [of ft failed] by (simp add: tries_left_def count_distinct)

text \<open>A queue without repetitions under a threshold that tolerates no failed instance.\<close>

definition queue_ok :: "failure_threshold \<Rightarrow> int list \<Rightarrow> bool" where
  "queue_ok ft q = (distinct q \<and> ft_max_total ft = 0 \<and> ft_max_per_instance ft \<ge> 0 \<and>
     distinct (map fst (ft_failures ft)))"

lemma tries_left_pos:
  assumes "queue_ok ft q" "\<not> is_failed_update ft"
  shows "tries_left ft n \<ge> 1"
  using failed_update_iff [of ft] assms by (auto simp: queue_ok_def tries_left_def not_less)

lemma restart_round:
  assumes "queue_ok ft q" "\<not> is_failed_update ft" "q = batch @ rest" "batch \<noteq> []"
    "distinct failed" "set failed \<subseteq> set batch"
  shows "queue_ok (fst (update_failure_counts ft failed)) (rest @ failed)"
    "restarts_left (fst (update_failure_counts ft failed)) (rest @ failed) < restarts_left ft q"
proof -
  let ?ft = "fst (update_failure_counts ft failed)"
  have disj: "set rest \<inter> set failed = {}" "set batch \<inter> set rest = {}" and "distinct rest"
    using assms(1,3,6) by (auto simp: queue_ok_def)
  then show "queue_ok ?ft (rest @ failed)"
    using assms(1,5) update_counts [of ft failed] update_counts_distinct by (auto simp: queue_ok_def)
  have "restarts_left ?ft (rest @ failed) = sum (tries_left ?ft) (set rest) + sum (tries_left ?ft) (set failed)"
    using disj(1) by (simp add: restarts_left_def sum.union_disjoint)
  also have "sum (tries_left ?ft) (set rest) = sum (tries_left ft) (set rest)"
    by (rule sum.cong) (use disj(1) in \<open>auto simp: tries_left_counts [OF assms(5)]\<close>)
  also have "sum (tries_left ?ft) (set failed) = (\<Sum>n\<in>set batch. if n \<in> set failed then tries_left ft n - 1 else 0)"
    using assms(6)
    by (simp add: tries_left_counts [OF assms(5)] sum.If_cases Int_absorb1 cong: sum.cong)
  also have "\<dots> < sum (tries_left ft) (set batch)"
    by (rule sum_strict_mono) (use assms(4) tries_left_pos [OF assms(1,2)] in \<open>auto simp: less_le_trans [OF zero_less_one]\<close>)
  finally have "restarts_left ?ft (rest @ failed) < sum (tries_left ft) (set rest) + sum (tries_left ft) (set batch)"
    by simp
  also have "\<dots> = restarts_left ft q"
    using disj(2) assms(3) by (simp add: restarts_left_def sum.union_disjoint)
  finally show "restarts_left ?ft (rest @ failed) < restarts_left ft q" .
qed

text \<open>The watcher answers with instances it was asked to watch, each once.\<close>

definition watches_batch :: "(nat \<Rightarrow> int list \<Rightarrow> int list) \<Rightarrow> bool" where
  "watches_batch watched = (\<forall>k b. distinct (watched k b) \<and> set (watched k b) \<subseteq> set b)"

lemma restart_loop_ends:
  assumes "batch_size > 0" "watches_batch watched"
  shows "queue_ok ft q \<Longrightarrow> int rounds \<ge> restarts_left ft q \<Longrightarrow>
    fst (restart_loop batch_size restart_ok watched rounds k ft q) \<noteq> Still_restarting \<and>
    (fst (restart_loop batch_size restart_ok watched rounds k ft q) = Restarted \<longrightarrow>
       set q \<subseteq> set (concat (snd (restart_loop batch_size restart_ok watched rounds k ft q))))"
proof (induction rounds arbitrary: k ft q)
  case 0
  have "q = []" if "\<not> is_failed_update ft"
  proof (rule ccontr)
    assume "q \<noteq> []"
    then have "0 < sum (tries_left ft) (set q)"
      using tries_left_pos [OF 0(1) that] by (intro sum_pos) (auto simp: less_le_trans [OF zero_less_one])
    then show False using 0(2) by (simp add: restarts_left_def)
  qed
  then show ?case by auto
next
  case (Suc rounds)
  show ?case
  proof (cases "q = [] \<or> is_failed_update ft")
    case True
    then show ?thesis by auto
  next
    case go: False
    let ?b = "slice_to q batch_size" and ?r = "slice_from q batch_size"
    have b: "q = ?b @ ?r" "?b \<noteq> []" using slices [OF assms(1), of q] go by auto
    show ?thesis
    proof (cases "restart_ok k ?b")
      case False
      then show ?thesis using go by (simp add: Let_def)
    next
      case True
      let ?failed = "watched k ?b"
      let ?ft = "fst (update_failure_counts ft ?failed)"
      have w: "distinct ?failed" "set ?failed \<subseteq> set ?b" using assms(2) by (auto simp: watches_batch_def)
      have "\<not> is_failed_update ft" using go by simp
      from restart_round [OF Suc.prems(1) this b w]
      have "queue_ok ?ft (?r @ ?failed)" "int rounds \<ge> restarts_left ?ft (?r @ ?failed)"
        using Suc.prems(2) by auto
      note IH = Suc.IH [OF this, of "Suc k"]
      have "set q = set ?b \<union> set ?r" using b(1) by (metis set_append)
      then show ?thesis using IH go True by (auto simp: Let_def split: prod.splits)
    qed
  qed
qed

lemma variable_batch_ignored:
  assumes "updater_init c = Inr c'" "up_strategy c = Some (Variable_batch_strategy ns autopause)"
    "to_thrift_update_settings group_size c' instances = Inr (js, c'')"
  shows "js_group_size js = 1"
  using assms by (auto simp: updater_init_def to_thrift_update_settings_def effective_strategy_def update_settings_def
      split: if_splits)

lemma restart_forever:
  assumes "batch_size > 0" "ft_max_total ft \<ge> 1" "fst ` set (ft_failures ft) \<subseteq> {n}" "distinct (map fst (ft_failures ft))"
  shows "fst (restart_loop batch_size (\<lambda>_ _. True) (\<lambda>_ b. b) rounds k ft [n]) = Still_restarting"
  using assms(2-4)
proof (induction rounds arbitrary: k ft)
  have ok: "\<not> is_failed_update ft" if "ft_max_total ft \<ge> 1" "fst ` set (ft_failures ft) \<subseteq> {n}"
    "distinct (map fst (ft_failures ft))" for ft
  proof -
    have "length (ft_failures ft) = card (fst ` set (ft_failures ft))"
      using that(3) by (metis distinct_card length_map set_map)
    also have "\<dots> \<le> card {n}" by (rule card_mono) (use that(2) in simp_all)
    finally have "length (ft_failures ft) \<le> 1" by simp
    then have "exceeded_count ft \<le> 1"
      unfolding exceeded_count_def using length_filter_le le_trans by blast
    then show ?thesis using that(1) by (simp add: is_failed_update_def)
  qed
  {
    case 0
    then show ?case using ok [of ft] by simp
  next
    case (Suc rounds)
    have one: "slice_to [n] batch_size = [n]" "slice_from [n] batch_size = []"
      using assms(1) by (simp_all add: slice_to_def slice_from_def)
    have "fst ` set (ft_failures (count_failure ft n)) \<subseteq> {n}" "distinct (map fst (ft_failures (count_failure ft n)))"
      using Suc.prems(2,3) by (auto simp: count_failure_def distinct_update dom_update)
    then show ?case
      using Suc.IH [of "count_failure ft n" "Suc k"] ok [of ft] Suc.prems
      by (simp add: one Let_def case_prod_beta)
  }
qed

section \<open>Properties\<close>

text \<open>The instance ranges stand for exactly the given instances, in their order: written
  out one after another they give the list back, whatever its order and repetitions; and for an ascending
  list the ranges are non-empty, ascending and cannot be joined, so there is no shorter way to write them.\<close>

theorem ranges_expand_to_instances:
  assumes "instances_to_ranges xs = Some ranges"
  shows "concat (map (\<lambda>(a, b). [a..b]) ranges) = xs \<and> (\<forall>(a, b)\<in>set ranges. a \<le> b) \<and>
    (sorted_wrt (<) xs \<longrightarrow> sorted_wrt (\<lambda>(a, b) (c, d). b + 1 < c) ranges)"
proof -
  have "ranges = ranges_of 0 xs" using assms by (simp add: instances_to_ranges_eq split: if_splits)
  then show ?thesis using ranges_expand [of 0 xs] ranges_separated [of xs 0] by blast
qed

theorem ranges_expand_to_instances_witness:
  "instances_to_ranges [0, 1, 2, 5, 8, 9] = Some [(0, 2), (5, 5), (8, 9)] \<and>
   concat (map (\<lambda>(a, b). [a..b]) [(0, 2), (5, 5), (8, 9)]) = [0, 1, 2, 5, 8, 9 :: int]"
proof -
  have "instances_to_ranges [0, 1, 2, 5, 8, 9] = Some [(0, 2), (5, 5), (8, 9)]"
    by (simp add: instances_to_ranges_def)
  then show ?thesis using ranges_expand_to_instances by blast
qed

text \<open>A rolling restart whose total failure limit is zero ends whatever the
  scheduler and the watcher answer: after at most one restart per instance and tolerated failure it
  has stopped, and if it reports success every instance was restarted.\<close>

theorem restart_ends:
  assumes "rs_batch_size s > 0" "rs_max_total_failures s = 0" "rs_max_per_instance_failures s \<ge> 0"
    "watches_batch watched" "distinct instances" "instances \<noteq> []"
    "int rounds \<ge> int (length instances) * (rs_max_per_instance_failures s + 1)"
  shows "\<exists>result batches. restart_job s (Some ids) restart_ok watched rounds instances = (result, batches) \<and>
    result \<noteq> Still_restarting \<and> (result = Restarted \<longrightarrow> set instances \<subseteq> set (concat batches))"
proof -
  let ?ft = "new_threshold (rs_max_per_instance_failures s) (rs_max_total_failures s)"
  have "queue_ok ?ft instances" using assms by (simp add: queue_ok_def new_threshold_def)
  moreover have "restarts_left ?ft instances = int (length instances) * (rs_max_per_instance_failures s + 1)"
    using assms(5) by (simp add: restarts_left_def tries_left_def failures_of_def new_threshold_def distinct_card)
  ultimately show ?thesis
    using restart_loop_ends [OF assms(1,4), of ?ft instances rounds restart_ok 0] assms(6,7)
    by (cases "restart_loop (rs_batch_size s) restart_ok watched rounds 0 ?ft instances") (simp add: restart_job_def)
qed

theorem restart_ends_witness:
  "\<exists>result batches. restart_job \<lparr>rs_batch_size = 2, rs_max_per_instance_failures = 0, rs_max_total_failures = 0\<rparr>
      (Some []) (\<lambda>_ _. True) (\<lambda>_ _. []) 3 [4, 5, 6] = (result, batches) \<and> result \<noteq> Still_restarting"
proof -
  have "watches_batch (\<lambda>_ _. [])" by (simp add: watches_batch_def)
  then show ?thesis
    using restart_ends [of "\<lparr>rs_batch_size = 2, rs_max_per_instance_failures = 0, rs_max_total_failures = 0\<rparr>"
        "\<lambda>_ _. []" "[4, 5, 6]" 3 "[]" "\<lambda>_ _. True"] by auto
qed

text \<open>With a total failure limit of one or more, an instance that fails every time is
  restarted for ever: failed instances go back into the queue also after their own limit is exceeded, and one
  failed instance never exceeds the total limit.\<close>

theorem restart_never_gives_up:
  assumes "rs_batch_size s > 0" "rs_max_total_failures s \<ge> 1"
  shows "fst (restart_job s (Some ids) (\<lambda>_ _. True) (\<lambda>_ b. b) rounds [n]) = Still_restarting"
  using restart_forever [OF assms(1), of "new_threshold (rs_max_per_instance_failures s) (rs_max_total_failures s)" n rounds 0]
    assms(2)
  by (simp add: restart_job_def new_threshold_def)

theorem restart_never_gives_up_witness:
  "fst (restart_job \<lparr>rs_batch_size = 1, rs_max_per_instance_failures = 0, rs_max_total_failures = 1\<rparr>
      (Some []) (\<lambda>_ _. True) (\<lambda>_ b. b) 1000 [7]) = Still_restarting"
  by (rule restart_never_gives_up) simp_all

end
