(* ===== verification/ProcessLog.thy ===== *)
theory ProcessLog
  imports RecordIO
begin

text \<open>
  The output of a process, the second half of \<^verbatim>\<open>apache/thermos/core/process.py\<close>: the choice of
  the log destinations, the handlers (plain streams, \<^verbatim>\<open>tee\<close> and files rotated by size) and the
  loop that copies the pipes of a child to them.  The output side of the world is a file system
  (the bytes of each existing path) and the bytes that went to each standard stream; whether a
  file can be opened is an argument.
\<close>


type_synonym files = "string \<Rightarrow> byte list option"

section \<open>Configuration\<close>

definition all_destinations :: "string list" where
  "all_destinations = [''file'', ''console'', ''both'', ''none'']"

definition destination_valid :: "string \<Rightarrow> bool" where
  "destination_valid d = (d \<in> set all_destinations)"

definition all_modes :: "string list" where
  "all_modes = [''standard'', ''rotate'']"

definition mode_valid :: "string \<Rightarrow> bool" where
  "mode_valid m = (m \<in> set all_modes)"

record log_config =
  lc_destination :: string
  lc_mode :: string
  lc_rotate_size :: "int option"
  lc_rotate_backups :: "int option"

definition resolver_init :: "log_config \<Rightarrow> pyexc option" where
  "resolver_init c =
     (if \<not> destination_valid (lc_destination c) \<or> \<not> mode_valid (lc_mode c)
      then Some ValueError else None)"

section \<open>Rotated files\<close>

record rotating =
  rf_filename :: string
  rf_max_bytes :: int
  rf_max_backups :: int
  rf_closed :: bool

text \<open>\<^verbatim>\<open>'%d' % index\<close> for an index that is not negative.\<close>

fun decimal :: "nat \<Rightarrow> string" where
  "decimal n = (if n < 10 then [char_of (48 + n)] else decimal (n div 10) @ [char_of (48 + n mod 10)])"

declare decimal.simps [simp del]

definition indexed_filename :: "string \<Rightarrow> nat \<Rightarrow> string" where
  "indexed_filename f i = f @ ''.'' @ decimal i"

text \<open>Opening with mode \<^verbatim>\<open>wb\<close> truncates, with mode \<^verbatim>\<open>ab\<close> it does not.\<close>

definition open_wb :: "string \<Rightarrow> files \<Rightarrow> files" where
  "open_wb p fs = fs(p \<mapsto> [])"

definition open_ab :: "string \<Rightarrow> files \<Rightarrow> files" where
  "open_ab p fs = fs(p \<mapsto> (case fs p of None \<Rightarrow> [] | Some bs \<Rightarrow> bs))"

definition append_file :: "string \<Rightarrow> byte list \<Rightarrow> files \<Rightarrow> files" where
  "append_file p bs fs = fs(p \<mapsto> (case fs p of None \<Rightarrow> [] | Some old \<Rightarrow> old) @ bs)"

text \<open>A missing number of backups cannot be compared with zero.  Without a limit it is not looked at.\<close>

definition rotating_init :: "string \<Rightarrow> int \<Rightarrow> int option \<Rightarrow> files \<Rightarrow> (pyexc + rotating) \<times> files" where
  "rotating_init filename max_bytes max_backups fs =
     (if max_bytes > 0 \<and> max_backups = None then (Inl TypeError, fs)
      else if max_bytes > 0 \<and> the max_backups \<le> 0 then (Inl ValueError, fs)
      else (Inr \<lparr>rf_filename = filename, rf_max_bytes = max_bytes,
                 rf_max_backups = (case max_backups of None \<Rightarrow> 0 | Some b \<Rightarrow> b), rf_closed = False\<rparr>,
            open_wb filename fs))"

text \<open>\<^verbatim>\<open>swap_files\<close>: the target goes also when there is no source to take its place.\<close>

definition swap_files :: "string \<Rightarrow> string \<Rightarrow> files \<Rightarrow> files" where
  "swap_files src tgt fs =
     (let fs1 = (if fs tgt \<noteq> None then fs(tgt := None) else fs)
      in case fs1 src of None \<Rightarrow> fs1 | Some bs \<Rightarrow> fs1(src := None, tgt \<mapsto> bs))"

text \<open>\<^verbatim>\<open>self.file.tell()\<close>: the file was truncated when it was opened and is only appended to.\<close>

definition should_rollover :: "rotating \<Rightarrow> files \<Rightarrow> bool" where
  "should_rollover r fs =
     (if rf_max_bytes r \<le> 0 \<or> rf_max_backups r \<le> 0 then False
      else int (length (case fs (rf_filename r) of None \<Rightarrow> [] | Some bs \<Rightarrow> bs)) \<ge> rf_max_bytes r)"

definition shift_one :: "string \<Rightarrow> nat \<Rightarrow> files \<Rightarrow> files" where
  "shift_one f i fs =
     (if fs (indexed_filename f i) \<noteq> None
      then swap_files (indexed_filename f i) (indexed_filename f (i + 1)) fs else fs)"

text \<open>The loop of \<^verbatim>\<open>rollover\<close>, \<^verbatim>\<open>range(max_backups - 1, 0, -1)\<close>.\<close>

fun shift_backups :: "string \<Rightarrow> nat \<Rightarrow> files \<Rightarrow> files" where
  "shift_backups f 0 fs = fs"
| "shift_backups f (Suc i) fs = shift_backups f i (shift_one f (Suc i) fs)"

definition rollover :: "rotating \<Rightarrow> files \<Rightarrow> files" where
  "rollover r fs =
     open_wb (rf_filename r)
       (swap_files (rf_filename r) (indexed_filename (rf_filename r) 1)
          (shift_backups (rf_filename r) (nat (rf_max_backups r - 1)) fs))"

definition rotating_write :: "rotating \<Rightarrow> byte list \<Rightarrow> files \<Rightarrow> files" where
  "rotating_write r b fs =
     (let fs1 = append_file (rf_filename r) b fs
      in if should_rollover r fs1 then rollover r fs1 else fs1)"

definition rotating_close :: "rotating \<Rightarrow> rotating" where
  "rotating_close r = (if \<not> rf_closed r then r\<lparr>rf_closed := True\<rparr> else r)"

section \<open>Handlers\<close>

text \<open>What a stream writes to: a standard stream, by name, or a file.  The standard streams are text
  streams and refuse the bytes that were read from a pipe; \<^verbatim>\<open>/dev/null\<close> is opened for bytes.  \<open>Absent\<close> is the \<^verbatim>\<open>None\<close> that
  \<^verbatim>\<open>_get_file\<close> falls through to for a mode of neither kind.\<close>

datatype handler = Raw_stream string | Stream_handler string | Append_handler string
  | Rotating_handler rotating | Tee_handler handler handler | Absent

record log_output =
  out_streams :: "string \<Rightarrow> byte list"
  out_files :: files

definition stream_write :: "string \<Rightarrow> byte list \<Rightarrow> log_output \<Rightarrow> log_output" where
  "stream_write s b out = out\<lparr>out_streams := (out_streams out)(s := out_streams out s @ b)\<rparr>"

fun handler_write :: "handler \<Rightarrow> byte list \<Rightarrow> log_output \<Rightarrow> pyexc + log_output" where
  "handler_write (Raw_stream s) b out = Inl TypeError"
| "handler_write (Stream_handler s) b out =
     (if s = ''/dev/null'' then Inr (stream_write s b out) else Inl TypeError)"
| "handler_write (Append_handler p) b out =
     Inr (out\<lparr>out_files := append_file p b (out_files out)\<rparr>)"
| "handler_write (Rotating_handler r) b out =
     Inr (out\<lparr>out_files := rotating_write r b (out_files out)\<rparr>)"
| "handler_write (Tee_handler h1 h2) b out = rbind (handler_write h1 b out) (handler_write h2 b)"
| "handler_write Absent b out = Inl AttributeError"

definition handlers_are_files :: "log_config \<Rightarrow> bool" where
  "handlers_are_files c =
     (lc_destination c = ''console'' \<or> lc_destination c = ''file'' \<and> lc_mode c = ''standard'')"

text \<open>\<open>path\<close> is \<^verbatim>\<open>_get_log_path\<close>, \<open>openable\<close> says which files \<^verbatim>\<open>safe_open\<close> can open.\<close>

definition get_log_file :: "(string \<Rightarrow> bool) \<Rightarrow> (string \<Rightarrow> string) \<Rightarrow> log_config \<Rightarrow> string \<Rightarrow> log_output
    \<Rightarrow> (pyexc + handler) \<times> log_output" where
  "get_log_file openable path c name out =
     (if lc_mode c = ''standard'' then
        (if openable (path name)
         then (Inr (Append_handler (path name)), out\<lparr>out_files := open_ab (path name) (out_files out)\<rparr>)
         else (Inl OSError, out))
      else if lc_mode c = ''rotate'' then
        (case lc_rotate_size c of
           None \<Rightarrow> (Inl AttributeError, out)
         | Some n \<Rightarrow>
             (case rotating_init (path name) n (lc_rotate_backups c) (out_files out) of
                (Inl e, _) \<Rightarrow> (Inl e, out)
              | (Inr r, fs) \<Rightarrow> if openable (path name) then (Inr (Rotating_handler r), out\<lparr>out_files := fs\<rparr>)
                              else (Inl OSError, out)))
      else (Inr Absent, out))"

definition get_stream :: "string \<Rightarrow> handler" where
  "get_stream name =
     (if name = ''stdout'' then Stream_handler ''stdout''
      else if name = ''stderr'' then Stream_handler ''stderr'' else Absent)"

definition get_handler :: "(string \<Rightarrow> bool) \<Rightarrow> (string \<Rightarrow> string) \<Rightarrow> log_config \<Rightarrow> string \<Rightarrow> log_output
    \<Rightarrow> (pyexc + handler) \<times> log_output" where
  "get_handler openable path c name out =
     (if lc_destination c = ''none'' then
        (if openable ''/dev/null'' then (Inr (Stream_handler ''/dev/null''), out) else (Inl OSError, out))
      else if lc_destination c = ''console'' then
        (Inr (Raw_stream (if name = ''stdout'' then ''stdout'' else ''stderr'')), out)
      else if lc_destination c = ''both'' then
        (case get_log_file openable path c name out of
           (Inl e, out') \<Rightarrow> (Inl e, out')
         | (Inr h, out') \<Rightarrow> (Inr (Tee_handler (get_stream name) h), out'))
      else get_log_file openable path c name out)"

definition get_handlers :: "(string \<Rightarrow> bool) \<Rightarrow> (string \<Rightarrow> string) \<Rightarrow> log_config \<Rightarrow> log_output
    \<Rightarrow> (pyexc + handler \<times> handler \<times> bool) \<times> log_output" where
  "get_handlers openable path c out =
     (case get_handler openable path c ''stdout'' out of
        (Inl e, out1) \<Rightarrow> (Inl e, out1)
      | (Inr h1, out1) \<Rightarrow>
          (case get_handler openable path c ''stderr'' out1 of
             (Inl e, out2) \<Rightarrow> (Inl e, out2)
           | (Inr h2, out2) \<Rightarrow> (Inr (h1, h2, handlers_are_files c), out2)))"

section \<open>Copying the pipes of a child\<close>

text \<open>One round of \<^verbatim>\<open>PipedSubprocessExecutor.wait\<close>: what \<^verbatim>\<open>poll\<close> returns, and the descriptors
  \<^verbatim>\<open>select\<close> reports with what is read from each, nothing at the end of the file.  \<open>open\<close> is the
  dictionary of the pipes.  A child that outlives the rounds given leaves the loop running: \<open>None\<close>.\<close>

datatype pipe = Out | Err

record pipe_round =
  pr_rc :: "int option"
  pr_reads :: "(pipe \<times> byte list) list"

fun copy_reads :: "(pipe \<Rightarrow> handler) \<Rightarrow> (pipe \<times> byte list) list \<Rightarrow> pipe list \<Rightarrow> log_output
    \<Rightarrow> pyexc + pipe list \<times> log_output" where
  "copy_reads hs [] opened out = Inr (opened, out)"
| "copy_reads hs ((p, b) # rs) opened out =
     (if p \<notin> set opened then Inl KeyError
      else if b = [] then copy_reads hs rs (filter (\<lambda>q. q \<noteq> p) opened) out
      else rbind (handler_write (hs p) b out) (copy_reads hs rs opened))"

fun pipe_wait :: "(pipe \<Rightarrow> handler) \<Rightarrow> pipe_round list \<Rightarrow> int option \<Rightarrow> pipe list \<Rightarrow> log_output
    \<Rightarrow> (pyexc + int \<times> log_output) option" where
  "pipe_wait hs [] rc opened out =
     (if rc = None \<or> opened \<noteq> [] then None else Some (Inr (the rc, out)))"
| "pipe_wait hs (r # rs) rc opened out =
     (if rc = None \<or> opened \<noteq> [] then
        (case copy_reads hs (pr_reads r) opened out of
           Inl e \<Rightarrow> Some (Inl e)
         | Inr (opened', out') \<Rightarrow> pipe_wait hs rs (pr_rc r) opened' out')
      else Some (Inr (the rc, out)))"

section \<open>The names of the backups\<close>

definition undecimal :: "string \<Rightarrow> nat" where
  "undecimal s = foldl (\<lambda>n c. n * 10 + (of_char c - 48)) 0 s"

lemma undecimal_decimal: "undecimal (decimal n) = n"
proof (induction n rule: decimal.induct)
  case (1 n)
  then show ?case by (subst decimal.simps) (simp add: undecimal_def)
qed

lemma decimal_eq_iff [simp]: "decimal i = decimal j \<longleftrightarrow> i = j"
  by (metis undecimal_decimal)

lemma indexed_filename_eq_iff [simp]: "indexed_filename f i = indexed_filename f j \<longleftrightarrow> i = j"
  by (simp add: indexed_filename_def)

lemma indexed_filename_neq [simp]: "indexed_filename f i \<noteq> f" "f \<noteq> indexed_filename f i"
  by (simp_all add: indexed_filename_def)

section \<open>One rollover\<close>

lemma swap_files_at:
  "src \<noteq> tgt \<Longrightarrow> swap_files src tgt fs p =
     (if p = tgt then fs src else if p = src then None else fs p)"
  by (auto simp: swap_files_def Let_def split: option.split)

lemma shift_one_at:
  "shift_one f i fs p =
     (if fs (indexed_filename f i) = None then fs p
      else if p = indexed_filename f (i + 1) then fs (indexed_filename f i)
      else if p = indexed_filename f i then None else fs p)"
  by (simp add: shift_one_def swap_files_at)

lemma shift_backups_other:
  "(\<And>j. p \<noteq> indexed_filename f j) \<Longrightarrow> shift_backups f m fs p = fs p"
  by (induction m arbitrary: fs) (simp_all add: shift_one_at)

lemma shift_backups_at:
  "shift_backups f m fs (indexed_filename f j) =
     (if m = 0 \<or> j = 0 \<or> m + 1 < j then fs (indexed_filename f j)
      else if j = 1 then None
      else if j = m + 1 \<and> fs (indexed_filename f m) = None then fs (indexed_filename f j)
      else fs (indexed_filename f (j - 1)))"
proof (induction m arbitrary: fs j)
  case 0
  then show ?case by simp
next
  case (Suc m)
  show ?case
    by (cases "m = 0"; cases "j = Suc m"; cases "j = Suc (Suc m)")
       (auto simp: Suc shift_one_at)
qed

lemma rollover_exact:
  assumes "0 < rf_max_backups r"
  shows "rollover r fs (rf_filename r) = Some []"
    and "rollover r fs (indexed_filename (rf_filename r) 1) = fs (rf_filename r)"
    and "1 < j \<Longrightarrow> int j \<le> rf_max_backups r \<Longrightarrow>
      rollover r fs (indexed_filename (rf_filename r) j) =
        (if int j = rf_max_backups r \<and> fs (indexed_filename (rf_filename r) (j - 1)) = None
         then fs (indexed_filename (rf_filename r) j)
         else fs (indexed_filename (rf_filename r) (j - 1)))"
    and "rf_max_backups r < int j \<Longrightarrow>
      rollover r fs (indexed_filename (rf_filename r) j) = fs (indexed_filename (rf_filename r) j)"
    and "p \<noteq> rf_filename r \<Longrightarrow> (\<And>j. p \<noteq> indexed_filename (rf_filename r) j) \<Longrightarrow>
      rollover r fs p = fs p"
proof -
  obtain k where k: "rf_max_backups r = int (Suc k)"
    using assms by (metis Suc_pred int_nat_eq less_le nat_eq_iff2 of_nat_0_less_iff)
  note facts = rollover_def open_wb_def swap_files_at shift_backups_at shift_backups_other k
  show "rollover r fs (rf_filename r) = Some []"
    "rollover r fs (indexed_filename (rf_filename r) 1) = fs (rf_filename r)"
    by (simp_all add: facts)
  show "1 < j \<Longrightarrow> int j \<le> rf_max_backups r \<Longrightarrow>
      rollover r fs (indexed_filename (rf_filename r) j) =
        (if int j = rf_max_backups r \<and> fs (indexed_filename (rf_filename r) (j - 1)) = None
         then fs (indexed_filename (rf_filename r) j)
         else fs (indexed_filename (rf_filename r) (j - 1)))"
    by (cases "j = Suc k") (auto simp: facts)
  show "rf_max_backups r < int j \<Longrightarrow>
      rollover r fs (indexed_filename (rf_filename r) j) = fs (indexed_filename (rf_filename r) j)"
    by (simp add: facts)
  show "p \<noteq> rf_filename r \<Longrightarrow> (\<And>j. p \<noteq> indexed_filename (rf_filename r) j) \<Longrightarrow>
      rollover r fs p = fs p"
    by (simp add: facts)
qed

section \<open>A stream of writes\<close>

text \<open>The reference: a chunk is closed as soon as it has reached the limit; the newest first.\<close>

fun segments :: "int \<Rightarrow> byte list list \<times> byte list \<Rightarrow> byte list list \<Rightarrow> byte list list \<times> byte list" where
  "segments n (done, cur) [] = (done, cur)"
| "segments n (done, cur) (b # bs) =
     (if n \<le> int (length (cur @ b)) then segments n ((cur @ b) # done, []) bs
      else segments n (done, cur @ b) bs)"

definition holds_chunks :: "rotating \<Rightarrow> files \<Rightarrow> byte list list \<times> byte list \<Rightarrow> bool" where
  "holds_chunks r fs c = (fs (rf_filename r) = Some (snd c) \<and>
     (\<forall>j. 1 \<le> j \<longrightarrow> int j \<le> rf_max_backups r \<longrightarrow> fs (indexed_filename (rf_filename r) j) =
        (if j \<le> length (fst c) then Some (fst c ! (j - 1)) else None)))"

lemma holds_rollover:
  assumes r: "0 < rf_max_backups r" and h: "holds_chunks r fs (done, cur)"
  shows "holds_chunks r (rollover r fs) (cur # done, [])"
  unfolding holds_chunks_def
proof (intro conjI allI impI)
  show "rollover r fs (rf_filename r) = Some (snd (cur # done, []))" 
    by (simp add: rollover_exact [OF r])
next
  fix j :: nat assume j: "1 \<le> j" "int j \<le> rf_max_backups r"
  show "rollover r fs (indexed_filename (rf_filename r) j) =
      (if j \<le> length (fst (cur # done, [])) then Some (fst (cur # done, []) ! (j - 1)) else None)"
  proof (cases "j = 1")
    case True
    then show ?thesis using rollover_exact(2) [OF r] h by (simp add: holds_chunks_def)
  next
    case False
    then obtain i where i: "j = Suc i" "1 \<le> i" using j by (cases j) auto
    have "fs (indexed_filename (rf_filename r) i) = (if i \<le> length done then Some (done ! (i - 1)) else None)"
      "fs (indexed_filename (rf_filename r) j) = (if j \<le> length done then Some (done ! i) else None)"
      using h i j by (auto simp: holds_chunks_def)
    then show ?thesis using rollover_exact(3) [OF r, of j] i j by auto
  qed
qed

lemma holds_append:
  assumes "holds_chunks r fs (done, cur)"
  shows "holds_chunks r (append_file (rf_filename r) b fs) (done, cur @ b)"
  using assms by (simp add: holds_chunks_def append_file_def)

lemma holds_write:
  assumes r: "0 < rf_max_backups r" "0 < rf_max_bytes r" and h: "holds_chunks r fs (done, cur)"
  shows "holds_chunks r (rotating_write r b fs) (segments (rf_max_bytes r) (done, cur) [b])"
proof -
  have "(append_file (rf_filename r) b fs) (rf_filename r) = Some (cur @ b)"
    using h by (simp add: holds_chunks_def append_file_def)
  then show ?thesis
    using holds_rollover [OF r(1) holds_append [OF h, of b]] holds_append [OF h, of b] r
    by (auto simp: rotating_write_def Let_def should_rollover_def)
qed

lemma segments_Cons: "segments n c (b # bs) = segments n (segments n c [b]) bs"
  by (cases c) simp

lemma holds_writes:
  assumes r: "0 < rf_max_backups r" "0 < rf_max_bytes r" and h: "holds_chunks r fs c"
  shows "holds_chunks r (fold (rotating_write r) bs fs) (segments (rf_max_bytes r) c bs)"
  using h
proof (induction bs arbitrary: fs c)
  case Nil
  then show ?case by (cases c) simp
next
  case (Cons b bs)
  have "holds_chunks r (rotating_write r b fs) (segments (rf_max_bytes r) c [b])"
    using holds_write [OF r] Cons.prems by (cases c) blast
  then show ?case using Cons.IH segments_Cons [of "rf_max_bytes r" c b bs] by simp
qed

lemma segments_concat: "segments n (done, cur) bs = (done', cur') \<Longrightarrow>
    concat (rev done') @ cur' = concat (rev done) @ cur @ concat bs"
  by (induction n "(done, cur)" bs arbitrary: "done" cur rule: segments.induct)
     (auto split: if_splits)

lemma segments_bounds:
  "segments n (done, cur) bs = (done', cur') \<Longrightarrow> 0 < n \<Longrightarrow> int (length cur) < n \<Longrightarrow>
     (\<forall>c\<in>set done. n \<le> int (length c) \<and> int (length c) < n + m) \<Longrightarrow>
     (\<forall>b\<in>set bs. int (length b) \<le> m) \<Longrightarrow>
     int (length cur') < n \<and> (\<forall>c\<in>set done'. n \<le> int (length c) \<and> int (length c) < n + m)"
  by (induction n "(done, cur)" bs arbitrary: "done" cur rule: segments.induct)
     (auto split: if_splits)

definition no_backups :: "string \<Rightarrow> files \<Rightarrow> bool" where
  "no_backups f fs = (\<forall>j. fs (indexed_filename f j) = None)"

text \<open>C36: a rotated log that starts without backups keeps the newest output: cut into chunks that
  are closed when they reach the limit, the open chunk is the log file and the last
  \<^verbatim>\<open>max_backups\<close> closed chunks are the backups, the newest as number one.  The chunks are the
  whole output in order, and the sizes stay below the limit plus one write.\<close>

theorem rotation_keeps_newest:
  assumes "rotating_init f n (Some k) fs = (Inr r, fs0)" and "0 < n" and "no_backups f fs"
    and "segments n ([], []) bs = (done, cur)" and "\<forall>b\<in>set bs. int (length b) \<le> m"
    and "fs' = fold (rotating_write r) bs fs0"
  shows "fs' f = Some cur \<and> int (length cur) < n \<and> concat (rev done) @ cur = concat bs \<and>
    (\<forall>c\<in>set done. n \<le> int (length c) \<and> int (length c) < n + m) \<and>
    (\<forall>j. 1 \<le> j \<longrightarrow> int j \<le> k \<longrightarrow>
       fs' (indexed_filename f j) = (if j \<le> length done then Some (done ! (j - 1)) else None))"
proof -
  have r: "rf_filename r = f" "rf_max_bytes r = n" "rf_max_backups r = k" "0 < k" "fs0 = fs(f \<mapsto> [])"
    using assms(1,2) by (auto simp: rotating_init_def open_wb_def split: if_splits)
  have "holds_chunks r fs0 ([], [])"
    using assms(3) r by (simp add: holds_chunks_def no_backups_def)
  then have "holds_chunks r fs' (done, cur)"
    using holds_writes [of r fs0 "([], [])" bs] r assms(2,4,6) by simp
  moreover have "concat (rev done) @ cur = concat bs" using segments_concat [OF assms(4)] by simp
  moreover have "int (length cur) < n \<and> (\<forall>c\<in>set done. n \<le> int (length c) \<and> int (length c) < n + m)"
    using segments_bounds [OF assms(4), of m] assms(2,5) by simp
  ultimately show ?thesis using r by (simp add: holds_chunks_def)
qed


theorem rotation_keeps_newest_witness:
  "let r = \<lparr>rf_filename = ''o'', rf_max_bytes = 2, rf_max_backups = 1, rf_closed = False\<rparr>;
       fs' = fold (rotating_write r) [[1], [2, 3], [4, 5], [6]] (\<lambda>p. if p = ''o'' then Some [] else None)
   in fs' ''o'' = Some [6] \<and> fs' (indexed_filename ''o'' 1) = Some [4, 5]"
proof -
  let ?r = "\<lparr>rf_filename = ''o'', rf_max_bytes = 2, rf_max_backups = 1, rf_closed = False\<rparr>"
  have i: "rotating_init ''o'' 2 (Some 1) Map.empty = (Inr ?r, (\<lambda>p. if p = ''o'' then Some [] else None))"
    by (auto simp: rotating_init_def open_wb_def)
  have n: "no_backups ''o'' Map.empty" by (simp add: no_backups_def)
  have g: "segments 2 ([], []) [[1], [2, 3], [4, 5], [6]] = ([[4, 5], [1, 2, 3]], [6])" by simp
  show ?thesis
    using rotation_keeps_newest [OF i _ n g, of 2, OF _ _ refl] by (simp add: Let_def)
qed

section \<open>What the pipe loop has written when it returns\<close>

fun write_reads :: "(pipe \<Rightarrow> handler) \<Rightarrow> (pipe \<times> byte list) list \<Rightarrow> log_output \<Rightarrow> pyexc + log_output" where
  "write_reads hs [] out = Inr out"
| "write_reads hs ((p, b) # rs) out =
     (if b = [] then write_reads hs rs out else rbind (handler_write (hs p) b out) (write_reads hs rs))"

lemma write_reads_append:
  "write_reads hs (xs @ ys) out = rbind (write_reads hs xs out) (write_reads hs ys)"
  by (induction hs xs out rule: write_reads.induct) (auto simp: rbind_assoc intro!: arg_cong [of _ _ "rbind _"] ext)

lemma copy_reads_written:
  "copy_reads hs rs opened out = Inr (opened', out') \<Longrightarrow>
     write_reads hs rs out = Inr out' \<and> {p \<in> set opened. (p, []) \<notin> set rs} \<subseteq> set opened'"
  by (induction hs rs opened out rule: copy_reads.induct)
     (auto simp: rbind_Inr_iff split: if_splits)

definition reads_of :: "pipe_round list \<Rightarrow> (pipe \<times> byte list) list" where
  "reads_of rs = concat (map pr_reads rs)"

lemma reads_of_Cons: "reads_of (r # rs) = pr_reads r @ reads_of rs"
  by (simp add: reads_of_def)

lemma pipe_wait_copies:
  "pipe_wait hs rs rc opened out = Some (Inr (code, out')) \<Longrightarrow>
     \<exists>n \<le> length rs. write_reads hs (reads_of (take n rs)) out = Inr out' \<and>
       (\<forall>p \<in> set opened. (p, []) \<in> set (reads_of (take n rs))) \<and>
       Some code = (if n = 0 then rc else pr_rc (rs ! (n - 1)))"
proof (induction rs arbitrary: rc opened out)
  case Nil
  then show ?case by (auto simp: reads_of_def split: if_splits)
next
  case (Cons r rs)
  show ?case
  proof (cases "rc = None \<or> opened \<noteq> []")
    case False
    then show ?thesis using Cons.prems by (intro exI [of _ 0]) (auto simp: reads_of_def)
  next
    case True
    then obtain opened1 out1 where c: "copy_reads hs (pr_reads r) opened out = Inr (opened1, out1)"
      and w: "pipe_wait hs rs (pr_rc r) opened1 out1 = Some (Inr (code, out'))"
      using Cons.prems by (auto split: sum.splits)
    obtain n where n: "n \<le> length rs" "write_reads hs (reads_of (take n rs)) out1 = Inr out'"
      "\<forall>p \<in> set opened1. (p, []) \<in> set (reads_of (take n rs))"
      "Some code = (if n = 0 then pr_rc r else pr_rc (rs ! (n - 1)))"
      using Cons.IH [OF w] by blast
    show ?thesis
    proof (intro exI [of _ "Suc n"] conjI)
      show "write_reads hs (reads_of (take (Suc n) (r # rs))) out = Inr out'"
        using copy_reads_written [OF c] n(2) by (simp add: reads_of_Cons write_reads_append)
      show "\<forall>p \<in> set opened. (p, []) \<in> set (reads_of (take (Suc n) (r # rs)))"
        using copy_reads_written [OF c] n(3) by (auto simp: reads_of_Cons)
      show "Some code = (if Suc n = 0 then rc else pr_rc ((r # rs) ! (Suc n - 1)))"
        using n(4) by (cases n) auto
    qed (use n(1) in simp)
  qed
qed

text \<open>After the checks of the constructor a handler for each stream is found, unless a log file
  cannot be opened.\<close>

lemma get_handlers_total:
  assumes "resolver_init c = None" and "\<And>p. openable p"
    and "lc_mode c = ''rotate'' \<longrightarrow> (\<exists>n k. lc_rotate_size c = Some n \<and> 0 < n \<and>
      lc_rotate_backups c = Some k \<and> 0 < k)"
  shows "\<exists>h1 h2 out'. get_handlers openable path c out = (Inr (h1, h2, handlers_are_files c), out') \<and>
    h1 \<noteq> Absent \<and> h2 \<noteq> Absent"
  using assms
  by (auto simp: get_handlers_def get_handler_def get_log_file_def rotating_init_def resolver_init_def
      destination_valid_def mode_valid_def all_modes_def all_destinations_def get_stream_def)

text \<open>With destination \<^verbatim>\<open>both\<close> the first output of a child ends the copying: the tee writes
  the bytes to the text stream first, which raises \<open>TypeError\<close>, so the loop never returns a
  return code once something is read, and nothing reaches the log file.\<close>

theorem both_destination_raises:
  assumes "lc_destination c = ''both''" and "get_handlers openable path c out0 = (Inr (h1, h2, files), out)"
    and "pr_reads r = (p, b) # rs" and "b \<noteq> []"
  shows "\<not> files \<and>
    pipe_wait (\<lambda>q. if q = Out then h1 else h2) (r # rounds) None [Out, Err] out = Some (Inl TypeError)"
proof -
  have h: "\<exists>f. h1 = Tee_handler (Stream_handler ''stdout'') f" "\<exists>f. h2 = Tee_handler (Stream_handler ''stderr'') f"
    "\<not> files"
    using assms(1,2)
    by (auto simp: get_handlers_def get_handler_def get_stream_def handlers_are_files_def split: prod.splits sum.splits)
  then show ?thesis using assms(3,4) by (cases p) auto
qed

theorem both_destination_raises_witness:
  "\<exists>h1 h2 out. get_handlers (\<lambda>_. True) (\<lambda>n. n) \<lparr>lc_destination = ''both'', lc_mode = ''standard'',
      lc_rotate_size = None, lc_rotate_backups = None\<rparr> \<lparr>out_streams = (\<lambda>_. []), out_files = Map.empty\<rparr> =
      (Inr (h1, h2, False), out) \<and>
    pipe_wait (\<lambda>q. if q = Out then h1 else h2) [\<lparr>pr_rc = Some 0, pr_reads = [(Out, [104, 105])]\<rparr>] None [Out, Err] out
      = Some (Inl TypeError)"
proof -
  let ?c = "\<lparr>lc_destination = ''both'', lc_mode = ''standard'', lc_rotate_size = None, lc_rotate_backups = None\<rparr>"
  let ?o = "\<lparr>out_streams = (\<lambda>_. []), out_files = Map.empty\<rparr>"
  obtain h1 h2 out where g: "get_handlers (\<lambda>_. True) (\<lambda>n. n) ?c ?o = (Inr (h1, h2, False), out)"
    by (simp add: get_handlers_def get_handler_def get_log_file_def handlers_are_files_def)
  show ?thesis
    using both_destination_raises [OF _ g, of "\<lparr>pr_rc = Some 0, pr_reads = [(Out, [104, 105])]\<rparr>" Out "[104, 105]" "[]" "[]"] g
    by simp
qed

end
