(* ===== verification/Coordinator.thy ===== *)
theory Coordinator
  imports Ckpt ProcessLog
begin

text \<open>
  The coordinator of one process of a task, \<^verbatim>\<open>apache/thermos/core/process.py\<close>: the checks of
  the constructors, the fork with its hand-over of the checkpoint stream from the runner to
  the child, the drop of privileges, the environment and the command line of the target, and
  the records the coordinator writes.  An object is a record; what it does to the operating
  system is an effect appended to \<open>c_effects\<close>, the credentials of the process are part of the
  state, and so are the bytes of the checkpoint file.  The host (accounts, environment, clock,
  locks, the outcome of a \<^verbatim>\<open>Popen\<close>) is an argument.
\<close>

datatype proc_error = UnknownUserError | CheckpointError | UnspecifiedSandbox | PermissionError
  | Reading rec_error

type_synonym proc_exn = "proc_error exn"

section \<open>Configuration\<close>

record proc_config =
  pc_name :: string
  pc_cmdline :: string
  pc_sandbox :: "string option"
  pc_user :: "string option"
  pc_log :: log_config
  pc_chroot :: bool
  pc_preserve_env :: bool
  pc_containerizer :: "string option"
  pc_container_sandbox :: "string option"

text \<open>\<^verbatim>\<open>not self._sandbox\<close>: neither \<^verbatim>\<open>None\<close> nor the empty path is a sandbox.\<close>

definition sandbox_set :: "proc_config \<Rightarrow> bool" where
  "sandbox_set c = (pc_sandbox c \<noteq> None \<and> pc_sandbox c \<noteq> Some [])"

text \<open>The checks of \<^verbatim>\<open>ProcessBase.__init__\<close>, in their order.  The size is in bytes; \<^verbatim>\<open>None\<close> has no
  \<^verbatim>\<open>as_\<close> and cannot be compared with a number.\<close>

definition process_base_init :: "bool \<Rightarrow> proc_config \<Rightarrow> proc_exn option" where
  "process_base_init has_platform c =
     (if \<not> has_platform then Some (Py ValueError)
      else if \<not> destination_valid (lc_destination (pc_log c)) then Some (Py ValueError)
      else if \<not> mode_valid (lc_mode (pc_log c)) then Some (Py ValueError)
      else if lc_mode (pc_log c) = ''rotate'' then
        (case lc_rotate_size (pc_log c) of
           None \<Rightarrow> Some (Py AttributeError)
         | Some n \<Rightarrow>
             if n \<le> 0 then Some (Py ValueError)
             else (case lc_rotate_backups (pc_log c) of
                     None \<Rightarrow> Some (Py TypeError)
                   | Some b \<Rightarrow> if b \<le> 0 then Some (Py ValueError) else None))
      else None)"

definition process_init :: "proc_config \<Rightarrow> proc_exn option" where
  "process_init c =
     (if pc_containerizer c \<noteq> None \<and> pc_container_sandbox c = None
      then Some (Own UnspecifiedSandbox)
      else case process_base_init True c of
             Some e \<Rightarrow> Some e
           | None \<Rightarrow> if pc_chroot c \<and> pc_sandbox c = None then Some (Own UnspecifiedSandbox) else None)"

section \<open>The host and the state\<close>

record pwent =
  pw_name :: string
  pw_passwd :: string
  pw_uid :: int
  pw_gid :: int
  pw_gecos :: string
  pw_dir :: string
  pw_shell :: string

record host =
  h_getpwuid :: "int \<Rightarrow> pwent option"
  h_getpwnam :: "string \<Rightarrow> pwent option"
  h_groups :: "(int \<times> string list) list"
  h_environ :: "(string \<times> string) list"
  h_getcwd :: string
  h_exists :: "string \<Rightarrow> bool"
  h_lock_ok :: bool
  h_logdir :: string
  h_log_path :: "string \<Rightarrow> string"
  h_openable :: "string \<Rightarrow> bool"
  h_containerizer_stderr :: "string \<Rightarrow> byte list"

record creds =
  cr_uid :: int
  cr_euid :: int
  cr_gid :: int
  cr_groups :: "int list"

text \<open>An argument of the target's command line; the JSON texts stand for what they encode: the root
  file system, the user, the working directory and the command line.\<close>

datatype arg = Plain string | Launch_info string string string string | Command_info string

datatype effect = Mkdir string | Chown string int int | Setsid | Chdir string | Chroot string
  | Spawn "arg list" string "string \<Rightarrow> string option" creds

record coordinator =
  c_config :: proc_config
  c_seq :: int
  c_pid :: "int option"
  c_fork_time :: "rat option"
  c_ckpt :: bool
  c_ckpt_head :: int
  c_rc :: "int option"
  c_creds :: creds
  c_file :: "byte list"
  c_effects :: "effect list"
  c_output :: log_output

type_synonym coord_out = "coordinator \<times> proc_exn option"

text \<open>A constructed process: the sandbox is made before the arguments are checked.\<close>

definition new_coordinator :: "proc_config \<Rightarrow> int \<Rightarrow> creds \<Rightarrow> byte list \<Rightarrow> log_output \<Rightarrow> coord_out" where
  "new_coordinator c seq cr file out =
     (\<lparr>c_config = c, c_seq = seq, c_pid = None, c_fork_time = None, c_ckpt = False,
       c_ckpt_head = -1, c_rc = None, c_creds = cr, c_file = file,
       c_effects = (if sandbox_set c then [Mkdir (the (pc_sandbox c))] else []),
       c_output = out\<rparr>,
      process_init c)"

definition perform :: "effect \<Rightarrow> coordinator \<Rightarrow> coordinator" where
  "perform e c = c\<lparr>c_effects := c_effects c @ [e]\<rparr>"

definition rebind :: "coordinator \<Rightarrow> int \<Rightarrow> rat \<Rightarrow> coordinator" where
  "rebind c pid fork_time = c\<lparr>c_pid := Some pid, c_fork_time := Some fork_time\<rparr>"

section \<open>Accounts and privileges\<close>

text \<open>\<^verbatim>\<open>_getpwuid\<close>: the account of the requested user and the account the process runs as.\<close>

definition getpwuid :: "host \<Rightarrow> coordinator \<Rightarrow> (proc_error, pwent \<times> pwent) res" where
  "getpwuid h c =
     (case h_getpwuid h (cr_uid (c_creds c)) of
        None \<Rightarrow> Inl (Own UnknownUserError)
      | Some current \<Rightarrow>
          (case pc_user (c_config c) of
             None \<Rightarrow> Inr (current, current)
           | Some u \<Rightarrow> (case h_getpwnam h u of
                          None \<Rightarrow> Inl (Own UnknownUserError)
                        | Some user \<Rightarrow> Inr (user, current))))"

text \<open>What the kernel does: only root changes its groups and its ids; root's \<^verbatim>\<open>setuid\<close> sets the
  real and the effective id.\<close>

definition os_setgroups :: "int list \<Rightarrow> coordinator \<Rightarrow> coord_out" where
  "os_setgroups gs c = (if cr_euid (c_creds c) \<noteq> 0 then (c, Some (Py OSError))
     else (c\<lparr>c_creds := (c_creds c)\<lparr>cr_groups := gs\<rparr>\<rparr>, None))"

definition os_setgid :: "int \<Rightarrow> coordinator \<Rightarrow> coord_out" where
  "os_setgid g c = (if cr_euid (c_creds c) \<noteq> 0 \<and> g \<noteq> cr_gid (c_creds c) then (c, Some (Py OSError))
     else (c\<lparr>c_creds := (c_creds c)\<lparr>cr_gid := g\<rparr>\<rparr>, None))"

definition os_setuid :: "int \<Rightarrow> coordinator \<Rightarrow> coord_out" where
  "os_setuid u c = (if cr_euid (c_creds c) \<noteq> 0 \<and> u \<noteq> cr_uid (c_creds c) then (c, Some (Py OSError))
     else (c\<lparr>c_creds := (c_creds c)\<lparr>cr_uid := (if cr_euid (c_creds c) = 0 then u
                                           else cr_uid (c_creds c)), cr_euid := u\<rparr>\<rparr>, None))"

definition setuid :: "host \<Rightarrow> coordinator \<Rightarrow> coord_out" where
  "setuid h c =
     (case getpwuid h c of
        Inl e \<Rightarrow> (c, Some e)
      | Inr (user, current) \<Rightarrow>
          if pw_uid user = pw_uid current then (c, None)
          else let groups = [g. (g, members) \<leftarrow> h_groups h, List.member members (pw_name user)]
               in then_do (os_setgroups groups c)
                    (\<lambda>c. then_do (os_setgid (pw_gid user) c) (os_setuid (pw_uid user))))"

section \<open>The checkpoint stream\<close>

text \<open>\<^verbatim>\<open>_setup_ckpt\<close>: the locked file is opened for appending, its size is remembered.\<close>

definition setup_ckpt :: "host \<Rightarrow> coordinator \<Rightarrow> coord_out" where
  "setup_ckpt h c =
     (if \<not> h_lock_ok h then (c, Some (Own CheckpointError))
      else (c\<lparr>c_ckpt_head := int (length (c_file c)), c_ckpt := True\<rparr>, None))"

definition init_ckpt_if_necessary :: "host \<Rightarrow> coordinator \<Rightarrow> coord_out" where
  "init_ckpt_if_necessary h c = (if c_ckpt c then (c, None) else setup_ckpt h c)"

text \<open>\<^verbatim>\<open>_ckpt_write\<close>: the writer appends; whether it wrote the record is not looked at.\<close>

definition proc_ckpt_write :: "(runner_ckpt \<Rightarrow> byte list rec_res) \<Rightarrow> bool \<times> bool \<Rightarrow> host \<Rightarrow> runner_ckpt
    \<Rightarrow> coordinator \<Rightarrow> coord_out" where
  "proc_ckpt_write enc ok h rc c =
     then_do (init_ckpt_if_necessary h c)
       (\<lambda>c. case do_write enc (fst ok) (snd ok) rc
                   \<lparr>fp_data = c_file c, fp_pos = length (c_file c), fp_mode = ''a+b''\<rparr> of
              (Inl (Own e), f) \<Rightarrow> (c\<lparr>c_file := fp_data f\<rparr>, Some (Own (Reading e)))
            | (Inl (Py e), f) \<Rightarrow> (c\<lparr>c_file := fp_data f\<rparr>, Some (Py e))
            | (Inr _, f) \<Rightarrow> (c\<lparr>c_file := fp_data f\<rparr>, None))"

definition write_process_update :: "(runner_ckpt \<Rightarrow> byte list rec_res) \<Rightarrow> bool \<times> bool \<Rightarrow> host
    \<Rightarrow> process_status \<Rightarrow> coordinator \<Rightarrow> coord_out" where
  "write_process_update enc ok h kw c =
     then_do (proc_ckpt_write enc ok h
                (process_ckpt (kw\<lparr>ps_seq := Some (c_seq c), ps_process := Some (pc_name (c_config c))\<rparr>)) c)
       (\<lambda>c. (c\<lparr>c_seq := c_seq c + 1\<rparr>, None))"

definition initial_update :: "coordinator \<Rightarrow> process_status" where
  "initial_update c = empty_status\<lparr>ps_state := Some P_FORKED, ps_fork_time := c_fork_time c,
     ps_coordinator_pid := c_pid c\<rparr>"

definition write_initial_update :: "(runner_ckpt \<Rightarrow> byte list rec_res) \<Rightarrow> bool \<times> bool \<Rightarrow> host
    \<Rightarrow> coordinator \<Rightarrow> coord_out" where
  "write_initial_update enc ok h c = write_process_update enc ok h (initial_update c) c"

section \<open>Taking over the stream in the child\<close>

definition control_wait_check_interval :: int where "control_wait_check_interval = 100"
definition maximum_control_wait :: int where "maximum_control_wait = 60 * 1000"

definition proc_exn_of :: "rec_error exn \<Rightarrow> proc_exn" where
  "proc_exn_of e = (case e of Own r \<Rightarrow> Own (Reading r) | Py p \<Rightarrow> Py p)"

text \<open>The record that was read must be the parent's initial update; its sequence number is the one
  the child goes on from.\<close>

definition check_control :: "runner_ckpt \<Rightarrow> coordinator \<Rightarrow> coord_out" where
  "check_control rc c =
     (case rc_process rc of
        None \<Rightarrow> (c, Some (Own CheckpointError))
      | Some u \<Rightarrow>
          if ps_process u \<noteq> Some (pc_name (c_config c)) \<or> ps_state u \<noteq> Some P_FORKED
             \<or> ps_fork_time u \<noteq> c_fork_time c \<or> ps_coordinator_pid u \<noteq> c_pid c
          then (c, Some (Own CheckpointError))
          else (case ps_seq u of None \<Rightarrow> (c, Some (Py TypeError))
                | Some s \<Rightarrow> (c\<lparr>c_seq := s + 1\<rparr>, None)))"

text \<open>The loop of \<^verbatim>\<open>_wait_for_control\<close>.  Round \<open>i\<close> sees \<open>poll i\<close>: the size of the file, \<open>None\<close>
  when \<^verbatim>\<open>getsize\<close> raises, and its bytes when it is read.  Only a round that finds the file
  unchanged sleeps and counts; a loop that never returns is \<open>None\<close>.\<close>

partial_function (option) wait_loop ::
  "(byte list \<Rightarrow> runner_ckpt rec_res) \<Rightarrow> (nat \<Rightarrow> nat option \<times> byte list) \<Rightarrow> nat \<Rightarrow> int \<Rightarrow> nat
    \<Rightarrow> coordinator \<Rightarrow> coord_out option" where
  "wait_loop dec poll i waited pos c =
     (if \<not> waited < maximum_control_wait then Some (c, Some (Own CheckpointError))
      else case fst (poll i) of
             None \<Rightarrow> Some (c, Some (Py OSError))
           | Some tail \<Rightarrow>
               if int tail = c_ckpt_head c
               then wait_loop dec poll (Suc i) (waited + control_wait_check_interval) pos c
               else (case try_read dec \<lparr>fp_data = snd (poll i), fp_pos = pos, fp_mode = ''rb''\<rparr> of
                       (Inl e, _) \<Rightarrow> Some (c, Some (proc_exn_of e))
                     | (Inr None, f) \<Rightarrow> wait_loop dec poll (Suc i) waited (fp_pos f) c
                     | (Inr (Some rc), _) \<Rightarrow> Some (check_control rc c)))"

definition wait_for_control :: "(byte list \<Rightarrow> runner_ckpt rec_res)
    \<Rightarrow> (nat \<Rightarrow> nat option \<times> byte list) \<Rightarrow> coordinator \<Rightarrow> coord_out option" where
  "wait_for_control dec poll c = wait_loop dec poll 0 0 (nat (c_ckpt_head c)) c"

section \<open>Forking in the parent\<close>

text \<open>\<^verbatim>\<open>_prepare_fork\<close>.  Making and handing over the log directory is taken to succeed.\<close>

definition prepare_fork :: "host \<Rightarrow> rat \<Rightarrow> coordinator \<Rightarrow> coord_out" where
  "prepare_fork h now c =
     (case getpwuid h c of
        Inl e \<Rightarrow> (c, Some e)
      | Inr (user, current) \<Rightarrow>
          if pc_user (c_config c) \<noteq> None \<and> pc_user (c_config c) \<noteq> Some []
             \<and> user \<noteq> current \<and> cr_euid (c_creds c) \<noteq> 0
          then (c, Some (Own PermissionError))
          else then_do (setup_ckpt h (c\<lparr>c_fork_time := Some now\<rparr>))
                 (\<lambda>c. (perform (Chown (h_logdir h) (pw_uid user) (pw_gid user))
                         (perform (Mkdir (h_logdir h)) c), None)))"

definition finalize_fork :: "(runner_ckpt \<Rightarrow> byte list rec_res) \<Rightarrow> bool \<times> bool \<Rightarrow> host
    \<Rightarrow> coordinator \<Rightarrow> coord_out" where
  "finalize_fork enc ok h c =
     then_do (write_initial_update enc ok h c) (\<lambda>c. (c\<lparr>c_ckpt := False\<rparr>, None))"

section \<open>Running the target in the child\<close>

text \<open>\<^verbatim>\<open>os.path.join\<close> of two parts.\<close>

definition path_join :: "string \<Rightarrow> string \<Rightarrow> string" where
  "path_join a b =
     (if b \<noteq> [] \<and> hd b = CHR ''/'' then b
      else if a = [] \<or> last a = CHR ''/'' then a @ b else a @ ''/'' @ b)"

definition rcfile :: string where "rcfile = ''.thermos_profile''"
definition task_filesystem_mount_point :: string where "task_filesystem_mount_point = ''taskfs''"

definition environ :: "host \<Rightarrow> string \<Rightarrow> (proc_error, string) res" where
  "environ h key = (case map_of (h_environ h) key of None \<Rightarrow> Inl (Py KeyError) | Some v \<Rightarrow> Inr v)"

text \<open>\<^verbatim>\<open>str(user)\<close>, also of \<^verbatim>\<open>None\<close>.\<close>

definition str_of :: "string option \<Rightarrow> string" where
  "str_of u = (case u of None \<Rightarrow> ''None'' | Some s \<Rightarrow> s)"

text \<open>\<^verbatim>\<open>is_launch_info_supported\<close> looks for a string in the bytes that \<^verbatim>\<open>communicate\<close> returns, which
  raises whatever the containerizer has printed.\<close>

definition is_launch_info_supported :: "byte list \<Rightarrow> (proc_error, bool) res" where
  "is_launch_info_supported stderr = Inl (Py TypeError)"

definition containerizer_args :: "bool \<Rightarrow> string \<Rightarrow> string \<Rightarrow> string option \<Rightarrow> string \<Rightarrow> string \<Rightarrow> arg list" where
  "containerizer_args launch_info rootfs cmdline user cwd path =
     (if launch_info
      then [Plain path, Plain ''launch'', Plain ''--unshare_namespace_mnt'',
            Launch_info rootfs (str_of user) cwd cmdline]
      else [Plain path, Plain ''launch'', Plain ''--unshare_namespace_mnt'',
            Plain (''--working_directory='' @ cwd), Plain (''--rootfs='' @ rootfs),
            Plain (''--user='' @ str_of user), Command_info cmdline])"

definition wrap_with_mesos_containerizer ::
  "host \<Rightarrow> string \<Rightarrow> string option \<Rightarrow> string \<Rightarrow> string \<Rightarrow> (proc_error, arg list) res" where
  "wrap_with_mesos_containerizer h cmdline user cwd path =
     rbind (environ h ''MESOS_DIRECTORY'') (\<lambda>dir.
     rbind (is_launch_info_supported (h_containerizer_stderr h path)) (\<lambda>launch_info.
       Inr (containerizer_args launch_info (path_join dir task_filesystem_mount_point) cmdline user cwd path)))"

definition wrapped_cmdline :: "host \<Rightarrow> coordinator \<Rightarrow> string \<Rightarrow> (proc_error, arg list) res" where
  "wrapped_cmdline h c cwd =
     (case pc_containerizer (c_config c) of
        None \<Rightarrow> Inr [Plain ''/bin/bash'', Plain ''-c'', Plain (pc_cmdline (c_config c))]
      | Some path \<Rightarrow> wrap_with_mesos_containerizer h (pc_cmdline (c_config c))
                       (pc_user (c_config c)) cwd path)"

definition chroot :: "coordinator \<Rightarrow> coord_out" where
  "chroot c =
     (case pc_sandbox (c_config c) of
        None \<Rightarrow> (c, Some (Py TypeError))
      | Some s \<Rightarrow> if s = [] then (c, Some (Py OSError))
                  else if cr_euid (c_creds c) \<noteq> 0 then (perform (Chdir s) c, Some (Py OSError))
                  else (perform (Chroot s) (perform (Chdir s) c), None))"

definition taskfs_isolated :: "coordinator \<Rightarrow> bool" where
  "taskfs_isolated c = (pc_containerizer (c_config c) \<noteq> None)"

text \<open>The working directory of the wrapped command, of the subprocess, the sandbox and the home
  directory.  Without \<^verbatim>\<open>container_sandbox\<close> the later \<^verbatim>\<open>os.path.join\<close> raises.\<close>

definition layout :: "host \<Rightarrow> coordinator \<Rightarrow> string
    \<Rightarrow> (proc_error, string \<times> string \<times> string \<times> string) res" where
  "layout h c homedir =
     (if \<not> sandbox_set (c_config c) then Inr (h_getcwd h, h_getcwd h, h_getcwd h, homedir)
      else if pc_chroot (c_config c) then Inr (''/'', ''/'', ''/'', homedir)
      else let s = the (pc_sandbox (c_config c)) in
        if taskfs_isolated c then
          (case pc_container_sandbox (c_config c) of
             None \<Rightarrow> Inl (Py AttributeError)
           | Some cs \<Rightarrow> Inr (cs, s, cs, cs))
        else Inr (s, s, s, s))"

definition profile_path :: "host \<Rightarrow> coordinator \<Rightarrow> string \<Rightarrow> (proc_error, string) res" where
  "profile_path h c profile =
     (if taskfs_isolated c then
        rbind (environ h ''MESOS_DIRECTORY'') (\<lambda>dir.
          Inr (path_join (path_join dir task_filesystem_mount_point)
                 (dropWhile (\<lambda>x. x = CHR ''/'') profile)))
      else Inr profile)"

definition target_env :: "host \<Rightarrow> coordinator \<Rightarrow> string \<Rightarrow> string
    \<Rightarrow> (proc_error, string \<Rightarrow> string option) res" where
  "target_env h c username homedir =
     rbind (environ h ''PATH'') (\<lambda>path.
       Inr ((if pc_preserve_env (c_config c) then map_of (h_environ h) else Map.empty)
              (''HOME'' \<mapsto> homedir, ''LOGNAME'' \<mapsto> username, ''USER'' \<mapsto> username, ''PATH'' \<mapsto> path)))"

text \<open>Everything \<^verbatim>\<open>execute\<close> computes for the \<^verbatim>\<open>Popen\<close>: arguments, directory, environment.\<close>

definition subprocess_args :: "host \<Rightarrow> coordinator \<Rightarrow> string \<Rightarrow> string
    \<Rightarrow> (proc_error, arg list \<times> string \<times> (string \<Rightarrow> string option)) res" where
  "subprocess_args h c username home =
     rbind (layout h c home) (\<lambda>(cwd, subprocess_cwd, sandbox, homedir).
       let profile = path_join sandbox rcfile in
       rbind (target_env h c username homedir) (\<lambda>env.
       rbind (wrapped_cmdline h c cwd) (\<lambda>args.
       rbind (profile_path h c profile) (\<lambda>real_profile.
         Inr (args, subprocess_cwd,
              if h_exists h real_profile then env(''BASH_ENV'' \<mapsto> profile) else env)))))"

definition exit_state :: "int \<Rightarrow> process_state" where
  "exit_state rc = (if rc < 0 then P_KILLED else if rc = 0 then P_SUCCESS else P_FAILED)"

text \<open>What happens outside: the clock at the start and the end, the pid of the target, \<open>None\<close>
  when \<^verbatim>\<open>Popen\<close> raises, what \<^verbatim>\<open>wait\<close> returns, and whether the writes succeed.\<close>

record target_run =
  tr_start :: rat
  tr_stop :: rat
  tr_popen :: "int option"
  tr_wait :: int
  tr_write1 :: "bool \<times> bool"
  tr_write2 :: "bool \<times> bool"

definition start_target :: "host \<Rightarrow> target_run \<Rightarrow> string \<Rightarrow> string \<Rightarrow> coordinator \<Rightarrow> coord_out" where
  "start_target h t username home c =
     (case subprocess_args h c username home of
        Inl e \<Rightarrow> (c, Some e)
      | Inr (args, cwd, env) \<Rightarrow>
          (case resolver_init (pc_log (c_config c)) of
             Some e \<Rightarrow> (c, Some (Py e))
           | None \<Rightarrow>
             (case get_handlers (h_openable h) (h_log_path h) (pc_log (c_config c)) (c_output c) of
                (Inl e, out) \<Rightarrow> (c\<lparr>c_output := out\<rparr>, Some (Py e))
              | (Inr _, out) \<Rightarrow>
                  (case tr_popen t of
                     None \<Rightarrow> (c\<lparr>c_output := out\<rparr>, Some (Py OSError))
                   | Some _ \<Rightarrow> (perform (Spawn args cwd env (c_creds c)) (c\<lparr>c_output := out\<rparr>), None)))))"

definition running_update :: "target_run \<Rightarrow> process_status" where
  "running_update t = empty_status\<lparr>ps_state := Some P_RUNNING, ps_pid := tr_popen t,
     ps_start_time := Some (tr_start t)\<rparr>"

definition final_update :: "target_run \<Rightarrow> process_status" where
  "final_update t = empty_status\<lparr>ps_state := Some (exit_state (tr_wait t)),
     ps_return_code := Some (tr_wait t), ps_stop_time := Some (tr_stop t)\<rparr>"

definition execute :: "(runner_ckpt \<Rightarrow> byte list rec_res) \<Rightarrow> host \<Rightarrow> target_run \<Rightarrow> coordinator
    \<Rightarrow> coord_out" where
  "execute enc h t c0 =
     (case getpwuid h c0 of
        Inl e \<Rightarrow> (c0, Some e)
      | Inr (user, _) \<Rightarrow>
          then_do (if pc_chroot (c_config c0) then chroot (perform Setsid c0) else (perform Setsid c0, None))
          (\<lambda>c. then_do (if taskfs_isolated c then (c, None) else setuid h c)
          (\<lambda>c. then_do (start_target h t (pw_name user) (pw_dir user) c)
          (\<lambda>c. then_do (if taskfs_isolated c then setuid h c else (c, None))
          (\<lambda>c. then_do (write_process_update enc (tr_write1 t) h (running_update t) c)
          (\<lambda>c. then_do (write_process_update enc (tr_write2 t) h (final_update t) c)
          (\<lambda>c. (c\<lparr>c_rc := Some (tr_wait t)\<rparr>, None))))))))"

section \<open>The call from the runner\<close>

text \<open>How a call of \<^verbatim>\<open>start\<close> ends: it returns (in the parent), raises, or exits (in the child).\<close>

datatype ending = Returns | Raises proc_exn | Exits int

definition ending_of :: "proc_exn option \<Rightarrow> ending" where
  "ending_of e = (case e of None \<Rightarrow> Returns | Some x \<Rightarrow> Raises x)"

text \<open>In the child: once the stream is under control, the \<^verbatim>\<open>finally\<close> closes the checkpoint and calls
  \<^verbatim>\<open>finish\<close>, whose \<^verbatim>\<open>sys.exit(0)\<close> takes the place of whatever was raised.\<close>

definition start_child :: "(runner_ckpt \<Rightarrow> byte list rec_res) \<Rightarrow> (byte list \<Rightarrow> runner_ckpt rec_res)
    \<Rightarrow> (nat \<Rightarrow> nat option \<times> byte list) \<Rightarrow> byte list \<Rightarrow> host \<Rightarrow> target_run \<Rightarrow> int \<Rightarrow> coordinator
    \<Rightarrow> (coordinator \<times> ending) option" where
  "start_child enc dec poll file h t getpid c =
     (case wait_for_control dec poll (c\<lparr>c_pid := Some getpid\<rparr>) of
        None \<Rightarrow> None
      | Some (c1, Some e) \<Rightarrow> Some (c1, Raises e)
      | Some (c1, None) \<Rightarrow>
          (case execute enc h t (c1\<lparr>c_file := file\<rparr>) of
             (c2, _) \<Rightarrow> Some (c2\<lparr>c_ckpt := False\<rparr>, Exits 0)))"

text \<open>\<open>fork\<close> is what \<^verbatim>\<open>fork\<close> returns, \<open>file\<close> what the checkpoint holds when the child takes it over.\<close>

definition start :: "(runner_ckpt \<Rightarrow> byte list rec_res) \<Rightarrow> (byte list \<Rightarrow> runner_ckpt rec_res)
    \<Rightarrow> (nat \<Rightarrow> nat option \<times> byte list) \<Rightarrow> byte list \<Rightarrow> host \<Rightarrow> target_run \<Rightarrow> rat \<Rightarrow> bool \<times> bool
    \<Rightarrow> int \<Rightarrow> int \<Rightarrow> coordinator \<Rightarrow> (coordinator \<times> ending) option" where
  "start enc dec poll file h t now ok fork getpid c =
     (case prepare_fork h now c of
        (c1, Some e) \<Rightarrow> Some (c1, Raises e)
      | (c1, None) \<Rightarrow>
          if fork = 0 then start_child enc dec poll file h t getpid c1
          else (case finalize_fork enc ok h (c1\<lparr>c_pid := Some fork\<rparr>) of
                  (c2, e) \<Rightarrow> Some (c2, ending_of e)))"

section \<open>Writing records\<close>

lemma write_process_update_ok:
  assumes "c_ckpt c" "rc = process_ckpt (kw\<lparr>ps_seq := Some (c_seq c), ps_process := Some (pc_name (c_config c))\<rparr>)"
    "codec_ok e dec rc"
  shows "write_process_update (\<lambda>x. Inr (e x)) (True, True) h kw c =
    (c\<lparr>c_file := c_file c @ frame (e rc), c_seq := c_seq c + 1\<rparr>, None)"
  using assms(1) do_write_ok [of e rc, OF codec_ok_size [OF assms(3)]] assms(2)
  by (simp add: write_process_update_def proc_ckpt_write_def init_ckpt_if_necessary_def fp_write_def)

section \<open>Waiting for control\<close>

lemma wait_loop_unchanged:
  "(\<And>i. i < n \<Longrightarrow> fst (poll (j + i)) = Some (nat (c_ckpt_head c))) \<Longrightarrow> 0 \<le> c_ckpt_head c \<Longrightarrow>
     waited + 100 * int n \<le> 60000 \<Longrightarrow>
     wait_loop dec poll j waited pos c = wait_loop dec poll (j + n) (waited + 100 * int n) pos c"
proof (induction n arbitrary: j waited)
  case 0
  then show ?case by simp
next
  case (Suc n)
  have "wait_loop dec poll j waited pos c = wait_loop dec poll (Suc j) (waited + 100) pos c"
    using Suc.prems(1) [of 0] Suc.prems(2,3)
    by (subst wait_loop.simps) (simp add: maximum_control_wait_def control_wait_check_interval_def)
  also have "\<dots> = wait_loop dec poll (Suc j + n) ((waited + 100) + 100 * int n) pos c"
    by (rule Suc.IH) (use Suc.prems(1) [of "Suc _"] Suc.prems in auto)
  finally show ?case by (simp add: algebra_simps)
qed

lemma wait_times_out:
  assumes "\<And>i. i < 600 \<Longrightarrow> fst (poll i) = Some (nat (c_ckpt_head c))" "0 \<le> c_ckpt_head c"
  shows "wait_for_control dec poll c = Some (c, Some (Own CheckpointError))"
  using wait_loop_unchanged [of 600 poll 0 c 0 dec "nat (c_ckpt_head c)"] assms
  by (simp add: wait_for_control_def) (subst wait_loop.simps, simp add: maximum_control_wait_def)

lemma wait_reads_record:
  assumes "k < 600" "\<And>i. i < k \<Longrightarrow> fst (poll i) = Some (length old)"
    "poll k = (Some (length (old @ frame (e rc) @ rest)), old @ frame (e rc) @ rest)"
    "c_ckpt_head c = int (length old)" "codec_ok e dec rc"
  shows "wait_for_control dec poll c = Some (check_control rc c)"
proof -
  have "length (e rc) \<le> maximum_record_size" using assms(5) by (simp add: codec_ok_def)
  from length_frame [OF this] have len: "int (length (frame (e rc))) + int (length rest) \<noteq> 0" by simp
  have "try_read dec \<lparr>fp_data = old @ frame (e rc) @ rest, fp_pos = length old, fp_mode = ''rb''\<rparr> =
     (Inr (Some rc), fp_seek \<lparr>fp_data = old @ frame (e rc) @ rest, fp_pos = length old, fp_mode = ''rb''\<rparr>
        (length old + length (frame (e rc))))"
    by (rule try_read_frame [OF assms(5)]) simp_all
  then have "wait_loop dec poll k (100 * int k) (length old) c = Some (check_control rc c)"
    using assms(1,3,4) len by (subst wait_loop.simps) (simp add: maximum_control_wait_def)
  then show ?thesis
    using wait_loop_unchanged [of k poll 0 c 0 dec "length old"] assms(1,2,4)
    by (simp add: wait_for_control_def)
qed

text \<open>A record that stays torn keeps the loop going without sleeping or counting: it never
  returns.\<close>

definition stays_torn :: "byte list \<Rightarrow> byte list \<Rightarrow> (nat \<Rightarrow> nat option \<times> byte list) \<Rightarrow> nat \<Rightarrow> int \<Rightarrow> nat
    \<Rightarrow> coordinator \<Rightarrow> bool" where
  "stays_torn old part poll i waited pos c =
     (waited < maximum_control_wait \<and> c_ckpt_head c = int (length old) \<and> pos = length old \<and>
      torn_tail part \<and> part \<noteq> [] \<and> (\<forall>j\<ge>i. poll j = (Some (length (old @ part)), old @ part)))"

lemma wait_loop_torn:
  "wait_loop dec poll i waited pos c = Some y \<Longrightarrow> \<not> stays_torn old part poll i waited pos c"
proof (induction dec poll i waited pos c y rule: wait_loop.raw_induct [rotated, consumes 1, case_names step])
  case (step loop dec poll i waited pos c y)
  let ?f = "\<lparr>fp_data = old @ part, fp_pos = length old, fp_mode = ''rb''\<rparr>"
  show ?case
  proof
    assume s: "stays_torn old part poll i waited pos c"
    then have tr: "try_read dec ?f = (Inr None, ?f)"
      by (intro try_read_tail [of part _ old]) (simp_all add: stays_torn_def)
    have e: "waited < maximum_control_wait" "c_ckpt_head c = int (length old)" "pos = length old"
      "poll i = (Some (length (old @ part)), old @ part)" "part \<noteq> []"
      using s by (simp_all add: stays_torn_def)
    have "loop dec poll (Suc i) waited pos c = Some y"
      using step(2) unfolding e(2-4) by (simp add: tr e(1,5))
    from step(1) [OF this] have "\<not> stays_torn old part poll (Suc i) waited pos c" .
    then show False using s by (auto simp: stays_torn_def)
  qed
qed

lemma wait_torn_spins:
  assumes "torn_tail part" "part \<noteq> []" "k < 600" "\<And>i. i < k \<Longrightarrow> fst (poll i) = Some (length old)"
    "\<And>i. k \<le> i \<Longrightarrow> poll i = (Some (length (old @ part)), old @ part)"
    "c_ckpt_head c = int (length old)"
  shows "wait_for_control dec poll c = None"
proof (rule ccontr)
  assume "wait_for_control dec poll c \<noteq> None"
  then obtain y where "wait_loop dec poll (0 + k) (0 + 100 * int k) (length old) c = Some y"
    using wait_loop_unchanged [of k poll 0 c 0 dec "length old"] assms(3,4,6)
    by (auto simp: wait_for_control_def)
  then have "\<not> stays_torn old part poll k (100 * int k) (length old) c"
    using wait_loop_torn [of dec poll k "100 * int k" "length old" c y old part] by simp
  then show False using assms by (simp add: stays_torn_def maximum_control_wait_def)
qed

section \<open>What the steps leave alone\<close>

definition same_stream :: "coordinator \<Rightarrow> coordinator \<Rightarrow> bool" where
  "same_stream c c' = (c_config c' = c_config c \<and> c_seq c' = c_seq c \<and> c_file c' = c_file c \<and>
     c_ckpt c' = c_ckpt c \<and> c_rc c' = c_rc c)"

lemma same_stream_perform [simp]: "same_stream c (perform e c') = same_stream c c'"
  by (simp add: same_stream_def perform_def)

lemma same_stream_refl [simp]: "same_stream c c"
  by (simp add: same_stream_def)

lemma same_stream_trans: "same_stream a b \<Longrightarrow> same_stream b c \<Longrightarrow> same_stream a c"
  by (simp add: same_stream_def)

lemma setuid_stream: "same_stream c (fst (setuid h c))"
  by (auto simp: setuid_def same_stream_def os_setgroups_def os_setgid_def os_setuid_def then_do_def
      Let_def split: sum.split prod.split)

lemma chroot_stream: "same_stream c (fst (chroot c))"
  by (auto simp: chroot_def perform_def same_stream_def split: option.split)

lemma start_target_stream: "same_stream c (fst (start_target h t u home c))"
  by (auto simp: start_target_def same_stream_def perform_def split: sum.split prod.split option.split)

section \<open>A whole execution\<close>

definition identified :: "coordinator \<Rightarrow> int \<Rightarrow> process_status \<Rightarrow> runner_ckpt" where
  "identified c k kw = process_ckpt (kw\<lparr>ps_seq := Some k, ps_process := Some (pc_name (c_config c))\<rparr>)"

lemma past_step:
  assumes "then_do r f = (c', x)" "same_stream c (fst r)" "c_rc c = None" "c_rc c' \<noteq> None"
  obtains c1 where "r = (c1, None)" "same_stream c c1" "f c1 = (c', x)"
  using assms by (cases r; cases "snd r") (auto simp: same_stream_def)

lemma execute_stream:
  assumes run: "execute (\<lambda>x. Inr (e x)) h t c = (c', x)" and rc: "c_rc c = None" "c_rc c' \<noteq> None"
    and ck: "c_ckpt c" and wr: "tr_write1 t = (True, True)" "tr_write2 t = (True, True)"
    and codec: "codec_ok e dec (identified c (c_seq c) (running_update t))"
      "codec_ok e dec (identified c (c_seq c + 1) (final_update t))"
  shows "c_file c' = c_file c @ frame (e (identified c (c_seq c) (running_update t))) @
      frame (e (identified c (c_seq c + 1) (final_update t))) \<and> c_rc c' = Some (tr_wait t)"
proof -
  define a where "a = (if pc_chroot (c_config c) then chroot (perform Setsid c) else (perform Setsid c, None))"
  define b where "b = (\<lambda>c. if taskfs_isolated c then (c, None) else setuid h c)"
  define d where "d = (\<lambda>c. if taskfs_isolated c then setuid h c else (c, None))"
  obtain user cur where u: "getpwuid h c = Inr (user, cur)"
    using run rc by (auto simp: execute_def split: sum.splits)
  define s where "s = start_target h t (pw_name user) (pw_dir user)"
  define w where "w = (\<lambda>c. then_do (write_process_update (\<lambda>x. Inr (e x)) (True, True) h (running_update t) c)
     (\<lambda>c. then_do (write_process_update (\<lambda>x. Inr (e x)) (True, True) h (final_update t) c)
     (\<lambda>c. (c\<lparr>c_rc := Some (tr_wait t)\<rparr>, None))))"
  have ex: "then_do a (\<lambda>c. then_do (b c) (\<lambda>c. then_do (s c) (\<lambda>c. then_do (d c) w))) = (c', x)"
    using run u wr by (simp add: execute_def a_def b_def d_def s_def w_def)
  have st: "same_stream c (fst a)" "same_stream c1 (fst (b c1))" "same_stream c1 (fst (s c1))"
    "same_stream c1 (fst (d c1))" for c1
    using setuid_stream [of c1 h] chroot_stream [of "perform Setsid c"] start_target_stream
    by (auto simp: a_def b_def d_def s_def same_stream_def perform_def)
  obtain c1 where e1: "same_stream c c1" and 1: "then_do (b c1) (\<lambda>c. then_do (s c) (\<lambda>c. then_do (d c) w)) = (c', x)"
    using past_step [OF ex st(1) rc] .
  obtain c2 where e2: "same_stream c c2" and 2: "then_do (s c2) (\<lambda>c. then_do (d c) w) = (c', x)"
    using past_step [OF 1 same_stream_trans [OF e1 st(2)] rc] .
  obtain c3 where e3: "same_stream c c3" and 3: "then_do (d c3) w = (c', x)"
    using past_step [OF 2 same_stream_trans [OF e2 st(3)] rc] .
  obtain c4 where e4: "same_stream c c4" and 4: "w c4 = (c', x)"
    using past_step [OF 3 same_stream_trans [OF e3 st(4)] rc] .
  let ?r1 = "identified c (c_seq c) (running_update t)" and ?r2 = "identified c (c_seq c + 1) (final_update t)"
  have 5: "write_process_update (\<lambda>x. Inr (e x)) (True, True) h (running_update t) c4 =
      (c4\<lparr>c_file := c_file c4 @ frame (e ?r1), c_seq := c_seq c4 + 1\<rparr>, None)"
    by (rule write_process_update_ok [OF _ _ codec(1)]) (use e4 ck in \<open>auto simp: same_stream_def identified_def\<close>)
  have 6: "write_process_update (\<lambda>x. Inr (e x)) (True, True) h (final_update t)
      (c4\<lparr>c_file := c_file c4 @ frame (e ?r1), c_seq := c_seq c4 + 1\<rparr>) =
      (c4\<lparr>c_file := (c_file c4 @ frame (e ?r1)) @ frame (e ?r2), c_seq := c_seq c4 + 2\<rparr>, None)"
    using write_process_update_ok [of "c4\<lparr>c_file := c_file c4 @ frame (e ?r1), c_seq := c_seq c4 + 1\<rparr>" ?r2
        "final_update t" e dec h] e4 ck codec(2)
    by (simp add: same_stream_def identified_def)
  have "c' = c4\<lparr>c_file := (c_file c4 @ frame (e ?r1)) @ frame (e ?r2), c_seq := c_seq c4 + 2,
      c_rc := Some (tr_wait t)\<rparr>"
    using 4 by (simp add: w_def 5 6)
  then show ?thesis using e4 by (simp add: same_stream_def)
qed

section \<open>From the fork to the last record\<close>

text \<open>The records of one run, numbered from the sequence number the process was made with.\<close>

definition run_records :: "coordinator \<Rightarrow> rat \<Rightarrow> int \<Rightarrow> target_run \<Rightarrow> runner_ckpt list" where
  "run_records c now pid t =
     [identified c (c_seq c) (empty_status\<lparr>ps_state := Some P_FORKED, ps_fork_time := Some now,
        ps_coordinator_pid := Some pid\<rparr>),
      identified c (c_seq c + 1) (running_update t), identified c (c_seq c + 2) (final_update t)]"

lemma prepare_fork_ok:
  "prepare_fork h now c = (c1, None) \<Longrightarrow> c_config c1 = c_config c \<and> c_seq c1 = c_seq c \<and>
     c_file c1 = c_file c \<and> c_ckpt c1 \<and> c_rc c1 = c_rc c \<and> c_fork_time c1 = Some now \<and> c_creds c1 = c_creds c \<and>
     c_ckpt_head c1 = int (length (c_file c))"
  by (auto simp: prepare_fork_def setup_ckpt_def perform_def then_do_def split: sum.splits if_splits)

lemma finalize_fork_file:
  assumes "c_ckpt c" "codec_ok e dec (identified c (c_seq c) (initial_update c))"
  shows "finalize_fork (\<lambda>x. Inr (e x)) (True, True) h c =
    (c\<lparr>c_file := c_file c @ frame (e (identified c (c_seq c) (initial_update c))),
       c_seq := c_seq c + 1, c_ckpt := False\<rparr>, None)"
  using write_process_update_ok [OF assms(1) _ assms(2), of "initial_update c" h]
  by (simp add: finalize_fork_def write_initial_update_def identified_def)

lemma run_records_machine:
  assumes ok: "state_ok st" and m: "spec_of st (Some (pc_name (c_config c))) = Some (c_seq c - 1, P_WAITING)"
    and t: "tr_popen t \<noteq> None"
  shows "\<exists>st' ev. replay d False trunc st (run_records c now pid t) = (st', ev, None) \<and> state_ok st' \<and>
    spec_of st' (Some (pc_name (c_config c))) = Some (c_seq c + 2, exit_state (tr_wait t))"
proof -
  let ?n = "Some (pc_name (c_config c))"
  have step: "\<exists>st' ev. dispatch d False trunc st (process_ckpt u) = (st', ev, None) \<and> state_ok st' \<and>
      spec_of st' ?n = Some (k + 1, s')"
    if "state_ok st" "spec_of st ?n = Some (k, s)" "process_edge (Some s) s'" "ps_state u = Some s'"
      "ps_seq u = Some (k + 1)" "ps_process u = ?n" "carries u" for st k s s' u
  proof -
    have sp: "spec_step (spec_of st) u ((spec_of st)(ps_process u \<mapsto> (k + 1, s')))"
      by (rule spec_move) (use that in auto)
    obtain st' ev x where D: "dispatch d False trunc st (process_ckpt u) = (st', ev, x)"
      by (metis prod.collapse)
    have x: "x = None" using dispatch_accepts [OF that(1), of d trunc u] that(7) sp D by auto
    have "spec_step (spec_of st) u (spec_of st')"
      using dispatch_spec_step [OF that(1)] D x by blast
    then have "spec_of st' ?n = Some (k + 1, s')"
      by cases (use that in auto)
    moreover have "state_ok st'" using dispatch_state_ok [OF that(1)] D x by blast
    ultimately show ?thesis using D x by blast
  qed
  have carry: "carries (empty_status\<lparr>ps_state := Some P_FORKED, ps_fork_time := Some now,
        ps_coordinator_pid := Some pid, ps_seq := Some i, ps_process := ?n\<rparr>)"
      "carries (running_update t\<lparr>ps_seq := Some j, ps_process := ?n\<rparr>)"
      "carries (final_update t\<lparr>ps_seq := Some k, ps_process := ?n\<rparr>)" for i j k
    using t by (simp_all add: carries_def field_groups running_update_def final_update_def exit_state_def)
  have edge: "process_edge (Some P_RUNNING) (exit_state (tr_wait t))" by (simp add: exit_state_def)
  obtain st1 ev1 where 1: "dispatch d False trunc st (identified c (c_seq c) (empty_status\<lparr>ps_state := Some P_FORKED,
      ps_fork_time := Some now, ps_coordinator_pid := Some pid\<rparr>)) = (st1, ev1, None)" "state_ok st1"
      "spec_of st1 ?n = Some (c_seq c, P_FORKED)"
    using step [OF ok m, of P_FORKED, OF _ _ _ _ carry(1)] by (auto simp: identified_def empty_status_def)
  obtain st2 ev2 where 2: "dispatch d False trunc st1 (identified c (c_seq c + 1) (running_update t)) = (st2, ev2, None)"
      "state_ok st2" "spec_of st2 ?n = Some (c_seq c + 1, P_RUNNING)"
    using step [OF 1(2,3), of P_RUNNING, OF _ _ _ _ carry(2)] by (auto simp: identified_def running_update_def empty_status_def)
  obtain st3 ev3 where 3: "dispatch d False trunc st2 (identified c (c_seq c + 2) (final_update t)) = (st3, ev3, None)"
      "state_ok st3" "spec_of st3 ?n = Some (c_seq c + 2, exit_state (tr_wait t))"
    using step [OF 2(2,3) edge, OF _ _ _ carry(3)] by (auto simp: identified_def final_update_def empty_status_def add.commute)
  show ?thesis by (simp add: run_records_def 1 2 3)
qed

lemma check_control_initial:
  "c_fork_time c = Some now \<Longrightarrow> c_pid c = Some pid \<Longrightarrow>
     check_control (identified c k (initial_update c)) c = (c\<lparr>c_seq := k + 1\<rparr>, None)"
  by (simp add: check_control_def identified_def process_ckpt_def initial_update_def empty_status_def)

lemma identified_config: "c_config c = c_config c' \<Longrightarrow> identified c = identified c'"
  by (intro ext) (simp add: identified_def)

text \<open>The child takes the stream over when it sees the parent's record within 600 rounds.\<close>

lemma child_takes_control:
  assumes prep: "prepare_fork h now c = (c1, None)" and pid: "c_pid c2 = Some pid"
    and c2: "c2 = c1\<lparr>c_pid := Some pid\<rparr>"
    and codec: "codec_ok e dec (identified c (c_seq c) (initial_update c2))"
    and polls: "k < 600" "\<And>i. i < k \<Longrightarrow> fst (poll i) = Some (length (c_file c))"
      "poll k = (Some (length (c_file p)), c_file p)"
    and p: "finalize_fork (\<lambda>x. Inr (e x)) (True, True) h c2 = (p, None)"
  shows "wait_for_control dec poll c2 = Some (c2\<lparr>c_seq := c_seq c + 1\<rparr>, None) \<and>
    c_file p = c_file c @ frame (e (identified c (c_seq c) (initial_update c2)))"
proof -
  note c1 = prepare_fork_ok [OF prep]
  have id: "identified c2 = identified c" by (rule identified_config) (simp add: c1 c2)
  have pf: "c_file p = c_file c @ frame (e (identified c (c_seq c) (initial_update c2)))"
    using finalize_fork_file [of c2 e dec h, unfolded id] p codec by (simp add: c1 c2)
  have "wait_for_control dec poll c2 = Some (check_control (identified c (c_seq c) (initial_update c2)) c2)"
    by (rule wait_reads_record [OF polls(1), of _ "c_file c" e _ "[]"])
       (use polls pf c1 c2 codec in auto)
  also have "check_control (identified c (c_seq c) (initial_update c2)) c2 = (c2\<lparr>c_seq := c_seq c + 1\<rparr>, None)"
    using check_control_initial [of c2 now pid "c_seq c"] c1 c2 id by simp
  finally show ?thesis using pf by simp
qed

text \<open>C14: a forked process leaves the history its runner expects.  If the parent forks and writes its
  record, the coordinator sees it within 600 rounds, and the target is started and waited for, then the child
  ends with exit status 0, the checkpoint has grown by exactly the three records of the run, numbered
  from the sequence number the process was made with, and a runner that holds the process in
  \<open>WAITING\<close> with the sequence number before accepts them all and ends in the state that the
  target's exit status stands for.\<close>

theorem coordinator_history:
  assumes prep: "prepare_fork h now c = (c1, None)" and pid: "pid \<noteq> 0"
    and parent: "start enc dec poll (c_file p) h t now (True, True) pid 0 c = Some (p, Returns)"
    and child: "start enc dec poll (c_file p) h t now (True, True) 0 pid c = Some (c', ending)"
    and enc: "enc = (\<lambda>x. Inr (e x))"
    and codec: "\<forall>rc\<in>set (run_records c now pid t). codec_ok e dec rc"
    and polls: "k < 600" "\<forall>i<k. fst (poll i) = Some (length (c_file c))"
      "poll k = (Some (length (c_file p)), c_file p)"
    and ran: "c_rc c = None" "c_rc c' \<noteq> None" "tr_write1 t = (True, True)" "tr_write2 t = (True, True)"
      "tr_popen t \<noteq> None"
  shows "ending = Exits 0 \<and> c_file c' = c_file c @ frames e (run_records c now pid t) \<and>
    (\<forall>st. state_ok st \<and> spec_of st (Some (pc_name (c_config c))) = Some (c_seq c - 1, P_WAITING) \<longrightarrow>
      (\<exists>st' ev. replay d False trunc st (run_records c now pid t) = (st', ev, None) \<and> state_ok st' \<and>
        spec_of st' (Some (pc_name (c_config c))) = Some (c_seq c + 2, exit_state (tr_wait t))))"
proof -
  note c1 = prepare_fork_ok [OF prep]
  define c2 where "c2 = c1\<lparr>c_pid := Some pid\<rparr>"
  let ?r0 = "identified c (c_seq c) (initial_update c2)"
  have r0: "run_records c now pid t = [?r0, identified c (c_seq c + 1) (running_update t),
      identified c (c_seq c + 2) (final_update t)]"
    using c1 by (simp add: run_records_def initial_update_def c2_def empty_status_def)
  have fin: "finalize_fork (\<lambda>x. Inr (e x)) (True, True) h c2 = (p, None)"
    using parent prep pid enc by (auto simp: start_def c2_def ending_of_def split: prod.splits option.splits)
  have ctl: "wait_for_control dec poll c2 = Some (c2\<lparr>c_seq := c_seq c + 1\<rparr>, None)"
    "c_file p = c_file c @ frame (e ?r0)"
    using child_takes_control [OF prep _ c2_def, of e dec k poll p] fin polls codec r0
    by (auto simp: c2_def)
  let ?c3 = "c2\<lparr>c_seq := c_seq c + 1, c_file := c_file p\<rparr>"
  have id: "identified ?c3 = identified c" by (rule identified_config) (simp add: c1 c2_def)
  obtain c4 x where ex: "execute (\<lambda>x. Inr (e x)) h t ?c3 = (c4, x)" by fastforce
  have en: "ending = Exits 0" and c': "c' = c4\<lparr>c_ckpt := False\<rparr>"
    using child prep ctl(1) ex enc by (auto simp: start_def start_child_def c2_def)
  have cod: "codec_ok e dec (identified ?c3 (c_seq ?c3) (running_update t))"
    "codec_ok e dec (identified ?c3 (c_seq ?c3 + 1) (final_update t))"
    using codec by (simp_all add: r0 id add.assoc)
  have "c_file c4 = c_file ?c3 @ frame (e (identified ?c3 (c_seq ?c3) (running_update t))) @
      frame (e (identified ?c3 (c_seq ?c3 + 1) (final_update t)))"
    using execute_stream [OF ex _ _ _ ran(3,4) cod] c1 c' ran by (simp add: c2_def)
  then have "c_file c4 = c_file p @ frame (e (identified c (c_seq c + 1) (running_update t))) @
      frame (e (identified c (c_seq c + 2) (final_update t)))"
    unfolding id by (simp add: add.assoc)
  then have "c_file c' = c_file c @ frames e (run_records c now pid t)"
    using ctl(2) by (simp add: c' r0)
  moreover have "\<forall>st. state_ok st \<and> spec_of st (Some (pc_name (c_config c))) = Some (c_seq c - 1, P_WAITING) \<longrightarrow>
      (\<exists>st' ev. replay d False trunc st (run_records c now pid t) = (st', ev, None) \<and> state_ok st' \<and>
        spec_of st' (Some (pc_name (c_config c))) = Some (c_seq c + 2, exit_state (tr_wait t)))"
    using run_records_machine [OF _ _ ran(5)] by blast
  ultimately show ?thesis using en by blast
qed

text \<open>The wait for control is bounded only while the file does not change.  A stream that stays
  as it was makes the child give up after 600 rounds (a minute); a torn record, which a parent leaves
  that dies while it writes, keeps the child reading for ever without a pause.\<close>

theorem torn_record_spins:
  assumes "c_ckpt_head c = int (length old)"
  shows "((\<forall>i<600. fst (poll i) = Some (length old)) \<longrightarrow>
      wait_for_control dec poll c = Some (c, Some (Own CheckpointError))) \<and>
    ((\<exists>k<600. (\<forall>i<k. fst (poll i) = Some (length old)) \<and>
       (\<forall>i\<ge>k. poll i = (Some (length (old @ part)), old @ part)) \<and> part \<noteq> [] \<and> torn_tail part) \<longrightarrow>
      wait_for_control dec poll c = None)"
  using wait_times_out [of poll c dec] wait_torn_spins [of part _ poll old c dec] assms by auto

section \<open>What the target is started with\<close>

definition spawns :: "coordinator \<Rightarrow> effect set" where
  "spawns c = {x \<in> set (c_effects c). \<exists>a w v cr. x = Spawn a w v cr}"

text \<open>The credentials after \<^verbatim>\<open>_setuid\<close>.\<close>

definition lowered :: "host \<Rightarrow> pwent \<Rightarrow> creds \<Rightarrow> creds" where
  "lowered h user cr =
     (if pw_uid user = cr_uid cr then cr
      else \<lparr>cr_uid = pw_uid user, cr_euid = pw_uid user, cr_gid = pw_gid user,
            cr_groups = [g. (g, members) \<leftarrow> h_groups h, List.member members (pw_name user)]\<rparr>)"

lemma setuid_spawns: "spawns (fst (setuid h c)) = spawns c"
  by (auto simp: setuid_def spawns_def os_setgroups_def os_setgid_def os_setuid_def then_do_def
      Let_def split: sum.split prod.split)

lemma setuid_lowers:
  "setuid h c = (c', None) \<Longrightarrow> getpwuid h c = Inr (user, current) \<Longrightarrow> pw_uid current = cr_uid (c_creds c) \<Longrightarrow>
     c_creds c' = lowered h user (c_creds c) \<and> c_config c' = c_config c"
  by (auto simp: setuid_def os_setgroups_def os_setgid_def os_setuid_def lowered_def Let_def
      split: if_splits)

lemma chroot_spawns: "spawns (fst (chroot c)) = spawns c" "c_creds (fst (chroot c)) = c_creds c"
  "c_config (fst (chroot c)) = c_config c"
  by (auto simp: chroot_def perform_def spawns_def split: option.split)

lemma perform_Setsid: "spawns (perform Setsid c) = spawns c" "c_creds (perform Setsid c) = c_creds c"
  "c_config (perform Setsid c) = c_config c"
  by (auto simp: perform_def spawns_def)

lemma write_spawns: "spawns (fst (write_process_update enc ok h kw c)) = spawns c"
  by (auto simp: write_process_update_def proc_ckpt_write_def init_ckpt_if_necessary_def setup_ckpt_def
      spawns_def then_do_def split: sum.split prod.split exn.split)

lemma target_env_user:
  "target_env h c u home = Inr env \<Longrightarrow> env ''USER'' = Some u \<and> env ''LOGNAME'' = Some u \<and> env ''HOME'' = Some home"
  by (auto simp: target_env_def rbind_Inr_iff)

lemma subprocess_args_user:
  "subprocess_args h c u home = Inr (args, cwd, env) \<Longrightarrow> env ''USER'' = Some u \<and> env ''LOGNAME'' = Some u"
  by (auto simp: subprocess_args_def rbind_Inr_iff Let_def dest!: target_env_user)

lemma start_target_spawns:
  "Spawn args cwd env cr \<in> spawns (fst (start_target h t u home c)) \<Longrightarrow> Spawn args cwd env cr \<notin> spawns c \<Longrightarrow>
     cr = c_creds c \<and> env ''USER'' = Some u \<and> env ''LOGNAME'' = Some u"
  by (auto simp: start_target_def spawns_def perform_def dest: subprocess_args_user
      split: sum.splits prod.splits option.splits)

lemma then_do_spawns:
  "(\<And>c. spawns (fst (f c)) = spawns c) \<Longrightarrow> spawns (fst (then_do r f)) = spawns (fst r)"
  by (cases r; cases "snd r") auto

lemma getpwuid_creds:
  "c_creds c = c_creds c' \<Longrightarrow> c_config c = c_config c' \<Longrightarrow> getpwuid h c = getpwuid h c'"
  by (simp add: getpwuid_def cong: option.case_cong)

lemma isolated_never_spawns:
  "taskfs_isolated c \<Longrightarrow> spawns (fst (start_target h t u home c)) = spawns c"
  by (auto simp: start_target_def subprocess_args_def wrapped_cmdline_def wrap_with_mesos_containerizer_def
      is_launch_info_supported_def taskfs_isolated_def rbind_Inr_iff Let_def split: sum.split prod.split)

text \<open>C19: the target never runs with more than it is meant to.  A target that is started has the user,
  the group and the supplementary groups of the requested account (or the coordinator's own when it
  already runs as that user), and its environment names the requested account.  Inside an isolated
  file system no target is started at all: the test of the containerizer's output raises.\<close>

theorem target_privileges:
  assumes pw: "getpwuid h c = Inr (user, current)" "pw_uid current = cr_uid (c_creds c)"
    and ex: "execute enc h t c = (c', x)"
    and sp: "Spawn args cwd env cr \<in> set (c_effects c')" "Spawn args cwd env cr \<notin> set (c_effects c)"
  shows "\<not> taskfs_isolated c \<and> cr = lowered h user (c_creds c) \<and>
    env ''USER'' = Some (pw_name user) \<and> env ''LOGNAME'' = Some (pw_name user)"
proof -
  define a where "a = (if pc_chroot (c_config c) then chroot (perform Setsid c) else (perform Setsid c, None))"
  define b where "b = (\<lambda>c. if taskfs_isolated c then (c, None) else setuid h c)"
  define d where "d = (\<lambda>c. if taskfs_isolated c then setuid h c else (c, None))"
  define s where "s = start_target h t (pw_name user) (pw_dir user)"
  define w where "w = (\<lambda>c. then_do (write_process_update enc (tr_write1 t) h (running_update t) c)
     (\<lambda>c. then_do (write_process_update enc (tr_write2 t) h (final_update t) c)
     (\<lambda>c. (c\<lparr>c_rc := Some (tr_wait t)\<rparr>, None))))"
  have run: "then_do a (\<lambda>c. then_do (b c) (\<lambda>c. then_do (s c) (\<lambda>c. then_do (d c) w))) = (c', x)"
    using ex pw(1) by (simp add: execute_def a_def b_def d_def s_def w_def)
  have rc: "spawns (c\<lparr>c_rc := r\<rparr>) = spawns c" for c r by (simp add: spawns_def)
  have "spawns (fst (d c)) = spawns c" for c by (simp add: d_def setuid_spawns)
  then have rest: "spawns (fst (then_do (d c) w)) = spawns c" for c
    by (subst then_do_spawns) (simp_all add: w_def then_do_spawns write_spawns rc)
  have sp': "Spawn args cwd env cr \<in> spawns c'" "Spawn args cwd env cr \<notin> spawns c"
    using sp by (auto simp: spawns_def)
  have a: "spawns (fst a) = spawns c" "c_creds (fst a) = c_creds c" "c_config (fst a) = c_config c"
    by (simp_all add: a_def chroot_spawns perform_Setsid)
  obtain c1 where c1: "a = (c1, None)" and 1: "then_do (b c1) (\<lambda>c. then_do (s c) (\<lambda>c. then_do (d c) w)) = (c', x)"
    using run sp' a(1) by (cases a; cases "snd a") auto
  have bs: "spawns (fst (b c1)) = spawns c1" by (simp add: b_def setuid_spawns)
  obtain c2 where c2: "b c1 = (c2, None)" and 2: "then_do (s c2) (\<lambda>c. then_do (d c) w) = (c', x)"
    using 1 sp' a(1) bs c1 by (cases "b c1"; cases "snd (b c1)") auto
  have out: "spawns c' = spawns (fst (s c2))"
    using 2 then_do_spawns [of "\<lambda>c. then_do (d c) w" "s c2", OF rest] by simp
  then have tgt: "cr = c_creds c2 \<and> env ''USER'' = Some (pw_name user) \<and> env ''LOGNAME'' = Some (pw_name user)"
    using start_target_spawns [of args cwd env cr h t "pw_name user" "pw_dir user" c2] sp' bs a(1) c1 c2
    by (simp add: s_def)
  have iso: "\<not> taskfs_isolated c"
  proof
    assume i: "taskfs_isolated c"
    then have "c2 = c1" "taskfs_isolated c1" using c2 a(3) c1 by (auto simp: b_def taskfs_isolated_def)
    then show False
      using isolated_never_spawns [of c2 h t "pw_name user" "pw_dir user"] out sp' a(1) c1 by (simp add: s_def)
  qed
  moreover have "c_creds c2 = lowered h user (c_creds c)"
    using c2 a(2,3) c1 setuid_lowers [of h c1 c2 user current] getpwuid_creds [of c1 c h] pw iso
    by (auto simp: b_def taskfs_isolated_def split: if_splits)
  ultimately show ?thesis using tgt by simp
qed

section \<open>A concrete run\<close>

definition sample_pwent :: "string \<Rightarrow> int \<Rightarrow> pwent" where
  "sample_pwent n u = \<lparr>pw_name = n, pw_passwd = ''x'', pw_uid = u, pw_gid = u, pw_gecos = [],
     pw_dir = ''/home/'' @ n, pw_shell = ''/bin/sh''\<rparr>"

definition sample_host :: host where
  "sample_host = \<lparr>h_getpwuid = (\<lambda>u. if u = 0 then Some (sample_pwent ''root'' 0) else None),
     h_getpwnam = (\<lambda>n. if n = ''web'' then Some (sample_pwent ''web'' 33) else None),
     h_groups = [(7, [''web'', ''ftp'']), (8, [''ftp''])], h_environ = [(''PATH'', ''/bin'')],
     h_getcwd = ''/'', h_exists = (\<lambda>_. False), h_lock_ok = True, h_logdir = ''/log'',
     h_log_path = (\<lambda>n. ''/log/'' @ n), h_openable = (\<lambda>_. True),
     h_containerizer_stderr = (\<lambda>_. [])\<rparr>"

definition sample_config :: proc_config where
  "sample_config = \<lparr>pc_name = ''p'', pc_cmdline = ''true'', pc_sandbox = Some ''/box'', pc_user = Some ''web'',
     pc_log = \<lparr>lc_destination = ''none'', lc_mode = ''standard'', lc_rotate_size = None,
               lc_rotate_backups = None\<rparr>,
     pc_chroot = False, pc_preserve_env = False, pc_containerizer = None, pc_container_sandbox = None\<rparr>"

definition sample_coordinator :: coordinator where
  "sample_coordinator = fst (new_coordinator sample_config 1 \<lparr>cr_uid = 0, cr_euid = 0, cr_gid = 0, cr_groups = []\<rparr> []
     \<lparr>out_streams = (\<lambda>_. []), out_files = Map.empty\<rparr>)"

definition sample_target :: target_run where
  "sample_target = \<lparr>tr_start = 6, tr_stop = 9, tr_popen = Some 8, tr_wait = 0, tr_write1 = (True, True),
     tr_write2 = (True, True)\<rparr>"

definition sample_records :: "runner_ckpt list" where
  "sample_records = run_records sample_coordinator 5 7 sample_target"

definition run_enc :: "runner_ckpt \<Rightarrow> byte list" where
  "run_enc rc = (case rc_process rc of None \<Rightarrow> []
     | Some u \<Rightarrow> if ps_seq u = Some 1 then [1] else if ps_seq u = Some 2 then [2] else [3])"

definition run_dec :: "byte list \<Rightarrow> runner_ckpt rec_res" where
  "run_dec bs = Inr (sample_records ! (if bs = [1] then 0 else if bs = [2] then 1 else 2))"

lemmas coordinator_samples = sample_coordinator_def new_coordinator_def sample_config_def sample_target_def
  sample_pwent_def sample_host_def

lemma sample_codec: "\<forall>rc\<in>set sample_records. codec_ok run_enc run_dec rc"
  by (simp add: sample_records_def run_records_def codec_ok_def run_dec_def run_enc_def identified_def
      process_ckpt_def maximum_record_size_def coordinator_samples running_update_def final_update_def empty_status_def)

lemmas fork_simps = start_def prepare_fork_def getpwuid_def setup_ckpt_def perform_def finalize_fork_def
  write_initial_update_def write_process_update_def proc_ckpt_write_def init_ckpt_if_necessary_def
  do_write_def pack_be32_def fp_write_def ending_of_def run_enc_def process_ckpt_def

lemma sample_parent:
  "\<exists>p. start (\<lambda>x. Inr (run_enc x)) run_dec poll file sample_host sample_target 5 (True, True) 7 0 sample_coordinator =
     Some (p, Returns) \<and> c_file p = [0, 0, 0, 1, 1]"
  by (simp add: fork_simps coordinator_samples sandbox_set_def)

definition sample_poll :: "nat \<Rightarrow> nat option \<times> byte list" where
  "sample_poll i = (Some 5, [0, 0, 0, 1, 1])"

lemma sample_forked:
  "\<exists>c1. prepare_fork sample_host 5 sample_coordinator = (c1, None) \<and>
     wait_for_control run_dec sample_poll (c1\<lparr>c_pid := Some 7\<rparr>) = Some (c1\<lparr>c_pid := Some 7, c_seq := 2\<rparr>, None)"
  by (simp add: fork_simps coordinator_samples sandbox_set_def wait_for_control_def, subst wait_loop.simps)
     (simp add: sample_poll_def maximum_control_wait_def try_read_def do_read_def fp_read_def
      record_header_size_def unpack_be32_def maximum_record_size_def run_dec_def sample_records_def run_records_def
      check_control_def identified_def process_ckpt_def coordinator_samples empty_status_def)

definition sample_creds :: creds where
  "sample_creds = \<lparr>cr_uid = 0, cr_euid = 0, cr_gid = 0, cr_groups = []\<rparr>"

definition web_creds :: creds where
  "web_creds = \<lparr>cr_uid = 33, cr_euid = 33, cr_gid = 33, cr_groups = [7]\<rparr>"

lemma sample_setuid:
  assumes "pc_user (c_config c) = Some ''web''" "c_creds c = sample_creds"
  shows "getpwuid sample_host c = Inr (sample_pwent ''web'' 33, sample_pwent ''root'' 0)"
    and "setuid sample_host c = (c\<lparr>c_creds := web_creds\<rparr>, None)"
proof -
  show g: "getpwuid sample_host c = Inr (sample_pwent ''web'' 33, sample_pwent ''root'' 0)"
    using assms by (simp add: getpwuid_def sample_host_def sample_creds_def)
  show "setuid sample_host c = (c\<lparr>c_creds := web_creds\<rparr>, None)"
    using assms g
    by (simp add: setuid_def os_setgroups_def os_setgid_def os_setuid_def sample_pwent_def sample_creds_def
        web_creds_def) (simp add: sample_host_def)
qed

lemma sample_start_target:
  assumes "c_config c = sample_config"
  shows "\<exists>env. start_target sample_host sample_target u home c =
    (perform (Spawn [Plain ''/bin/bash'', Plain ''-c'', Plain ''true''] ''/box'' env (c_creds c)) c, None)"
proof -
  have "subprocess_args sample_host c u home = Inr ([Plain ''/bin/bash'', Plain ''-c'', Plain ''true''], ''/box'',
      Map.empty(''HOME'' \<mapsto> ''/box'', ''LOGNAME'' \<mapsto> u, ''USER'' \<mapsto> u, ''PATH'' \<mapsto> ''/bin''))"
    using assms
    by (simp add: subprocess_args_def layout_def sandbox_set_def taskfs_isolated_def target_env_def environ_def
        wrapped_cmdline_def profile_path_def sample_config_def sample_host_def Let_def)
  then show ?thesis
    using assms
    by (intro exI) (simp add: start_target_def resolver_init_def get_handlers_def get_handler_def destination_valid_def
        mode_valid_def all_destinations_def all_modes_def sample_config_def sample_host_def sample_target_def)
qed

lemma sample_execute:
  assumes c: "c_config c = sample_config" "c_creds c = sample_creds" "c_ckpt c"
  shows "\<exists>c' env. execute (\<lambda>x. Inr (run_enc x)) sample_host sample_target c = (c', None) \<and> c_rc c' = Some 0 \<and>
     c_effects c' = c_effects c @ [Setsid, Spawn [Plain ''/bin/bash'', Plain ''-c'', Plain ''true''] ''/box'' env web_creds]"
proof -
  let ?c1 = "(perform Setsid c)\<lparr>c_creds := web_creds\<rparr>"
  have cf: "pc_user sample_config = Some ''web''" "\<not> pc_chroot sample_config" "pc_containerizer sample_config = None"
    by (simp_all add: sample_config_def)
  have p: "c_config (perform Setsid c) = sample_config" "c_creds (perform Setsid c) = sample_creds"
    "c_ckpt (perform Setsid c)" "c_effects (perform Setsid c) = c_effects c @ [Setsid]"
    using c by (simp_all add: perform_def)
  obtain env where st: "start_target sample_host sample_target ''web'' ''/home/web'' ?c1 =
      (perform (Spawn [Plain ''/bin/bash'', Plain ''-c'', Plain ''true''] ''/box'' env web_creds) ?c1, None)"
    using sample_start_target [of ?c1] p by auto
  let ?c2 = "perform (Spawn [Plain ''/bin/bash'', Plain ''-c'', Plain ''true''] ''/box'' env web_creds) ?c1"
  have sz: "codec_ok run_enc (\<lambda>_. Inr rc) rc" for rc
    by (simp add: codec_ok_def run_enc_def maximum_record_size_def split: option.split)
  have w: "\<exists>f. write_process_update (\<lambda>x. Inr (run_enc x)) (True, True) sample_host kw a =
      (a\<lparr>c_file := f, c_seq := c_seq a + 1\<rparr>, None)" if "c_ckpt a" for a kw
    using write_process_update_ok [OF that refl sz] by blast
  obtain f where f: "write_process_update (\<lambda>x. Inr (run_enc x)) (True, True) sample_host
      (running_update sample_target) ?c2 = (?c2\<lparr>c_file := f, c_seq := c_seq ?c2 + 1\<rparr>, None)"
    using w [of ?c2] p by (auto simp: perform_def)
  let ?c3 = "?c2\<lparr>c_file := f, c_seq := c_seq ?c2 + 1\<rparr>"
  obtain g where g: "write_process_update (\<lambda>x. Inr (run_enc x)) (True, True) sample_host
      (final_update sample_target) ?c3 = (?c3\<lparr>c_file := g, c_seq := c_seq ?c3 + 1\<rparr>, None)"
    using w [of ?c3] p by (auto simp: perform_def)
  have x: "execute (\<lambda>x. Inr (run_enc x)) sample_host sample_target c =
      (?c3\<lparr>c_file := g, c_seq := c_seq ?c3 + 1, c_rc := Some 0\<rparr>, None)"
    using sample_setuid [of c] sample_setuid(2) [of "perform Setsid c"] c p cf st f g
    by (simp add: execute_def taskfs_isolated_def sample_pwent_def) (simp add: sample_target_def perform_def)
  show ?thesis unfolding x using p by (simp add: perform_def)
qed

lemma sample_child:
  "\<exists>c'. start (\<lambda>x. Inr (run_enc x)) run_dec sample_poll [0, 0, 0, 1, 1] sample_host sample_target 5 (True, True) 0 7
     sample_coordinator = Some (c', Exits 0) \<and> c_rc c' = Some 0"
proof -
  obtain c1 where c1: "prepare_fork sample_host 5 sample_coordinator = (c1, None)"
    "wait_for_control run_dec sample_poll (c1\<lparr>c_pid := Some 7\<rparr>) = Some (c1\<lparr>c_pid := Some 7, c_seq := 2\<rparr>, None)"
    using sample_forked by blast
  let ?d = "c1\<lparr>c_pid := Some 7, c_seq := 2, c_file := [0, 0, 0, 1, 1]\<rparr>"
  have d: "c_config ?d = sample_config" "c_creds ?d = sample_creds" "c_ckpt ?d"
    using prepare_fork_ok [OF c1(1)]
    by (simp_all add: sample_coordinator_def new_coordinator_def sample_creds_def)
  have "c_rc (fst (execute (\<lambda>x. Inr (run_enc x)) sample_host sample_target ?d)) = Some 0"
    using sample_execute [OF d] by auto
  then show ?thesis using c1 by (auto simp: start_def start_child_def split: prod.split)
qed

section \<open>Witnesses\<close>

theorem coordinator_history_witness:
  "\<exists>c'. start (\<lambda>x. Inr (run_enc x)) run_dec sample_poll [0, 0, 0, 1, 1] sample_host sample_target 5 (True, True) 0 7
     sample_coordinator = Some (c', Exits 0) \<and>
   c_file c' = [0, 0, 0, 1, 1, 0, 0, 0, 1, 2, 0, 0, 0, 1, 3] \<and>
   (\<exists>st' ev. replay (new_dispatcher :: nat dispatcher) False False
       (put_runs empty_runner_state (Some ''p'') [full_status ''p'' 0 P_WAITING\<lparr>ps_coordinator_pid := None,
          ps_pid := None, ps_stop_time := None, ps_return_code := None\<rparr>])
       sample_records = (st', ev, None) \<and> spec_of st' (Some ''p'') = Some (3, P_SUCCESS))"
proof -
  let ?st = "put_runs empty_runner_state (Some ''p'') [full_status ''p'' 0 P_WAITING\<lparr>ps_coordinator_pid := None,
          ps_pid := None, ps_stop_time := None, ps_return_code := None\<rparr>]"
  let ?enc = "\<lambda>x. Inr (run_enc x) :: byte list rec_res"
  obtain c1 where c1: "prepare_fork sample_host 5 sample_coordinator = (c1, None)"
    using sample_forked by blast
  obtain p where p: "start ?enc run_dec sample_poll [0, 0, 0, 1, 1] sample_host sample_target 5 (True, True) 7 0
      sample_coordinator = Some (p, Returns)" "c_file p = [0, 0, 0, 1, 1]"
    using sample_parent by blast
  obtain c' where c': "start ?enc run_dec sample_poll [0, 0, 0, 1, 1] sample_host sample_target 5 (True, True) 0 7
      sample_coordinator = Some (c', Exits 0)" "c_rc c' = Some 0"
    using sample_child by blast
  have nm: "pc_name (c_config sample_coordinator) = ''p''" "c_seq sample_coordinator = 1"
    "c_file sample_coordinator = []" "c_rc sample_coordinator = None"
    by (simp_all add: sample_coordinator_def new_coordinator_def sample_config_def)
  have st: "state_ok ?st" "spec_of ?st (Some ''p'') = Some (0, P_WAITING)"
    by (simp_all add: state_ok_def put_runs_def empty_runner_state_def history_ok_def run_ok_def full_status_def
        no_stop_fields_def spec_of_def current_run_def seq_of_def)
  have "c_file c' = c_file sample_coordinator @ frames run_enc sample_records \<and>
    (\<forall>st. state_ok st \<and> spec_of st (Some ''p'') = Some (0, P_WAITING) \<longrightarrow>
      (\<exists>st' ev. replay (new_dispatcher :: nat dispatcher) False False st sample_records = (st', ev, None) \<and> state_ok st' \<and>
        spec_of st' (Some ''p'') = Some (3, exit_state (tr_wait sample_target))))"
    using coordinator_history [of sample_host 5 sample_coordinator c1 7 ?enc run_dec sample_poll p sample_target c'
        "Exits 0" run_enc 0 "new_dispatcher :: nat dispatcher" False, unfolded p(2), OF c1 _ p(1) c'(1) refl]
      sample_codec c' nm
    by (simp add: sample_records_def sample_poll_def) (simp add: sample_target_def)
  moreover have "frames run_enc sample_records = [0, 0, 0, 1, 1, 0, 0, 0, 1, 2, 0, 0, 0, 1, 3]"
    by (simp add: sample_records_def run_records_def identified_def run_enc_def process_ckpt_def frame_def
        pack_be32_def nm)
  moreover have "exit_state (tr_wait sample_target) = P_SUCCESS" by (simp add: exit_state_def sample_target_def)
  ultimately show ?thesis using c' st nm by auto
qed

theorem torn_record_spins_witness:
  "wait_for_control run_dec (\<lambda>_. (Some 2, [0, 0])) (sample_coordinator\<lparr>c_ckpt_head := 0\<rparr>) = None"
proof -
  have "torn_tail [0, 0]"
    unfolding torn_tail_def
    by (rule disjI2, rule exI [of _ "[]"])
       (simp_all add: maximum_record_size_def frame_def pack_be32_def strict_prefix_def)
  then show ?thesis
    using torn_record_spins [of "sample_coordinator\<lparr>c_ckpt_head := 0\<rparr>" "[]" "\<lambda>_. (Some 2, [0, 0])" run_dec "[0, 0]"]
    by (auto intro!: exI [of _ 0])
qed

theorem target_privileges_witness:
  "\<exists>c' args cwd env. execute (\<lambda>x. Inr (run_enc x)) sample_host sample_target (sample_coordinator\<lparr>c_ckpt := True\<rparr>) = (c', None) \<and>
     Spawn args cwd env web_creds \<in> set (c_effects c') \<and> env ''USER'' = Some ''web'' \<and>
     lowered sample_host (sample_pwent ''web'' 33) sample_creds = web_creds"
proof -
  let ?c = "sample_coordinator\<lparr>c_ckpt := True\<rparr>"
  have c: "c_config ?c = sample_config" "c_creds ?c = sample_creds" "c_ckpt ?c" "c_effects ?c = [Mkdir ''/box'']"
    by (simp_all add: sample_coordinator_def new_coordinator_def sample_creds_def)
       (simp add: sample_config_def sandbox_set_def)
  obtain c' env where x: "execute (\<lambda>x. Inr (run_enc x)) sample_host sample_target ?c = (c', None)"
    "c_effects c' = c_effects ?c @ [Setsid, Spawn [Plain ''/bin/bash'', Plain ''-c'', Plain ''true''] ''/box'' env web_creds]"
    using sample_execute [OF c(1-3)] by blast
  have u: "getpwuid sample_host ?c = Inr (sample_pwent ''web'' 33, sample_pwent ''root'' 0)"
    by (rule sample_setuid) (use c in \<open>simp_all add: sample_config_def\<close>)
  have "\<not> taskfs_isolated ?c \<and> web_creds = lowered sample_host (sample_pwent ''web'' 33) (c_creds ?c) \<and>
      env ''USER'' = Some (pw_name (sample_pwent ''web'' 33)) \<and> env ''LOGNAME'' = Some (pw_name (sample_pwent ''web'' 33))"
    by (rule target_privileges [OF u _ x(1)])
       (use c x(2) in \<open>auto simp: sample_pwent_def sample_creds_def\<close>)
  then show ?thesis using x c(2) by (auto simp: sample_pwent_def)
qed

end
