(* ===== verification/Scheduler.thy ===== *)
theory Scheduler
  imports Prelude
begin

text \<open>
  The client's connection to the scheduler, \<^verbatim>\<open>apache/aurora/client/api/scheduler_client.py\<close>: finding
  the leading scheduler, connecting with retries, and the proxy that issues one call of the API and
  decides after each failure whether the call may be issued again.  The network, the authentication
  module and the clock are arguments: a call is described by the attempts it goes through, and the
  model says how many of them it uses and what it gives.
\<close>

datatype client_error = CouldNotConnect

type_synonym client_exn = "client_error exn"

section \<open>Choosing the client\<close>

record cluster =
  cl_zk :: "string option"
  cl_zk_port :: nat
  cl_scheduler_zk_path :: "string option"
  cl_scheduler_uri :: "string option"
  cl_proxy_url :: "string option"

datatype client_kind = Zookeeper | Direct string

text \<open>\<^verbatim>\<open>SchedulerClient.get\<close>; empty strings are false.\<close>

definition set_string :: "string option \<Rightarrow> bool" where
  "set_string s = (s \<noteq> None \<and> s \<noteq> Some [])"

definition get_client :: "bool \<Rightarrow> cluster \<Rightarrow> ('e, client_kind) res" where
  "get_client is_cluster c =
     (if \<not> is_cluster then Inl (Py TypeError)
      else if set_string (cl_zk c) then Inr Zookeeper
      else if set_string (cl_scheduler_uri c) then Inr (Direct (the (cl_scheduler_uri c)))
      else Inl (Py ValueError))"

section \<open>The ensemble's hosts\<close>

text \<open>Python's \<^verbatim>\<open>split\<close> at one character and \<^verbatim>\<open>strip\<close>.\<close>

fun split_on :: "char \<Rightarrow> string \<Rightarrow> string list" where
  "split_on c [] = [[]]"
| "split_on c (x # xs) = (if x = c then [] # split_on c xs
     else (case split_on c xs of [] \<Rightarrow> [[x]] | y # ys \<Rightarrow> (x # y) # ys))"

definition is_space :: "char \<Rightarrow> bool" where
  "is_space c = (c \<in> {CHR '' '', CHR 0x09, CHR 0x0A, CHR 0x0B, CHR 0x0C, CHR 0x0D})"

definition strip :: "string \<Rightarrow> string" where
  "strip s = rev (dropWhile is_space (rev (dropWhile is_space s)))"

definition is_digit :: "char \<Rightarrow> bool" where
  "is_digit c = (c \<in> set ''0123456789'')"

definition isdigit :: "string \<Rightarrow> bool" where
  "isdigit s = (s \<noteq> [] \<and> list_all is_digit s)"

text \<open>\<^verbatim>\<open>host.rsplit(':', 1)[-1]\<close>: what follows the last colon, or everything.\<close>

definition after_last_colon :: "string \<Rightarrow> string" where
  "after_last_colon s = rev (takeWhile (\<lambda>c. c \<noteq> CHR '':'') (rev s))"

fun join_with :: "string \<Rightarrow> string list \<Rightarrow> string" where
  "join_with sep [] = []"
| "join_with sep [x] = x"
| "join_with sep (x # xs) = x @ sep @ join_with sep xs"

definition zk_host :: "string \<Rightarrow> string \<Rightarrow> string" where
  "zk_host port h = (if isdigit (after_last_colon h) then h else h @ '':'' @ port)"

text \<open>The connection string of \<^verbatim>\<open>get_scheduler_serverset\<close>; \<open>port\<close> is the default port in decimal.  The
  hosts themselves hold no braces, so \<^verbatim>\<open>format\<close> only fills in the port.\<close>

definition zk_hosts :: "string \<Rightarrow> string \<Rightarrow> string list" where
  "zk_hosts port zk = map (zk_host port) (filter (\<lambda>h. h \<noteq> []) (map strip (split_on (CHR '','') zk)))"

definition scheduler_serverset :: "string \<Rightarrow> cluster \<Rightarrow> (client_error, string \<times> string) res" where
  "scheduler_serverset port c =
     (case cl_zk c of
        None \<Rightarrow> Inl (Py ValueError)
      | Some zk \<Rightarrow> (case cl_scheduler_zk_path c of
                      None \<Rightarrow> Inl (Py ValueError)
                    | Some path \<Rightarrow> Inr (join_with '','' (zk_hosts port zk), path)))"

section \<open>The leading scheduler\<close>

type_synonym endpoint = "string \<times> string"

record service_instance =
  si_additional :: "(string \<times> endpoint) list"
  si_service :: "endpoint option"

definition uri_of :: "string \<Rightarrow> endpoint \<Rightarrow> string" where
  "uri_of scheme e = scheme @ ''://'' @ fst e @ '':'' @ snd e"

text \<open>What listing the serverset gives: nothing in time, or the instances.  An instance without any
  endpoint leaves the URI as it was, \<^verbatim>\<open>None\<close>.\<close>

definition resolve :: "service_instance list option \<Rightarrow> (client_error, string option) res" where
  "resolve found =
     (case found of
        None \<Rightarrow> Inl (Own CouldNotConnect)
      | Some [] \<Rightarrow> Inl (Own CouldNotConnect)
      | Some (i # _) \<Rightarrow>
          (case map_of (si_additional i) ''https'' of
             Some e \<Rightarrow> Inr (Some (uri_of ''https'' e))
           | None \<Rightarrow>
             (case map_of (si_additional i) ''http'' of
                Some e \<Rightarrow> Inr (Some (uri_of ''http'' e))
              | None \<Rightarrow> Inr (map_option (uri_of ''http'') (si_service i)))))"

definition thrift_retries :: nat where "thrift_retries = 5"

datatype open_outcome = Opened | Transport_failed | Other_failure

text \<open>The loop of \<^verbatim>\<open>_connect_scheduler\<close> over the outcomes of \<^verbatim>\<open>transport.open\<close>: the number of naps
  taken and whether it connected.\<close>

fun open_loop :: "nat \<Rightarrow> (nat \<Rightarrow> open_outcome) \<Rightarrow> nat \<Rightarrow> nat \<times> (client_error, unit) res" where
  "open_loop 0 outcome i = (i, Inl (Own CouldNotConnect))"
| "open_loop (Suc n) outcome i =
     (case outcome i of
        Opened \<Rightarrow> (i, Inr ())
      | Transport_failed \<Rightarrow> open_loop n outcome (Suc i)
      | Other_failure \<Rightarrow> (i, Inl (Own CouldNotConnect)))"

definition connect_scheduler :: "(nat \<Rightarrow> open_outcome) \<Rightarrow> nat \<times> (client_error, unit) res" where
  "connect_scheduler outcome = open_loop thrift_retries outcome 0"

text \<open>\<^verbatim>\<open>_connect\<close> of the client found through ZooKeeper: no URI gives no client, without an error.\<close>

definition connect_zookeeper :: "string option \<Rightarrow> service_instance list option \<Rightarrow> (nat \<Rightarrow> open_outcome)
    \<Rightarrow> string option \<times> (client_error, bool) res" where
  "connect_zookeeper uri found outcome =
     (case (case uri of Some u \<Rightarrow> Inr (Some u) | None \<Rightarrow> resolve found) of
        Inl e \<Rightarrow> (uri, Inl e)
      | Inr None \<Rightarrow> (None, Inr False)
      | Inr (Some u) \<Rightarrow> (Some u, rbind (snd (connect_scheduler outcome)) (\<lambda>_. Inr True)))"

definition proxied_url :: "cluster \<Rightarrow> (client_error, string option) res \<Rightarrow> (client_error, string option) res" where
  "proxied_url c raw = (if set_string (cl_proxy_url c) then Inr (cl_proxy_url c) else raw)"

section \<open>The proxy\<close>

datatype proxy_error = TimeoutError | TransientError | AuthError | ThriftInternalError | NotRetriableError

type_synonym proxy_exn = "proxy_error exn"

definition connect_maximum_wait :: rat where "connect_maximum_wait = 60"
definition rpc_retry_interval :: rat where "rpc_retry_interval = 5"
definition rpc_maximum_wait :: rat where "rpc_maximum_wait = 600"

text \<open>One round of the loop that connects: the time since its start, and what \<^verbatim>\<open>get_thrift_client\<close>
  does (\<open>No_client\<close> is the \<^verbatim>\<open>None\<close> of a scheduler without a URI).  The rounds given must reach the end of the
  loop; \<open>None\<close> says they do not.\<close>

datatype client_outcome = Client | No_client | Not_connected | Client_failed

fun connect_loop :: "(rat \<times> client_outcome) list \<Rightarrow> (proxy_exn + unit) option" where
  "connect_loop [] = None"
| "connect_loop ((elapsed, r) # rest) =
     (if \<not> elapsed < connect_maximum_wait then Some (Inl (Own TimeoutError))
      else case r of
             Client \<Rightarrow> Some (Inr ())
           | No_client \<Rightarrow> Some (Inl (Own TimeoutError))
           | Not_connected \<Rightarrow> connect_loop rest
           | Client_failed \<Rightarrow> Some (Inl (Own AuthError)))"

definition construct_scheduler :: "bool \<Rightarrow> cluster \<Rightarrow> (rat \<times> client_outcome) list \<Rightarrow> (proxy_exn + unit) option" where
  "construct_scheduler is_cluster c rounds =
     (case get_client is_cluster c of
        Inl e \<Rightarrow> Some (Inl e)
      | Inr _ \<Rightarrow> connect_loop rounds)"

text \<open>What one invocation of the thrift method does.  A \<open>Response\<close> carries its response code, \<open>None\<close>
  for a method that returns nothing.\<close>

datatype response_code = INVALID_REQUEST | OK | ERROR | WARNING | AUTH_FAILED | LOCK_ERROR | ERROR_TRANSIENT

datatype call_outcome = Response "response_code option" | Type_error | Auth_failed | Transport_error
  | Other_error

text \<open>An exception inside the \<^verbatim>\<open>try\<close> of \<^verbatim>\<open>method_wrapper\<close>, by the clause that catches it.\<close>

datatype caught = Caught_auth | Caught_transport | Caught_retriable | Caught_other

text \<open>The invocations of one round: after a \<open>TypeError\<close> the same call is made again, with one more
  argument \<^verbatim>\<open>None\<close> each time while the signature has more parameters; \<open>missing\<close> is how many there
  are.  The result has the invocations made.\<close>

fun refill_calls :: "nat \<Rightarrow> (nat \<Rightarrow> call_outcome) \<Rightarrow> nat \<Rightarrow> call_outcome list \<times> call_outcome" where
  "refill_calls 0 outcome i = ([outcome i], outcome i)"
| "refill_calls (Suc missing) outcome i =
     (if outcome i = Type_error
      then (case refill_calls missing outcome (Suc i) of (cs, r) \<Rightarrow> (Type_error # cs, r))
      else ([outcome i], outcome i))"

definition invoke :: "nat \<Rightarrow> (nat \<Rightarrow> call_outcome) \<Rightarrow> call_outcome list \<times> (caught + response_code option)" where
  "invoke missing outcome =
     (case (if outcome 0 = Type_error
            then (case refill_calls missing outcome 1 of (cs, r) \<Rightarrow> (Type_error # cs, r))
            else ([outcome 0], outcome 0)) of
        (cs, Response (Some ERROR_TRANSIENT)) \<Rightarrow> (cs, Inl Caught_retriable)
      | (cs, Response r) \<Rightarrow> (cs, Inr r)
      | (cs, Type_error) \<Rightarrow> (cs, Inl Caught_other)
      | (cs, Auth_failed) \<Rightarrow> (cs, Inl Caught_auth)
      | (cs, Transport_error) \<Rightarrow> (cs, Inl Caught_transport)
      | (cs, Other_error) \<Rightarrow> (cs, Inl Caught_other))"

text \<open>Connecting inside the \<^verbatim>\<open>try\<close>: the proxy's own \<open>AuthError\<close> is none of the first three clauses.\<close>

definition caught_connecting :: "proxy_exn \<Rightarrow> caught" where
  "caught_connecting e = (if e = Own TimeoutError \<or> e = Own TransientError then Caught_retriable else Caught_other)"

text \<open>One round of the loop of \<^verbatim>\<open>method_wrapper\<close>: whether the proxy is terminating and the time since the
  start at the loop's head, how connecting ends if there is no client, what the invocations do, and whether
  the proxy is terminating when an exception is handled.\<close>

record attempt =
  at_stop :: bool
  at_elapsed :: rat
  at_connect :: "proxy_exn + unit"
  at_calls :: "nat \<Rightarrow> call_outcome"
  at_stop_after :: bool

definition try_once :: "bool \<Rightarrow> nat \<Rightarrow> attempt \<Rightarrow> call_outcome list \<times> (caught + response_code option)" where
  "try_once linked missing a =
     (case (if linked then Inr () else at_connect a) of
        Inl e \<Rightarrow> ([], Inl (caught_connecting e))
      | Inr _ \<Rightarrow> invoke missing (at_calls a))"

datatype rpc_result = Answer "response_code option" | Nothing | Failed proxy_exn

text \<open>What the handlers make of an exception: \<open>Some\<close> raises, \<open>None\<close> goes on.\<close>

definition handle_rpc :: "bool \<Rightarrow> bool \<Rightarrow> caught \<Rightarrow> proxy_exn option" where
  "handle_rpc retry stopped e =
     (case e of
        Caught_auth \<Rightarrow> Some (Own AuthError)
      | Caught_transport \<Rightarrow> if stopped \<or> retry then None else Some (Own NotRetriableError)
      | Caught_retriable \<Rightarrow> None
      | Caught_other \<Rightarrow> if stopped then None else Some (Own ThriftInternalError))"

text \<open>The loop: per attempt the invocations made, and the result; \<open>None\<close> when the attempts given do
  not reach the end.  The client is gone after every exception that does not leave the loop: the clauses
  that retry call \<^verbatim>\<open>invalidate\<close>, and so does \<^verbatim>\<open>terminate\<close>.\<close>

fun rpc_loop :: "bool \<Rightarrow> nat \<Rightarrow> bool \<Rightarrow> attempt list \<Rightarrow> call_outcome list list \<times> rpc_result option" where
  "rpc_loop retry missing linked [] = ([], None)"
| "rpc_loop retry missing linked (a # as) =
     (if at_stop a then ([], Some Nothing)
      else if \<not> at_elapsed a < rpc_maximum_wait then ([], Some (Failed (Own TimeoutError)))
      else case try_once linked missing a of
             (cs, Inr r) \<Rightarrow> ([cs], Some (Answer r))
           | (cs, Inl e) \<Rightarrow>
               (case handle_rpc retry (at_stop_after a) e of
                  Some x \<Rightarrow> ([cs], Some (Failed x))
                | None \<Rightarrow> (case rpc_loop retry missing False as of (css, r) \<Rightarrow> (cs # css, r))))"

section \<open>Hosts\<close>

lemma after_last_colon_port:
  assumes "CHR '':'' \<notin> set port"
  shows "after_last_colon (h @ '':'' @ port) = port"
proof -
  have "takeWhile (\<lambda>c. c \<noteq> CHR '':'') (rev port @ CHR '':'' # rev h) = rev port"
    by (subst takeWhile_append2) (use assms in auto)
  then show ?thesis by (simp add: after_last_colon_def)
qed

lemma zk_hosts_have_ports:
  assumes "isdigit port" "h \<in> set (zk_hosts port zk)"
  shows "isdigit (after_last_colon h)"
proof -
  have "\<not> is_digit (CHR '':'')" by (simp add: is_digit_def)
  then have p: "CHR '':'' \<notin> set port" using assms(1) unfolding isdigit_def list_all_iff by blast
  obtain g where g: "h = zk_host port g" using assms(2) unfolding zk_hosts_def by auto
  show ?thesis
  proof (cases "isdigit (after_last_colon g)")
    case False
    then have "h = g @ '':'' @ port" by (simp add: g zk_host_def)
    then show ?thesis using after_last_colon_port [OF p, of g] assms(1) by simp
  qed (simp add: g zk_host_def)
qed

section \<open>Connecting\<close>

lemma open_loop_naps: "fst (open_loop n outcome i) \<le> i + n"
proof (induction n arbitrary: i)
  case (Suc n)
  then show ?case using Suc.IH [of "Suc i"] by (auto split: open_outcome.split)
qed simp

lemma open_loop_connects:
  "snd (open_loop n outcome i) = Inr () \<longleftrightarrow>
     (\<exists>k<n. outcome (i + k) = Opened \<and> (\<forall>j<k. outcome (i + j) = Transport_failed))"
proof (induction n arbitrary: i)
  case (Suc n)
  show ?case
  proof (cases "outcome i")
    case Opened
    then show ?thesis by (auto intro!: exI [of _ 0])
  next
    case Transport_failed
    have "(\<exists>k<Suc n. outcome (i + k) = Opened \<and> (\<forall>j<k. outcome (i + j) = Transport_failed)) \<longleftrightarrow>
        (\<exists>k<n. outcome (Suc i + k) = Opened \<and> (\<forall>j<k. outcome (Suc i + j) = Transport_failed))"
      using Transport_failed by (auto simp: Ex_less_Suc2 All_less_Suc2)
    then show ?thesis using Transport_failed Suc.IH [of "Suc i"] by simp
  next
    case Other_failure
    then have "\<not> (outcome (i + k) = Opened \<and> (\<forall>j<k. outcome (i + j) = Transport_failed))" for k
      by (cases k) auto
    then show ?thesis using Other_failure by auto
  qed
qed simp

section \<open>The calls of one attempt\<close>






section \<open>The attempts of a call\<close>






text \<open>One attempt: the loop ends before it, in it, or goes on after it.\<close>

lemma rpc_loop_step:
  assumes "rpc_loop retry m linked (a # as) = (css, r)"
  obtains "css = []" "r = Some Nothing \<or> r = Some (Failed (Own TimeoutError))"
  | cs x where "css = [cs]" "r = Some (Answer x)" "try_once linked m a = (cs, Inr x)"
      "at_elapsed a < rpc_maximum_wait"
  | cs e x where "css = [cs]" "r = Some (Failed x)" "try_once linked m a = (cs, Inl e)"
      "handle_rpc retry (at_stop_after a) e = Some x" "at_elapsed a < rpc_maximum_wait"
  | cs e css' where "css = cs # css'" "try_once linked m a = (cs, Inl e)"
      "handle_rpc retry (at_stop_after a) e = None" "rpc_loop retry m False as = (css', r)"
      "at_elapsed a < rpc_maximum_wait"
  using assms by (auto split: if_splits prod.splits sum.splits option.splits)





text \<open>Attempts that go on are five seconds apart.\<close>

definition spaced :: "attempt list \<Rightarrow> bool" where
  "spaced as = (\<forall>i j. i < j \<longrightarrow> j < length as \<longrightarrow>
     at_elapsed (as ! i) + rpc_retry_interval * of_nat (j - i) \<le> at_elapsed (as ! j))"

lemma rpc_loop_elapsed:
  "rpc_loop retry m linked as = (css, r) \<Longrightarrow> length css \<le> length as \<and>
     (\<forall>i < length css. at_elapsed (as ! i) < rpc_maximum_wait) \<and> (r = None \<longrightarrow> length css = length as)"
proof (induction as arbitrary: linked css r)
  case (Cons a as)
  from Cons.prems show ?case
  proof (cases rule: rpc_loop_step)
    case (4 cs e css')
    then show ?thesis using Cons.IH [OF 4(4)] by (auto simp: less_Suc_eq_0_disj)
  qed auto
qed simp

lemma rpc_loop_bounded:
  assumes "rpc_loop retry m linked as = (css, r)" "spaced as" "\<forall>a\<in>set as. 0 \<le> at_elapsed a"
  shows "length css \<le> 120"
proof (rule ccontr)
  assume "\<not> length css \<le> 120"
  then have l: "120 < length css" "120 < length as" using rpc_loop_elapsed [OF assms(1)] by linarith+
  have "at_elapsed (as ! 0) + rpc_retry_interval * of_nat (120 - 0) \<le> at_elapsed (as ! 120)"
    by (rule assms(2) [unfolded spaced_def, rule_format]) (use l(2) in simp_all)
  moreover have "as \<noteq> []" using l(2) by auto
  then have "0 \<le> at_elapsed (as ! 0)" using assms(3) by simp
  ultimately have "600 \<le> at_elapsed (as ! 120)" by (simp add: rpc_retry_interval_def)
  moreover have "at_elapsed (as ! 120) < rpc_maximum_wait" using rpc_loop_elapsed [OF assms(1)] l(1) by blast
  ultimately show False by (simp add: rpc_maximum_wait_def)
qed

section \<open>Properties\<close>


text \<open>A call ends after ten minutes: attempts that are five seconds apart are at most 120, and with
  one more attempt to look at the loop has ended.\<close>

theorem rpc_ends:
  assumes "spaced as" "\<forall>a\<in>set as. 0 \<le> at_elapsed a" "120 < length as"
  shows "snd (rpc_loop retry m linked as) \<noteq> None \<and> length (fst (rpc_loop retry m linked as)) \<le> 120"
proof -
  obtain css r where l: "rpc_loop retry m linked as = (css, r)" by fastforce
  have b: "length css \<le> 120" using rpc_loop_bounded [OF l assms(1,2)] .
  then have "length css \<noteq> length as" using assms(3) by linarith
  then have "r \<noteq> None" using rpc_loop_elapsed [OF l] by blast
  then show ?thesis using b l by simp
qed

text \<open>The fallback for a \<open>TypeError\<close> first repeats the very call that raised it.\<close>

lemma type_error_repeats_call:
  "at_calls a 0 = Type_error \<Longrightarrow> 2 \<le> length (fst (try_once True m a))"
  by (cases m) (auto simp: try_once_def invoke_def split: prod.split call_outcome.split option.split response_code.split)

text \<open>The error of the authentication module never leaves the loop as such.\<close>

lemma connect_auth_masked:
  assumes "\<not> at_stop a" "at_elapsed a < rpc_maximum_wait" "at_connect a = Inl (Own AuthError)" "\<not> at_stop_after a"
  shows "rpc_loop retry m False (a # as) = ([[]], Some (Failed (Own ThriftInternalError)))"
  using assms by (simp add: try_once_def caught_connecting_def handle_rpc_def)

definition sample_attempt :: "rat \<Rightarrow> call_outcome \<Rightarrow> attempt" where
  "sample_attempt t c = \<lparr>at_stop = False, at_elapsed = t, at_connect = Inr (), at_calls = (\<lambda>_. c),
     at_stop_after = False\<rparr>"


theorem rpc_ends_witness:
  "snd (rpc_loop True 0 False (map (\<lambda>i. sample_attempt (5 * of_nat i) Transport_error) [0..<200])) \<noteq> None"
proof -
  let ?as = "map (\<lambda>i. sample_attempt (5 * of_nat i) Transport_error) [0..<200]"
  have "spaced ?as"
    by (simp add: spaced_def sample_attempt_def rpc_retry_interval_def of_nat_diff)
  moreover have "\<forall>a\<in>set ?as. 0 \<le> at_elapsed a" by (auto simp: sample_attempt_def)
  ultimately show ?thesis using rpc_ends [of ?as True 0 False] by simp
qed

end
