(* ===== verification/Observer.thy ===== *)
theory Observer
  imports Ckpt
begin

text \<open>
  The observer, \<^verbatim>\<open>apache/thermos/observer\<close>: \<^verbatim>\<open>detector.py\<close> turns what is found on disk into
  callbacks, \<^verbatim>\<open>task_observer.py\<close> keeps a table of the active and one of the finished tasks and answers
  questions about them from their checkpoints.  A Python set is a list without repetitions, in
  the order of insertion.  What the disk holds, the state that a task's checkpoint gives and the
  path functions of the operating system are arguments.
\<close>

type_synonym task = "string \<times> string"

section \<open>From the disk to callbacks\<close>

record detector =
  dt_roots :: "string list"
  dt_active :: "task list"
  dt_finished :: "task list"

datatype callback = On_active string string | On_finished string string | On_removed string string

definition new_detector :: detector where
  "new_detector = \<lparr>dt_roots = [], dt_active = [], dt_finished = []\<rparr>"

definition set_add :: "'a \<Rightarrow> 'a list \<Rightarrow> 'a list" where
  "set_add x xs = (if x \<in> set xs then xs else xs @ [x])"

definition refresh_detectors :: "string list \<Rightarrow> detector \<Rightarrow> detector" where
  "refresh_detectors paths d =
     (let kept = filter (\<lambda>p. p \<in> set paths) (dt_roots d)
      in d\<lparr>dt_roots := kept @ filter (\<lambda>p. p \<notin> set kept) (remdups paths)\<rparr>)"

text \<open>\<^verbatim>\<open>iter_tasks\<close>: \<open>ids\<close> is \<^verbatim>\<open>get_task_ids\<close> of the detector of a root, pairs of a status and a
  task id.\<close>

definition iter_tasks :: "(string \<Rightarrow> (string \<times> string) list) \<Rightarrow> detector \<Rightarrow> (task \<times> string) list" where
  "iter_tasks ids d = concat (map (\<lambda>rt. map (\<lambda>(status, i). ((rt, i), status)) (ids rt)) (dt_roots d))"

text \<open>The loop of \<^verbatim>\<open>refresh\<close>: the sets of the detector, the sets of this scan, the callbacks made
  and whether an assertion failed.\<close>

type_synonym scan = "detector \<times> (task list \<times> task list) \<times> callback list \<times> bool"

fun scan_tasks :: "(task \<times> string) list \<Rightarrow> detector \<Rightarrow> task list \<times> task list \<Rightarrow> scan" where
  "scan_tasks [] d seen = (d, seen, [], True)"
| "scan_tasks ((t, status) # ts) d (act, fin) =
     (if status = ''active'' then
        (let act' = set_add t act in
         if t \<in> set (dt_active d) then scan_tasks ts d (act', fin)
         else if t \<in> set (dt_finished d) then (d, (act', fin), [], False)
         else case scan_tasks ts (d\<lparr>dt_active := dt_active d @ [t]\<rparr>) (act', fin) of
                (d', seen, cbs, ok) \<Rightarrow> (d', seen, On_active (fst t) (snd t) # cbs, ok))
      else if status = ''finished'' then
        (let fin' = set_add t fin in
         if t \<in> set (dt_active d) then
           (case scan_tasks ts (d\<lparr>dt_active := filter (\<lambda>u. u \<noteq> t) (dt_active d),
                                  dt_finished := set_add t (dt_finished d)\<rparr>) (act, fin') of
              (d', seen, cbs, ok) \<Rightarrow> (d', seen, On_finished (fst t) (snd t) # cbs, ok))
         else if t \<in> set (dt_finished d) then scan_tasks ts d (act, fin')
         else case scan_tasks ts (d\<lparr>dt_finished := dt_finished d @ [t]\<rparr>) (act, fin') of
                (d', seen, cbs, ok) \<Rightarrow>
                  (d', seen, On_active (fst t) (snd t) # On_finished (fst t) (snd t) # cbs, ok))
      else (d, (act, fin), [], False))"

definition removals :: "detector \<Rightarrow> task list \<Rightarrow> callback list" where
  "removals d alive =
     concat (map (\<lambda>t. [On_finished (fst t) (snd t), On_removed (fst t) (snd t)])
               (filter (\<lambda>t. t \<notin> set alive) (dt_active d)))
     @ map (\<lambda>t. On_removed (fst t) (snd t)) (filter (\<lambda>t. t \<notin> set alive) (dt_finished d))"

definition refresh :: "string list \<Rightarrow> (string \<Rightarrow> (string \<times> string) list) \<Rightarrow> detector
    \<Rightarrow> detector \<times> callback list \<times> pyexc option" where
  "refresh paths ids d0 =
     (let d1 = refresh_detectors paths d0 in
      case scan_tasks (iter_tasks ids d1) d1 ([], []) of
        (d, _, cbs, False) \<Rightarrow> (d, cbs, Some AssertionError)
      | (d, (act, fin), cbs, True) \<Rightarrow>
          (d\<lparr>dt_active := act, dt_finished := fin\<rparr>, cbs @ removals d (act @ fin), None))"

section \<open>The tables of the observer\<close>

text \<open>A task is known by its id; an entry has the root it was found under.  The resource monitors that
  were told to stop are kept in order.\<close>

record observer =
  ob_active :: "string \<Rightarrow> string option"
  ob_finished :: "string \<Rightarrow> string option"
  ob_killed :: "task list"

definition new_observer :: observer where
  "new_observer = \<lparr>ob_active = Map.empty, ob_finished = Map.empty, ob_killed = []\<rparr>"

definition all_tasks :: "observer \<Rightarrow> string \<Rightarrow> string option" where
  "all_tasks ob = ob_active ob ++ ob_finished ob"

definition drop_active :: "string \<Rightarrow> observer \<Rightarrow> observer" where
  "drop_active i ob =
     (case ob_active ob i of
        None \<Rightarrow> ob
      | Some rt \<Rightarrow> ob\<lparr>ob_active := (ob_active ob)(i := None), ob_killed := ob_killed ob @ [(rt, i)]\<rparr>)"

fun handle :: "callback \<Rightarrow> observer \<Rightarrow> observer" where
  "handle (On_active rt i) ob =
     (if ob_finished ob i \<noteq> None then ob else ob\<lparr>ob_active := (ob_active ob)(i \<mapsto> rt)\<rparr>)"
| "handle (On_finished rt i) ob =
     (let ob' = drop_active i ob in ob'\<lparr>ob_finished := (ob_finished ob')(i \<mapsto> rt)\<rparr>)"
| "handle (On_removed rt i) ob =
     (let ob' = drop_active i ob in ob'\<lparr>ob_finished := (ob_finished ob')(i := None)\<rparr>)"

definition observe :: "string list \<Rightarrow> (string \<Rightarrow> (string \<times> string) list) \<Rightarrow> detector \<times> observer
    \<Rightarrow> (detector \<times> observer) \<times> pyexc option" where
  "observe paths ids s =
     (case refresh paths ids (fst s) of (d, cbs, e) \<Rightarrow> ((d, fold handle cbs (snd s)), e))"

definition task_id_count :: "detector \<Rightarrow> nat \<times> nat \<times> nat" where
  "task_id_count d = (length (dt_active d), length (dt_finished d), length (dt_active d) + length (dt_finished d))"

section \<open>Questions about one task\<close>

text \<open>\<open>states\<close> is the state that a known task's checkpoint gives.\<close>

definition raw_state :: "observer \<Rightarrow> (string \<Rightarrow> runner_state) \<Rightarrow> string \<Rightarrow> runner_state option" where
  "raw_state ob states i = (if all_tasks ob i = None then None else Some (states i))"

definition headed_state :: "observer \<Rightarrow> (string \<Rightarrow> runner_state) \<Rightarrow> string \<Rightarrow> (runner_header \<times> runner_state) option" where
  "headed_state ob states i =
     (case raw_state ob states i of
        None \<Rightarrow> None
      | Some st \<Rightarrow> (case rs_header st of None \<Rightarrow> None | Some h \<Rightarrow> Some (h, st)))"

definition task_state_dict :: "observer \<Rightarrow> (string \<Rightarrow> runner_state) \<Rightarrow> string
    \<Rightarrow> (string \<times> rat \<times> string \<times> string \<times> string) option" where
  "task_state_dict ob states i =
     (case headed_state ob states i of
        None \<Rightarrow> None
      | Some (h, _) \<Rightarrow> Some (rh_task_id h, of_int (rh_launch_time_ms h) / 1000, rh_sandbox h, rh_hostname h, rh_user h))"

datatype bucket = Waiting | Running | Success | Failed | Killed

definition bucket_of :: "process_status list \<Rightarrow> bucket" where
  "bucket_of runs =
     (case last_opt runs of
        None \<Rightarrow> Waiting
      | Some run \<Rightarrow>
          (case ps_state run of
             None \<Rightarrow> Waiting | Some P_WAITING \<Rightarrow> Waiting | Some P_LOST \<Rightarrow> Waiting
           | Some P_FORKED \<Rightarrow> Running | Some P_RUNNING \<Rightarrow> Running
           | Some P_SUCCESS \<Rightarrow> Success | Some P_FAILED \<Rightarrow> Failed | Some P_KILLED \<Rightarrow> Killed))"

text \<open>\<^verbatim>\<open>_task_processes\<close>: the names in a bucket; \<open>names\<close> are the keys of the process table in
  their order.\<close>

definition task_processes :: "observer \<Rightarrow> (string \<Rightarrow> runner_state) \<Rightarrow> string option list \<Rightarrow> string
    \<Rightarrow> bucket \<Rightarrow> string option list" where
  "task_processes ob states names i b =
     (case headed_state ob states i of
        None \<Rightarrow> []
      | Some (_, st) \<Rightarrow>
          filter (\<lambda>n. case rs_processes st n of None \<Rightarrow> False | Some runs \<Rightarrow> bucket_of runs = b) names)"

text \<open>The loop of \<^verbatim>\<open>_task\<close> that looks for the transition into the current state.  \<open>previous\<close> starts as
  the first status object, which equals no state.\<close>

fun state_timestamp :: "task_state option \<Rightarrow> task_state option option \<Rightarrow> rat \<Rightarrow> task_status list
    \<Rightarrow> pyexc + rat" where
  "state_timestamp current previous t [] = Inr t"
| "state_timestamp current previous t (s # ss) =
     (if ts_state s = current \<and> previous \<noteq> Some current then
        (case ts_timestamp_ms s of
           None \<Rightarrow> Inl TypeError
         | Some ms \<Rightarrow> state_timestamp current (Some (ts_state s)) (of_int ms / 1000) ss)
      else state_timestamp current (Some (ts_state s)) t ss)"

record task_info =
  ti_launch :: rat
  ti_state :: task_state
  ti_state_timestamp :: rat
  ti_user :: string
  ti_ports :: "(string \<times> int) list"

text \<open>\<^verbatim>\<open>_task\<close> without the resource sample and the process lists; \<open>readable\<close> says whether the task's
  configuration can be read.  No state, or an empty list of them, raises.\<close>

definition task_of :: "observer \<Rightarrow> (string \<Rightarrow> runner_state) \<Rightarrow> (string \<Rightarrow> bool) \<Rightarrow> string
    \<Rightarrow> pyexc + task_info option" where
  "task_of ob states readable i =
     (if all_tasks ob i = None \<or> \<not> readable i then Inr None
      else case headed_state ob states i of
             None \<Rightarrow> Inr None
           | Some (h, st) \<Rightarrow>
               (case rs_statuses st of
                  None \<Rightarrow> Inl TypeError
                | Some [] \<Rightarrow> Inl IndexError
                | Some (s # ss) \<Rightarrow>
                    rbind (state_timestamp (ts_state (last (s # ss))) None 0 (s # ss)) (\<lambda>t.
                      case ts_timestamp_ms s of
                        None \<Rightarrow> Inl TypeError
                      | Some ms \<Rightarrow>
                          (case ts_state (last (s # ss)) of
                             None \<Rightarrow> Inl KeyError
                           | Some c \<Rightarrow> Inr (Some \<lparr>ti_launch = of_int ms / 1000, ti_state = c,
                               ti_state_timestamp = t, ti_user = rh_user h, ti_ports = rh_ports h\<rparr>)))))"

section \<open>Process runs\<close>

text \<open>Python's \<^verbatim>\<open>xs[i]\<close>, counting from the end for a negative \<open>i\<close>.\<close>

definition py_index :: "'a list \<Rightarrow> int \<Rightarrow> pyexc + 'a" where
  "py_index xs i =
     (if - int (length xs) \<le> i \<and> i < int (length xs)
      then Inr (xs ! nat (if i < 0 then i + int (length xs) else i)) else Inl IndexError)"

record process_tuple =
  pt_process :: "string option"
  pt_run :: int
  pt_state :: process_state
  pt_start :: "rat option"
  pt_stop :: "rat option"
  pt_return_code :: "int option"

definition truthy :: "('a::zero) option \<Rightarrow> 'a option" where
  "truthy x = (if x = Some 0 then None else x)"

definition get_process_tuple :: "process_status list \<Rightarrow> int \<Rightarrow> pyexc + process_tuple option" where
  "get_process_tuple history run =
     (if history = [] \<or> run \<ge> int (length history) then Inr None
      else rbind (py_index history run) (\<lambda>p.
        case ps_state p of
          None \<Rightarrow> Inl KeyError
        | Some s \<Rightarrow> Inr (Some \<lparr>pt_process = ps_process p, pt_run = run mod int (length history), pt_state = s,
            pt_start = truthy (ps_start_time p), pt_stop = truthy (ps_stop_time p),
            pt_return_code = truthy (ps_return_code p)\<rparr>)))"

definition process_info :: "observer \<Rightarrow> (string \<Rightarrow> runner_state) \<Rightarrow> string \<Rightarrow> string option \<Rightarrow> int option
    \<Rightarrow> pyexc + process_tuple option" where
  "process_info ob states i p run =
     (case headed_state ob states i of
        None \<Rightarrow> Inr None
      | Some (_, st) \<Rightarrow>
          (case rs_processes st p of
             None \<Rightarrow> Inr None
           | Some history \<Rightarrow> get_process_tuple history (case run of None \<Rightarrow> -1 | Some r \<Rightarrow> r)))"

text \<open>\<^verbatim>\<open>get_run_number\<close>: an unknown process raises, a run that is too large gives nothing.\<close>

definition get_run_number :: "runner_state \<Rightarrow> string option \<Rightarrow> int option \<Rightarrow> pyexc + int option" where
  "get_run_number st p run =
     (case rs_processes st p of
        None \<Rightarrow> Inl KeyError
      | Some history \<Rightarrow>
          (let r = (case run of None \<Rightarrow> -1 | Some k \<Rightarrow> k) in
           Inr (if r < int (length history) \<and> history \<noteq> [] then Some (r mod int (length history)) else None)))"

section \<open>Paths inside a sandbox\<close>

text \<open>\<^verbatim>\<open>os.path.join\<close> of two parts, and \<^verbatim>\<open>os.path.relpath\<close> of normal absolute paths.\<close>

definition join_path :: "string \<Rightarrow> string \<Rightarrow> string" where
  "join_path a b =
     (if b \<noteq> [] \<and> hd b = CHR ''/'' then b
      else if a = [] \<or> last a = CHR ''/'' then a @ b else a @ ''/'' @ b)"

fun components :: "string \<Rightarrow> string list" where
  "components [] = [[]]"
| "components (c # cs) = (if c = CHR ''/'' then [] # components cs
     else (case components cs of [] \<Rightarrow> [[c]] | x # xs \<Rightarrow> (c # x) # xs))"

fun drop_common :: "string list \<Rightarrow> string list \<Rightarrow> string list \<times> string list" where
  "drop_common (x # xs) (y # ys) = (if x = y then drop_common xs ys else (x # xs, y # ys))"
| "drop_common xs ys = (xs, ys)"

fun join_slash :: "string list \<Rightarrow> string" where
  "join_slash [] = ''.''"
| "join_slash [x] = x"
| "join_slash (x # xs) = x @ ''/'' @ join_slash xs"

definition parts :: "string \<Rightarrow> string list" where
  "parts p = filter (\<lambda>x. x \<noteq> []) (components p)"

definition relpath :: "string \<Rightarrow> string \<Rightarrow> string" where
  "relpath path start =
     (case drop_common (parts start) (parts path) of
        (up, down) \<Rightarrow> join_slash (map (\<lambda>_. ''..'') up @ down))"

definition startswith :: "string \<Rightarrow> string \<Rightarrow> bool" where
  "startswith s p = (take (length p) s = p)"

text \<open>\<open>realpath\<close> is the file system's.\<close>

definition sanitize_path :: "(string \<Rightarrow> string) \<Rightarrow> string \<Rightarrow> string option \<Rightarrow> (string \<times> string) option" where
  "sanitize_path realpath base rel =
     (let nbase = realpath base;
          n = realpath (join_path base (case rel of None \<Rightarrow> ''.'' | Some r \<Rightarrow> r))
      in if startswith n nbase then Some (nbase, relpath n nbase) else None)"

definition valid_path :: "(string \<Rightarrow> string) \<Rightarrow> (string \<Rightarrow> bool) \<Rightarrow> observer \<Rightarrow> (string \<Rightarrow> runner_state) \<Rightarrow> string
    \<Rightarrow> string option \<Rightarrow> (string \<times> string) option" where
  "valid_path realpath exists ob states i path =
     (case headed_state ob states i of
        None \<Rightarrow> None
      | Some (h, _) \<Rightarrow>
          (case sanitize_path realpath (rh_sandbox h) path of
             None \<Rightarrow> None
           | Some (chroot, p) \<Rightarrow> if chroot \<noteq> [] \<and> p \<noteq> [] \<and> exists (join_path chroot p) then Some (chroot, p) else None))"

definition valid_file :: "(string \<Rightarrow> string) \<Rightarrow> (string \<Rightarrow> bool) \<Rightarrow> (string \<Rightarrow> bool) \<Rightarrow> observer
    \<Rightarrow> (string \<Rightarrow> runner_state) \<Rightarrow> string \<Rightarrow> string option \<Rightarrow> (string \<times> string) option" where
  "valid_file realpath exists isfile ob states i path =
     (case valid_path realpath exists ob states i path of
        None \<Rightarrow> None
      | Some (chroot, p) \<Rightarrow> if isfile (join_path chroot p) then Some (chroot, p) else None)"

section \<open>Pages of tasks\<close>

text \<open>Python's slice \<^verbatim>\<open>xs[a:b]\<close> with bounds counted from the end when they are negative.\<close>

definition py_slice :: "int \<Rightarrow> int \<Rightarrow> 'a list \<Rightarrow> 'a list" where
  "py_slice a b xs =
     (let n = int (length xs);
          norm = (\<lambda>k. if k < 0 then max 0 (k + n) else min k n)
      in take (nat (norm b - norm a)) (drop (nat (norm a)) xs))"

definition page :: "int option \<Rightarrow> int option \<Rightarrow> 'a list \<Rightarrow> 'a list \<times> int \<times> int" where
  "page offset num xs =
     (let o1 = (case offset of None \<Rightarrow> 0 | Some k \<Rightarrow> k);
          n = (case num of None \<Rightarrow> 20 | Some k \<Rightarrow> if k = 0 then 20 else k);
          o2 = (if o1 < 0 then (if int (length xs) > \<bar>o1\<bar> then o1 mod int (length xs) else 0) else o1)
      in (py_slice o2 (n + o2) xs, o2, n))"

text \<open>\<^verbatim>\<open>sorted(..., key=mtime, reverse=True)\<close>: stable, and a missing time cannot be compared with any
  other.\<close>

definition by_mtime :: "(string \<times> rat option) list \<Rightarrow> pyexc + string list" where
  "by_mtime ts =
     (if 2 \<le> length ts \<and> (\<exists>t\<in>set ts. snd t = None) then Inl TypeError
      else Inr (map fst (rev (sort_key (\<lambda>t. case snd t of None \<Rightarrow> 0 | Some m \<Rightarrow> m) (rev ts)))))"

definition tasks_page :: "(string \<times> rat option) list \<Rightarrow> int option \<Rightarrow> int option \<Rightarrow> pyexc + string list \<times> int \<times> int" where
  "tasks_page ts offset num = rbind (by_mtime ts) (\<lambda>ids. Inr (page offset num ids))"

section \<open>The tables follow the disk\<close>

text \<open>\<open>home\<close> gives the root of a task id: ids are unique across the roots.\<close>

definition at_home :: "(string \<Rightarrow> string) \<Rightarrow> task \<Rightarrow> bool" where
  "at_home home t = (fst t = home (snd t))"

definition mirrors :: "(string \<Rightarrow> string) \<Rightarrow> task set \<Rightarrow> task set \<Rightarrow> observer \<Rightarrow> bool" where
  "mirrors home A F ob =
     (ob_active ob = (\<lambda>i. if (home i, i) \<in> A then Some (home i) else None) \<and>
      ob_finished ob = (\<lambda>i. if (home i, i) \<in> F then Some (home i) else None))"

definition follows :: "(string \<Rightarrow> string) \<Rightarrow> detector \<Rightarrow> observer \<Rightarrow> bool" where
  "follows home d ob =
     (mirrors home (set (dt_active d)) (set (dt_finished d)) ob \<and>
      (\<forall>t\<in>set (dt_active d) \<union> set (dt_finished d). at_home home t))"

lemma mirrors_active:
  "mirrors home A F ob \<Longrightarrow> at_home home t \<Longrightarrow> t \<notin> F \<Longrightarrow>
     mirrors home (insert t A) F (handle (On_active (fst t) (snd t)) ob)"
  by (cases t) (auto simp: mirrors_def at_home_def fun_eq_iff)

lemma drop_active_mirrors:
  "mirrors home A F ob \<Longrightarrow> at_home home t \<Longrightarrow> mirrors home (A - {t}) F (drop_active (snd t) ob)"
  by (cases t) (auto simp: mirrors_def at_home_def drop_active_def fun_eq_iff)

lemma mirrors_finished:
  "mirrors home A F ob \<Longrightarrow> at_home home t \<Longrightarrow>
     mirrors home (A - {t}) (insert t F) (handle (On_finished (fst t) (snd t)) ob)"
  using drop_active_mirrors [of home A F ob t]
  by (cases t) (auto simp: mirrors_def at_home_def fun_eq_iff Let_def)

lemma mirrors_removed:
  "mirrors home A F ob \<Longrightarrow> at_home home t \<Longrightarrow>
     mirrors home (A - {t}) (F - {t}) (handle (On_removed (fst t) (snd t)) ob)"
  using drop_active_mirrors [of home A F ob t]
  by (cases t) (auto simp: mirrors_def at_home_def fun_eq_iff Let_def)

text \<open>A scan that sees every task once, in a known state, and no finished task active again.\<close>

definition with_status :: "string \<Rightarrow> (task \<times> string) list \<Rightarrow> task set" where
  "with_status s items = {t. (t, s) \<in> set items}"

definition clean_scan :: "(string \<Rightarrow> string) \<Rightarrow> (task \<times> string) list \<Rightarrow> detector \<Rightarrow> bool" where
  "clean_scan home items d =
     (distinct (map fst items) \<and> (\<forall>x\<in>set items. at_home home (fst x) \<and>
        (snd x = ''finished'' \<or> snd x = ''active'' \<and> fst x \<notin> set (dt_finished d))))"

lemma set_add_set [simp]: "set (set_add x xs) = insert x (set xs)"
  by (auto simp: set_add_def)

lemma with_status_Cons:
  "with_status s ((t, u) # ts) = (if u = s then insert t (with_status s ts) else with_status s ts)"
  by (auto simp: with_status_def)

lemma with_status_Nil [simp]: "with_status s [] = {}"
  by (simp add: with_status_def)

lemma clean_scan_Cons:
  "clean_scan home ((t, s) # ts) d \<Longrightarrow> clean_scan home ts d \<and> at_home home t \<and>
     (s = ''finished'' \<or> s = ''active'' \<and> t \<notin> set (dt_finished d)) \<and>
     t \<notin> with_status ''active'' ts \<and> t \<notin> with_status ''finished'' ts"
  by (force simp: clean_scan_def with_status_def)

lemma clean_scan_more:
  "clean_scan home ts d \<Longrightarrow> t \<notin> with_status ''active'' ts \<Longrightarrow> set (dt_finished d') \<subseteq> insert t (set (dt_finished d)) \<Longrightarrow>
     clean_scan home ts d'"
  by (fastforce simp: clean_scan_def with_status_def)

definition scanned :: "(string \<Rightarrow> string) \<Rightarrow> (task \<times> string) list \<Rightarrow> detector \<Rightarrow> task list \<times> task list \<Rightarrow> observer
    \<Rightarrow> scan \<Rightarrow> bool" where
  "scanned home items d seen ob r =
     (case r of (d', (act', fin'), cbs, ok) \<Rightarrow> ok \<and>
        set act' = set (fst seen) \<union> with_status ''active'' items \<and>
        set fin' = set (snd seen) \<union> with_status ''finished'' items \<and>
        set (dt_active d') = set (dt_active d) - with_status ''finished'' items \<union> with_status ''active'' items \<and>
        set (dt_finished d') = set (dt_finished d) \<union> with_status ''finished'' items \<and>
        follows home d' (fold handle cbs ob))"

lemma scan_tasks_scanned:
  "clean_scan home items d \<Longrightarrow> follows home d ob \<Longrightarrow> set (dt_active d) \<inter> set (dt_finished d) = {} \<Longrightarrow>
     scanned home items d (act, fin) ob (scan_tasks items d (act, fin))"
proof (induction items arbitrary: d act fin ob)
  case Nil
  then show ?case by (auto simp: scanned_def)
next
  case (Cons x ts)
  obtain t s where x: "x = (t, s)" by (cases x)
  note c = clean_scan_Cons [OF Cons.prems(1) [unfolded x]]
  have m: "mirrors home (set (dt_active d)) (set (dt_finished d)) ob"
    and h: "\<forall>t\<in>set (dt_active d) \<union> set (dt_finished d). at_home home t"
    using Cons.prems(2) by (simp_all add: follows_def)
  consider (known_active) "s = ''active''" "t \<in> set (dt_active d)"
    | (new_active) "s = ''active''" "t \<notin> set (dt_active d)" "t \<notin> set (dt_finished d)"
    | (moved) "s = ''finished''" "t \<in> set (dt_active d)"
    | (known_finished) "s = ''finished''" "t \<notin> set (dt_active d)" "t \<in> set (dt_finished d)"
    | (new_finished) "s = ''finished''" "t \<notin> set (dt_active d)" "t \<notin> set (dt_finished d)"
    using c by blast
  then show ?case
  proof cases
    case known_active
    have "scanned home ts d (set_add t act, fin) ob (scan_tasks ts d (set_add t act, fin))"
      by (rule Cons.IH) (use c Cons.prems in auto)
    then show ?thesis using known_active c
      by (auto simp: x scanned_def with_status_Cons split: prod.splits)
  next
    case new_active
    let ?d = "d\<lparr>dt_active := dt_active d @ [t]\<rparr>" and ?ob = "handle (On_active (fst t) (snd t)) ob"
    have f: "follows home ?d ?ob"
      using mirrors_active [OF m, of t] c new_active(3) h by (simp add: follows_def)
    have "scanned home ts ?d (set_add t act, fin) ?ob (scan_tasks ts ?d (set_add t act, fin))"
      by (rule Cons.IH) (use c Cons.prems f new_active in \<open>auto intro: clean_scan_more\<close>)
    then show ?thesis using new_active c
      by (auto simp: x scanned_def with_status_Cons split: prod.splits)
  next
    case moved
    let ?d = "d\<lparr>dt_active := filter (\<lambda>u. u \<noteq> t) (dt_active d), dt_finished := set_add t (dt_finished d)\<rparr>"
    let ?ob = "handle (On_finished (fst t) (snd t)) ob"
    have "set (filter (\<lambda>u. u \<noteq> t) (dt_active d)) = set (dt_active d) - {t}" by auto
    then have f: "follows home ?d ?ob"
      using mirrors_finished [OF m, of t] c h by (auto simp: follows_def)
    have "scanned home ts ?d (act, set_add t fin) ?ob (scan_tasks ts ?d (act, set_add t fin))"
      by (rule Cons.IH) (use c Cons.prems f moved in \<open>auto intro: clean_scan_more\<close>)
    then show ?thesis using moved c
      by (auto simp: x scanned_def with_status_Cons split: prod.splits)
  next
    case known_finished
    have "scanned home ts d (act, set_add t fin) ob (scan_tasks ts d (act, set_add t fin))"
      by (rule Cons.IH) (use c Cons.prems in auto)
    then show ?thesis using known_finished c
      by (auto simp: x scanned_def with_status_Cons split: prod.splits)
  next
    case new_finished
    let ?d = "d\<lparr>dt_finished := dt_finished d @ [t]\<rparr>"
    let ?ob = "handle (On_finished (fst t) (snd t)) (handle (On_active (fst t) (snd t)) ob)"
    have "mirrors home (insert t (set (dt_active d)) - {t}) (insert t (set (dt_finished d))) ?ob"
      using mirrors_finished [OF mirrors_active [OF m]] c new_finished by blast
    moreover have "insert t (set (dt_active d)) - {t} = set (dt_active d)" using new_finished(2) by auto
    ultimately have f: "follows home ?d ?ob" using c h by (simp add: follows_def)
    have "scanned home ts ?d (act, set_add t fin) ?ob (scan_tasks ts ?d (act, set_add t fin))"
      by (rule Cons.IH) (use c Cons.prems f new_finished in \<open>auto intro: clean_scan_more\<close>)
    then show ?thesis using new_finished c
      by (auto simp: x scanned_def with_status_Cons split: prod.splits)
  qed
qed

lemma fold_gone:
  "mirrors home A F ob \<Longrightarrow> \<forall>t\<in>set ts. at_home home t \<Longrightarrow>
     mirrors home (A - set ts) (F - set ts)
       (fold handle (concat (map (\<lambda>t. [On_finished (fst t) (snd t), On_removed (fst t) (snd t)]) ts)) ob)"
proof (induction ts arbitrary: A F ob)
  case (Cons t ts)
  have t: "at_home home t" using Cons.prems(2) by simp
  have "mirrors home (A - {t} - {t}) (insert t F - {t})
      (handle (On_removed (fst t) (snd t)) (handle (On_finished (fst t) (snd t)) ob))"
    by (rule mirrors_removed [OF mirrors_finished [OF Cons.prems(1) t] t])
  moreover have "A - {t} - {t} - set ts = A - set (t # ts)" "insert t F - {t} - set ts = F - set (t # ts)" by auto
  ultimately show ?case using Cons.IH Cons.prems(2) by fastforce
qed simp

lemma fold_removed:
  "mirrors home A F ob \<Longrightarrow> \<forall>t\<in>set ts. at_home home t \<Longrightarrow>
     mirrors home (A - set ts) (F - set ts) (fold handle (map (\<lambda>t. On_removed (fst t) (snd t)) ts) ob)"
proof (induction ts arbitrary: A F ob)
  case (Cons t ts)
  have "mirrors home (A - {t}) (F - {t}) (handle (On_removed (fst t) (snd t)) ob)"
    by (rule mirrors_removed [OF Cons.prems(1)]) (use Cons.prems(2) in simp)
  moreover have "A - {t} - set ts = A - set (t # ts)" "F - {t} - set ts = F - set (t # ts)" by auto
  ultimately show ?case using Cons.IH Cons.prems(2) by fastforce
qed simp

lemma refresh_detectors_sets [simp]:
  "dt_active (refresh_detectors paths d) = dt_active d" "dt_finished (refresh_detectors paths d) = dt_finished d"
  "follows home (refresh_detectors paths d) ob = follows home d ob"
  "clean_scan home items (refresh_detectors paths d) = clean_scan home items d"
  by (simp_all add: refresh_detectors_def follows_def clean_scan_def Let_def)

lemma clean_scan_disjoint:
  "clean_scan home items d \<Longrightarrow> with_status ''active'' items \<inter> with_status ''finished'' items = {}"
  by (force simp: clean_scan_def with_status_def dest: eq_key_imp_eq_value)

lemma observe_follows:
  assumes "follows home d ob" "set (dt_active d) \<inter> set (dt_finished d) = {}"
    and items: "items = iter_tasks ids (refresh_detectors paths d)" "clean_scan home items d"
    and run: "observe paths ids (d, ob) = ((d', ob'), e)"
  shows "e = None \<and> follows home d' ob' \<and> set (dt_active d') = with_status ''active'' items \<and>
    set (dt_finished d') = with_status ''finished'' items"
proof -
  let ?d = "refresh_detectors paths d"
  obtain d1 act fin cbs ok where s: "scan_tasks items ?d ([], []) = (d1, (act, fin), cbs, ok)"
    by (metis prod.collapse)
  have sc: "scanned home items ?d ([], []) ob (d1, (act, fin), cbs, ok)"
    using scan_tasks_scanned [of home items ?d ob "[]" "[]"] assms s by simp
  then have ok: "ok" and act: "set act = with_status ''active'' items" and fin: "set fin = with_status ''finished'' items"
    and d1: "set (dt_active d1) = set (dt_active d) - with_status ''finished'' items \<union> with_status ''active'' items"
      "set (dt_finished d1) = set (dt_finished d) \<union> with_status ''finished'' items"
    and fol: "follows home d1 (fold handle cbs ob)"
    by (simp_all add: scanned_def)
  let ?alive = "set (act @ fin)"
  let ?g = "filter (\<lambda>t. t \<notin> ?alive) (dt_active d1)" and ?k = "filter (\<lambda>t. t \<notin> ?alive) (dt_finished d1)"
  have res: "d' = d1\<lparr>dt_active := act, dt_finished := fin\<rparr>" "e = None"
    "ob' = fold handle (removals d1 (act @ fin)) (fold handle cbs ob)"
    using run s ok by (auto simp: observe_def refresh_def Let_def items(1))
  have home: "\<forall>t\<in>set ?g. at_home home t" "\<forall>t\<in>set ?k. at_home home t"
    using fol by (auto simp: follows_def)
  have "mirrors home (set (dt_active d1) - set ?g - set ?k) (set (dt_finished d1) - set ?g - set ?k) ob'"
    using fold_removed [OF fold_gone [OF _ home(1)] home(2)] fol
    by (simp add: res(3) removals_def follows_def)
  moreover have "set (dt_active d1) - set ?g - set ?k = set act"
    using d1 act fin clean_scan_disjoint [OF items(2)] by auto
  moreover have "set (dt_finished d1) - set ?g - set ?k = set fin"
    using d1 act fin clean_scan_disjoint [OF items(2)] assms(2) items(2) by (auto simp: clean_scan_def with_status_def)
  moreover have "\<forall>t\<in>set act \<union> set fin. at_home home t"
    using items(2) by (auto simp: act fin clean_scan_def with_status_def)
  ultimately show ?thesis using res act fin by (simp add: follows_def)
qed

section \<open>Answers\<close>

lemma state_timestamp_prefix:
  "\<forall>s\<in>set pre. ts_timestamp_ms s \<noteq> None \<Longrightarrow>
     \<exists>t'. state_timestamp cur prev t (pre @ rest) =
       state_timestamp cur (if pre = [] then prev else Some (ts_state (last pre))) t' rest"
proof (induction pre arbitrary: prev t)
  case (Cons s pre)
  obtain ms where "ts_timestamp_ms s = Some ms" using Cons.prems by auto
  then show ?case
    using Cons.IH [of "Some (ts_state s)"] Cons.prems by (cases "ts_state s = cur \<and> prev \<noteq> Some cur") auto
qed auto

lemma state_timestamp_same:
  "\<forall>s\<in>set ss. ts_state s = cur \<Longrightarrow> state_timestamp cur (Some cur) t ss = Inr t"
  by (induction ss) auto

lemma bucket_of_total:
  "\<exists>!b. n \<in> set (task_processes ob states [n] i b)" if "headed_state ob states i = Some (h, st)" "rs_processes st n \<noteq> None"
  using that by (auto simp: task_processes_def)

lemma get_process_tuple_run:
  assumes "get_process_tuple history run = Inr (Some t)"
  shows "0 \<le> pt_run t \<and> pt_run t < int (length history) \<and>
    Some (pt_state t) = ps_state (history ! nat (pt_run t))"
proof -
  have r: "history \<noteq> []" "run < int (length history)" "- int (length history) \<le> run"
    using assms by (auto simp: get_process_tuple_def py_index_def split: if_splits)
  have "run mod int (length history) = (if run < 0 then run + int (length history) else run)"
  proof (cases "run < 0")
    case True
    have "(run + int (length history)) mod int (length history) = run + int (length history)"
      by (rule mod_pos_pos_trivial) (use r True in auto)
    then show ?thesis using True by simp
  qed (use r in \<open>simp add: mod_pos_pos_trivial\<close>)
  then show ?thesis
    using assms r by (auto simp: get_process_tuple_def py_index_def rbind_Inr_iff split: option.splits if_splits)
qed

definition inside :: "string \<Rightarrow> string \<Rightarrow> bool" where
  "inside base p = (p = base \<or> startswith p (base @ ''/''))"

lemma startswith_append: "startswith p b \<longleftrightarrow> (\<exists>s. p = b @ s)"
  by (metis append_eq_conv_conj startswith_def append_take_drop_id)

text \<open>C34: after a scan that sees every task once, in a known state, with unique ids and no finished
  task active again, the refresh raises nothing and the observer's tables hold exactly what the disk
  holds: a task is in the active table under its root when its active file was seen, in the table
  of finished tasks when its finished file was seen, and in neither otherwise.  This is kept from scan
  to scan.\<close>

theorem observer_follows_disk:
  assumes "follows home d ob" "set (dt_active d) \<inter> set (dt_finished d) = {}"
    "items = iter_tasks ids (refresh_detectors paths d)" "clean_scan home items d"
    "observe paths ids (d, ob) = ((d', ob'), e)"
  shows "e = None \<and> follows home d' ob' \<and> set (dt_active d') \<inter> set (dt_finished d') = {} \<and>
    ob_active ob' i = (if (home i, i) \<in> with_status ''active'' items then Some (home i) else None) \<and>
    ob_finished ob' i = (if (home i, i) \<in> with_status ''finished'' items then Some (home i) else None)"
  using observe_follows [OF assms] clean_scan_disjoint [OF assms(4)]
  by (simp add: follows_def mirrors_def)

theorem observer_follows_disk_witness:
  "\<exists>d ob. observe [''r''] (\<lambda>_. [(''active'', ''a''), (''finished'', ''b'')]) (new_detector, new_observer) = ((d, ob), None) \<and>
     ob_active ob ''a'' = Some ''r'' \<and> ob_finished ob ''b'' = Some ''r'' \<and> ob_active ob ''b'' = None"
proof -
  let ?ids = "\<lambda>_. [(''active'', ''a''), (''finished'', ''b'')]"
  let ?items = "iter_tasks ?ids (refresh_detectors [''r''] new_detector)"
  have items: "iter_tasks ?ids (refresh_detectors [''r''] new_detector) =
      [((''r'', ''a''), ''active''), ((''r'', ''b''), ''finished'')]"
    by (simp add: iter_tasks_def refresh_detectors_def new_detector_def)
  have f: "follows (\<lambda>_. ''r'') new_detector new_observer"
    by (simp add: follows_def mirrors_def new_detector_def new_observer_def)
  have c: "clean_scan (\<lambda>_. ''r'') ?items new_detector"
    unfolding items by (simp add: clean_scan_def at_home_def new_detector_def)
  obtain d ob e where r: "observe [''r''] ?ids (new_detector, new_observer) = ((d, ob), e)"
    by (metis prod.collapse)
  have n: "set (dt_active new_detector) \<inter> set (dt_finished new_detector) = {}" by (simp add: new_detector_def)
  show ?thesis
    using observer_follows_disk [OF f n refl c r] r unfolding items by (auto simp: with_status_def)
qed

text \<open>The check that keeps a path inside a sandbox compares strings, not directories: every path below
  the sandbox passes, but so does every path that merely continues its name, such as a file below
  a sibling directory, which is not inside.\<close>

theorem sanitize_accepts_siblings:
  assumes "n = realpath (join_path base rel)"
  shows "(inside (realpath base) n \<longrightarrow> sanitize_path realpath base (Some rel) \<noteq> None) \<and>
    (\<forall>c s. n = realpath base @ c # s \<and> c \<noteq> CHR ''/'' \<longrightarrow>
       sanitize_path realpath base (Some rel) = Some (realpath base, relpath n (realpath base)) \<and>
       \<not> inside (realpath base) n)"
  using assms by (auto simp: sanitize_path_def inside_def startswith_append Let_def)

theorem sanitize_accepts_siblings_witness:
  "\<exists>realpath. sanitize_path realpath ''/s/box'' (Some ''../box-old/key'') = Some (''/s/box'', ''../box-old/key'') \<and>
     \<not> inside ''/s/box'' ''/s/box-old/key''"
proof -
  let ?rp = "\<lambda>p. if p = ''/s/box/../box-old/key'' then ''/s/box-old/key'' else p"
  have n: "''/s/box-old/key'' = ?rp (join_path ''/s/box'' ''../box-old/key'')"
    by (simp add: join_path_def)
  have "sanitize_path ?rp ''/s/box'' (Some ''../box-old/key'') = Some (''/s/box'', relpath ''/s/box-old/key'' ''/s/box'') \<and>
      \<not> inside ''/s/box'' ''/s/box-old/key''"
    using sanitize_accepts_siblings [where realpath = ?rp, OF n] by simp
  moreover have "relpath ''/s/box-old/key'' ''/s/box'' = ''../box-old/key''"
    by (simp add: relpath_def parts_def)
  ultimately show ?thesis by (intro exI [of _ ?rp]) simp
qed

text \<open>The time reported for the state of a task is that of the transition into it: the first status of
  the last stretch of statuses with the current state.\<close>

theorem state_timestamp_transition:
  assumes "ss = pre @ s # blk" "\<forall>x\<in>set (s # blk). ts_state x = cur" "pre = [] \<or> ts_state (last pre) \<noteq> cur"
    and "\<forall>x\<in>set ss. ts_timestamp_ms x \<noteq> None" "ts_timestamp_ms s = Some ms"
  shows "state_timestamp cur None 0 ss = Inr (of_int ms / 1000)"
proof -
  obtain t where "state_timestamp cur None 0 ss =
      state_timestamp cur (if pre = [] then None else Some (ts_state (last pre))) t (s # blk)"
    using state_timestamp_prefix [of pre cur None 0 "s # blk"] assms(1,4) by auto
  then show ?thesis using assms(2,3,5) state_timestamp_same [of blk cur] by auto
qed

theorem state_timestamp_transition_witness:
  "state_timestamp (Some T_SUCCESS) None 0 (map (\<lambda>(s, m). \<lparr>ts_state = Some s, ts_timestamp_ms = Some m,
      ts_runner_pid = None, ts_runner_uid = None\<rparr>) [(T_ACTIVE, 1000), (T_SUCCESS, 3000), (T_SUCCESS, 4000)]) = Inr 3"
proof -
  let ?s = "\<lambda>s m. \<lparr>ts_state = Some s, ts_timestamp_ms = Some m, ts_runner_pid = None, ts_runner_uid = None\<rparr>"
  show ?thesis
    using state_timestamp_transition [of "[?s T_ACTIVE 1000, ?s T_SUCCESS 3000, ?s T_SUCCESS 4000]" "[?s T_ACTIVE 1000]"
        "?s T_SUCCESS 3000" "[?s T_SUCCESS 4000]" "Some T_SUCCESS" 3000]
    by simp
qed

end
