(* ===== verification/Schema.thy ===== *)
theory Schema
  imports Planner
begin

text \<open>
  The schema of a Thermos task (\<^verbatim>\<open>apache/thermos/config/schema_base.py\<close>), the combinators that
  build tasks of tasks (\<^verbatim>\<open>schema_helpers.py\<close>) and the validator of tasks (\<^verbatim>\<open>loader.py\<close>).  A field
  that may be \<^verbatim>\<open>Empty\<close> is an option.  Pystachio itself is outside the repository: what its type
  check and its interpolation answer are fields of a \<open>task_view\<close>.  The lists that the code takes
  out of a Python set have no order it could use; here they keep the first of equal elements.
\<close>

section \<open>Processes and tasks\<close>

record resources =
  rs_cpu :: "rat option"
  rs_ram :: "int option"
  rs_disk :: "int option"
  rs_gpu :: "int option"

record rotate_policy =
  rp_log_size :: int
  rp_backups :: int

record logger =
  lg_destination :: string
  lg_mode :: string
  lg_rotate :: "rotate_policy option"

record spec_process =
  sp_config :: process_config
  sp_cmdline :: string
  sp_resources :: "resources option"
  sp_logger :: "logger option"

record task_spec =
  ts_name :: "string option"
  ts_processes :: "spec_process list option"
  ts_constraints :: "string list list option"
  ts_resources :: "resources option"
  ts_max_failures :: int
  ts_max_concurrency :: int
  ts_finalization_wait :: "int option"
  ts_user :: "string option"

definition default_task :: task_spec where
  "default_task = \<lparr>ts_name = None, ts_processes = None, ts_constraints = Some [], ts_resources = None,
     ts_max_failures = 1, ts_max_concurrency = 0, ts_finalization_wait = Some 30, ts_user = None\<rparr>"

definition default_process :: "string \<Rightarrow> string \<Rightarrow> spec_process" where
  "default_process name cmdline =
     \<lparr>sp_config = \<lparr>pc_name = name, pc_daemon = False, pc_ephemeral = False, pc_max_failures = 1,
        pc_min_duration = 5, pc_final = False\<rparr>,
      sp_cmdline = cmdline, sp_resources = None, sp_logger = None\<rparr>"

abbreviation sp_name :: "spec_process \<Rightarrow> string" where
  "sp_name p \<equiv> pc_name (sp_config p)"

definition empty_resources :: resources where
  "empty_resources = \<lparr>rs_cpu = None, rs_ram = None, rs_disk = None, rs_gpu = Some 0\<rparr>"

definition zero_resources :: resources where
  "zero_resources = \<lparr>rs_cpu = Some 0, rs_ram = Some 0, rs_disk = Some 0, rs_gpu = Some 0\<rparr>"

section \<open>Units\<close>

definition safe_get :: "'a option \<Rightarrow> 'a::zero" where
  "safe_get u = (case u of None \<Rightarrow> 0 | Some x \<Rightarrow> x)"

definition optional_resources :: "resources option \<Rightarrow> resources" where
  "optional_resources r = (case r of None \<Rightarrow> empty_resources | Some x \<Rightarrow> x)"

definition add_resources :: "resources \<Rightarrow> resources \<Rightarrow> resources" where
  "add_resources a b =
     \<lparr>rs_cpu = Some (safe_get (rs_cpu a) + safe_get (rs_cpu b)),
      rs_ram = Some (safe_get (rs_ram a) + safe_get (rs_ram b)),
      rs_disk = Some (safe_get (rs_disk a) + safe_get (rs_disk b)),
      rs_gpu = Some (safe_get (rs_gpu a) + safe_get (rs_gpu b))\<rparr>"

definition max_resources :: "resources \<Rightarrow> resources \<Rightarrow> resources" where
  "max_resources a b =
     \<lparr>rs_cpu = Some (max (safe_get (rs_cpu a)) (safe_get (rs_cpu b))),
      rs_ram = Some (max (safe_get (rs_ram a)) (safe_get (rs_ram b))),
      rs_disk = Some (max (safe_get (rs_disk a)) (safe_get (rs_disk b))),
      rs_gpu = Some (max (safe_get (rs_gpu a)) (safe_get (rs_gpu b)))\<rparr>"

definition resources_sum :: "resources option list \<Rightarrow> resources" where
  "resources_sum rs = foldl add_resources zero_resources (map optional_resources rs)"

definition resources_max :: "resources option list \<Rightarrow> resources" where
  "resources_max rs = foldl max_resources zero_resources (map optional_resources rs)"

definition finalization_wait_sum :: "int option list \<Rightarrow> int" where
  "finalization_wait_sum ws = sum_list (map safe_get ws)"

definition finalization_wait_max :: "int option list \<Rightarrow> int" where
  "finalization_wait_max ws = foldl max 0 (map safe_get ws)"

datatype task_error = InvalidTaskError | InvalidTask | InvalidProcess | InvalidPorts

text \<open>Iterating \<^verbatim>\<open>Empty\<close> raises.\<close>

definition iterate :: "'a list option \<Rightarrow> (task_error, 'a list) res" where
  "iterate xs = (case xs of None \<Rightarrow> Inl (Py TypeError) | Some l \<Rightarrow> Inr l)"

definition processes_merge :: "task_spec list \<Rightarrow> (task_error, spec_process list) res" where
  "processes_merge tasks =
     rbind (traverse (\<lambda>t. iterate (ts_processes t)) tasks) (\<lambda>pss. Inr (remdups (concat pss)))"

definition constraints_merge :: "task_spec list \<Rightarrow> (task_error, string list list) res" where
  "constraints_merge tasks =
     rbind (traverse (\<lambda>t. iterate (ts_constraints t)) tasks) (\<lambda>css. Inr (remdups (concat css)))"

section \<open>Orders and combinations of tasks\<close>

datatype ordered = By_process spec_process | By_name string

fun process_name :: "ordered \<Rightarrow> string" where
  "process_name (By_process p) = sp_name p"
| "process_name (By_name n) = n"

definition order_of :: "ordered list \<Rightarrow> string list list" where
  "order_of ps = [map process_name ps]"

definition combine_processes :: "task_spec list \<Rightarrow> (task_error, task_spec) res" where
  "combine_processes tasks =
     (if tasks = [] then Inr default_task
      else rbind (processes_merge tasks) (\<lambda>ps. Inr ((last tasks)\<lparr>ts_processes := Some ps\<rparr>)))"

text \<open>\<open>kw\<close> sets the fields that the caller names besides the three.\<close>

definition combine_tasks :: "(task_spec \<Rightarrow> task_spec) \<Rightarrow> task_spec list \<Rightarrow> (task_error, task_spec) res" where
  "combine_tasks kw tasks =
     (if tasks = [] then Inr default_task
      else rbind (combine_processes tasks) (\<lambda>base. rbind (constraints_merge tasks) (\<lambda>cs.
        Inr (kw (base\<lparr>ts_resources := Some (resources_sum (map ts_resources tasks)),
          ts_constraints := Some cs,
          ts_finalization_wait := Some (finalization_wait_max (map ts_finalization_wait tasks))\<rparr>)))))"

definition order_between :: "spec_process list \<Rightarrow> spec_process list \<Rightarrow> string list list" where
  "order_between ps1 ps2 =
     concat (map (\<lambda>p1. concat (map (\<lambda>p2.
       if p1 \<noteq> p2 then order_of [By_process p1, By_process p2] else []) ps2)) ps1)"

definition orders_along :: "task_spec list \<Rightarrow> (task_error, string list list) res" where
  "orders_along tasks =
     rbind (traverse (\<lambda>(t1, t2). rbind (iterate (ts_processes t1)) (\<lambda>ps1.
         if ps1 = [] then Inr []
         else rbind (iterate (ts_processes t2)) (\<lambda>ps2. Inr (order_between ps1 ps2))))
       (zip (butlast tasks) (tl tasks))) (\<lambda>oss. Inr (concat oss))"

definition concat_tasks :: "(task_spec \<Rightarrow> task_spec) \<Rightarrow> task_spec list \<Rightarrow> (task_error, task_spec) res" where
  "concat_tasks kw tasks =
     (if tasks = [] then Inr default_task
      else rbind (combine_processes tasks) (\<lambda>base. rbind (constraints_merge tasks) (\<lambda>cs.
        rbind (orders_along tasks) (\<lambda>os.
        Inr (kw (base\<lparr>ts_resources := Some (resources_max (map ts_resources tasks)),
          ts_constraints := Some (cs @ os),
          ts_finalization_wait := Some (finalization_wait_sum (map ts_finalization_wait tasks))\<rparr>))))))"

definition simple_task :: "string \<Rightarrow> string \<Rightarrow> task_spec" where
  "simple_task name command =
     default_task\<lparr>ts_name := Some name, ts_processes := Some [default_process name command],
       ts_resources := Some \<lparr>rs_cpu = Some 1, rs_ram = Some (2 ^ 30), rs_disk = Some (2 ^ 30), rs_gpu = Some 0\<rparr>\<rparr>"

definition sequential_task :: "task_spec \<Rightarrow> (task_error, task_spec) res" where
  "sequential_task t =
     (if ts_constraints t = None \<or> ts_constraints t = Some [] then
        Inr (case ts_processes t of None \<Rightarrow> t
             | Some ps \<Rightarrow> t\<lparr>ts_constraints := Some (order_of (map By_process ps))\<rparr>)
      else Inl (Py ValueError))"

text \<open>Options: a value is what \<^verbatim>\<open>bool\<close> and \<^verbatim>\<open>str\<close> make of it.\<close>

type_synonym option_value = "bool \<times> string"

datatype option_arg = Plain string | Table "(string \<times> option_value) list"

definition render_option :: "string \<Rightarrow> string \<Rightarrow> string \<Rightarrow> option_value option \<Rightarrow> string" where
  "render_option short_prefix long_prefix opt v =
     (let opt = (if length opt = 1 then short_prefix else long_prefix) @ opt in
      case v of Some (True, s) \<Rightarrow> opt @ '' '' @ s | _ \<Rightarrow> opt)"

fun render_arg :: "string \<Rightarrow> string \<Rightarrow> option_arg \<Rightarrow> string list" where
  "render_arg s l (Plain opt) = [render_option s l opt None]"
| "render_arg s l (Table kvs) = map (\<lambda>(k, v). render_option s l k (Some v)) kvs"

definition render_options :: "string \<Rightarrow> string \<Rightarrow> option_arg list \<Rightarrow> (string \<times> option_value) list \<Rightarrow> string list" where
  "render_options s l args kws = concat (map (render_arg s l) args) @ render_arg s l (Table kws)"

fun join_with :: "string \<Rightarrow> string list \<Rightarrow> string" where
  "join_with sep [] = []"
| "join_with sep [x] = x"
| "join_with sep (x # xs) = x @ sep @ join_with sep xs"

definition java_options :: "option_arg list \<Rightarrow> (string \<times> option_value) list \<Rightarrow> string" where
  "java_options args kws = join_with '' '' (render_options ''-'' ''-'' args kws)"

definition python_options :: "option_arg list \<Rightarrow> (string \<times> option_value) list \<Rightarrow> string" where
  "python_options args kws = join_with '' '' (render_options ''-'' ''--'' args kws)"

section \<open>The validator of tasks\<close>

text \<open>A reference that interpolation leaves open, as the scope \<^verbatim>\<open>thermos.ports\<close> sees it: outside,
  an index \<^verbatim>\<open>thermos.ports[name]\<close>, or another access below the scope.\<close>

datatype open_ref = Outside string | Port_index string | Port_other string

fun extract_ports :: "open_ref list \<Rightarrow> (task_error, string list) res" where
  "extract_ports [] = Inr []"
| "extract_ports (Outside _ # rs) = extract_ports rs"
| "extract_ports (Port_index n # rs) = rbind (extract_ports rs) (\<lambda>ps. Inr (n # ps))"
| "extract_ports (Port_other _ # rs) = Inl (Own InvalidPorts)"

definition process_ports :: "open_ref list \<Rightarrow> (task_error, string list) res" where
  "process_ports refs =
     (case extract_ports refs of
        Inl (Own InvalidPorts) \<Rightarrow> Inl (Own InvalidProcess) | r \<Rightarrow> r)"

text \<open>The pattern \<^verbatim>\<open>^[^./][^/]*$\<close>.\<close>

definition valid_process_name :: "string \<Rightarrow> bool" where
  "valid_process_name name =
     (name \<noteq> [] \<and> hd name \<noteq> CHR ''.'' \<and> hd name \<noteq> CHR ''/'' \<and> CHR ''/'' \<notin> set (tl name))"

text \<open>What Pystachio answers about a task: the result of its type check, the references left open
  in the task and in each of its processes, and those that stay open when the given ports are bound.\<close>

record task_view =
  tv_spec :: task_spec
  tv_typechecks :: bool
  tv_open :: "open_ref list"
  tv_process_open :: "open_ref list list"
  tv_unbindable :: "string list \<Rightarrow> string list"

definition new_task_wrapper :: "bool \<Rightarrow> task_view \<Rightarrow> (task_error, task_view) res" where
  "new_task_wrapper strict t = (if \<not> tv_typechecks t \<and> strict then Inl (Own InvalidTask) else Inr t)"

definition task_ports :: "task_view \<Rightarrow> (task_error, string set) res" where
  "task_ports t =
     (case ts_processes (tv_spec t) of
        None \<Rightarrow> Inr {}
      | Some _ \<Rightarrow> (case traverse process_ports (tv_process_open t) of
            Inl (Own InvalidProcess) \<Rightarrow> Inl (Own InvalidTask)
          | Inl e \<Rightarrow> Inl e
          | Inr pss \<Rightarrow> Inr (set (concat pss))))"

definition plan_task :: "task_spec \<Rightarrow> spec_process list \<Rightarrow> task_config" where
  "plan_task t ps = \<lparr>tc_processes = map sp_config ps, tc_constraints = ts_constraints t\<rparr>"

text \<open>A planner of the task, with \<^verbatim>\<open>InvalidSchedule\<close> translated.\<close>

definition try_plan :: "task_spec \<Rightarrow> spec_process list \<Rightarrow> (process_config \<Rightarrow> bool) \<Rightarrow> (task_error, unit) res" where
  "try_plan t ps f =
     (case task_planner_init (plan_task t ps) (Some f) of
        Inl (Own InvalidSchedule) \<Rightarrow> Inl (Own InvalidTaskError)
      | Inl (Py e) \<Rightarrow> Inl (Py e)
      | Inr _ \<Rightarrow> Inr ())"

definition assert_valid_plan :: "task_spec \<Rightarrow> (task_error, unit) res" where
  "assert_valid_plan t =
     rbind (iterate (ts_processes t)) (\<lambda>ps.
     rbind (try_plan t ps (\<lambda>p. \<not> pc_final p)) (\<lambda>_. try_plan t ps pc_final))"

definition assert_valid_names :: "task_spec \<Rightarrow> (task_error, unit) res" where
  "assert_valid_names t =
     rbind (iterate (ts_processes t)) (\<lambda>ps.
       if list_all (\<lambda>p. valid_process_name (sp_name p)) ps then Inr () else Inl (Own InvalidTaskError))"

definition assert_typecheck :: "task_view \<Rightarrow> (task_error, unit) res" where
  "assert_typecheck t = (if tv_typechecks t then Inr () else Inl (Own InvalidTaskError))"

definition assert_all_refs_bound :: "task_view \<Rightarrow> (task_error, unit) res" where
  "assert_all_refs_bound t =
     rbind (extract_ports (tv_open t)) (\<lambda>ports.
       if tv_unbindable t ports = [] then Inr () else Inl (Own InvalidTaskError))"

definition assert_valid_task :: "task_view \<Rightarrow> (task_error, unit) res" where
  "assert_valid_task t =
     rbind (assert_valid_names (tv_spec t)) (\<lambda>_. rbind (assert_typecheck t) (\<lambda>_.
     rbind (assert_valid_plan (tv_spec t)) (\<lambda>_. assert_all_refs_bound t)))"

definition assert_valid_ports :: "task_view \<Rightarrow> string set \<Rightarrow> (task_error, unit) res" where
  "assert_valid_ports t portmap =
     rbind (new_task_wrapper True t) (\<lambda>w. rbind (task_ports w) (\<lambda>ports.
       if ports \<subseteq> portmap then Inr () else Inl (Own InvalidTaskError)))"

text \<open>The copy on disk: \<open>None\<close> if there is no file, \<open>Some None\<close> if it does not load.\<close>

definition assert_same_task :: "task_spec option option \<Rightarrow> task_spec \<Rightarrow> (task_error, unit) res" where
  "assert_same_task on_disk t =
     (case on_disk of None \<Rightarrow> Inr ()
      | Some loaded \<Rightarrow> if loaded = Some t then Inr () else Inl (Own InvalidTaskError))"

section \<open>Which constraints a planner accepts\<close>

definition adjacent :: "'a list \<Rightarrow> ('a \<times> 'a) set" where
  "adjacent names = set (zip names (tl names))"

lemma adjacent_simps [simp]:
  "adjacent [] = {}" "adjacent [a] = {}"
  "adjacent (a # b # rest) = insert (a, b) (adjacent (b # rest))"
  by (auto simp: adjacent_def)

lemma adjacent_sub: "(q, p) \<in> adjacent names \<Longrightarrow> q \<in> set names \<and> p \<in> set names"
  by (cases names) (auto simp: adjacent_def dest: set_zip_leftD set_zip_rightD)

definition order_legal :: "(string \<Rightarrow> process_config option) \<Rightarrow> string list \<Rightarrow> bool" where
  "order_legal pm names = (\<forall>(q, p)\<in>adjacent names. legal_dep pm q p)"

lemma add_order_iff:
  "set names \<subseteq> dom pm \<Longrightarrow>
     (case add_order pm names ds of
        Inl e \<Rightarrow> e = Own InvalidSchedule \<and> \<not> order_legal pm names
      | Inr ds' \<Rightarrow> order_legal pm names \<and>
          (\<forall>p. dep_set ds' p = dep_set ds p \<union> {q. (q, p) \<in> adjacent names}))"
proof (induction pm names ds rule: add_order.induct)
  case (1 pm a b rest ds)
  obtain pa pb where pm: "pm a = Some pa" "pm b = Some pb" using "1.prems" by auto
  let ?ds = "ds(b \<mapsto> insert a (case ds b of None \<Rightarrow> {} | Some s \<Rightarrow> s))"
  have upd: "dep_set ?ds p = dep_set ds p \<union> {q. (q, p) = (a, b)}" for p
    by (auto simp: dep_set_def split: option.splits)
  have ld: "legal_dep pm a b \<longleftrightarrow> \<not> pc_daemon pa \<and> (pc_ephemeral pa \<longrightarrow> pc_ephemeral pb)"
    using pm by (simp add: legal_dep_def)
  show ?case
  proof (cases "legal_dep pm a b")
    case False
    then have "add_order pm (a # b # rest) ds = Inl (Own InvalidSchedule)" using ld pm by auto
    then show ?thesis using False by (auto simp: order_legal_def)
  next
    case True
    have eq: "add_order pm (a # b # rest) ds = add_order pm (b # rest) ?ds" using True ld pm by auto
    have ol: "order_legal pm (a # b # rest) \<longleftrightarrow> order_legal pm (b # rest)"
      using True by (auto simp: order_legal_def)
    have IH: "case add_order pm (b # rest) ?ds of
        Inl e \<Rightarrow> e = Own InvalidSchedule \<and> \<not> order_legal pm (b # rest)
      | Inr ds' \<Rightarrow> order_legal pm (b # rest) \<and>
          (\<forall>p. dep_set ds' p = dep_set ?ds p \<union> {q. (q, p) \<in> adjacent (b # rest)})"
      by (rule "1.IH" [OF refl pm]) (use True ld pm "1.prems" in auto)
    show ?thesis
      using IH unfolding eq ol upd by (auto split: sum.splits)
  qed
qed (auto simp: order_legal_def)

definition adj_rel :: "'a list list \<Rightarrow> ('a \<times> 'a) set" where
  "adj_rel cs = (\<Union>c\<in>set cs. adjacent c)"

lemma adj_rel_simps [simp]:
  "adj_rel [] = {}" "adj_rel (c # cs) = adjacent c \<union> adj_rel cs" "adj_rel (cs @ ds) = adj_rel cs \<union> adj_rel ds"
  by (auto simp: adj_rel_def)

definition orders_legal :: "(string \<Rightarrow> process_config option) \<Rightarrow> string list list \<Rightarrow> bool" where
  "orders_legal pm cs = (\<forall>c\<in>set cs. c \<noteq> [] \<and> order_legal pm c)"

lemma add_constraints_iff:
  "set ps \<subseteq> dom pm \<Longrightarrow> \<forall>c\<in>set cs. set c \<subseteq> set ps \<Longrightarrow>
     (case add_constraints pm ps cs ds of
        Inl e \<Rightarrow> e = Own InvalidSchedule \<and> \<not> orders_legal pm cs
      | Inr ds' \<Rightarrow> orders_legal pm cs \<and> (\<forall>p. dep_set ds' p = dep_set ds p \<union> {q. (q, p) \<in> adj_rel cs}))"
proof (induction pm ps cs ds rule: add_constraints.induct)
  case (1 pm ps ds)
  then show ?case by (simp add: orders_legal_def)
next
  case (2 pm ps c cs ds)
  have sub: "list_all (\<lambda>n. n \<in> set ps) c" using "2.prems" by (auto simp: list_all_iff)
  have dis: "list_all (\<lambda>n. n \<notin> set ps) c \<longleftrightarrow> c = []"
    using sub by (cases c) (auto simp: list_all_iff)
  show ?case
  proof (cases "c = []")
    case True
    then show ?thesis by (simp add: orders_legal_def)
  next
    case False
    have eq: "add_constraints pm ps (c # cs) ds = rbind (add_order pm c ds) (add_constraints pm ps cs)"
      using False sub dis by (simp add: Let_def)
    have o: "case add_order pm c ds of
        Inl e \<Rightarrow> e = Own InvalidSchedule \<and> \<not> order_legal pm c
      | Inr ds' \<Rightarrow> order_legal pm c \<and> (\<forall>p. dep_set ds' p = dep_set ds p \<union> {q. (q, p) \<in> adjacent c})"
      by (rule add_order_iff) (use "2.prems" in auto)
    show ?thesis
    proof (cases "add_order pm c ds")
      case (Inl e)
      then show ?thesis using o unfolding eq by (auto simp: orders_legal_def)
    next
      case (Inr ds1)
      have IH: "case add_constraints pm ps cs ds1 of
          Inl e \<Rightarrow> e = Own InvalidSchedule \<and> \<not> orders_legal pm cs
        | Inr ds' \<Rightarrow> orders_legal pm cs \<and> (\<forall>p. dep_set ds' p = dep_set ds1 p \<union> {q. (q, p) \<in> adj_rel cs})"
        by (rule "2.IH"(2) [OF refl refl]) (use "2.prems" sub dis False in auto)
      show ?thesis
        using IH o Inr False unfolding eq by (auto simp: orders_legal_def split: sum.splits)
    qed
  qed
qed

definition plannable :: "process_config list \<Rightarrow> string list list \<Rightarrow> bool" where
  "plannable ps cs = (orders_legal (process_map ps) cs \<and> acyclic (adj_rel cs))"

lemma task_planner_iff:
  assumes all: "filter_processes f task = tc_processes task" and cs: "tc_constraints task = Some cs"
    and own: "\<forall>c\<in>set cs. set c \<subseteq> set (map pc_name (tc_processes task))"
  shows "case task_planner_init task f of
      Inl e \<Rightarrow> e = Own InvalidSchedule \<and> \<not> plannable (tc_processes task) cs
    | Inr tp \<Rightarrow> plannable (tc_processes task) cs \<and>
        set (pl_processes (tp_planner tp)) = set (map pc_name (tc_processes task)) \<and>
        (\<forall>p. dep_set (pl_dependencies (tp_planner tp)) p = {q. (q, p) \<in> adj_rel cs})"
proof -
  let ?ps = "tc_processes task" and ?names = "remdups (map pc_name (tc_processes task))"
  let ?pm = "process_map ?ps"
  have ac: "case add_constraints ?pm ?names cs Map.empty of
        Inl e \<Rightarrow> e = Own InvalidSchedule \<and> \<not> orders_legal ?pm cs
      | Inr ds' \<Rightarrow> orders_legal ?pm cs \<and> (\<forall>p. dep_set ds' p = dep_set Map.empty p \<union> {q. (q, p) \<in> adj_rel cs})"
  proof (rule add_constraints_iff)
    show "set ?names \<subseteq> dom ?pm" using set_filter_processes_names [of ?ps] by auto
  qed (use own in auto)
  have ex: "extract_dependencies task f = rbind (add_constraints ?pm ?names cs Map.empty) (\<lambda>ds. Inr (?names, ds))"
    using all cs by (simp add: extract_dependencies_def Let_def)
  show ?thesis
  proof (cases "add_constraints ?pm ?names cs Map.empty")
    case (Inl e)
    then show ?thesis using ac ex by (simp add: task_planner_init_def plannable_def)
  next
    case (Inr ds)
    have leg: "orders_legal ?pm cs" and deps: "dep_set ds p = {q. (q, p) \<in> adj_rel cs}" for p
      using ac Inr by (auto simp: dep_set_def)
    have adj: "q \<in> set ?names \<and> p \<in> set ?names" if "(q, p) \<in> adj_rel cs" for q p
      using that own adjacent_sub by (fastforce simp: adj_rel_def)
    have rel: "{(q, p). p \<in> set ?names \<and> q \<in> dep_set ds p} = adj_rel cs"
      using adj by (auto simp: deps)
    have sub: "\<forall>p\<in>set ?names. dep_set ds p \<subseteq> set ?names" using adj by (auto simp: deps)
    have init: "(\<exists>pl. planner_init ?names ds = Inr pl) \<longleftrightarrow> acyclic (adj_rel cs)"
      using planner_init_ok [of ?names ds] sub unfolding rel by blast
    have dp: "dep_set (pl_dependencies pl) p = {q. (q, p) \<in> adj_rel cs}" if "planner_init ?names ds = Inr pl" for pl p
    proof -
      have "dep_set (pl_dependencies pl) p = (if p \<in> set ?names then dep_set ds p else {})"
        using that by (auto simp: planner_init_def Let_def restrict_deps_def dep_set_def split: if_splits option.splits)
      then show ?thesis using adj by (auto simp: deps)
    qed
    show ?thesis
    proof (cases "planner_init ?names ds")
      case (Inl e)
      then have "e = Own InvalidSchedule" by (auto simp: planner_init_def Let_def split: if_splits)
      then show ?thesis using Inl Inr init ex by (simp add: task_planner_init_def plannable_def)
    next
      case pl: (Inr pl)
      have "set (pl_processes pl) = set ?names" by (rule pl_init_ok(2) [OF pl])
      then show ?thesis using pl Inr init ex leg dp [OF pl] by (simp add: task_planner_init_def plannable_def Let_def)
    qed
  qed
qed

section \<open>Tasks one after another\<close>

definition procs :: "task_spec \<Rightarrow> spec_process list" where
  "procs t = (case ts_processes t of None \<Rightarrow> [] | Some ps \<Rightarrow> ps)"

definition orders :: "task_spec \<Rightarrow> string list list" where
  "orders t = (case ts_constraints t of None \<Rightarrow> [] | Some cs \<Rightarrow> cs)"

abbreviation names_of :: "task_spec \<Rightarrow> string list" where
  "names_of t \<equiv> map sp_name (procs t)"


text \<open>The plan of the regular processes.\<close>

definition regular_plan :: "task_spec \<Rightarrow> (plan_error, task_planner) res" where
  "regular_plan t = task_planner_init (plan_task t (procs t)) (Some (\<lambda>p. \<not> pc_final p))"

definition keeps_plan :: "(task_spec \<Rightarrow> task_spec) \<Rightarrow> bool" where
  "keeps_plan kw = (\<forall>t. ts_processes (kw t) = ts_processes t \<and> ts_constraints (kw t) = ts_constraints t)"

lemma adjacent_pairs: "adjacent xs = {(xs ! i, xs ! Suc i) | i. Suc i < length xs}"
proof (induction xs rule: induct_list012)
  case (3 a b rest)
  have "{((a # b # rest) ! i, (a # b # rest) ! Suc i) | i. Suc i < length (a # b # rest)} =
      insert (a, b) {((b # rest) ! i, (b # rest) ! Suc i) | i. Suc i < length (b # rest)}" (is "?l = ?r")
  proof (intro set_eqI iffI)
    fix z assume "z \<in> ?l"
    then obtain i where i: "z = ((a # b # rest) ! i, (a # b # rest) ! Suc i)" "Suc i < length (a # b # rest)" by blast
    then show "z \<in> ?r" by (cases i) auto
  next
    fix z assume "z \<in> ?r"
    then consider "z = (a, b)" | i where "z = ((b # rest) ! i, (b # rest) ! Suc i)" "Suc i < length (b # rest)" by blast
    then show "z \<in> ?l"
    proof cases
      case 1
      then have "z = ((a # b # rest) ! 0, (a # b # rest) ! Suc 0) \<and> Suc 0 < length (a # b # rest)" by simp
      then show ?thesis by blast
    next
      case (2 i)
      then have "z = ((a # b # rest) ! Suc i, (a # b # rest) ! Suc (Suc i)) \<and> Suc (Suc i) < length (a # b # rest)" by simp
      then show ?thesis by blast
    qed
  qed
  then show ?case using 3 by simp
qed auto

lemma zip_butlast_tl: "zip (butlast xs) (tl xs) = zip xs (tl xs)"
  by (induction xs rule: induct_list012) auto

lemma set_order_between:
  "set (order_between ps1 ps2) = {[sp_name p1, sp_name p2] | p1 p2. p1 \<in> set ps1 \<and> p2 \<in> set ps2 \<and> p1 \<noteq> p2}"
  by (fastforce simp: order_between_def order_of_def)

text \<open>The constraints between neighbours, given that every task has a list of processes.\<close>

definition cross_orders :: "task_spec list \<Rightarrow> string list list" where
  "cross_orders tasks = concat (map (\<lambda>(t1, t2). order_between (procs t1) (procs t2)) (zip tasks (tl tasks)))"

lemma orders_along_eq:
  assumes "\<forall>t\<in>set tasks. ts_processes t \<noteq> None"
  shows "orders_along tasks = Inr (cross_orders tasks)"
proof -
  have "traverse (\<lambda>(t1, t2). rbind (iterate (ts_processes t1)) (\<lambda>ps1. if ps1 = [] then Inr []
         else rbind (iterate (ts_processes t2)) (\<lambda>ps2. Inr (order_between ps1 ps2))))
       (zip (butlast tasks) (tl tasks)) =
     Inr (map (\<lambda>(t1, t2). order_between (procs t1) (procs t2)) (zip (butlast tasks) (tl tasks)))"
  proof (rule traverse_total)
    fix x assume "x \<in> set (zip (butlast tasks) (tl tasks))"
    moreover obtain t1 t2 where x: "x = (t1, t2)" by (cases x)
    ultimately have "t1 \<in> set tasks" "t2 \<in> set tasks"
      by (metis set_zip_leftD in_set_butlastD, metis set_zip_rightD list.set_sel(2) list.sel(2))
    then obtain ps1 ps2 where "ts_processes t1 = Some ps1" "ts_processes t2 = Some ps2" using assms by blast
    then show "(\<lambda>(t1, t2). rbind (iterate (ts_processes t1)) (\<lambda>ps1. if ps1 = [] then Inr []
         else rbind (iterate (ts_processes t2)) (\<lambda>ps2. Inr (order_between ps1 ps2)))) x =
         Inr ((\<lambda>(t1, t2). order_between (procs t1) (procs t2)) x)"
      using x by (auto simp: iterate_def procs_def order_between_def)
  qed
  then show ?thesis by (simp add: orders_along_def cross_orders_def zip_butlast_tl)
qed

lemma merge_eq:
  "\<forall>t\<in>set tasks. ts_processes t \<noteq> None \<Longrightarrow> processes_merge tasks = Inr (remdups (concat (map procs tasks)))"
  "\<forall>t\<in>set tasks. ts_constraints t \<noteq> None \<Longrightarrow> constraints_merge tasks = Inr (remdups (concat (map orders tasks)))"
proof -
  assume a: "\<forall>t\<in>set tasks. ts_processes t \<noteq> None"
  have "traverse (\<lambda>t. iterate (ts_processes t)) tasks = Inr (map procs tasks)"
    by (rule traverse_total) (use a in \<open>auto simp: iterate_def procs_def\<close>)
  then show "processes_merge tasks = Inr (remdups (concat (map procs tasks)))"
    by (simp add: processes_merge_def)
next
  assume a: "\<forall>t\<in>set tasks. ts_constraints t \<noteq> None"
  have "traverse (\<lambda>t. iterate (ts_constraints t)) tasks = Inr (map orders tasks)"
    by (rule traverse_total) (use a in \<open>auto simp: iterate_def orders_def\<close>)
  then show "constraints_merge tasks = Inr (remdups (concat (map orders tasks)))"
    by (simp add: constraints_merge_def)
qed



section \<open>The plan of a chain\<close>

lemma process_map_distinct:
  assumes "distinct (map pc_name ps)"
  shows "process_map ps n = Some c \<longleftrightarrow> c \<in> set ps \<and> pc_name c = n"
proof -
  have "distinct (map fst (rev (map (\<lambda>p. (pc_name p, p)) ps)))" using assms by (simp add: rev_map [symmetric] comp_def)
  then show ?thesis unfolding process_map_def by (subst map_of_eq_Some_iff) auto
qed



lemma set_cross_orders:
  "set (cross_orders tasks) = {[sp_name p1, sp_name p2] | i p1 p2. Suc i < length tasks \<and>
     p1 \<in> set (procs (tasks ! i)) \<and> p2 \<in> set (procs (tasks ! Suc i)) \<and> p1 \<noteq> p2}"
proof -
  have "set (cross_orders tasks) = (\<Union>(t1, t2)\<in>adjacent tasks. set (order_between (procs t1) (procs t2)))"
    by (auto simp: cross_orders_def adjacent_def)
  also have "\<dots> = (\<Union>i\<in>{i. Suc i < length tasks}. set (order_between (procs (tasks ! i)) (procs (tasks ! Suc i))))"
    by (auto simp: adjacent_pairs)
  finally show ?thesis by (auto simp: set_order_between)
qed


abbreviation configs :: "task_spec \<Rightarrow> process_config list" where
  "configs t \<equiv> map sp_config (procs t)"

lemma regular_plan_cases:
  assumes fin: "\<forall>p\<in>set (procs t). \<not> pc_final (sp_config p)" and cs: "ts_constraints t = Some cs"
    and own: "\<forall>c\<in>set cs. set c \<subseteq> set (names_of t)"
  shows "case regular_plan t of
      Inl e \<Rightarrow> e = Own InvalidSchedule \<and> \<not> plannable (configs t) cs
    | Inr tp \<Rightarrow> plannable (configs t) cs \<and> set (pl_processes (tp_planner tp)) = set (names_of t) \<and>
        (\<forall>p. dep_set (pl_dependencies (tp_planner tp)) p = {q. (q, p) \<in> adj_rel cs})"
proof -
  let ?f = "Some (\<lambda>p. \<not> pc_final p)"
  have "filter_processes ?f (plan_task t (procs t)) = tc_processes (plan_task t (procs t))"
    using fin by (auto simp: filter_processes_def plan_task_def filter_id_conv)
  moreover have "tc_constraints (plan_task t (procs t)) = Some cs" using cs by (simp add: plan_task_def)
  moreover have "\<forall>c\<in>set cs. set c \<subseteq> set (map pc_name (tc_processes (plan_task t (procs t))))"
    using own by (simp add: plan_task_def image_image)
  ultimately have "case task_planner_init (plan_task t (procs t)) ?f of
      Inl e \<Rightarrow> e = Own InvalidSchedule \<and> \<not> plannable (tc_processes (plan_task t (procs t))) cs
    | Inr tp \<Rightarrow> plannable (tc_processes (plan_task t (procs t))) cs \<and>
        set (pl_processes (tp_planner tp)) = set (map pc_name (tc_processes (plan_task t (procs t)))) \<and>
        (\<forall>p. dep_set (pl_dependencies (tp_planner tp)) p = {q. (q, p) \<in> adj_rel cs})"
    by (rule task_planner_iff)
  then show ?thesis
    unfolding regular_plan_def by (simp add: plan_task_def image_image split: sum.splits)
qed










lemma orders_legal_simps [simp]:
  "orders_legal pm (cs @ ds) \<longleftrightarrow> orders_legal pm cs \<and> orders_legal pm ds"
  "orders_legal pm (remdups cs) \<longleftrightarrow> orders_legal pm cs"
  by (auto simp: orders_legal_def)



lemma chain_procs: "i < length tasks \<Longrightarrow> p \<in> set (procs (tasks ! i)) \<Longrightarrow> p \<in> set (concat (map procs tasks))"
  using nth_mem by fastforce




section \<open>Finalizing processes in a chain\<close>

lemma add_order_error: "set names \<subseteq> dom pm \<Longrightarrow> add_order pm names ds = Inl e \<Longrightarrow> e = Own InvalidSchedule"
  using add_order_iff [of names pm ds] by simp

lemma add_constraints_mixed:
  "set ps \<subseteq> dom pm \<Longrightarrow> c \<in> set cs \<Longrightarrow> \<exists>a\<in>set c. a \<in> set ps \<Longrightarrow> \<exists>b\<in>set c. b \<notin> set ps \<Longrightarrow>
     add_constraints pm ps cs ds = Inl (Own InvalidSchedule)"
proof (induction pm ps cs ds rule: add_constraints.induct)
  case (1 pm ps ds)
  then show ?case by simp
next
  case (2 pm ps d cs ds)
  consider "list_all (\<lambda>n. n \<in> set ps) d = list_all (\<lambda>n. n \<notin> set ps) d"
    | (skip) "\<not> list_all (\<lambda>n. n \<in> set ps) d" "list_all (\<lambda>n. n \<notin> set ps) d"
    | (take) "list_all (\<lambda>n. n \<in> set ps) d" "\<not> list_all (\<lambda>n. n \<notin> set ps) d" by blast
  then show ?case
  proof cases
    case skip
    then have "c \<in> set cs" using "2.prems" by (auto simp: list_all_iff)
    then show ?thesis using "2.IH"(1) [OF refl refl] skip "2.prems" by simp
  next
    case take
    then have c: "c \<in> set cs" using "2.prems" by (auto simp: list_all_iff)
    have sub: "set d \<subseteq> dom pm" using take(1) "2.prems"(1) by (auto simp: list_all_iff)
    show ?thesis
    proof (cases "add_order pm d ds")
      case (Inl e)
      then show ?thesis using add_order_error [OF sub Inl] take by simp
    next
      case (Inr ds1)
      then show ?thesis using "2.IH"(2) [OF refl refl _ _ "2.prems"(1) c "2.prems"(3,4)] take by simp
    qed
  qed simp
qed

lemma task_planner_mixed:
  assumes "tc_constraints task = Some cs" "c \<in> set cs"
    "a \<in> set c" "a \<in> set (map pc_name (filter_processes f task))"
    "b \<in> set c" "b \<notin> set (map pc_name (filter_processes f task))"
  shows "task_planner_init task f = Inl (Own InvalidSchedule)"
proof -
  let ?ps = "filter_processes f task"
  have "add_constraints (process_map ?ps) (remdups (map pc_name ?ps)) cs Map.empty = Inl (Own InvalidSchedule)"
  proof (rule add_constraints_mixed [OF _ assms(2)])
    show "set (remdups (map pc_name ?ps)) \<subseteq> dom (process_map ?ps)"
      using set_filter_processes_names [of ?ps] by auto
  qed (use assms(3-6) in auto)
  then show ?thesis using assms(1) by (simp add: task_planner_init_def extract_dependencies_def Let_def)
qed

lemma concat_parts:
  assumes "concat_tasks kw tasks = Inr t" "tasks \<noteq> []" "keeps_plan kw"
  shows "\<forall>s\<in>set tasks. ts_constraints s \<noteq> None" "\<forall>s\<in>set tasks. ts_processes s \<noteq> None"
    "procs t = remdups (concat (map procs tasks))" "ts_processes t = Some (procs t)"
    "ts_constraints t = Some (remdups (concat (map orders tasks)) @ cross_orders tasks)"
proof -
  obtain base cs os where b: "combine_processes tasks = Inr base" "constraints_merge tasks = Inr cs"
    "orders_along tasks = Inr os" and t: "ts_processes t = ts_processes base" "ts_constraints t = Some (cs @ os)"
    using assms by (auto simp: concat_tasks_def keeps_plan_def rbind_Inr_iff)
  obtain ps where ps: "processes_merge tasks = Inr ps" "ts_processes base = Some ps"
    using b(1) assms(2) by (auto simp: combine_processes_def rbind_Inr_iff)
  have it: "iterate x = Inr y \<longleftrightarrow> x = Some y" for x :: "'a list option" and y
    by (auto simp: iterate_def split: option.splits)
  have some: "\<forall>s\<in>set tasks. f s \<noteq> None" if tr: "traverse (\<lambda>s. iterate (f s)) tasks = Inr yss"
    for f :: "task_spec \<Rightarrow> 'a list option" and yss
    using tr unfolding traverse_Inr_iff it by (auto simp: list_all2_conv_all_nth in_set_conv_nth)
  obtain pss where "traverse (\<lambda>s. iterate (ts_processes s)) tasks = Inr pss"
    using ps(1) by (auto simp: processes_merge_def rbind_Inr_iff)
  then show p: "\<forall>s\<in>set tasks. ts_processes s \<noteq> None" by (rule some)
  obtain css where "traverse (\<lambda>s. iterate (ts_constraints s)) tasks = Inr css"
    using b(2) by (auto simp: constraints_merge_def rbind_Inr_iff)
  then show c: "\<forall>s\<in>set tasks. ts_constraints s \<noteq> None" by (rule some)
  show "procs t = remdups (concat (map procs tasks))" "ts_processes t = Some (procs t)"
    using merge_eq(1) [OF p] ps t(1) by (simp_all add: procs_def)
  show "ts_constraints t = Some (remdups (concat (map orders tasks)) @ cross_orders tasks)"
    using merge_eq(2) [OF c] orders_along_eq [OF p] b(2,3) t(2) by simp
qed

lemma chain_finalizer_invalid:
  assumes t: "concat_tasks kw tasks = Inr t" "keeps_plan kw" and d: "distinct (names_of t)"
    and i: "Suc i < length tasks" "p1 \<in> set (procs (tasks ! i))" "p2 \<in> set (procs (tasks ! Suc i))"
    and f: "pc_final (sp_config p1) \<noteq> pc_final (sp_config p2)"
  shows "assert_valid_plan t = Inl (Own InvalidTaskError)"
proof -
  have ne: "tasks \<noteq> []" using i by auto
  note t' = concat_parts [OF t(1) ne t(2)]
  have m: "p1 \<in> set (procs t)" "p2 \<in> set (procs t)"
    using chain_procs [OF _ i(2)] chain_procs [OF i(1,3)] i(1) by (auto simp: t'(3) simp del: set_concat)
  have "p1 \<noteq> p2" using f by blast
  then have c: "[sp_name p1, sp_name p2] \<in> set (cross_orders tasks)" using i unfolding set_cross_orders by blast
  obtain r s where rs: "{r, s} = {p1, p2}" "\<not> pc_final (sp_config r)" "pc_final (sp_config s)" "r \<in> set (procs t)" "s \<in> set (procs t)"
    using f m by (metis insert_commute)
  have one: "x = y" if "x \<in> set (procs t)" "y \<in> set (procs t)" "sp_name x = sp_name y" for x y
    using d that by (auto simp: distinct_map inj_on_def)
  let ?task = "plan_task t (procs t)"
  let ?ps = "filter_processes (Some (\<lambda>p. \<not> pc_final p)) ?task"
  have ps: "set (map pc_name ?ps) = {sp_name x | x. x \<in> set (procs t) \<and> \<not> pc_final (sp_config x)}"
    by (auto simp: filter_processes_def plan_task_def)
  have "task_planner_init ?task (Some (\<lambda>p. \<not> pc_final p)) = Inl (Own InvalidSchedule)"
  proof (rule task_planner_mixed [of _ _ "[sp_name p1, sp_name p2]"])
    show "tc_constraints ?task = Some (remdups (concat (map orders tasks)) @ cross_orders tasks)"
      using t'(5) by (simp add: plan_task_def)
    show "[sp_name p1, sp_name p2] \<in> set (remdups (concat (map orders tasks)) @ cross_orders tasks)" using c by simp
    show "sp_name r \<in> set [sp_name p1, sp_name p2]" "sp_name s \<in> set [sp_name p1, sp_name p2]" using rs(1) by auto
    show "sp_name r \<in> set (map pc_name ?ps)" unfolding ps using rs by blast
    show "sp_name s \<notin> set (map pc_name ?ps)" unfolding ps using rs one by blast
  qed
  then show ?thesis using t'(4) by (simp add: assert_valid_plan_def iterate_def try_plan_def)
qed

section \<open>Sequential tasks\<close>

lemma sequential_chain:
  assumes "ts_processes t = Some ps" "ts_constraints t = Some []" "ps \<noteq> []" "distinct (map sp_name ps)"
    "\<forall>p\<in>set ps. \<not> pc_final (sp_config p) \<and> \<not> pc_daemon (sp_config p) \<and> \<not> pc_ephemeral (sp_config p)"
  shows "\<exists>s tp. sequential_task t = Inr s \<and> regular_plan s = Inr tp \<and>
    (\<forall>p. dep_set (pl_dependencies (tp_planner tp)) p = {q. (q, p) \<in> adjacent (map sp_name ps)})"
proof -
  let ?s = "t\<lparr>ts_constraints := Some [map sp_name ps]\<rparr>"
  have s: "sequential_task t = Inr ?s"
    using assms(1,2) by (simp add: sequential_task_def order_of_def comp_def)
  have ps: "procs ?s = ps" using assms(1) by (simp add: procs_def)
  have d: "distinct (map pc_name (map sp_config ps))" using assms(4) by (simp add: comp_def)
  have "acyclic (adjacent xs)" if "distinct xs" for xs :: "string list"
    using that
  proof (induction xs rule: induct_list012)
    case (3 a b rest)
    have "a \<notin> snd ` adjacent (b # rest)" using "3.prems" adjacent_sub by fastforce
    then have "(b, a) \<notin> (adjacent (b # rest))\<^sup>*" using "3.prems"
      by (metis (no_types, lifting) distinct_length_2_or_more image_eqI rtranclE snd_conv)
    then show ?case using 3 by (simp add: acyclic_insert)
  qed (simp_all add: acyclic_def)
  then have ac: "acyclic (adj_rel [map sp_name ps])" using assms(4) by simp
  have "legal_dep (process_map (map sp_config ps)) q p" if a: "(q, p) \<in> adjacent (map sp_name ps)" for q p
  proof -
    obtain x y where "x \<in> set ps" "sp_name x = q" "y \<in> set ps" "sp_name y = p"
      using adjacent_sub [OF a] by auto
    then have "process_map (map sp_config ps) q = Some (sp_config x)" "process_map (map sp_config ps) p = Some (sp_config y)"
      using process_map_distinct [OF d] by auto
    then show ?thesis using assms(5) \<open>x \<in> _\<close> by (simp add: legal_dep_def)
  qed
  then have "plannable (map sp_config ps) [map sp_name ps]"
    using ac assms(3) by (auto simp: plannable_def orders_legal_def order_legal_def)
  then show ?thesis
    using regular_plan_cases [of ?s "[map sp_name ps]"] assms(5) ps s
    by (cases "regular_plan ?s") auto
qed




section \<open>Properties\<close>



text \<open>A finalizing process does not survive concatenation: if of two neighbouring tasks one has a
  process that is finalizing and the other one that is not, the validator rejects the task that
  \<open>concat_tasks\<close> makes of them, whatever the rest is.\<close>

theorem concat_rejects_finalizers:
  assumes "concat_tasks kw tasks = Inr t" "keeps_plan kw" "distinct (names_of t)"
    "Suc i < length tasks" "p1 \<in> set (procs (tasks ! i))" "p2 \<in> set (procs (tasks ! Suc i))"
    "pc_final (sp_config p1) \<noteq> pc_final (sp_config p2)"
  shows "assert_valid_plan t = Inl (Own InvalidTaskError)"
  using assms by (rule chain_finalizer_invalid)

definition cleanup_process :: spec_process where
  "cleanup_process = (default_process ''c'' ''z'')\<lparr>sp_config := (sp_config (default_process ''c'' ''z''))\<lparr>pc_final := True\<rparr>\<rparr>"

theorem concat_rejects_finalizers_witness:
  "\<exists>t. concat_tasks id [simple_task ''a'' ''x'', default_task\<lparr>ts_processes := Some [cleanup_process]\<rparr>] = Inr t \<and>
     assert_valid_plan (simple_task ''a'' ''x'') = Inr () \<and>
     assert_valid_plan (default_task\<lparr>ts_processes := Some [cleanup_process]\<rparr>) = Inr () \<and>
     assert_valid_plan t = Inl (Own InvalidTaskError)"
proof -
  let ?t1 = "simple_task ''a'' ''x''" and ?t2 = "default_task\<lparr>ts_processes := Some [cleanup_process]\<rparr>"
  note defs = simple_task_def default_task_def procs_def default_process_def cleanup_process_def
  obtain t where t: "concat_tasks id [?t1, ?t2] = Inr t" "procs t = [default_process ''a'' ''x'', cleanup_process]"
    by (simp add: concat_tasks_def combine_processes_def processes_merge_def constraints_merge_def orders_along_def
        iterate_def defs)
  have "assert_valid_plan t = Inl (Own InvalidTaskError)"
    by (rule concat_rejects_finalizers [OF t(1), of 0 "default_process ''a'' ''x''" cleanup_process])
      (simp_all add: keeps_plan_def t(2), simp_all add: defs)
  moreover have "assert_valid_plan ?t1 = Inr ()" "assert_valid_plan ?t2 = Inr ()"
    by (simp_all add: assert_valid_plan_def iterate_def try_plan_def plan_task_def defs run_plan)
  ultimately show ?thesis using t(1) by blast
qed

end
