(* ===== verification/JobConfig.thy ===== *)
theory JobConfig
  imports Schema
begin

text \<open>
  The configuration of a job: \<^verbatim>\<open>apache/aurora/common/aurora_job_key.py\<close>,
  \<^verbatim>\<open>apache/aurora/config/port_resolver.py\<close>, \<^verbatim>\<open>resource.py\<close>, \<^verbatim>\<open>thrift.py\<close> and
  \<^verbatim>\<open>__init__.py\<close>.  Pystachio's objects are records of \<open>field\<close>s: what interpolation makes of them, or
  that they are \<^verbatim>\<open>Empty\<close>, or that they fail their type check.
  A Python dictionary is an association list with distinct keys, in its order.
\<close>

datatype config_error = InvalidConfig | InvalidIdentifier | ParseError | CycleException | Of_task task_error

type_synonym 'a cfg = "(config_error, 'a) res"

section \<open>Identifiers and job keys\<close>

definition word_char :: "char \<Rightarrow> bool" where
  "word_char c = (c \<in> set ''abcdefghijklmnopqrstuvwxyzABCDEFGHIJKLMNOPQRSTUVWXYZ0123456789_-.'')"

text \<open>The pattern \<^verbatim>\<open>^[\w\-\.]+$\<close> on ASCII strings; \<^verbatim>\<open>$\<close> also matches before a last newline.\<close>

definition drop_newline :: "string \<Rightarrow> string" where
  "drop_newline s = (if s \<noteq> [] \<and> last s = CHR 0x0A then butlast s else s)"

definition valid_identifier :: "string \<Rightarrow> bool" where
  "valid_identifier s = (drop_newline s \<noteq> [] \<and> list_all word_char (drop_newline s))"

record aurora_job_key =
  ak_cluster :: string
  ak_role :: string
  ak_env :: string
  ak_name :: string

definition assert_valid_identifier :: "string \<Rightarrow> string cfg" where
  "assert_valid_identifier s = (if valid_identifier s then Inr s else Inl (Own InvalidIdentifier))"

definition new_job_key :: "string \<Rightarrow> string \<Rightarrow> string \<Rightarrow> string \<Rightarrow> aurora_job_key cfg" where
  "new_job_key cluster role env name =
     rbind (assert_valid_identifier role) (\<lambda>r. rbind (assert_valid_identifier env) (\<lambda>e.
     rbind (assert_valid_identifier name) (\<lambda>n.
       Inr \<lparr>ak_cluster = cluster, ak_role = r, ak_env = e, ak_name = n\<rparr>)))"

definition to_path :: "aurora_job_key \<Rightarrow> string" where
  "to_path k = ak_cluster k @ ''/'' @ ak_role k @ ''/'' @ ak_env k @ ''/'' @ ak_name k"

text \<open>Python's \<^verbatim>\<open>split(sep, n)\<close>: at most \<open>n\<close> cuts.\<close>

fun split_max :: "char \<Rightarrow> nat \<Rightarrow> string \<Rightarrow> string list" where
  "split_max c n [] = [[]]"
| "split_max c n (x # xs) =
     (if x = c \<and> n > 0 then [] # split_max c (n - 1) xs
      else (case split_max c n xs of [] \<Rightarrow> [[x]] | y # ys \<Rightarrow> (x # y) # ys))"

definition from_path :: "string \<Rightarrow> aurora_job_key cfg" where
  "from_path p =
     (case split_max (CHR ''/'') 4 p of
        [cluster, role, env, name] \<Rightarrow> new_job_key cluster role env name
      | _ \<Rightarrow> Inl (Own ParseError))"

definition job_key_eq :: "aurora_job_key \<Rightarrow> aurora_job_key \<Rightarrow> bool" where
  "job_key_eq a b = (to_path a = to_path b)"

section \<open>Ports\<close>

text \<open>Python's \<^verbatim>\<open>int(s)\<close> on an ASCII string: blanks around, a sign, digits with single underscores
  between them.\<close>

definition digit_of :: "char \<Rightarrow> int option" where
  "digit_of c = (if c \<in> set ''0123456789'' then Some (int (of_char c) - 48) else None)"

fun digits_value :: "int \<Rightarrow> bool \<Rightarrow> string \<Rightarrow> int option" where
  "digits_value v after_digit [] = (if after_digit then Some v else None)"
| "digits_value v after_digit (c # cs) =
     (case digit_of c of
        Some d \<Rightarrow> digits_value (10 * v + d) True cs
      | None \<Rightarrow> if c = CHR ''_'' \<and> after_digit then digits_value v False cs else None)"

definition blank :: "char \<Rightarrow> bool" where
  "blank c = (c \<in> {CHR '' '', CHR 0x09, CHR 0x0A, CHR 0x0B, CHR 0x0C, CHR 0x0D, CHR 0x1C, CHR 0x1D, CHR 0x1E, CHR 0x1F})"

definition py_int :: "string \<Rightarrow> int option" where
  "py_int s =
     (case rev (dropWhile blank (rev (dropWhile blank s))) of
        CHR ''-'' # ds \<Rightarrow> map_option uminus (digits_value 0 False ds)
      | CHR ''+'' # ds \<Rightarrow> digits_value 0 False ds
      | ds \<Rightarrow> digits_value 0 False ds)"

datatype port = Port_number int | Port_name string

type_synonym portmap = "(string \<times> port) list"

definition int_port :: "port \<Rightarrow> port" where
  "int_port p = (case p of Port_number n \<Rightarrow> Port_number n
     | Port_name s \<Rightarrow> (case py_int s of None \<Rightarrow> Port_name s | Some n \<Rightarrow> Port_number n))"

definition lookup_port :: "portmap \<Rightarrow> port \<Rightarrow> port option" where
  "lookup_port m p = (case p of Port_number _ \<Rightarrow> None | Port_name s \<Rightarrow> map_of m s)"

text \<open>The loop of \<^verbatim>\<open>resolve_one\<close>, \<open>None\<close> where it does not end.\<close>

partial_function (option) follow_ports :: "portmap \<Rightarrow> port list \<Rightarrow> port \<Rightarrow> port cfg option" where
  "follow_ports m visited p =
     (case lookup_port m p of
        None \<Rightarrow> Some (Inr p)
      | Some q \<Rightarrow> if q \<in> set (p # visited) then Some (Inl (Own CycleException))
                  else follow_ports m (p # visited) q)"

definition resolve_one :: "portmap \<Rightarrow> string \<Rightarrow> port cfg option" where
  "resolve_one m name =
     (case map_of m name of None \<Rightarrow> Some (Inl (Py KeyError)) | Some p \<Rightarrow> follow_ports m [] p)"

fun resolve_all :: "portmap \<Rightarrow> string list \<Rightarrow> portmap cfg option" where
  "resolve_all m [] = Some (Inr [])"
| "resolve_all m (n # ns) =
     (case resolve_one m n of
        None \<Rightarrow> None
      | Some (Inl e) \<Rightarrow> Some (Inl e)
      | Some (Inr p) \<Rightarrow> map_option (\<lambda>r. rbind r (\<lambda>ps. Inr ((n, p) # ps))) (resolve_all m ns))"

definition int_ports :: "portmap \<Rightarrow> portmap" where
  "int_ports m = map (\<lambda>(n, p). (n, int_port p)) m"

definition resolve_ports :: "portmap \<Rightarrow> portmap cfg option" where
  "resolve_ports m = resolve_all (int_ports m) (map fst m)"

text \<open>\<^verbatim>\<open>AuroraConfig.ports\<close>: the names in the portmap and in the task that no number stands for.\<close>

definition named :: "port list \<Rightarrow> string list" where
  "named ps = List.map_filter (\<lambda>p. case p of Port_number _ \<Rightarrow> None | Port_name s \<Rightarrow> Some s) ps"

definition config_ports :: "portmap \<Rightarrow> string list \<Rightarrow> string list cfg option" where
  "config_ports announce referenced =
     map_option (\<lambda>r. rbind r (\<lambda>m. Inr (remdups (named (map snd m) @
         named (map (\<lambda>n. case map_of m n of None \<Rightarrow> Port_name n | Some p \<Rightarrow> p) referenced)))))
       (resolve_ports announce)"

section \<open>Constraints\<close>

datatype task_constraint = Limit int | Values bool "string list"

fun split_at :: "char \<Rightarrow> string \<Rightarrow> string list" where
  "split_at c [] = [[]]"
| "split_at c (x # xs) = (if x = c then [] # split_at c xs
     else (case split_at c xs of [] \<Rightarrow> [[x]] | y # ys \<Rightarrow> (x # y) # ys))"

definition constraint_to_thrift :: "string \<Rightarrow> task_constraint cfg" where
  "constraint_to_thrift v =
     (if take 6 v = ''limit:'' then
        (case py_int (drop 6 v) of None \<Rightarrow> Inl (Py ValueError) | Some n \<Rightarrow> Inr (Limit n))
      else let negated = (take 1 v = ''!'') in
           Inr (Values negated (remdups (split_at (CHR '','') (if negated then drop 1 v else v)))))"

definition constraints_to_thrift :: "(string \<times> string) list \<Rightarrow> (string \<times> task_constraint) list cfg" where
  "constraints_to_thrift cs = traverse (\<lambda>(a, v). rbind (constraint_to_thrift v) (\<lambda>c. Inr (a, c))) cs"

section \<open>Resources\<close>

record resource =
  r_cpus :: "rat option"
  r_ram :: "int option"
  r_disk :: "int option"
  r_port :: "string option"
  r_gpus :: "int option"

definition no_resource :: resource where
  "no_resource = \<lparr>r_cpus = None, r_ram = None, r_disk = None, r_port = None, r_gpus = None\<rparr>"

datatype resource_type = CPUS | RAM_MB | DISK_MB | PORTS | GPUS

datatype resource_value = Number rat | Text string

fun display_position :: "resource_type \<Rightarrow> nat" where
  "display_position CPUS = 1" | "display_position RAM_MB = 2" | "display_position DISK_MB = 3"
| "display_position PORTS = 4" | "display_position GPUS = 5"

fun value_of :: "resource_type \<Rightarrow> resource \<Rightarrow> resource_value option" where
  "value_of CPUS r = map_option Number (r_cpus r)"
| "value_of RAM_MB r = map_option (Number \<circ> of_int) (r_ram r)"
| "value_of DISK_MB r = map_option (Number \<circ> of_int) (r_disk r)"
| "value_of PORTS r = map_option Text (r_port r)"
| "value_of GPUS r = map_option (Number \<circ> of_int) (r_gpus r)"

definition from_resource :: "resource \<Rightarrow> resource_type cfg" where
  "from_resource r =
     (case find (\<lambda>t. value_of t r \<noteq> None) [CPUS, RAM_MB, DISK_MB, PORTS, GPUS] of
        None \<Rightarrow> Inl (Py ValueError) | Some t \<Rightarrow> Inr t)"

type_synonym resource_detail = "resource_type \<times> resource_value"

definition resource_details :: "resource list \<Rightarrow> resource_detail list cfg" where
  "resource_details rs =
     rbind (traverse (\<lambda>r. rbind (from_resource r) (\<lambda>t. Inr (t, the (value_of t r)))) rs)
       (\<lambda>ds. Inr (sort_key (display_position \<circ> fst) ds))"

definition quantity_of :: "resource_detail list \<Rightarrow> resource_type \<Rightarrow> rat" where
  "quantity_of ds t =
     (\<Sum>d\<leftarrow>ds. if fst d = t then (case snd d of Number n \<Rightarrow> n | Text _ \<Rightarrow> 1) else 0)"

text \<open>A task without a list of resources has them in fields of their own.\<close>

definition backfill_resources :: "resource list option \<Rightarrow> rat \<Rightarrow> int \<Rightarrow> int \<Rightarrow> string list \<Rightarrow> resource list" where
  "backfill_resources given cpus ram disk ports =
     (if given \<noteq> None \<and> given \<noteq> Some [] then the given
      else [no_resource\<lparr>r_cpus := Some cpus\<rparr>, no_resource\<lparr>r_ram := Some ram\<rparr>, no_resource\<lparr>r_disk := Some disk\<rparr>]
           @ map (\<lambda>p. no_resource\<lparr>r_port := Some p\<rparr>) ports)"

section \<open>Fields\<close>

datatype 'a field = Empty | Unchecked | Value 'a

fun fully_interpolated :: "'a field \<Rightarrow> 'a cfg" where
  "fully_interpolated Empty = Inl (Py AttributeError)"
| "fully_interpolated Unchecked = Inl (Own InvalidConfig)"
| "fully_interpolated (Value v) = Inr v"

fun not_empty_or :: "'a field \<Rightarrow> 'b \<Rightarrow> ('a \<Rightarrow> 'b) \<Rightarrow> 'b cfg" where
  "not_empty_or Empty d wrap = Inr d"
| "not_empty_or f d wrap = rbind (fully_interpolated f) (\<lambda>v. Inr (wrap v))"

definition upper_char :: "char \<Rightarrow> char" where
  "upper_char c = (if c \<in> set ''abcdefghijklmnopqrstuvwxyz'' then char_of (of_char c - 32 :: nat) else c)"

definition parse_enum :: "string list \<Rightarrow> string option \<Rightarrow> string cfg" where
  "parse_enum names v =
     (case v of None \<Rightarrow> Inl (Py AttributeError)
      | Some s \<Rightarrow> if List.map upper_char s \<in> set names then Inr (List.map upper_char s) else Inl (Own InvalidConfig))"

definition select_cron_policy :: "string option \<Rightarrow> string cfg" where
  "select_cron_policy = parse_enum [''KILL_EXISTING'', ''CANCEL_NEW'', ''RUN_OVERLAP'']"

definition assert_valid_field :: "string \<Rightarrow> string cfg" where
  "assert_valid_field s = (if valid_identifier s then Inr s else Inl (Own InvalidConfig))"

section \<open>Containers, update strategies and SLA policies\<close>

record docker_spec =
  dk_image :: "string field"
  dk_parameters :: "(string \<times> string) list field"

datatype image_spec = Appc_image "string field" "string field" | Docker_image "string field" "string field" | Other_image

record volume_spec =
  v_container_path :: "string field"
  v_host_path :: "string field"
  v_mode :: "string option"

datatype container_spec =
    Docker_type docker_spec | Container_type "docker_spec option"
  | Mesos_type "image_spec option" "volume_spec list" | Other_type

datatype image = Appc string string | Docker string string

record volume =
  vol_container :: string
  vol_host :: string
  vol_mode :: string

datatype container = In_docker string "(string \<times> string) list" | In_mesos "image option" "volume list option"

definition create_docker_container :: "docker_spec \<Rightarrow> container cfg" where
  "create_docker_container d =
     rbind (not_empty_or (dk_parameters d) [] id) (\<lambda>ps.
     rbind (fully_interpolated (dk_image d)) (\<lambda>i. Inr (In_docker i ps)))"

definition volumes_to_thrift :: "volume_spec list \<Rightarrow> volume list cfg" where
  "volumes_to_thrift vs =
     traverse (\<lambda>v. rbind (parse_enum [''RW'', ''RO''] (v_mode v)) (\<lambda>m.
       rbind (fully_interpolated (v_container_path v)) (\<lambda>c.
       rbind (fully_interpolated (v_host_path v)) (\<lambda>h.
         Inr \<lparr>vol_container = c, vol_host = h, vol_mode = m\<rparr>)))) vs"

fun image_to_thrift :: "image_spec option \<Rightarrow> image option cfg" where
  "image_to_thrift None = Inr None"
| "image_to_thrift (Some (Appc_image n i)) =
     rbind (fully_interpolated n) (\<lambda>n. rbind (fully_interpolated i) (\<lambda>i. Inr (Some (Appc n i))))"
| "image_to_thrift (Some (Docker_image n t)) =
     rbind (fully_interpolated n) (\<lambda>n. rbind (fully_interpolated t) (\<lambda>t. Inr (Some (Docker n t))))"
| "image_to_thrift (Some Other_image) = Inl (Own InvalidConfig)"

fun create_container_config :: "container_spec option \<Rightarrow> container cfg" where
  "create_container_config None = Inr (In_mesos None None)"
| "create_container_config (Some (Docker_type d)) = create_docker_container d"
| "create_container_config (Some (Container_type (Some d))) = create_docker_container d"
| "create_container_config (Some (Container_type None)) = Inl (Py AttributeError)"
| "create_container_config (Some (Mesos_type i vs)) =
     rbind (image_to_thrift i) (\<lambda>i. rbind (volumes_to_thrift vs) (\<lambda>vs. Inr (In_mesos i (Some vs))))"
| "create_container_config (Some Other_type) = Inl (Own InvalidConfig)"

datatype strategy_spec =
    Queue_spec "int field" | Batch_spec "int field" "bool field" | Variable_spec "int list field" "bool field"

datatype strategy = Queue int | Batch int bool | Variable_batch "int list" bool

fun create_update_strategy_config :: "strategy_spec option \<Rightarrow> strategy cfg" where
  "create_update_strategy_config None = Inr (Queue 1)"
| "create_update_strategy_config (Some (Queue_spec n)) = rbind (fully_interpolated n) (\<lambda>n. Inr (Queue n))"
| "create_update_strategy_config (Some (Batch_spec n a)) =
     rbind (fully_interpolated n) (\<lambda>n. rbind (fully_interpolated a) (\<lambda>a. Inr (Batch n a)))"
| "create_update_strategy_config (Some (Variable_spec ns a)) =
     rbind (fully_interpolated ns) (\<lambda>ns. rbind (fully_interpolated a) (\<lambda>a. Inr (Variable_batch ns a)))"

datatype sla_spec =
    Percentage_spec "rat field" "int field" | Count_spec "int field" "int field"
  | Coordinator_spec "string field" "string field"

datatype sla_policy = Percentage rat int | Count int int | Asks_coordinator string string

fun create_sla_policy :: "sla_spec \<Rightarrow> sla_policy cfg" where
  "create_sla_policy (Percentage_spec p d) =
     rbind (fully_interpolated p) (\<lambda>p. rbind (fully_interpolated d) (\<lambda>d. Inr (Percentage p d)))"
| "create_sla_policy (Count_spec n d) =
     rbind (fully_interpolated n) (\<lambda>n. rbind (fully_interpolated d) (\<lambda>d. Inr (Count n d)))"
| "create_sla_policy (Coordinator_spec u k) =
     rbind (fully_interpolated u) (\<lambda>u. rbind (fully_interpolated k) (\<lambda>k. Inr (Asks_coordinator u k)))"

text \<open>\<open>None\<close> stands for an \<^verbatim>\<open>Empty\<close> member that is converted only if it is there.\<close>

definition optionally :: "('a \<Rightarrow> 'b cfg) \<Rightarrow> 'a option \<Rightarrow> 'b option cfg" where
  "optionally f x = (case x of None \<Rightarrow> Inr None | Some y \<Rightarrow> rbind (f y) (\<lambda>z. Inr (Some z)))"

section \<open>Conversion of a job\<close>

text \<open>A reference that interpolation of the job leaves open.\<close>

datatype job_ref = Task_id_ref | Instance_ref | Hostname_ref | Port_ref string | Other_ref string

record task_resources =
  tr_cpu :: "rat field"
  tr_ram :: "int field"
  tr_disk :: "int field"
  tr_gpu :: "int field"

record job_spec =
  j_role :: "string field"
  j_environment :: "string field"
  j_name :: "string field"
  j_production :: "bool field"
  j_service :: "bool field"
  j_max_task_failures :: "int field"
  j_priority :: "int field"
  j_contact :: "string field"
  j_tier :: "string field"
  j_partition_policy :: "(bool field \<times> int field) option"
  j_sla_policy :: "sla_spec option"
  j_metadata :: "(string field \<times> string field) list option"
  j_resources :: "task_resources option"
  j_constraints :: "(string \<times> string) list field"
  j_container :: "container_spec option"
  j_executor_name :: "string field"
  j_executor_data :: "string field"
  j_cron_schedule :: "string field"
  j_cron_policy :: "string option"
  j_instances :: "int field"

text \<open>What interpolation makes of the job: its task with an instance and a host name bound, whether all
  of it type checks, the references left open, and the JSON of what is left without the aliased fields.\<close>

record underlying =
  u_task :: task_view
  u_typechecks :: bool
  u_refs :: "job_ref list"
  u_json :: string

datatype thrift_resource = Num_cpus rat | Ram_mb int | Disk_mb int | Named_port string | Num_gpus int

record thrift_task =
  tt_role :: string
  tt_environment :: string
  tt_name :: string
  tt_production :: bool
  tt_is_service :: bool
  tt_max_failures :: int
  tt_priority :: int
  tt_contact :: "string option"
  tt_tier :: "string option"
  tt_partition :: "(bool \<times> int) option"
  tt_sla :: "sla_policy option"
  tt_metadata :: "(string \<times> string) set"
  tt_resources :: "thrift_resource list"
  tt_constraints :: "(string \<times> task_constraint) list"
  tt_container :: container
  tt_executor_name :: string
  tt_executor_data :: string

record job_configuration =
  jc_owner :: string
  jc_task :: thrift_task
  jc_cron_schedule :: "string option"
  jc_cron_policy :: string
  jc_instances :: int

definition pair_of :: "'a field \<times> 'b field \<Rightarrow> ('a \<times> 'b) cfg" where
  "pair_of p = rbind (fully_interpolated (fst p)) (\<lambda>a. rbind (fully_interpolated (snd p)) (\<lambda>b. Inr (a, b)))"

definition convert_metadata :: "job_spec \<Rightarrow> (string \<times> string) list \<Rightarrow> (string \<times> string) set cfg" where
  "convert_metadata j metadata =
     rbind (case j_metadata j of None \<Rightarrow> Inr [] | Some kvs \<Rightarrow> traverse pair_of kvs)
       (\<lambda>kvs. Inr (set kvs \<union> set metadata))"

definition megabyte :: int where "megabyte = 1024 * 1024"

definition convert_resources :: "job_spec \<Rightarrow> string list \<Rightarrow> thrift_resource list cfg" where
  "convert_resources j ports =
     (case j_resources j of None \<Rightarrow> Inl (Own InvalidConfig)
      | Some r \<Rightarrow> rbind (fully_interpolated (tr_ram r)) (\<lambda>ram.
          if ram = 0 then rbind (fully_interpolated (tr_disk r)) (\<lambda>_. Inl (Own InvalidConfig)) else
          rbind (fully_interpolated (tr_disk r)) (\<lambda>disk.
          if disk = 0 then Inl (Own InvalidConfig) else
          rbind (fully_interpolated (tr_cpu r)) (\<lambda>cpus.
          let ram_mb = ram div megabyte; disk_mb = disk div megabyte in
          if cpus \<le> 0 \<or> ram_mb \<le> 0 \<or> disk_mb \<le> 0 then Inl (Own InvalidConfig) else
          rbind (fully_interpolated (tr_gpu r)) (\<lambda>gpus.
            Inr ([Num_cpus cpus, Ram_mb ram_mb, Disk_mb disk_mb] @ map Named_port ports
              @ (if gpus \<noteq> 0 then [Num_gpus gpus] else [])))))))"

definition check_underlying :: "underlying \<Rightarrow> unit cfg" where
  "check_underlying u =
     (case assert_valid_task (u_task u) of
        Inl (Own InvalidTaskError) \<Rightarrow> Inl (Own InvalidConfig)
      | Inl (Own e) \<Rightarrow> Inl (Own (Of_task e))
      | Inl (Py e) \<Rightarrow> Inl (Py e)
      | Inr _ \<Rightarrow> if u_typechecks u then Inr () else Inl (Own InvalidConfig))"

definition unbound_refs :: "underlying \<Rightarrow> job_ref list" where
  "unbound_refs u =
     [r \<leftarrow> u_refs u. \<not> (case r of Other_ref _ \<Rightarrow> False | _ \<Rightarrow> True)]"

definition aurora_executor_name :: string where "aurora_executor_name = ''AuroraExecutor''"

definition executor_config :: "job_spec \<Rightarrow> underlying \<Rightarrow> (string \<times> string) cfg" where
  "executor_config j u =
     rbind (fully_interpolated (j_executor_name j)) (\<lambda>n.
       if n = aurora_executor_name then Inr (aurora_executor_name, u_json u)
       else rbind (fully_interpolated (j_executor_data j)) (\<lambda>d. Inr (n, d)))"

definition convert_key :: "job_spec \<Rightarrow> (string \<times> string \<times> string) cfg" where
  "convert_key j =
     rbind (rbind (fully_interpolated (j_role j)) assert_valid_field) (\<lambda>r.
     rbind (rbind (fully_interpolated (j_environment j)) assert_valid_field) (\<lambda>e.
     rbind (rbind (fully_interpolated (j_name j)) assert_valid_field) (\<lambda>n. Inr (r, e, n))))"

definition convert_task :: "job_spec \<Rightarrow> underlying \<Rightarrow> string \<times> string \<times> string
    \<Rightarrow> (string \<times> string) list \<Rightarrow> string list \<Rightarrow> thrift_task cfg" where
  "convert_task j u key metadata ports =
     (case key of (role, env, name) \<Rightarrow>
      rbind (fully_interpolated (j_production j)) (\<lambda>production.
      rbind (fully_interpolated (j_service j)) (\<lambda>is_service.
      rbind (fully_interpolated (j_max_task_failures j)) (\<lambda>max_failures.
      rbind (fully_interpolated (j_priority j)) (\<lambda>priority.
      rbind (not_empty_or (j_contact j) None Some) (\<lambda>contact.
      rbind (not_empty_or (j_tier j) None Some) (\<lambda>tier.
      rbind (optionally pair_of (j_partition_policy j)) (\<lambda>partition.
      rbind (optionally create_sla_policy (j_sla_policy j)) (\<lambda>sla.
      rbind (convert_metadata j metadata) (\<lambda>md.
      rbind (convert_resources j ports) (\<lambda>resources.
      rbind (rbind (not_empty_or (j_constraints j) [] id) constraints_to_thrift) (\<lambda>constraints.
      rbind (create_container_config (j_container j)) (\<lambda>container.
      rbind (check_underlying u) (\<lambda>_.
      if unbound_refs u \<noteq> [] then Inl (Own InvalidConfig) else
      rbind (executor_config j u) (\<lambda>executor.
        Inr \<lparr>tt_role = role, tt_environment = env, tt_name = name, tt_production = production,
          tt_is_service = is_service, tt_max_failures = max_failures, tt_priority = priority,
          tt_contact = contact, tt_tier = tier, tt_partition = partition, tt_sla = sla, tt_metadata = md,
          tt_resources = resources, tt_constraints = constraints, tt_container = container,
          tt_executor_name = fst executor, tt_executor_data = snd executor\<rparr>)))))))))))))))"

definition convert :: "string \<Rightarrow> job_spec \<Rightarrow> underlying \<Rightarrow> (string \<times> string) list \<Rightarrow> string list
    \<Rightarrow> job_configuration cfg" where
  "convert user j u metadata ports =
     rbind (convert_key j) (\<lambda>key. rbind (convert_task j u key metadata ports) (\<lambda>task.
     rbind (not_empty_or (j_cron_schedule j) None Some) (\<lambda>schedule.
     rbind (select_cron_policy (j_cron_policy j)) (\<lambda>policy.
     rbind (fully_interpolated (j_instances j)) (\<lambda>n.
       Inr \<lparr>jc_owner = user, jc_task = task, jc_cron_schedule = schedule, jc_cron_policy = policy,
         jc_instances = n\<rparr>)))))"

section \<open>The configuration\<close>

text \<open>A job of a configuration file: what \<^verbatim>\<open>str\<close> makes of its fields, and which required fields it has.\<close>

record listed_job =
  l_cluster :: string
  l_role :: string
  l_env :: string
  l_name :: string
  l_has_cluster :: bool
  l_has_task :: bool
  l_has_role :: bool
  l_has_processes :: bool

definition selected :: "string option \<Rightarrow> string \<Rightarrow> bool" where
  "selected wanted s = (wanted = None \<or> wanted = Some s)"

definition pick :: "listed_job list \<Rightarrow> string option \<Rightarrow> (listed_job \<Rightarrow> listed_job)
    \<Rightarrow> string option \<Rightarrow> string option \<Rightarrow> string option \<Rightarrow> listed_job cfg" where
  "pick jobs name bind cluster role env =
     (if jobs = [] then Inl (Py ValueError)
      else case name of
        None \<Rightarrow> if length jobs > 1 then Inl (Py ValueError) else Inr (bind (hd jobs))
      | Some n \<Rightarrow>
          (case [j \<leftarrow> map bind jobs. selected cluster (l_cluster j) \<and> selected role (l_role j)
                    \<and> selected env (l_env j) \<and> l_name j = n] of
             [j] \<Rightarrow> Inr j | _ \<Rightarrow> Inl (Py ValueError)))"

definition validate_job :: "listed_job \<Rightarrow> unit cfg" where
  "validate_job j =
     (if l_has_cluster j \<and> l_has_task j \<and> l_has_role j \<and> l_has_processes j then Inr ()
      else Inl (Own InvalidConfig))"

text \<open>The instance that \<^verbatim>\<open>context\<close> binds: only a true value is kept.\<close>

definition context_instance :: "int option \<Rightarrow> int option" where
  "context_instance i = (case i of Some n \<Rightarrow> if n = 0 then None else Some n | None \<Rightarrow> None)"

definition add_metadata :: "(string \<times> string) list \<Rightarrow> string \<Rightarrow> string \<Rightarrow> (string \<times> string) list" where
  "add_metadata md k v = md @ [(k, v)]"

text \<open>\<^verbatim>\<open>AuroraConfig.job\<close>; \<open>announce\<close> is the portmap of the announcer, if the job has one.\<close>

definition config_job :: "string \<Rightarrow> job_spec \<Rightarrow> underlying \<Rightarrow> (string \<times> string) list \<Rightarrow> portmap option
    \<Rightarrow> string list \<Rightarrow> job_configuration cfg option" where
  "config_job user j u metadata announce referenced =
     map_option (\<lambda>r. rbind r (\<lambda>ports. convert user j u metadata ports))
       (config_ports (case announce of None \<Rightarrow> [] | Some m \<Rightarrow> m) referenced)"

definition is_dedicated :: "(string \<times> string) list option \<Rightarrow> bool" where
  "is_dedicated constraints =
     (case constraints of None \<Rightarrow> False | Some cs \<Rightarrow> ''dedicated'' \<in> fst ` set cs)"

section \<open>Paths of job keys\<close>

lemma split_max_no_sep: "c \<notin> set x \<Longrightarrow> split_max c n x = [x]"
  by (induction c n x rule: split_max.induct) auto

lemma split_max_first: "c \<notin> set x \<Longrightarrow> split_max c (Suc n) (x @ c # xs) = x # split_max c n xs"
  by (induction x) auto

lemma word_char_no_slash: "\<not> word_char (CHR ''/'')" "\<not> word_char (CHR 0x0A)"
  by (simp_all add: word_char_def)

lemma valid_identifier_no_slash: "valid_identifier s \<Longrightarrow> CHR ''/'' \<notin> set s"
proof -
  assume v: "valid_identifier s"
  have d: "CHR ''/'' \<notin> set (drop_newline s)"
    using v word_char_no_slash(1) unfolding valid_identifier_def list_all_iff by blast
  show ?thesis
  proof (cases "s \<noteq> [] \<and> last s = CHR 0x0A")
    case True
    then have "butlast s @ [last s] = s" using append_butlast_last_id by blast
    then have "s = drop_newline s @ [CHR 0x0A]" using True by (simp add: drop_newline_def)
    then have "set s = insert (CHR 0x0A) (set (drop_newline s))" by (metis list.simps(15) rotate1.simps(2) set_rotate1)
    then show ?thesis using d by simp
  next
    case False
    then have "drop_newline s = s" by (auto simp: drop_newline_def)
    then show ?thesis using d by simp
  qed
qed

lemma new_job_key_valid:
  "new_job_key c r e n = Inr k \<Longrightarrow> k = \<lparr>ak_cluster = c, ak_role = r, ak_env = e, ak_name = n\<rparr> \<and>
     valid_identifier r \<and> valid_identifier e \<and> valid_identifier n"
  by (auto simp: new_job_key_def assert_valid_identifier_def rbind_Inr_iff split: if_splits)

definition key_ok :: "aurora_job_key \<Rightarrow> bool" where
  "key_ok k = (valid_identifier (ak_role k) \<and> valid_identifier (ak_env k) \<and> valid_identifier (ak_name k))"

lemma from_path_to_path:
  assumes "key_ok k" "CHR ''/'' \<notin> set (ak_cluster k)"
  shows "from_path (to_path k) = Inr k"
proof -
  let ?s = "CHR ''/''"
  have no: "?s \<notin> set (ak_role k)" "?s \<notin> set (ak_env k)" "?s \<notin> set (ak_name k)"
    using assms(1) valid_identifier_no_slash by (auto simp: key_ok_def)
  have "split_max ?s (Suc (Suc (Suc 1))) (ak_cluster k @ ?s # ak_role k @ ?s # ak_env k @ ?s # ak_name k) =
      [ak_cluster k, ak_role k, ak_env k, ak_name k]"
    using assms(2) no by (simp only: split_max_first split_max_no_sep not_False_eq_True)
  then have "split_max ?s 4 (to_path k) = [ak_cluster k, ak_role k, ak_env k, ak_name k]"
    by (simp add: to_path_def numeral_eq_Suc)
  then show ?thesis
    using assms(1) by (simp add: from_path_def new_job_key_def assert_valid_identifier_def key_ok_def)
qed

lemma split_last: "c \<notin> set x \<Longrightarrow> c \<notin> set y \<Longrightarrow> a @ c # x = b @ c # y \<Longrightarrow> a = b \<and> x = y"
proof -
  assume no: "c \<notin> set x" "c \<notin> set y" and eq: "a @ c # x = b @ c # y"
  have t: "takeWhile (\<lambda>z. z \<noteq> c) (rev (d @ c # w)) = rev w" if "c \<notin> set w" for d w
  proof -
    have "takeWhile (\<lambda>z. z \<noteq> c) (rev w @ c # rev d) = rev w"
      by (subst takeWhile_append2) (use that in auto)
    then show ?thesis by simp
  qed
  have "rev x = rev y" using t [OF no(1), of a] t [OF no(2), of b] eq by metis
  then show ?thesis using eq by simp
qed

lemma to_path_inj:
  assumes "key_ok a" "key_ok b" "to_path a = to_path b"
  shows "a = b"
proof -
  let ?s = "CHR ''/''"
  have no: "?s \<notin> set (ak_role k)" "?s \<notin> set (ak_env k)" "?s \<notin> set (ak_name k)" if "key_ok k" for k
    using that valid_identifier_no_slash by (auto simp: key_ok_def)
  have 1: "(ak_cluster a @ ?s # ak_role a @ ?s # ak_env a) @ ?s # ak_name a =
      (ak_cluster b @ ?s # ak_role b @ ?s # ak_env b) @ ?s # ak_name b"
    using assms(3) by (simp add: to_path_def)
  have 2: "(ak_cluster a @ ?s # ak_role a) @ ?s # ak_env a = (ak_cluster b @ ?s # ak_role b) @ ?s # ak_env b"
    "ak_name a = ak_name b"
    using split_last [OF no(3) no(3) 1] assms(1,2) by auto
  have 3: "ak_cluster a @ ?s # ak_role a = ak_cluster b @ ?s # ak_role b" "ak_env a = ak_env b"
    using split_last [OF no(2) no(2) 2(1)] assms(1,2) by auto
  have "ak_cluster a = ak_cluster b" "ak_role a = ak_role b"
    using split_last [OF no(1) no(1) 3(1)] assms(1,2) by auto
  then show ?thesis using 2 3 by simp
qed

section \<open>Following ports\<close>

inductive port_edge :: "portmap \<Rightarrow> port \<Rightarrow> port \<Rightarrow> bool" for m where
  "lookup_port m p = Some q \<Longrightarrow> port_edge m p q"

lemma lookup_port_key: "lookup_port m p = Some q \<Longrightarrow> p \<in> Port_name ` set (map fst m)"
proof (cases p)
  case (Port_name s)
  assume "lookup_port m p = Some q"
  then have "(s, q) \<in> set m" by (auto simp: lookup_port_def Port_name dest: map_of_SomeD)
  then show ?thesis by (force simp: Port_name)
qed (simp add: lookup_port_def)

definition port_outcome :: "portmap \<Rightarrow> port \<Rightarrow> port cfg \<Rightarrow> bool" where
  "port_outcome m p r = (case r of
     Inr t \<Rightarrow> lookup_port m t = None \<and> (port_edge m)\<^sup>*\<^sup>* p t
   | Inl e \<Rightarrow> e = Own CycleException \<and> (\<exists>x. (port_edge m)\<^sup>*\<^sup>* p x \<and> (port_edge m)\<^sup>+\<^sup>+ x x))"

lemma follow_ports_ends:
  "p \<notin> set visited \<Longrightarrow> distinct visited \<Longrightarrow> set visited \<subseteq> Port_name ` set (map fst m) \<Longrightarrow>
     \<forall>v\<in>set visited. (port_edge m)\<^sup>+\<^sup>+ v p \<Longrightarrow>
     \<exists>r. follow_ports m visited p = Some r \<and> port_outcome m p r"
proof (induction "length m - length visited" arbitrary: visited p rule: less_induct)
  case less
  show ?case
  proof (cases "lookup_port m p")
    case None
    then show ?thesis by (subst follow_ports.simps) (simp add: port_outcome_def)
  next
    case (Some q)
    have e: "port_edge m p q" using Some by (rule port_edge.intros)
    show ?thesis
    proof (cases "q \<in> set (p # visited)")
      case True
      then have "(port_edge m)\<^sup>+\<^sup>+ p p"
        using e less.prems(4) by (auto intro: tranclp_into_tranclp2 tranclp.r_into_trancl dest: tranclp_into_tranclp2)
      then show ?thesis using Some True by (subst follow_ports.simps) (auto simp: port_outcome_def)
    next
      case False
      have sub: "set (p # visited) \<subseteq> Port_name ` set (map fst m)"
        using less.prems(3) lookup_port_key [OF Some] by auto
      have "length (p # visited) = card (set (p # visited))" using less.prems(1,2) by (simp add: distinct_card)
      also have "\<dots> \<le> card (Port_name ` set (map fst m))" using sub by (intro card_mono) auto
      also have "\<dots> \<le> length m" by (metis card_image_le card_length finite_set le_trans length_map)
      finally have dec: "length m - length (p # visited) < length m - length visited" by simp
      obtain r where r: "follow_ports m (p # visited) q = Some r" "port_outcome m q r"
        using less.hyps [OF dec, of q] False less.prems sub e
        by (auto intro: tranclp.trancl_into_trancl)
      have "port_outcome m p r"
        using r(2) e by (auto simp: port_outcome_def split: sum.splits intro: converse_rtranclp_into_rtranclp)
      then show ?thesis using Some False r(1) by (subst follow_ports.simps) auto
    qed
  qed
qed

lemma resolve_one_ends:
  assumes "n \<in> set (map fst m)"
  shows "\<exists>r. resolve_one m n = Some r \<and> port_outcome m (Port_name n) r"
proof -
  obtain p where p: "map_of m n = Some p" using assms by (metis map_of_eq_None_iff not_Some_eq set_map)
  then have e: "port_edge m (Port_name n) p" by (auto simp: lookup_port_def intro: port_edge.intros)
  obtain r where r: "follow_ports m [] p = Some r" "port_outcome m p r"
    using follow_ports_ends [of p "[]" m] by auto
  have "port_outcome m (Port_name n) r"
    using r(2) e by (auto simp: port_outcome_def split: sum.splits intro: converse_rtranclp_into_rtranclp)
  then show ?thesis using r(1) p by (simp add: resolve_one_def)
qed

text \<open>A resolved portmap: each name stands for the end of its chain.\<close>

definition resolved :: "portmap \<Rightarrow> portmap \<Rightarrow> bool" where
  "resolved m ps = (\<forall>(n, t)\<in>set ps. lookup_port m t = None \<and> (port_edge m)\<^sup>*\<^sup>* (Port_name n) t)"

lemma resolve_all_ends:
  "set ns \<subseteq> set (map fst m) \<Longrightarrow> \<exists>r. resolve_all m ns = Some r \<and>
     (case r of Inr ps \<Rightarrow> map fst ps = ns \<and> resolved m ps
      | Inl e \<Rightarrow> e = Own CycleException \<and> (\<exists>n\<in>set ns. \<exists>x. (port_edge m)\<^sup>*\<^sup>* (Port_name n) x \<and> (port_edge m)\<^sup>+\<^sup>+ x x))"
proof (induction ns)
  case Nil
  then show ?case by (simp add: resolved_def)
next
  case (Cons n ns)
  obtain r where r: "resolve_one m n = Some r" "port_outcome m (Port_name n) r"
    using resolve_one_ends [of n m] Cons.prems by auto
  obtain r' where r': "resolve_all m ns = Some r'" "case r' of Inr ps \<Rightarrow> map fst ps = ns \<and> resolved m ps
      | Inl e \<Rightarrow> e = Own CycleException \<and> (\<exists>n\<in>set ns. \<exists>x. (port_edge m)\<^sup>*\<^sup>* (Port_name n) x \<and> (port_edge m)\<^sup>+\<^sup>+ x x)"
    using Cons.IH Cons.prems by auto
  show ?case
  proof (cases r)
    case (Inl e)
    then show ?thesis using r by (simp add: port_outcome_def)
  next
    case (Inr t)
    then show ?thesis using r r' by (cases r') (auto simp: port_outcome_def resolved_def)
  qed
qed

lemma port_edge_det: "port_edge m a b \<Longrightarrow> port_edge m a c \<Longrightarrow> b = c"
  by (metis port_edge.cases option.inject)

lemma port_edge_along: "(port_edge m)\<^sup>*\<^sup>* a b \<Longrightarrow> port_edge m a c \<Longrightarrow> a = b \<or> (port_edge m)\<^sup>*\<^sup>* c b"
  by (metis converse_rtranclpE port_edge_det)

lemma terminal_no_edge: "lookup_port m t = None \<Longrightarrow> \<not> port_edge m t q"
  by (metis port_edge.cases option.distinct(1))

lemma terminal_not_cyclic:
  assumes p: "(port_edge m)\<^sup>*\<^sup>* p t" and t: "lookup_port m t = None"
    and x: "(port_edge m)\<^sup>*\<^sup>* p x" "(port_edge m)\<^sup>+\<^sup>+ x x"
  shows False
proof -
  have reach: "(port_edge m)\<^sup>*\<^sup>* x t"
    using x(1) p
  proof (induction rule: rtranclp_induct)
    case (step y z)
    then show ?case using port_edge_along terminal_no_edge [OF t] by metis
  qed simp
  have "(port_edge m)\<^sup>+\<^sup>+ t t"
    using reach x(2)
  proof (induction rule: rtranclp_induct)
    case (step y z)
    have "(port_edge m)\<^sup>+\<^sup>+ y y" by (rule step.IH) (rule step.prems)
    then obtain c where c: "port_edge m y c" "(port_edge m)\<^sup>*\<^sup>* c y" by (meson tranclpD)
    then have "c = z" using port_edge_det step.hyps(2) by metis
    then show ?case using c step.hyps(2) by (meson rtranclp_into_tranclp1)
  qed simp
  then show False using terminal_no_edge [OF t] by (meson tranclpD)
qed

text \<open>Following some name of the map runs into a cycle.\<close>

definition port_cycle :: "portmap \<Rightarrow> bool" where
  "port_cycle m = (\<exists>n\<in>set (map fst m). \<exists>x. (port_edge m)\<^sup>*\<^sup>* (Port_name n) x \<and> (port_edge m)\<^sup>+\<^sup>+ x x)"

lemma resolved_no_cycle:
  assumes "resolved m ps" "map fst ps = map fst m"
  shows "\<not> port_cycle m"
proof
  assume "port_cycle m"
  then obtain n x where n: "n \<in> set (map fst m)" "(port_edge m)\<^sup>*\<^sup>* (Port_name n) x" "(port_edge m)\<^sup>+\<^sup>+ x x"
    unfolding port_cycle_def by blast
  then have "n \<in> fst ` set ps" using assms(2) by (metis list.set_map)
  then obtain t where "(n, t) \<in> set ps" by auto
  then have t: "lookup_port m t = None" "(port_edge m)\<^sup>*\<^sup>* (Port_name n) t"
    using assms(1) by (auto simp: resolved_def)
  show False by (rule terminal_not_cyclic [OF t(2,1) n(2,3)])
qed

lemma resolve_ports_ends:
  "\<exists>r. resolve_ports m = Some r \<and>
     (case r of Inl e \<Rightarrow> e = Own CycleException \<and> port_cycle (int_ports m)
      | Inr ps \<Rightarrow> map fst ps = map fst m \<and> resolved (int_ports m) ps \<and> \<not> port_cycle (int_ports m))"
proof -
  let ?m = "int_ports m"
  have names: "map fst ?m = map fst m" by (simp add: int_ports_def comp_def split_def)
  have "set (map fst m) \<subseteq> set (map fst ?m)" unfolding names by (rule subset_refl)
  from resolve_all_ends [OF this] obtain r where r: "resolve_all ?m (map fst m) = Some r"
    "case r of Inr ps \<Rightarrow> map fst ps = map fst m \<and> resolved ?m ps
      | Inl e \<Rightarrow> e = Own CycleException \<and> (\<exists>n\<in>set (map fst m). \<exists>x. (port_edge ?m)\<^sup>*\<^sup>* (Port_name n) x \<and> (port_edge ?m)\<^sup>+\<^sup>+ x x)"
    by (elim exE conjE)
  show ?thesis
  proof (cases r)
    case (Inl e)
    then have "e = Own CycleException \<and> port_cycle ?m"
      using r(2) unfolding port_cycle_def names Inl sum.case by - assumption
    then show ?thesis using r(1) Inl by (simp add: resolve_ports_def)
  next
    case (Inr ps)
    then have p: "map fst ps = map fst m" "resolved ?m ps" using r(2) by simp_all
    have "\<not> port_cycle ?m" by (rule resolved_no_cycle [OF p(2)]) (simp only: p(1) names)
    then show ?thesis using r(1) Inr p by (simp add: resolve_ports_def)
  qed
qed

section \<open>Properties\<close>

text \<open>C27: resolving a portmap ends on every portmap.  It raises \<open>CycleException\<close> exactly when
  following some name of the map runs into a cycle; otherwise the result has the names of the map in its
  order, and each stands for the end of its chain, which is not a name of the map.\<close>

theorem port_resolution:
  "\<exists>r. resolve_ports m = Some r \<and>
     (if port_cycle (int_ports m) then r = Inl (Own CycleException)
      else \<exists>ps. r = Inr ps \<and> map fst ps = map fst m \<and> resolved (int_ports m) ps)"
proof -
  obtain r where r: "resolve_ports m = Some r"
    "case r of Inl e \<Rightarrow> e = Own CycleException \<and> port_cycle (int_ports m)
      | Inr ps \<Rightarrow> map fst ps = map fst m \<and> resolved (int_ports m) ps \<and> \<not> port_cycle (int_ports m)"
    using resolve_ports_ends [of m] by (elim exE conjE)
  then show ?thesis by (cases r) simp_all
qed

text \<open>A job key survives its path, and two valid keys with the same path, that is, which the
  code takes for equal, are equal: no slash of a cluster can make one key look like another.\<close>

theorem job_key_roundtrip:
  assumes "new_job_key cluster role env name = Inr k" "new_job_key cluster' role' env' name' = Inr k'"
  shows "(CHR ''/'' \<notin> set cluster \<longrightarrow> from_path (to_path k) = Inr k) \<and> (job_key_eq k k' \<longleftrightarrow> k = k')"
proof -
  have k: "k = \<lparr>ak_cluster = cluster, ak_role = role, ak_env = env, ak_name = name\<rparr>" "key_ok k" "key_ok k'"
    using new_job_key_valid [OF assms(1)] new_job_key_valid [OF assms(2)] by (auto simp: key_ok_def)
  then have "from_path (to_path k) = Inr k" if "CHR ''/'' \<notin> set cluster"
    using from_path_to_path that by simp
  moreover have "job_key_eq k k' \<longleftrightarrow> k = k'"
    using to_path_inj k(2,3) by (auto simp: job_key_eq_def)
  ultimately show ?thesis by blast
qed

theorem job_key_roundtrip_witness:
  "\<exists>k. new_job_key ''west'' ''www'' ''prod'' ''web'' = Inr k \<and> from_path ''west/www/prod/web'' = Inr k"
proof -
  have k: "new_job_key ''west'' ''www'' ''prod'' ''web'' =
      Inr \<lparr>ak_cluster = ''west'', ak_role = ''www'', ak_env = ''prod'', ak_name = ''web''\<rparr>"
    by (simp add: new_job_key_def assert_valid_identifier_def valid_identifier_def drop_newline_def word_char_def)
  have "from_path (to_path \<lparr>ak_cluster = ''west'', ak_role = ''www'', ak_env = ''prod'', ak_name = ''web''\<rparr>) =
      Inr \<lparr>ak_cluster = ''west'', ak_role = ''www'', ak_env = ''prod'', ak_name = ''web''\<rparr>"
    using job_key_roundtrip [OF k k] by simp
  then show ?thesis using k by (simp add: to_path_def)
qed

section \<open>The message of a job\<close>

definition resources_ok :: "thrift_resource list \<Rightarrow> string list \<Rightarrow> bool" where
  "resources_ok rs ports =
     (\<exists>cpus ram disk gpus. 0 < cpus \<and> 0 < ram \<and> 0 < disk \<and>
        rs = [Num_cpus cpus, Ram_mb ram, Disk_mb disk] @ map Named_port ports @ gpus \<and>
        (gpus = [] \<or> (\<exists>n. n \<noteq> 0 \<and> gpus = [Num_gpus n])))"

lemma convert_resources_ok:
  "convert_resources j ports = Inr rs \<Longrightarrow> resources_ok rs ports"
  by (auto simp: convert_resources_def resources_ok_def rbind_Inr_iff Let_def split: option.splits if_splits)

lemma convert_key_ok:
  "convert_key j = Inr (r, e, n) \<Longrightarrow> valid_identifier r \<and> valid_identifier e \<and> valid_identifier n"
  by (auto simp: convert_key_def rbind_Inr_iff assert_valid_field_def split: if_splits)

lemma parse_enum_ok: "parse_enum names v = Inr s \<Longrightarrow> s \<in> set names"
  by (auto simp: parse_enum_def split: option.splits if_splits)

definition container_ok :: "container \<Rightarrow> bool" where
  "container_ok c =
     (case c of In_mesos _ (Some vs) \<Rightarrow> \<forall>v\<in>set vs. vol_mode v \<in> {''RW'', ''RO''} | _ \<Rightarrow> True)"

lemma volumes_ok: "volumes_to_thrift vs = Inr ts \<Longrightarrow> \<forall>v\<in>set ts. vol_mode v \<in> {''RW'', ''RO''}"
proof (induction vs arbitrary: ts)
  case (Cons v vs)
  then show ?case
    using parse_enum_ok by (fastforce simp: volumes_to_thrift_def rbind_Inr_iff)
qed (simp add: volumes_to_thrift_def)

lemma create_container_ok: "create_container_config c = Inr t \<Longrightarrow> container_ok t"
  by (induction c rule: create_container_config.induct)
    (auto simp: container_ok_def create_docker_container_def rbind_Inr_iff dest: volumes_ok)

lemma task_validator_plans:
  "assert_valid_task v = Inr u \<Longrightarrow> \<exists>ps tp tp'. ts_processes (tv_spec v) = Some ps \<and>
     list_all (\<lambda>p. valid_process_name (sp_name p)) ps \<and>
     task_planner_init (plan_task (tv_spec v) ps) (Some (\<lambda>p. \<not> pc_final p)) = Inr tp \<and>
     task_planner_init (plan_task (tv_spec v) ps) (Some pc_final) = Inr tp'"
  by (auto simp: assert_valid_task_def assert_valid_names_def assert_valid_plan_def try_plan_def iterate_def
      rbind_Inr_iff split: option.splits sum.splits if_splits exn.splits plan_error.splits)

lemma check_underlying_ok: "check_underlying u = Inr x \<Longrightarrow> assert_valid_task (u_task u) = Inr () \<and> u_typechecks u"
  by (auto simp: check_underlying_def split: sum.splits exn.splits task_error.splits if_splits)

lemma unbound_refs_none: "unbound_refs u = [] \<Longrightarrow> Other_ref r \<notin> set (u_refs u)"
  by (auto simp: unbound_refs_def filter_empty_conv)

text \<open>C9: the message that \<open>convert\<close> makes of a job is well formed: role, environment and name are
  valid identifiers, CPUs, memory and disk are the first resources and positive, the ports follow, each
  volume has a mode and the cron policy is one of the scheduler's; besides, no reference but those that
  the executor binds is left open, every process has a valid name, and the regular and the finalizing
  processes of the task have plans.\<close>

theorem convert_well_formed:
  assumes "convert user j u metadata ports = Inr jc"
  shows "valid_identifier (tt_role (jc_task jc)) \<and> valid_identifier (tt_environment (jc_task jc)) \<and>
    valid_identifier (tt_name (jc_task jc)) \<and> resources_ok (tt_resources (jc_task jc)) ports \<and>
    container_ok (tt_container (jc_task jc)) \<and>
    jc_cron_policy jc \<in> {''KILL_EXISTING'', ''CANCEL_NEW'', ''RUN_OVERLAP''} \<and>
    set metadata \<subseteq> tt_metadata (jc_task jc) \<and> (\<forall>r. Other_ref r \<notin> set (u_refs u)) \<and>
    (\<exists>ps tp tp'. ts_processes (tv_spec (u_task u)) = Some ps \<and>
       list_all (\<lambda>p. valid_process_name (sp_name p)) ps \<and>
       task_planner_init (plan_task (tv_spec (u_task u)) ps) (Some (\<lambda>p. \<not> pc_final p)) = Inr tp \<and>
       task_planner_init (plan_task (tv_spec (u_task u)) ps) (Some pc_final) = Inr tp')"
proof -
  obtain r e n task where key: "convert_key j = Inr (r, e, n)"
    and task: "convert_task j u (r, e, n) metadata ports = Inr task" "jc_task jc = task"
    and policy: "select_cron_policy (j_cron_policy j) = Inr (jc_cron_policy jc)"
    using assms by (auto simp: convert_def rbind_Inr_iff)
  obtain md res con where t: "tt_role task = r" "tt_environment task = e" "tt_name task = n"
    "tt_metadata task = md" "tt_resources task = res" "tt_container task = con"
    and parts: "convert_metadata j metadata = Inr md" "convert_resources j ports = Inr res"
      "create_container_config (j_container j) = Inr con" "check_underlying u = Inr ()" "unbound_refs u = []"
    using task(1) unfolding convert_task_def
    by (auto simp: rbind_Inr_iff split: if_splits)
  have "set metadata \<subseteq> md" using parts(1) by (auto simp: convert_metadata_def rbind_Inr_iff)
  then show ?thesis
    using convert_key_ok [OF key] convert_resources_ok [OF parts(2)] create_container_ok [OF parts(3)]
      task_validator_plans [OF conjunct1 [OF check_underlying_ok [OF parts(4)]]] unbound_refs_none [OF parts(5)]
      parse_enum_ok [OF policy [unfolded select_cron_policy_def]] task(2)
    by (simp add: t)
qed

definition sample_job :: job_spec where
  "sample_job = \<lparr>j_role = Value ''www'', j_environment = Value ''prod'', j_name = Value ''web'',
     j_production = Value True, j_service = Value True, j_max_task_failures = Value 1, j_priority = Value 0,
     j_contact = Empty, j_tier = Empty, j_partition_policy = None, j_sla_policy = Some (Count_spec (Value 3) (Value 60)),
     j_metadata = Some [(Value ''k'', Value ''v'')],
     j_resources = Some \<lparr>tr_cpu = Value 1, tr_ram = Value 3000000, tr_disk = Value 2000000, tr_gpu = Value 0\<rparr>,
     j_constraints = Value [(''host'', ''limit:1'')], j_container = None,
     j_executor_name = Value ''AuroraExecutor'', j_executor_data = Value [], j_cron_schedule = Empty,
     j_cron_policy = Some ''kill_existing'', j_instances = Value 3\<rparr>"

definition sample_underlying :: underlying where
  "sample_underlying = \<lparr>u_task = \<lparr>tv_spec = simple_task ''web'' ''run'', tv_typechecks = True, tv_open = [],
       tv_process_open = [[]], tv_unbindable = (\<lambda>_. [])\<rparr>,
     u_typechecks = True, u_refs = [Instance_ref], u_json = ''x''\<rparr>"

lemmas run_convert = sample_job_def convert_def convert_key_def assert_valid_field_def
  valid_identifier_def drop_newline_def word_char_def convert_task_def optionally_def pair_of_def

lemma sample_valid: "assert_valid_task (u_task sample_underlying) = Inr ()"
  by (simp add: sample_underlying_def assert_valid_task_def assert_valid_names_def iterate_def simple_task_def
      default_task_def default_process_def valid_process_name_def assert_typecheck_def assert_valid_plan_def
      try_plan_def plan_task_def run_plan assert_all_refs_bound_def)

lemma sample_converts: "\<exists>jc. convert ''me'' sample_job sample_underlying [] [''http''] = Inr jc \<and>
    tt_resources (jc_task jc) = [Num_cpus 1, Ram_mb 2, Disk_mb 1, Named_port ''http'']"
proof -
  have key: "convert_key sample_job = Inr (''www'', ''prod'', ''web'')"
    by (simp add: run_convert)
  have res: "convert_resources sample_job [''http''] = Inr [Num_cpus 1, Ram_mb 2, Disk_mb 1, Named_port ''http'']"
    by (simp add: convert_resources_def sample_job_def megabyte_def)
  have con: "constraints_to_thrift [(''host'', ''limit:1'')] = Inr [(''host'', Limit 1)]"
    by (simp add: constraints_to_thrift_def constraint_to_thrift_def py_int_def blank_def digit_of_def)
  have pol: "select_cron_policy (Some ''kill_existing'') = Inr ''KILL_EXISTING''"
    by code_simp
  have chk: "check_underlying sample_underlying = Inr ()"
    using sample_valid by (simp add: check_underlying_def) (simp add: sample_underlying_def)
  have refs: "unbound_refs sample_underlying = []" by (simp add: unbound_refs_def sample_underlying_def)
  have md: "convert_metadata sample_job [] = Inr {(''k'', ''v'')}"
    by (simp add: convert_metadata_def sample_job_def pair_of_def)
  have ex: "executor_config sample_job sample_underlying = Inr (''AuroraExecutor'', ''x'')"
    by (simp add: executor_config_def sample_job_def sample_underlying_def aurora_executor_name_def)
  have "\<exists>t. convert_task sample_job sample_underlying (''www'', ''prod'', ''web'') [] [''http''] = Inr t \<and>
      tt_resources t = [Num_cpus 1, Ram_mb 2, Disk_mb 1, Named_port ''http'']"
    unfolding convert_task_def by (simp add: res md chk refs ex) (simp add: sample_job_def optionally_def con)
  then show ?thesis using key pol unfolding convert_def by (auto simp: sample_job_def)
qed

theorem convert_well_formed_witness:
  "\<exists>jc. convert ''me'' sample_job sample_underlying [] [''http''] = Inr jc \<and>
     resources_ok (tt_resources (jc_task jc)) [''http''] \<and> valid_identifier (tt_name (jc_task jc))"
proof -
  obtain jc where jc: "convert ''me'' sample_job sample_underlying [] [''http''] = Inr jc"
    using sample_converts by blast
  then show ?thesis using convert_well_formed [OF jc] by blast
qed

text \<open>The first instance of a job has no instance bound.\<close>

lemma context_drops_instance_zero: "context_instance (Some 0) = None" "n \<noteq> 0 \<Longrightarrow> context_instance (Some n) = Some n"
  by (simp_all add: context_instance_def)

end
