(* ===== verification/ClientApi.thy ===== *)
theory ClientApi
  imports JobConfig Updater Scheduler
begin

text \<open>
  The API of the client: \<^verbatim>\<open>apache/aurora/client/api/__init__.py\<close>, and the hooks around it,
  \<^verbatim>\<open>client/hooks/hooked_api.py\<close> and \<^verbatim>\<open>client/config.py\<close>.  Each method of the API builds one call of the
  scheduler proxy: the name of the method, its arguments, and whether the proxy may repeat it.  What
  the proxy makes of a call (theory \<open>Scheduler\<close>) is an argument: a function of the state of the world.
\<close>

section \<open>Calls\<close>

type_synonym thrift_key = "string \<times> string \<times> string"

definition to_thrift :: "aurora_job_key \<Rightarrow> thrift_key" where
  "to_thrift k = (ak_role k, ak_env k, ak_name k)"

text \<open>A status may be missing where a name of a status was not known.\<close>

record task_query =
  tq_role :: "string option"
  tq_env :: "string option"
  tq_job :: "string option"
  tq_statuses :: "schedule_status option set option"
  tq_instances :: "int set option"
  tq_tasks :: "string set option"
  tq_limit :: "int option"

definition no_query :: task_query where
  "no_query = \<lparr>tq_role = None, tq_env = None, tq_job = None, tq_statuses = None, tq_instances = None, tq_tasks = None,
     tq_limit = None\<rparr>"

definition to_thrift_query :: "aurora_job_key \<Rightarrow> task_query" where
  "to_thrift_query k = no_query\<lparr>tq_role := Some (ak_role k), tq_env := Some (ak_env k), tq_job := Some (ak_name k)\<rparr>"

definition build_query :: "string \<Rightarrow> string \<Rightarrow> string option \<Rightarrow> int list option \<Rightarrow> schedule_status set
    \<Rightarrow> task_query" where
  "build_query role job env instances statuses =
     no_query\<lparr>tq_role := Some role, tq_env := env, tq_job := Some job, tq_statuses := Some (Some ` statuses),
       tq_instances := map_option set instances\<rparr>"

datatype update_status = ROLLING_FORWARD | ROLLING_BACK | ROLL_FORWARD_PAUSED | ROLL_BACK_PAUSED
  | ROLLED_FORWARD | ROLLED_BACK | ABORTED | ERROR | FAILED | ROLL_FORWARD_AWAITING_PULSE
  | ROLL_BACK_AWAITING_PULSE

record update_key =
  uk_job :: thrift_key
  uk_id :: string

record update_query =
  uq_role :: "string option"
  uq_job_key :: "thrift_key option"
  uq_user :: "string option"
  uq_statuses :: "update_status set option"
  uq_key :: "update_key option"

record update_request =
  ur_instance_count :: int
  ur_settings :: job_update_settings
  ur_task :: thrift_task
  ur_metadata :: "(string \<times> string) set option"

datatype arg = A_job job_configuration | A_key thrift_key | A_instance thrift_key int | A_int int
  | A_number "rat option" | A_ints "int set option" | A_text "string option" | A_query task_query
  | A_update update_request | A_update_key update_key | A_update_query update_query
  | A_hosts "string list" | A_resources "resource list" | A_policy "rat option" "int option"
  | A_status schedule_status

record proxied =
  px_method :: string
  px_args :: "arg list"
  px_retry :: bool

abbreviation once :: "string \<Rightarrow> arg list \<Rightarrow> proxied" where
  "once m as \<equiv> \<lparr>px_method = m, px_args = as, px_retry = False\<rparr>"

abbreviation repeatable :: "string \<Rightarrow> arg list \<Rightarrow> proxied" where
  "repeatable m as \<equiv> \<lparr>px_method = m, px_args = as, px_retry = True\<rparr>"

section \<open>The methods of the API\<close>

text \<open>The exceptions that leave the client's code: its own, the proxy's, and a command's, with its exit
  code and whether it is already logged.\<close>

datatype client_error = Proxy_error proxy_error | Api_thrift_internal | Update_config_error | Cluster_mismatch
  | Pre_hooks_stopped_call | Command_error int bool | Config_error config_error | System_exit int

type_synonym 'a client = "(client_error, 'a) res"

text \<open>The configuration that a method is given.\<close>

record job_config =
  cf_key :: aurora_job_key
  cf_job :: "job_configuration client"
  cf_instances :: int
  cf_update :: updater_config
  cf_group_size :: "update_strategy \<Rightarrow> pyexc + int"
  cf_enable_hooks :: bool

definition assert_valid_job_key :: "string \<Rightarrow> aurora_job_key \<Rightarrow> unit client" where
  "assert_valid_job_key cluster k =
     (if ak_cluster k = cluster then Inr () else Inl (Own Cluster_mismatch))"

definition create_job :: "job_config \<Rightarrow> proxied client" where
  "create_job c = rbind (cf_job c) (\<lambda>j. Inr (once ''createJob'' [A_job j]))"

definition schedule_cron :: "job_config \<Rightarrow> proxied client" where
  "schedule_cron c = rbind (cf_job c) (\<lambda>j. Inr (once ''scheduleCronJob'' [A_job j]))"

definition deschedule_cron :: "aurora_job_key \<Rightarrow> proxied client" where
  "deschedule_cron k = Inr (once ''descheduleCronJob'' [A_key (to_thrift k)])"

definition populate_job_config :: "job_config \<Rightarrow> proxied client" where
  "populate_job_config c = rbind (cf_job c) (\<lambda>j. Inr (repeatable ''populateJobConfig'' [A_job j]))"

definition start_cronjob :: "string \<Rightarrow> aurora_job_key \<Rightarrow> proxied client" where
  "start_cronjob cluster k =
     rbind (assert_valid_job_key cluster k) (\<lambda>_. Inr (once ''startCronJob'' [A_key (to_thrift k)]))"

definition get_jobs :: "string option \<Rightarrow> proxied client" where
  "get_jobs role = Inr (repeatable ''getJobs'' [A_text role])"

definition add_instances :: "aurora_job_key \<Rightarrow> int \<Rightarrow> int \<Rightarrow> proxied client" where
  "add_instances k instance_id count = Inr (once ''addInstances'' [A_instance (to_thrift k) instance_id, A_int count])"

definition kill_job :: "string \<Rightarrow> aurora_job_key \<Rightarrow> int list option \<Rightarrow> string option \<Rightarrow> proxied client" where
  "kill_job cluster k instances message =
     rbind (assert_valid_job_key cluster k) (\<lambda>_.
       Inr (once ''killTasks'' [A_key (to_thrift k), A_ints (map_option set instances), A_text message]))"

definition api_query :: "task_query \<Rightarrow> proxied client" where
  "api_query q = Inr (repeatable ''getTasksStatus'' [A_query q])"

definition query_no_configs :: "task_query \<Rightarrow> proxied client" where
  "query_no_configs q = Inr (repeatable ''getTasksWithoutConfigs'' [A_query q])"

definition check_status :: "string \<Rightarrow> aurora_job_key \<Rightarrow> proxied client" where
  "check_status cluster k =
     rbind (assert_valid_job_key cluster k) (\<lambda>_. query_no_configs (to_thrift_query k))"

definition job_update_request :: "job_config \<Rightarrow> int list option \<Rightarrow> (string \<times> string) list option
    \<Rightarrow> update_request client" where
  "job_update_request c instances metadata =
     rbind (case rbind (updater_init (cf_update c)) (\<lambda>u. to_thrift_update_settings (cf_group_size c) u instances) of
              Inl ValueError \<Rightarrow> Inl (Own Update_config_error)
            | Inl e \<Rightarrow> Inl (Py e)
            | Inr (s, _) \<Rightarrow> Inr s)
       (\<lambda>s. rbind (cf_job c) (\<lambda>j.
         Inr \<lparr>ur_instance_count = cf_instances c, ur_settings = s, ur_task = jc_task j,
           ur_metadata = (case metadata of None \<Rightarrow> None | Some md \<Rightarrow> if md = [] then None else Some (set md))\<rparr>))"

definition start_job_update :: "job_config \<Rightarrow> string option \<Rightarrow> int list option \<Rightarrow> (string \<times> string) list option
    \<Rightarrow> proxied client" where
  "start_job_update c message instances metadata =
     rbind (job_update_request c instances metadata) (\<lambda>r.
       Inr (repeatable ''startJobUpdate'' [A_update r, A_text message]))"

definition pause_job_update :: "update_key \<Rightarrow> string option \<Rightarrow> proxied client" where
  "pause_job_update k message = Inr (once ''pauseJobUpdate'' [A_update_key k, A_text message])"

definition resume_job_update :: "update_key \<Rightarrow> string option \<Rightarrow> proxied client" where
  "resume_job_update k message = Inr (once ''resumeJobUpdate'' [A_update_key k, A_text message])"

definition abort_job_update :: "update_key \<Rightarrow> string option \<Rightarrow> proxied client" where
  "abort_job_update k message = Inr (once ''abortJobUpdate'' [A_update_key k, A_text message])"

definition rollback_job_update :: "update_key \<Rightarrow> string option \<Rightarrow> proxied client" where
  "rollback_job_update k message = Inr (once ''rollbackJobUpdate'' [A_update_key k, A_text message])"

definition get_job_update_diff :: "job_config \<Rightarrow> int list option \<Rightarrow> proxied client" where
  "get_job_update_diff c instances =
     rbind (job_update_request c instances None) (\<lambda>r. Inr (repeatable ''getJobUpdateDiff'' [A_update r]))"

definition query_job_updates :: "string option \<Rightarrow> aurora_job_key option \<Rightarrow> string option
    \<Rightarrow> update_status set option \<Rightarrow> update_key option \<Rightarrow> proxied client" where
  "query_job_updates role k user statuses key =
     Inr (repeatable ''getJobUpdateSummaries''
       [A_update_query \<lparr>uq_role = role, uq_job_key = map_option to_thrift k, uq_user = user,
          uq_statuses = statuses, uq_key = key\<rparr>])"

definition get_job_update_details :: "update_key \<Rightarrow> proxied client" where
  "get_job_update_details k =
     Inr (repeatable ''getJobUpdateDetails''
       [A_update_key k, A_update_query \<lparr>uq_role = None, uq_job_key = None, uq_user = None,
          uq_statuses = None, uq_key = Some k\<rparr>])"

text \<open>The methods of an administrator.\<close>

datatype admin_request = Start_maintenance "string list" | Drain_hosts "string list"
  | Sla_drain_hosts "string list" "rat option" "int option" "int option"
  | Maintenance_status "string list" | End_maintenance "string list" | Get_quota string
  | Set_quota string rat int int | Get_tier_configs | Force_task_state string schedule_status
  | Perform_backup | List_backups | Stage_recovery string | Query_recovery task_query
  | Delete_recovery_tasks task_query | Commit_recovery | Unload_recovery | Snapshot
  | Prune_tasks task_query | Reconcile_explicit "int option" | Reconcile_implicit

fun admin_call :: "admin_request \<Rightarrow> proxied" where
  "admin_call (Start_maintenance hs) = once ''startMaintenance'' [A_hosts hs]"
| "admin_call (Drain_hosts hs) = once ''drainHosts'' [A_hosts hs]"
| "admin_call (Sla_drain_hosts hs percentage duration timeout) =
     once ''slaDrainHosts'' [A_hosts hs, A_policy percentage duration, A_number (map_option of_int timeout)]"
| "admin_call (Maintenance_status hs) = repeatable ''maintenanceStatus'' [A_hosts hs]"
| "admin_call (End_maintenance hs) = once ''endMaintenance'' [A_hosts hs]"
| "admin_call (Get_quota role) = repeatable ''getQuota'' [A_text (Some role)]"
| "admin_call (Set_quota role cpu ram disk) = once ''setQuota'' [A_text (Some role),
     A_resources [no_resource\<lparr>r_cpus := Some cpu\<rparr>, no_resource\<lparr>r_ram := Some ram\<rparr>, no_resource\<lparr>r_disk := Some disk\<rparr>]]"
| "admin_call Get_tier_configs = repeatable ''getTierConfigs'' []"
| "admin_call (Force_task_state i s) = once ''forceTaskState'' [A_text (Some i), A_status s]"
| "admin_call Perform_backup = once ''performBackup'' []"
| "admin_call List_backups = once ''listBackups'' []"
| "admin_call (Stage_recovery i) = once ''stageRecovery'' [A_text (Some i)]"
| "admin_call (Query_recovery q) = repeatable ''queryRecovery'' [A_query q]"
| "admin_call (Delete_recovery_tasks q) = once ''deleteRecoveryTasks'' [A_query q]"
| "admin_call Commit_recovery = once ''commitRecovery'' []"
| "admin_call Unload_recovery = once ''unloadRecovery'' []"
| "admin_call Snapshot = once ''snapshot'' []"
| "admin_call (Prune_tasks q) = once ''pruneTasks'' [A_query q]"
| "admin_call (Reconcile_explicit n) = once ''triggerExplicitTaskReconciliation'' [A_number (map_option of_int n)]"
| "admin_call Reconcile_implicit = once ''triggerImplicitTaskReconciliation'' []"

section \<open>Responses, sessions and commands\<close>

datatype response_code = INVALID_REQUEST | OK | ERROR_CODE | WARNING | AUTH_FAILED | JOB_UPDATING_ERROR
  | ERROR_TRANSIENT

record active_task =
  at_instance :: int
  at_status :: schedule_status
  at_first_event :: int
  at_sla :: "sla_policy option"

record update_summary =
  us_key :: update_key
  us_user :: string
  us_status :: update_status
  us_created :: int
  us_modified :: int
  us_metadata :: "(string \<times> string) list option"

datatype update_action = INSTANCE_UPDATED | INSTANCE_ROLLED_BACK | INSTANCE_UPDATING | INSTANCE_ROLLING_BACK
  | INSTANCE_UPDATE_FAILED | INSTANCE_ROLLBACK_FAILED

record update_details =
  ud_summary :: update_summary
  ud_events :: "(update_status \<times> int \<times> string option) list option"
  ud_instances :: "(int \<times> int \<times> update_action) list option"

text \<open>A configuration with the ranges of instances, first and last, that have it.\<close>

record config_group =
  cg_config :: thrift_task
  cg_instances :: "(int \<times> int) list"

record update_diff =
  df_add :: "config_group list"
  df_remove :: "config_group list"
  df_update :: "config_group list"
  df_unchanged :: "config_group list"

text \<open>What a response carries: no result, or a result with the member that the call sets.\<close>

datatype payload = Nothing_set | Status_result "active_task list option" | Jobs_result "(thrift_key \<times> string option) list"
  | Summaries_result "update_summary list" | Started_result "update_key" "update_summary option"
  | Tiers_result "(string \<times> bool \<times> bool) list" string | Populated_result thrift_task
  | Details_result "update_details list option" "update_details option" | Diff_result update_diff
  | Quota_result "resource list"

record response =
  rp_code :: response_code
  rp_result :: payload

text \<open>The scheduler as the proxy shows it: each call changes the world and answers or raises.\<close>

type_synonym 'w scheduler = "'w \<Rightarrow> proxied \<Rightarrow> (proxy_exn + response) \<times> 'w"

text \<open>A run of the client: the world, and the calls made so far.\<close>

record 'w session =
  s_world :: 'w
  s_sent :: "proxied list"

type_synonym ('w, 'a) cmd = "'w session \<Rightarrow> 'a client \<times> 'w session"

definition returns :: "'a \<Rightarrow> ('w, 'a) cmd" where
  "returns x s = (Inr x, s)"

definition raises :: "client_error \<Rightarrow> ('w, 'a) cmd" where
  "raises e s = (Inl (Own e), s)"

definition lift_client :: "'a client \<Rightarrow> ('w, 'a) cmd" where
  "lift_client r s = (r, s)"

definition and_then :: "('w, 'a) cmd \<Rightarrow> ('a \<Rightarrow> ('w, 'b) cmd) \<Rightarrow> ('w, 'b) cmd" where
  "and_then m f s = (case m s of (Inl e, s') \<Rightarrow> (Inl e, s') | (Inr x, s') \<Rightarrow> f x s')"

text \<open>A call through the handler of authentication errors, \<^verbatim>\<open>AuthErrorHandlingScheduler\<close>.\<close>

definition exit_auth_error :: int where "exit_auth_error = 30"

definition send :: "'w scheduler \<Rightarrow> proxied \<Rightarrow> ('w, response) cmd" where
  "send scheduler p s =
     (case scheduler (s_world s) p of (r, w) \<Rightarrow>
        (case r of
           Inr resp \<Rightarrow> Inr resp
         | Inl (Own AuthError) \<Rightarrow> Inl (Own (Command_error exit_auth_error False))
         | Inl (Own e) \<Rightarrow> Inl (Own (Proxy_error e))
         | Inl (Py e) \<Rightarrow> Inl (Py e),
         s\<lparr>s_world := w, s_sent := s_sent s @ [p]\<rparr>))"

definition call :: "'w scheduler \<Rightarrow> proxied client \<Rightarrow> ('w, response) cmd" where
  "call scheduler p = and_then (lift_client p) (send scheduler)"

text \<open>The two queries translate one exception of the proxy.\<close>

definition call_query :: "'w scheduler \<Rightarrow> proxied client \<Rightarrow> ('w, response) cmd" where
  "call_query scheduler p s =
     (case call scheduler p s of
        (Inl (Own (Proxy_error ThriftInternalError)), s') \<Rightarrow> (Inl (Own Api_thrift_internal), s')
      | r \<Rightarrow> r)"

section \<open>Hooks around calls\<close>

datatype hook_event = Pre_event | Post_event | Err_event

datatype hook_answer = No_method | Passed | Declined | Raised

text \<open>A hook sees the event and the name of the method, and may change the world.\<close>

type_synonym 'w hook = "hook_event \<Rightarrow> string \<Rightarrow> 'w \<Rightarrow> hook_answer \<times> 'w"

record 'w hook_registry =
  hr_hooks :: "'w hook list"
  hr_disabled :: bool

definition register_global_hook :: "'w hook_registry \<Rightarrow> 'w hook \<Rightarrow> 'w hook_registry" where
  "register_global_hook r h = r\<lparr>hr_hooks := hr_hooks r @ [h]\<rparr>"

definition get_hooks :: "'w hook_registry \<Rightarrow> 'w hook list" where
  "get_hooks r = (if hr_disabled r then [] else hr_hooks r)"

definition reset_hooks :: "'w hook_registry" where
  "reset_hooks = \<lparr>hr_hooks = [], hr_disabled = False\<rparr>"

definition disable_hooks :: "'w hook_registry \<Rightarrow> 'w hook_registry" where
  "disable_hooks r = r\<lparr>hr_disabled := True\<rparr>"

definition enable_hooks :: "'w hook_registry \<Rightarrow> 'w hook_registry" where
  "enable_hooks r = r\<lparr>hr_disabled := False\<rparr>"

text \<open>The global hooks, and those of the configuration if there is one that enables them.\<close>

definition hooks_for :: "'w hook_registry \<Rightarrow> (bool \<times> 'w hook list) option \<Rightarrow> 'w hook list" where
  "hooks_for r config =
     get_hooks r @ (case config of None \<Rightarrow> [] | Some (enabled, hs) \<Rightarrow> if enabled then hs else [])"

definition hook_result :: "hook_answer \<Rightarrow> bool" where
  "hook_result a = (a = No_method \<or> a = Passed)"

text \<open>Every hook runs, also after one that declined; one that raises counts as declined.\<close>

fun invoke_hooks :: "'w hook list \<Rightarrow> hook_event \<Rightarrow> string \<Rightarrow> 'w \<Rightarrow> bool \<times> 'w" where
  "invoke_hooks [] e m w = (True, w)"
| "invoke_hooks (h # hs) e m w =
     (case h e m w of (a, w1) \<Rightarrow> case invoke_hooks hs e m w1 of (b, w2) \<Rightarrow> (hook_result a \<and> b, w2))"

definition run_hooks :: "'w hook list \<Rightarrow> hook_event \<Rightarrow> string \<Rightarrow> ('w, bool) cmd" where
  "run_hooks hs e m s = (case invoke_hooks hs e m (s_world s) of (b, w) \<Rightarrow> (Inr b, s\<lparr>s_world := w\<rparr>))"

definition hooked_call :: "'w hook list \<Rightarrow> string \<Rightarrow> ('w, response) cmd \<Rightarrow> ('w, response) cmd" where
  "hooked_call hs m api s =
     (case run_hooks hs Pre_event m s of
        (Inr False, s1) \<Rightarrow> (Inl (Own Pre_hooks_stopped_call), s1)
      | (_, s1) \<Rightarrow>
        (case api s1 of
           (Inl e, s2) \<Rightarrow> (Inl e, snd (run_hooks hs Err_event m s2))
         | (Inr resp, s2) \<Rightarrow>
             (Inr resp, snd (run_hooks hs (if rp_code resp = OK then Post_event else Err_event) m s2))))"

section \<open>Rules for runs\<close>

named_theorems run_simps \<open>what a command answers and leaves\<close>

lemma returns_simps [run_simps]: "returns x s = (Inr x, s)" "raises e s = (Inl (Own e), s)" "lift_client r s = (r, s)"
  by (simp_all add: returns_def raises_def lift_client_def)

lemma and_then_simps [run_simps]:
  "m s = (Inl e, s') \<Longrightarrow> and_then m f s = (Inl e, s')"
  "m s = (Inr x, s') \<Longrightarrow> and_then m f s = f x s'"
  by (simp_all add: and_then_def)

lemma and_then_Inr:
  "and_then m f s = (Inr y, s'') \<longleftrightarrow> (\<exists>x s'. m s = (Inr x, s') \<and> f x s' = (Inr y, s''))"
  by (auto simp: and_then_def split: prod.splits sum.splits)

lemma and_then_cases:
  assumes "and_then m f s = (r, s'')"
  obtains (fails) e where "m s = (Inl e, s'')" "r = Inl e"
    | (goes) x s' where "m s = (Inr x, s')" "f x s' = (r, s'')"
  using assms by (auto simp: and_then_def split: prod.splits sum.splits)

text \<open>The calls that a command makes from a session on.\<close>

definition sends :: "('w, 'a) cmd \<Rightarrow> (proxied list \<Rightarrow> bool) \<Rightarrow> bool" where
  "sends m P = (\<forall>s. \<exists>ps. s_sent (snd (m s)) = s_sent s @ ps \<and> P ps)"

lemma sendsI: "(\<And>s r s'. m s = (r, s') \<Longrightarrow> \<exists>ps. s_sent s' = s_sent s @ ps \<and> P ps) \<Longrightarrow> sends m P"
  by (auto simp: sends_def) (metis prod.collapse)

lemma sendsD: "sends m P \<Longrightarrow> m s = (r, s') \<Longrightarrow> \<exists>ps. s_sent s' = s_sent s @ ps \<and> P ps"
  unfolding sends_def by (metis snd_conv)

lemma sends_weaken: "sends m P \<Longrightarrow> (\<And>ps. P ps \<Longrightarrow> Q ps) \<Longrightarrow> sends m Q"
  unfolding sends_def by blast

lemma sends_returns: "P [] \<Longrightarrow> sends (returns x) P" "P [] \<Longrightarrow> sends (raises e) P" "P [] \<Longrightarrow> sends (lift_client r) P"
  by (simp_all add: sends_def returns_def raises_def lift_client_def)

lemma sends_and_then:
  assumes "sends m P" "\<And>x. sends (f x) Q" "\<And>ps. P ps \<Longrightarrow> R ps" "\<And>ps qs. P ps \<Longrightarrow> Q qs \<Longrightarrow> R (ps @ qs)"
  shows "sends (and_then m f) R"
proof (rule sendsI)
  fix s r s'
  assume "and_then m f s = (r, s')"
  then show "\<exists>ps. s_sent s' = s_sent s @ ps \<and> R ps"
  proof (cases rule: and_then_cases)
    case (fails e)
    then show ?thesis using sendsD [OF assms(1)] assms(3) by metis
  next
    case (goes x s1)
    obtain ps where ps: "s_sent s1 = s_sent s @ ps" "P ps" using sendsD [OF assms(1) goes(1)] by blast
    obtain qs where qs: "s_sent s' = s_sent s1 @ qs" "Q qs" using sendsD [OF assms(2) goes(2)] by blast
    have "s_sent s' = s_sent s @ (ps @ qs) \<and> R (ps @ qs)" using ps qs assms(4) by simp
    then show ?thesis by blast
  qed
qed

lemma send_sent: "s_sent (snd (send sch p s)) = s_sent s @ [p]"
  by (simp add: send_def split: prod.split)

lemma sends_send: "P [p] \<Longrightarrow> sends (send sch p) P"
  by (simp add: sends_def send_sent)

lemma sends_call:
  assumes "P []" "\<And>q. p = Inr q \<Longrightarrow> P [q]"
  shows "sends (call sch p) P"
proof (cases p)
  case (Inl e)
  then show ?thesis using assms(1) by (simp add: call_def sends_def and_then_def lift_client_def)
next
  case (Inr q)
  then have "call sch p = send sch q" by (simp add: call_def and_then_def lift_client_def fun_eq_iff)
  then show ?thesis using sends_send [of P q] assms(2) Inr by simp
qed

lemma call_query_sent: "s_sent (snd (call_query sch p s)) = s_sent (snd (call sch p s))"
  by (auto simp: call_query_def split: prod.splits sum.splits exn.splits client_error.splits proxy_error.splits)

lemma sends_call_query: "sends (call sch p) P \<Longrightarrow> sends (call_query sch p) P"
  by (simp add: sends_def call_query_sent)

lemma run_hooks_sent: "s_sent (snd (run_hooks hs e m s)) = s_sent s"
  by (simp add: run_hooks_def split: prod.split)

lemma hooked_call_sent:
  "s_sent (snd (hooked_call hs m api s)) =
     (if fst (run_hooks hs Pre_event m s) = Inr False then s_sent s
      else s_sent (snd (api (snd (run_hooks hs Pre_event m s)))))"
  using run_hooks_sent
  by (auto simp: hooked_call_def run_hooks_def split: prod.splits sum.splits bool.splits)

lemma sends_hooked: "sends api P \<Longrightarrow> P [] \<Longrightarrow> sends (hooked_call hs m api) P"
  unfolding sends_def hooked_call_sent by (metis append.right_neutral run_hooks_sent)

section \<open>A declining hook keeps the call from the scheduler\<close>

lemma invoke_hooks_declined:
  "h \<in> set hs \<Longrightarrow> (\<And>w. \<not> hook_result (fst (h e m w))) \<Longrightarrow> \<not> fst (invoke_hooks hs e m w)"
proof (induction hs arbitrary: w)
  case Nil
  then show ?case by simp
next
  case (Cons g hs)
  then show ?case by (auto split: prod.split) (metis fst_conv)+
qed

lemma declining_hook_stops_call:
  assumes "h \<in> set hs" "\<And>w. \<not> hook_result (fst (h Pre_event m w))"
  shows "\<exists>s'. hooked_call hs m api s = (Inl (Own Pre_hooks_stopped_call), s') \<and> s_sent s' = s_sent s"
proof -
  have "fst (run_hooks hs Pre_event m s) = Inr False"
    using invoke_hooks_declined [OF assms] by (simp add: run_hooks_def split: prod.split) (metis fst_conv)
  then show ?thesis using run_hooks_sent [of hs Pre_event m s]
    by (cases "run_hooks hs Pre_event m s") (simp add: hooked_call_def)
qed

end
