(* ===== verification/Commands.thy ===== *)
theory Commands
  imports ClientApi
begin

text \<open>
  The job commands of the client: \<^verbatim>\<open>apache/aurora/client/cli/context.py\<close>, \<^verbatim>\<open>cli/jobs.py\<close> and the waiting of
  \<^verbatim>\<open>client/api/job_monitor.py\<close> that they use.  A command runs in a session of \<open>ClientApi\<close>; printing and
  the browser are left out.  Commands that may wait for ever are partial functions: \<open>None\<close> is a command
  that does not return.  The instances that the code takes out of a set come in the order of the
  scheduler's answer.
\<close>

section \<open>The context\<close>

definition exit_ok :: int where "exit_ok = 0"
definition exit_invalid_configuration :: int where "exit_invalid_configuration = 3"
definition exit_command_failure :: int where "exit_command_failure = 4"
definition exit_invalid_parameter :: int where "exit_invalid_parameter = 6"
definition exit_timeout :: int where "exit_timeout = 9"
definition exit_api_error :: int where "exit_api_error = 10"

text \<open>What the commands find around them: the clusters, the scheduler of each, the hooks, sleeping.\<close>

record 'w env =
  en_clusters :: "string list"
  en_scheduler :: "string \<Rightarrow> 'w scheduler"
  en_registry :: "'w hook_registry"
  en_file_hooks :: "'w hook list"
  en_sleep :: "rat \<Rightarrow> 'w \<Rightarrow> 'w"

definition get_api :: "'w env \<Rightarrow> string \<Rightarrow> ('w, 'w scheduler) cmd" where
  "get_api env cluster =
     (if cluster \<in> set (en_clusters env) then returns (en_scheduler env cluster)
      else raises (Command_error exit_invalid_configuration False))"

definition log_response_and_raise :: "int \<Rightarrow> response \<Rightarrow> ('w, unit) cmd" where
  "log_response_and_raise code resp =
     (if rp_code resp = OK then returns () else raises (Command_error code True))"

definition active_states :: "schedule_status set" where
  "active_states = {S_ASSIGNED, S_DRAINING, S_KILLING, S_PENDING, S_PREEMPTING, S_RESTARTING, S_RUNNING,
     S_STARTING, S_PARTITIONED, S_THROTTLED}"

definition status_tasks :: "response \<Rightarrow> ('w, active_task list option) cmd" where
  "status_tasks resp =
     (case rp_result resp of Status_result ts \<Rightarrow> returns ts | _ \<Rightarrow> lift_client (Inl (Py AttributeError)))"

definition get_active_tasks :: "'w env \<Rightarrow> aurora_job_key \<Rightarrow> ('w, active_task list option) cmd" where
  "get_active_tasks env k =
     and_then (get_api env (ak_cluster k)) (\<lambda>sch.
     and_then (call_query sch (query_no_configs
         (build_query (ak_role k) (ak_name k) (Some (ak_env k)) None active_states))) (\<lambda>resp.
     and_then (log_response_and_raise exit_invalid_parameter resp) (\<lambda>_. status_tasks resp)))"

definition get_active_instances_or_raise :: "'w env \<Rightarrow> aurora_job_key \<Rightarrow> int list \<Rightarrow> ('w, int list) cmd" where
  "get_active_instances_or_raise env k instances =
     and_then (get_active_tasks env k) (\<lambda>ts.
       let active = remdups (map at_instance (case ts of None \<Rightarrow> [] | Some l \<Rightarrow> l)) in
       if set instances \<subseteq> set active then returns active
       else raises (Command_error exit_invalid_parameter False))"

fun any_sla_policy :: "active_task list \<Rightarrow> bool" where
  "any_sla_policy [] = False"
| "any_sla_policy (t # ts) =
     (case at_sla t of Some (Percentage _ _) \<Rightarrow> True | Some (Count _ _) \<Rightarrow> True | _ \<Rightarrow> any_sla_policy ts)"

definition has_count_or_percentage_sla_policy :: "'w env \<Rightarrow> aurora_job_key \<Rightarrow> ('w, bool) cmd" where
  "has_count_or_percentage_sla_policy env k =
     and_then (get_active_tasks env k) (\<lambda>ts.
       case ts of None \<Rightarrow> lift_client (Inl (Py TypeError)) | Some l \<Rightarrow> returns (any_sla_policy l))"

text \<open>The tiers of the cluster decide what a job without a tier, or with one, gets; \<open>Inl\<close> is a value for
  \<^verbatim>\<open>tier\<close>, \<open>Inr\<close> one for \<^verbatim>\<open>production\<close>.  A tier is its name, whether preemptible, whether revocable.\<close>

definition backfill_tier :: "(string \<times> bool \<times> bool) list \<Rightarrow> string \<Rightarrow> thrift_task \<Rightarrow> string + bool" where
  "backfill_tier tiers default_tier t =
     (case tt_tier t of
        None \<Rightarrow> Inl (case find (\<lambda>(n, preemptible, revocable). (\<not> preemptible) = tt_production t \<and> \<not> revocable) tiers of
            Some (n, _, _) \<Rightarrow> n | None \<Rightarrow> default_tier)
      | Some tier \<Rightarrow> Inr (case find (\<lambda>(n, _, _). n = tier) tiers of
            Some (_, preemptible, _) \<Rightarrow> \<not> preemptible | None \<Rightarrow> tt_production t))"

definition get_config_with_production_and_tier :: "'w env \<Rightarrow> string \<Rightarrow> (string + bool \<Rightarrow> job_config) \<Rightarrow> job_config
    \<Rightarrow> ('w, job_config) cmd" where
  "get_config_with_production_and_tier env cluster update_job c =
     and_then (get_api env cluster) (\<lambda>sch.
     and_then (call sch (Inr (admin_call Get_tier_configs))) (\<lambda>resp.
     and_then (log_response_and_raise exit_api_error resp) (\<lambda>_.
     case rp_result resp of
       Tiers_result tiers default_tier \<Rightarrow>
         and_then (lift_client (cf_job c)) (\<lambda>j. returns (update_job (backfill_tier tiers default_tier (jc_task j))))
     | _ \<Rightarrow> lift_client (Inl (Py AttributeError)))))"

text \<open>\<^verbatim>\<open>get_job_config\<close>: whatever exception loading raises becomes one error of the command; only an exit
  of the interpreter passes.  \<open>load\<close> is the loaded file, whether it type checks, and how a changed job is
  rebuilt.\<close>

record loaded_config =
  lc_config :: "job_config client"
  lc_checks :: bool
  lc_update_job :: "string + bool \<Rightarrow> job_config"

definition get_job_config :: "'w env \<Rightarrow> aurora_job_key \<Rightarrow> loaded_config \<Rightarrow> ('w, job_config) cmd" where
  "get_job_config env k l s =
     (case and_then (lift_client (lc_config l)) (\<lambda>c.
         if lc_checks l then get_config_with_production_and_tier env (ak_cluster k) (lc_update_job l) c
         else raises (Command_error exit_invalid_configuration False)) s of
        (Inl (Own (System_exit n)), s') \<Rightarrow> (Inl (Own (System_exit n)), s')
      | (Inl _, s') \<Rightarrow> (Inl (Own (Command_error exit_invalid_configuration False)), s')
      | r \<Rightarrow> r)"

definition get_job_config_optional :: "'w env \<Rightarrow> aurora_job_key \<Rightarrow> loaded_config option \<Rightarrow> ('w, job_config option) cmd" where
  "get_job_config_optional env k l =
     (case l of None \<Rightarrow> returns None
      | Some l \<Rightarrow> and_then (get_job_config env k l) (\<lambda>c. returns (Some c)))"

section \<open>Waiting for instances\<close>

definition terminal_status :: "schedule_status \<Rightarrow> bool" where
  "terminal_status s = (s \<in> {S_FAILED, S_FINISHED, S_KILLED, S_LOST})"

definition running_or_finished_status :: "schedule_status \<Rightarrow> bool" where
  "running_or_finished_status s =
     (s \<in> {S_KILLING, S_PREEMPTING, S_RESTARTING, S_DRAINING, S_PARTITIONED, S_RUNNING} \<or> terminal_status s)"

text \<open>\<^verbatim>\<open>create_query\<close>: an empty list of instances asks for all.\<close>

definition monitor_query :: "aurora_job_key \<Rightarrow> int list option \<Rightarrow> task_query" where
  "monitor_query k instances =
     (to_thrift_query k)\<lparr>tq_instances := (case instances of None \<Rightarrow> None | Some is \<Rightarrow> if is = [] then None else Some (set is))\<rparr>"

text \<open>\<^verbatim>\<open>StatusHelper.get_tasks\<close>: no tasks if the call fails with an input or output error or is refused.\<close>

definition poll_tasks :: "'w scheduler \<Rightarrow> aurora_job_key \<Rightarrow> int list option \<Rightarrow> ('w, active_task list) cmd" where
  "poll_tasks sch k instances s =
     (case send sch (once ''getTasksWithoutConfigs'' [A_query (monitor_query k instances)]) s of
        (Inl (Py OSError), s') \<Rightarrow> (Inr [], s')
      | (Inl e, s') \<Rightarrow> (Inl e, s')
      | (Inr resp, s') \<Rightarrow>
          (if rp_code resp = OK then
             (case rp_result resp of
                Status_result (Some ts) \<Rightarrow> Inr ts
              | Status_result None \<Rightarrow> Inl (Py TypeError)
              | _ \<Rightarrow> Inl (Py AttributeError))
           else Inr [], s'))"

text \<open>Of each instance the status of the task that started last.\<close>

fun newest_tasks :: "(int \<times> active_task) list \<Rightarrow> active_task list \<Rightarrow> (int \<times> active_task) list" where
  "newest_tasks m [] = m"
| "newest_tasks m (t # ts) =
     newest_tasks
       (case map_of m (at_instance t) of
          None \<Rightarrow> m @ [(at_instance t, t)]
        | Some u \<Rightarrow> if at_first_event t > at_first_event u
            then map (\<lambda>(i, v). (i, if i = at_instance t then t else v)) m else m) ts"

definition poll_states :: "'w scheduler \<Rightarrow> aurora_job_key \<Rightarrow> int list option \<Rightarrow> ('w, schedule_status list) cmd" where
  "poll_states sch k instances =
     and_then (poll_tasks sch k instances) (\<lambda>ts. returns (map (at_status \<circ> snd) (newest_tasks [] ts)))"

definition min_poll_interval :: rat where "min_poll_interval = 2"
definition max_poll_interval :: rat where "max_poll_interval = 150"

definition doze :: "'w env \<Rightarrow> rat \<Rightarrow> ('w, unit) cmd" where
  "doze env t s = (Inr (), s\<lparr>s_world := en_sleep env t (s_world s)\<rparr>)"

text \<open>\<^verbatim>\<open>wait_until\<close> with a timeout: the waits are those below the maximum, each twice the one before.\<close>

definition timed_waits :: "rat list" where
  "timed_waits = takeWhile (\<lambda>t. t < max_poll_interval) (map (\<lambda>i. min_poll_interval * 2 ^ i) [0..<8])"

fun wait_timed :: "'w env \<Rightarrow> 'w scheduler \<Rightarrow> aurora_job_key \<Rightarrow> (schedule_status \<Rightarrow> bool) \<Rightarrow> int list option
    \<Rightarrow> rat list \<Rightarrow> ('w, bool) cmd" where
  "wait_timed env sch k P instances [] =
     and_then (poll_states sch k instances) (\<lambda>ss. returns (list_all P ss))"
| "wait_timed env sch k P instances (t # ts) =
     and_then (poll_states sch k instances) (\<lambda>ss.
       if list_all P ss then returns True
       else and_then (doze env t) (\<lambda>_. wait_timed env sch k P instances ts))"

text \<open>Without a timeout it may not return.\<close>

partial_function (option) wait_forever :: "'w env \<Rightarrow> 'w scheduler \<Rightarrow> aurora_job_key \<Rightarrow> (schedule_status \<Rightarrow> bool)
    \<Rightarrow> int list option \<Rightarrow> rat \<Rightarrow> 'w session \<Rightarrow> (unit client \<times> 'w session) option" where
  "wait_forever env sch k P instances t s =
     (case poll_states sch k instances s of
        (Inl e, s') \<Rightarrow> Some (Inl e, s')
      | (Inr ss, s') \<Rightarrow> if list_all P ss then Some (Inr (), s')
          else wait_forever env sch k P instances (min max_poll_interval (2 * t)) (snd (doze env t s')))"

datatype wait_option = Wait_pending | Wait_running | Wait_finished

definition wait_until_option :: "'w env \<Rightarrow> 'w scheduler \<Rightarrow> aurora_job_key \<Rightarrow> wait_option \<Rightarrow> int list option
    \<Rightarrow> 'w session \<Rightarrow> (unit client \<times> 'w session) option" where
  "wait_until_option env sch k w instances s =
     (case w of
        Wait_pending \<Rightarrow> Some (Inr (), s)
      | Wait_running \<Rightarrow> wait_forever env sch k running_or_finished_status instances min_poll_interval s
      | Wait_finished \<Rightarrow> wait_forever env sch k terminal_status instances min_poll_interval s)"

section \<open>Killing\<close>

text \<open>The hooks around a call: the global ones and, with a configuration that enables them, its own.\<close>

definition api_hooks :: "'w env \<Rightarrow> job_config option \<Rightarrow> 'w hook list" where
  "api_hooks env c = hooks_for (en_registry env) (map_option (\<lambda>c. (cf_enable_hooks c, en_file_hooks env)) c)"

record kill_options =
  ko_batch_size :: int
  ko_max_total_failures :: int
  ko_no_batching :: bool
  ko_strict :: bool
  ko_message :: "string option"

definition kill_call :: "'w env \<Rightarrow> 'w scheduler \<Rightarrow> kill_options \<Rightarrow> job_config option \<Rightarrow> aurora_job_key
    \<Rightarrow> int list option \<Rightarrow> ('w, response) cmd" where
  "kill_call env sch opts c k instances =
     hooked_call (api_hooks env c) ''kill_job'' (call sch (kill_job (ak_cluster k) k instances (ko_message opts)))"

definition wait_kill_tasks :: "'w env \<Rightarrow> 'w scheduler \<Rightarrow> aurora_job_key \<Rightarrow> int list option \<Rightarrow> ('w, bool) cmd" where
  "wait_kill_tasks env sch k instances = wait_timed env sch k terminal_status instances timed_waits"

text \<open>One batch: whether its instances were seen to end in time.\<close>

definition kill_batch :: "'w env \<Rightarrow> 'w scheduler \<Rightarrow> kill_options \<Rightarrow> job_config option \<Rightarrow> aurora_job_key
    \<Rightarrow> int list option \<Rightarrow> ('w, bool) cmd" where
  "kill_batch env sch opts c k batch =
     and_then (kill_call env sch opts c k batch) (\<lambda>resp.
     and_then (log_response_and_raise exit_api_error resp) (\<lambda>_. wait_kill_tasks env sch k batch))"

definition next_batch :: "int \<Rightarrow> int list \<Rightarrow> int list" where
  "next_batch batch_size todo = take (nat (min batch_size (int (length todo)))) todo"

definition rest_of_batch :: "int \<Rightarrow> int list \<Rightarrow> int list" where
  "rest_of_batch batch_size todo = drop (nat (min batch_size (int (length todo)))) todo"

partial_function (option) kill_batches :: "(int list \<Rightarrow> ('w, bool) cmd) \<Rightarrow> int \<Rightarrow> int \<Rightarrow> int \<Rightarrow> int list
    \<Rightarrow> 'w session \<Rightarrow> (unit client \<times> 'w session) option" where
  "kill_batches kill batch_size max_failures errors todo s =
     (if todo = [] then
        Some (if errors > 0 then raises (Command_error exit_command_failure False) s else returns () s)
      else case kill (next_batch batch_size todo) s of
        (Inl e, s') \<Rightarrow> Some (Inl e, s')
      | (Inr killed, s') \<Rightarrow>
          if \<not> killed \<and> errors + 1 > max_failures then Some (raises (Command_error exit_command_failure False) s')
          else kill_batches kill batch_size max_failures (if killed then errors else errors + 1)
                 (rest_of_batch batch_size todo) s')"

text \<open>The first component of the result is the exit code that \<^verbatim>\<open>kill_in_batches\<close> returns, if it returns one.\<close>

definition kill_in_batches :: "'w env \<Rightarrow> kill_options \<Rightarrow> job_config option \<Rightarrow> aurora_job_key \<Rightarrow> int list option
    \<Rightarrow> 'w session \<Rightarrow> (int option client \<times> 'w session) option" where
  "kill_in_batches env opts c k instances_arg s =
     (case and_then (get_api env (ak_cluster k)) (\<lambda>_. get_active_tasks env k) s of
        (Inl e, s') \<Rightarrow> Some (Inl e, s')
      | (Inr ts, s') \<Rightarrow>
          if ts = None \<or> ts = Some [] then Some (Inr (Some exit_invalid_parameter), s')
          else let ids = remdups (map at_instance (the ts));
                   todo = (case instances_arg of None \<Rightarrow> ids | Some is \<Rightarrow> [i \<leftarrow> ids. i \<in> set is])
               in map_option (\<lambda>(r, s''). (rbind r (\<lambda>_. Inr None), s''))
                    (kill_batches (\<lambda>b. kill_batch env (en_scheduler env (ak_cluster k)) opts c k (Some b))
                       (ko_batch_size opts) (ko_max_total_failures opts) 0 todo s'))"

text \<open>The common end of the two commands: the exit code of \<^verbatim>\<open>kill_in_batches\<close> is dropped.\<close>

definition kill_and_report :: "'w env \<Rightarrow> kill_options \<Rightarrow> job_config option \<Rightarrow> aurora_job_key \<Rightarrow> int list option
    \<Rightarrow> 'w session \<Rightarrow> (int client \<times> 'w session) option" where
  "kill_and_report env opts c k instances s =
     (if ko_no_batching opts then
        Some (and_then (kill_batch env (en_scheduler env (ak_cluster k)) opts c k instances)
          (\<lambda>ended. returns (if ended then exit_ok else exit_timeout)) s)
      else map_option (\<lambda>(r, s'). (rbind r (\<lambda>_. Inr exit_ok), s')) (kill_in_batches env opts c k instances s))"

definition kill_prelude :: "'w env \<Rightarrow> kill_options \<Rightarrow> loaded_config option \<Rightarrow> aurora_job_key \<Rightarrow> int list
    \<Rightarrow> ('w, job_config option) cmd" where
  "kill_prelude env opts l k instances =
     and_then (has_count_or_percentage_sla_policy env k) (\<lambda>_.
     and_then (if ko_strict opts then and_then (get_active_instances_or_raise env k instances) (\<lambda>_. returns ())
               else returns ()) (\<lambda>_.
     and_then (get_api env (ak_cluster k)) (\<lambda>_. get_job_config_optional env k l)))"


definition killall_command :: "'w env \<Rightarrow> kill_options \<Rightarrow> loaded_config option \<Rightarrow> aurora_job_key
    \<Rightarrow> 'w session \<Rightarrow> (int client \<times> 'w session) option" where
  "killall_command env opts l k s =
     (case and_then (get_api env (ak_cluster k)) (\<lambda>_. get_job_config_optional env k l) s of
        (Inl e, s') \<Rightarrow> Some (Inl e, s')
      | (Inr c, s') \<Rightarrow> kill_and_report env opts c k None s')"

section \<open>Creating, adding, restarting\<close>

definition create_command :: "'w env \<Rightarrow> loaded_config \<Rightarrow> (job_config \<Rightarrow> bool) \<Rightarrow> wait_option \<Rightarrow> aurora_job_key
    \<Rightarrow> 'w session \<Rightarrow> (int client \<times> 'w session) option" where
  "create_command env l has_cron_schedule w jobspec s =
     (case and_then (get_job_config env jobspec l) (\<lambda>c.
         if has_cron_schedule c then raises (Command_error exit_command_failure False)
         else and_then (get_api env (ak_cluster (cf_key c))) (\<lambda>sch.
           and_then (hooked_call (api_hooks env (Some c)) ''create_job'' (call sch (create_job c))) (\<lambda>resp.
           and_then (log_response_and_raise exit_command_failure resp) (\<lambda>_. returns (sch, c))))) s of
        (Inl e, s') \<Rightarrow> Some (Inl e, s')
      | (Inr (sch, c), s') \<Rightarrow>
          (case wait_until_option env sch (cf_key c) w None s' of
             None \<Rightarrow> None
           | Some (Inl e, s'') \<Rightarrow> Some (Inl e, s'')
           | Some (Inr _, s'') \<Rightarrow>
               Some (and_then (call_query sch (check_status (ak_cluster (cf_key c)) (cf_key c))) (\<lambda>resp.
                 if rp_code resp \<noteq> OK then returns exit_command_failure
                 else and_then (status_tasks resp) (\<lambda>ts.
                   returns (if ts = None \<or> ts = Some [] then exit_command_failure else exit_ok))) s'')))"

definition add_command :: "'w env \<Rightarrow> aurora_job_key \<Rightarrow> int \<Rightarrow> int \<Rightarrow> wait_option
    \<Rightarrow> 'w session \<Rightarrow> (int client \<times> 'w session) option" where
  "add_command env k instance count w s =
     (case and_then (get_active_instances_or_raise env k [instance]) (\<lambda>active.
         and_then (has_count_or_percentage_sla_policy env k) (\<lambda>_.
         and_then (get_api env (ak_cluster k)) (\<lambda>sch.
         and_then (hooked_call (api_hooks env None) ''add_instances'' (call sch (add_instances k instance count))) (\<lambda>resp.
         and_then (log_response_and_raise exit_api_error resp) (\<lambda>_. returns (sch, Max (set active) + 1)))))) s of
        (Inl e, s') \<Rightarrow> Some (Inl e, s')
      | (Inr (sch, start), s') \<Rightarrow>
          map_option (\<lambda>(r, s''). (rbind r (\<lambda>_. Inr exit_ok), s''))
            (wait_until_option env sch k w (Some [start..start + count - 1]) s'))"

record restart_options =
  ro_max_total_failures :: int
  ro_strict :: bool

text \<open>The rolling restart itself is that of theory \<open>Updater\<close>; here it is the hooked call.\<close>

definition restart_command :: "'w env \<Rightarrow> restart_options \<Rightarrow> loaded_config option \<Rightarrow> aurora_job_key \<Rightarrow> int list option
    \<Rightarrow> ('w, response) cmd \<Rightarrow> ('w, int) cmd" where
  "restart_command env opts l k instances restart =
     (if ro_max_total_failures opts < 0 then returns exit_invalid_parameter
      else and_then (case instances of
             Some is \<Rightarrow> if ro_strict opts then and_then (get_active_instances_or_raise env k is) (\<lambda>_. returns ())
                       else returns ()
           | None \<Rightarrow> returns ()) (\<lambda>_.
        and_then (get_api env (ak_cluster k)) (\<lambda>_.
        and_then (get_job_config_optional env k l) (\<lambda>c.
        and_then (hooked_call (api_hooks env c) ''restart'' restart) (\<lambda>resp.
        and_then (log_response_and_raise exit_api_error resp) (\<lambda>_. returns exit_ok))))))"

section \<open>Listing and status\<close>

definition pad_wildcards :: "string list \<Rightarrow> string list" where
  "pad_wildcards ps = ps @ replicate (4 - length ps) ''*''"

text \<open>\<^verbatim>\<open>arg_type_jobkey\<close>: a key of which parts may be missing.\<close>

definition arg_type_jobkey :: "string \<Rightarrow> string list cfg" where
  "arg_type_jobkey s =
     (let parts = split_at (CHR ''/'') s in
      if length parts > 4 then Inl (Py ValueError) else Inr (pad_wildcards parts))"

definition is_fully_bound :: "aurora_job_key \<Rightarrow> bool" where
  "is_fully_bound k = (\<forall>part\<in>set [ak_cluster k, ak_role k, ak_env k, ak_name k]. CHR ''*'' \<notin> set part)"

definition thrift_job_key :: "string \<Rightarrow> thrift_key \<Rightarrow> aurora_job_key client" where
  "thrift_job_key cluster k =
     (case k of (role, env, name) \<Rightarrow>
        (case new_job_key cluster role env name of
           Inl (Own e) \<Rightarrow> Inl (Own (Config_error e)) | Inl (Py e) \<Rightarrow> Inl (Py e) | Inr x \<Rightarrow> Inr x))"

fun jobs_of_clusters :: "'w env \<Rightarrow> string list \<Rightarrow> string option \<Rightarrow> ('w, aurora_job_key list) cmd" where
  "jobs_of_clusters env [] role = returns []"
| "jobs_of_clusters env (cl # cls) role =
     and_then (get_api env cl) (\<lambda>sch.
     and_then (call sch (get_jobs role)) (\<lambda>resp.
     and_then (log_response_and_raise exit_command_failure resp) (\<lambda>_.
     case rp_result resp of
       Jobs_result ks \<Rightarrow>
         and_then (lift_client (traverse (\<lambda>(k, cron). thrift_job_key cl k) ks)) (\<lambda>js.
         and_then (jobs_of_clusters env cls role) (\<lambda>rest. returns (js @ rest)))
     | _ \<Rightarrow> lift_client (Inl (Py AttributeError)))))"

definition get_job_list :: "'w env \<Rightarrow> string list \<Rightarrow> string option \<Rightarrow> ('w, aurora_job_key list) cmd" where
  "get_job_list env clusters role =
     (case role of
        None \<Rightarrow> lift_client (Inl (Py TypeError))
      | Some r \<Rightarrow> jobs_of_clusters env clusters (if CHR ''*'' \<in> set r then None else Some r))"

text \<open>\<open>match\<close> is the standard library's \<^verbatim>\<open>fnmatch\<close>.  A key without wildcards is returned unasked.\<close>

definition get_jobs_matching_key :: "'w env \<Rightarrow> (string \<Rightarrow> string \<Rightarrow> bool) \<Rightarrow> aurora_job_key
    \<Rightarrow> ('w, aurora_job_key list) cmd" where
  "get_jobs_matching_key env match k =
     (if is_fully_bound k then
        lift_client (rbind (thrift_job_key (ak_cluster k) (to_thrift k)) (\<lambda>x. Inr [x]))
      else and_then (get_job_list env (if ak_cluster k = ''*'' then en_clusters env else [ak_cluster k]) (Some (ak_role k))) (\<lambda>js.
           returns [j \<leftarrow> js. match (ak_role j) (ak_role k) \<and> match (ak_env j) (ak_env k) \<and> match (ak_name j) (ak_name k)]))"

definition list_command :: "'w env \<Rightarrow> (string \<Rightarrow> string \<Rightarrow> bool) \<Rightarrow> aurora_job_key
    \<Rightarrow> ('w, string list) cmd" where
  "list_command env match k =
     and_then (get_jobs_matching_key env match k) (\<lambda>js. returns (map to_path js))"

definition get_job_status :: "'w env \<Rightarrow> aurora_job_key \<Rightarrow> ('w, active_task list option) cmd" where
  "get_job_status env k =
     and_then (get_api env (ak_cluster k)) (\<lambda>sch.
     and_then (call_query sch (check_status (ak_cluster k) k)) (\<lambda>resp.
     and_then (log_response_and_raise exit_invalid_parameter resp) (\<lambda>_. status_tasks resp)))"

text \<open>The active and the inactive tasks of each job that has any, by instance.\<close>

fun get_status_for_jobs :: "'w env \<Rightarrow> aurora_job_key list
    \<Rightarrow> ('w, (aurora_job_key \<times> active_task list \<times> active_task list) list) cmd" where
  "get_status_for_jobs env [] = returns []"
| "get_status_for_jobs env (k # ks) =
     and_then (get_job_status env k) (\<lambda>ts.
     and_then (get_status_for_jobs env ks) (\<lambda>rest.
       returns (if ts = None \<or> ts = Some [] then rest
         else (k, sort_key at_instance [t \<leftarrow> the ts. at_status t \<in> active_states],
                  sort_key at_instance [t \<leftarrow> the ts. at_status t \<notin> active_states]) # rest)))"

definition print_jobs_not_found :: "bool \<Rightarrow> int" where
  "print_jobs_not_found write_json = (if write_json then exit_ok else exit_invalid_parameter)"

definition status_command :: "'w env \<Rightarrow> (string \<Rightarrow> string \<Rightarrow> bool) \<Rightarrow> bool \<Rightarrow> aurora_job_key \<Rightarrow> ('w, int) cmd" where
  "status_command env match write_json k =
     and_then (get_jobs_matching_key env match k) (\<lambda>js.
       if js = [] then returns (print_jobs_not_found write_json)
       else and_then (get_status_for_jobs env js) (\<lambda>result.
         returns (if result = [] then print_jobs_not_found write_json else exit_ok)))"

section \<open>What killing sends\<close>

lemma kill_batches_step:
  "kill_batches kill n m e todo s =
     (if todo = [] then Some (if e > 0 then raises (Command_error exit_command_failure False) s else returns () s)
      else case kill (next_batch n todo) s of
        (Inl x, s') \<Rightarrow> Some (Inl x, s')
      | (Inr killed, s') \<Rightarrow>
          if \<not> killed \<and> e + 1 > m then Some (raises (Command_error exit_command_failure False) s')
          else kill_batches kill n m (if killed then e else e + 1) (rest_of_batch n todo) s')"
  by (rule kill_batches.simps)

lemma batch_pos:
  assumes "n \<ge> 1" "todo \<noteq> []"
  shows "next_batch n todo \<noteq> []" "length (rest_of_batch n todo) < length todo"
    "next_batch n todo @ rest_of_batch n todo = todo" "length (next_batch n todo) \<le> nat n"
proof -
  have "min n (int (length todo)) \<ge> 1" using assms by (cases todo) auto
  then show "next_batch n todo \<noteq> []" "length (rest_of_batch n todo) < length todo"
    using assms(2) by (auto simp: next_batch_def rest_of_batch_def)
qed (auto simp: next_batch_def rest_of_batch_def)

lemma batch_nonpos: "n \<le> 0 \<Longrightarrow> next_batch n todo = [] \<and> rest_of_batch n todo = todo"
  by (simp add: next_batch_def rest_of_batch_def)

text \<open>A positive batch size makes the loop return.\<close>

lemma kill_batches_returns:
  assumes "n \<ge> 1"
  shows "\<exists>r s'. kill_batches kill n m e todo s = Some (r, s')"
proof (induction "length todo" arbitrary: todo e s rule: less_induct)
  case less
  show ?case
  proof (cases "todo = []")
    case True
    then show ?thesis by (subst kill_batches_step) (simp add: returns_def raises_def)
  next
    case False
    note IH = less.hyps [OF batch_pos(2) [OF assms False]]
    show ?thesis
      using False IH by (subst kill_batches_step) (auto simp: raises_def split: prod.splits sum.splits)
  qed
qed

text \<open>A batch size that is not positive makes it go round on the same instances, as long as each round
  succeeds.\<close>

lemma kill_batches_stuck:
  "kill_batches kill n m e todo s = Some r \<Longrightarrow>
     \<not> (n \<le> 0 \<and> todo \<noteq> [] \<and> (\<forall>s. \<exists>s'. kill [] s = (Inr True, s')))"
proof (induction kill n m e todo s r rule: kill_batches.raw_induct [rotated, consumes 1, case_names step])
  case (step kill_batches' kill n m e todo s r)
  show ?case
  proof
    assume s: "n \<le> 0 \<and> todo \<noteq> [] \<and> (\<forall>s. \<exists>s'. kill [] s = (Inr True, s'))"
    then obtain s' where s': "kill [] s = (Inr True, s')" by blast
    have "kill_batches' kill n m e todo s' = Some r"
      using step(2) s s' by (simp add: batch_nonpos)
    then show False using step(1) s by blast
  qed
qed

lemma kill_batches_spins:
  assumes "n \<le> 0" "\<And>s. \<exists>s'. kill [] s = (Inr True, s')" "todo \<noteq> []"
  shows "kill_batches kill n m e todo s = None"
  using kill_batches_stuck [of kill n m e todo s] assms by (metis not_Some_eq)

text \<open>The calls of the loop are those of its batches, which are cut from the instances given.\<close>

lemma kill_batches_sends:
  assumes kill: "\<And>b. set b \<subseteq> set all \<Longrightarrow> sends (kill b) P" and P: "P []" "\<And>ps qs. P ps \<Longrightarrow> P qs \<Longrightarrow> P (ps @ qs)"
  shows "kill_batches kill n m e todo s = Some (r, s') \<Longrightarrow> set todo \<subseteq> set all \<Longrightarrow>
    \<exists>ps. s_sent s' = s_sent s @ ps \<and> P ps"
proof -
  have "kill_batches k n m e todo s = Some y \<Longrightarrow> k = kill \<longrightarrow> set todo \<subseteq> set all \<longrightarrow>
      (\<exists>ps. s_sent (snd y) = s_sent s @ ps \<and> P ps)" for k y
  proof (induction k n m e todo s y rule: kill_batches.raw_induct [rotated, consumes 1, case_names step])
    case (step kill_batches' k n m e todo s y)
    show ?case
    proof (intro impI)
      assume k: "k = kill" and sub: "set todo \<subseteq> set all"
      have b: "set (next_batch n todo) \<subseteq> set all" "set (rest_of_batch n todo) \<subseteq> set all"
        using sub set_take_subset set_drop_subset unfolding next_batch_def rest_of_batch_def by (meson subset_trans)+
      show "\<exists>ps. s_sent (snd y) = s_sent s @ ps \<and> P ps"
      proof (cases "todo = []")
        case True
        then have "snd y = s" using step(2) by (auto simp: returns_def raises_def split: if_splits)
        then show ?thesis using P(1) by simp
      next
        case False
        obtain x s1 where x: "kill (next_batch n todo) s = (x, s1)" by (cases "kill (next_batch n todo) s")
        obtain ps where ps: "s_sent s1 = s_sent s @ ps" "P ps" using sendsD [OF kill [OF b(1)] x] by blast
        consider "snd y = s1" | e' where "kill_batches' k n m e' (rest_of_batch n todo) s1 = Some y"
          using step(2) x False k by (auto simp: raises_def split: sum.splits if_splits)
        then show ?thesis
        proof cases
          case 1
          then show ?thesis using ps by blast
        next
          case (2 e')
          then obtain qs where "s_sent (snd y) = s_sent s1 @ qs" "P qs" using step(1) k b(2) by blast
          then show ?thesis using ps P(2) by auto
        qed
      qed
    qed
  qed
  then show "kill_batches kill n m e todo s = Some (r, s') \<Longrightarrow> set todo \<subseteq> set all \<Longrightarrow>
      \<exists>ps. s_sent s' = s_sent s @ ps \<and> P ps" by (metis snd_conv)
qed

text \<open>A command that only asks.\<close>

definition asks :: "proxied \<Rightarrow> bool" where
  "asks p = (px_method p \<in> {''getTasksStatus'', ''getTasksWithoutConfigs'', ''getTierConfigs'', ''getJobs''})"

abbreviation only_asks :: "('w, 'a) cmd \<Rightarrow> bool" where
  "only_asks m \<equiv> sends m (list_all asks)"

named_theorems asks_intros \<open>commands that only ask\<close>

lemma asks_basic [asks_intros]: "only_asks (returns x)" "only_asks (raises e)" "only_asks (lift_client r)"
  by (simp_all add: sends_returns)

lemma asks_and_then [asks_intros]:
  "only_asks m \<Longrightarrow> (\<And>x. only_asks (f x)) \<Longrightarrow> only_asks (and_then m f)"
  by (rule sends_and_then [where Q = "list_all asks"]) simp_all

lemma asks_call: "(\<And>q. p = Inr q \<Longrightarrow> asks q) \<Longrightarrow> only_asks (call sch p)"
  by (rule sends_call) auto

lemma asks_query_no_configs [asks_intros]: "only_asks (call_query sch (query_no_configs q))"
  by (intro sends_call_query asks_call) (auto simp: query_no_configs_def asks_def)

lemma asks_check_status [asks_intros]: "only_asks (call_query sch (check_status cl k))"
  by (intro sends_call_query asks_call)
    (auto simp: check_status_def query_no_configs_def asks_def rbind_Inr_iff)

lemma asks_tiers [asks_intros]: "only_asks (call sch (Inr (admin_call Get_tier_configs)))"
  by (intro asks_call) (auto simp: asks_def)

lemma asks_get_jobs [asks_intros]: "only_asks (call sch (get_jobs role))"
  by (intro asks_call) (auto simp: asks_def get_jobs_def)

lemma asks_get_api [asks_intros]: "only_asks (get_api env cl)"
  by (simp add: get_api_def asks_intros)

lemma asks_log [asks_intros]: "only_asks (log_response_and_raise code resp)"
  by (simp add: log_response_and_raise_def asks_intros)

lemma asks_status_tasks [asks_intros]: "only_asks (status_tasks resp)"
  by (auto simp: status_tasks_def intro: asks_intros split: payload.split)

lemma asks_get_active_tasks [asks_intros]: "only_asks (get_active_tasks env k)"
  unfolding get_active_tasks_def by (intro asks_intros)

lemma asks_active_instances [asks_intros]: "only_asks (get_active_instances_or_raise env k is)"
  unfolding get_active_instances_or_raise_def Let_def by (intro asks_intros) (auto intro: asks_intros)

lemma asks_sla_policy [asks_intros]: "only_asks (has_count_or_percentage_sla_policy env k)"
  unfolding has_count_or_percentage_sla_policy_def
  by (intro asks_intros) (auto intro: asks_intros split: option.split)

lemma asks_tier_config [asks_intros]: "only_asks (get_config_with_production_and_tier env cl u c)"
  unfolding get_config_with_production_and_tier_def
  by (intro asks_intros) (auto intro: asks_intros split: payload.split)

lemma get_job_config_sent:
  "s_sent (snd (get_job_config env k l s)) = s_sent (snd (and_then (lift_client (lc_config l)) (\<lambda>c.
     if lc_checks l then get_config_with_production_and_tier env (ak_cluster k) (lc_update_job l) c
     else raises (Command_error exit_invalid_configuration False)) s))"
  by (auto simp: get_job_config_def split: prod.splits sum.splits exn.splits client_error.splits)

lemma asks_job_config [asks_intros]: "only_asks (get_job_config env k l)"
proof -
  have "only_asks (and_then (lift_client (lc_config l)) (\<lambda>c.
     if lc_checks l then get_config_with_production_and_tier env (ak_cluster k) (lc_update_job l) c
     else raises (Command_error exit_invalid_configuration False)))"
    by (intro asks_intros) (auto intro: asks_intros)
  then show ?thesis by (simp add: sends_def get_job_config_sent)
qed

lemma asks_job_config_optional [asks_intros]: "only_asks (get_job_config_optional env k l)"
  unfolding get_job_config_optional_def by (auto intro!: asks_intros split: option.split)

lemma poll_tasks_sent:
  "s_sent (snd (poll_tasks sch k is s)) =
     s_sent (snd (send sch (once ''getTasksWithoutConfigs'' [A_query (monitor_query k is)]) s))"
  by (auto simp: poll_tasks_def split: prod.splits sum.splits exn.splits pyexc.splits)

lemma asks_poll [asks_intros]: "only_asks (poll_tasks sch k is)"
  unfolding sends_def poll_tasks_sent send_sent by (simp add: asks_def)

lemma asks_poll_states [asks_intros]: "only_asks (poll_states sch k is)"
  unfolding poll_states_def by (intro asks_intros)

lemma asks_doze [asks_intros]: "only_asks (doze env t)"
  by (simp add: sends_def doze_def)

lemma asks_wait_timed [asks_intros]: "only_asks (wait_timed env sch k P is ts)"
proof (induction ts)
  case Nil
  show ?case by (simp, intro asks_intros)
next
  case (Cons t ts)
  then show ?case by (simp, intro asks_intros) (auto intro!: asks_intros)
qed

lemma asks_wait_kill [asks_intros]: "only_asks (wait_kill_tasks env sch k is)"
  unfolding wait_kill_tasks_def by (intro asks_intros)

lemma asks_kill_prelude [asks_intros]: "only_asks (kill_prelude env opts l k is)"
  unfolding kill_prelude_def by (intro asks_intros) (auto intro!: asks_intros)

section \<open>The kills among the calls\<close>

text \<open>The calls of \<^verbatim>\<open>killTasks\<close>: key, instances and message of each.\<close>

fun kill_args :: "proxied \<Rightarrow> (thrift_key \<times> int set option \<times> string option) option" where
  "kill_args p = (if px_method p = ''killTasks'' then
     (case px_args p of [A_key k, A_ints is, A_text m] \<Rightarrow> Some (k, is, m) | _ \<Rightarrow> None) else None)"

definition kills :: "proxied list \<Rightarrow> (thrift_key \<times> int set option \<times> string option) list" where
  "kills ps = List.map_filter kill_args ps"

lemma kills_simps [simp]: "kills [] = []" "kills (ps @ qs) = kills ps @ kills qs"
  by (simp_all add: kills_def map_filter_def)



text \<open>What a run of the loop has asked to kill: nonempty batches of at most \<open>n\<close> that are, one after the other,
  a beginning of the instances to do, and all of them if it is through.\<close>

definition killed_in_batches :: "int \<Rightarrow> (int list \<Rightarrow> thrift_key \<times> int set option \<times> string option) \<Rightarrow> int list \<Rightarrow> bool
    \<Rightarrow> proxied list \<Rightarrow> bool" where
  "killed_in_batches n K todo through ps =
     (\<exists>bs rest. kills ps = map K bs \<and> (\<forall>b\<in>set bs. b \<noteq> [] \<and> int (length b) \<le> n) \<and>
        todo = concat bs @ rest \<and> (through \<longrightarrow> rest = []))"







abbreviation kill_of :: "kill_options \<Rightarrow> aurora_job_key \<Rightarrow> int list \<Rightarrow> thrift_key \<times> int set option \<times> string option" where
  "kill_of opts k b \<equiv> (to_thrift k, Some (set b), ko_message opts)"



definition killed_wanted :: "kill_options \<Rightarrow> aurora_job_key \<Rightarrow> int list \<Rightarrow> int list \<Rightarrow> bool \<Rightarrow> proxied list \<Rightarrow> bool" where
  "killed_wanted opts k is active all ps =
     killed_in_batches (ko_batch_size opts) (kill_of opts k) [i \<leftarrow> active. i \<in> set is] all ps"





text \<open>One kill of them.\<close>

lemma killed_wanted_mem:
  assumes "killed_wanted opts k is active all ps" "p \<in> set (kills ps)"
  obtains b where "p = kill_of opts k b" "b \<noteq> []" "int (length b) \<le> ko_batch_size opts" "set b \<subseteq> set is \<inter> set active"
proof -
  obtain bs rest where B: "kills ps = map (kill_of opts k) bs" "\<forall>b\<in>set bs. b \<noteq> [] \<and> int (length b) \<le> ko_batch_size opts"
    "[i \<leftarrow> active. i \<in> set is] = concat bs @ rest"
    using assms(1) unfolding killed_wanted_def killed_in_batches_def by (elim exE conjE)
  obtain b where b: "b \<in> set bs" "p = kill_of opts k b" using assms(2) B(1) by auto
  have "set b \<subseteq> set [i \<leftarrow> active. i \<in> set is]" using b(1) unfolding B(3) by auto
  then have "set b \<subseteq> set is \<inter> set active" by auto
  then show ?thesis using that b B(2) by blast
qed

end
