(* ===== verification/UpdateCommands.thy ===== *)
theory UpdateCommands
  imports Commands "HOL-Library.Char_ord" "HOL-Library.List_Lexorder" "HOL-Library.Product_Lexorder"
begin

text \<open>
  The update commands of the client, \<^verbatim>\<open>apache/aurora/client/cli/update.py\<close>, and the difference that
  is shown before an update, \<^verbatim>\<open>cli/diff_formatter.py\<close>.  As in theory \<open>Commands\<close>, \<open>None\<close> is a command that
  does not return.
\<close>

section \<open>The controller\<close>

definition exit_unknown_error :: int where "exit_unknown_error = 20"

definition active_update_states :: "update_status set" where
  "active_update_states = {ROLLING_FORWARD, ROLLING_BACK, ROLL_FORWARD_PAUSED, ROLL_BACK_PAUSED,
     ROLL_FORWARD_AWAITING_PULSE, ROLL_BACK_AWAITING_PULSE}"

definition summaries_of :: "response \<Rightarrow> ('w, update_summary list) cmd" where
  "summaries_of resp =
     (case rp_result resp of Summaries_result ss \<Rightarrow> returns ss | _ \<Rightarrow> lift_client (Inl (Py AttributeError)))"

definition get_update_key :: "'w scheduler \<Rightarrow> aurora_job_key \<Rightarrow> ('w, update_key option) cmd" where
  "get_update_key sch k =
     and_then (call sch (query_job_updates None (Some k) None (Some active_update_states) None)) (\<lambda>resp.
     and_then (log_response_and_raise exit_api_error resp) (\<lambda>_.
     and_then (summaries_of resp) (\<lambda>ss.
       case ss of
         [] \<Rightarrow> returns None
       | [u] \<Rightarrow> returns (Some (us_key u))
       | _ \<Rightarrow> raises (Command_error exit_api_error False))))"

definition modify_update :: "'w scheduler \<Rightarrow> aurora_job_key \<Rightarrow> (update_key \<Rightarrow> proxied client)
    \<Rightarrow> ('w, int \<times> update_key option) cmd" where
  "modify_update sch k mutate =
     and_then (get_update_key sch k) (\<lambda>u.
       case u of
         None \<Rightarrow> returns (exit_invalid_parameter, None)
       | Some key \<Rightarrow>
           and_then (call sch (mutate key)) (\<lambda>resp.
           and_then (log_response_and_raise exit_api_error resp) (\<lambda>_. returns (exit_ok, Some key))))"

definition rollback_update :: "'w scheduler \<Rightarrow> aurora_job_key \<Rightarrow> string option \<Rightarrow> ('w, int \<times> update_key option) cmd" where
  "rollback_update sch k message = modify_update sch k (\<lambda>key. rollback_job_update key message)"

definition pause_update :: "'w scheduler \<Rightarrow> aurora_job_key \<Rightarrow> string option \<Rightarrow> ('w, int \<times> update_key option) cmd" where
  "pause_update sch k message = modify_update sch k (\<lambda>key. pause_job_update key message)"

definition resume_update :: "'w scheduler \<Rightarrow> aurora_job_key \<Rightarrow> string option \<Rightarrow> ('w, int \<times> update_key option) cmd" where
  "resume_update sch k message = modify_update sch k (\<lambda>key. resume_job_update key message)"

definition abort_update :: "'w scheduler \<Rightarrow> aurora_job_key \<Rightarrow> string option \<Rightarrow> ('w, int \<times> update_key option) cmd" where
  "abort_update sch k message = modify_update sch k (\<lambda>key. abort_job_update key message)"

section \<open>Waiting for an update\<close>

definition rollback_state_to_err_code :: "update_status \<Rightarrow> int" where
  "rollback_state_to_err_code st =
     (if st = ROLLED_BACK then exit_ok else if st = ROLLED_FORWARD then exit_command_failure else exit_unknown_error)"

definition update_state_to_err_code :: "update_status \<Rightarrow> int" where
  "update_state_to_err_code st =
     (if st = ROLLED_FORWARD then exit_ok else if st = ROLLED_BACK then exit_command_failure else exit_unknown_error)"

text \<open>One round: the code with which the wait ends, or the state seen.\<close>

definition update_poll :: "'w scheduler \<Rightarrow> update_key \<Rightarrow> ('w, update_status) cmd" where
  "update_poll sch key =
     and_then (call sch (query_job_updates None None None None (Some key))) (\<lambda>resp.
     and_then (log_response_and_raise exit_api_error resp) (\<lambda>_.
     and_then (summaries_of resp) (\<lambda>ss.
       case ss of
         [] \<Rightarrow> raises (Command_error exit_invalid_parameter False)
       | [u] \<Rightarrow> returns (us_status u)
       | _ \<Rightarrow> raises (Command_error exit_api_error False))))"

partial_function (option) wait_for_update :: "'w env \<Rightarrow> 'w scheduler \<Rightarrow> update_key \<Rightarrow> (update_status \<Rightarrow> int)
    \<Rightarrow> update_status option \<Rightarrow> 'w session \<Rightarrow> (int client \<times> 'w session) option" where
  "wait_for_update env sch key err_code cur s =
     (case update_poll sch key s of
        (Inl e, s') \<Rightarrow> Some (Inl e, s')
      | (Inr new, s') \<Rightarrow>
          if Some new \<noteq> cur \<and> new \<notin> active_update_states then Some (Inr (err_code new), s')
          else wait_for_update env sch key err_code (Some new) (snd (doze env 5 s')))"

section \<open>The difference an update makes\<close>

definition min_start :: "(int \<times> int) list \<Rightarrow> int client" where
  "min_start ranges = (if ranges = [] then Inl (Py ValueError) else Inr (Min (set (map fst ranges))))"

definition format_ranges :: "(int \<times> int) list \<Rightarrow> (int \<times> int option) list" where
  "format_ranges ranges = map (\<lambda>(a, b). (a, if a = b then None else Some b)) (sort_key fst ranges)"

text \<open>The groups in the order of their first instance, and the lines printed: a heading with the instances,
  and the configuration to compare with the local one, if there is one.\<close>

definition sorted_groups :: "config_group list \<Rightarrow> config_group list client" where
  "sorted_groups gs =
     rbind (traverse (\<lambda>g. rbind (min_start (cg_instances g)) (\<lambda>m. Inr (m, g))) gs)
       (\<lambda>ms. Inr (map snd (sort_key fst ms)))"

type_synonym diff_line = "string \<times> (int \<times> int option) list \<times> thrift_task option"

definition show_diff :: "string \<Rightarrow> config_group list \<Rightarrow> thrift_task option \<Rightarrow> diff_line list client" where
  "show_diff header groups local_task =
     rbind (sorted_groups groups) (\<lambda>gs.
       Inr (case local_task of
          Some _ \<Rightarrow> map (\<lambda>g. (header, format_ranges (cg_instances g), Some (cg_config g))) gs
        | None \<Rightarrow> if gs = [] then [] else [(header, format_ranges (concat (map cg_instances gs)), None)]))"

definition show_job_update_diff :: "'w scheduler \<Rightarrow> job_config \<Rightarrow> int list option \<Rightarrow> thrift_task option
    \<Rightarrow> ('w, diff_line list) cmd" where
  "show_job_update_diff sch c instances local_task =
     and_then (call sch (get_job_update_diff c instances)) (\<lambda>resp.
     and_then (log_response_and_raise exit_command_failure resp) (\<lambda>_.
       case rp_result resp of
         Diff_result d \<Rightarrow> lift_client
           (rbind (show_diff ''add instances:'' (df_add d) None) (\<lambda>l1.
            rbind (show_diff ''remove instances:'' (df_remove d) None) (\<lambda>l2.
            rbind (show_diff ''remove instances:'' (df_remove d) None) (\<lambda>l3.
            rbind (show_diff ''update instances:'' (df_update d) local_task) (\<lambda>l4.
            rbind (show_diff ''not change instances:'' (df_unchanged d) None) (\<lambda>l5.
              Inr (l1 @ l2 @ l3 @ l4 @ l5)))))))
       | _ \<Rightarrow> lift_client (Inl (Py AttributeError))))"

section \<open>The commands\<close>

definition client_update_id :: string where
  "client_update_id = ''org.apache.aurora.client.update_id''"

definition is_update_already_in_progress :: "response \<Rightarrow> string \<Rightarrow> bool" where
  "is_update_already_in_progress resp update_id =
     (rp_code resp = INVALID_REQUEST \<and>
      (case rp_result resp of
         Started_result _ (Some u) \<Rightarrow>
           (case us_metadata u of
              Some md \<Rightarrow> [v. (k, v) \<leftarrow> md, k = client_update_id] = [update_id]
            | None \<Rightarrow> False)
       | _ \<Rightarrow> False))"

record start_options =
  so_instances :: "int list option"
  so_message :: "string option"
  so_wait :: bool

text \<open>What \<^verbatim>\<open>start\<close> does until it has an answer that stands: the difference, then the hooked call.  The error
  of an update configuration has no attribute \<^verbatim>\<open>message\<close>.\<close>

definition request_update :: "'w env \<Rightarrow> loaded_config \<Rightarrow> (job_config \<Rightarrow> bool) \<Rightarrow> start_options \<Rightarrow> aurora_job_key
    \<Rightarrow> string \<Rightarrow> ('w, 'w scheduler \<times> response) cmd" where
  "request_update env l has_cron_schedule opts job update_id =
     and_then (get_job_config env job l) (\<lambda>c.
       if has_cron_schedule c then raises (Command_error exit_command_failure False)
       else and_then (get_api env (ak_cluster (cf_key c))) (\<lambda>sch.
         and_then (show_job_update_diff sch c (so_instances opts) None) (\<lambda>_.
         and_then (\<lambda>s.
             case hooked_call (api_hooks env (Some c)) ''start_job_update''
                 (call sch (start_job_update c (so_message opts) (so_instances opts)
                    (Some [(client_update_id, update_id)]))) s of
               (Inl (Own Update_config_error), s') \<Rightarrow> (Inl (Py AttributeError), s')
             | r \<Rightarrow> r) (\<lambda>resp.
         and_then (if is_update_already_in_progress resp update_id then returns ()
                   else log_response_and_raise exit_api_error resp) (\<lambda>_.
           returns (sch, resp))))))"

definition start_update_command :: "'w env \<Rightarrow> loaded_config \<Rightarrow> (job_config \<Rightarrow> bool) \<Rightarrow> start_options \<Rightarrow> aurora_job_key
    \<Rightarrow> string \<Rightarrow> 'w session \<Rightarrow> (int client \<times> 'w session) option" where
  "start_update_command env l has_cron_schedule opts job update_id s =
     (case request_update env l has_cron_schedule opts job update_id s of
        (Inl e, s') \<Rightarrow> Some (Inl e, s')
      | (Inr (sch, resp), s') \<Rightarrow>
          (case rp_result resp of
             Nothing_set \<Rightarrow> Some (Inr exit_ok, s')
           | Started_result key _ \<Rightarrow>
               if so_wait opts then wait_for_update env sch key update_state_to_err_code None s'
               else Some (Inr exit_ok, s')
           | _ \<Rightarrow> Some (Inl (Py AttributeError), s')))"

definition wait_update_command :: "'w env \<Rightarrow> aurora_job_key \<Rightarrow> string \<Rightarrow> 'w session \<Rightarrow> (int client \<times> 'w session) option" where
  "wait_update_command env job i s =
     (case get_api env (ak_cluster job) s of
        (Inl e, s') \<Rightarrow> Some (Inl e, s')
      | (Inr sch, s') \<Rightarrow>
          wait_for_update env sch \<lparr>uk_job = to_thrift job, uk_id = i\<rparr> update_state_to_err_code None s')"

definition pause_command :: "'w env \<Rightarrow> aurora_job_key \<Rightarrow> string option \<Rightarrow> ('w, int) cmd" where
  "pause_command env job message =
     and_then (get_api env (ak_cluster job)) (\<lambda>sch.
     and_then (pause_update sch job message) (\<lambda>(code, _). returns code))"

definition resume_command :: "'w env \<Rightarrow> aurora_job_key \<Rightarrow> string option \<Rightarrow> ('w, int) cmd" where
  "resume_command env job message =
     and_then (get_api env (ak_cluster job)) (\<lambda>sch.
     and_then (resume_update sch job message) (\<lambda>(code, _). returns code))"

definition abort_command :: "'w env \<Rightarrow> aurora_job_key \<Rightarrow> string option \<Rightarrow> ('w, int) cmd" where
  "abort_command env job message =
     and_then (get_api env (ak_cluster job)) (\<lambda>sch.
     and_then (abort_update sch job message) (\<lambda>(code, _). returns code))"

definition rollback_command :: "'w env \<Rightarrow> aurora_job_key \<Rightarrow> string option \<Rightarrow> bool \<Rightarrow> 'w session
    \<Rightarrow> (int client \<times> 'w session) option" where
  "rollback_command env job message wait s =
     (case and_then (get_api env (ak_cluster job)) (\<lambda>sch.
           and_then (rollback_update sch job message) (\<lambda>r. returns (sch, r))) s of
        (Inl e, s') \<Rightarrow> Some (Inl e, s')
      | (Inr (sch, code, key), s') \<Rightarrow>
          (case key of
             Some u \<Rightarrow> if code = exit_ok \<and> wait then wait_for_update env sch u rollback_state_to_err_code None s'
                      else Some (Inr code, s')
           | None \<Rightarrow> Some (Inr code, s')))"

section \<open>Listing updates\<close>

record update_filter =
  uf_cluster :: string
  uf_role :: "string option"
  uf_env :: "string option"
  uf_job :: "string option"

definition parse_update_filter :: "string option \<Rightarrow> update_filter cfg" where
  "parse_update_filter arg =
     (case arg of
        None \<Rightarrow> Inl (Py ValueError)
      | Some str \<Rightarrow>
          if str = [] then Inl (Py ValueError)
          else let parts = split_at (CHR ''/'') str in
            if length parts > 4 then Inl (Py ValueError)
            else let ps = map Some parts @ replicate (4 - length parts) None in
              Inr \<lparr>uf_cluster = hd parts, uf_role = ps ! 1, uf_env = ps ! 2, uf_job = ps ! 3\<rparr>)"

definition all_update_states :: "update_status list" where
  "all_update_states = [ROLLING_FORWARD, ROLLING_BACK, ROLL_FORWARD_PAUSED, ROLL_BACK_PAUSED, ROLLED_FORWARD,
     ROLLED_BACK, ABORTED, ERROR, FAILED, ROLL_FORWARD_AWAITING_PULSE, ROLL_BACK_AWAITING_PULSE]"

fun update_status_name :: "update_status \<Rightarrow> string" where
  "update_status_name ROLLING_FORWARD = ''ROLLING_FORWARD''"
| "update_status_name ROLLING_BACK = ''ROLLING_BACK''"
| "update_status_name ROLL_FORWARD_PAUSED = ''ROLL_FORWARD_PAUSED''"
| "update_status_name ROLL_BACK_PAUSED = ''ROLL_BACK_PAUSED''"
| "update_status_name ROLLED_FORWARD = ''ROLLED_FORWARD''"
| "update_status_name ROLLED_BACK = ''ROLLED_BACK''"
| "update_status_name ABORTED = ''ABORTED''"
| "update_status_name ERROR = ''ERROR''"
| "update_status_name FAILED = ''FAILED''"
| "update_status_name ROLL_FORWARD_AWAITING_PULSE = ''ROLL_FORWARD_AWAITING_PULSE''"
| "update_status_name ROLL_BACK_AWAITING_PULSE = ''ROLL_BACK_AWAITING_PULSE''"

definition status_groups :: "(string \<times> update_status set) list" where
  "status_groups =
     [(''active'', active_update_states), (''all'', set all_update_states),
      (''blocked'', {ROLL_FORWARD_AWAITING_PULSE, ROLL_BACK_AWAITING_PULSE}),
      (''failed'', {ERROR, FAILED, ROLLED_BACK}),
      (''inactive'', set all_update_states - active_update_states),
      (''paused'', {ROLL_FORWARD_PAUSED, ROLL_BACK_PAUSED}),
      (''succeeded'', {ROLLED_FORWARD})] @ map (\<lambda>st. (update_status_name st, {st})) all_update_states"

definition filter_statuses :: "string list \<Rightarrow> update_status set client" where
  "filter_statuses names =
     rbind (traverse (\<lambda>n. case map_of status_groups n of Some g \<Rightarrow> Inr g | None \<Rightarrow> Inl (Py KeyError)) names)
       (\<lambda>gs. Inr (\<Union> (set gs)))"

definition update_filter_key :: "update_filter \<Rightarrow> aurora_job_key option client" where
  "update_filter_key f =
     (case (uf_role f, uf_env f, uf_job f) of
        (Some role, Some env, Some job) \<Rightarrow>
          (case new_job_key (uf_cluster f) role env job of
             Inl (Own e) \<Rightarrow> Inl (Own (Config_error e)) | Inl (Py e) \<Rightarrow> Inl (Py e) | Inr k \<Rightarrow> Inr (Some k))
      | _ \<Rightarrow> Inr None)"

definition list_updates_command :: "'w env \<Rightarrow> update_filter \<Rightarrow> string list \<Rightarrow> string option
    \<Rightarrow> ('w, (string \<times> update_summary) list) cmd" where
  "list_updates_command env f statuses user =
     and_then (lift_client (update_filter_key f)) (\<lambda>key.
     and_then (get_api env (uf_cluster f)) (\<lambda>sch.
     and_then (lift_client (filter_statuses statuses)) (\<lambda>sts.
     and_then (call sch (query_job_updates (if key = None then uf_role f else None) key user
         (if sts = {} then None else Some sts) None)) (\<lambda>resp.
     and_then (log_response_and_raise exit_api_error resp) (\<lambda>_.
     and_then (summaries_of resp) (\<lambda>ss.
       let chosen = (case (key, uf_env f) of
              (None, Some env) \<Rightarrow> [u \<leftarrow> ss. fst (snd (uk_job (us_key u))) = env]
            | _ \<Rightarrow> ss)
       in lift_client (traverse (\<lambda>u. rbind (thrift_job_key (uf_cluster f) (uk_job (us_key u)))
            (\<lambda>k. Inr (to_path k, u))) chosen)))))))"

definition update_info_command :: "'w env \<Rightarrow> aurora_job_key \<Rightarrow> string option \<Rightarrow> ('w, int \<times> update_details option) cmd" where
  "update_info_command env job i =
     and_then (case i of
         Some i' \<Rightarrow> if i' \<noteq> [] then returns (Some \<lparr>uk_job = to_thrift job, uk_id = i'\<rparr>)
                  else and_then (get_api env (ak_cluster job)) (\<lambda>sch. get_update_key sch job)
       | None \<Rightarrow> and_then (get_api env (ak_cluster job)) (\<lambda>sch. get_update_key sch job)) (\<lambda>key.
     case key of
       None \<Rightarrow> returns (exit_invalid_parameter, None)
     | Some key \<Rightarrow>
         and_then (get_api env (ak_cluster job)) (\<lambda>sch.
         and_then (call sch (get_job_update_details key)) (\<lambda>resp.
         and_then (log_response_and_raise exit_api_error resp) (\<lambda>_.
           case rp_result resp of
             Details_result (Some []) _ \<Rightarrow> returns (exit_invalid_parameter, None)
           | Details_result (Some (d # _)) _ \<Rightarrow> returns (exit_ok, Some d)
           | Details_result None (Some d) \<Rightarrow> returns (exit_ok, Some d)
           | _ \<Rightarrow> lift_client (Inl (Py AttributeError))))))"

text \<open>What \<^verbatim>\<open>info\<close> writes as JSON: \<open>stamp\<close> renders a time.\<close>

fun update_action_name :: "update_action \<Rightarrow> string" where
  "update_action_name INSTANCE_UPDATED = ''INSTANCE_UPDATED''"
| "update_action_name INSTANCE_ROLLED_BACK = ''INSTANCE_ROLLED_BACK''"
| "update_action_name INSTANCE_UPDATING = ''INSTANCE_UPDATING''"
| "update_action_name INSTANCE_ROLLING_BACK = ''INSTANCE_ROLLING_BACK''"
| "update_action_name INSTANCE_UPDATE_FAILED = ''INSTANCE_UPDATE_FAILED''"
| "update_action_name INSTANCE_ROLLBACK_FAILED = ''INSTANCE_ROLLBACK_FAILED''"

record update_report =
  ui_id :: string
  ui_job :: string
  ui_started :: int
  ui_modified :: string
  ui_status :: string
  ui_metadata :: "(string \<times> string) list option"
  ui_events :: "(string \<times> int \<times> string option) list"
  ui_instances :: "(int \<times> int \<times> string) list"

definition update_report_of :: "(int \<Rightarrow> string) \<Rightarrow> aurora_job_key \<Rightarrow> update_details \<Rightarrow> update_report" where
  "update_report_of stamp job d =
     \<lparr>ui_id = uk_id (us_key (ud_summary d)), ui_job = to_path job, ui_started = us_created (ud_summary d),
      ui_modified = stamp (us_modified (ud_summary d)), ui_status = update_status_name (us_status (ud_summary d)),
      ui_metadata = map_option sort (us_metadata (ud_summary d)),
      ui_events = (case ud_events d of None \<Rightarrow> [] | Some es \<Rightarrow> map (\<lambda>(st, t, m).
          (update_status_name st, t, if m = Some [] then None else m)) es),
      ui_instances = (case ud_instances d of None \<Rightarrow> [] | Some es \<Rightarrow> map (\<lambda>(i, t, a).
          (i, t, update_action_name a)) es)\<rparr>"

section \<open>The controller changes one update\<close>

text \<open>The query of \<open>get_update_key\<close>.\<close>

definition active_update_query :: "aurora_job_key \<Rightarrow> proxied" where
  "active_update_query k =
     repeatable ''getJobUpdateSummaries'' [A_update_query \<lparr>uq_role = None, uq_job_key = Some (to_thrift k),
       uq_user = None, uq_statuses = Some active_update_states, uq_key = None\<rparr>]"

lemma call_Inr: "call sch (Inr p) = send sch p"
  by (simp add: call_def and_then_def lift_client_def fun_eq_iff)

lemma get_update_key_step:
  "get_update_key sch k s =
     (case send sch (active_update_query k) s of
        (Inl e, s1) \<Rightarrow> (Inl e, s1)
      | (Inr resp, s1) \<Rightarrow>
          (if rp_code resp \<noteq> OK then Inl (Own (Command_error exit_api_error True))
           else case rp_result resp of
               Summaries_result [] \<Rightarrow> Inr None
             | Summaries_result [u] \<Rightarrow> Inr (Some (us_key u))
             | Summaries_result _ \<Rightarrow> Inl (Own (Command_error exit_api_error False))
             | _ \<Rightarrow> Inl (Py AttributeError), s1))"
  by (auto simp: get_update_key_def query_job_updates_def call_Inr active_update_query_def and_then_def
      log_response_and_raise_def summaries_of_def returns_def raises_def lift_client_def
      split: prod.splits sum.splits payload.splits list.splits)

lemma get_update_key_sent: "s_sent (snd (get_update_key sch k s)) = s_sent s @ [active_update_query k]"
  using send_sent [of sch "active_update_query k" s] unfolding get_update_key_step
  by (auto split: prod.splits sum.splits)

lemma get_update_key_unique:
  assumes "get_update_key sch k s = (Inr x, s1)"
  shows "\<exists>resp ss. fst (sch (s_world s) (active_update_query k)) = Inr resp \<and> rp_code resp = OK \<and>
    rp_result resp = Summaries_result ss \<and> (case x of None \<Rightarrow> ss = [] | Some key \<Rightarrow> \<exists>u. ss = [u] \<and> key = us_key u)"
  using assms unfolding get_update_key_step send_def
  by (auto split: prod.splits sum.splits payload.splits list.splits if_splits exn.splits proxy_error.splits)

text \<open>A mutation is sent at most once, and only for the one update that is active.\<close>

lemma modify_update_cases:
  assumes "modify_update sch k (\<lambda>key. Inr (p key)) s = (r, s')"
  obtains
      (unsent) "s_sent s' = s_sent s @ [active_update_query k]" "\<And>key. r \<noteq> Inr (exit_ok, key)"
        "\<And>x. r = Inr x \<Longrightarrow> x = (exit_invalid_parameter, None) \<and>
          (\<exists>resp. fst (sch (s_world s) (active_update_query k)) = Inr resp \<and> rp_code resp = OK \<and> rp_result resp = Summaries_result [])"
    | (sent) u resp where "fst (sch (s_world s) (active_update_query k)) = Inr resp" "rp_code resp = OK"
        "rp_result resp = Summaries_result [u]" "s_sent s' = s_sent s @ [active_update_query k, p (us_key u)]"
        "\<And>x. r = Inr x \<Longrightarrow> x = (exit_ok, Some (us_key u))"
proof -
  obtain x s1 where x: "get_update_key sch k s = (x, s1)" by (cases "get_update_key sch k s")
  have s1: "s_sent s1 = s_sent s @ [active_update_query k]" using get_update_key_sent [of sch k s] x by simp
  show thesis
  proof (cases x)
    case (Inl e)
    then have "r = Inl e" "s' = s1" using assms x by (auto simp: modify_update_def and_then_def)
    then show thesis using s1 unsent by simp
  next
    case (Inr key)
    show thesis
    proof (cases key)
      case None
      then have "r = Inr (exit_invalid_parameter, None)" "s' = s1"
        using assms x Inr by (simp_all add: modify_update_def and_then_def returns_def)
      then show thesis using get_update_key_unique [of sch k s key s1] x Inr None s1 unsent
        by (auto simp: exit_ok_def exit_invalid_parameter_def)
    next
      case (Some u)
      have "r = Inr z \<Longrightarrow> z = (exit_ok, Some u)" "s_sent s' = s_sent s1 @ [p u]" for z
        using assms x Inr Some send_sent [of sch "p u" s1]
        by (auto simp: modify_update_def call_Inr and_then_def log_response_and_raise_def returns_def raises_def
            split: prod.splits sum.splits if_splits)
      then show thesis using get_update_key_unique [of sch k s key s1] x Inr Some s1 sent by fastforce
    qed
  qed
qed

lemma mutations_of_update:
  "rollback_update sch k m = modify_update sch k (\<lambda>u. Inr (once ''rollbackJobUpdate'' [A_update_key u, A_text m]))"
  "pause_update sch k m = modify_update sch k (\<lambda>u. Inr (once ''pauseJobUpdate'' [A_update_key u, A_text m]))"
  "resume_update sch k m = modify_update sch k (\<lambda>u. Inr (once ''resumeJobUpdate'' [A_update_key u, A_text m]))"
  "abort_update sch k m = modify_update sch k (\<lambda>u. Inr (once ''abortJobUpdate'' [A_update_key u, A_text m]))"
  by (simp_all add: rollback_update_def pause_update_def resume_update_def abort_update_def
      rollback_job_update_def pause_job_update_def resume_job_update_def abort_job_update_def)

section \<open>Waiting\<close>

text \<open>The session after \<open>n\<close> rounds that all saw the update active.\<close>

fun after_polls :: "'w env \<Rightarrow> 'w scheduler \<Rightarrow> update_key \<Rightarrow> nat \<Rightarrow> 'w session \<Rightarrow> 'w session option" where
  "after_polls env sch key 0 s = Some s"
| "after_polls env sch key (Suc n) s =
     (case update_poll sch key s of
        (Inr st, s') \<Rightarrow> if st \<in> active_update_states then after_polls env sch key n (snd (doze env 5 s')) else None
      | (Inl _, _) \<Rightarrow> None)"

text \<open>What the wait answers when a round ends it.\<close>

definition poll_ends :: "'w scheduler \<Rightarrow> update_key \<Rightarrow> (update_status \<Rightarrow> int) \<Rightarrow> 'w session
    \<Rightarrow> int client \<times> 'w session \<Rightarrow> bool" where
  "poll_ends sch key f s out =
     (case update_poll sch key s of
        (Inl e, s') \<Rightarrow> out = (Inl e, s')
      | (Inr st, s') \<Rightarrow> st \<notin> active_update_states \<and> out = (Inr (f st), s'))"

lemma wait_for_update_step:
  "wait_for_update env sch key f cur s =
     (case update_poll sch key s of
        (Inl e, s') \<Rightarrow> Some (Inl e, s')
      | (Inr new, s') \<Rightarrow>
          if Some new \<noteq> cur \<and> new \<notin> active_update_states then Some (Inr (f new), s')
          else wait_for_update env sch key f (Some new) (snd (doze env 5 s')))"
  by (rule wait_for_update.simps)

abbreviation seen_active :: "update_status option \<Rightarrow> bool" where
  "seen_active cur \<equiv> \<forall>st. cur = Some st \<longrightarrow> st \<in> active_update_states"

lemma wait_for_update_returns:
  "after_polls env sch key n s = Some s1 \<Longrightarrow> poll_ends sch key f s1 out \<Longrightarrow> seen_active cur \<Longrightarrow>
     wait_for_update env sch key f cur s = Some out"
proof (induction n arbitrary: s cur)
  case 0
  then show ?case
    by (subst wait_for_update_step) (auto simp: poll_ends_def split: prod.splits sum.splits)
next
  case (Suc n)
  then obtain st s' where st: "update_poll sch key s = (Inr st, s')" "st \<in> active_update_states"
    "after_polls env sch key n (snd (doze env 5 s')) = Some s1"
    by (auto split: prod.splits sum.splits if_splits)
  then show ?case using Suc.IH [OF st(3) Suc.prems(2), of "Some st"]
    by (subst wait_for_update_step) simp
qed

lemma wait_for_update_polls:
  "wait_for_update env sch key f cur s = Some out \<Longrightarrow>
     seen_active cur \<longrightarrow> (\<exists>n s1. after_polls env sch key n s = Some s1 \<and> poll_ends sch key f s1 out)"
proof (induction env sch key f cur s out rule: wait_for_update.raw_induct [rotated, consumes 1, case_names step])
  case (step wait env sch key f cur s out)
  show ?case
  proof
    assume cur: "seen_active cur"
    obtain x s' where x: "update_poll sch key s = (x, s')" by (cases "update_poll sch key s")
    show "\<exists>n s1. after_polls env sch key n s = Some s1 \<and> poll_ends sch key f s1 out"
    proof (cases "\<exists>st. x = Inr st \<and> st \<in> active_update_states")
      case True
      then obtain st where st: "x = Inr st" "st \<in> active_update_states" by blast
      then have "wait env sch key f (Some st) (snd (doze env 5 s')) = Some out" using step(2) x by simp
      then obtain n s1 where "after_polls env sch key n (snd (doze env 5 s')) = Some s1" "poll_ends sch key f s1 out"
        using step(1) st(2) by blast
      then have "after_polls env sch key (Suc n) s = Some s1 \<and> poll_ends sch key f s1 out" using x st by simp
      then show ?thesis by blast
    next
      case False
      then have "poll_ends sch key f s out"
        using step(2) x cur by (auto simp: poll_ends_def split: sum.splits if_splits)
      then show ?thesis by (intro exI [of _ 0] exI [of _ s]) simp
    qed
  qed
qed

lemma wait_for_update_iff:
  "wait_for_update env sch key f None s = Some out \<longleftrightarrow>
     (\<exists>n s1. after_polls env sch key n s = Some s1 \<and> poll_ends sch key f s1 out)"
  using wait_for_update_returns [of env sch key _ s _ f out None] wait_for_update_polls [of env sch key f None s out]
  by auto

section \<open>What the commands answer\<close>

text \<open>\<^verbatim>\<open>pause\<close>, \<^verbatim>\<open>resume\<close>, \<^verbatim>\<open>abort\<close> and \<^verbatim>\<open>rollback\<close> ask for the job's active updates and, only if there is exactly
  one, send one request, for that one; they answer success only after it.  With no active update, or several,
  or an answer that is refused, nothing but the question is sent.\<close>

theorem update_change_exact:
  assumes "(change, name) \<in> {(rollback_update, ''rollbackJobUpdate''), (pause_update, ''pauseJobUpdate''),
      (resume_update, ''resumeJobUpdate''), (abort_update, ''abortJobUpdate'')}"
    and "change sch k m s = (r, s')"
  shows "s_sent s' = s_sent s @ [active_update_query k] \<and> (\<forall>key. r \<noteq> Inr (exit_ok, key)) \<or>
    (\<exists>u resp. fst (sch (s_world s) (active_update_query k)) = Inr resp \<and> rp_code resp = OK \<and>
       rp_result resp = Summaries_result [u] \<and>
       s_sent s' = s_sent s @ [active_update_query k, once name [A_update_key (us_key u), A_text m]] \<and>
       (\<forall>x. r = Inr x \<longrightarrow> x = (exit_ok, Some (us_key u))))"
proof -
  have "modify_update sch k (\<lambda>u. Inr (once name [A_update_key u, A_text m])) s = (r, s')"
    using assms by (auto simp: mutations_of_update)
  then show ?thesis by (cases rule: modify_update_cases) blast+
qed

text \<open>A scheduler that knows one update.\<close>

definition one_update :: "unit scheduler" where
  "one_update w p = (Inr \<lparr>rp_code = OK, rp_result = Summaries_result [\<lparr>us_key = \<lparr>uk_job = (''r'', ''e'', ''j''), uk_id = ''u''\<rparr>,
     us_user = ''me'', us_status = ROLLING_FORWARD, us_created = 0, us_modified = 0, us_metadata = None\<rparr>]\<rparr>, w)"

theorem update_change_exact_witness:
  "abort_update one_update \<lparr>ak_cluster = ''c'', ak_role = ''r'', ak_env = ''e'', ak_name = ''j''\<rparr> None
      \<lparr>s_world = (), s_sent = []\<rparr> =
     (Inr (exit_ok, Some \<lparr>uk_job = (''r'', ''e'', ''j''), uk_id = ''u''\<rparr>), \<lparr>s_world = (), s_sent =
        [active_update_query \<lparr>ak_cluster = ''c'', ak_role = ''r'', ak_env = ''e'', ak_name = ''j''\<rparr>,
         once ''abortJobUpdate'' [A_update_key \<lparr>uk_job = (''r'', ''e'', ''j''), uk_id = ''u''\<rparr>, A_text None]]\<rparr>)"
proof -
  let ?k = "\<lparr>ak_cluster = ''c'', ak_role = ''r'', ak_env = ''e'', ak_name = ''j''\<rparr>"
  let ?s = "\<lparr>s_world = (), s_sent = []\<rparr>"
  obtain r s' where run: "abort_update one_update ?k None ?s = (r, s')" by (cases "abort_update one_update ?k None ?s")
  have r: "r = Inr (exit_ok, Some \<lparr>uk_job = (''r'', ''e'', ''j''), uk_id = ''u''\<rparr>)"
    using run by (simp add: mutations_of_update modify_update_def get_update_key_step send_def one_update_def
        and_then_def returns_def log_response_and_raise_def call_Inr)
  have "s_sent s' = [active_update_query ?k,
      once ''abortJobUpdate'' [A_update_key \<lparr>uk_job = (''r'', ''e'', ''j''), uk_id = ''u''\<rparr>, A_text None]]"
    using update_change_exact [where change = abort_update and name = "''abortJobUpdate''" and sch = one_update and k = ?k
        and m = None and s = ?s and r = r and s' = s'] run r by (simp add: one_update_def)
  then show ?thesis using run r by (cases s') simp
qed

definition waited_key :: "aurora_job_key \<Rightarrow> string \<Rightarrow> update_key" where
  "waited_key job i = \<lparr>uk_job = to_thrift job, uk_id = i\<rparr>"

text \<open>C29: \<^verbatim>\<open>update wait\<close> ends with a code exactly when some poll shows the update in a state that is not active, all
  polls before having shown an active one; the code is 0 for an update that rolled forward, 4 for one that
  rolled back and 20 for any other end.  While the update stays active it does not return.\<close>

theorem update_wait_exact:
  "wait_update_command env job i s = Some (Inr code, s') \<longleftrightarrow>
     ak_cluster job \<in> set (en_clusters env) \<and>
     (\<exists>n s1 st. after_polls env (en_scheduler env (ak_cluster job)) (waited_key job i) n s = Some s1 \<and>
        update_poll (en_scheduler env (ak_cluster job)) (waited_key job i) s1 = (Inr st, s') \<and>
        st \<notin> active_update_states \<and>
        code = (if st = ROLLED_FORWARD then 0 else if st = ROLLED_BACK then 4 else 20))"
proof (cases "ak_cluster job \<in> set (en_clusters env)")
  case True
  have codes: "(if st = ROLLED_FORWARD then 0 else if st = ROLLED_BACK then 4 else 20) = update_state_to_err_code st" for st
    by (simp add: update_state_to_err_code_def exit_ok_def exit_command_failure_def exit_unknown_error_def)
  have "poll_ends sch key update_state_to_err_code s1 (Inr code, s') \<longleftrightarrow>
      (\<exists>st. update_poll sch key s1 = (Inr st, s') \<and> st \<notin> active_update_states \<and> code = update_state_to_err_code st)" for sch key s1
    by (auto simp: poll_ends_def split: prod.splits sum.splits)
  then show ?thesis using True unfolding codes
    by (simp add: wait_update_command_def get_api_def returns_def waited_key_def wait_for_update_iff)
next
  case False
  then show ?thesis by (auto simp: wait_update_command_def get_api_def raises_def)
qed

section \<open>Starting\<close>

definition request_stands :: "response \<Rightarrow> string \<Rightarrow> bool" where
  "request_stands resp update_id =
     (rp_code resp = OK \<or> (\<exists>key u md. rp_code resp = INVALID_REQUEST \<and> rp_result resp = Started_result key (Some u) \<and>
        us_metadata u = Some md \<and> [v. (k, v) \<leftarrow> md, k = client_update_id] = [update_id]))"

lemma in_progress_iff:
  "is_update_already_in_progress resp i \<or> rp_code resp = OK \<longleftrightarrow> request_stands resp i"
  unfolding is_update_already_in_progress_def request_stands_def
  by (cases "rp_result resp") (auto split: option.splits)

lemma request_update_stands:
  assumes "request_update env l cron opts job i s = (Inr (sch, resp), s')"
  shows "request_stands resp i"
  using assms unfolding request_update_def
  by (auto simp: and_then_Inr in_progress_iff [symmetric] log_response_and_raise_def returns_def raises_def split: if_splits)

text \<open>\<^verbatim>\<open>update start\<close> ends with code 0 only if the scheduler accepted the request, or refused it because an update
  is in progress that carries this very request's identifier; and when it waits, only if the update was at
  last seen to have rolled forward.\<close>

theorem update_start_ok:
  assumes "start_update_command env l cron opts job i s = Some (Inr exit_ok, s')"
  shows "\<exists>sch resp s0. request_update env l cron opts job i s = (Inr (sch, resp), s0) \<and> request_stands resp i \<and>
    (so_wait opts \<and> rp_result resp \<noteq> Nothing_set \<longrightarrow>
       (\<exists>key sm n s1. rp_result resp = Started_result key sm \<and> after_polls env sch key n s0 = Some s1 \<and>
          update_poll sch key s1 = (Inr ROLLED_FORWARD, s')))"
proof -
  obtain sch resp s0 where req: "request_update env l cron opts job i s = (Inr (sch, resp), s0)"
    using assms by (auto simp: start_update_command_def split: prod.splits sum.splits)
  have "\<exists>key sm n s1. rp_result resp = Started_result key sm \<and> after_polls env sch key n s0 = Some s1 \<and>
      update_poll sch key s1 = (Inr ROLLED_FORWARD, s')" if w: "so_wait opts" "rp_result resp \<noteq> Nothing_set"
  proof -
    obtain key sm where k: "rp_result resp = Started_result key sm"
      and "wait_for_update env sch key update_state_to_err_code None s0 = Some (Inr exit_ok, s')"
      using assms req w by (auto simp: start_update_command_def split: payload.splits)
    then obtain n s1 where n: "after_polls env sch key n s0 = Some s1"
      "poll_ends sch key update_state_to_err_code s1 (Inr exit_ok, s')"
      unfolding wait_for_update_iff by blast
    then have "update_poll sch key s1 = (Inr ROLLED_FORWARD, s')"
      by (auto simp: poll_ends_def update_state_to_err_code_def exit_ok_def exit_command_failure_def exit_unknown_error_def
          split: prod.splits sum.splits if_splits)
    then show ?thesis using k n by blast
  qed
  then show ?thesis using req request_update_stands [OF req] by blast
qed

lemma start_job_update_refused:
  "job_update_request c is None = Inl e \<Longrightarrow> get_job_update_diff c is = Inl e"
  by (simp add: get_job_update_diff_def)

text \<open>An update configuration that the settings refuse never reaches the handler that \<^verbatim>\<open>update start\<close> has for it: the
  difference that is shown first builds the same request, so the error leaves the command, and no request for
  an update is sent.\<close>

theorem update_config_error_escapes:
  assumes "get_job_config env job l s = (Inr c, s1)" "\<not> cron c" "ak_cluster (cf_key c) \<in> set (en_clusters env)"
    and "job_update_request c (so_instances opts) None = Inl (Own Update_config_error)"
  shows "start_update_command env l cron opts job i s = Some (Inl (Own Update_config_error), s1)"
  using assms
  by (simp add: start_update_command_def request_update_def and_then_def get_api_def returns_def
      show_job_update_diff_def call_def lift_client_def get_job_update_diff_def)

section \<open>A run\<close>

definition sample_key :: aurora_job_key where
  "sample_key = \<lparr>ak_cluster = ''c'', ak_role = ''r'', ak_env = ''e'', ak_name = ''j''\<rparr>"

definition sample_job :: job_configuration where
  "sample_job = \<lparr>jc_owner = ''r'', jc_task = \<lparr>tt_role = ''r'', tt_environment = ''e'', tt_name = ''j'', tt_production = False,
      tt_is_service = True, tt_max_failures = 1, tt_priority = 0, tt_contact = None, tt_tier = None, tt_partition = None,
      tt_sla = None, tt_metadata = {}, tt_resources = [], tt_constraints = [], tt_container = In_mesos None None,
      tt_executor_name = ''AuroraExecutor'', tt_executor_data = ''{}''\<rparr>,
    jc_cron_schedule = None, jc_cron_policy = ''KILL_EXISTING'', jc_instances = 1\<rparr>"

definition sample_config :: "int \<Rightarrow> job_config" where
  "sample_config batch = \<lparr>cf_key = sample_key, cf_job = Inr sample_job, cf_instances = 1,
     cf_update = \<lparr>up_batch_size = batch, up_watch_secs = 45, up_max_total_failures = 0, up_max_per_instance_failures = 0,
       up_strategy = None, up_sla_aware = False, up_wait_for_batch = False, up_rollback_on_failure = True,
       up_pulse_interval = None\<rparr>,
     cf_group_size = (\<lambda>_. Inr 1), cf_enable_hooks = False\<rparr>"

definition sample_load :: "int \<Rightarrow> loaded_config" where
  "sample_load batch = \<lparr>lc_config = Inr (sample_config batch), lc_checks = True, lc_update_job = (\<lambda>_. sample_config batch)\<rparr>"

definition sample_scheduler :: "nat scheduler" where
  "sample_scheduler w p = (Inr \<lparr>rp_code = OK, rp_result =
     (if px_method p = ''getTierConfigs'' then Tiers_result [] ''preemptible''
      else if px_method p = ''getJobUpdateDiff'' then Diff_result \<lparr>df_add = [], df_remove = [], df_update = [], df_unchanged = []\<rparr>
      else if px_method p = ''startJobUpdate'' then Started_result (waited_key sample_key ''u'') None
      else Summaries_result [\<lparr>us_key = waited_key sample_key ''u'', us_user = ''me'',
         us_status = (if w < 4 then ROLLING_FORWARD else ROLLED_FORWARD), us_created = 0, us_modified = 0, us_metadata = None\<rparr>])\<rparr>,
     w + 1)"

definition sample_env :: "nat env" where
  "sample_env = \<lparr>en_clusters = [''c''], en_scheduler = (\<lambda>_. sample_scheduler), en_registry = reset_hooks, en_file_hooks = [],
     en_sleep = (\<lambda>_ w. w)\<rparr>"

definition sample_start :: start_options where
  "sample_start = \<lparr>so_instances = None, so_message = None, so_wait = True\<rparr>"

definition at_start :: "nat session" where
  "at_start = \<lparr>s_world = 0, s_sent = []\<rparr>"

definition after_config :: "nat session" where
  "after_config = at_start\<lparr>s_world := 1, s_sent := [repeatable ''getTierConfigs'' []]\<rparr>"

lemma sample_get_config:
  "get_job_config sample_env sample_key (sample_load b) at_start =
     (Inr (sample_config b), after_config)"
  by (simp add: after_config_def get_job_config_def sample_load_def and_then_def lift_client_def get_config_with_production_and_tier_def
      get_api_def returns_def sample_env_def sample_key_def call_Inr send_def sample_scheduler_def at_start_def
      log_response_and_raise_def sample_config_def)

lemma sample_request:
  "\<exists>s1. request_update sample_env (sample_load 1) (\<lambda>_. False) sample_start sample_key ''i'' at_start =
     (Inr (sample_scheduler, \<lparr>rp_code = OK, rp_result = Started_result (waited_key sample_key ''u'') None\<rparr>), s1) \<and>
     s_world s1 = 3"
proof -
  have up: "\<exists>r. job_update_request (sample_config 1) None md = Inr r" for md
    by (simp add: job_update_request_def sample_config_def updater_init_def to_thrift_update_settings_def
        effective_strategy_def update_settings_def split: option.split)
  obtain r where r: "job_update_request (sample_config 1) None None = Inr r" using up by blast
  obtain r' where r': "job_update_request (sample_config 1) None (Some [(client_update_id, ''i'')]) = Inr r'" using up by blast
  have hooks: "api_hooks sample_env (Some (sample_config 1)) = []"
    by (simp add: api_hooks_def hooks_for_def get_hooks_def sample_env_def reset_hooks_def sample_config_def)
  have api: "get_api sample_env cl s = (Inr sample_scheduler, s)" if "cl = ''c''" for cl s
    using that by (simp add: get_api_def sample_env_def returns_def)
  have cl: "ak_cluster (cf_key (sample_config 1)) = ''c''" by (simp add: sample_config_def sample_key_def)
  obtain s2 where diff: "show_job_update_diff sample_scheduler (sample_config 1) None None after_config = (Inr [], s2)" "s_world s2 = 2"
    by (simp add: after_config_def show_job_update_diff_def get_job_update_diff_def r call_Inr and_then_def send_def sample_scheduler_def
        log_response_and_raise_def returns_def show_diff_def sorted_groups_def lift_client_def)
  obtain s3 where start: "hooked_call (api_hooks sample_env (Some (sample_config 1))) ''start_job_update''
      (call sample_scheduler (start_job_update (sample_config 1) None None (Some [(client_update_id, ''i'')]))) s2 =
      (Inr \<lparr>rp_code = OK, rp_result = Started_result (waited_key sample_key ''u'') None\<rparr>, s3)" "s_world s3 = 3"
    using diff(2) by (simp add: hooks hooked_call_def run_hooks_def start_job_update_def r' call_Inr send_def sample_scheduler_def)
  show ?thesis
    using start(2) by (simp add: request_update_def and_then_def sample_get_config api cl sample_start_def diff(1) start(1)
        is_update_already_in_progress_def log_response_and_raise_def returns_def)
qed

lemma sample_start_ok:
  "\<exists>s'. start_update_command sample_env (sample_load 1) (\<lambda>_. False) sample_start sample_key ''i'' at_start =
     Some (Inr exit_ok, s')"
proof -
  obtain s1 where req: "request_update sample_env (sample_load 1) (\<lambda>_. False) sample_start sample_key ''i'' at_start =
     (Inr (sample_scheduler, \<lparr>rp_code = OK, rp_result = Started_result (waited_key sample_key ''u'') None\<rparr>), s1)"
    and w: "s_world s1 = 3"
    using sample_request by blast
  have poll: "update_poll sample_scheduler key s =
      (Inr (if s_world s < 4 then ROLLING_FORWARD else ROLLED_FORWARD),
       s\<lparr>s_world := s_world s + 1, s_sent := s_sent s @ [repeatable ''getJobUpdateSummaries'' [A_update_query
         \<lparr>uq_role = None, uq_job_key = None, uq_user = None, uq_statuses = None, uq_key = Some key\<rparr>]]\<rparr>)" for key s
    by (simp add: update_poll_def query_job_updates_def call_Inr and_then_def send_def sample_scheduler_def
        log_response_and_raise_def returns_def summaries_of_def)
  have "\<exists>s'. wait_for_update sample_env sample_scheduler key update_state_to_err_code None s1 = Some (Inr exit_ok, s')" for key
    by (subst wait_for_update_step, simp add: poll w active_update_states_def)
      (subst wait_for_update_step, simp add: poll w active_update_states_def doze_def sample_env_def update_state_to_err_code_def)
  then show ?thesis using req by (simp add: start_update_command_def sample_start_def)
qed

theorem update_start_ok_witness:
  "\<exists>sch resp s0. request_update sample_env (sample_load 1) (\<lambda>_. False) sample_start sample_key ''i'' at_start =
     (Inr (sch, resp), s0) \<and> request_stands resp ''i''"
proof -
  obtain s' where "start_update_command sample_env (sample_load 1) (\<lambda>_. False) sample_start sample_key ''i'' at_start =
     Some (Inr exit_ok, s')" using sample_start_ok by blast
  from update_start_ok [OF this] show ?thesis by blast
qed

theorem update_config_error_escapes_witness:
  "start_update_command sample_env (sample_load 0) (\<lambda>_. False) sample_start sample_key ''i'' at_start =
     Some (Inl (Own Update_config_error), after_config)"
  by (rule update_config_error_escapes [OF sample_get_config])
    (simp_all add: sample_config_def sample_key_def sample_env_def sample_start_def job_update_request_def updater_init_def)

end
