(* ===== verification/Cli.thy ===== *)
theory Cli
  imports UpdateCommands ProcessLog
begin

text \<open>
  The command line of the client: the dispatch of \<^verbatim>\<open>apache/aurora/client/cli/__init__.py\<close> with its plugins and
  exit codes, the command hooks of \<^verbatim>\<open>cli/command_hooks.py\<close>, the argument types of \<^verbatim>\<open>cli/options.py\<close>, the checks
  of \<^verbatim>\<open>client/config.py\<close>, and the commands of \<^verbatim>\<open>cli/cron.py\<close>.  The parser of arguments is a parameter (the
  standard library's, with the options that the verbs declare), and so are plugins, hooks and verbs where the
  dispatch is concerned.
\<close>

section \<open>Exceptions and exit codes\<close>

definition exit_network_error :: int where "exit_network_error = 7"

datatype cli_error = Plugin_error int | Hook_error int | Invalid_verb | Client client_error

type_synonym cli_exn = "cli_error exn"

type_synonym ('w, 'a) act = "'w \<Rightarrow> (cli_exn + 'a) \<times> 'w"

text \<open>The end of a run: a value for the exit, \<open>None\<close> among them, or an exception that nobody handles.\<close>

datatype outcome = Exits "int option" | Escapes cli_exn

text \<open>The handlers of \<^verbatim>\<open>_execute\<close> around the verb.\<close>

definition handle :: "cli_exn \<Rightarrow> outcome" where
  "handle e =
     (case e of
        Own (Client (Command_error code _)) \<Rightarrow> Exits (Some code)
      | Own (Client (Proxy_error NotRetriableError)) \<Rightarrow> Exits (Some exit_network_error)
      | Own (Client (Proxy_error TimeoutError)) \<Rightarrow> Exits (Some exit_timeout)
      | Own (Client Api_thrift_internal) \<Rightarrow> Exits (Some exit_unknown_error)
      | Own (Client Update_config_error) \<Rightarrow> Exits (Some exit_unknown_error)
      | Own (Client Cluster_mismatch) \<Rightarrow> Exits (Some exit_unknown_error)
      | _ \<Rightarrow> Escapes e)"

text \<open>The status of the process: \<^verbatim>\<open>sys.exit\<close> takes \<open>None\<close> for success.\<close>

definition process_status :: "outcome \<Rightarrow> int" where
  "process_status out =
     (case out of
        Exits None \<Rightarrow> 0
      | Exits (Some n) \<Rightarrow> n mod 256
      | Escapes (Own (Client (System_exit n))) \<Rightarrow> n mod 256
      | Escapes _ \<Rightarrow> 1)"

section \<open>Plugins and command hooks\<close>

record 'w plugin =
  pl_before_dispatch :: "string list \<Rightarrow> ('w, string list) act"
  pl_before_execution :: "('w, unit) act"
  pl_after_execution :: "int \<Rightarrow> ('w, unit) act"

text \<open>A hook's answer before a command is whatever it returns, \<open>None\<close> for nothing.\<close>

record 'w command_hook =
  ch_name :: string
  ch_nouns :: "string list"
  ch_verbs :: "string \<Rightarrow> string list"
  ch_pre :: "string \<Rightarrow> string \<Rightarrow> ('w, int option) act"
  ch_post :: "string \<Rightarrow> string \<Rightarrow> int \<Rightarrow> ('w, unit) act"

definition all_hooks :: string where "all_hooks = ''all''"

definition register_command_hook :: "'w command_hook list \<Rightarrow> 'w command_hook \<Rightarrow> pyexc + 'w command_hook list" where
  "register_command_hook hs h = (if ch_name h = all_hooks then Inl ValueError else Inr (hs @ [h]))"

definition get_command_hooks_for :: "'w command_hook list \<Rightarrow> string \<Rightarrow> string \<Rightarrow> 'w command_hook list" where
  "get_command_hooks_for hs noun verb = [h \<leftarrow> hs. noun \<in> set (ch_nouns h) \<and> verb \<in> set (ch_verbs h noun)]"

definition get_required_hooks :: "'w command_hook list \<Rightarrow> string option \<Rightarrow> string \<Rightarrow> string \<Rightarrow> 'w command_hook list" where
  "get_required_hooks hs skip_opt noun verb =
     (let required = get_command_hooks_for hs noun verb in
      case skip_opt of
        None \<Rightarrow> required
      | Some skips \<Rightarrow>
          let names = map ch_name required;
              desired = (if skips = all_hooks then set names else set (split_at (CHR '','') skips)) \<inter> set names
          in [h \<leftarrow> required. ch_name h \<in> set names - desired])"

fun run_pre_hooks :: "'w command_hook list \<Rightarrow> string \<Rightarrow> string \<Rightarrow> ('w, int option) act" where
  "run_pre_hooks [] noun verb w = (Inr (Some 0), w)"
| "run_pre_hooks (h # hs) noun verb w =
     (case ch_pre h noun verb w of
        (Inl (Own (Hook_error _)), w') \<Rightarrow> (Inl (Py TypeError), w')
      | (Inl e, w') \<Rightarrow> (Inl e, w')
      | (Inr result, w') \<Rightarrow> if result \<noteq> Some 0 then (Inr result, w') else run_pre_hooks hs noun verb w')"

text \<open>The loop over the hooks returns in its first round.\<close>

definition run_post_hooks :: "'w command_hook list \<Rightarrow> string \<Rightarrow> string \<Rightarrow> int \<Rightarrow> ('w, unit) act" where
  "run_post_hooks hs noun verb result w =
     (case hs of
        [] \<Rightarrow> (Inr (), w)
      | h # _ \<Rightarrow>
          (case ch_post h noun verb result w of
             (Inl (Own (Hook_error _)), w') \<Rightarrow> (Inl (Py TypeError), w')
           | r \<Rightarrow> r))"

fun plugins_before_dispatch :: "'w plugin list \<Rightarrow> string list \<Rightarrow> ('w, string list) act" where
  "plugins_before_dispatch [] args w = (Inr args, w)"
| "plugins_before_dispatch (p # ps) args w =
     (case pl_before_dispatch p args w of
        (Inl e, w') \<Rightarrow> (Inl e, w')
      | (Inr args', w') \<Rightarrow> plugins_before_dispatch ps args' w')"

fun plugins_before_execution :: "'w plugin list \<Rightarrow> ('w, unit) act" where
  "plugins_before_execution [] w = (Inr (), w)"
| "plugins_before_execution (p # ps) w =
     (case pl_before_execution p w of
        (Inl e, w') \<Rightarrow> (Inl e, w')
      | (Inr _, w') \<Rightarrow> plugins_before_execution ps w')"

fun run_post_plugins :: "'w plugin list \<Rightarrow> int \<Rightarrow> ('w, unit) act" where
  "run_post_plugins [] result w = (Inr (), w)"
| "run_post_plugins (p # ps) result w =
     (case pl_after_execution p result w of
        (Inl (Own (Plugin_error _)), w') \<Rightarrow> run_post_plugins ps result w'
      | (Inl e, w') \<Rightarrow> (Inl e, w')
      | (Inr _, w') \<Rightarrow> run_post_plugins ps result w')"

section \<open>Dispatch\<close>

text \<open>What the parser makes of the arguments; without a verb there is no option for hooks to skip.\<close>

record cli_options =
  co_noun :: "string option"
  co_verb :: "string option"
  co_skip_hooks :: "string option option"

text \<open>A verb may not return.\<close>

type_synonym 'w verb = "'w \<Rightarrow> ((cli_exn + int) \<times> 'w) option"

record 'w command_line =
  cl_plugins :: "'w plugin list"
  cl_hooks :: "'w command_hook list"
  cl_nouns :: "(string \<times> (string \<times> 'w verb) list) list"
  cl_parse :: "string list \<Rightarrow> ('w, cli_options) act"

definition register_noun :: "'w command_line \<Rightarrow> string \<Rightarrow> (string \<times> 'w verb) list \<Rightarrow> 'w command_line" where
  "register_noun cl noun verbs = cl\<lparr>cl_nouns := AList.update noun verbs (cl_nouns cl)\<rparr>"

definition register_verb :: "(string \<times> 'w verb) list \<Rightarrow> string \<Rightarrow> 'w verb \<Rightarrow> (string \<times> 'w verb) list" where
  "register_verb verbs name v = AList.update name v verbs"

definition parse_args :: "'w command_line \<Rightarrow> string list
    \<Rightarrow> ('w, string \<times> string option \<times> string option option \<times> (string \<times> 'w verb) list) act" where
  "parse_args cl args w =
     (case cl_parse cl args w of
        (Inl e, w') \<Rightarrow> (Inl e, w')
      | (Inr opts, w') \<Rightarrow>
          (case co_noun opts of
             None \<Rightarrow> Inl (Py ValueError)
           | Some noun \<Rightarrow>
               (case map_of (cl_nouns cl) noun of
                  None \<Rightarrow> Inl (Py ValueError)
                | Some verbs \<Rightarrow> Inr (noun, co_verb opts, co_skip_hooks opts, verbs)), w'))"

definition run_pre_hooks_and_plugins :: "'w command_line \<Rightarrow> 'w command_hook list \<Rightarrow> string \<Rightarrow> string
    \<Rightarrow> ('w, int option) act" where
  "run_pre_hooks_and_plugins cl required noun verb w =
     (case plugins_before_execution (cl_plugins cl) w of
        (Inl (Own (Plugin_error code)), w') \<Rightarrow> (Inr (Some code), w')
      | (Inl e, w') \<Rightarrow> (Inl e, w')
      | (Inr _, w') \<Rightarrow> run_pre_hooks required noun verb w')"

text \<open>The verb, its hooks after it and the plugins, under the handlers.\<close>

definition run_verb :: "'w command_line \<Rightarrow> 'w command_hook list \<Rightarrow> string \<Rightarrow> string \<Rightarrow> 'w verb \<Rightarrow> 'w \<Rightarrow> (outcome \<times> 'w) option" where
  "run_verb cl required noun verb v w =
     (case v w of
        None \<Rightarrow> None
      | Some (Inl e, w1) \<Rightarrow> Some (handle e, w1)
      | Some (Inr result, w1) \<Rightarrow>
          (case (if result = exit_ok then run_post_hooks required noun verb result w1 else (Inr (), w1)) of
             (Inl e, w2) \<Rightarrow> Some (handle e, w2)
           | (Inr _, w2) \<Rightarrow>
               (case run_post_plugins (cl_plugins cl) result w2 of
                  (Inl e, w3) \<Rightarrow> Some (handle e, w3)
                | (Inr _, w3) \<Rightarrow> Some (Exits (Some result), w3))))"

definition execute_command :: "'w command_line \<Rightarrow> string list \<Rightarrow> 'w \<Rightarrow> (outcome \<times> 'w) option" where
  "execute_command cl args w =
     (case plugins_before_dispatch (cl_plugins cl) args w of
        (Inl (Own (Plugin_error code)), w1) \<Rightarrow> Some (Exits (Some code), w1)
      | (Inl e, w1) \<Rightarrow> Some (Escapes e, w1)
      | (Inr args', w1) \<Rightarrow>
          (case parse_args cl args' w1 of
             (Inl e, w2) \<Rightarrow> Some (Escapes e, w2)
           | (Inr (noun, verb_opt, skip_opt, verbs), w2) \<Rightarrow>
               (case (verb_opt, skip_opt) of
                  (Some verb, Some skips) \<Rightarrow>
                    (let required = get_required_hooks (cl_hooks cl) skips noun verb in
                     case run_pre_hooks_and_plugins cl required noun verb w2 of
                       (Inl e, w3) \<Rightarrow> Some (Escapes e, w3)
                     | (Inr pre, w3) \<Rightarrow>
                         if pre \<noteq> Some exit_ok then Some (Exits pre, w3)
                         else run_verb cl required noun verb
                           (case map_of verbs verb of Some v \<Rightarrow> v
                            | None \<Rightarrow> (\<lambda>w. Some (Inl (Own Invalid_verb), w))) w3)
                | _ \<Rightarrow> Some (Escapes (Py AttributeError), w2))))"

section \<open>Argument types\<close>

datatype arg_error = Argument_type_error | Key_error config_error

type_synonym 'a parsed = "(arg_error, 'a) res"

definition parse_int :: "string \<Rightarrow> int parsed" where
  "parse_int s = (case py_int s of None \<Rightarrow> Inl (Py ValueError) | Some n \<Rightarrow> Inr n)"

definition parse_qualified_role :: "string option \<Rightarrow> (string \<times> string) parsed" where
  "parse_qualified_role r =
     (case r of
        None \<Rightarrow> Inl (Own Argument_type_error)
      | Some s \<Rightarrow> (case split_at (CHR ''/'') s of [cluster, role] \<Rightarrow> Inr (cluster, role)
          | _ \<Rightarrow> Inl (Own Argument_type_error)))"

text \<open>One item of a list of instances: what stands before the first dash and after the last one.\<close>

definition parse_range :: "string \<Rightarrow> int list parsed" where
  "parse_range part =
     (let x = split_at (CHR ''-'') part in
      rbind (parse_int (hd x)) (\<lambda>a. rbind (parse_int (last x)) (\<lambda>b.
        if a \<ge> b + 1 then Inl (Own Argument_type_error) else Inr [a..b])))"

definition parse_instances :: "string option \<Rightarrow> int list option parsed" where
  "parse_instances instances =
     (case instances of
        None \<Rightarrow> Inr None
      | Some s \<Rightarrow> if s = [] then Inr None
          else rbind (traverse parse_range (split_at (CHR '','') s)) (\<lambda>rs. Inr (Some (sort (remdups (concat rs))))))"

text \<open>The percentiles: what \<^verbatim>\<open>float\<close> makes of a text is a parameter, and so is a number that is none.\<close>

datatype py_float = Not_a_number | Number rat | Infinite bool

definition parse_percentile :: "(string \<Rightarrow> py_float option) \<Rightarrow> string \<Rightarrow> py_float parsed" where
  "parse_percentile float_of val =
     (case float_of val of
        None \<Rightarrow> Inl (Own Argument_type_error)
      | Some Not_a_number \<Rightarrow> Inr Not_a_number
      | Some (Infinite _) \<Rightarrow> Inl (Own Argument_type_error)
      | Some (Number q) \<Rightarrow> if q \<le> 0 \<or> q \<ge> 100 then Inl (Own Argument_type_error) else Inr (Number q))"

text \<open>\<^verbatim>\<open>twitter.common.quantity.parse_simple.parse_time\<close>, in seconds; its error is a value error.\<close>

definition lower :: "char \<Rightarrow> char" where
  "lower c = (if 65 \<le> (of_char c :: nat) \<and> (of_char c :: nat) \<le> 90 then char_of ((of_char c :: nat) + 32) else c)"

fun parse_time_from :: "(char \<times> int) list \<Rightarrow> int \<Rightarrow> string \<Rightarrow> pyexc + int" where
  "parse_time_from [] acc s = (if s = [] then Inr acc else Inl ValueError)"
| "parse_time_from ((c, secs) # bases) acc s =
     (case split_at c s of
        [_] \<Rightarrow> parse_time_from bases acc s
      | [amount, rest] \<Rightarrow>
          (case py_int amount of None \<Rightarrow> Inl ValueError
           | Some n \<Rightarrow> parse_time_from bases (acc + n * secs) rest)
      | _ \<Rightarrow> Inl ValueError)"

definition time_bases :: "(char \<times> int) list" where
  "time_bases = [(CHR ''d'', 86400), (CHR ''h'', 3600), (CHR ''m'', 60), (CHR ''s'', 1)]"

definition parse_time :: "string \<Rightarrow> pyexc + int" where
  "parse_time s = parse_time_from time_bases 0 (map lower s)"

definition parse_time_values :: "string option \<Rightarrow> int list option parsed" where
  "parse_time_values v =
     (case v of
        None \<Rightarrow> Inr None
      | Some s \<Rightarrow> if s = [] then Inr None
          else (case traverse parse_time (split_at (CHR '','') s) of
              Inl _ \<Rightarrow> Inl (Own Argument_type_error)
            | Inr ts \<Rightarrow> Inr (Some (sort ts))))"

definition key_of_parts :: "string \<Rightarrow> string \<Rightarrow> string \<Rightarrow> string \<Rightarrow> aurora_job_key parsed" where
  "key_of_parts cluster role env name =
     (case new_job_key cluster role env name of
        Inl (Own e) \<Rightarrow> Inl (Own (Key_error e)) | Inl (Py e) \<Rightarrow> Inl (Py e) | Inr k \<Rightarrow> Inr k)"

definition parse_task_instance_key :: "string \<Rightarrow> (aurora_job_key \<times> int) parsed" where
  "parse_task_instance_key key =
     (case split_at (CHR ''/'') key of
        [cluster, role, env, name, instance] \<Rightarrow>
          (case py_int instance of
             None \<Rightarrow> Inl (Own Argument_type_error)
           | Some i \<Rightarrow> rbind (key_of_parts cluster role env name) (\<lambda>k. Inr (k, i)))
      | _ \<Rightarrow> Inl (Own Argument_type_error))"

definition instance_specifier :: "string option \<Rightarrow> (aurora_job_key \<times> int list option) parsed" where
  "instance_specifier spec =
     (case spec of
        None \<Rightarrow> Inl (Own Argument_type_error)
      | Some s \<Rightarrow>
          if s = [] then Inl (Own Argument_type_error)
          else (case split_at (CHR ''/'') s of
              [cluster, role, env, name] \<Rightarrow> rbind (key_of_parts cluster role env name) (\<lambda>k. Inr (k, None))
            | [cluster, role, env, name, instances] \<Rightarrow>
                rbind (key_of_parts cluster role env name) (\<lambda>k.
                rbind (parse_instances (Some instances)) (\<lambda>is. Inr (k, is)))
            | _ \<Rightarrow> Inl (Own Argument_type_error)))"

text \<open>A binding: \<open>ref\<close> is Pystachio's parser of addresses.\<close>

definition binding_parser :: "(string \<Rightarrow> 'r option) \<Rightarrow> string \<Rightarrow> ('r \<times> string) parsed" where
  "binding_parser ref binding =
     (case split_max (CHR ''='') 1 binding of
        [name, val] \<Rightarrow> (case ref name of None \<Rightarrow> Inl (Own Argument_type_error) | Some r \<Rightarrow> Inr (r, val))
      | _ \<Rightarrow> Inl (Own Argument_type_error))"

section \<open>The checks of a configuration\<close>

record checked_config =
  vc_instances :: int
  vc_max_failures :: int
  vc_watch_secs :: int
  vc_max_consecutive_failures :: int
  vc_min_consecutive_successes :: int
  vc_initial_interval_secs :: int
  vc_interval_secs :: int
  vc_dedicated :: bool
  vc_announce :: "(string \<times> (string \<times> string) list) option"
  vc_ports :: "string list"
  vc_production :: bool
  vc_tier :: "string option"

text \<open>\<^verbatim>\<open>die\<close> exits with status 1.  The threshold of a dedicated job is two percent of its size, rounded down.\<close>

definition die :: "'a client" where
  "die = Inl (Own (System_exit 1))"

definition validate_update_config :: "checked_config \<Rightarrow> unit client" where
  "validate_update_config c =
     (if vc_max_failures c \<ge> vc_instances c then die
      else if vc_dedicated c \<and> vc_max_failures c < vc_instances c div 50 then die
      else if \<exists>v\<in>set [vc_watch_secs c, vc_max_consecutive_failures c, vc_min_consecutive_successes c,
          vc_initial_interval_secs c, vc_interval_secs c]. v < 0 then die
      else Inr ())"

text \<open>Whether the warning about the primary port is printed.\<close>

definition validate_announce_configuration :: "checked_config \<Rightarrow> bool client" where
  "validate_announce_configuration c =
     (case vc_announce c of
        None \<Rightarrow> Inr False
      | Some (primary_port, portmap) \<Rightarrow>
          if \<not> vc_dedicated c \<and> (\<exists>(_, p)\<in>set portmap. py_int p \<noteq> None) then Inl (Py ValueError)
          else Inr (primary_port \<notin> set (vc_ports c) \<and> primary_port \<notin> fst ` set portmap))"

definition validate_deprecated_config :: "checked_config \<Rightarrow> bool" where
  "validate_deprecated_config c = (vc_production c \<and> vc_tier c = None)"

definition validate_config :: "checked_config \<Rightarrow> (bool \<times> bool) client" where
  "validate_config c =
     rbind (validate_update_config c) (\<lambda>_. rbind (validate_announce_configuration c) (\<lambda>warned.
       Inr (warned, validate_deprecated_config c)))"

section \<open>The cron commands\<close>

definition schedule_command :: "'w env \<Rightarrow> loaded_config \<Rightarrow> (job_config \<Rightarrow> bool) \<Rightarrow> aurora_job_key \<Rightarrow> ('w, int) cmd" where
  "schedule_command env l has_cron_schedule k =
     and_then (get_api env (ak_cluster k)) (\<lambda>sch.
     and_then (get_job_config env k l) (\<lambda>c.
       if \<not> has_cron_schedule c then raises (Command_error exit_command_failure False)
       else and_then (call sch (schedule_cron c)) (\<lambda>resp.
         and_then (log_response_and_raise exit_api_error resp) (\<lambda>_. returns exit_ok))))"

definition deschedule_command :: "'w env \<Rightarrow> aurora_job_key \<Rightarrow> ('w, int) cmd" where
  "deschedule_command env k =
     and_then (get_api env (ak_cluster k)) (\<lambda>sch.
     and_then (call sch (deschedule_cron k)) (\<lambda>resp.
     and_then (log_response_and_raise exit_api_error resp) (\<lambda>_. returns exit_ok)))"

definition start_cron_command :: "'w env \<Rightarrow> loaded_config option \<Rightarrow> aurora_job_key \<Rightarrow> ('w, int) cmd" where
  "start_cron_command env l k =
     and_then (get_api env (ak_cluster k)) (\<lambda>sch.
     and_then (get_job_config_optional env k l) (\<lambda>c.
     and_then (hooked_call (api_hooks env c) ''start_cronjob'' (call sch (start_cronjob (ak_cluster k) k))) (\<lambda>resp.
     and_then (log_response_and_raise exit_api_error resp) (\<lambda>_. returns exit_ok))))"

text \<open>The schedule of the first job with the key's environment and name, if it has one.\<close>

definition show_cron_command :: "'w env \<Rightarrow> aurora_job_key \<Rightarrow> ('w, int \<times> string option) cmd" where
  "show_cron_command env k =
     and_then (get_api env (ak_cluster k)) (\<lambda>sch.
     and_then (call sch (get_jobs (Some (ak_role k)))) (\<lambda>resp.
     and_then (log_response_and_raise exit_invalid_parameter resp) (\<lambda>_.
       case rp_result resp of
         Jobs_result js \<Rightarrow>
           returns (case find (\<lambda>((_, env', name), _). env' = ak_env k \<and> name = ak_name k) js of
               Some (_, Some cron) \<Rightarrow> if cron = [] then (exit_invalid_parameter, None) else (exit_ok, Some cron)
             | _ \<Rightarrow> (exit_invalid_parameter, None))
       | _ \<Rightarrow> lift_client (Inl (Py AttributeError)))))"

section \<open>Which hooks are required\<close>

lemma required_hooks_iff:
  "h \<in> set (get_required_hooks hs skip noun verb) \<longleftrightarrow>
     h \<in> set hs \<and> noun \<in> set (ch_nouns h) \<and> verb \<in> set (ch_verbs h noun) \<and>
     (case skip of None \<Rightarrow> True | Some s \<Rightarrow> s \<noteq> ''all'' \<and> ch_name h \<notin> set (split_at (CHR '','') s))"
  by (auto simp: get_required_hooks_def get_command_hooks_for_def Let_def all_hooks_def split: option.splits if_splits)

section \<open>The dispatch runs the verb only past the hooks\<close>

definition refuses :: "'w command_hook \<Rightarrow> string \<Rightarrow> string \<Rightarrow> bool" where
  "refuses h noun verb = (\<forall>w. fst (ch_pre h noun verb w) \<noteq> Inr (Some 0))"

lemma run_pre_hooks_refused:
  "h \<in> set hs \<Longrightarrow> refuses h noun verb \<Longrightarrow> fst (run_pre_hooks hs noun verb w) \<noteq> Inr (Some 0)"
proof (induction hs arbitrary: w)
  case Nil
  then show ?case by simp
next
  case (Cons g hs)
  have "g = h \<Longrightarrow> fst (ch_pre g noun verb w) \<noteq> Inr (Some 0)" for w using Cons.prems(2) by (simp add: refuses_def)
  then show ?case using Cons.IH Cons.prems
    by (auto split: prod.split sum.split exn.split cli_error.split) (metis fst_conv)+
qed

text \<open>A plugin hides nothing if its error before the execution never carries the code of success.\<close>

definition stops_on_error :: "'w plugin \<Rightarrow> bool" where
  "stops_on_error p = (\<forall>w. fst (pl_before_execution p w) \<noteq> Inl (Own (Plugin_error 0)))"

lemma plugins_stop: "list_all stops_on_error ps \<Longrightarrow> fst (plugins_before_execution ps w) \<noteq> Inl (Own (Plugin_error 0))"
proof (induction ps arbitrary: w)
  case Nil
  then show ?case by simp
next
  case (Cons p ps)
  then show ?case by (auto simp: stops_on_error_def split: prod.split sum.split) (metis fst_conv)
qed

lemma pre_phase_refused:
  assumes "h \<in> set required" "refuses h noun verb" "list_all stops_on_error (cl_plugins cl)"
  shows "fst (run_pre_hooks_and_plugins cl required noun verb w) \<noteq> Inr (Some 0)"
  using run_pre_hooks_refused [OF assms(1,2)] plugins_stop [OF assms(3), of w]
  by (auto simp: run_pre_hooks_and_plugins_def split: prod.split sum.split exn.split cli_error.split)

text \<open>Two command lines that differ in the verbs of a noun.\<close>

lemma execute_refused:
  assumes "list_all stops_on_error (cl_plugins cl)"
    and parsed: "\<And>args w opts w'. cl_parse cl args w = (Inr opts, w') \<Longrightarrow>
      co_noun opts = Some noun \<and> co_verb opts = Some verb \<and> co_skip_hooks opts = Some skip"
    and "h \<in> set (get_required_hooks (cl_hooks cl) skip noun verb)" "refuses h noun verb"
  shows "execute_command (register_noun cl noun vs) args w = execute_command (register_noun cl noun vs') args w"
proof -
  let ?c = "register_noun cl noun vs" and ?c' = "register_noun cl noun vs'"
  have same: "cl_plugins ?c = cl_plugins cl" "cl_plugins ?c' = cl_plugins cl" "cl_hooks ?c = cl_hooks cl"
    "cl_hooks ?c' = cl_hooks cl" "cl_parse ?c = cl_parse cl" "cl_parse ?c' = cl_parse cl"
    "map_of (cl_nouns ?c) noun = Some vs" "map_of (cl_nouns ?c') noun = Some vs'"
    by (simp_all add: register_noun_def update_conv)
  obtain d w1 where d: "plugins_before_dispatch (cl_plugins cl) args w = (d, w1)"
    by (cases "plugins_before_dispatch (cl_plugins cl) args w")
  show ?thesis
  proof (cases d)
    case (Inl e)
    then show ?thesis using d same by (simp add: execute_command_def)
  next
    case (Inr args')
    obtain q w2 where q: "cl_parse cl args' w1 = (q, w2)" by (cases "cl_parse cl args' w1")
    show ?thesis
    proof (cases q)
      case (Inl e)
      then show ?thesis using d Inr q same by (simp add: execute_command_def parse_args_def)
    next
      case Q: (Inr opts)
      have o: "co_noun opts = Some noun" "co_verb opts = Some verb" "co_skip_hooks opts = Some skip"
        using parsed [of args' w1 opts w2] q Q by simp_all
      let ?sel = "get_required_hooks (cl_hooks cl) skip noun verb"
      have pre: "run_pre_hooks_and_plugins ?c ?sel noun verb w2 = run_pre_hooks_and_plugins cl ?sel noun verb w2"
        "run_pre_hooks_and_plugins ?c' ?sel noun verb w2 = run_pre_hooks_and_plugins cl ?sel noun verb w2"
        using same by (simp_all add: run_pre_hooks_and_plugins_def)
      have "fst (run_pre_hooks_and_plugins cl ?sel noun verb w2) \<noteq> Inr (Some exit_ok)"
        using pre_phase_refused [OF assms(3,4,1)] by (simp add: exit_ok_def)
      then show ?thesis using d Inr q Q o same pre
        by (cases "run_pre_hooks_and_plugins cl ?sel noun verb w2"; cases "fst (run_pre_hooks_and_plugins cl ?sel noun verb w2)")
          (simp_all add: execute_command_def parse_args_def)
    qed
  qed
qed

text \<open>A registered hook for the command that is not skipped and does not answer 0 keeps the verb from running: the
  run is the same whatever the verbs of the noun do.  This needs that no plugin raises its error with the code
  of success, which makes the dispatch pass over the hooks.\<close>

theorem refusing_hook_stops_verb:
  assumes "list_all stops_on_error (cl_plugins cl)"
    and "\<And>args w opts w'. cl_parse cl args w = (Inr opts, w') \<Longrightarrow>
      co_noun opts = Some noun \<and> co_verb opts = Some verb \<and> co_skip_hooks opts = Some skip"
    and "h \<in> set (cl_hooks cl)" "noun \<in> set (ch_nouns h)" "verb \<in> set (ch_verbs h noun)"
    and "case skip of None \<Rightarrow> True | Some s \<Rightarrow> s \<noteq> ''all'' \<and> ch_name h \<notin> set (split_at (CHR '','') s)"
    and "refuses h noun verb"
  shows "execute_command (register_noun cl noun vs) args w = execute_command (register_noun cl noun vs') args w"
  using assms by (intro execute_refused [of cl noun verb skip h]) (auto simp: required_hooks_iff)

text \<open>A command line with one hook, which refuses to kill.\<close>

definition guarded :: "nat command_line" where
  "guarded = \<lparr>cl_plugins = [], cl_hooks = [\<lparr>ch_name = ''guard'', ch_nouns = [''job''], ch_verbs = (\<lambda>_. [''kill'']),
       ch_pre = (\<lambda>_ _ w. (Inr (Some 1), w)), ch_post = (\<lambda>_ _ _ w. (Inr (), w))\<rparr>], cl_nouns = [],
     cl_parse = (\<lambda>_ w. (Inr \<lparr>co_noun = Some ''job'', co_verb = Some ''kill'', co_skip_hooks = Some None\<rparr>, w))\<rparr>"

theorem refusing_hook_stops_verb_witness:
  "execute_command (register_noun guarded ''job'' [(''kill'', \<lambda>w. Some (Inr 0, w + 1))]) [] 7 = Some (Exits (Some 1), 7)"
proof -
  have "execute_command (register_noun guarded ''job'' [(''kill'', \<lambda>w. Some (Inr 0, w + 1))]) [] 7 =
      execute_command (register_noun guarded ''job'' []) [] 7"
    by (rule refusing_hook_stops_verb [where verb = "''kill''" and skip = None and h = "hd (cl_hooks guarded)"])
      (auto simp: guarded_def refuses_def)
  also have "\<dots> = Some (Exits (Some 1), 7)"
    by (simp add: execute_command_def register_noun_def guarded_def parse_args_def get_required_hooks_def
        get_command_hooks_for_def run_pre_hooks_and_plugins_def exit_ok_def)
  finally show ?thesis .
qed

section \<open>What success means\<close>

text \<open>What runs after a verb raises no error that carries the code of success.\<close>

definition quiet :: "(cli_exn + unit) \<Rightarrow> bool" where
  "quiet r = (\<forall>e. r = Inl e \<longrightarrow> handle e \<noteq> Exits (Some 0))"

definition quiet_after :: "'w command_line \<Rightarrow> bool" where
  "quiet_after cl =
     ((\<forall>p\<in>set (cl_plugins cl). \<forall>n w. quiet (fst (pl_after_execution p n w))) \<and>
      (\<forall>h\<in>set (cl_hooks cl). \<forall>noun verb n w. quiet (fst (ch_post h noun verb n w))))"

lemma quiet_post_plugins: "\<forall>p\<in>set ps. \<forall>n w. quiet (fst (pl_after_execution p n w)) \<Longrightarrow> quiet (fst (run_post_plugins ps n w))"
proof (induction ps arbitrary: w)
  case Nil
  then show ?case by (simp add: quiet_def)
next
  case (Cons p ps)
  obtain x w1 where x: "pl_after_execution p n w = (x, w1)" by (cases "pl_after_execution p n w")
  have q: "quiet x" using Cons.prems x by (metis fst_conv list.set_intros(1))
  have IH: "quiet (fst (run_post_plugins ps n w1))" for w1 using Cons.IH Cons.prems by simp
  show ?case
  proof (cases x)
    case (Inl e)
    then show ?thesis using x q IH by (auto split: exn.split cli_error.split)
  next
    case (Inr u)
    then show ?thesis using x IH by simp
  qed
qed

lemma quiet_post_hooks:
  assumes "\<forall>h\<in>set hs. \<forall>noun verb n w. quiet (fst (ch_post h noun verb n w))"
  shows "quiet (fst (run_post_hooks hs noun verb n w))"
proof (cases hs)
  case Nil
  then show ?thesis by (simp add: run_post_hooks_def quiet_def)
next
  case (Cons h hs')
  then have "quiet (fst (ch_post h noun verb n w))" using assms by simp
  then show ?thesis using Cons
    by (auto simp: run_post_hooks_def quiet_def handle_def split: prod.split sum.split exn.split cli_error.split)
qed

lemma required_subset: "set (get_required_hooks hs skip noun verb) \<subseteq> set hs"
  using required_hooks_iff by blast

lemma run_verb_success:
  assumes "run_verb cl required noun verb v w = Some (Exits (Some 0), w')" "quiet_after cl" "set required \<subseteq> set (cl_hooks cl)"
  shows "\<exists>r w1. v w = Some (r, w1) \<and> (r = Inr 0 \<or> (\<exists>b. r = Inl (Own (Client (Command_error 0 b)))))"
proof -
  obtain r w1 where r: "v w = Some (r, w1)" using assms(1) by (cases "v w") (auto simp: run_verb_def)
  show ?thesis
  proof (cases r)
    case (Inl e)
    then have "handle e = Exits (Some 0)" using assms(1) r by (simp add: run_verb_def)
    then show ?thesis using r Inl
      by (auto simp: handle_def exit_network_error_def exit_timeout_def exit_unknown_error_def
          split: exn.splits cli_error.splits client_error.splits proxy_error.splits)
  next
    case (Inr n)
    obtain x w2 where x: "(if n = exit_ok then run_post_hooks required noun verb n w1 else (Inr (), w1)) = (x, w2)"
      by fastforce
    have "\<forall>h\<in>set required. \<forall>noun verb n w. quiet (fst (ch_post h noun verb n w))"
      using assms(2,3) by (auto simp: quiet_after_def)
    from quiet_post_hooks [OF this, of noun verb n w1] have "quiet x"
      using x by (auto simp: quiet_def split: if_splits)
    moreover obtain y w3 where y: "run_post_plugins (cl_plugins cl) n w2 = (y, w3)"
      by (cases "run_post_plugins (cl_plugins cl) n w2")
    moreover have "quiet y" using quiet_post_plugins [of "cl_plugins cl" n w2] assms(2) y by (simp add: quiet_after_def)
    ultimately have "n = 0" using assms(1) r Inr x y
      by (cases x; cases y) (auto simp: run_verb_def quiet_def)
    then show ?thesis using r Inr by simp
  qed
qed

text \<open>If the dispatch ends with code 0, a verb of the command line was run and returned 0, or raised a command error
  that carries 0; or a plugin raised its error, with code 0, before the arguments were parsed.\<close>

theorem success_ran_the_verb:
  assumes "execute_command cl args w = Some (Exits (Some 0), w')" "quiet_after cl"
  shows "(\<exists>w1. plugins_before_dispatch (cl_plugins cl) args w = (Inl (Own (Plugin_error 0)), w1)) \<or>
    (\<exists>noun verbs verb v w1 r w2. map_of (cl_nouns cl) noun = Some verbs \<and> map_of verbs verb = Some v \<and> v w1 = Some (r, w2) \<and>
       (r = Inr 0 \<or> (\<exists>b. r = Inl (Own (Client (Command_error 0 b))))))"
proof -
  obtain d w1 where d: "plugins_before_dispatch (cl_plugins cl) args w = (d, w1)"
    by (cases "plugins_before_dispatch (cl_plugins cl) args w")
  show ?thesis
  proof (cases d)
    case (Inl e)
    then show ?thesis using assms(1) d by (auto simp: execute_command_def split: exn.splits cli_error.splits)
  next
    case (Inr args')
    then obtain noun verb skip verbs w2 where q: "parse_args cl args' w1 = (Inr (noun, Some verb, Some skip, verbs), w2)"
      using assms(1) d by (auto simp: execute_command_def split: prod.splits sum.splits option.splits)
    then have verbs: "map_of (cl_nouns cl) noun = Some verbs"
      by (auto simp: parse_args_def split: prod.splits sum.splits option.splits)
    let ?req = "get_required_hooks (cl_hooks cl) skip noun verb"
    let ?v = "case map_of verbs verb of Some v \<Rightarrow> v | None \<Rightarrow> (\<lambda>w. Some (Inl (Own Invalid_verb), w))"
    obtain pre w3 where "run_pre_hooks_and_plugins cl ?req noun verb w2 = (pre, w3)"
      by (cases "run_pre_hooks_and_plugins cl ?req noun verb w2")
    then have "run_verb cl ?req noun verb ?v w3 = Some (Exits (Some 0), w')"
      using assms(1) d Inr q by (auto simp: execute_command_def Let_def exit_ok_def split: sum.splits if_splits)
    from run_verb_success [OF this assms(2) required_subset] obtain r w4 where
      "?v w3 = Some (r, w4)" "r = Inr 0 \<or> (\<exists>b. r = Inl (Own (Client (Command_error 0 b))))" by blast
    then show ?thesis using verbs by (cases "map_of verbs verb") fastforce+
  qed
qed

theorem success_ran_the_verb_witness:
  "\<exists>noun verbs verb v w1 r w2. map_of (cl_nouns (register_noun (guarded\<lparr>cl_hooks := []\<rparr>) ''job'' [(''kill'', \<lambda>w. Some (Inr 0, w + 1))]))
     noun = Some verbs \<and> map_of verbs verb = Some v \<and> v w1 = Some (r, w2) \<and> (r = Inr 0 \<or> (\<exists>b. r = Inl (Own (Client (Command_error 0 b)))))"
proof -
  let ?c = "register_noun (guarded\<lparr>cl_hooks := []\<rparr>) ''job'' [(''kill'', \<lambda>w. Some (Inr 0, w + 1))]"
  have run: "execute_command ?c [] 7 = Some (Exits (Some 0), 8)"
    by (simp add: execute_command_def register_noun_def guarded_def parse_args_def get_required_hooks_def
        get_command_hooks_for_def run_pre_hooks_and_plugins_def exit_ok_def run_verb_def run_post_hooks_def)
  have "quiet_after ?c" by (simp add: quiet_after_def register_noun_def guarded_def)
  from success_ran_the_verb [OF run this] show ?thesis by (simp add: register_noun_def guarded_def)
qed

text \<open>A hook that returns nothing from its method before the command aborts it: the verb is not run, and the process
  ends with status 0.\<close>

theorem silent_hook_exits_zero:
  assumes "cl_plugins cl = []" "cl_hooks cl = [h]" "noun \<in> set (ch_nouns h)" "verb \<in> set (ch_verbs h noun)"
    and "cl_parse cl args w = (Inr \<lparr>co_noun = Some noun, co_verb = Some verb, co_skip_hooks = Some None\<rparr>, w1)"
    and "map_of (cl_nouns cl) noun = Some verbs" "ch_pre h noun verb w1 = (Inr None, w2)"
  shows "execute_command cl args w = Some (Exits None, w2) \<and> process_status (Exits None) = 0"
  using assms by (simp add: execute_command_def parse_args_def get_required_hooks_def get_command_hooks_for_def
      run_pre_hooks_and_plugins_def process_status_def)

theorem silent_hook_exits_zero_witness:
  "execute_command (register_noun (guarded\<lparr>cl_hooks := [(hd (cl_hooks guarded))\<lparr>ch_pre := \<lambda>_ _ w. (Inr None, w)\<rparr>]\<rparr>) ''job''
     [(''kill'', \<lambda>w. Some (Inr 0, w + 1))]) [] 7 = Some (Exits None, 7)"
  by (rule silent_hook_exits_zero [where noun = "''job''" and verb = "''kill''" and
      h = "(hd (cl_hooks guarded))\<lparr>ch_pre := \<lambda>_ _ w. (Inr None, w)\<rparr>", THEN conjunct1])
    (simp_all add: register_noun_def guarded_def)

section \<open>Numbers written and read\<close>

lemma digit_of_digit: "n < 10 \<Longrightarrow> digit_of (char_of (48 + n)) = Some (int n)"
proof -
  assume "n < 10"
  then have "n \<in> set [0..<10]" by simp
  moreover have "list_all (\<lambda>n. digit_of (char_of (48 + n)) = Some (int n)) [0..<10]" by code_simp
  ultimately show ?thesis unfolding list_all_iff by blast
qed

lemma digits_value_decimal:
  "digits_value v b (decimal n @ cs) = digits_value (v * 10 ^ length (decimal n) + int n) True cs"
proof (induction n arbitrary: v b cs rule: decimal.induct)
  case (1 n)
  show ?case
  proof (cases "n < 10")
    case True
    then have "decimal n = [char_of (48 + n)]" by (subst decimal.simps) simp
    then show ?thesis by (simp add: digit_of_digit [OF True] mult.commute)
  next
    case False
    have last: "digit_of (char_of (48 + n mod 10)) = Some (int (n mod 10))" by (rule digit_of_digit) simp
    have "digits_value v b (decimal n @ cs) = digits_value v b (decimal (n div 10) @ char_of (48 + n mod 10) # cs)"
      using False by (subst decimal.simps) simp
    also have "\<dots> = digits_value (v * 10 ^ length (decimal (n div 10)) + int (n div 10)) True (char_of (48 + n mod 10) # cs)"
      by (rule 1 [OF False])
    also have "\<dots> = digits_value (10 * (v * 10 ^ length (decimal (n div 10)) + int (n div 10)) + int (n mod 10)) True cs"
      using last by simp
    also have "10 * (v * 10 ^ length (decimal (n div 10)) + int (n div 10)) + int (n mod 10) =
        v * 10 ^ length (decimal n) + int n"
    proof -
      have "length (decimal n) = Suc (length (decimal (n div 10)))" using False by (subst decimal.simps) simp
      moreover have "int n = 10 * int (n div 10) + int (n mod 10)" by (metis mult_div_mod_eq of_nat_add of_nat_mult of_nat_numeral)
      ultimately show ?thesis by (simp add: algebra_simps)
    qed
    finally show ?thesis by simp
  qed
qed

lemma decimal_chars: "c \<in> set (decimal n) \<Longrightarrow> c \<in> set ''0123456789''"
proof (induction n rule: decimal.induct)
  case (1 n)
  have d: "char_of (48 + k) \<in> set ''0123456789''" if "k < 10" for k :: nat
    using digit_of_digit [OF that] by (auto simp: digit_of_def split: if_splits)
  show ?case
  proof (cases "n < 10")
    case True
    then show ?thesis using 1(2) d by (subst (asm) decimal.simps) auto
  next
    case False
    then show ?thesis using 1 d [of "n mod 10"] by (subst (asm) decimal.simps) auto
  qed
qed

lemma decimal_nonempty: "decimal n \<noteq> []"
  by (subst decimal.simps) simp

lemma dropWhile_none: "(\<And>x. x \<in> set xs \<Longrightarrow> \<not> P x) \<Longrightarrow> dropWhile P xs = xs"
  by (cases xs) simp_all

lemma py_int_decimal [simp]: "py_int (decimal n) = Some (int n)"
proof -
  have "\<not> blank c" if "c \<in> set (decimal n)" for c using decimal_chars [OF that] by (auto simp: blank_def)
  then have "dropWhile blank (decimal n) = decimal n" "dropWhile blank (rev (decimal n)) = rev (decimal n)"
    by (auto intro!: dropWhile_none)
  then have strip: "rev (dropWhile blank (rev (dropWhile blank (decimal n)))) = decimal n" by simp
  obtain c cs where c: "decimal n = c # cs" using decimal_nonempty [of n] by (cases "decimal n") auto
  have "c \<in> set ''0123456789''" using decimal_chars [of c n] c by simp
  moreover have "digits_value 0 False (c # cs) = Some (int n)"
    using digits_value_decimal [of 0 False n "[]"] c by simp
  ultimately show ?thesis by (simp only: py_int_def strip) (auto simp: c)
qed

lemma split_at_none: "c \<notin> set xs \<Longrightarrow> split_at c xs = [xs]"
  by (induction xs) auto

lemma split_at_cut: "c \<notin> set xs \<Longrightarrow> split_at c (xs @ c # ys) = xs # split_at c ys"
  by (induction xs) auto

lemma decimal_no [simp]: "CHR ''-'' \<notin> set (decimal n)" "CHR '','' \<notin> set (decimal n)"
  using decimal_chars [of _ n] by auto

fun join_comma :: "string list \<Rightarrow> string" where
  "join_comma [] = []"
| "join_comma [x] = x"
| "join_comma (x # xs) = x @ CHR '','' # join_comma xs"

lemma split_join_comma: "xs \<noteq> [] \<Longrightarrow> (\<And>x. x \<in> set xs \<Longrightarrow> CHR '','' \<notin> set x) \<Longrightarrow> split_at (CHR '','') (join_comma xs) = xs"
  by (induction xs rule: join_comma.induct) (simp_all add: split_at_none split_at_cut)

text \<open>A range of instances as a user writes it.\<close>

definition write_range :: "nat \<times> nat \<Rightarrow> string" where
  "write_range r = (case r of (a, b) \<Rightarrow> if a = b then decimal a else decimal a @ ''-'' @ decimal b)"

lemma parse_write_range:
  assumes "a \<le> b"
  shows "parse_range (write_range (a, b)) = Inr [int a..int b]"
proof (cases "a = b")
  case True
  then show ?thesis by (simp add: parse_range_def write_range_def split_at_none parse_int_def Let_def)
next
  case False
  then have "write_range (a, b) = decimal a @ CHR ''-'' # decimal b" by (simp add: write_range_def)
  then have "split_at (CHR ''-'') (write_range (a, b)) = [decimal a, decimal b]"
    by (simp add: split_at_cut split_at_none)
  then show ?thesis using assms by (simp add: parse_range_def parse_int_def Let_def)
qed

text \<open>A list of ranges as a user writes it is read back: the instances are those of the ranges, ascending and once.\<close>

theorem instances_roundtrip:
  assumes "rs \<noteq> []" "\<forall>(a, b)\<in>set rs. a \<le> b"
  shows "\<exists>is. parse_instances (Some (join_comma (map write_range rs))) = Inr (Some is) \<and> sorted is \<and> distinct is \<and>
    set is = (\<Union>(a, b)\<in>set rs. {int a..int b})"
proof -
  have comma: "CHR '','' \<notin> set (write_range r)" for r by (cases r) (simp add: write_range_def)
  have ne: "join_comma (map write_range rs) \<noteq> []"
    using assms(1) decimal_nonempty by (cases rs rule: list.exhaust; cases "tl rs") (auto simp: write_range_def split: if_splits prod.splits)
  have "split_at (CHR '','') (join_comma (map write_range rs)) = map write_range rs"
    by (rule split_join_comma) (use assms(1) comma in auto)
  moreover have "traverse parse_range (map write_range rs) = Inr (map (\<lambda>(a, b). [int a..int b]) rs)"
    using assms(2) by (induction rs) (auto simp: parse_write_range)
  ultimately have "parse_instances (Some (join_comma (map write_range rs))) =
      Inr (Some (sort (remdups (concat (map (\<lambda>(a, b). [int a..int b]) rs)))))"
    using ne by (simp add: parse_instances_def)
  moreover have "set (concat (map (\<lambda>(a, b). [int a..int b]) rs)) = (\<Union>(a, b)\<in>set rs. {int a..int b})" by force
  ultimately show ?thesis
    by (intro exI [of _ "sort (remdups (concat (map (\<lambda>(a, b). [int a..int b]) rs)))"] conjI) simp_all
qed

theorem instances_roundtrip_witness:
  "\<exists>is. parse_instances (Some (join_comma (map write_range [(0, 2), (5, 5), (1, 3)]))) = Inr (Some is) \<and> sorted is \<and> distinct is \<and>
    set is = (\<Union>(a, b)\<in>set [(0, 2), (5, 5), (1, 3)]. {int a..int b})"
  by (rule instances_roundtrip) simp_all

text \<open>Between the first dash and the last anything may stand.\<close>

lemma range_ignores_the_middle:
  "parse_instances (Some ''1-x-3'') = Inr (Some [1, 2, 3])"
  by code_simp

end
