(* ===== verification/Admin.thy ===== *)
theory Admin
  imports Cli HostMaintenance
begin

text \<open>
  The admin client: the arguments of \<^verbatim>\<open>apache/aurora/admin/admin_util.py\<close> and the commands of
  \<^verbatim>\<open>admin/admin.py\<close> and \<^verbatim>\<open>admin/maintenance.py\<close>, as calls of the scheduler in a session of \<open>ClientApi\<close>
  and, for maintenance, over the model of \<open>HostMaintenance\<close>.  \<^verbatim>\<open>die\<close> exits with status 1.  Files are
  their lines; the grammar of numbers with a fraction is a parameter, as in \<open>Cli\<close>.
\<close>

section \<open>Hosts\<close>

definition alphanumeric :: "char \<Rightarrow> bool" where
  "alphanumeric c = (let n = of_char c :: nat in 48 \<le> n \<and> n \<le> 57 \<or> 65 \<le> n \<and> n \<le> 90 \<or> 97 \<le> n \<and> n \<le> 122)"

text \<open>\<^verbatim>\<open>_HOSTNAME_RE\<close>, on a text without blanks around it.\<close>

definition valid_hostname :: "string \<Rightarrow> bool" where
  "valid_hostname s =
     (s \<noteq> [] \<and> length s \<le> 253 \<and> alphanumeric (hd s) \<and> alphanumeric (last s) \<and>
      list_all (\<lambda>c. alphanumeric c \<or> c = CHR ''.'' \<or> c = CHR ''-'') s)"

definition strip :: "string \<Rightarrow> string" where
  "strip s = rev (dropWhile blank (rev (dropWhile blank s)))"

definition validate_hostname :: "string \<Rightarrow> string client" where
  "validate_hostname h = (if valid_hostname h then Inr h else die)"

definition check_hostnames :: "string list \<Rightarrow> string list client" where
  "check_hostnames hs =
     (if \<exists>h\<in>set hs. h \<noteq> [] \<and> \<not> valid_hostname h then die
      else if hs = [] then die
      else Inr hs)"

definition parse_hostname_list :: "string \<Rightarrow> string list client" where
  "parse_hostname_list l = check_hostnames (map strip (split_at (CHR '','') l))"

definition parse_hostname_file :: "string list \<Rightarrow> string list client" where
  "parse_hostname_file lines = check_hostnames (map strip lines)"

text \<open>An option is given if it is not empty; a file is read through \<open>read_lines\<close>.\<close>

definition given :: "string option \<Rightarrow> bool" where
  "given opt = (opt \<noteq> None \<and> opt \<noteq> Some [])"

definition parse_hostnames_optional :: "(string \<Rightarrow> string list) \<Rightarrow> string option \<Rightarrow> string option
    \<Rightarrow> string list option client" where
  "parse_hostnames_optional read_lines list_option file_option =
     (if given list_option \<and> given file_option then die
      else if given file_option then rbind (parse_hostname_file (read_lines (the file_option))) (\<lambda>hs. Inr (Some hs))
      else if given list_option then rbind (parse_hostname_list (the list_option)) (\<lambda>hs. Inr (Some hs))
      else Inr None)"

definition parse_hostnames :: "(string \<Rightarrow> string list) \<Rightarrow> string option \<Rightarrow> string option \<Rightarrow> string list client" where
  "parse_hostnames read_lines filename hostnames =
     (if given filename = given hostnames then die
      else if given filename then parse_hostname_file (read_lines (the filename))
      else parse_hostname_list (the hostnames))"

section \<open>Service levels\<close>

definition parse_sla_percentage :: "(string \<Rightarrow> py_float option) \<Rightarrow> string \<Rightarrow> py_float client" where
  "parse_sla_percentage float_of s =
     (case float_of s of
        None \<Rightarrow> Inl (Py ValueError)
      | Some Not_a_number \<Rightarrow> Inr Not_a_number
      | Some (Infinite _) \<Rightarrow> die
      | Some (py_float.Number q) \<Rightarrow> if q \<le> 0 \<or> q > 100 then die else Inr (py_float.Number q))"

definition lift_py :: "pyexc + 'a \<Rightarrow> 'a client" where
  "lift_py r = (case r of Inl e \<Rightarrow> Inl (Py e) | Inr x \<Rightarrow> Inr x)"

record sla_options =
  sl_percentage :: "string option"
  sl_duration :: "string option"
  sl_reason :: "string option"

text \<open>The limits in force, in percent and seconds; the defaults are 95 percent in 30 minutes.\<close>

definition parse_and_validate_sla_overrides :: "(string \<Rightarrow> py_float option) \<Rightarrow> sla_options \<Rightarrow> (py_float \<times> int) client" where
  "parse_and_validate_sla_overrides float_of opts =
     (let has_override = (given (sl_percentage opts) \<or> given (sl_duration opts) \<or> given (sl_reason opts));
          all_overrides = (given (sl_percentage opts) \<and> given (sl_duration opts) \<and> given (sl_reason opts))
      in if has_override \<noteq> all_overrides then die
         else if \<not> all_overrides then Inr (py_float.Number 95, 1800)
         else rbind (parse_sla_percentage float_of (the (sl_percentage opts))) (\<lambda>p.
              rbind (lift_py (parse_time (the (sl_duration opts)))) (\<lambda>d. Inr (p, d))))"

definition parse_and_validate_sla_drain_default :: "(string \<Rightarrow> py_float option) \<Rightarrow> string \<Rightarrow> string \<Rightarrow> string
    \<Rightarrow> (py_float \<times> int \<times> int) client" where
  "parse_and_validate_sla_drain_default float_of percentage duration timeout =
     rbind (parse_sla_percentage float_of percentage) (\<lambda>p.
     rbind (lift_py (parse_time duration)) (\<lambda>d.
     rbind (lift_py (parse_time timeout)) (\<lambda>t. Inr (p, d, t))))"

section \<open>Calls of the scheduler\<close>

definition make_admin_client :: "'w env \<Rightarrow> string \<Rightarrow> ('w, 'w scheduler) cmd" where
  "make_admin_client env cluster =
     (if cluster \<in> set (en_clusters env) then returns (en_scheduler env cluster) else lift_client die)"

definition check_and_log_response :: "response \<Rightarrow> ('w, unit) cmd" where
  "check_and_log_response resp = (if rp_code resp = OK then returns () else lift_client die)"

definition admin_run :: "'w env \<Rightarrow> string \<Rightarrow> admin_request \<Rightarrow> ('w, response) cmd" where
  "admin_run env cluster r =
     and_then (make_admin_client env cluster) (\<lambda>sch.
     and_then (send sch (admin_call r)) (\<lambda>resp.
     and_then (check_and_log_response resp) (\<lambda>_. returns resp)))"

definition status_names :: "(string \<times> schedule_status) list" where
  "status_names = [(''INIT'', S_INIT), (''THROTTLED'', S_THROTTLED), (''PENDING'', S_PENDING), (''ASSIGNED'', S_ASSIGNED),
     (''STARTING'', S_STARTING), (''RUNNING'', S_RUNNING), (''FINISHED'', S_FINISHED), (''PREEMPTING'', S_PREEMPTING),
     (''RESTARTING'', S_RESTARTING), (''DRAINING'', S_DRAINING), (''LOST'', S_LOST), (''KILLED'', S_KILLED),
     (''FAILED'', S_FAILED), (''KILLING'', S_KILLING), (''PARTITIONED'', S_PARTITIONED)]"

record prune_options =
  pn_states :: "string option"
  pn_role :: "string option"
  pn_environment :: "string option"
  pn_limit :: "int option"

definition states_of :: "string \<Rightarrow> schedule_status option set" where
  "states_of s = map_of status_names ` set (split_at (CHR '','') s)"

definition nonempty :: "string option \<Rightarrow> string option" where
  "nonempty opt = (if opt = Some [] then None else opt)"

definition prune_query :: "prune_options \<Rightarrow> task_query" where
  "prune_query opts =
     no_query\<lparr>tq_statuses := map_option states_of (nonempty (pn_states opts)), tq_role := nonempty (pn_role opts),
       tq_env := nonempty (pn_environment opts), tq_limit := (if pn_limit opts = Some 0 then None else pn_limit opts)\<rparr>"

definition prune_tasks :: "'w env \<Rightarrow> string list \<Rightarrow> prune_options \<Rightarrow> ('w, unit) cmd" where
  "prune_tasks env args opts =
     (case args of
        [] \<Rightarrow> lift_client die
      | cluster # _ \<Rightarrow> and_then (admin_run env cluster (Prune_tasks (prune_query opts))) (\<lambda>_. returns ()))"

record query_options =
  qo_force :: bool
  qo_shards :: "string option"
  qo_states :: string

definition terminal_states :: "schedule_status set" where
  "terminal_states = {S_FAILED, S_FINISHED, S_KILLED, S_LOST}"

text \<open>The checks of \<^verbatim>\<open>query\<close>, in order, and the query it makes of its arguments.\<close>

definition query_of :: "string list \<Rightarrow> query_options \<Rightarrow> (string \<times> task_query) client" where
  "query_of args opts =
     (if \<exists>st\<in>set (split_at (CHR '','') (qo_states opts)). map_of status_names st = None then die
      else case args of
        [] \<Rightarrow> die
      | cluster # rest \<Rightarrow>
          let role = (if rest = [] then None else Some (hd rest));
              job = (if length rest > 1 then Some (rest ! 1) else None) in
          rbind (if given (qo_shards opts)
                 then traverse (\<lambda>x. case py_int x of None \<Rightarrow> Inl (Py ValueError) | Some n \<Rightarrow> Inr n)
                        (split_at (CHR '','') (the (qo_shards opts)))
                 else Inr []) (\<lambda>shards.
          let states = (if qo_states opts \<noteq> [] then states_of (qo_states opts) else Some ` (active_states \<union> terminal_states)) in
          if \<not> given role \<and> \<not> qo_force opts then die
          else if \<not> given job \<and> \<not> qo_force opts then die
          else if \<not> states \<subseteq> Some ` active_states \<and> \<not> qo_force opts then die
          else Inr (cluster, no_query\<lparr>tq_role := role, tq_job := job, tq_instances := Some (set shards),
                 tq_statuses := Some states\<rparr>)))"

definition query_command :: "'w env \<Rightarrow> string list \<Rightarrow> query_options \<Rightarrow> ('w, active_task list option) cmd" where
  "query_command env args opts =
     and_then (lift_client (query_of args opts)) (\<lambda>(cluster, q).
     and_then (make_admin_client env cluster) (\<lambda>sch.
     and_then (call_query sch (api_query q)) (\<lambda>resp.
     and_then (check_and_log_response resp) (\<lambda>_. status_tasks resp))))"

text \<open>A task flattened for printing.  The dictionary is the default argument of \<^verbatim>\<open>flatten_task\<close>, so one is
  shared by all tasks; later keys replace earlier ones.\<close>

datatype 'v attribute = Plain 'v | Object "(string \<times> 'v attribute) list"

fun flatten_task :: "(string \<times> 'v attribute) list \<Rightarrow> (string \<times> 'v) list \<Rightarrow> (string \<times> 'v) list" where
  "flatten_task [] d = d"
| "flatten_task ((k, Plain v) # fs) d = flatten_task fs (AList.update k v d)"
| "flatten_task ((k, Object gs) # fs) d = flatten_task fs (flatten_task gs d)"

fun flatten_tasks :: "(string \<times> 'v attribute) list list \<Rightarrow> (string \<times> 'v) list \<Rightarrow> (string \<times> 'v) list list" where
  "flatten_tasks [] d = []"
| "flatten_tasks (t # ts) d = flatten_task t d # flatten_tasks ts (flatten_task t d)"

section \<open>Quota\<close>

text \<open>\<^verbatim>\<open>parse_data\<close>, in bytes, and its conversion to megabytes.\<close>

definition data_bases :: "(string \<times> int) list" where
  "data_bases = [(''k'', 1024), (''kb'', 1024), (''m'', 1024 ^ 2), (''mb'', 1024 ^ 2), (''g'', 1024 ^ 3), (''gb'', 1024 ^ 3),
     (''t'', 1024 ^ 4), (''tb'', 1024 ^ 4)]"

definition ends_with :: "string \<Rightarrow> string \<Rightarrow> bool" where
  "ends_with ending s = (length ending \<le> length s \<and> drop (length s - length ending) s = ending)"

definition parse_data :: "string \<Rightarrow> pyexc + int" where
  "parse_data str =
     (let s = map lower (strip str) in
      case py_int s of
        Some n \<Rightarrow> Inr n
      | None \<Rightarrow>
          (case find (\<lambda>(base, _). ends_with base s) data_bases of
             None \<Rightarrow> Inl ValueError
           | Some (base, unit_bytes) \<Rightarrow>
               (case py_int (take (length s - length base) s) of
                  None \<Rightarrow> Inl ValueError | Some n \<Rightarrow> Inr (n * unit_bytes))))"

definition in_megabytes :: "int \<Rightarrow> rat" where
  "in_megabytes bytes = of_int bytes / 1048576"

definition py_trunc :: "rat \<Rightarrow> int" where
  "py_trunc q = (if q \<ge> 0 then \<lfloor>q\<rfloor> else \<lceil>q\<rceil>)"

definition die_on_error :: "pyexc + 'a \<Rightarrow> 'a client" where
  "die_on_error r = (case r of Inr x \<Rightarrow> Inr x | Inl ValueError \<Rightarrow> die | Inl e \<Rightarrow> Inl (Py e))"

definition set_quota :: "'w env \<Rightarrow> (string \<Rightarrow> rat option) \<Rightarrow> string \<Rightarrow> string \<Rightarrow> string \<Rightarrow> string \<Rightarrow> string \<Rightarrow> ('w, unit) cmd" where
  "set_quota env number_of cluster role cpu ram disk =
     and_then (lift_client (rbind (die_on_error (parse_data ram)) (\<lambda>r.
         rbind (die_on_error (parse_data disk)) (\<lambda>d.
         rbind (case number_of cpu of None \<Rightarrow> die | Some c \<Rightarrow> Inr c) (\<lambda>c.
           Inr (c, py_trunc (in_megabytes r), py_trunc (in_megabytes d))))))) (\<lambda>(c, r, d).
     and_then (admin_run env cluster (Set_quota role c r d)) (\<lambda>_. returns ()))"

definition increase_quota :: "'w env \<Rightarrow> (string \<Rightarrow> rat option) \<Rightarrow> string \<Rightarrow> string \<Rightarrow> string \<Rightarrow> string \<Rightarrow> string \<Rightarrow> ('w, unit) cmd" where
  "increase_quota env number_of cluster role cpu ram disk =
     and_then (lift_client (rbind (case number_of cpu of None \<Rightarrow> Inl (Py ValueError) | Some c \<Rightarrow> Inr c) (\<lambda>c.
         rbind (lift_py (parse_data ram)) (\<lambda>r. rbind (lift_py (parse_data disk)) (\<lambda>d. Inr (c, r, d)))))) (\<lambda>(c, r, d).
     and_then (make_admin_client env cluster) (\<lambda>sch.
     and_then (send sch (admin_call (Get_quota role))) (\<lambda>resp.
       case rp_result resp of
         Quota_result rs \<Rightarrow>
           and_then (lift_client (case resource_details rs of
               Inr ds \<Rightarrow> Inr ds | Inl (Py e) \<Rightarrow> Inl (Py e) | Inl (Own e) \<Rightarrow> Inl (Own (Config_error e)))) (\<lambda>ds.
           and_then (send sch (admin_call (Set_quota role (c + quantity_of ds CPUS)
               (py_trunc (in_megabytes r + quantity_of ds RAM_MB)) (py_trunc (in_megabytes d + quantity_of ds DISK_MB))))) (\<lambda>resp.
             check_and_log_response resp))
       | _ \<Rightarrow> lift_client (Inl (Py AttributeError)))))"

section \<open>Backups, recovery, reconciliation\<close>

definition scheduler_backup_now :: "'w env \<Rightarrow> string \<Rightarrow> ('w, response) cmd" where
  "scheduler_backup_now env cluster = admin_run env cluster Perform_backup"

definition scheduler_list_backups :: "'w env \<Rightarrow> string \<Rightarrow> ('w, response) cmd" where
  "scheduler_list_backups env cluster = admin_run env cluster List_backups"

definition scheduler_stage_recovery :: "'w env \<Rightarrow> string \<Rightarrow> string \<Rightarrow> ('w, response) cmd" where
  "scheduler_stage_recovery env cluster backup = admin_run env cluster (Stage_recovery backup)"

definition scheduler_print_recovery_tasks :: "'w env \<Rightarrow> string \<Rightarrow> ('w, response) cmd" where
  "scheduler_print_recovery_tasks env cluster =
     admin_run env cluster (Query_recovery (no_query\<lparr>tq_statuses := Some (Some ` active_states)\<rparr>))"

definition scheduler_delete_recovery_tasks :: "'w env \<Rightarrow> string \<Rightarrow> string \<Rightarrow> ('w, response) cmd" where
  "scheduler_delete_recovery_tasks env cluster task_ids =
     admin_run env cluster (Delete_recovery_tasks (no_query\<lparr>tq_tasks := Some (set (split_at (CHR '','') task_ids))\<rparr>))"

definition scheduler_commit_recovery :: "'w env \<Rightarrow> string \<Rightarrow> ('w, response) cmd" where
  "scheduler_commit_recovery env cluster = admin_run env cluster Commit_recovery"

definition scheduler_unload_recovery :: "'w env \<Rightarrow> string \<Rightarrow> ('w, response) cmd" where
  "scheduler_unload_recovery env cluster = admin_run env cluster Unload_recovery"

definition scheduler_snapshot :: "'w env \<Rightarrow> string \<Rightarrow> ('w, response) cmd" where
  "scheduler_snapshot env cluster = admin_run env cluster Snapshot"

definition reconcile_tasks :: "'w env \<Rightarrow> string \<Rightarrow> int option \<Rightarrow> string \<Rightarrow> ('w, response) cmd" where
  "reconcile_tasks env reconciliation batch_size cluster =
     and_then (make_admin_client env cluster) (\<lambda>_.
       if reconciliation = ''implicit'' then admin_run env cluster Reconcile_implicit
       else if reconciliation = ''explicit'' then admin_run env cluster (Reconcile_explicit batch_size)
       else lift_client die)"

section \<open>The maintenance commands\<close>

definition exit_client :: "client_exit + 'a \<Rightarrow> 'a client" where
  "exit_client r = (case r of Inl Die \<Rightarrow> die | Inr x \<Rightarrow> Inr x)"

definition known_cluster :: "string list \<Rightarrow> string \<Rightarrow> unit client" where
  "known_cluster clusters cluster = (if cluster \<in> set clusters then Inr () else Inl (Py KeyError))"

definition host_deactivate :: "string list \<Rightarrow> (string \<Rightarrow> string list) \<Rightarrow> (string list \<Rightarrow> host_statuses option)
    \<Rightarrow> string \<Rightarrow> string option \<Rightarrow> string option \<Rightarrow> (string list \<times> string list) client" where
  "host_deactivate clusters read_lines start cluster filename hosts =
     rbind (known_cluster clusters cluster) (\<lambda>_.
     rbind (parse_hostnames read_lines filename hosts) (\<lambda>hs. exit_client (start_maintenance start hs)))"

definition host_activate :: "string list \<Rightarrow> (string \<Rightarrow> string list) \<Rightarrow> (string list \<Rightarrow> bool \<times> host_statuses)
    \<Rightarrow> string \<Rightarrow> string option \<Rightarrow> string option \<Rightarrow> string list client" where
  "host_activate clusters read_lines finish cluster filename hosts =
     rbind (known_cluster clusters cluster) (\<lambda>_.
     rbind (parse_hostnames read_lines filename hosts) (\<lambda>hs.
       case finish (remdups hs) of (ended, statuses) \<Rightarrow> exit_client (complete_maintenance ended statuses)))"

text \<open>\<^verbatim>\<open>parse_script\<close>: whether there is a callback; a script that does not exist ends the program.\<close>

definition parse_script :: "(string \<Rightarrow> bool) \<Rightarrow> string option \<Rightarrow> bool client" where
  "parse_script path_exists filename =
     (if given filename then (if path_exists (the filename) then Inr True else die) else Inr False)"

text \<open>Percentages are taken to be numbers here: \<open>number_of\<close> is the grammar of the texts that are.\<close>

record drain_options =
  dr_filename :: "string option"
  dr_hosts :: "string option"
  dr_grouping :: string
  dr_sla :: sla_options
  dr_script :: "string option"

definition host_drain :: "string list \<Rightarrow> (string \<Rightarrow> string list) \<Rightarrow> (string \<Rightarrow> bool) \<Rightarrow> (string \<Rightarrow> rat option)
    \<Rightarrow> (string list \<Rightarrow> host_statuses option) \<Rightarrow> grouping_table \<Rightarrow> (string list \<Rightarrow> batch_env) \<Rightarrow> string \<Rightarrow> drain_options
    \<Rightarrow> (string list \<times> string list) client" where
  "host_drain clusters read_lines path_exists number_of start t env cluster opts =
     rbind (parse_hostnames read_lines (dr_filename opts) (dr_hosts opts)) (\<lambda>hosts.
     rbind (exit_client (get_grouping_or_die t (dr_grouping opts))) (\<lambda>_.
     rbind (parse_and_validate_sla_overrides (map_option py_float.Number \<circ> number_of) (dr_sla opts)) (\<lambda>(percentage, duration).
     rbind (parse_script path_exists (dr_script opts)) (\<lambda>callback.
     rbind (known_cluster clusters cluster) (\<lambda>_.
       case percentage of
         py_float.Number p \<Rightarrow> exit_client
           (perform_maintenance start t (dr_grouping opts) p (of_int duration) callback env hosts)
       | _ \<Rightarrow> Inl (Py ValueError))))))"

definition host_status :: "string list \<Rightarrow> (string \<Rightarrow> string list) \<Rightarrow> (string list \<Rightarrow> host_statuses option)
    \<Rightarrow> string \<Rightarrow> string option \<Rightarrow> string option \<Rightarrow> host_statuses client" where
  "host_status clusters read_lines query cluster filename hosts =
     rbind (parse_hostnames read_lines filename hosts) (\<lambda>hs.
     rbind (known_cluster clusters cluster) (\<lambda>_. exit_client (check_status query hs)))"

section \<open>Safe domains\<close>

text \<open>The file of overrides: per line a job, a percentage, a duration.  \<open>words\<close> is \<^verbatim>\<open>str.split\<close> without arguments.\<close>

fun words_from :: "string \<Rightarrow> string \<Rightarrow> string list" where
  "words_from w [] = (if w = [] then [] else [rev w])"
| "words_from w (c # cs) =
     (if blank c then (if w = [] then words_from [] cs else rev w # words_from [] cs) else words_from (c # w) cs)"

definition parse_override :: "(string \<Rightarrow> py_float option) \<Rightarrow> string \<Rightarrow> (aurora_job_key \<times> py_float \<times> int) option client" where
  "parse_override float_of line =
     (if strip line = [] then Inr None
      else case words_from [] line of
        [job, percentage, duration] \<Rightarrow>
          rbind (case from_path job of Inr k \<Rightarrow> Inr k | Inl (Py e) \<Rightarrow> Inl (Py e) | Inl (Own e) \<Rightarrow> Inl (Own (Config_error e))) (\<lambda>k.
          rbind (parse_sla_percentage float_of percentage) (\<lambda>p.
          rbind (lift_py (parse_time duration)) (\<lambda>d. Inr (Some (k, p, d)))))
      | _ \<Rightarrow> die)"

definition parse_jobs_file :: "(string \<Rightarrow> py_float option) \<Rightarrow> string list \<Rightarrow> (aurora_job_key \<times> py_float \<times> int) list client" where
  "parse_jobs_file float_of lines =
     rbind (traverse (parse_override float_of) lines) (\<lambda>rs.
       Inr (foldl (\<lambda>m (k, v). AList.update k v m) [] (List.map_filter id rs)))"

text \<open>The hosts that are printed: those of the safe groups, in order, that are not excluded.\<close>

definition safe_hosts_printed :: "string list option \<Rightarrow> (string \<times> 'a list) list list \<Rightarrow> string list" where
  "safe_hosts_printed exclude groups =
     concat (map (\<lambda>g. [h \<leftarrow> sort (map fst g). \<not> (exclude \<noteq> None \<and> exclude \<noteq> Some [] \<and> h \<in> set (the exclude))]) groups)"

section \<open>What is asked without force\<close>

text \<open>Without \<^verbatim>\<open>--force\<close> a query names a role and a job and asks for active tasks only.\<close>

theorem expensive_query_needs_force:
  assumes "query_of args opts = Inr (cluster, q)" "\<not> qo_force opts"
  shows "(\<exists>role job. role \<noteq> [] \<and> job \<noteq> [] \<and> tq_role q = Some role \<and> tq_job q = Some job) \<and>
    (\<exists>states. tq_statuses q = Some (Some ` states) \<and> states \<subseteq> active_states)"
proof -
  from assms obtain states where
    q: "given (tq_role q)" "given (tq_job q)" "tq_statuses q = Some states" "states \<subseteq> Some ` active_states"
    by (auto simp: query_of_def Let_def die_def rbind_Inr_iff no_query_def split: list.splits if_splits)
  obtain sts where "sts \<subseteq> active_states" "states = Some ` sts" using q(4) by (auto simp: subset_image_iff)
  then show ?thesis using q by (auto simp: given_def)
qed

theorem expensive_query_needs_force_witness:
  "\<exists>q states. query_of [''c'', ''r'', ''j''] \<lparr>qo_force = False, qo_shards = None, qo_states = ''RUNNING''\<rparr> = Inr (''c'', q) \<and>
     tq_statuses q = Some (Some ` states) \<and> states \<subseteq> active_states"
proof -
  have run: "query_of [''c'', ''r'', ''j''] \<lparr>qo_force = False, qo_shards = None, qo_states = ''RUNNING''\<rparr> =
      Inr (''c'', no_query\<lparr>tq_role := Some ''r'', tq_job := Some ''j'', tq_instances := Some {}, tq_statuses := Some {Some S_RUNNING}\<rparr>)"
    by (simp add: query_of_def Let_def given_def states_of_def status_names_def active_states_def)
  from expensive_query_needs_force [OF run] show ?thesis unfolding run by auto
qed

text \<open>What the parsing of hosts lets through: blank items pass, and so does a list of nothing but blanks.\<close>

lemma hostnames_parsed:
  "parse_hostnames read_lines f h = Inr hs \<longleftrightarrow>
     given f \<noteq> given h \<and> hs = map strip (if given f then read_lines (the f) else split_at (CHR '','') (the h)) \<and>
     hs \<noteq> [] \<and> (\<forall>x\<in>set hs. x = [] \<or> valid_hostname x)"
  by (auto simp: parse_hostnames_def parse_hostname_file_def parse_hostname_list_def check_hostnames_def die_def
      split: if_splits)

lemma blank_hosts_pass: "parse_hostnames read_lines None (Some ''a, ,b,'') = Inr [''a'', '''', ''b'', '''']"
  by (simp add: parse_hostnames_def given_def parse_hostname_list_def) code_simp

text \<open>The dictionary of \<^verbatim>\<open>flatten_task\<close> outlives a task: what one task has and the next has not is printed again.\<close>

lemma flattened_fields_stay:
  "flatten_tasks [[(''a'', Object [(''x'', Plain (1 :: int))])], [(''a'', Plain 0)]] [] = [[(''x'', 1)], [(''x'', 1), (''a'', 0)]]"
  by simp

end
