(* ===== verification/ResourceMonitor.thy ===== *)
theory ResourceMonitor
  imports Status "HOL-Library.AList"
begin

text \<open>
  The resource monitor of a task: \<^verbatim>\<open>apache/thermos/monitoring/resource.py\<close> with the samples of
  \<^verbatim>\<open>process.py\<close>, the collector of \<^verbatim>\<open>process_collector_psutil.py\<close>, the disk collectors of \<^verbatim>\<open>disk.py\<close> and the
  ring buffer of \<^verbatim>\<open>twitter.common.collections\<close> that keeps its history.  Clocks, psutil and the thread
  that measures the disk are arguments.
\<close>

section \<open>Process samples\<close>

record process_sample =
  ps_rate :: rat
  ps_user :: rat
  ps_system :: rat
  ps_rss :: int
  ps_vms :: int
  ps_nice :: "int option"
  ps_status :: "string option"
  ps_threads :: int

definition empty_sample :: process_sample where
  "empty_sample = \<lparr>ps_rate = 0, ps_user = 0, ps_system = 0, ps_rss = 0, ps_vms = 0, ps_nice = None, ps_status = None, ps_threads = 0\<rparr>"

definition add_samples :: "process_sample \<Rightarrow> process_sample \<Rightarrow> process_sample" where
  "add_samples a b =
     \<lparr>ps_rate = ps_rate a + ps_rate b, ps_user = ps_user a + ps_user b, ps_system = ps_system a + ps_system b,
      ps_rss = ps_rss a + ps_rss b, ps_vms = ps_vms a + ps_vms b,
      ps_nice = (if ps_nice a \<noteq> None \<and> ps_nice b = None then ps_nice a else ps_nice b),
      ps_status = (if ps_status a \<noteq> None \<and> ps_status b = None then ps_status a else ps_status b),
      ps_threads = ps_threads a + ps_threads b\<rparr>"

definition sum_samples :: "process_sample list \<Rightarrow> process_sample" where
  "sum_samples ss = foldl add_samples empty_sample ss"

text \<open>What psutil says of one process; \<open>None\<close> if it is gone or may not be read.\<close>

definition process_to_sample :: "process_sample option \<Rightarrow> process_sample" where
  "process_to_sample answer = (case answer of None \<Rightarrow> empty_sample | Some s \<Rightarrow> s)"

section \<open>The collector of a process tree\<close>

record tree_collector =
  tc_pid :: int
  tc_tree :: "(int \<times> process_sample) list"
  tc_sample :: process_sample
  tc_stamp :: "rat option"
  tc_rate :: rat

definition new_collector :: "int \<Rightarrow> tree_collector" where
  "new_collector pid = \<lparr>tc_pid = pid, tc_tree = [], tc_sample = empty_sample, tc_stamp = None, tc_rate = 0\<rparr>"

text \<open>The tree under a pid: the parent and its descendants, each with its answer; \<open>None\<close> where psutil raises.
  The stamps of two samples differ.\<close>

type_synonym process_table = "int \<Rightarrow> (process_sample option \<times> (int \<times> process_sample option) list) option"

definition cpu_seconds :: "process_sample \<Rightarrow> rat" where
  "cpu_seconds s = ps_user s + ps_system s"

definition collect_tree :: "process_table \<Rightarrow> rat \<Rightarrow> tree_collector \<Rightarrow> tree_collector" where
  "collect_tree table now c =
     (case table (tc_pid c) of
        None \<Rightarrow> c\<lparr>tc_sample := empty_sample, tc_rate := 0\<rparr>
      | Some (parent, children) \<Rightarrow>
          let new = AList.update (tc_pid c) (process_to_sample parent)
                (foldl (\<lambda>m (p, a). AList.update p (process_to_sample a) m) [] children);
              old = map (\<lambda>(p, _). case map_of (tc_tree c) p of None \<Rightarrow> empty_sample | Some s \<Rightarrow> s) new;
              rate = (case tc_stamp c of
                  Some before \<Rightarrow> if tc_tree c \<noteq> [] \<and> before \<noteq> 0
                    then ((\<Sum>s\<leftarrow>map snd new. cpu_seconds s) - (\<Sum>s\<leftarrow>old. cpu_seconds s)) / (now - before) else tc_rate c
                | None \<Rightarrow> tc_rate c)
          in c\<lparr>tc_sample := sum_samples (map snd new), tc_stamp := Some now, tc_rate := rate, tc_tree := new\<rparr>)"

definition collector_value :: "tree_collector \<Rightarrow> process_sample" where
  "collector_value c = (tc_sample c)\<lparr>ps_rate := tc_rate c\<rparr>"

definition collector_procs :: "tree_collector \<Rightarrow> int" where
  "collector_procs c = int (length (tc_tree c))"

section \<open>Disk collectors\<close>

text \<open>A thread that measures: still at it, or done with a value.\<close>

datatype disk_thread = Measuring | Measured int

record disk_collector =
  dc_thread :: "disk_thread option"
  dc_value :: int

definition new_disk_collector :: disk_collector where
  "new_disk_collector = \<lparr>dc_thread = None, dc_value = 0\<rparr>"

definition disk_value :: "disk_collector \<Rightarrow> int \<times> disk_collector" where
  "disk_value c =
     (case dc_thread c of
        Some (Measured v) \<Rightarrow> (v, \<lparr>dc_thread = None, dc_value = v\<rparr>)
      | _ \<Rightarrow> (dc_value c, c))"

definition disk_sample :: "disk_collector \<Rightarrow> disk_collector" where
  "disk_sample c = (if dc_thread c = None then c\<lparr>dc_thread := Some Measuring\<rparr> else c)"

text \<open>The event of the thread: it has its value.  A thread that raises never sets its event.\<close>

definition disk_done :: "int \<Rightarrow> disk_collector \<Rightarrow> disk_collector" where
  "disk_done v c = (if dc_thread c = Some Measuring then c\<lparr>dc_thread := Some (Measured v)\<rparr> else c)"

text \<open>What the Mesos collector makes of the containers that the agent reports, each with its executor and its
  use of the disk.  \<open>occurs\<close> is whether one text is in another.\<close>

fun occurs :: "string \<Rightarrow> string \<Rightarrow> bool" where
  "occurs w [] = (w = [])"
| "occurs w (c # cs) = (take (length w) (c # cs) = w \<or> occurs w cs)"

definition mesos_disk_usage :: "string \<Rightarrow> (string \<times> int option) list option \<Rightarrow> int" where
  "mesos_disk_usage path containers =
     (case [u. (e, u) \<leftarrow> (case containers of None \<Rightarrow> [] | Some cs \<Rightarrow> cs), occurs e path] of
        [Some bytes] \<Rightarrow> bytes
      | _ \<Rightarrow> -1)"

section \<open>The ring buffer\<close>

record 'a ring =
  rb_items :: "'a list"
  rb_zero :: nat
  rb_size :: nat
  rb_count :: nat

definition new_ring :: "nat \<Rightarrow> pyexc + 'a ring" where
  "new_ring n = (if n \<ge> 1 then Inr \<lparr>rb_items = [], rb_zero = 0, rb_size = n, rb_count = 0\<rparr> else Inl ValueError)"

definition ring_append :: "'a \<Rightarrow> 'a ring \<Rightarrow> 'a ring" where
  "ring_append v r =
     (if rb_count r < rb_size r then r\<lparr>rb_items := rb_items r @ [v], rb_count := rb_count r + 1\<rparr>
      else r\<lparr>rb_items := (rb_items r)[rb_zero r mod rb_size r := v], rb_zero := rb_zero r + 1\<rparr>)"

text \<open>The index may be negative, and wraps.\<close>

definition ring_get :: "'a ring \<Rightarrow> int \<Rightarrow> pyexc + 'a" where
  "ring_get r key =
     (if rb_count r = 0 then Inl IndexError
      else Inr (rb_items r ! nat ((key + int (rb_zero r)) mod int (rb_count r))))"

definition ring_contents :: "'a ring \<Rightarrow> 'a list" where
  "ring_contents r = map (\<lambda>x. rb_items r ! ((x + rb_zero r) mod rb_count r)) [0..<rb_count r]"

section \<open>The history\<close>

text \<open>A full result: per process its sample and its number of pids, and the use of the disk.\<close>

type_synonym full_result = "(string \<times> process_sample \<times> int) list \<times> int"

type_synonym history = "(rat \<times> full_result) ring"

definition history_add :: "rat \<Rightarrow> full_result \<Rightarrow> history \<Rightarrow> history \<times> pyexc option" where
  "history_add ts v h =
     (if rb_items h \<noteq> [] \<and> \<not> (case ring_get h (-1) of Inr (newest, _) \<Rightarrow> ts \<ge> newest | Inl _ \<Rightarrow> True) then (h, Some ValueError)
      else (ring_append (ts, v) h, None))"

definition new_history :: "nat \<Rightarrow> rat \<Rightarrow> pyexc + history" where
  "new_history maxlen now =
     (if maxlen \<ge> 1 then rbind (new_ring maxlen) (\<lambda>r. Inr (fst (history_add now ([], 0) r))) else Inl ValueError)"

text \<open>\<^verbatim>\<open>bisect_left\<close> for a pair of the timestamp and \<open>None\<close>: pairs with the same timestamp are not comparable.\<close>

function bisect_left :: "history \<Rightarrow> rat \<Rightarrow> nat \<Rightarrow> nat \<Rightarrow> pyexc + nat" where
  "bisect_left h ts lo hi =
     (if lo < hi then
        (case ring_get h (int ((lo + hi) div 2)) of
           Inl e \<Rightarrow> Inl e
         | Inr (t, _) \<Rightarrow>
             if t = ts then Inl TypeError
             else if t < ts then bisect_left h ts ((lo + hi) div 2 + 1) hi
             else bisect_left h ts lo ((lo + hi) div 2))
      else Inr lo)"
  by pat_completeness auto

termination
  by (relation "measure (\<lambda>(_, _, lo, hi). hi - lo)") auto

declare bisect_left.simps [simp del]

definition history_get :: "rat \<Rightarrow> history \<Rightarrow> pyexc + rat \<times> full_result" where
  "history_get ts h =
     rbind (bisect_left h ts 0 (length (rb_items h))) (\<lambda>i. ring_get h (min (int i) (int (length (rb_items h)) - 1)))"

definition max_history :: int where "max_history = 10000"

definition provide_history :: "rat \<Rightarrow> rat \<Rightarrow> rat \<Rightarrow> pyexc + history" where
  "provide_history history_time min_collection_interval now =
     (if min_collection_interval = 0 then Inl ZeroDivisionError
      else let n = \<lfloor>history_time / min_collection_interval\<rfloor> in
        if n > max_history then Inl ValueError else new_history (nat n) now)"

section \<open>The monitor\<close>

record resource_monitor =
  rm_collectors :: "(string \<times> tree_collector) list"
  rm_disk :: "disk_collector option"
  rm_history :: history
  rm_next_process :: rat
  rm_next_disk :: rat

text \<open>The collection of processes: collectors of processes that are gone are dropped, new processes get one.\<close>

definition follow_processes :: "(string \<times> int) list \<Rightarrow> (string \<times> tree_collector) list \<Rightarrow> (string \<times> tree_collector) list" where
  "follow_processes actives collectors =
     (let kept = [(n, c) \<leftarrow> collectors. n \<in> fst ` set actives]
      in kept @ [(n, new_collector (the (map_of (rev actives) n))). n \<leftarrow> remdups (map fst actives), n \<notin> fst ` set collectors])"

definition collect_processes :: "process_table \<Rightarrow> rat \<Rightarrow> (string \<times> int) list \<Rightarrow> (string \<times> tree_collector) list
    \<Rightarrow> (string \<times> tree_collector) list" where
  "collect_processes table now actives collectors =
     map (\<lambda>(n, c). (n, collect_tree table now c)) (follow_processes actives collectors)"

text \<open>One round of the thread: the time, the active processes, psutil, and the sandbox if it is known.\<close>

definition monitor_round :: "rat \<Rightarrow> rat \<Rightarrow> rat \<Rightarrow> (string \<times> int) list \<Rightarrow> process_table \<Rightarrow> bool \<Rightarrow> resource_monitor \<Rightarrow> resource_monitor" where
  "monitor_round process_interval disk_interval now actives table sandbox_known m =
     (let m1 = (if now > rm_next_process m
            then m\<lparr>rm_next_process := now + process_interval,
                   rm_collectors := collect_processes table now actives (rm_collectors m)\<rparr> else m);
          m2 = (if now > rm_next_disk m1
            then m1\<lparr>rm_next_disk := now + disk_interval,
                   rm_disk := map_option disk_sample
                     (case rm_disk m1 of None \<Rightarrow> if sandbox_known then Some new_disk_collector else None | d \<Rightarrow> d)\<rparr> else m1);
          (usage, disk) = (case rm_disk m2 of None \<Rightarrow> (0, None) | Some d \<Rightarrow> (case disk_value d of (v, d') \<Rightarrow> (v, Some d')));
          procs = map (\<lambda>(n, c). (n, collector_value c, collector_procs c)) (rm_collectors m2)
      in m2\<lparr>rm_disk := disk, rm_history := fst (history_add now (procs, usage) (rm_history m2))\<rparr>)"

text \<open>How long the thread waits after a round, if it does.\<close>

definition monitor_wait :: "rat \<Rightarrow> resource_monitor \<Rightarrow> rat option" where
  "monitor_wait now m =
     (let t = min (rm_next_process m - now) (rm_next_disk m - now) in if t > 0 then Some t else None)"

record aggregate =
  ag_num_procs :: int
  ag_sample :: process_sample
  ag_disk :: int

definition sample_at :: "rat \<Rightarrow> resource_monitor \<Rightarrow> pyexc + rat \<times> aggregate" where
  "sample_at ts m =
     rbind (history_get ts (rm_history m)) (\<lambda>(t, procs, disk).
       Inr (t, \<lparr>ag_num_procs = (\<Sum>p\<leftarrow>procs. snd (snd p)), ag_sample = sum_samples (map (fst \<circ> snd) procs), ag_disk = disk\<rparr>))"

text \<open>The last active process of the name; a collector is made for it if the thread has none yet.\<close>

definition sample_by_process :: "rat \<Rightarrow> (string \<times> int) list \<Rightarrow> process_table \<Rightarrow> string \<Rightarrow> resource_monitor
    \<Rightarrow> resource_monitor \<times> (pyexc + process_sample)" where
  "sample_by_process now actives table name m =
     (case map_of (rev actives) name of
        None \<Rightarrow> (m, Inl ValueError)
      | Some pid \<Rightarrow>
          let m1 = (if name \<in> fst ` set (rm_collectors m) then m
                    else m\<lparr>rm_collectors := rm_collectors m @ [(name, new_collector pid)]\<rparr>) in
          case history_get now (rm_history m1) of
            Inl e \<Rightarrow> (m1, Inl e)
          | Inr (_, procs, _) \<Rightarrow>
              (case map_of procs name of
                 Some (s, _) \<Rightarrow> (m1, Inr s)
               | None \<Rightarrow>
                   let c = collect_tree table now (the (map_of (rm_collectors m1) name))
                   in (m1\<lparr>rm_collectors := AList.update name c (rm_collectors m1)\<rparr>, Inr (collector_value c))))"

definition null_sample_at :: "rat \<Rightarrow> rat \<times> aggregate" where
  "null_sample_at ts = (ts, \<lparr>ag_num_procs = 0, ag_sample = empty_sample, ag_disk = 0\<rparr>)"

section \<open>The ring keeps the newest values\<close>

definition ring_ok :: "'a ring \<Rightarrow> bool" where
  "ring_ok r = (length (rb_items r) = rb_count r \<and> rb_count r \<le> rb_size r \<and> 1 \<le> rb_size r
     \<and> (rb_zero r = 0 \<or> rb_count r = rb_size r))"

lemma new_ring_ok: "new_ring n = Inr r \<Longrightarrow> ring_ok r \<and> rb_size r = n \<and> rb_count r = 0"
  by (auto simp: new_ring_def ring_ok_def split: if_splits)

lemma ring_append_ok: "ring_ok r \<Longrightarrow> ring_ok (ring_append v r) \<and> rb_size (ring_append v r) = rb_size r"
  by (auto simp: ring_append_def ring_ok_def)

lemma ring_contents_length [simp]: "length (ring_contents r) = rb_count r"
  by (simp add: ring_contents_def)

lemma ring_contents_nth: "i < rb_count r \<Longrightarrow> ring_contents r ! i = rb_items r ! ((i + rb_zero r) mod rb_count r)"
  by (simp add: ring_contents_def)

text \<open>A full ring drops its oldest value for the new one.\<close>

lemma ring_append_full:
  assumes "ring_ok r" "rb_count r = rb_size r"
  shows "ring_contents (ring_append v r) = tl (ring_contents r) @ [v]"
proof (rule nth_equalityI)
  have n: "0 < rb_size r" using assms by (simp add: ring_ok_def)
  show "length (ring_contents (ring_append v r)) = length (tl (ring_contents r) @ [v])"
    using assms n by (simp add: ring_append_def)
  fix i assume "i < length (ring_contents (ring_append v r))"
  then have i: "i < rb_size r" using assms by (simp add: ring_append_def)
  show "ring_contents (ring_append v r) ! i = (tl (ring_contents r) @ [v]) ! i"
  proof (cases "Suc i = rb_size r")
    case True
    then have "(i + Suc (rb_zero r)) mod rb_size r = rb_zero r mod rb_size r"
      by (metis add.commute add_Suc_shift mod_add_self1)
    then show ?thesis using assms True n
      by (auto simp: ring_contents_nth ring_append_def ring_ok_def nth_append)
  next
    case False
    then have less: "Suc i < rb_size r" using i by simp
    have "(i + Suc (rb_zero r)) mod rb_size r \<noteq> rb_zero r mod rb_size r"
    proof
      assume "(i + Suc (rb_zero r)) mod rb_size r = rb_zero r mod rb_size r"
      then have "rb_size r dvd Suc i"
        by (metis add.commute add_Suc_shift add_diff_cancel_left' le_add1 mod_eq_dvd_iff_nat)
      then show False using less by (meson dvd_imp_le not_less zero_less_Suc)
    qed
    moreover have "i < rb_size r - Suc 0" using less by simp
    ultimately show ?thesis using assms less i n
      by (simp add: ring_contents_nth ring_append_def ring_ok_def nth_append nth_tl)
  qed
qed

lemma ring_append_room:
  assumes "ring_ok r" "rb_count r < rb_size r"
  shows "ring_contents (ring_append v r) = ring_contents r @ [v]"
  using assms by (auto simp: ring_append_def ring_ok_def ring_contents_def nth_append)

text \<open>The newest \<open>n\<close> values of a list.\<close>

definition newest :: "nat \<Rightarrow> 'a list \<Rightarrow> 'a list" where
  "newest n xs = drop (length xs - n) xs"

lemma newest_newest [simp]: "newest n (newest n xs @ ys) = newest n (xs @ ys)"
  by (cases "length xs \<le> n") (auto simp: newest_def add.commute)

lemma newest_short [simp]: "length xs \<le> n \<Longrightarrow> newest n xs = xs"
  by (simp add: newest_def)

lemma set_newest_subset: "set (newest n xs) \<subseteq> set xs"
  by (simp add: newest_def set_drop_subset)

lemma newest_nonempty: "newest n xs = [] \<longleftrightarrow> xs = [] \<or> n = 0"
  by (cases xs) (auto simp: newest_def)

lemma last_newest: "xs \<noteq> [] \<Longrightarrow> n \<noteq> 0 \<Longrightarrow> last (newest n xs) = last xs"
  by (simp add: newest_def)

lemma ring_contents_append:
  assumes "ring_ok r"
  shows "ring_contents (ring_append v r) = newest (rb_size r) (ring_contents r @ [v])"
proof (cases "rb_count r = rb_size r")
  case True
  moreover have "ring_contents r \<noteq> []" using assms True by (auto simp: ring_ok_def simp flip: length_0_conv)
  ultimately show ?thesis using ring_append_full [OF assms True, of v]
    using assms by (simp add: newest_def drop_Suc ring_ok_def)
next
  case False
  then show ?thesis using ring_append_room [OF assms, of v] assms by (simp add: ring_ok_def)
qed

lemma ring_contents_appends:
  assumes "ring_ok r"
  shows "ring_contents (foldl (\<lambda>r v. ring_append v r) r vs) = newest (rb_size r) (ring_contents r @ vs)"
  using assms
proof (induction vs arbitrary: r)
  case Nil
  then show ?case by (simp add: ring_ok_def)
next
  case (Cons v vs)
  from Cons.IH [of "ring_append v r"] ring_append_ok [OF Cons.prems, of v] Cons.prems show ?case
    by (simp add: ring_contents_append)
qed

lemma ring_get_nth:
  assumes "ring_ok r" "- int (rb_count r) \<le> key" "key < int (rb_count r)"
  shows "ring_get r key = Inr (ring_contents r ! nat (if key < 0 then key + int (rb_count r) else key))"
proof -
  let ?n = "int (rb_count r)" and ?i = "if key < 0 then key + int (rb_count r) else key"
  have i: "0 \<le> ?i" "?i < ?n" using assms by auto
  have "(key + int (rb_zero r)) mod ?n = (?i + int (rb_zero r)) mod ?n"
  proof (cases "key < 0")
    case True
    have "(key + int (rb_zero r) + ?n) mod ?n = (key + int (rb_zero r)) mod ?n" by (rule mod_add_self2)
    then show ?thesis using True by (simp only: if_True ac_simps)
  next
    case False
    then show ?thesis by simp
  qed
  also have "\<dots> = int ((nat ?i + rb_zero r) mod rb_count r)"
    using i by (simp add: zmod_int)
  finally have "nat ((key + int (rb_zero r)) mod ?n) = (nat ?i + rb_zero r) mod rb_count r"
    by (simp only: nat_int)
  moreover have "nat ?i < rb_count r" using i by simp
  moreover have "rb_count r \<noteq> 0" using i by simp
  ultimately show ?thesis by (simp add: ring_get_def ring_contents_nth)
qed

section \<open>The history is sorted, and its search is exact\<close>

definition history_ok :: "history \<Rightarrow> bool" where
  "history_ok h = (ring_ok h \<and> ring_contents h \<noteq> [] \<and> sorted (map fst (ring_contents h)))"

lemma history_last:
  assumes "history_ok h"
  shows "ring_get h (-1) = Inr (last (ring_contents h))"
proof -
  have "rb_count h \<noteq> 0" "ring_ok h" using assms by (auto simp: history_ok_def simp flip: length_0_conv)
  then have "ring_get h (-1) = Inr (ring_contents h ! (rb_count h - 1))"
    by (subst ring_get_nth) (auto simp: nat_diff_distrib)
  moreover have "last (ring_contents h) = ring_contents h ! (rb_count h - 1)"
    using assms by (simp add: last_conv_nth history_ok_def)
  ultimately show ?thesis by simp
qed

lemma history_add_exact:
  assumes "history_ok h"
  shows "history_add ts v h =
    (if fst (last (ring_contents h)) \<le> ts then (ring_append (ts, v) h, None) else (h, Some ValueError))"
proof -
  have "rb_items h \<noteq> []" using assms by (auto simp: history_ok_def ring_ok_def ring_contents_def)
  then show ?thesis using history_last [OF assms]
    by (simp add: history_add_def split: prod.split)
qed

lemma history_append_ok:
  assumes "history_ok h" "fst (last (ring_contents h)) \<le> ts"
  shows "history_ok (ring_append (ts, v) h)"
proof -
  let ?cs = "ring_contents h"
  have "\<forall>c \<in> set ?cs. fst c \<le> ts"
  proof
    fix c assume "c \<in> set ?cs"
    then obtain i where "i < length ?cs" "c = ?cs ! i" by (metis in_set_conv_nth)
    then have "fst c \<le> fst (last ?cs)"
      using assms sorted_nth_mono [of "map fst ?cs" i "length ?cs - 1"]
      by (auto simp: history_ok_def last_conv_nth simp del: ring_contents_length)
    then show "fst c \<le> ts" using assms by simp
  qed
  then have "sorted (map fst (?cs @ [(ts, v)]))"
    using assms by (auto simp: history_ok_def sorted_append)
  then have "sorted (map fst (newest (rb_size h) (?cs @ [(ts, v)])))"
    unfolding newest_def drop_map [symmetric] by (rule sorted_wrt_drop)
  moreover have r: "ring_ok h" and "rb_size h \<noteq> 0" using assms by (auto simp: history_ok_def ring_ok_def)
  ultimately show ?thesis
    by (simp add: history_ok_def ring_append_ok [OF r] ring_contents_append [OF r] newest_nonempty)
qed

lemma history_add_ok: "history_ok h \<Longrightarrow> history_ok (fst (history_add ts v h)) \<and> rb_size (fst (history_add ts v h)) = rb_size h"
  by (auto simp: history_add_exact history_append_ok) (auto simp: history_ok_def ring_append_ok)

lemma new_history_exact:
  "new_history n now = Inr h \<Longrightarrow> history_ok h \<and> rb_size h = n \<and> 1 \<le> n \<and> ring_contents h = [(now, [], 0)]"
  by (auto simp: new_history_def new_ring_def history_add_def ring_append_def history_ok_def ring_ok_def
      ring_contents_def split: if_splits)

text \<open>The samples that a history accepts, in their order.\<close>

fun accepted :: "rat \<Rightarrow> (rat \<times> full_result) list \<Rightarrow> (rat \<times> full_result) list" where
  "accepted _ [] = []"
| "accepted prev ((ts, v) # adds) = (if prev \<le> ts then (ts, v) # accepted ts adds else accepted prev adds)"

definition add_all :: "(rat \<times> full_result) list \<Rightarrow> history \<Rightarrow> history" where
  "add_all adds h = foldl (\<lambda>h (ts, v). fst (history_add ts v h)) h adds"

lemma add_all_exact:
  assumes "history_ok h"
  shows "history_ok (add_all adds h) \<and> rb_size (add_all adds h) = rb_size h
    \<and> ring_contents (add_all adds h) = newest (rb_size h) (ring_contents h @ accepted (fst (last (ring_contents h))) adds)"
  using assms
proof (induction adds arbitrary: h)
  case Nil
  then show ?case by (simp add: add_all_def history_ok_def ring_ok_def)
next
  case (Cons a adds)
  obtain ts v where a: "a = (ts, v)" by (cases a)
  show ?case
  proof (cases "fst (last (ring_contents h)) \<le> ts")
    case True
    let ?h = "ring_append (ts, v) h"
    have c: "ring_contents ?h = newest (rb_size h) (ring_contents h @ [(ts, v)])" "rb_size ?h = rb_size h" "rb_size h \<noteq> 0"
      using Cons.prems by (auto simp: history_ok_def ring_contents_append ring_append_ok ring_ok_def)
    then have "fst (last (ring_contents ?h)) = ts" by (simp add: last_newest)
    with Cons.IH [OF history_append_ok [OF Cons.prems True, of v]] c Cons.prems True a show ?thesis
      by (simp add: add_all_def history_add_exact)
  next
    case False
    with Cons a show ?thesis by (simp add: add_all_def history_add_exact)
  qed
qed

lemma history_nth:
  assumes "history_ok h" "i < length (ring_contents h)"
  shows "ring_get h (int i) = Inr (ring_contents h ! i)"
  using assms ring_get_nth [of h "int i"] by (simp add: history_ok_def)

lemma bisect_left_exact:
  assumes "history_ok h" "hi \<le> length (ring_contents h)" "lo \<le> hi"
    and "\<forall>i < lo. fst (ring_contents h ! i) < ts"
    and "\<forall>i. hi \<le> i \<and> i < length (ring_contents h) \<longrightarrow> ts < fst (ring_contents h ! i)"
  shows "bisect_left h ts lo hi =
    (if ts \<in> fst ` set (ring_contents h) then Inl TypeError
     else Inr (length (takeWhile (\<lambda>c. fst c < ts) (ring_contents h))))"
  using assms
proof (induction h ts lo hi rule: bisect_left.induct)
  case (1 h ts lo hi)
  let ?cs = "ring_contents h"
  have mono: "i \<le> j \<Longrightarrow> j < length ?cs \<Longrightarrow> fst (?cs ! i) \<le> fst (?cs ! j)" for i j
    using "1.prems"(1) sorted_nth_mono [of "map fst ?cs" i j] by (simp add: history_ok_def)
  show ?case
  proof (cases "lo < hi")
    case False
    then have hi: "hi = lo" using "1.prems" by simp
    have "ts \<notin> fst ` set ?cs"
      using "1.prems"(4,5) hi by (auto simp: in_set_conv_nth) (metis fst_conv not_less order_less_irrefl)
    moreover have "length (takeWhile (\<lambda>c. fst c < ts) ?cs) = lo"
    proof -
      have "\<not> fst (?cs ! lo) < ts" if "lo < length ?cs"
        using "1.prems"(5) hi that by (metis order_refl order_less_asym)
      then have "takeWhile (\<lambda>c. fst c < ts) ?cs = take lo ?cs"
        using "1.prems"(4) by (intro takeWhile_eq_take_P_nth) auto
      then show ?thesis using "1.prems"(2) hi by simp
    qed
    ultimately show ?thesis using False by (simp add: bisect_left.simps [of h ts lo hi])
  next
    case True
    define mid where "mid = (lo + hi) div 2"
    have mid: "lo \<le> mid" "mid < hi" using True by (auto simp: mid_def)
    then have len: "mid < length ?cs" using "1.prems"(2) by linarith
    obtain t v where tv: "?cs ! mid = (t, v)" by (cases "?cs ! mid")
    have get: "ring_get h (int ((lo + hi) div 2)) = Inr (t, v)"
      using history_nth [OF "1.prems"(1) len] tv by (simp add: mid_def)
    have t: "fst (?cs ! mid) = t" using tv by simp
    show ?thesis
    proof (cases t ts rule: linorder_cases)
      case equal
      then have "ts \<in> fst ` set ?cs" using len t by (metis image_eqI nth_mem)
      then show ?thesis using True get equal by (simp add: bisect_left.simps [of h ts lo hi])
    next
      case less
      have "\<forall>i < mid + 1. fst (?cs ! i) < ts"
      proof (intro allI impI)
        fix i assume "i < mid + 1"
        then have "fst (?cs ! i) \<le> t" using mono [OF _ len, of i] t by simp
        then show "fst (?cs ! i) < ts" using less by simp
      qed
      moreover have "mid + 1 \<le> hi" using mid by simp
      ultimately have "bisect_left h ts (mid + 1) hi = (if ts \<in> fst ` set ?cs then Inl TypeError
          else Inr (length (takeWhile (\<lambda>c. fst c < ts) ?cs)))"
        using "1.IH"(1) [OF True get refl] less "1.prems" by (simp add: mid_def)
      then show ?thesis using True get less by (simp add: bisect_left.simps [of h ts lo hi] mid_def)
    next
      case greater
      have "\<forall>i. mid \<le> i \<and> i < length ?cs \<longrightarrow> ts < fst (?cs ! i)"
      proof (intro allI impI)
        fix i assume "mid \<le> i \<and> i < length ?cs"
        then have "t \<le> fst (?cs ! i)" using mono [of mid i] t by simp
        then show "ts < fst (?cs ! i)" using greater by simp
      qed
      moreover have "mid \<le> length ?cs" using len by simp
      ultimately have "bisect_left h ts lo mid = (if ts \<in> fst ` set ?cs then Inl TypeError
          else Inr (length (takeWhile (\<lambda>c. fst c < ts) ?cs)))"
        using "1.IH"(2) [OF True get refl] greater "1.prems" mid by (simp add: mid_def)
      then show ?thesis using True get greater by (simp add: bisect_left.simps [of h ts lo hi] mid_def)
    qed
  qed
qed

text \<open>The sample that a history gives: the first at or after the time, or the newest.\<close>

definition sample_for :: "rat \<Rightarrow> (rat \<times> full_result) list \<Rightarrow> pyexc + rat \<times> full_result" where
  "sample_for ts cs =
     (if ts \<in> fst ` set cs then Inl TypeError
      else case dropWhile (\<lambda>c. fst c < ts) cs of [] \<Rightarrow> Inr (last cs) | c # _ \<Rightarrow> Inr c)"

lemma history_get_exact:
  assumes "history_ok h"
  shows "history_get ts h = sample_for ts (ring_contents h)"
proof -
  let ?cs = "ring_contents h" and ?k = "length (takeWhile (\<lambda>c. fst c < ts) (ring_contents h))"
  have ne: "?cs \<noteq> []" and len: "length (rb_items h) = length ?cs" using assms by (auto simp: history_ok_def ring_ok_def)
  have b: "bisect_left h ts 0 (length (rb_items h)) = (if ts \<in> fst ` set ?cs then Inl TypeError else Inr ?k)"
    using assms len by (intro bisect_left_exact) auto
  show ?thesis
  proof (cases "ts \<in> fst ` set ?cs")
    case True
    then show ?thesis using b by (simp add: history_get_def sample_for_def)
  next
    case False
    then have found: "history_get ts h = ring_get h (min (int ?k) (int (length (rb_items h)) - 1))"
      using b by (simp add: history_get_def)
    show ?thesis
    proof (cases "dropWhile (\<lambda>c. fst c < ts) ?cs")
      case Nil
      then have "?k = length ?cs" by (metis append_Nil2 takeWhile_dropWhile_id)
      then have "min (int ?k) (int (length (rb_items h)) - 1) = int (length ?cs - 1)"
        using ne len by (cases "ring_contents h") auto
      moreover have "ring_get h (int (length ?cs - 1)) = Inr (last ?cs)"
        using history_nth [OF assms, of "length ?cs - 1"] ne by (simp add: last_conv_nth del: ring_contents_length)
      moreover have "sample_for ts ?cs = Inr (last ?cs)"
        unfolding sample_for_def Nil using False by simp
      ultimately show ?thesis using found by (simp only:)
    next
      case (Cons c cs')
      then have split: "?cs = takeWhile (\<lambda>c. fst c < ts) ?cs @ c # cs'" by (metis takeWhile_dropWhile_id)
      have "length ?cs = ?k + Suc (length cs')" by (subst split) simp
      then have lt: "?k < length ?cs" by simp
      have "?cs ! ?k = c" by (subst split) (rule nth_append_length)
      moreover have "min (int ?k) (int (length (rb_items h)) - 1) = int ?k" using lt len by simp
      moreover have "sample_for ts ?cs = Inr c" unfolding sample_for_def Cons using False by simp
      moreover have "ring_get h (int ?k) = Inr (?cs ! ?k)" by (rule history_nth [OF assms lt])
      ultimately show ?thesis using found by (simp only:)
    qed
  qed
qed

text \<open>A time that a sample bears has no answer, and a time between two samples gets the later one, whichever is
  nearer.\<close>

lemma own_time_has_no_sample: "history_ok h \<Longrightarrow> history_get (fst (last (ring_contents h))) h = Inl TypeError"
  by (auto simp: history_get_exact sample_for_def history_ok_def)

text \<open>What a history of \<open>n\<close> samples, made at \<open>t0\<close>, answers after any additions.\<close>

theorem history_lookup:
  assumes "new_history n t0 = Inr h"
  shows "history_get ts (add_all adds h) = sample_for ts (newest n ((t0, [], 0) # accepted t0 adds))"
  using add_all_exact [of h adds] new_history_exact [OF assms] by (simp add: history_get_exact)

lemma history_lookup_witness:
  "\<exists>h. new_history 2 5 = Inr h
     \<and> history_get 8 (add_all [(6, [], 60), (4, [], 40), (9, [], 90)] h) = Inr (9, [], 90)
     \<and> history_get 9 (add_all [(6, [], 60), (4, [], 40), (9, [], 90)] h) = Inl TypeError
     \<and> history_get 1 (add_all [(6, [], 60), (4, [], 40), (9, [], 90)] h) = Inr (6, [], 60)"
proof -
  obtain h where h: "new_history 2 5 = Inr h" by (simp add: new_history_def new_ring_def)
  show ?thesis
    by (intro exI [of _ h] conjI h) (simp_all add: history_lookup [OF h] newest_def sample_for_def)
qed

section \<open>A disk thread that raises is never replaced\<close>

datatype disk_op = Ask_value | Ask_sample

fun disk_run :: "disk_collector \<Rightarrow> disk_op \<Rightarrow> disk_collector" where
  "disk_run c Ask_value = snd (disk_value c)"
| "disk_run c Ask_sample = disk_sample c"

lemma disk_stuck:
  assumes "dc_thread c = Some Measuring"
  shows "foldl disk_run c calls = c"
proof (induction calls)
  case (Cons a calls)
  then show ?case using assms by (cases a) (simp_all add: disk_value_def disk_sample_def)
qed simp

text \<open>A measurement that ends is what the next value is, and the one after it.\<close>

lemma disk_measured:
  assumes "dc_thread c = None"
  shows "fst (disk_value (disk_done v (disk_sample c))) = v"
    and "fst (disk_value (snd (disk_value (disk_done v (disk_sample c))))) = v"
  using assms by (simp_all add: disk_value_def disk_sample_def disk_done_def)

section \<open>The collectors of a task\<close>

lemma collect_tree_pid [simp]: "tc_pid (collect_tree table now c) = tc_pid c"
  by (simp add: collect_tree_def Let_def split: option.split prod.split)

lemma follow_names: "fst ` set (follow_processes actives cs) = fst ` set actives"
proof -
  have "fst ` set (follow_processes actives cs)
      = {n \<in> fst ` set cs. n \<in> fst ` set actives} \<union> {n \<in> fst ` set actives. n \<notin> fst ` set cs}"
    unfolding follow_processes_def Let_def set_append image_Un by (intro arg_cong2 [of _ _ _ _ "(\<union>)"]) force+
  then show ?thesis by blast
qed

lemma map_of_map_snd: "map_of (map (\<lambda>(n, c). (n, f c)) xs) n = map_option f (map_of xs n)"
  by (induction xs) auto

lemma collect_names: "fst ` set (collect_processes table now actives cs) = fst ` set actives"
proof -
  have "fst ` set (collect_processes table now actives cs) = fst ` set (follow_processes actives cs)"
    unfolding collect_processes_def set_map image_image by (intro image_cong) auto
  then show ?thesis by (simp add: follow_names)
qed

lemma map_of_filter_keep: "n \<in> A \<Longrightarrow> map_of [(n, c) \<leftarrow> xs. n \<in> A] n = map_of xs n"
  by (induction xs) auto

lemma collect_keeps:
  assumes "map_of cs n = Some c" "n \<in> fst ` set actives"
  shows "map_of (collect_processes table now actives cs) n = Some (collect_tree table now c)"
  using assms by (simp add: collect_processes_def map_of_map_snd follow_processes_def Let_def map_add_def
      map_of_filter_keep split: option.split)

text \<open>A process that restarts under its name is never followed: its collector keeps the pid of the first run.\<close>

lemma restarted_process_unfollowed:
  assumes "map_of cs n = Some c" "\<forall>(now, actives, table) \<in> set rounds. n \<in> fst ` set actives"
  shows "\<exists>c'. map_of (foldl (\<lambda>cs (now, actives, table). collect_processes table now actives cs) cs rounds) n = Some c'
    \<and> tc_pid c' = tc_pid c"
  using assms
proof (induction rounds arbitrary: cs c)
  case Nil
  then show ?case by simp
next
  case (Cons r rounds)
  obtain now actives table where r: "r = (now, actives, table)" by (cases r)
  have "map_of (collect_processes table now actives cs) n = Some (collect_tree table now c)"
    using Cons.prems r by (intro collect_keeps) auto
  from Cons.IH [OF this] Cons.prems r show ?case by simp
qed

lemma gone_process_reports_nothing:
  "table (tc_pid c) = None \<Longrightarrow> collector_value (collect_tree table now c) = empty_sample"
  by (simp add: collect_tree_def collector_value_def empty_sample_def)

section \<open>Rounds keep the history\<close>

lemma round_history:
  "rm_history (monitor_round ip id0 now actives table known m)
     = fst (history_add now
         (map (\<lambda>(n, c). (n, collector_value c, collector_procs c)) (rm_collectors (monitor_round ip id0 now actives table known m)),
          (case rm_disk (monitor_round ip id0 now actives table known m) of None \<Rightarrow> 0 | Some d \<Rightarrow> dc_value d))
         (rm_history m))"
  by (auto simp: monitor_round_def Let_def disk_value_def disk_sample_def split: prod.split option.split disk_thread.split)

end
