(* ===== verification/Urls.thy ===== *)
theory Urls
  imports Scheduler
begin

text \<open>
  What the code uses of \<^verbatim>\<open>urllib.parse\<close> and of the methods of strings: the scheme, the network location and
  the host of a URL, prefixes, and lower case in ASCII.
\<close>

section \<open>Strings\<close>

definition lower_char :: "char \<Rightarrow> char" where
  "lower_char c = (if 65 \<le> (of_char c :: nat) \<and> (of_char c :: nat) \<le> 90 then char_of ((of_char c :: nat) + 32) else c)"

definition lowercase :: "string \<Rightarrow> string" where
  "lowercase s = map lower_char s"

definition begins :: "string \<Rightarrow> string \<Rightarrow> bool" where
  "begins s p = (take (length p) s = p)"

definition rstrip_slash :: "string \<Rightarrow> string" where
  "rstrip_slash s = rev (dropWhile (\<lambda>c. c = CHR ''/'') (rev s))"

text \<open>\<^verbatim>\<open>partition\<close> and \<^verbatim>\<open>rpartition\<close> at a character: what is before it, whether it is there, what is after.\<close>

definition partition_at :: "char \<Rightarrow> string \<Rightarrow> string \<times> bool \<times> string" where
  "partition_at c s = (takeWhile (\<lambda>x. x \<noteq> c) s, c \<in> set s, tl (dropWhile (\<lambda>x. x \<noteq> c) s))"

definition after_last :: "char \<Rightarrow> string \<Rightarrow> string" where
  "after_last c s = rev (takeWhile (\<lambda>x. x \<noteq> c) (rev s))"

section \<open>The parts of a URL\<close>

definition scheme_char :: "char \<Rightarrow> bool" where
  "scheme_char c = (let n = (of_char c :: nat) in
     (97 \<le> n \<and> n \<le> 122) \<or> (65 \<le> n \<and> n \<le> 90) \<or> (48 \<le> n \<and> n \<le> 57) \<or> c = CHR ''+'' \<or> c = CHR ''-'' \<or> c = CHR ''.'')"

definition split_scheme :: "string \<Rightarrow> string \<times> string" where
  "split_scheme url =
     (case partition_at (CHR '':'') url of (s, found, rest) \<Rightarrow>
        if found \<and> s \<noteq> [] \<and> list_all scheme_char s then (lowercase s, rest) else ([], url))"

text \<open>The location ends at the path, the query or the fragment.  Unbalanced brackets are a \<open>ValueError\<close>.\<close>

definition netloc_of :: "string \<Rightarrow> string" where
  "netloc_of rest =
     (if begins rest ''//'' then takeWhile (\<lambda>c. c \<noteq> CHR ''/'' \<and> c \<noteq> CHR ''?'' \<and> c \<noteq> CHR ''#'') (drop 2 rest) else [])"

definition urlparse :: "string \<Rightarrow> pyexc + string \<times> string" where
  "urlparse url =
     (case split_scheme url of (scheme, rest) \<Rightarrow>
        let netloc = netloc_of rest in
        if (CHR ''['' \<in> set netloc) \<noteq> (CHR '']'' \<in> set netloc) then Inl ValueError else Inr (scheme, netloc))"

definition hostname_of :: "string \<Rightarrow> string option" where
  "hostname_of netloc =
     (let info = after_last (CHR ''@'') netloc;
          host = (case partition_at (CHR ''['') info of (_, bracket, inside) \<Rightarrow>
            if bracket then fst (partition_at (CHR '']'') inside) else fst (partition_at (CHR '':'') info))
      in if host = [] then None
         else case partition_at (CHR ''%'') host of (h, percent, zone) \<Rightarrow>
           Some (lowercase h @ (if percent then ''%'' else []) @ zone))"

section \<open>Facts\<close>

lemma begins_append [simp]: "begins (p @ s) p"
  by (simp add: begins_def)

lemma begins_iff: "begins s p \<longleftrightarrow> (\<exists>r. s = p @ r)"
  by (metis append_eq_conv_conj append_take_drop_id begins_def)

lemma urlparse_scheme:
  assumes "s \<noteq> []" "list_all scheme_char s" "CHR '':'' \<notin> set s" "urlparse (s @ '':'' @ rest) = Inr (scheme, netloc)"
  shows "scheme = lowercase s"
proof -
  have "takeWhile (\<lambda>x. x \<noteq> CHR '':'') (s @ '':'' @ rest) = s"
    using assms(3) by (subst takeWhile_append2) auto
  then show ?thesis using assms
    by (auto simp: urlparse_def split_scheme_def partition_at_def Let_def split: if_splits)
qed

end
