(* ===== verification/ObserverAuth.thy ===== *)
theory ObserverAuth
  imports Urls
begin

text \<open>
  Authentication in front of the observer's pages, \<^verbatim>\<open>apache/thermos/observer/http/http_observer.py\<close>: HTTP
  Basic against a store of hashes, OpenID Connect bearer tokens together with the header of a trusted
  proxy, and both.  The store (Redis), the two expiring caches, the provider and the hash are arguments;
  a request is answered or refused with status 401.
\<close>

section \<open>URLs of the provider\<close>

definition is_allowed_oidc_url :: "string \<Rightarrow> bool" where
  "is_allowed_oidc_url url =
     (case urlparse url of
        Inl _ \<Rightarrow> False
      | Inr (scheme, netloc) \<Rightarrow>
          scheme = ''https'' \<or>
          (scheme = ''http'' \<and> hostname_of netloc \<in> {Some ''localhost'', Some ''127.0.0.1'', Some ''::1''}))"

section \<open>Requests\<close>

text \<open>A request: its Authorization header, empty if it has none; what bottle makes of Basic credentials; and its
  other headers.\<close>

record http_request =
  rq_authorization :: string
  rq_basic :: "(string option \<times> string option) option"
  rq_headers :: "string \<Rightarrow> string option"

text \<open>The answer to a request: the page behind the plugin, or a refusal.\<close>

datatype page = Granted | Unauthorized

definition basic_credentials :: "http_request \<Rightarrow> string option \<times> string option" where
  "basic_credentials rq = (case rq_basic rq of None \<Rightarrow> (None, None) | Some up \<Rightarrow> up)"

section \<open>HTTP Basic\<close>

text \<open>\<open>Store_failed\<close> is any exception of the store.\<close>

datatype store_answer = Store_failed | Store_value "string option"

definition get_user :: "(string \<Rightarrow> string option) \<Rightarrow> (string \<Rightarrow> store_answer) \<Rightarrow> string \<Rightarrow> string \<Rightarrow> string option" where
  "get_user cache redis prefix user =
     (case cache user of
        Some v \<Rightarrow> Some v
      | None \<Rightarrow> (case redis (prefix @ user) of Store_failed \<Rightarrow> None | Store_value v \<Rightarrow> v))"

definition hashed :: "(string \<Rightarrow> string) \<Rightarrow> string \<Rightarrow> string \<Rightarrow> string" where
  "hashed sha user password = ''sha256:'' @ sha (user @ '':'' @ password)"

text \<open>The check of both plugins: whether the credentials are good, and what is then put in the cache.\<close>

definition check_basic :: "(string \<Rightarrow> string) \<Rightarrow> (string \<Rightarrow> string option) \<Rightarrow> (string \<Rightarrow> store_answer) \<Rightarrow> string
    \<Rightarrow> string \<Rightarrow> string \<Rightarrow> bool \<times> (string \<times> string) option" where
  "check_basic sha cache redis prefix user password =
     (if get_user cache redis prefix user = Some (hashed sha user password)
      then (True, Some (user, hashed sha user password)) else (False, None))"

definition basic_plugin :: "(string \<Rightarrow> string) \<Rightarrow> (string \<Rightarrow> string option) \<Rightarrow> (string \<Rightarrow> store_answer) \<Rightarrow> string
    \<Rightarrow> http_request \<Rightarrow> page \<times> (string \<times> string) option" where
  "basic_plugin sha cache redis prefix rq =
     (case basic_credentials rq of
        (Some user, Some password) \<Rightarrow>
          (case check_basic sha cache redis prefix user password of
             (True, w) \<Rightarrow> (Granted, w)
           | (False, w) \<Rightarrow> (Unauthorized, w))
      | _ \<Rightarrow> (Unauthorized, None))"

section \<open>OpenID Connect\<close>

record oidc =
  oi_userinfo_url :: "string option"
  oi_header_alone :: bool

datatype flag_option = Flag_bool bool | Flag_text string | Flag_other

definition header_alone :: "flag_option \<Rightarrow> bool" where
  "header_alone f =
     (case f of
        Flag_bool b \<Rightarrow> b
      | Flag_text s \<Rightarrow> lowercase (strip s) \<in> {''1'', ''true'', ''yes'', ''on''}
      | Flag_other \<Rightarrow> False)"

text \<open>What a request to the provider gives.  A user's claims are the fields of the answer, \<open>None\<close> for a value
  that is not a string.\<close>

type_synonym claims = "(string \<times> string option) list"

datatype body = Not_json | Not_object | Object claims
datatype provider_answer = Provider_failed | Provider_status int body

definition set_url :: "string option \<Rightarrow> string option" where
  "set_url u = (case u of Some (c # cs) \<Rightarrow> Some (c # cs) | _ \<Rightarrow> None)"

text \<open>\<^verbatim>\<open>setup\<close>: the URL given, or the one the issuer announces.  \<open>discovery\<close> is the answer at a URL; its
  document may name a URL for the user's claims.\<close>

definition oidc_setup :: "string option \<Rightarrow> string option \<Rightarrow> (string \<Rightarrow> provider_answer) \<Rightarrow> string option" where
  "oidc_setup userinfo_url issuer discovery =
     (case set_url userinfo_url of
        Some u \<Rightarrow> if is_allowed_oidc_url u then Some u else None
      | None \<Rightarrow>
          (case set_url issuer of
             None \<Rightarrow> None
           | Some i \<Rightarrow>
               if \<not> is_allowed_oidc_url i then None
               else case discovery (rstrip_slash i @ ''/.well-known/openid-configuration'') of
                 Provider_status s (Object doc) \<Rightarrow>
                   if s \<noteq> 200 then None
                   else (case set_url (Option.bind (map_of doc ''userinfo_endpoint'') id) of
                           Some u \<Rightarrow> if is_allowed_oidc_url u then Some u else None
                         | None \<Rightarrow> None)
               | _ \<Rightarrow> None))"

definition make_oidc :: "string option \<Rightarrow> string option \<Rightarrow> flag_option \<Rightarrow> (string \<Rightarrow> provider_answer) \<Rightarrow> oidc" where
  "make_oidc userinfo_url issuer flag discovery =
     \<lparr>oi_userinfo_url = oidc_setup userinfo_url issuer discovery, oi_header_alone = header_alone flag\<rparr>"

text \<open>\<^verbatim>\<open>_validate_token\<close>: the claims of a token, and what is put in the cache for it.  A cached \<^verbatim>\<open>False\<close>,
  here \<open>Some None\<close>, is a token that was refused.\<close>

definition validate_token :: "oidc \<Rightarrow> (string \<Rightarrow> claims option option) \<Rightarrow> (string \<Rightarrow> string \<Rightarrow> provider_answer) \<Rightarrow> string
    \<Rightarrow> claims option \<times> claims option option" where
  "validate_token oi cache provider token =
     (case cache token of
        Some c \<Rightarrow> (c, None)
      | None \<Rightarrow>
          (case oi_userinfo_url oi of
             None \<Rightarrow> (None, None)
           | Some url \<Rightarrow>
               (case provider url token of
                  Provider_failed \<Rightarrow> (None, None)
                | Provider_status s b \<Rightarrow>
                    if s \<noteq> 200 then (None, Some None)
                    else case b of Object c \<Rightarrow> (Some c, Some (Some c)) | _ \<Rightarrow> (None, Some None))))"

definition normalize_user :: "string option \<Rightarrow> string option" where
  "normalize_user v =
     (case v of
        None \<Rightarrow> None
      | Some s \<Rightarrow> let n = lowercase (strip s) in if n = [] then None else Some n)"

fun first_user :: "string option list \<Rightarrow> string option" where
  "first_user [] = None"
| "first_user (Some u # us) = Some u"
| "first_user (None # us) = first_user us"

definition trusted_headers :: "string list" where
  "trusted_headers = [''X-Forwarded-User'', ''X-Auth-Request-User'']"

definition trusted_user :: "http_request \<Rightarrow> string option" where
  "trusted_user rq = first_user (map (\<lambda>h. normalize_user (rq_headers rq h)) trusted_headers)"

definition claim_keys :: "string list" where
  "claim_keys = [''email'', ''preferred_username'', ''username'', ''upn'', ''sub'']"

definition userinfo_candidates :: "claims \<Rightarrow> string list" where
  "userinfo_candidates c = List.map_filter (\<lambda>k. normalize_user (Option.bind (map_of c k) id)) claim_keys"

definition authenticate_trusted_header_only :: "http_request \<Rightarrow> bool" where
  "authenticate_trusted_header_only rq = (trusted_user rq \<noteq> None)"

definition is_bearer :: "http_request \<Rightarrow> bool" where
  "is_bearer rq = begins (rq_authorization rq) ''Bearer ''"

definition authenticate_bearer :: "oidc \<Rightarrow> (string \<Rightarrow> claims option option) \<Rightarrow> (string \<Rightarrow> string \<Rightarrow> provider_answer)
    \<Rightarrow> http_request \<Rightarrow> bool" where
  "authenticate_bearer oi cache provider rq =
     (if \<not> is_bearer rq then False
      else case trusted_user rq of
        None \<Rightarrow> False
      | Some u \<Rightarrow>
          (case fst (validate_token oi cache provider (drop 7 (rq_authorization rq))) of
             None \<Rightarrow> False
           | Some c \<Rightarrow> u \<in> set (userinfo_candidates c)))"

definition oidc_plugin :: "oidc \<Rightarrow> (string \<Rightarrow> claims option option) \<Rightarrow> (string \<Rightarrow> string \<Rightarrow> provider_answer)
    \<Rightarrow> http_request \<Rightarrow> page" where
  "oidc_plugin oi cache provider rq =
     (if rq_authorization rq = [] then
        (if oi_header_alone oi \<and> authenticate_trusted_header_only rq then Granted else Unauthorized)
      else if \<not> is_bearer rq then Unauthorized
      else if authenticate_bearer oi cache provider rq then Granted else Unauthorized)"

section \<open>Both\<close>

definition combined_plugin :: "oidc \<Rightarrow> (string \<Rightarrow> claims option option) \<Rightarrow> (string \<Rightarrow> string \<Rightarrow> provider_answer)
    \<Rightarrow> (string \<Rightarrow> string) \<Rightarrow> (string \<Rightarrow> string option) \<Rightarrow> (string \<Rightarrow> store_answer) \<Rightarrow> string
    \<Rightarrow> http_request \<Rightarrow> page \<times> (string \<times> string) option" where
  "combined_plugin oi tokens provider sha cache redis prefix rq =
     (if is_bearer rq \<and> authenticate_bearer oi tokens provider rq then (Granted, None)
      else if \<not> is_bearer rq \<and> oi_header_alone oi \<and> authenticate_trusted_header_only rq then (Granted, None)
      else case basic_credentials rq of
        (Some user, Some password) \<Rightarrow>
          if user \<noteq> [] \<and> password \<noteq> [] then
            (case check_basic sha cache redis prefix user password of
               (True, w) \<Rightarrow> (Granted, w)
             | (False, w) \<Rightarrow> (Unauthorized, w))
          else (Unauthorized, None)
      | _ \<Rightarrow> (Unauthorized, None))"

section \<open>Which plugin is installed\<close>

datatype auth_plugin = No_plugin | Basic_plugin | Oidc_plugin | Combined_plugin

definition authenticate_everything :: "string option \<Rightarrow> auth_plugin" where
  "authenticate_everything mode =
     (let m = lowercase (case mode of None \<Rightarrow> [] | Some s \<Rightarrow> s) in
      if m = ''basic'' then Basic_plugin
      else if m = ''oidc'' then Oidc_plugin
      else if m = ''oidc+basic'' then Combined_plugin
      else No_plugin)"

text \<open>What stands between the services and the observer.\<close>

record auth_services =
  as_oidc :: oidc
  as_tokens :: "string \<Rightarrow> claims option option"
  as_provider :: "string \<Rightarrow> string \<Rightarrow> provider_answer"
  as_cache :: "string \<Rightarrow> string option"
  as_redis :: "string \<Rightarrow> store_answer"
  as_prefix :: string

definition answer_request :: "(string \<Rightarrow> string) \<Rightarrow> auth_services \<Rightarrow> auth_plugin \<Rightarrow> http_request \<Rightarrow> page" where
  "answer_request sha sv plugin rq =
     (case plugin of
        No_plugin \<Rightarrow> Granted
      | Basic_plugin \<Rightarrow> fst (basic_plugin sha (as_cache sv) (as_redis sv) (as_prefix sv) rq)
      | Oidc_plugin \<Rightarrow> oidc_plugin (as_oidc sv) (as_tokens sv) (as_provider sv) rq
      | Combined_plugin \<Rightarrow> fst (combined_plugin (as_oidc sv) (as_tokens sv) (as_provider sv) sha (as_cache sv) (as_redis sv) (as_prefix sv) rq))"

section \<open>Who is let in\<close>

text \<open>The three ways in, told by what the services know.\<close>

definition knows_password :: "(string \<Rightarrow> string) \<Rightarrow> auth_services \<Rightarrow> http_request \<Rightarrow> bool" where
  "knows_password sha sv rq = (\<exists>u p. rq_basic rq = Some (Some u, Some p) \<and>
     (as_cache sv u = Some (''sha256:'' @ sha (u @ '':'' @ p)) \<or>
      as_cache sv u = None \<and> as_redis sv (as_prefix sv @ u) = Store_value (Some (''sha256:'' @ sha (u @ '':'' @ p)))))"

definition has_token :: "auth_services \<Rightarrow> http_request \<Rightarrow> bool" where
  "has_token sv rq = (\<exists>token u c k v. rq_authorization rq = ''Bearer '' @ token \<and> trusted_user rq = Some u
     \<and> k \<in> set claim_keys \<and> map_of c k = Some (Some v) \<and> lowercase (strip v) = u
     \<and> (as_tokens sv token = Some (Some c) \<or>
        as_tokens sv token = None \<and> (\<exists>url. oi_userinfo_url (as_oidc sv) = Some url
          \<and> as_provider sv url token = Provider_status 200 (Object c))))"

definition has_header :: "auth_services \<Rightarrow> http_request \<Rightarrow> bool" where
  "has_header sv rq = (oi_header_alone (as_oidc sv) \<and> \<not> is_bearer rq
     \<and> (\<exists>h \<in> {''X-Forwarded-User'', ''X-Auth-Request-User''}. \<exists>v. rq_headers rq h = Some v \<and> strip v \<noteq> []))"

lemma check_basic_granted:
  "fst (check_basic sha (as_cache sv) (as_redis sv) (as_prefix sv) u p) \<longleftrightarrow>
     (as_cache sv u = Some (''sha256:'' @ sha (u @ '':'' @ p)) \<or>
      as_cache sv u = None \<and> as_redis sv (as_prefix sv @ u) = Store_value (Some (''sha256:'' @ sha (u @ '':'' @ p))))"
  by (auto simp: check_basic_def get_user_def hashed_def split: option.splits store_answer.splits)

lemma basic_plugin_granted:
  "fst (basic_plugin sha (as_cache sv) (as_redis sv) (as_prefix sv) rq) = Granted \<longleftrightarrow> knows_password sha sv rq"
proof -
  have "fst (basic_plugin sha (as_cache sv) (as_redis sv) (as_prefix sv) rq) = Granted \<longleftrightarrow>
      (\<exists>u p. rq_basic rq = Some (Some u, Some p) \<and> fst (check_basic sha (as_cache sv) (as_redis sv) (as_prefix sv) u p))"
    by (auto simp: basic_plugin_def basic_credentials_def split: option.splits prod.splits bool.splits)
  then show ?thesis by (simp add: check_basic_granted knows_password_def)
qed

lemma lowercase_nil: "lowercase s = [] \<longleftrightarrow> s = []"
  by (simp add: lowercase_def)

lemma first_user_in: "first_user us = Some u \<Longrightarrow> Some u \<in> set us"
  by (induction us rule: first_user.induct) auto

lemma first_user_none: "first_user us = None \<longleftrightarrow> set us \<subseteq> {None}"
  by (induction us rule: first_user.induct) auto

lemma normalize_user_some: "normalize_user v = Some n \<longleftrightarrow> (\<exists>s. v = Some s \<and> n = lowercase (strip s) \<and> strip s \<noteq> [])"
  by (auto simp: normalize_user_def Let_def lowercase_def split: option.splits)

lemma trusted_user_iff:
  "trusted_user rq \<noteq> None \<longleftrightarrow> (\<exists>h \<in> {''X-Forwarded-User'', ''X-Auth-Request-User''}. \<exists>v. rq_headers rq h = Some v \<and> strip v \<noteq> [])"
proof -
  have "trusted_user rq \<noteq> None \<longleftrightarrow> (\<exists>h \<in> set trusted_headers. normalize_user (rq_headers rq h) \<noteq> None)"
    unfolding trusted_user_def first_user_none by auto
  then show ?thesis unfolding trusted_headers_def by (auto simp: normalize_user_some)
qed

lemma trusted_user_nonempty: "trusted_user rq = Some u \<Longrightarrow> u \<noteq> []"
proof -
  assume "trusted_user rq = Some u"
  then obtain h where "normalize_user (rq_headers rq h) = Some u"
    unfolding trusted_user_def by (force dest: first_user_in)
  then show "u \<noteq> []" by (auto simp: normalize_user_some lowercase_nil)
qed

lemma candidate_iff:
  "u \<in> set (userinfo_candidates c) \<longleftrightarrow>
     (\<exists>k \<in> set claim_keys. \<exists>v. map_of c k = Some (Some v) \<and> lowercase (strip v) = u \<and> strip v \<noteq> [])"
proof -
  have "u \<in> set (userinfo_candidates c) \<longleftrightarrow>
      (\<exists>k \<in> set claim_keys. normalize_user (Option.bind (map_of c k) id) = Some u)"
    unfolding userinfo_candidates_def map_filter_def by (force simp: image_iff)
  moreover have "normalize_user (Option.bind x id) = Some u \<longleftrightarrow>
      (\<exists>v. x = Some (Some v) \<and> lowercase (strip v) = u \<and> strip v \<noteq> [])" for x
    by (cases x) (auto simp: normalize_user_some)
  ultimately show ?thesis by simp
qed

lemma validate_token_claims:
  "fst (validate_token oi cache provider token) = Some c \<longleftrightarrow>
     (cache token = Some (Some c) \<or>
      cache token = None \<and> (\<exists>url. oi_userinfo_url oi = Some url \<and> provider url token = Provider_status 200 (Object c)))"
  by (auto simp: validate_token_def split: option.splits provider_answer.splits body.splits)

lemma bearer_granted:
  "authenticate_bearer (as_oidc sv) (as_tokens sv) (as_provider sv) rq \<longleftrightarrow> has_token sv rq"
proof -
  have "authenticate_bearer (as_oidc sv) (as_tokens sv) (as_provider sv) rq \<longleftrightarrow>
     (\<exists>token u c. rq_authorization rq = ''Bearer '' @ token \<and> trusted_user rq = Some u
        \<and> fst (validate_token (as_oidc sv) (as_tokens sv) (as_provider sv) token) = Some c \<and> u \<in> set (userinfo_candidates c))"
    by (auto simp: authenticate_bearer_def is_bearer_def begins_iff split: option.splits)
  also have "\<dots> \<longleftrightarrow> has_token sv rq"
  proof
    assume "has_token sv rq"
    then obtain token u c k v where t: "rq_authorization rq = ''Bearer '' @ token" "trusted_user rq = Some u"
      "k \<in> set claim_keys" "map_of c k = Some (Some v)" "lowercase (strip v) = u"
      "fst (validate_token (as_oidc sv) (as_tokens sv) (as_provider sv) token) = Some c"
      unfolding has_token_def validate_token_claims by blast
    then have "strip v \<noteq> []" using trusted_user_nonempty [OF t(2)] by (auto simp: lowercase_nil)
    with t show "\<exists>token u c. rq_authorization rq = ''Bearer '' @ token \<and> trusted_user rq = Some u
        \<and> fst (validate_token (as_oidc sv) (as_tokens sv) (as_provider sv) token) = Some c \<and> u \<in> set (userinfo_candidates c)"
      unfolding candidate_iff by blast
  next
    assume "\<exists>token u c. rq_authorization rq = ''Bearer '' @ token \<and> trusted_user rq = Some u
        \<and> fst (validate_token (as_oidc sv) (as_tokens sv) (as_provider sv) token) = Some c \<and> u \<in> set (userinfo_candidates c)"
    then show "has_token sv rq" unfolding has_token_def validate_token_claims candidate_iff by blast
  qed
  finally show ?thesis .
qed

lemma combined_plugin_granted:
  "fst (combined_plugin (as_oidc sv) (as_tokens sv) (as_provider sv) sha (as_cache sv) (as_redis sv) (as_prefix sv) rq) = Granted
   \<longleftrightarrow> has_token sv rq \<or> has_header sv rq
      \<or> (knows_password sha sv rq \<and> (\<exists>u p. rq_basic rq = Some (Some u, Some p) \<and> u \<noteq> [] \<and> p \<noteq> []))"
proof -
  have t: "has_token sv rq \<Longrightarrow> is_bearer rq" by (auto simp: has_token_def is_bearer_def begins_def)
  have h: "has_header sv rq \<longleftrightarrow> \<not> is_bearer rq \<and> oi_header_alone (as_oidc sv) \<and> authenticate_trusted_header_only rq"
    unfolding has_header_def authenticate_trusted_header_only_def trusted_user_iff by blast
  have p: "knows_password sha sv rq \<longleftrightarrow> (\<exists>u p. rq_basic rq = Some (Some u, Some p) \<and>
      fst (check_basic sha (as_cache sv) (as_redis sv) (as_prefix sv) u p))"
    by (simp add: knows_password_def check_basic_granted)
  show ?thesis unfolding p combined_plugin_def bearer_granted h [symmetric]
    using t h by (auto simp: basic_credentials_def split: option.splits prod.splits bool.splits)
qed

text \<open>C33: With a plugin installed a request is let in exactly when its password hashes to what the cache or the
  store has for the user, its token is one whose claims name the user of the proxy's header, or, if that is
  allowed, the header is there without a token; the plugins differ in which of the three they try.\<close>

theorem let_in_exact:
  "answer_request sha sv plugin rq = Granted \<longleftrightarrow>
     (case plugin of
        No_plugin \<Rightarrow> True
      | Basic_plugin \<Rightarrow> knows_password sha sv rq
      | Oidc_plugin \<Rightarrow> has_token sv rq \<or> (has_header sv rq \<and> rq_authorization rq = [])
      | Combined_plugin \<Rightarrow> has_token sv rq \<or> has_header sv rq
          \<or> (knows_password sha sv rq \<and> (\<exists>u p. rq_basic rq = Some (Some u, Some p) \<and> u \<noteq> [] \<and> p \<noteq> [])))"
proof (cases plugin)
  case Oidc_plugin
  have t: "has_token sv rq \<Longrightarrow> is_bearer rq \<and> rq_authorization rq \<noteq> []" by (auto simp: has_token_def is_bearer_def begins_def)
  have h: "has_header sv rq \<longleftrightarrow> \<not> is_bearer rq \<and> oi_header_alone (as_oidc sv) \<and> authenticate_trusted_header_only rq"
    unfolding has_header_def authenticate_trusted_header_only_def trusted_user_iff by blast
  have e: "rq_authorization rq = [] \<Longrightarrow> \<not> is_bearer rq" by (simp add: is_bearer_def begins_def)
  show ?thesis using Oidc_plugin t h e by (auto simp: answer_request_def oidc_plugin_def bearer_granted)
qed (simp_all add: answer_request_def basic_plugin_granted combined_plugin_granted)

text \<open>Tokens are only sent to a URL with TLS, or to this very host.\<close>

lemma userinfo_url_allowed:
  "oi_userinfo_url (make_oidc u i f d) = Some url \<Longrightarrow> is_allowed_oidc_url url"
  by (auto simp: make_oidc_def oidc_setup_def split: option.splits if_splits provider_answer.splits body.splits)

text \<open>A mode that is not one of the three installs nothing, and everything is served.\<close>

lemma unknown_mode_serves_all:
  "answer_request sha sv (authenticate_everything (Some ''basic+oidc'')) rq = Granted"
  by (simp add: authenticate_everything_def lowercase_def lower_char_def answer_request_def)

section \<open>Passwords that were revoked\<close>

text \<open>The cache of passwords, which keeps what is put into it for \<open>ttl\<close>: \<open>cget c t k\<close> looks \<open>k\<close> up at the time
  \<open>t\<close>, \<open>cput c t k v\<close> puts it.  A run of requests at given times, with what the store answers at each.\<close>

fun serve :: "('c \<Rightarrow> rat \<Rightarrow> string \<Rightarrow> string option) \<Rightarrow> ('c \<Rightarrow> rat \<Rightarrow> string \<Rightarrow> string \<Rightarrow> 'c) \<Rightarrow> (string \<Rightarrow> string) \<Rightarrow> string
    \<Rightarrow> 'c \<Rightarrow> (rat \<times> (string \<Rightarrow> store_answer) \<times> http_request) list \<Rightarrow> page list" where
  "serve cget cput sha prefix c [] = []"
| "serve cget cput sha prefix c ((t, redis, rq) # rest) =
     (case basic_plugin sha (cget c t) redis prefix rq of
        (pg, w) \<Rightarrow> pg # serve cget cput sha prefix (case w of None \<Rightarrow> c | Some (k, v) \<Rightarrow> cput c t k v) rest)"

fun close_together :: "rat \<Rightarrow> rat \<Rightarrow> rat list \<Rightarrow> bool" where
  "close_together ttl t [] = True"
| "close_together ttl t (t' # ts) = (t \<le> t' \<and> t' - t < ttl \<and> close_together ttl t' ts)"

text \<open>A user once let in stays in, whatever the store says later, while no two requests are \<open>ttl\<close> apart:
  every acceptance renews the entry of the cache.\<close>

theorem revoked_password_stays:
  assumes keeps: "\<forall>c t t' k v. t \<le> t' \<and> t' - t < ttl \<longrightarrow> cget (cput c t k v) t' k = Some v"
    and rq: "rq_basic rq = Some (Some u, Some p)"
    and times: "close_together ttl t (map fst visits)"
  shows "serve cget cput sha prefix (cput c t u (hashed sha u p)) (map (\<lambda>(t, redis). (t, redis, rq)) visits)
    = replicate (length visits) Granted"
  using times
proof (induction visits arbitrary: c t)
  case Nil
  then show ?case by simp
next
  case (Cons v visits)
  obtain t' redis where v: "v = (t', redis)" by (cases v)
  have "cget (cput c t u (hashed sha u p)) t' u = Some (hashed sha u p)" using keeps Cons.prems v by auto
  then have "basic_plugin sha (cget (cput c t u (hashed sha u p)) t') redis prefix rq = (Granted, Some (u, hashed sha u p))"
    by (simp add: basic_plugin_def basic_credentials_def rq check_basic_def get_user_def)
  then show ?case using Cons v by simp
qed

lemma revoked_password_stays_witness:
  "serve (\<lambda>c t k. case c k of None \<Rightarrow> None | Some (t0, v) \<Rightarrow> if t - t0 < 1800 then Some v else None)
     (\<lambda>c t k v. c(k \<mapsto> (t, v))) rev ''/u/''
     ((\<lambda>_. None)(''ann'' \<mapsto> (0, hashed rev ''ann'' ''pw'')))
     [(1000, \<lambda>_. Store_value None, \<lparr>rq_authorization = ''Basic YW5uOnB3'', rq_basic = Some (Some ''ann'', Some ''pw''), rq_headers = \<lambda>_. None\<rparr>),
      (2500, \<lambda>_. Store_value None, \<lparr>rq_authorization = ''Basic YW5uOnB3'', rq_basic = Some (Some ''ann'', Some ''pw''), rq_headers = \<lambda>_. None\<rparr>)]
   = [Granted, Granted]"
proof -
  let ?rq = "\<lparr>rq_authorization = ''Basic YW5uOnB3'', rq_basic = Some (Some ''ann'', Some ''pw''), rq_headers = \<lambda>_. None\<rparr> :: http_request"
  have "serve (\<lambda>c t k. case c k of None \<Rightarrow> None | Some (t0, v) \<Rightarrow> if t - t0 < 1800 then Some v else None)
     (\<lambda>c t k v. c(k \<mapsto> (t, v))) rev ''/u/'' ((\<lambda>_. None)(''ann'' \<mapsto> (0, hashed rev ''ann'' ''pw'')))
     (map (\<lambda>(t, redis). (t, redis, ?rq)) [(1000, \<lambda>_. Store_value None), (2500, \<lambda>_. Store_value None)])
     = replicate (length [(1000 :: rat, \<lambda>_ :: string. Store_value None), (2500, \<lambda>_. Store_value None)]) Granted"
    by (rule revoked_password_stays [where ttl = 1800 and u = "''ann''" and p = "''pw''" and t = 0
        and cput = "\<lambda>c t k v. c(k \<mapsto> (t, v))"]) auto
  then show ?thesis by (simp add: numeral_2_eq_2)
qed

end
