(* ===== verification/Credentials.thy ===== *)
theory Credentials
  imports Urls "HOL-Library.AList" "HOL-Library.Sublist"
begin

text \<open>
  What the client sends to prove who it is: \<^verbatim>\<open>apache/aurora/common/auth/auth_module.py\<close> with the registry of
  \<^verbatim>\<open>auth_module_manager.py\<close>, and the transport of \<^verbatim>\<open>apache/aurora/common/transport.py\<close> that carries it.  Files,
  the parser of JSON, the provider and the clock are arguments; a field of a session keeps the JSON type it has,
  and the clock does not move while one object is made.
\<close>

section \<open>Values of JSON\<close>

datatype jval = JNull | JBool bool | JNum rat | JText string | JList "jval list" | JObj "(string \<times> jval) list"

type_synonym fields = "(string \<times> jval) list"

definition jget :: "fields \<Rightarrow> string \<Rightarrow> jval" where
  "jget d k = (case map_of d k of None \<Rightarrow> JNull | Some v \<Rightarrow> v)"

definition jget_or :: "fields \<Rightarrow> string \<Rightarrow> jval \<Rightarrow> jval" where
  "jget_or d k v = (case map_of d k of None \<Rightarrow> v | Some w \<Rightarrow> w)"

fun truthy :: "jval \<Rightarrow> bool" where
  "truthy JNull = False"
| "truthy (JBool b) = b"
| "truthy (JNum n) = (n \<noteq> 0)"
| "truthy (JText s) = (s \<noteq> [])"
| "truthy (JList l) = (l \<noteq> [])"
| "truthy (JObj d) = (d \<noteq> [])"

text \<open>A value used in arithmetic.\<close>

fun as_number :: "jval \<Rightarrow> pyexc + rat" where
  "as_number (JNum n) = Inr n"
| "as_number (JBool b) = Inr (if b then 1 else 0)"
| "as_number _ = Inl TypeError"

definition set_field :: "string \<Rightarrow> jval \<Rightarrow> fields \<Rightarrow> fields" where
  "set_field k v d = AList.update k v d"

definition set_default :: "string \<Rightarrow> jval \<Rightarrow> fields \<Rightarrow> fields" where
  "set_default k v d = (if map_of d k = None then set_field k v d else d)"

section \<open>Files\<close>

text \<open>A file that can be read has its text; its JSON is \<open>parse\<close> of the text, \<open>None\<close> when it has none.\<close>

datatype file_state = No_file | Unreadable | Text string

type_synonym files = "string \<Rightarrow> file_state"
type_synonym parser = "string \<Rightarrow> jval option"

definition cluster_session_file :: "string \<Rightarrow> string option \<Rightarrow> string" where
  "cluster_session_file home cluster =
     (case cluster of
        Some (c # cs) \<Rightarrow> home @ ''/.aurora/session.'' @ c # cs
      | _ \<Rightarrow> home @ ''/.aurora/session'')"

definition load_session_data :: "parser \<Rightarrow> files \<Rightarrow> string \<Rightarrow> jval option" where
  "load_session_data parse files path =
     (case files path of Text t \<Rightarrow> parse t | _ \<Rightarrow> None)"

section \<open>Refreshing a session\<close>

text \<open>What the provider makes of the form sent to it: \<open>Post_failed\<close> is any \<^verbatim>\<open>RequestException\<close>, an answer that is
  not JSON included.\<close>

datatype post_answer = Post_failed | Post_json fields

type_synonym provider = "jval \<Rightarrow> (string \<times> jval) list \<Rightarrow> post_answer"

definition refresh_payload :: "jval \<Rightarrow> jval \<Rightarrow> jval \<Rightarrow> (string \<times> jval) list" where
  "refresh_payload client_id refresh_token client_secret =
     [(''grant_type'', JText ''refresh_token''), (''client_id'', client_id), (''refresh_token'', refresh_token)]
     @ (if truthy client_secret then [(''client_secret'', client_secret)] else [])"

text \<open>The tokens of an answer, completed with what the next refresh needs.\<close>

definition complete_tokens :: "rat \<Rightarrow> jval \<Rightarrow> jval \<Rightarrow> jval \<Rightarrow> fields \<Rightarrow> pyexc + fields" where
  "complete_tokens now token_endpoint client_id refresh_token new =
     (let new1 = set_default ''client_id'' client_id (set_default ''token_endpoint'' token_endpoint
            (set_default ''refresh_token'' refresh_token new))
      in rbind (as_number (jget_or new1 ''expires_in'' (JNum 3600))) (\<lambda>n.
           Inr (set_field ''expires_at'' (JNum (of_int \<lfloor>now\<rfloor> + n)) new1)))"

definition refresh_session_data :: "provider \<Rightarrow> rat \<Rightarrow> jval \<Rightarrow> fields \<Rightarrow> pyexc + fields option" where
  "refresh_session_data post now default_client_id d =
     (let token_endpoint = jget d ''token_endpoint'';
          client_id = (if truthy (jget d ''client_id'') then jget d ''client_id'' else default_client_id);
          refresh_token = jget d ''refresh_token''
      in if \<not> truthy token_endpoint \<or> \<not> truthy client_id \<or> \<not> truthy refresh_token then Inr None
         else case post token_endpoint (refresh_payload client_id refresh_token (jget d ''client_secret'')) of
           Post_failed \<Rightarrow> Inr None
         | Post_json new \<Rightarrow>
             if map_of new ''access_token'' = None then Inr None
             else rbind (complete_tokens now token_endpoint client_id refresh_token new) (\<lambda>t. Inr (Some t)))"

text \<open>Whether a session is due for a refresh: its last minute has begun and it has a token for it.\<close>

definition due_refresh :: "rat \<Rightarrow> fields \<Rightarrow> pyexc + bool" where
  "due_refresh now d =
     rbind (as_number (jget_or d ''expires_at'' (JNum 0))) (\<lambda>e. Inr (now \<ge> e - 60 \<and> truthy (jget d ''refresh_token'')))"

text \<open>The session that is used, and what is written to its file.\<close>

definition current_session :: "provider \<Rightarrow> rat \<Rightarrow> fields \<Rightarrow> pyexc + fields \<times> fields option" where
  "current_session post now d =
     rbind (due_refresh now d) (\<lambda>due.
       if \<not> due then Inr (d, None)
       else rbind (refresh_session_data post now (JText ''aurora-cli'') d) (\<lambda>r.
         case r of None \<Rightarrow> Inr (d, None) | Some new \<Rightarrow> Inr (new, Some new)))"

text \<open>\<^verbatim>\<open>_load_access_token_from_session_file\<close>; JSON that is not an object has no \<^verbatim>\<open>get\<close>.\<close>

definition load_access_token :: "provider \<Rightarrow> rat \<Rightarrow> parser \<Rightarrow> files \<Rightarrow> string \<Rightarrow> (pyexc + jval) \<times> (string \<times> fields) option" where
  "load_access_token post now parse files path =
     (case load_session_data parse files path of
        None \<Rightarrow> (Inr JNull, None)
      | Some JNull \<Rightarrow> (Inr JNull, None)
      | Some (JObj d) \<Rightarrow>
          (case current_session post now d of
             Inl e \<Rightarrow> (Inl e, None)
           | Inr (s, w) \<Rightarrow> (Inr (jget s ''access_token''), map_option (\<lambda>n. (path, n)) w))
      | Some _ \<Rightarrow> (Inl AttributeError, None))"

section \<open>Headers\<close>

type_synonym headers = "(string \<times> string) list"

definition put_header :: "string \<Rightarrow> string \<Rightarrow> headers \<Rightarrow> headers" where
  "put_header k v h = AList.update k v h"

text \<open>\<^verbatim>\<open>b64encode\<close>.\<close>

definition b64_char :: "nat \<Rightarrow> char" where
  "b64_char n = (if n < 26 then char_of (n + 65) else if n < 52 then char_of (n + 71) else if n < 62 then char_of (n - 4)
     else if n = 62 then CHR ''+'' else CHR ''/'')"

definition byte :: "char \<Rightarrow> nat" where "byte c = of_char c"

fun b64encode :: "string \<Rightarrow> string" where
  "b64encode (a # b # c # rest) =
     b64_char (byte a div 4) # b64_char (byte a mod 4 * 16 + byte b div 16)
     # b64_char (byte b mod 16 * 4 + byte c div 64) # b64_char (byte c mod 64) # b64encode rest"
| "b64encode [a, b] =
     [b64_char (byte a div 4), b64_char (byte a mod 4 * 16 + byte b div 16), b64_char (byte b mod 16 * 4), CHR ''='']"
| "b64encode [a] = [b64_char (byte a div 4), b64_char (byte a mod 4 * 16), CHR ''='', CHR ''='']"
| "b64encode [] = []"

definition basic_auth_str :: "string \<Rightarrow> string \<Rightarrow> string" where
  "basic_auth_str user password = ''Basic '' @ b64encode (user @ '':'' @ password)"

section \<open>HTTP Basic\<close>

text \<open>The file of passwords: absent or malformed in a way the constructor of \<^verbatim>\<open>BasicAuth\<close> catches, with a syntax
  error, or read, with what it says of a host.\<close>

datatype netrc = Netrc_skipped | Netrc_parse_error | Netrc_entries "string option \<Rightarrow> (string \<times> string) option"

datatype auth_failure = Netrc_error | Failure pyexc

record basic_auth =
  ba_username :: "string option"
  ba_password :: "string option"
  ba_netrc :: "(string option \<Rightarrow> (string \<times> string) option) option"

definition given_text :: "string option \<Rightarrow> bool" where
  "given_text s = (s \<noteq> None \<and> s \<noteq> Some [])"

definition make_basic_auth :: "string option \<Rightarrow> string option \<Rightarrow> netrc \<Rightarrow> auth_failure + basic_auth" where
  "make_basic_auth user password n =
     (if given_text user \<and> given_text password
      then Inr \<lparr>ba_username = user, ba_password = password, ba_netrc = None\<rparr>
      else case n of
        Netrc_skipped \<Rightarrow> Inr \<lparr>ba_username = user, ba_password = password, ba_netrc = None\<rparr>
      | Netrc_parse_error \<Rightarrow> Inl Netrc_error
      | Netrc_entries f \<Rightarrow> Inr \<lparr>ba_username = user, ba_password = password, ba_netrc = Some f\<rparr>)"

definition call_basic_auth :: "basic_auth \<Rightarrow> string \<Rightarrow> headers \<Rightarrow> pyexc + headers" where
  "call_basic_auth a url h =
     (if given_text (ba_username a) \<and> given_text (ba_password a)
      then Inr (put_header ''Authorization'' (basic_auth_str (the (ba_username a)) (the (ba_password a))) h)
      else case ba_netrc a of
        None \<Rightarrow> Inr h
      | Some f \<Rightarrow>
          rbind (urlparse url) (\<lambda>(_, netloc).
            case f (hostname_of netloc) of
              None \<Rightarrow> Inr h
            | Some (login, password) \<Rightarrow> Inr (put_header ''Authorization'' (basic_auth_str login password) h)))"

section \<open>Session tokens\<close>

text \<open>Values of a session that go into a header are printed with \<^verbatim>\<open>%s\<close>; \<open>show\<close> prints those that are not text.\<close>

definition percent_s :: "(jval \<Rightarrow> string) \<Rightarrow> jval \<Rightarrow> string" where
  "percent_s show v = (case v of JText s \<Rightarrow> s | _ \<Rightarrow> show v)"

record session_token =
  st_token :: jval
  st_aurora_token :: jval

definition no_token :: session_token where
  "no_token = \<lparr>st_token = JNull, st_aurora_token = JNull\<rparr>"

definition token_file_of :: "string \<Rightarrow> string option \<Rightarrow> string option \<Rightarrow> string" where
  "token_file_of home token_file cluster =
     (if given_text token_file then the token_file
      else if given_text cluster then home @ ''/.aurora/token.'' @ the cluster
      else home @ ''/.aurora/token'')"

text \<open>The token of a session's JSON.\<close>

definition session_json_token :: "provider \<Rightarrow> rat \<Rightarrow> string \<Rightarrow> jval option
    \<Rightarrow> (pyexc + session_token) \<times> (string \<times> fields) option" where
  "session_json_token post now path session =
     (case session of
        None \<Rightarrow> (Inr no_token, None)
      | Some v \<Rightarrow>
          if \<not> truthy v then (Inr no_token, None)
          else case v of
            JObj d \<Rightarrow>
              if jget d ''token_type'' = JText ''aurora_cookie'' \<and> truthy (jget d ''aurora_token'')
              then (Inr (no_token\<lparr>st_aurora_token := jget d ''aurora_token''\<rparr>), None)
              else (case current_session post now d of
                      Inl e \<Rightarrow> (Inl e, None)
                    | Inr (s, w) \<Rightarrow> (Inr (no_token\<lparr>st_token := jget s ''access_token''\<rparr>), map_option (\<lambda>n. (path, n)) w))
          | _ \<Rightarrow> (Inl AttributeError, None))"

definition make_session_token :: "provider \<Rightarrow> rat \<Rightarrow> parser \<Rightarrow> files \<Rightarrow> string \<Rightarrow> string option \<Rightarrow> string option
    \<Rightarrow> (pyexc + session_token) \<times> (string \<times> fields) option" where
  "make_session_token post now parse files home token_file cluster =
     (let path = cluster_session_file home cluster;
          session = session_json_token post now path (load_session_data parse files path) in
      case files (token_file_of home token_file cluster) of
        Unreadable \<Rightarrow> (Inr no_token, None)
      | No_file \<Rightarrow> session
      | Text t \<Rightarrow> if strip t = [] then session else (Inr (no_token\<lparr>st_token := JText (strip t)\<rparr>), None))"

definition call_session_token :: "(jval \<Rightarrow> string) \<Rightarrow> session_token \<Rightarrow> headers \<Rightarrow> headers" where
  "call_session_token show a h =
     (if truthy (st_aurora_token a) then put_header ''Cookie'' (''aurora_token='' @ percent_s show (st_aurora_token a)) h
      else if truthy (st_token a) then put_header ''Authorization'' (''Bearer '' @ percent_s show (st_token a)) h
      else h)"

section \<open>The OpenID Connect device\<close>

text \<open>The tokens that may be loaded come from the session file, or from a file of an older version.  \<open>env_client\<close> is
  the client of the environment.  The result has the access token, the file it came from, and the sessions saved.\<close>

definition device_refresh :: "provider \<Rightarrow> rat \<Rightarrow> jval \<Rightarrow> fields \<Rightarrow> pyexc + fields option" where
  "device_refresh post now env_client d = refresh_session_data post now env_client d"

text \<open>Whether the JSON of a file has the key: membership in an object or a list, a part of a text.\<close>

definition has_key :: "string \<Rightarrow> jval \<Rightarrow> pyexc + bool" where
  "has_key k v =
     (case v of
        JObj d \<Rightarrow> Inr (map_of d k \<noteq> None)
      | JList l \<Rightarrow> Inr (JText k \<in> set l)
      | JText s \<Rightarrow> Inr (sublist k s)
      | _ \<Rightarrow> Inl TypeError)"

fun device_load :: "provider \<Rightarrow> rat \<Rightarrow> parser \<Rightarrow> files \<Rightarrow> jval \<Rightarrow> string \<Rightarrow> string list
    \<Rightarrow> (pyexc + (jval \<times> string)) \<times> (string \<times> fields) list" where
  "device_load post now parse files env_client save_to [] = (Inr (JNull, save_to), [])"
| "device_load post now parse files env_client save_to (path # paths) =
     (case files path of
        No_file \<Rightarrow> device_load post now parse files env_client save_to paths
      | Unreadable \<Rightarrow> device_load post now parse files env_client save_to paths
      | Text t \<Rightarrow>
          (case parse t of
             None \<Rightarrow> device_load post now parse files env_client save_to paths
           | Some v \<Rightarrow>
               (case has_key ''access_token'' v of
                  Inl e \<Rightarrow> (Inl e, [])
                | Inr False \<Rightarrow> device_load post now parse files env_client save_to paths
                | Inr True \<Rightarrow>
                    (case v of
                       JObj d \<Rightarrow>
                         (case due_refresh now d of
                            Inl e \<Rightarrow> (Inl e, [])
                          | Inr False \<Rightarrow> (Inr (jget d ''access_token'', path), [])
                          | Inr True \<Rightarrow>
                              (case device_refresh post now env_client d of
                                 Inl e \<Rightarrow> (Inl e, [])
                               | Inr None \<Rightarrow> (Inr (jget d ''access_token'', path), [])
                               | Inr (Some new) \<Rightarrow> (Inr (jget new ''access_token'', path), [(save_to, new)])))
                     | _ \<Rightarrow> (Inl AttributeError, [])))))"

definition make_device_auth :: "provider \<Rightarrow> rat \<Rightarrow> parser \<Rightarrow> files \<Rightarrow> string \<Rightarrow> jval \<Rightarrow> string option \<Rightarrow> string option
    \<Rightarrow> (pyexc + (jval \<times> string)) \<times> (string \<times> fields) list" where
  "make_device_auth post now parse files home env_client token_file cluster =
     (let session = (if given_text token_file then the token_file else cluster_session_file home cluster);
          legacy = home @ ''/.aurora/oidc_token.json''
      in device_load post now parse files env_client session
           (if legacy = session then [session] else [session, legacy]))"

definition call_device_auth :: "(jval \<Rightarrow> string) \<Rightarrow> jval \<Rightarrow> headers \<Rightarrow> headers" where
  "call_device_auth show token h =
     (if truthy token then put_header ''Authorization'' (''Bearer '' @ percent_s show token) h else h)"

text \<open>One poll of the device flow: the clock at the loop's head, and the answer.\<close>

datatype device_answer = Device_failed | Device_status int fields

definition slow_down :: "rat \<Rightarrow> rat" where "slow_down interval = min (interval + 5) 60"

text \<open>The loop of \<^verbatim>\<open>authenticate_via_device_flow\<close>: the naps, and the tokens if it got them; \<open>None\<close> when the polls
  given end before the loop does.  Whatever is raised inside is logged and the loop goes on: an answer with
  status 200 but no token, or a lifetime that is no number.\<close>

fun device_poll :: "jval \<Rightarrow> jval \<Rightarrow> rat \<Rightarrow> rat \<Rightarrow> (rat \<times> device_answer) list \<Rightarrow> rat list \<times> fields option option" where
  "device_poll token_endpoint client_id deadline interval [] = ([], None)"
| "device_poll token_endpoint client_id deadline interval ((t, a) # rest) =
     (if \<not> t < deadline then ([], Some None)
      else case a of
        Device_failed \<Rightarrow> apfst (Cons interval) (device_poll token_endpoint client_id deadline interval rest)
      | Device_status s d \<Rightarrow>
          if s = 200 then
            (case (map_of d ''access_token'', as_number (jget_or d ''expires_in'' (JNum 3600))) of
               (Some _, Inr n) \<Rightarrow>
                 ([interval], Some (Some (set_field ''expires_at'' (JNum (of_int \<lfloor>t\<rfloor> + n))
                    (set_default ''client_id'' client_id (set_default ''token_endpoint'' token_endpoint d)))))
             | _ \<Rightarrow> apfst (Cons interval) (device_poll token_endpoint client_id deadline interval rest))
          else if jget_or d ''error'' (JText []) = JText ''authorization_pending''
            then apfst (Cons interval) (device_poll token_endpoint client_id deadline interval rest)
          else if jget_or d ''error'' (JText []) = JText ''slow_down''
            then apfst (Cons interval) (device_poll token_endpoint client_id deadline (slow_down interval) rest)
          else ([interval], Some None))"

section \<open>The session of a proxy\<close>

definition split_once :: "char \<Rightarrow> string \<Rightarrow> string \<times> string" where
  "split_once c s = (takeWhile (\<lambda>x. x \<noteq> c) s, tl (dropWhile (\<lambda>x. x \<noteq> c) s))"

definition parse_cookies :: "string \<Rightarrow> headers" where
  "parse_cookies text =
     (let line = strip text in
      if CHR ''='' \<in> set line
      then foldl (\<lambda>d cookie. if CHR ''='' \<in> set cookie
               then (case split_once (CHR ''='') (strip cookie) of (n, v) \<Rightarrow> AList.update n v d) else d)
             [] (split_on (CHR '';'') line)
      else [(''_oauth2_proxy'', line)])"

definition make_proxy_session :: "files \<Rightarrow> string \<Rightarrow> string option \<Rightarrow> string option \<Rightarrow> headers" where
  "make_proxy_session files home session_file cluster =
     (let path = (if given_text session_file then the session_file else cluster_session_file home cluster) in
      case files path of Text t \<Rightarrow> parse_cookies t | _ \<Rightarrow> [])"

definition cookie_header :: "headers \<Rightarrow> string" where
  "cookie_header cs = join_with ''; '' (map (\<lambda>(k, v). k @ ''='' @ v) cs)"

definition call_proxy_session :: "headers \<Rightarrow> headers \<Rightarrow> headers" where
  "call_proxy_session cookies h =
     (if cookies = [] then h else put_header ''Cookie'' (cookie_header cookies) h)"

section \<open>The registry\<close>

type_synonym 'm registry = "(string \<times> 'm) list"

definition register_auth_module :: "string \<Rightarrow> 'm \<Rightarrow> 'm registry \<Rightarrow> 'm registry" where
  "register_auth_module mechanism m r = AList.update mechanism m r"

definition insecure_registry :: "'m \<Rightarrow> 'm registry" where
  "insecure_registry insecure = [(''UNAUTHENTICATED'', insecure)]"

text \<open>Modules are objects without a length, so a found one is taken.\<close>

definition get_auth_handler :: "'m \<Rightarrow> 'm registry \<Rightarrow> string \<Rightarrow> 'm" where
  "get_auth_handler insecure r mechanism = (case map_of r mechanism of None \<Rightarrow> insecure | Some m \<Rightarrow> m)"

section \<open>The transport\<close>

text \<open>What posting gives: a response with its status and content, a timeout, or another error of requests, with the
  status of the response that it may hold.\<close>

datatype http_outcome = Http_response int string | Http_timeout | Http_error "int option"

datatype transport_exn = Transport_timed_out | Transport_unknown | Transport_auth

record transport =
  tr_open :: bool
  tr_wbuf :: string
  tr_rbuf :: string

definition new_transport :: transport where
  "new_transport = \<lparr>tr_open = False, tr_wbuf = [], tr_rbuf = []\<rparr>"

definition transport_write :: "string \<Rightarrow> transport \<Rightarrow> transport" where
  "transport_write buf t = t\<lparr>tr_wbuf := tr_wbuf t @ buf\<rparr>"

definition transport_read :: "nat \<Rightarrow> transport \<Rightarrow> string \<times> transport" where
  "transport_read n t = (take n (tr_rbuf t), t\<lparr>tr_rbuf := drop n (tr_rbuf t)\<rparr>)"

text \<open>\<^verbatim>\<open>raise_for_status\<close> raises for a status from 400 to 599, with the response.\<close>

definition http_failure :: "http_outcome \<Rightarrow> transport_exn option" where
  "http_failure o' =
     (case o' of
        Http_timeout \<Rightarrow> Some Transport_timed_out
      | Http_error s \<Rightarrow> Some (if s = Some 401 \<or> s = Some 403 then Transport_auth else Transport_unknown)
      | Http_response s _ \<Rightarrow>
          if 300 \<le> s \<and> s < 400 then Some Transport_auth
          else if 400 \<le> s \<and> s < 600 then Some (if s = 401 \<or> s = 403 then Transport_auth else Transport_unknown)
          else None)"

definition transport_flush :: "(string \<Rightarrow> http_outcome) \<Rightarrow> transport \<Rightarrow> transport \<times> transport_exn option" where
  "transport_flush post t =
     (let t1 = t\<lparr>tr_open := True, tr_wbuf := []\<rparr>; answer = post (tr_wbuf t) in
      case http_failure answer of
        Some e \<Rightarrow> (t1, Some e)
      | None \<Rightarrow> (case answer of Http_response _ content \<Rightarrow> (t1\<lparr>tr_rbuf := content\<rparr>, None) | _ \<Rightarrow> (t1, None)))"

text \<open>A session that was never opened has nothing to close.\<close>

definition transport_close :: "transport \<Rightarrow> transport \<times> pyexc option" where
  "transport_close t = (t\<lparr>tr_open := False\<rparr>, if tr_open t then None else Some AttributeError)"

text \<open>What the proxy for the scheduler sees of a flush.\<close>

definition flush_outcome :: "transport_exn option \<Rightarrow> response_code option \<Rightarrow> call_outcome" where
  "flush_outcome e r =
     (case e of
        None \<Rightarrow> Response r
      | Some Transport_auth \<Rightarrow> Auth_failed
      | Some _ \<Rightarrow> Transport_error)"

section \<open>Refreshed sessions\<close>

lemma map_of_set_field: "map_of (set_field k v d) k' = (if k = k' then Some v else map_of d k')"
  by (simp add: set_field_def update_conv')

lemma map_of_set_default: "map_of (set_default k v d) k' = (if k = k' \<and> map_of d k = None then Some v else map_of d k')"
  by (simp add: set_default_def map_of_set_field)

lemma complete_tokens_fields:
  assumes "complete_tokens now ep cid rt new = Inr s"
  shows "map_of s k = (if k = ''expires_at'' then map_of s k else case map_of new k of Some v \<Rightarrow> Some v
    | None \<Rightarrow> if k = ''refresh_token'' then Some rt else if k = ''token_endpoint'' then Some ep
              else if k = ''client_id'' then Some cid else None)"
proof -
  obtain n where "s = set_field ''expires_at'' (JNum (of_int \<lfloor>now\<rfloor> + n)) (set_default ''client_id'' cid
      (set_default ''token_endpoint'' ep (set_default ''refresh_token'' rt new)))"
    using assms by (auto simp: complete_tokens_def Let_def rbind_Inr_iff)
  then show ?thesis by (auto simp: map_of_set_field map_of_set_default split: option.split)
qed

lemma complete_tokens_expiry:
  assumes "complete_tokens now ep cid rt new = Inr s"
  shows "\<exists>n. as_number (jget_or new ''expires_in'' (JNum 3600)) = Inr n
    \<and> map_of s ''expires_at'' = Some (JNum (of_int \<lfloor>now\<rfloor> + n))"
  using assms by (auto simp: complete_tokens_def Let_def rbind_Inr_iff map_of_set_field jget_or_def map_of_set_default)

lemma refresh_gives:
  assumes "refresh_session_data post now dc d = Inr (Some s)"
  shows "\<exists>cid new. truthy cid \<and> truthy (jget d ''token_endpoint'') \<and> truthy (jget d ''refresh_token'')
    \<and> post (jget d ''token_endpoint'') (refresh_payload cid (jget d ''refresh_token'') (jget d ''client_secret'')) = Post_json new
    \<and> map_of new ''access_token'' \<noteq> None
    \<and> complete_tokens now (jget d ''token_endpoint'') cid (jget d ''refresh_token'') new = Inr s"
  by (rule exI [of _ "if truthy (jget d ''client_id'') then jget d ''client_id'' else dc"])
     (use assms in \<open>auto simp: refresh_session_data_def Let_def rbind_Inr_iff split: if_splits post_answer.splits\<close>)

lemma current_session_saved:
  "current_session post now d = Inr (s, Some s') \<Longrightarrow>
     s' = s \<and> refresh_session_data post now (JText ''aurora-cli'') d = Inr (Some s) \<and> due_refresh now d = Inr True"
  by (auto simp: current_session_def rbind_Inr_iff split: if_splits option.splits)

text \<open>A session that was refreshed and saved has the access token the provider sent, can be refreshed again,
  and is not due before the last minute of the lifetime the provider gave, to the second.\<close>

theorem refreshed_not_due:
  assumes "current_session post now d = Inr (s, Some s')"
    and sends: "\<And>ep form new. post ep form = Post_json new \<Longrightarrow>
      (truthy (jget_or new ''refresh_token'' (JBool True))) \<and> jget_or new ''expires_in'' (JNum 3600) = JNum (lifetime :: rat)"
  shows "s' = s \<and> map_of s ''access_token'' \<noteq> None \<and> truthy (jget s ''refresh_token'')
    \<and> due_refresh t s = Inr (t \<ge> of_int \<lfloor>now\<rfloor> + lifetime - 60)"
proof -
  note saved = current_session_saved [OF assms(1)]
  obtain cid new where n: "truthy (jget d ''refresh_token'')"
    "post (jget d ''token_endpoint'') (refresh_payload cid (jget d ''refresh_token'') (jget d ''client_secret'')) = Post_json new"
    "map_of new ''access_token'' \<noteq> None" "complete_tokens now (jget d ''token_endpoint'') cid (jget d ''refresh_token'') new = Inr s"
    using refresh_gives [of post now _ d s] saved by blast
  note new = sends [OF n(2)]
  have "map_of s ''access_token'' \<noteq> None"
    using complete_tokens_fields [OF n(4), of "''access_token''"] n(3) by (auto split: option.splits)
  moreover have rt: "truthy (jget s ''refresh_token'')"
    using complete_tokens_fields [OF n(4), of "''refresh_token''"] n(1) new
    by (auto simp: jget_def jget_or_def split: option.splits)
  moreover have "due_refresh t s = Inr (t \<ge> of_int \<lfloor>now\<rfloor> + lifetime - 60)"
    using complete_tokens_expiry [OF n(4)] new rt by (auto simp: due_refresh_def jget_or_def)
  ultimately show ?thesis using saved by simp
qed

text \<open>A provider of the tests: it answers every refresh with one token for ten minutes.\<close>

definition ten_minutes :: provider where
  "ten_minutes _ _ = Post_json [(''access_token'', JText ''new''), (''expires_in'', JNum 600)]"

definition old_session :: fields where
  "old_session = [(''access_token'', JText ''old''), (''refresh_token'', JText ''r''), (''token_endpoint'', JText ''https://idp/token''),
     (''client_secret'', JText ''s''), (''expires_at'', JNum 1000)]"

definition refreshed_session :: fields where
  "refreshed_session = [(''access_token'', JText ''new''), (''expires_in'', JNum 600), (''refresh_token'', JText ''r''),
     (''token_endpoint'', JText ''https://idp/token''), (''client_id'', JText ''aurora-cli''), (''expires_at'', JNum 1600)]"

lemma old_session_refreshed: "current_session ten_minutes 1000 old_session = Inr (refreshed_session, Some refreshed_session)"
  by (simp add: current_session_def due_refresh_def refresh_session_data_def complete_tokens_def old_session_def
      refreshed_session_def ten_minutes_def jget_def jget_or_def set_default_def set_field_def Let_def)

lemma refreshed_not_due_witness: "due_refresh 1500 refreshed_session = Inr False"
proof -
  have "truthy (jget_or new ''refresh_token'' (JBool True)) \<and> jget_or new ''expires_in'' (JNum 3600) = JNum 600"
    if "ten_minutes ep form = Post_json new" for ep form new
    using that by (auto simp: ten_minutes_def jget_or_def)
  from refreshed_not_due [OF old_session_refreshed this, where t = 1500] show ?thesis by simp
qed

text \<open>C39: A refreshed session does not keep the client's secret: unless the provider echoes it, the next refresh is
  sent without it.\<close>

theorem refresh_drops_secret:
  assumes "current_session post now d = Inr (s, Some s')"
    and "\<And>ep form new. post ep form = Post_json new \<Longrightarrow> map_of new ''client_secret'' = None"
  shows "map_of (refresh_payload cid rt (jget s ''client_secret'')) ''client_secret'' = None"
proof -
  obtain cid' new where n: "post (jget d ''token_endpoint'') (refresh_payload cid' (jget d ''refresh_token'') (jget d ''client_secret'')) = Post_json new"
    "complete_tokens now (jget d ''token_endpoint'') cid' (jget d ''refresh_token'') new = Inr s"
    using refresh_gives [of post now _ d s] current_session_saved [OF assms(1)] by blast
  have "map_of s ''client_secret'' = None"
    using complete_tokens_fields [OF n(2), of "''client_secret''"] assms(2) [OF n(1)] by simp
  then show ?thesis by (simp add: refresh_payload_def jget_def)
qed

lemma refresh_drops_secret_witness:
  "map_of (refresh_payload (JText ''c'') (JText ''r'') (jget old_session ''client_secret'')) ''client_secret'' = Some (JText ''s'')
   \<and> map_of (refresh_payload (JText ''c'') (JText ''r'') (jget refreshed_session ''client_secret'')) ''client_secret'' = None"
proof
  show "map_of (refresh_payload (JText ''c'') (JText ''r'') (jget old_session ''client_secret'')) ''client_secret'' = Some (JText ''s'')"
    by (simp add: refresh_payload_def jget_def old_session_def)
  have "map_of new ''client_secret'' = None" if "ten_minutes ep form = Post_json new" for ep form new
    using that by (auto simp: ten_minutes_def)
  from refresh_drops_secret [OF old_session_refreshed this]
  show "map_of (refresh_payload (JText ''c'') (JText ''r'') (jget refreshed_session ''client_secret'')) ''client_secret'' = None" .
qed

section \<open>The header of HTTP Basic\<close>

text \<open>The decoder of the other side.\<close>

definition b64_value :: "char \<Rightarrow> nat" where
  "b64_value c = (let n = byte c in if c = CHR ''+'' then 62 else if c = CHR ''/'' then 63
     else if n \<ge> 97 then n - 71 else if n \<ge> 65 then n - 65 else n + 4)"

fun b64decode :: "string \<Rightarrow> string" where
  "b64decode (a # b # c # d # rest) =
     (if c = CHR ''='' then [char_of (b64_value a * 4 + b64_value b div 16)]
      else if d = CHR ''='' then [char_of (b64_value a * 4 + b64_value b div 16), char_of (b64_value b mod 16 * 16 + b64_value c div 4)]
      else char_of (b64_value a * 4 + b64_value b div 16) # char_of (b64_value b mod 16 * 16 + b64_value c div 4)
        # char_of (b64_value c mod 4 * 64 + b64_value d) # b64decode rest)"
| "b64decode _ = []"

lemma byte_less [simp]: "byte c < 256"
  by (simp add: byte_def)

lemma char_of_code [simp]: "char_of (byte c) = c"
  by (simp add: byte_def)

lemma byte_char_of: "n < 256 \<Longrightarrow> byte (char_of n) = n"
  by (simp add: byte_def)

lemma b64_char_code:
  assumes "n < 64"
  shows "byte (b64_char n) = (if n < 26 then n + 65 else if n < 52 then n + 71 else if n < 62 then n - 4 else if n = 62 then 43 else 47)"
proof -
  have "byte (CHR ''+'') = 43" "byte (CHR ''/'') = 47" by (simp_all add: byte_def)
  then show ?thesis using assms by (simp add: b64_char_def byte_char_of)
qed

lemma char_eq_code: "c = d \<longleftrightarrow> byte c = byte d"
  by (metis char_of_code)

lemma b64_value_char [simp]: "n < 64 \<Longrightarrow> b64_value (b64_char n) = n"
proof -
  assume n: "n < 64"
  have "byte (CHR ''+'') = 43" "byte (CHR ''/'') = 47" by (simp_all add: byte_def)
  then show ?thesis using n by (auto simp: b64_value_def char_eq_code b64_char_code Let_def)
qed

lemma b64_char_not_pad [simp]: "n < 64 \<Longrightarrow> b64_char n \<noteq> CHR ''=''"
proof -
  assume n: "n < 64"
  have "byte (CHR ''='') = 61" by (simp add: byte_def)
  then show ?thesis using n by (auto simp: char_eq_code b64_char_code)
qed

lemma b64_parts:
  assumes "a < 256" "b < 256" "c < (256 :: nat)"
  shows "a div 4 < 64" "a mod 4 * 16 + b div 16 < 64" "b mod 16 * 4 + c div 64 < 64" "c mod 64 < 64" "a mod 4 * 16 < 64" "b mod 16 * 4 < 64"
    "a div 4 * 4 + (a mod 4 * 16 + b div 16) div 16 = a"
    "(a mod 4 * 16 + b div 16) mod 16 * 16 + (b mod 16 * 4 + c div 64) div 4 = b"
    "(b mod 16 * 4 + c div 64) mod 4 * 64 + c mod 64 = c"
proof -
  have d: "b div 16 < 16" "c div 64 < 4" "a mod 4 < 4" "b mod 16 < 16" using assms by (simp_all add: less_mult_imp_div_less)
  show "a div 4 < 64" "a mod 4 * 16 + b div 16 < 64" "b mod 16 * 4 + c div 64 < 64" "c mod 64 < 64" "a mod 4 * 16 < 64" "b mod 16 * 4 < 64"
    using assms d by (simp_all add: less_mult_imp_div_less)
  show "a div 4 * 4 + (a mod 4 * 16 + b div 16) div 16 = a" using d by simp
  show "(a mod 4 * 16 + b div 16) mod 16 * 16 + (b mod 16 * 4 + c div 64) div 4 = b" using d by (simp add: mod_mult_self3)
  show "(b mod 16 * 4 + c div 64) mod 4 * 64 + c mod 64 = c" using d by (simp add: mod_mult_self3)
qed

lemma b64_roundtrip: "b64decode (b64encode s) = s"
proof (induction s rule: b64encode.induct)
  case (1 a b c rest)
  note p = b64_parts [OF byte_less [of a] byte_less [of b] byte_less [of c]]
  show ?case using 1 p by simp
next
  case (2 a b)
  note p = b64_parts [OF byte_less [of a] byte_less [of b], of 0]
  show ?case using p by simp
next
  case (3 a)
  note p = b64_parts [OF byte_less [of a], of 0 0]
  show ?case using p by simp
qed simp

lemma partition_at_append: "c \<notin> set u \<Longrightarrow> partition_at c (u @ c # p) = (u, True, p)"
  by (induction u) (auto simp: partition_at_def)

text \<open>The header of Basic authentication is decoded to the user, before the first colon, and the password, if
  the user's name has no colon.\<close>

theorem basic_header_decodes:
  assumes "CHR '':'' \<notin> set user"
  shows "take 6 (basic_auth_str user password) = ''Basic ''
    \<and> partition_at (CHR '':'') (b64decode (drop 6 (basic_auth_str user password))) = (user, True, password)"
  using partition_at_append [OF assms] by (simp add: basic_auth_str_def b64_roundtrip)

lemma basic_header_decodes_witness:
  "basic_auth_str ''ann'' ''pw:1'' = ''Basic YW5uOnB3OjE=''
   \<and> partition_at (CHR '':'') (b64decode (drop 6 (basic_auth_str ''ann'' ''pw:1''))) = (''ann'', True, ''pw:1'')"
proof
  show "basic_auth_str ''ann'' ''pw:1'' = ''Basic YW5uOnB3OjE=''" by code_simp
  show "partition_at (CHR '':'') (b64decode (drop 6 (basic_auth_str ''ann'' ''pw:1''))) = (''ann'', True, ''pw:1'')"
    using basic_header_decodes [of "''ann''" "''pw:1''"] by simp
qed

text \<open>A password file with a syntax error is not skipped: its exception is none that the constructor catches.\<close>

lemma bad_netrc_escapes: "make_basic_auth None None Netrc_parse_error = Inl Netrc_error"
  by (simp add: make_basic_auth_def given_text_def)

section \<open>The session of a proxy and the other sessions\<close>

text \<open>A session file in JSON without an equals sign, with all of its tokens, is sent as one cookie.\<close>

lemma json_session_sent_whole:
  assumes "files (cluster_session_file home cluster) = Text t" "CHR ''='' \<notin> set (strip t)"
  shows "call_proxy_session (make_proxy_session files home None cluster) [] = [(''Cookie'', ''_oauth2_proxy='' @ strip t)]"
  using assms by (simp add: make_proxy_session_def given_text_def parse_cookies_def call_proxy_session_def
      cookie_header_def put_header_def)

text \<open>A cookie of the scheduler is sent though its session has expired.\<close>

lemma expired_cookie_sent:
  "truthy (jget d ''aurora_token'') \<Longrightarrow> jget d ''token_type'' = JText ''aurora_cookie'' \<Longrightarrow>
     session_json_token post now path (Some (JObj d)) = (Inr (no_token\<lparr>st_aurora_token := jget d ''aurora_token''\<rparr>), None)"
  by (cases d) (auto simp: session_json_token_def jget_def)

text \<open>A mechanism that is not registered sends nothing, without an error.\<close>

lemma unknown_mechanism_insecure:
  "mechanism \<noteq> ''UNAUTHENTICATED'' \<Longrightarrow> get_auth_handler m (insecure_registry m) mechanism = m"
  by (simp add: get_auth_handler_def insecure_registry_def)

section \<open>The transport\<close>

lemma flush_empties: "tr_wbuf (fst (transport_flush post t)) = []"
  by (simp add: transport_flush_def Let_def split: option.split http_outcome.split)

text \<open>A flush that fails leaves what was to be read before.\<close>

lemma failed_flush_keeps_rbuf: "snd (transport_flush post t) = Some e \<Longrightarrow> tr_rbuf (fst (transport_flush post t)) = tr_rbuf t"
  by (auto simp: transport_flush_def Let_def split: option.splits http_outcome.splits)

lemma flush_delivers:
  "snd (transport_flush post t) = None \<longleftrightarrow> (\<exists>s. post (tr_wbuf t) = Http_response s (tr_rbuf (fst (transport_flush post t)))
     \<and> (s < 300 \<or> 600 \<le> s))"
  by (auto simp: transport_flush_def http_failure_def Let_def split: option.splits http_outcome.splits)

text \<open>A response with a redirect or status 401 or 403 ends the call of the scheduler at once: one invocation, an
  authentication error, no other attempt, even if the call may be retried.\<close>

theorem refused_not_retried:
  assumes "post (tr_wbuf t) = Http_response s content" "300 \<le> s \<and> s < 400 \<or> s = 401 \<or> s = 403"
    and "\<not> at_stop a" "at_elapsed a < rpc_maximum_wait" "linked \<or> at_connect a = Inr ()"
    and "at_calls a 0 = flush_outcome (snd (transport_flush post t)) r"
  shows "rpc_loop retry missing linked (a # as) = ([[Auth_failed]], Some (Failed (Own AuthError)))"
proof -
  have "snd (transport_flush post t) = Some Transport_auth"
    using assms(1,2) by (auto simp: transport_flush_def http_failure_def Let_def)
  then have "at_calls a 0 = Auth_failed" using assms(6) by (simp add: flush_outcome_def)
  then have "try_once linked missing a = ([Auth_failed], Inl Caught_auth)"
    using assms(5) by (auto simp: try_once_def invoke_def)
  then show ?thesis using assms(3,4) by (simp add: handle_rpc_def)
qed

lemma refused_not_retried_witness:
  "rpc_loop True 0 True
     [\<lparr>at_stop = False, at_elapsed = 0, at_connect = Inr (), at_calls = (\<lambda>_. flush_outcome (snd (transport_flush (\<lambda>_. Http_response 302 []) new_transport)) None),
       at_stop_after = False\<rparr>] = ([[Auth_failed]], Some (Failed (Own AuthError)))"
  by (rule refused_not_retried [where post = "\<lambda>_. Http_response 302 []" and t = new_transport and s = 302 and r = None])
     (simp_all add: rpc_maximum_wait_def)

end
