(* ===== verification/Login.thy ===== *)
theory Login
  imports Credentials
begin

text \<open>
  \<^verbatim>\<open>aurora auth login\<close>, \<^verbatim>\<open>apache/aurora/client/cli/auth.py\<close>: the four ways to log in (a browser or a device, each
  through the scheduler or directly at the provider), the sessions they save, and the refresh of a saved session.
  The network, the random values, the browser's requests and the clock are arguments.  A command that ends has an
  exit code and the session it saved, if any.
\<close>

section \<open>Helpers\<close>

definition validate_https_url :: "string \<Rightarrow> pyexc + unit" where
  "validate_https_url url =
     rbind (urlparse url) (\<lambda>(scheme, _). if scheme = ''https'' then Inr () else Inl ValueError)"

text \<open>The URL of an endpoint that a document names; what is no text raises in \<^verbatim>\<open>urlparse\<close>, or has no scheme.\<close>

definition validate_endpoint :: "jval \<Rightarrow> pyexc + unit" where
  "validate_endpoint v =
     (case v of JText url \<Rightarrow> validate_https_url url | _ \<Rightarrow> Inl (if truthy v then AttributeError else ValueError))"

definition default_scope :: string where "default_scope = ''openid email profile''"

definition session_lifetime :: rat where "session_lifetime = 28800"

datatype scope_value = No_scope | Scope_text string | Scope_list "string list"

definition normalize_scope :: "scope_value \<Rightarrow> string" where
  "normalize_scope s =
     (case s of
        No_scope \<Rightarrow> default_scope
      | Scope_text t \<Rightarrow> if t = [] then default_scope else strip t
      | Scope_list l \<Rightarrow> if l = [] then default_scope else join_with '' '' (filter (\<lambda>x. x \<noteq> []) (map strip l)))"

definition or_default :: "string \<Rightarrow> string" where
  "or_default scope = (if scope = [] then default_scope else scope)"

text \<open>\<^verbatim>\<open>int\<close> of a value of JSON, \<open>None\<close> where it raises.\<close>

definition digits_value :: "string \<Rightarrow> int" where
  "digits_value s = foldl (\<lambda>n c. 10 * n + (int (of_char c) - 48)) 0 (filter (\<lambda>c. c \<noteq> CHR ''_'') s)"

definition int_of :: "jval \<Rightarrow> int option" where
  "int_of v =
     (case v of
        JNum n \<Rightarrow> Some (if 0 \<le> n then \<lfloor>n\<rfloor> else \<lceil>n\<rceil>)
      | JBool b \<Rightarrow> Some (if b then 1 else 0)
      | JText s \<Rightarrow>
          (let t = strip s; neg = (t \<noteq> [] \<and> hd t = CHR ''-'');
               u = (if t \<noteq> [] \<and> (hd t = CHR ''-'' \<or> hd t = CHR ''+'') then tl t else t)
           in if list_all isdigit (split_on (CHR ''_'') u) then Some (if neg then - digits_value u else digits_value u) else None)
      | _ \<Rightarrow> None)"

text \<open>What a request of \<^verbatim>\<open>urllib\<close> gives: JSON, something else, an HTTP error with the JSON of its body, or another
  exception.\<close>

datatype reply = Reply jval | Reply_not_json | Reply_error int "jval option" | Reply_exception

text \<open>How a command ends.\<close>

type_synonym login = "pyexc + int \<times> fields option"

definition failed :: login where "failed = Inr (1, None)"

section \<open>Saving tokens\<close>

definition set_if :: "string \<Rightarrow> jval \<Rightarrow> fields \<Rightarrow> fields" where
  "set_if k v d = (if truthy v then set_field k v d else d)"

definition persist_tokens :: "rat \<Rightarrow> string \<Rightarrow> jval \<Rightarrow> jval \<Rightarrow> jval \<Rightarrow> jval \<Rightarrow> pyexc + fields" where
  "persist_tokens now cluster tokens token_endpoint client_id client_secret =
     rbind (has_key ''access_token'' tokens) (\<lambda>present.
       if \<not> present then Inl ValueError
       else case tokens of
         JObj d \<Rightarrow>
           rbind (as_number (jget_or (set_field ''cluster'' (JText cluster) d) ''expires_in'' (JNum 3600))) (\<lambda>n.
             Inr (set_if ''client_secret'' client_secret (set_if ''client_id'' client_id (set_if ''token_endpoint'' token_endpoint
               (set_field ''expires_at'' (JNum (of_int \<lfloor>now\<rfloor> + n)) (set_field ''cluster'' (JText cluster) d))))))
       | _ \<Rightarrow> Inl TypeError)"

definition save_tokens :: "pyexc + fields \<Rightarrow> login" where
  "save_tokens r = rbind r (\<lambda>s. Inr (0, Some s))"

text \<open>The session of a token of the scheduler.\<close>

definition cookie_session :: "rat \<Rightarrow> string \<Rightarrow> jval \<Rightarrow> int \<Rightarrow> fields" where
  "cookie_session now cluster token lifetime =
     [(''aurora_token'', token), (''token_type'', JText ''aurora_cookie''), (''cluster'', JText cluster),
      (''expires_at'', JNum (of_int (\<lfloor>now\<rfloor> + lifetime)))]"

section \<open>A saved session\<close>

text \<open>\<open>session\<close> is the JSON of the file, \<open>cluster_secret\<close> what the configuration of the cluster says of the secret,
  \<open>None\<close> when there is no such cluster.  The result has the session to use and the one that was written.\<close>

definition valid_session :: "(jval \<Rightarrow> (string \<times> jval) list \<Rightarrow> reply) \<Rightarrow> rat \<Rightarrow> string \<Rightarrow> jval option \<Rightarrow> jval option
    \<Rightarrow> pyexc + jval option \<times> fields option" where
  "valid_session refresh now cluster cluster_secret session =
     (case session of
        None \<Rightarrow> Inr (None, None)
      | Some (JObj d) \<Rightarrow>
          if d = [] then Inr (None, None)
          else rbind (as_number (jget_or d ''expires_at'' (JNum 0))) (\<lambda>e.
            if now < e - 60 then Inr (Some (JObj d), None)
            else
              let rt = jget d ''refresh_token''; ep = jget d ''token_endpoint'';
                  cid = jget_or d ''client_id'' (JText ''aurora-cli'');
                  secret = (case cluster_secret of Some s \<Rightarrow> s | None \<Rightarrow> jget d ''client_secret'')
              in if \<not> truthy rt \<or> \<not> truthy ep then Inr (None, None)
                 else case refresh ep (refresh_payload cid rt secret) of
                   Reply (JObj new) \<Rightarrow>
                     (case persist_tokens now cluster (JObj (set_default ''refresh_token'' rt new)) ep cid secret of
                        Inl _ \<Rightarrow> Inr (None, None)
                      | Inr s \<Rightarrow> Inr (Some (JObj s), Some s))
                 | _ \<Rightarrow> Inr (None, None))
      | Some v \<Rightarrow> if truthy v then Inl AttributeError else Inr (None, None))"

section \<open>The device flow\<close>

text \<open>A failure that the caller catches, or an exception that it does not.\<close>

datatype poll_result = Polled jval | Poll_failed | Poll_escaped

text \<open>The loop of \<^verbatim>\<open>_poll_device_token\<close>, over the clock at its head and the replies: the naps and how it ends;
  \<open>None\<close> if the polls given end before it does.\<close>

fun poll_device_token :: "rat \<Rightarrow> rat \<Rightarrow> (rat \<times> reply) list \<Rightarrow> rat list \<times> poll_result option" where
  "poll_device_token deadline wait [] = ([], None)"
| "poll_device_token deadline wait ((t, r) # rest) =
     (if \<not> t < deadline then ([], Some Poll_failed)
      else case r of
        Reply v \<Rightarrow> ([wait], Some (Polled v))
      | Reply_error code (Some (JObj d)) \<Rightarrow>
          if jget_or d ''error'' (JText []) = JText ''authorization_pending''
            then apfst (Cons wait) (poll_device_token deadline wait rest)
          else if jget_or d ''error'' (JText []) = JText ''slow_down''
            then apfst (Cons wait) (poll_device_token deadline (slow_down wait) rest)
          else ([wait], Some Poll_failed)
      | Reply_error code None \<Rightarrow> ([wait], Some Poll_failed)
      | _ \<Rightarrow> ([wait], Some Poll_escaped))"

text \<open>The requests of a direct device login; \<open>start\<close> is the clock when polling starts, \<open>stop\<close> when it saves.
  The left result is an exception of the network.  An interval is not negative.\<close>

definition device_auth :: "rat \<Rightarrow> rat \<Rightarrow> fields \<Rightarrow> jval \<Rightarrow> string \<Rightarrow> jval \<Rightarrow> reply \<Rightarrow> (rat \<times> reply) list \<Rightarrow> (unit + login) option" where
  "device_auth start stop discovery client_id cluster client_secret first polls =
     (if \<not> truthy (jget discovery ''device_authorization_endpoint'') then Some (Inr failed)
      else case map_of discovery ''token_endpoint'' of
        None \<Rightarrow> Some (Inr (Inl KeyError))
      | Some token \<Rightarrow>
          (case rbind (validate_endpoint (jget discovery ''device_authorization_endpoint'')) (\<lambda>_. validate_endpoint token) of
             Inl e \<Rightarrow> Some (Inr (Inl e))
           | Inr _ \<Rightarrow>
               (case first of
                  Reply_error _ _ \<Rightarrow> Some (Inr failed)
                | Reply_exception \<Rightarrow> Some (Inl ())
                | Reply_not_json \<Rightarrow> Some (Inr (Inl ValueError))
                | Reply (JObj dr) \<Rightarrow>
                    (case (map_of dr ''user_code'', if truthy (jget dr ''verification_uri_complete'') then Some JNull else map_of dr ''verification_uri'',
                           map_of dr ''device_code'') of
                       (Some _, Some _, Some _) \<Rightarrow>
                         (case (as_number (jget_or dr ''interval'' (JNum 5)), as_number (jget_or dr ''expires_in'' (JNum 300))) of
                            (Inr interval, Inr lifetime) \<Rightarrow>
                              (case snd (poll_device_token (start + lifetime) interval polls) of
                                 None \<Rightarrow> None
                               | Some Poll_failed \<Rightarrow> Some (Inr failed)
                               | Some Poll_escaped \<Rightarrow> Some (Inl ())
                               | Some (Polled tokens) \<Rightarrow>
                                   Some (Inr (save_tokens (persist_tokens stop cluster tokens token client_id client_secret))))
                          | _ \<Rightarrow> Some (Inr (Inl TypeError)))
                     | _ \<Rightarrow> Some (Inr (Inl KeyError)))
                | Reply _ \<Rightarrow> Some (Inr (Inl TypeError)))))"

section \<open>The device flow through the scheduler\<close>

text \<open>One reply to a poll: go on with a wait, or end.\<close>

fun scheduler_polls :: "rat \<Rightarrow> string \<Rightarrow> rat \<Rightarrow> (rat \<times> reply) list \<Rightarrow> rat list \<times> login option" where
  "scheduler_polls deadline cluster wait [] = ([], None)"
| "scheduler_polls deadline cluster wait ((t, r) # rest) =
     (if \<not> t < deadline then ([], Some failed)
      else case r of
        Reply (JObj d) \<Rightarrow>
          if \<not> truthy (jget d ''aurora_token'') then ([wait], Some failed)
          else (case int_of (jget_or d ''expires_in'' (JNum session_lifetime)) of
                  None \<Rightarrow> ([wait], Some failed)
                | Some n \<Rightarrow> ([wait], Some (Inr (0, Some (cookie_session t cluster (jget d ''aurora_token'') n)))))
      | Reply_error code (Some (JObj d)) \<Rightarrow>
          if jget_or d ''error'' (JText []) = JText ''authorization_pending''
            then apfst (Cons wait) (scheduler_polls deadline cluster wait rest)
          else if jget_or d ''error'' (JText []) = JText ''slow_down''
            then apfst (Cons wait) (scheduler_polls deadline cluster (slow_down wait) rest)
          else ([wait], Some failed)
      | Reply_error code (Some _) \<Rightarrow> ([wait], Some (Inl AttributeError))
      | _ \<Rightarrow> ([wait], Some failed))"

definition scheduler_device_auth :: "rat \<Rightarrow> string \<Rightarrow> string \<Rightarrow> reply \<Rightarrow> (rat \<times> reply) list \<Rightarrow> login option" where
  "scheduler_device_auth start url cluster first polls =
     (case validate_https_url url of
        Inl e \<Rightarrow> Some (Inl e)
      | Inr _ \<Rightarrow>
          (case first of
             Reply (JObj dr) \<Rightarrow>
               if \<not> truthy (jget dr ''user_code'') \<or> \<not> truthy (jget dr ''proxy_device_code'')
                 \<or> (\<not> truthy (jget dr ''verification_uri_complete'') \<and> \<not> truthy (jget dr ''verification_uri''))
               then Some failed
               else (case (as_number (jget_or dr ''interval'' (JNum 5)), as_number (jget_or dr ''expires_in'' (JNum 300))) of
                       (Inr interval, Inr lifetime) \<Rightarrow> snd (scheduler_polls (start + lifetime) cluster interval polls)
                     | _ \<Rightarrow> Some (Inl TypeError))
           | Reply _ \<Rightarrow> Some (Inl AttributeError)
           | _ \<Rightarrow> Some failed))"

section \<open>The browser flow\<close>

text \<open>The query of a request that the browser makes to the local server: the first value of each parameter.\<close>

type_synonym query = "string \<Rightarrow> string option"

record callback =
  cb_code :: "string option"
  cb_error :: "string option"
  cb_state_error :: bool

definition no_callback :: callback where
  "no_callback = \<lparr>cb_code = None, cb_error = None, cb_state_error = False\<rparr>"

definition handle_callback :: "string \<Rightarrow> callback \<Rightarrow> query \<Rightarrow> callback" where
  "handle_callback state cb q =
     (if q ''state'' \<noteq> Some state then cb\<lparr>cb_state_error := True\<rparr>
      else case q ''code'' of
        Some c \<Rightarrow> cb\<lparr>cb_code := Some c\<rparr>
      | None \<Rightarrow> cb\<lparr>cb_error := Some (case q ''error'' of Some e \<Rightarrow> e | None \<Rightarrow> ''unknown'')\<rparr>)"

definition authorize_params :: "string \<Rightarrow> string \<Rightarrow> string \<Rightarrow> string \<Rightarrow> string \<Rightarrow> (string \<times> string) list" where
  "authorize_params client_id redirect_uri scope challenge state =
     [(''response_type'', ''code''), (''client_id'', client_id), (''redirect_uri'', redirect_uri), (''scope'', or_default scope),
      (''code_challenge'', challenge), (''code_challenge_method'', ''S256''), (''state'', state)]"

definition exchange_payload :: "jval \<Rightarrow> string \<Rightarrow> string \<Rightarrow> string \<Rightarrow> jval \<Rightarrow> (string \<times> jval) list" where
  "exchange_payload client_id code' redirect_uri verifier client_secret =
     [(''grant_type'', JText ''authorization_code''), (''client_id'', client_id), (''code'', JText code'),
      (''redirect_uri'', JText redirect_uri), (''code_verifier'', JText verifier)]
     @ (if truthy client_secret then [(''client_secret'', client_secret)] else [])"

text \<open>\<open>bound\<close> is whether the local server got its port, and \<open>requests\<close> are those it handled before it was shut down:
  none if the wait timed out.\<close>

definition browser_auth :: "rat \<Rightarrow> fields \<Rightarrow> jval \<Rightarrow> string \<Rightarrow> jval \<Rightarrow> bool \<Rightarrow> string \<Rightarrow> string \<Rightarrow> string \<Rightarrow> query list
    \<Rightarrow> ((string \<times> jval) list \<Rightarrow> reply) \<Rightarrow> login" where
  "browser_auth now discovery client_id cluster client_secret bound redirect_uri state verifier requests exchange =
     (case (map_of discovery ''authorization_endpoint'', map_of discovery ''token_endpoint'') of
        (Some auth, Some token) \<Rightarrow>
          rbind (validate_endpoint auth) (\<lambda>_. rbind (validate_endpoint token) (\<lambda>_.
            if \<not> bound \<or> requests = [] then failed
            else case cb_code (foldl (handle_callback state) no_callback requests) of
              None \<Rightarrow> failed
            | Some [] \<Rightarrow> failed
            | Some c \<Rightarrow>
                (case exchange (exchange_payload client_id c redirect_uri verifier client_secret) of
                   Reply tokens \<Rightarrow> save_tokens (persist_tokens now cluster tokens token client_id client_secret)
                 | _ \<Rightarrow> failed)))
      | _ \<Rightarrow> Inl KeyError)"

section \<open>The browser flow through the scheduler\<close>

definition handle_cli_callback :: "string option \<Rightarrow> query \<Rightarrow> string option" where
  "handle_cli_callback token q =
     (case q ''aurora_token'' of None \<Rightarrow> token | Some [] \<Rightarrow> token | Some t \<Rightarrow> Some t)"

definition scheduler_browser_auth :: "rat \<Rightarrow> string \<Rightarrow> string \<Rightarrow> bool \<Rightarrow> query list \<Rightarrow> login" where
  "scheduler_browser_auth now url cluster bound requests =
     rbind (validate_https_url url) (\<lambda>_.
       if \<not> bound \<or> requests = [] then failed
       else case foldl handle_cli_callback None requests of
         None \<Rightarrow> failed
       | Some t \<Rightarrow> Inr (0, Some (cookie_session now cluster (JText t) \<lfloor>session_lifetime\<rfloor>)))"

section \<open>The verb\<close>

record login_cluster =
  lc_issuer :: "string option"
  lc_client_id :: string
  lc_secret :: jval
  lc_base_url :: "string option"

datatype way = Unknown_cluster | Not_configured | Through_scheduler_device string | Direct_device string
  | Through_scheduler_browser string | Direct_browser string

definition some_text :: "string option \<Rightarrow> string option" where
  "some_text s = (case s of Some (c # cs) \<Rightarrow> Some (c # cs) | _ \<Rightarrow> None)"

text \<open>Which way is taken; the direct ones have the URL of the provider's document.\<close>

definition login_way :: "login_cluster option \<Rightarrow> bool \<Rightarrow> bool \<Rightarrow> way" where
  "login_way cluster device browser_available =
     (case cluster of
        None \<Rightarrow> Unknown_cluster
      | Some c \<Rightarrow>
          (case (some_text (lc_base_url c), some_text (lc_issuer c)) of
             (None, None) \<Rightarrow> Not_configured
           | (Some url, _) \<Rightarrow> if device \<or> \<not> browser_available then Through_scheduler_device url else Through_scheduler_browser url
           | (None, Some i) \<Rightarrow>
               let doc = rstrip_slash i @ ''/.well-known/openid-configuration''
               in if device \<or> \<not> browser_available then Direct_device doc else Direct_browser doc))"

text \<open>The world of one login: its clock readings, what the network and the browser do, and the random values.\<close>

record login_world =
  lw_start :: rat
  lw_now :: rat
  lw_discovery :: "string \<Rightarrow> fields option"
  lw_first :: reply
  lw_polls :: "(rat \<times> reply) list"
  lw_bound :: bool
  lw_redirect_uri :: string
  lw_state :: string
  lw_verifier :: string
  lw_requests :: "query list"
  lw_exchange :: "(string \<times> jval) list \<Rightarrow> reply"

text \<open>\<^verbatim>\<open>_oidc_discovery\<close> for a URL without TLS raises, which the verb reports like every failure of it.\<close>

definition discover :: "login_world \<Rightarrow> string \<Rightarrow> fields option" where
  "discover w url = (case validate_https_url url of Inl _ \<Rightarrow> None | Inr _ \<Rightarrow> lw_discovery w url)"

definition login_execute :: "login_world \<Rightarrow> string \<Rightarrow> login_cluster option \<Rightarrow> bool \<Rightarrow> bool \<Rightarrow> (unit + login) option" where
  "login_execute w name cluster device browser_available =
     (case login_way cluster device browser_available of
        Unknown_cluster \<Rightarrow> Some (Inr failed)
      | Not_configured \<Rightarrow> Some (Inr failed)
      | Through_scheduler_device url \<Rightarrow> map_option Inr (scheduler_device_auth (lw_start w) url name (lw_first w) (lw_polls w))
      | Through_scheduler_browser url \<Rightarrow> Some (Inr (scheduler_browser_auth (lw_now w) url name (lw_bound w) (lw_requests w)))
      | Direct_device doc \<Rightarrow>
          (case discover w doc of
             None \<Rightarrow> Some (Inr failed)
           | Some d \<Rightarrow> device_auth (lw_start w) (lw_now w) d (JText (lc_client_id (the cluster))) name (lc_secret (the cluster))
                         (lw_first w) (lw_polls w))
      | Direct_browser doc \<Rightarrow>
          (case discover w doc of
             None \<Rightarrow> Some (Inr failed)
           | Some d \<Rightarrow> Some (Inr (browser_auth (lw_now w) d (JText (lc_client_id (the cluster))) name (lc_secret (the cluster))
                         (lw_bound w) (lw_redirect_uri w) (lw_state w) (lw_verifier w) (lw_requests w) (lw_exchange w)))))"

section \<open>What is saved\<close>

lemma scheduler_polls_saves:
  "snd (scheduler_polls dl cluster wait polls) = Some (Inr (c, saved)) \<Longrightarrow> (c = 0 \<and> saved \<noteq> None) \<or> (c = 1 \<and> saved = None)"
  by (induction dl cluster wait polls rule: scheduler_polls.induct)
     (auto simp: failed_def split: if_splits reply.splits jval.splits option.splits)

lemma save_tokens_saves: "save_tokens r = Inr (c, saved) \<Longrightarrow> c = 0 \<and> saved \<noteq> None"
  by (auto simp: save_tokens_def rbind_Inr_iff)

lemma device_auth_saves:
  "device_auth start stop d cid name secret first polls = Some (Inr (Inr (c, saved))) \<Longrightarrow>
     (c = 0 \<and> saved \<noteq> None) \<or> (c = 1 \<and> saved = None)"
  by (auto simp: device_auth_def failed_def dest!: save_tokens_saves
      split: if_splits option.splits sum.splits reply.splits jval.splits poll_result.splits)

lemma browser_auth_saves:
  "browser_auth now d cid name secret bound uri state verifier requests exchange = Inr (c, saved) \<Longrightarrow>
     (c = 0 \<and> saved \<noteq> None) \<or> (c = 1 \<and> saved = None)"
  by (auto simp: browser_auth_def failed_def rbind_Inr_iff dest!: save_tokens_saves
      split: if_splits option.splits list.splits reply.splits)

lemma scheduler_browser_saves:
  "scheduler_browser_auth now url name bound requests = Inr (c, saved) \<Longrightarrow> (c = 0 \<and> saved \<noteq> None) \<or> (c = 1 \<and> saved = None)"
  by (auto simp: scheduler_browser_auth_def failed_def rbind_Inr_iff split: if_splits option.splits)

lemma scheduler_device_saves:
  "scheduler_device_auth start url name first polls = Some (Inr (c, saved)) \<Longrightarrow> (c = 0 \<and> saved \<noteq> None) \<or> (c = 1 \<and> saved = None)"
  by (auto simp: scheduler_device_auth_def failed_def dest!: scheduler_polls_saves
      split: if_splits sum.splits reply.splits jval.splits)

text \<open>However a login is made, if it ends with an exit code the code is 0 or 1, and it is 0 exactly when a session
  was saved.\<close>

theorem login_saves_iff_success:
  assumes "login_execute w name cluster device browser = Some (Inr (Inr (c, saved)))"
  shows "(c = 0 \<and> saved \<noteq> None) \<or> (c = 1 \<and> saved = None)"
  using assms
  by (auto simp: login_execute_def failed_def split: way.splits option.splits
      dest: device_auth_saves browser_auth_saves scheduler_browser_saves scheduler_device_saves)

section \<open>Which callbacks count\<close>

lemma callbacks_code:
  assumes "cb_code (foldl (handle_callback state) cb requests) = Some c"
  shows "cb_code cb = Some c \<or> (\<exists>q \<in> set requests. q ''state'' = Some state \<and> q ''code'' = Some c)"
  using assms
proof (induction requests arbitrary: cb)
  case (Cons q requests)
  from Cons.IH [of "handle_callback state cb q"] Cons.prems show ?case
    by (auto simp: handle_callback_def split: if_splits option.splits)
qed simp

text \<open>A direct login in the browser that succeeds has exchanged a code that came, in one request, with the state
  this login made up; the session it saved is the provider's answer to that code.\<close>

theorem browser_code_has_state:
  assumes "browser_auth now d cid name secret bound uri state verifier requests exchange = Inr (0, saved)"
  shows "\<exists>q \<in> set requests. \<exists>c tokens s ep. q ''state'' = Some state \<and> q ''code'' = Some c
    \<and> exchange (exchange_payload cid c uri verifier secret) = Reply tokens
    \<and> persist_tokens now name tokens ep cid secret = Inr s \<and> saved = Some s"
proof -
  obtain c tokens s ep where c: "cb_code (foldl (handle_callback state) no_callback requests) = Some c"
    "exchange (exchange_payload cid c uri verifier secret) = Reply tokens"
    "persist_tokens now name tokens ep cid secret = Inr s" "saved = Some s"
    using assms by (auto simp: browser_auth_def failed_def save_tokens_def rbind_Inr_iff
        split: if_splits option.splits list.splits reply.splits)
  with callbacks_code [OF c(1)] show ?thesis by (auto simp: no_callback_def)
qed

text \<open>The local server of a login through the scheduler takes a token from any request: what the last request
  carries is the session, whoever made it.\<close>

theorem scheduler_token_from_anyone:
  assumes "validate_https_url url = Inr ()" "q ''aurora_token'' = Some token" "token \<noteq> []"
  shows "scheduler_browser_auth now url name True (requests @ [q])
    = Inr (0, Some (cookie_session now name (JText token) 28800))"
proof -
  have "handle_cli_callback x q = Some token" for x
    using assms(2,3) by (cases token) (auto simp: handle_cli_callback_def)
  then show ?thesis using assms(1) by (simp add: scheduler_browser_auth_def session_lifetime_def)
qed

text \<open>A stray request ends the wait of a direct login without its code.\<close>

lemma stray_request_fails:
  assumes "map_of d ''authorization_endpoint'' = Some auth" "map_of d ''token_endpoint'' = Some token"
    "validate_endpoint auth = Inr ()" "validate_endpoint token = Inr ()" "q ''state'' = None"
  shows "browser_auth now d cid name secret True uri state verifier [q] exchange = failed"
  using assms by (simp add: browser_auth_def handle_callback_def no_callback_def)

section \<open>How often a device is polled\<close>


lemma poll_naps_at_least:
  assumes "0 < interval" "interval \<le> 60" "n \<in> set (fst (poll_device_token dl interval polls))"
  shows "interval \<le> n"
  using assms
proof (induction dl interval polls rule: poll_device_token.induct)
  case (2 dl wait t r rest)
  have s: "wait \<le> slow_down wait" "0 < slow_down wait" "slow_down wait \<le> 60"
    using "2.prems" by (auto simp: slow_down_def)
  show ?case using 2 s by (auto split: if_splits reply.splits option.splits jval.splits dest: order_trans)
qed simp



section \<open>Concrete logins\<close>

lemma https_ok: "validate_https_url ''https://idp/a'' = Inr ()"
  by code_simp

definition one_param :: "string \<Rightarrow> string \<Rightarrow> query" where
  "one_param k v = (\<lambda>x. if x = k then Some v else None)"

definition example_world :: login_world where
  "example_world = \<lparr>lw_start = 0, lw_now = 100, lw_discovery = (\<lambda>_. None), lw_first = Reply_exception, lw_polls = [], lw_bound = True,
     lw_redirect_uri = [], lw_state = [], lw_verifier = [], lw_requests = [one_param ''aurora_token'' ''t''], lw_exchange = (\<lambda>_. Reply_exception)\<rparr>"

definition example_cluster :: login_cluster where
  "example_cluster = \<lparr>lc_issuer = None, lc_client_id = ''c'', lc_secret = JNull, lc_base_url = Some ''https://idp/a''\<rparr>"

lemma scheduler_token_from_anyone_witness:
  "scheduler_browser_auth 100 ''https://idp/a'' ''east'' True ([one_param ''aurora_token'' ''mine''] @ [one_param ''aurora_token'' ''evil''])
    = Inr (0, Some (cookie_session 100 ''east'' (JText ''evil'') 28800))"
  by (rule scheduler_token_from_anyone) (simp_all add: https_ok one_param_def)

lemma login_saves_iff_success_witness:
  "login_execute example_world ''east'' (Some example_cluster) False True
     = Some (Inr (Inr (0, Some (cookie_session 100 ''east'' (JText ''t'') 28800))))
   \<and> ((0 :: int) = 0 \<and> Some (cookie_session 100 ''east'' (JText ''t'') 28800) \<noteq> None
      \<or> (0 :: int) = 1 \<and> Some (cookie_session 100 ''east'' (JText ''t'') 28800) = None)"
proof -
  have e: "login_execute example_world ''east'' (Some example_cluster) False True
     = Some (Inr (Inr (0, Some (cookie_session 100 ''east'' (JText ''t'') 28800))))"
    by (simp add: login_execute_def login_way_def example_cluster_def some_text_def example_world_def scheduler_browser_auth_def
        https_ok handle_cli_callback_def one_param_def session_lifetime_def)
  from login_saves_iff_success [OF e] e show ?thesis by simp
qed

definition example_callback :: query where
  "example_callback = (\<lambda>x. if x = ''state'' then Some ''s1'' else if x = ''code'' then Some ''c1'' else None)"

definition example_discovery :: fields where
  "example_discovery = [(''authorization_endpoint'', JText ''https://idp/a''), (''token_endpoint'', JText ''https://idp/a'')]"

lemma browser_code_has_state_witness:
  "\<exists>q \<in> set [one_param ''code'' ''evil'', example_callback]. \<exists>c tokens s ep. q ''state'' = Some ''s1'' \<and> q ''code'' = Some c
    \<and> (\<lambda>_. Reply (JObj [(''access_token'', JText ''a'')])) (exchange_payload JNull c [] [] JNull) = Reply tokens
    \<and> persist_tokens 0 ''east'' tokens ep JNull JNull = Inr s
    \<and> Some [(''access_token'', JText ''a''), (''cluster'', JText ''east''), (''expires_at'', JNum 3600), (''token_endpoint'', JText ''https://idp/a'')] = Some s"
proof (rule browser_code_has_state)
  show "browser_auth 0 example_discovery JNull ''east'' JNull True [] ''s1'' [] [one_param ''code'' ''evil'', example_callback]
      (\<lambda>_. Reply (JObj [(''access_token'', JText ''a'')]))
    = Inr (0, Some [(''access_token'', JText ''a''), (''cluster'', JText ''east''), (''expires_at'', JNum 3600), (''token_endpoint'', JText ''https://idp/a'')])"
    by (simp add: browser_auth_def example_discovery_def validate_endpoint_def https_ok handle_callback_def no_callback_def one_param_def
        example_callback_def persist_tokens_def has_key_def set_field_def set_if_def jget_or_def save_tokens_def)
qed


end
