(* ===== verification/Sandbox.thy ===== *)
theory Sandbox
  imports Prelude
begin

text \<open>
  The sandbox of a task, \<^verbatim>\<open>apache/aurora/executor/common/sandbox.py\<close>: a directory, a directory in a Docker
  container, or a directory mounted into the image of a file system.  Creating one is a series of operations on
  the host; the host's answers to them are an argument, which may depend on what was past before.
\<close>

section \<open>Operations on the host\<close>

datatype host_op =
    Make_dir string
  | Change_owner string int int
  | Change_mode string nat
  | Make_symlink string string
  | Touch string
  | Copy string string
  | Remove_tree string
  | Run "string list"
  | Run_output "string list"

text \<open>An operation is done, raises \<^verbatim>\<open>OSError\<close>, or is a command that ends with a code other than 0.\<close>

datatype host_answer = Done | Os_error | Exit_code int

text \<open>The exceptions of a sandbox: its own, and those that are not turned into one.\<close>

datatype sandbox_exn = Creation_error | Deletion_error | Sandbox_error | Called_process_error int | Raised pyexc

record sandbox_host =
  sh_answer :: "host_op list \<Rightarrow> host_op \<Rightarrow> host_answer"
  sh_user :: "string \<Rightarrow> (int \<times> int \<times> string) option"
  sh_is_file :: "string \<Rightarrow> bool"
  sh_exists :: "host_op list \<Rightarrow> string \<Rightarrow> bool"
  sh_mesos_sandbox :: "string option"

text \<open>A procedure runs on the operations done so far, and gives those done after it and its exception, if any.\<close>

type_synonym procedure = "host_op list \<Rightarrow> host_op list \<times> sandbox_exn option"

definition skip :: procedure where "skip past = (past, None)"

definition fail :: "sandbox_exn \<Rightarrow> procedure" where "fail e past = (past, Some e)"

definition andthen :: "procedure \<Rightarrow> procedure \<Rightarrow> procedure" where
  "andthen p q past = then_do (p past) q"

fun steps :: "procedure list \<Rightarrow> procedure" where
  "steps [] = skip"
| "steps (p # ps) = andthen p (steps ps)"

text \<open>An operation with what is raised when it fails.\<close>

definition act :: "sandbox_host \<Rightarrow> host_op \<Rightarrow> (host_answer \<Rightarrow> sandbox_exn) \<Rightarrow> procedure" where
  "act h op err past =
     (case sh_answer h past op of
        Done \<Rightarrow> (past @ [op], None)
      | a \<Rightarrow> (past @ [op], Some (err a)))"

definition plain_error :: "host_answer \<Rightarrow> sandbox_exn" where
  "plain_error a = (case a of Exit_code n \<Rightarrow> Called_process_error n | _ \<Rightarrow> Raised OSError)"

definition creation_error :: "host_answer \<Rightarrow> sandbox_exn" where
  "creation_error a = Creation_error"

section \<open>Paths\<close>

definition join_paths :: "string \<Rightarrow> string \<Rightarrow> string" where
  "join_paths a b =
     (if b \<noteq> [] \<and> hd b = CHR ''/'' then b
      else if a = [] \<or> last a = CHR ''/'' then a @ b else a @ ''/'' @ b)"

text \<open>\<^verbatim>\<open>os.path.dirname\<close>: up to the last slash, without the slashes at its end unless there is nothing else.\<close>

definition dirname :: "string \<Rightarrow> string" where
  "dirname p =
     (let head = rev (dropWhile (\<lambda>c. c \<noteq> CHR ''/'') (rev p));
          cut = rev (dropWhile (\<lambda>c. c = CHR ''/'') (rev head))
      in if cut = [] then head else cut)"

definition lstrip_slash :: "string \<Rightarrow> string" where
  "lstrip_slash s = dropWhile (\<lambda>c. c = CHR ''/'') s"

definition mount_point_name :: string where "mount_point_name = ''taskfs''"

section \<open>The three kinds\<close>

record sandbox_task =
  sk_docker :: bool
  sk_image :: bool
  sk_role :: string

record sandbox_options =
  sp_no_create_user :: bool
  sp_volumes :: "string list option"
  sp_mount_point :: "string option"

datatype sandbox =
    Directory string "string option"
  | Docker string
  | Image string "string option" bool "string list option" string

text \<open>\<^verbatim>\<open>from_assigned_task\<close>; \<open>mesos_dir\<close> is the directory of the environment, whose absence is a \<open>KeyError\<close>.\<close>

definition from_assigned_task :: "string option \<Rightarrow> sandbox_task \<Rightarrow> sandbox_options \<Rightarrow> sandbox_exn + sandbox" where
  "from_assigned_task mesos_dir t opts =
     (case mesos_dir of
        None \<Rightarrow> Inl (Raised KeyError)
      | Some d \<Rightarrow>
          if sk_docker t then Inr (Docker d)
          else if sk_image t then
            (case sp_mount_point opts of
               None \<Rightarrow> Inl Sandbox_error
             | Some m \<Rightarrow> Inr (Image d (Some (sk_role t)) (sp_no_create_user opts) (sp_volumes opts) m))
          else Inr (Directory d (Some (sk_role t))))"

fun mesos_dir_of :: "sandbox \<Rightarrow> string" where
  "mesos_dir_of (Directory d _) = d"
| "mesos_dir_of (Docker d) = d"
| "mesos_dir_of (Image d _ _ _ _) = d"

fun user_of :: "sandbox \<Rightarrow> string option" where
  "user_of (Directory _ u) = u"
| "user_of (Docker _) = None"
| "user_of (Image _ u _ _ _) = u"

definition sandbox_root :: "sandbox \<Rightarrow> string" where
  "sandbox_root s = join_paths (mesos_dir_of s) ''sandbox''"

definition container_root :: "sandbox \<Rightarrow> string" where
  "container_root s = (case s of Image _ _ _ _ m \<Rightarrow> m | _ \<Rightarrow> sandbox_root s)"

definition is_filesystem_image :: "sandbox \<Rightarrow> bool" where
  "is_filesystem_image s = (case s of Image _ _ _ _ _ \<Rightarrow> True | _ \<Rightarrow> False)"

definition sandbox_exists :: "sandbox_host \<Rightarrow> host_op list \<Rightarrow> sandbox \<Rightarrow> bool" where
  "sandbox_exists h past s = sh_exists h past (sandbox_root s)"

section \<open>Creating\<close>

definition set_user :: "string option \<Rightarrow> string option" where
  "set_user u = (case u of Some (c # cs) \<Rightarrow> Some (c # cs) | _ \<Rightarrow> None)"

text \<open>\<^verbatim>\<open>create\<close> of a directory.\<close>

definition create_directory :: "sandbox_host \<Rightarrow> sandbox \<Rightarrow> procedure" where
  "create_directory h s =
     andthen (act h (Make_dir (sandbox_root s)) creation_error)
       (case set_user (user_of s) of
          None \<Rightarrow> skip
        | Some u \<Rightarrow>
            (case sh_user h u of
               None \<Rightarrow> fail Creation_error
             | Some (uid, gid, gname) \<Rightarrow>
                 steps [act h (Change_owner (mesos_dir_of s) uid gid) creation_error,
                        act h (Change_owner (sandbox_root s) uid gid) creation_error,
                        act h (Change_mode (sandbox_root s) 448) creation_error]))"

text \<open>The links of a Docker sandbox; the environment is read inside the \<^verbatim>\<open>try\<close>, but its \<open>KeyError\<close> is not caught.\<close>

definition create_symlinks :: "sandbox_host \<Rightarrow> string \<Rightarrow> procedure" where
  "create_symlinks h d =
     andthen (act h (Make_dir (dirname d)) creation_error)
       (case sh_mesos_sandbox h of
          None \<Rightarrow> fail (Raised KeyError)
        | Some m \<Rightarrow> steps [act h (Make_symlink m d) creation_error, act h (Change_mode m 493) creation_error])"

text \<open>A command whose failure because the name or the id exists is followed by a check of what exists.\<close>

definition already_exists :: "int \<Rightarrow> bool" where "already_exists n = (n = 4 \<or> n = 9)"

text \<open>The checks read bytes and handle them as text, which raises once the command has succeeded.\<close>

definition verify_match :: "sandbox_host \<Rightarrow> string list \<Rightarrow> procedure" where
  "verify_match h cmd past =
     (case sh_answer h past (Run_output cmd) of
        Done \<Rightarrow> (past @ [Run_output cmd], Some (Raised TypeError))
      | Exit_code _ \<Rightarrow> (past @ [Run_output cmd], Some Creation_error)
      | Os_error \<Rightarrow> (past @ [Run_output cmd], Some (Raised OSError)))"

definition add_or_verify :: "sandbox_host \<Rightarrow> string list \<Rightarrow> string list \<Rightarrow> procedure" where
  "add_or_verify h cmd check past =
     (case sh_answer h past (Run cmd) of
        Done \<Rightarrow> (past @ [Run cmd], None)
      | Exit_code n \<Rightarrow> if already_exists n then verify_match h check (past @ [Run cmd]) else (past @ [Run cmd], Some Creation_error)
      | Os_error \<Rightarrow> (past @ [Run cmd], Some (Raised OSError)))"

text \<open>\<open>show\<close> prints an id in decimal.\<close>

definition create_user_and_group :: "(int \<Rightarrow> string) \<Rightarrow> sandbox_host \<Rightarrow> string \<Rightarrow> string option \<Rightarrow> procedure" where
  "create_user_and_group show h taskfs user =
     (case set_user user of
        None \<Rightarrow> skip
      | Some u \<Rightarrow>
          (case sh_user h u of
             None \<Rightarrow> fail Creation_error
           | Some (uid, gid, gname) \<Rightarrow>
               steps [add_or_verify h [''groupadd'', ''-R'', taskfs, ''-g'', show gid, gname] [''chroot'', taskfs, ''getent'', ''group'', gname],
                      add_or_verify h [''useradd'', ''-R'', taskfs, ''-u'', show uid, ''-g'', show gid, u] [''chroot'', taskfs, ''id'', u]]))"

definition do_mount :: "sandbox_host \<Rightarrow> string \<Rightarrow> string \<Rightarrow> procedure" where
  "do_mount h source dest past =
     andthen (if sh_is_file h source \<and> \<not> sh_exists h past dest
              then steps [act h (Make_dir (dirname dest)) plain_error, act h (Touch dest) plain_error]
              else act h (Make_dir dest) plain_error)
       (act h (Run [''mount'', ''-n'', ''--rbind'', source, dest]) plain_error) past"

definition mounts :: "string \<Rightarrow> string list option \<Rightarrow> (string \<times> string) list" where
  "mounts taskfs volumes =
     map (\<lambda>p. (p, join_paths taskfs (lstrip_slash p)))
       (filter (\<lambda>p. p \<noteq> mount_point_name) (case volumes of None \<Rightarrow> [] | Some ps \<Rightarrow> ps))"

definition copy_if_exists :: "sandbox_host \<Rightarrow> string \<Rightarrow> string \<Rightarrow> procedure" where
  "copy_if_exists h source dest past =
     (if sh_exists h past source then act h (Copy source dest) plain_error past else (past, None))"

definition copy_files :: "sandbox_host \<Rightarrow> string \<Rightarrow> procedure" where
  "copy_files h taskfs =
     steps [copy_if_exists h ''/etc/resolv.conf'' (join_paths taskfs ''etc/resolv.conf''),
            copy_if_exists h ''/etc/hosts'' (join_paths taskfs ''etc/hosts''),
            copy_if_exists h ''/etc/hostname'' (join_paths taskfs ''etc/hostname'')]"

definition create_sandbox :: "(int \<Rightarrow> string) \<Rightarrow> sandbox_host \<Rightarrow> sandbox \<Rightarrow> procedure" where
  "create_sandbox show h s =
     (case s of
        Directory _ _ \<Rightarrow> create_directory h s
      | Docker d \<Rightarrow> andthen (create_symlinks h d) (create_directory h s)
      | Image d u no_create_user volumes m \<Rightarrow>
          let taskfs = join_paths d mount_point_name in
          steps ([if no_create_user then skip else create_user_and_group show h taskfs u, create_directory h s]
            @ map (\<lambda>(source, dest). do_mount h source dest) (mounts taskfs volumes @ [(sandbox_root s, join_paths taskfs (lstrip_slash m))])
            @ [copy_files h taskfs]))"

text \<open>\<^verbatim>\<open>safe_rmtree\<close> ignores the errors of what it removes.\<close>

definition destroy_sandbox :: "sandbox_host \<Rightarrow> sandbox \<Rightarrow> procedure" where
  "destroy_sandbox h s past =
     (if sandbox_exists h past s then (past @ [Remove_tree (sandbox_root s)], None) else (past, None))"

section \<open>Procedures that succeed\<close>

named_theorems done_simps \<open>when a procedure ends without an exception\<close>

lemma skip_ok [done_simps]: "skip past = (ops, None) \<longleftrightarrow> ops = past"
  by (auto simp: skip_def)

lemma fail_ok [done_simps]: "fail e past = (ops, None) \<longleftrightarrow> False"
  by (simp add: fail_def)

lemma andthen_ok [done_simps]: "andthen p q past = (ops, None) \<longleftrightarrow> (\<exists>mid. p past = (mid, None) \<and> q mid = (ops, None))"
  by (simp add: andthen_def then_do_ok)

lemma steps_ok [done_simps]:
  "steps [] past = (ops, None) \<longleftrightarrow> ops = past"
  "steps (p # ps) past = (ops, None) \<longleftrightarrow> (\<exists>mid. p past = (mid, None) \<and> steps ps mid = (ops, None))"
  by (auto simp: done_simps)

lemma steps_append_ok: "steps (ps @ qs) past = (ops, None) \<longleftrightarrow> (\<exists>mid. steps ps past = (mid, None) \<and> steps qs mid = (ops, None))"
  by (induction ps arbitrary: past) (auto simp: done_simps simp del: steps.simps)

lemma act_ok [done_simps]: "act h op err past = (ops, None) \<longleftrightarrow> sh_answer h past op = Done \<and> ops = past @ [op]"
  by (auto simp: act_def split: host_answer.split)

lemma verify_never_ok [done_simps]: "verify_match h cmd past = (ops, None) \<longleftrightarrow> False"
  by (simp add: verify_match_def split: host_answer.split)

lemma add_ok [done_simps]: "add_or_verify h cmd check past = (ops, None) \<longleftrightarrow> sh_answer h past (Run cmd) = Done \<and> ops = past @ [Run cmd]"
  by (auto simp: add_or_verify_def done_simps split: host_answer.split)

lemma create_directory_ok:
  assumes "create_directory h s past = (ops, None)" "user_of s = Some u" "u \<noteq> []"
  shows "\<exists>uid gid g. sh_user h u = Some (uid, gid, g) \<and>
    ops = past @ [Make_dir (sandbox_root s), Change_owner (mesos_dir_of s) uid gid, Change_owner (sandbox_root s) uid gid, Change_mode (sandbox_root s) 448]"
proof -
  have "set_user (user_of s) = Some u" using assms(2,3) by (cases u) (simp_all add: set_user_def)
  then show ?thesis using assms(1)
    by (auto simp: create_directory_def done_simps simp del: steps.simps split: option.splits)
qed

text \<open>What a procedure has done it keeps: it only adds operations.\<close>

definition adds :: "procedure \<Rightarrow> bool" where
  "adds p = (\<forall>past. \<exists>new. fst (p past) = past @ new)"

lemma adds_skip [intro]: "adds skip" by (simp add: adds_def skip_def)
lemma adds_fail [intro]: "adds (fail e)" by (simp add: adds_def fail_def)

lemma adds_andthen [intro]: "adds p \<Longrightarrow> adds q \<Longrightarrow> adds (andthen p q)"
proof (unfold adds_def, intro allI)
  fix past assume p: "\<forall>past. \<exists>new. fst (p past) = past @ new" and q: "\<forall>past. \<exists>new. fst (q past) = past @ new"
  obtain mid e where m: "p past = (mid, e)" by (cases "p past")
  then obtain a where a: "mid = past @ a" using p by (metis fst_conv)
  obtain b where b: "fst (q mid) = mid @ b" using q by blast
  show "\<exists>new. fst (andthen p q past) = past @ new"
    using m a b by (cases e) (auto simp: andthen_def)
qed

lemma adds_steps [intro]: "(\<And>p. p \<in> set ps \<Longrightarrow> adds p) \<Longrightarrow> adds (steps ps)"
  by (induction ps) auto

lemma adds_act [intro]: "adds (act h op err)"
  by (auto simp: adds_def act_def split: host_answer.split)

lemma adds_add_or_verify [intro]: "adds (add_or_verify h cmd check)"
  by (auto simp: adds_def add_or_verify_def verify_match_def split: host_answer.split)

lemma adds_do_mount [intro]: "adds (do_mount h a b)"
proof -
  have "adds (andthen (if c then steps [act h (Make_dir x) plain_error, act h (Touch b) plain_error] else act h (Make_dir b) plain_error)
      (act h (Run cmd) plain_error))" for c x cmd by (cases c) auto
  then show ?thesis unfolding adds_def do_mount_def by blast
qed

lemma adds_copy [intro]: "adds (copy_if_exists h a b)"
  by (auto simp: adds_def copy_if_exists_def act_def split: host_answer.split)

lemma adds_copy_files [intro]: "adds (copy_files h taskfs)"
  unfolding copy_files_def by (rule adds_steps) (auto simp del: steps.simps)

lemma adds_ok: "adds p \<Longrightarrow> p past = (ops, e) \<Longrightarrow> \<exists>new. ops = past @ new"
  by (metis adds_def fst_conv)

text \<open>C37: A sandbox made for a user is private to the user when it is ready: its directory was made, the directory of
  Mesos and it were given to the user and its mode set to 0700, in this order and with nothing in between, before
  anything was mounted or copied.\<close>

theorem sandbox_private:
  assumes "create_sandbox show h s [] = (ops, None)" "user_of s = Some u" "u \<noteq> []"
  shows "\<exists>uid gid g users mounted. sh_user h u = Some (uid, gid, g)
    \<and> ops = users @ [Make_dir (sandbox_root s), Change_owner (mesos_dir_of s) uid gid,
        Change_owner (sandbox_root s) uid gid, Change_mode (sandbox_root s) 448] @ mounted
    \<and> (\<forall>op \<in> set users. \<exists>cmd. op = Run cmd)"
proof (cases s)
  case (Directory d u')
  then show ?thesis using create_directory_ok [of h s "[]" ops u] assms
    by (force simp: create_sandbox_def)
next
  case (Docker d)
  then show ?thesis using assms(2) by simp
next
  case (Image d u' no_create_user volumes m)
  let ?taskfs = "join_paths d mount_point_name"
  let ?users = "if no_create_user then skip else create_user_and_group show h ?taskfs u'"
  let ?rest = "map (\<lambda>(source, dest). do_mount h source dest) (mounts ?taskfs volumes @ [(sandbox_root s, join_paths ?taskfs (lstrip_slash m))])
            @ [copy_files h ?taskfs]"
  have "steps ([?users, create_directory h s] @ ?rest) [] = (ops, None)"
    using assms(1) Image by (simp only: create_sandbox_def sandbox.case Let_def append.simps)
  then obtain users mid where u: "?users [] = (users, None)" and c: "create_directory h s users = (mid, None)"
    and r: "steps ?rest mid = (ops, None)"
    unfolding steps_append_ok by (auto simp: done_simps simp del: steps.simps)
  have "\<forall>op \<in> set users. \<exists>cmd. op = Run cmd"
    using u by (auto simp: create_user_and_group_def done_simps simp del: steps.simps split: if_splits option.splits)
  moreover have "adds (steps ?rest)" by (rule adds_steps) (auto simp del: steps.simps)
  then obtain mounted where "ops = mid @ mounted" using adds_ok [where p = "steps ?rest", OF _ r] by blast
  ultimately show ?thesis using create_directory_ok [OF c assms(2,3)] by (metis append_assoc)
qed

section \<open>Users that exist in the image\<close>

text \<open>An image that has the group, with the very id and name, is refused: the check handles bytes as text.\<close>

lemma existing_group_refused:
  assumes "sh_user h u = Some (uid, gid, g)" "u \<noteq> []"
    and "sh_answer h [] (Run [''groupadd'', ''-R'', join_paths d mount_point_name, ''-g'', show gid, g]) = Exit_code 9"
    and "\<And>past cmd. sh_answer h past (Run_output cmd) = Done"
  shows "snd (create_sandbox show h (Image d (Some u) False volumes m) []) = Some (Raised TypeError)"
proof -
  have "set_user (Some u) = Some u" using assms(2) by (cases u) (simp_all add: set_user_def)
  then show ?thesis
    using assms(1,3,4) by (simp add: create_sandbox_def create_user_and_group_def andthen_def add_or_verify_def already_exists_def
        verify_match_def Let_def)
qed

text \<open>A mount that fails is no failure of the sandbox's own.\<close>

lemma failed_mount_escapes:
  assumes "sh_answer h (past @ [Make_dir b]) (Run [''mount'', ''-n'', ''--rbind'', a, b]) = Exit_code 32"
    "sh_answer h past (Make_dir b) = Done" "\<not> sh_is_file h a"
  shows "snd (do_mount h a b past) = Some (Called_process_error 32)"
  using assms by (simp add: do_mount_def andthen_def act_def plain_error_def)

text \<open>A host on which everything works and nothing is there yet.\<close>

definition new_host :: sandbox_host where
  "new_host = \<lparr>sh_answer = (\<lambda>_ _. Done), sh_user = (\<lambda>_. Some (7, 8, ''staff'')), sh_is_file = (\<lambda>_. False), sh_exists = (\<lambda>_ _. False),
     sh_mesos_sandbox = None\<rparr>"

lemma sandbox_private_witness:
  "\<exists>uid gid g users mounted. sh_user new_host ''ann'' = Some (uid, gid, g)
    \<and> [Make_dir ''/m/sandbox'', Change_owner ''/m'' 7 8, Change_owner ''/m/sandbox'' 7 8, Change_mode ''/m/sandbox'' 448]
      = users @ [Make_dir (sandbox_root (Directory ''/m'' (Some ''ann''))), Change_owner (mesos_dir_of (Directory ''/m'' (Some ''ann''))) uid gid,
        Change_owner (sandbox_root (Directory ''/m'' (Some ''ann''))) uid gid, Change_mode (sandbox_root (Directory ''/m'' (Some ''ann''))) 448] @ mounted
    \<and> (\<forall>op \<in> set users. \<exists>cmd. op = Run cmd)"
  by (rule sandbox_private [of "\<lambda>_. []" new_host])
     (simp_all add: create_sandbox_def create_directory_def andthen_def act_def new_host_def set_user_def sandbox_root_def join_paths_def skip_def)

lemma image_sandbox_order:
  "create_sandbox (\<lambda>_. ''7'') new_host (Image ''/m'' (Some ''ann'') False (Some [''/data'', ''taskfs'']) ''/mnt/box'') [] =
   ([Run [''groupadd'', ''-R'', ''/m/taskfs'', ''-g'', ''7'', ''staff''], Run [''useradd'', ''-R'', ''/m/taskfs'', ''-u'', ''7'', ''-g'', ''7'', ''ann''],
     Make_dir ''/m/sandbox'', Change_owner ''/m'' 7 8, Change_owner ''/m/sandbox'' 7 8, Change_mode ''/m/sandbox'' 448,
     Make_dir ''/m/taskfs/data'', Run [''mount'', ''-n'', ''--rbind'', ''/data'', ''/m/taskfs/data''],
     Make_dir ''/m/taskfs/mnt/box'', Run [''mount'', ''-n'', ''--rbind'', ''/m/sandbox'', ''/m/taskfs/mnt/box'']], None)"
  by (simp add: create_sandbox_def create_directory_def create_user_and_group_def add_or_verify_def andthen_def act_def new_host_def set_user_def
      sandbox_root_def join_paths_def skip_def mount_point_name_def mounts_def do_mount_def lstrip_slash_def copy_files_def copy_if_exists_def Let_def)

end
