(* ===== verification/RemoteTask.thy ===== *)
theory RemoteTask
  imports Cli
begin

text \<open>
  Commands on the hosts of a job's tasks: the runner of \<^verbatim>\<open>apache/aurora/client/api/command_runner.py\<close> and the verbs
  run, ssh and scp of \<^verbatim>\<open>apache/aurora/client/cli/task.py\<close>.  The scheduler's answer to the query, the templates of
  pystachio (\<open>fill\<close>) and the programs that are started are arguments.
\<close>

section \<open>Paths\<close>

definition posix_join :: "string \<Rightarrow> string \<Rightarrow> string" where
  "posix_join a b =
     (if b \<noteq> [] \<and> hd b = CHR ''/'' then b
      else if a = [] \<or> last a = CHR ''/'' then a @ b else a @ ''/'' @ b)"

fun split_slash :: "string \<Rightarrow> string list" where
  "split_slash [] = [[]]"
| "split_slash (c # cs) = (if c = CHR ''/'' then [] # split_slash cs
     else (case split_slash cs of [] \<Rightarrow> [[c]] | x # xs \<Rightarrow> (c # x) # xs))"

fun slashes :: "string list \<Rightarrow> string" where
  "slashes [] = []"
| "slashes [x] = x"
| "slashes (x # xs) = x @ ''/'' @ slashes xs"

text \<open>\<^verbatim>\<open>os.path.normpath\<close>: the components so far, in reverse.\<close>

definition norm_step :: "bool \<Rightarrow> string list \<Rightarrow> string \<Rightarrow> string list" where
  "norm_step rooted new part =
     (if part = [] \<or> part = ''.'' then new
      else if part \<noteq> ''..'' \<or> (\<not> rooted \<and> new = []) \<or> (new \<noteq> [] \<and> hd new = ''..'') then part # new
      else tl new)"

definition initial_slashes :: "string \<Rightarrow> nat" where
  "initial_slashes p = (let n = length (takeWhile (\<lambda>c. c = CHR ''/'') p) in if n = 2 then 2 else min n 1)"

definition norm_components :: "string \<Rightarrow> string list" where
  "norm_components p = rev (foldl (norm_step (initial_slashes p > 0)) [] (split_slash p))"

definition normpath :: "string \<Rightarrow> string" where
  "normpath p =
     (let q = replicate (initial_slashes p) (CHR ''/'') @ slashes (norm_components p) in if q = [] then ''.'' else q)"

section \<open>The runner\<close>

record runner_cluster =
  rc_slave_root :: string
  rc_run_directory :: string

text \<open>The parts are joined before they are filled in, so an absolute directory is taken like any other.\<close>

definition make_executor_path :: "runner_cluster \<Rightarrow> string \<Rightarrow> string" where
  "make_executor_path c executor_name =
     rc_slave_root c @ ''/slaves/*/frameworks/*/executors/'' @ executor_name @ ''/runs/'' @ rc_run_directory c"

definition thermos_sandbox :: "runner_cluster \<Rightarrow> bool \<Rightarrow> string" where
  "thermos_sandbox c executor_sandbox =
     (let sandbox = make_executor_path c ''thermos-{{thermos.task_id}}'' in
      if executor_sandbox then sandbox else posix_join sandbox ''sandbox'')"

text \<open>A task as the scheduler tells it.\<close>

record remote_task =
  rt_id :: string
  rt_host :: string
  rt_role :: string
  rt_instance :: int
  rt_ports :: "(string \<times> int) list"

definition substitute :: "(string \<Rightarrow> remote_task \<Rightarrow> string) \<Rightarrow> runner_cluster \<Rightarrow> bool \<Rightarrow> string \<Rightarrow> remote_task \<Rightarrow> string" where
  "substitute fill c executor_sandbox command t = fill (''cd '' @ thermos_sandbox c executor_sandbox @ '';'' @ command) t"

text \<open>\<^verbatim>\<open>_SSH_SAFE\<close>: its \<^verbatim>\<open>$\<close> also matches before a newline at the end.\<close>

definition safe_char :: "char \<Rightarrow> bool" where
  "safe_char c = (let n = (of_char c :: nat) in
     (97 \<le> n \<and> n \<le> 122) \<or> (65 \<le> n \<and> n \<le> 90) \<or> (48 \<le> n \<and> n \<le> 57) \<or> c = CHR ''.'' \<or> c = CHR ''_'' \<or> c = CHR ''-'')"

definition newline :: char where "newline = CHR 0x0A"

definition ssh_safe :: "string \<Rightarrow> bool" where
  "ssh_safe s = (let t = (if s \<noteq> [] \<and> last s = newline then butlast s else s) in t \<noteq> [] \<and> list_all safe_char t)"

definition ssh_run_command :: "string list \<Rightarrow> string \<Rightarrow> string \<Rightarrow> string \<Rightarrow> string list" where
  "ssh_run_command options role host command = [''ssh'', ''-n'', ''-q''] @ options @ [role @ ''@'' @ host, command]"

text \<open>The lines of the output are bytes; \<open>show\<close> is their \<^verbatim>\<open>repr\<close>, which is what \<^verbatim>\<open>%s\<close> prints of them.\<close>

fun join_lines :: "string list \<Rightarrow> string" where
  "join_lines [] = []"
| "join_lines [x] = x"
| "join_lines (x # xs) = x @ newline # join_lines xs"

definition execute_remote :: "(string list \<Rightarrow> string list) \<Rightarrow> (string \<Rightarrow> string) \<Rightarrow> string list \<Rightarrow> string \<times> string \<times> string
    \<Rightarrow> string list list \<times> string" where
  "execute_remote program show options args =
     (case args of (host, role, command) \<Rightarrow>
        if \<not> ssh_safe host \<or> \<not> ssh_safe role then ([], [])
        else let cmd = ssh_run_command options role host command in
          ([cmd], join_lines (map (\<lambda>line. host @ '':  '' @ show line) (program cmd))))"

definition runner_user :: "string option \<Rightarrow> string \<Rightarrow> string" where
  "runner_user ssh_user role = (case ssh_user of Some (c # cs) \<Rightarrow> c # cs | _ \<Rightarrow> role)"

text \<open>The query of each runner: a failed one is skipped for the jobs, and raises for the instances.\<close>

type_synonym task_answer = "bool \<times> remote_task list"

definition resolve_jobs :: "task_answer list \<Rightarrow> remote_task list" where
  "resolve_jobs answers = concat (map (\<lambda>(ok, ts). if ok then ts else []) answers)"

definition resolve_instances :: "task_answer \<Rightarrow> pyexc + remote_task list" where
  "resolve_instances answer = (if fst answer then Inr (snd answer) else Inl ValueError)"

definition process_arguments :: "(string \<Rightarrow> remote_task \<Rightarrow> string) \<Rightarrow> runner_cluster \<Rightarrow> bool \<Rightarrow> string \<Rightarrow> string \<Rightarrow> remote_task list
    \<Rightarrow> (string \<times> string \<times> string) list" where
  "process_arguments fill c executor_sandbox user command ts =
     map (\<lambda>t. (rt_host t, user, substitute fill c executor_sandbox command t)) ts"

section \<open>The verb run\<close>

text \<open>Everything started, and the exit code.  The results come in any order.\<close>

record ssh_options =
  so_user :: "string option"
  so_options :: "string list"
  so_executor_sandbox :: bool

definition run_verb :: "(string \<Rightarrow> remote_task \<Rightarrow> string) \<Rightarrow> (string list \<Rightarrow> string list) \<Rightarrow> (string \<Rightarrow> string) \<Rightarrow> runner_cluster
    \<Rightarrow> ssh_options \<Rightarrow> string \<Rightarrow> string \<Rightarrow> task_answer \<Rightarrow> pyexc + string list list \<times> int" where
  "run_verb fill program show c o' role command answer =
     rbind (resolve_instances answer) (\<lambda>ts.
       Inr (concat (map (\<lambda>a. fst (execute_remote program show (so_options o') a))
              (process_arguments fill c (so_executor_sandbox o') (runner_user (so_user o') role) command ts)), exit_ok))"

section \<open>The verb ssh\<close>

datatype remote_exn = Command_failed int | Escaped pyexc

text \<open>A port and a name, or the exit code for the parameter.  A port that is no number and a spec with more or fewer
  colons raise \<open>ValueError\<close>, which is caught.\<close>

fun split_colon :: "string \<Rightarrow> string list" where
  "split_colon [] = [[]]"
| "split_colon (c # cs) = (if c = CHR '':'' then [] # split_colon cs
     else (case split_colon cs of [] \<Rightarrow> [[c]] | x # xs \<Rightarrow> (c # x) # xs))"

definition parse_tunnel :: "remote_task \<Rightarrow> string \<Rightarrow> remote_exn + int \<times> int" where
  "parse_tunnel t spec =
     (case split_colon spec of
        [port, name] \<Rightarrow>
          (case py_int port of
             None \<Rightarrow> Inl (Command_failed exit_invalid_parameter)
           | Some p \<Rightarrow>
               (case map_of (rt_ports t) name of
                  None \<Rightarrow> Inl (Command_failed exit_invalid_parameter)
                | Some remote \<Rightarrow> Inr (p, remote)))
      | _ \<Rightarrow> Inl (Command_failed exit_invalid_parameter))"

definition tunnel_args :: "(int \<Rightarrow> string) \<Rightarrow> string \<Rightarrow> int \<times> int \<Rightarrow> string list" where
  "tunnel_args dec host pr = (case pr of (p, remote) \<Rightarrow> [''-L'', dec p @ '':'' @ host @ '':'' @ dec remote])"

text \<open>The first task of the answer: an error of the scheduler and an empty answer are commands that fail.\<close>

definition first_task :: "bool \<times> remote_task list option \<Rightarrow> remote_exn + remote_task" where
  "first_task answer =
     (if \<not> fst answer then Inl (Command_failed exit_api_error)
      else case snd answer of
        Some (t # _) \<Rightarrow> Inr t
      | _ \<Rightarrow> Inl (Command_failed exit_invalid_parameter))"

definition shell_or :: "string option \<Rightarrow> string" where
  "shell_or command = (case command of Some (c # cs) \<Rightarrow> c # cs | _ \<Rightarrow> ''bash'')"

definition given_command :: "string option \<Rightarrow> bool" where
  "given_command command = (command \<noteq> None \<and> command \<noteq> Some [])"

definition ssh_verb :: "(string \<Rightarrow> remote_task \<Rightarrow> string) \<Rightarrow> (int \<Rightarrow> string) \<Rightarrow> (string list \<Rightarrow> int) \<Rightarrow> runner_cluster \<Rightarrow> ssh_options
    \<Rightarrow> int list option \<Rightarrow> string option \<Rightarrow> string list \<Rightarrow> bool \<times> remote_task list option \<Rightarrow> remote_exn + string list \<times> int" where
  "ssh_verb fill dec program c o' instances command tunnels answer =
     (if instances = None \<and> given_command command then Inl (Command_failed exit_invalid_parameter)
      else rbind (first_task answer) (\<lambda>t.
        rbind (traverse (parse_tunnel t) tunnels) (\<lambda>ps.
          let cmd = [''ssh'', ''-t''] @ so_options o' @ concat (map (tunnel_args dec (rt_host t)) ps)
            @ [runner_user (so_user o') (rt_role t) @ ''@'' @ rt_host t,
               substitute fill c (so_executor_sandbox o') (shell_or command) t]
          in Inr (cmd, program cmd))))"

section \<open>The verb scp\<close>

text \<open>A source or destination: a local path, or a path of a task.\<close>

definition task_and_path :: "string \<Rightarrow> remote_exn + (aurora_job_key \<times> int) option \<times> string" where
  "task_and_path file_path =
     (if CHR '':'' \<notin> set file_path then Inr (None, file_path)
      else let key = takeWhile (\<lambda>c. c \<noteq> CHR '':'') file_path; path = tl (dropWhile (\<lambda>c. c \<noteq> CHR '':'') file_path) in
        case parse_task_instance_key key of
          Inl _ \<Rightarrow> Inl (Command_failed exit_invalid_parameter)
        | Inr k \<Rightarrow> Inr (Some k, path))"

definition tilde :: "string \<Rightarrow> bool" where
  "tilde p = (take 2 p = ''~/'' \<or> p = ''~'')"

definition remote_path :: "(string \<Rightarrow> remote_task \<Rightarrow> string) \<Rightarrow> runner_cluster \<Rightarrow> bool \<Rightarrow> remote_task \<Rightarrow> string \<Rightarrow> remote_exn + string" where
  "remote_path fill c executor_sandbox t path =
     (let p = normpath path in
      if p \<noteq> [] \<and> hd p = CHR ''/'' then Inr p
      else if tilde p then Inl (Command_failed exit_invalid_parameter)
      else Inr (foldl posix_join (fill (thermos_sandbox c executor_sandbox) t) (split_slash p)))"

definition build_path :: "(string \<Rightarrow> remote_task \<Rightarrow> string) \<Rightarrow> runner_cluster \<Rightarrow> bool
    \<Rightarrow> (aurora_job_key \<times> int \<Rightarrow> bool \<times> remote_task list option) \<Rightarrow> string \<Rightarrow> remote_exn + string" where
  "build_path fill c executor_sandbox query target =
     rbind (task_and_path target) (\<lambda>(instance, path).
       case instance of
         None \<Rightarrow> Inr path
       | Some k \<Rightarrow>
           rbind (first_task (query k)) (\<lambda>t.
             rbind (remote_path fill c executor_sandbox t path) (\<lambda>final.
               Inr (rt_role t @ ''@'' @ rt_host t @ '':'' @ final))))"

definition scp_verb :: "(string \<Rightarrow> remote_task \<Rightarrow> string) \<Rightarrow> (string list \<Rightarrow> int) \<Rightarrow> runner_cluster \<Rightarrow> bool \<Rightarrow> string list
    \<Rightarrow> (aurora_job_key \<times> int \<Rightarrow> bool \<times> remote_task list option) \<Rightarrow> string list \<Rightarrow> string \<Rightarrow> remote_exn + string list \<times> int" where
  "scp_verb fill program c executor_sandbox options query sources dest =
     rbind (traverse (build_path fill c executor_sandbox query) sources) (\<lambda>ss.
       rbind (build_path fill c executor_sandbox query dest) (\<lambda>d.
         let cmd = ''scp'' # options @ ss @ [d] in Inr (cmd, program cmd)))"

section \<open>Splitting and joining\<close>

lemma split_slash_nonempty [simp]: "split_slash s \<noteq> []"
  by (induction s) (auto split: list.splits)

lemma split_slash_parts: "x \<in> set (split_slash s) \<Longrightarrow> CHR ''/'' \<notin> set x"
proof (induction s arbitrary: x)
  case (Cons c s)
  then show ?case
  proof (cases "c = CHR ''/''")
    case False
    obtain y ys where y: "split_slash s = y # ys" by (cases "split_slash s") auto
    then have "x = c # y \<or> x \<in> set ys" using Cons.prems False by auto
    then show ?thesis using Cons.IH [of y] Cons.IH [of x] y False by auto
  qed auto
qed simp

lemma split_slash_plain: "CHR ''/'' \<notin> set x \<Longrightarrow> split_slash x = [x]"
  by (induction x) auto

lemma split_slash_cons: "CHR ''/'' \<notin> set x \<Longrightarrow> split_slash (x @ CHR ''/'' # rest) = x # split_slash rest"
  by (induction x) auto

lemma split_slashes:
  "xs \<noteq> [] \<Longrightarrow> \<forall>x \<in> set xs. CHR ''/'' \<notin> set x \<Longrightarrow> split_slash (slashes xs) = xs"
proof (induction xs rule: slashes.induct)
  case (3 x y ys)
  then show ?case using split_slash_cons [of x "slashes (y # ys)"] by simp
qed (simp_all add: split_slash_plain)

lemma foldl_posix_join:
  assumes "\<forall>x \<in> set xs. x \<noteq> [] \<and> CHR ''/'' \<notin> set x" "xs \<noteq> []"
  shows "foldl posix_join base xs = (if base = [] \<or> last base = CHR ''/'' then base else base @ ''/'') @ slashes xs"
  using assms
proof (induction xs arbitrary: base rule: slashes.induct)
  case (2 x)
  then have "hd x \<noteq> CHR ''/''" by (metis hd_in_set list.set_intros(1))
  then show ?case using 2 by (simp add: posix_join_def)
next
  case (3 x y ys)
  have h: "hd x \<noteq> CHR ''/''" "last x \<noteq> CHR ''/''" "x \<noteq> []"
    using 3 by (metis hd_in_set list.set_intros(1), metis last_in_set list.set_intros(1), simp)
  then have j: "posix_join base x = (if base = [] \<or> last base = CHR ''/'' then base else base @ ''/'') @ x"
    by (simp add: posix_join_def)
  have "foldl posix_join (posix_join base x) (y # ys)
      = (if posix_join base x = [] \<or> last (posix_join base x) = CHR ''/'' then posix_join base x else posix_join base x @ ''/'') @ slashes (y # ys)"
    using 3 by simp
  moreover have "posix_join base x \<noteq> []" "last (posix_join base x) \<noteq> CHR ''/''" using j h by simp_all
  ultimately have "foldl posix_join base (x # y # ys) = posix_join base x @ ''/'' @ slashes (y # ys)" by simp
  then show ?case unfolding j by simp
qed simp

section \<open>Normal paths\<close>

text \<open>Whatever is above comes first, and nothing is above the root.\<close>

definition ups_first :: "bool \<Rightarrow> string list \<Rightarrow> bool" where
  "ups_first rooted xs = (\<exists>k ys. xs = replicate k ''..'' @ ys \<and> ''..'' \<notin> set ys \<and> (rooted \<longrightarrow> k = 0))"

lemma ups_first_nil: "ups_first rooted []"
  by (auto simp: ups_first_def intro: exI [of _ "0 :: nat"])

lemma norm_step_ups:
  assumes "ups_first rooted (rev new)"
  shows "ups_first rooted (rev (norm_step rooted new part))"
proof -
  obtain k ys where k: "rev new = replicate k ''..'' @ ys" "''..'' \<notin> set ys" "rooted \<longrightarrow> k = 0"
    using assms by (auto simp: ups_first_def)
  consider "part = [] \<or> part = ''.''" | "part \<noteq> [] \<and> part \<noteq> ''.'' \<and> part \<noteq> ''..''"
    | "part = ''..''" "(\<not> rooted \<and> new = []) \<or> (new \<noteq> [] \<and> hd new = ''..'')"
    | "part = ''..''" "\<not> ((\<not> rooted \<and> new = []) \<or> (new \<noteq> [] \<and> hd new = ''..''))"
    by blast
  then show ?thesis
  proof cases
    case 1
    then show ?thesis using assms by (auto simp: norm_step_def)
  next
    case 2
    then have "rev (norm_step rooted new part) = replicate k ''..'' @ (ys @ [part])" using k by (simp add: norm_step_def)
    moreover have "''..'' \<notin> set (ys @ [part])" using 2 k by auto
    ultimately show ?thesis using k(3) unfolding ups_first_def by blast
  next
    case 3
    have ys: "ys = []"
    proof (rule ccontr)
      assume ys: "ys \<noteq> []"
      then have new: "new \<noteq> []" using k(1) by auto
      then have "last (rev new) = ''..''" using 3(2) by (simp add: last_rev)
      then have "last ys = ''..''" using k(1) ys by simp
      then show False using k(2) last_in_set [OF ys] by simp
    qed
    have "rooted \<longrightarrow> False" using 3(2) k ys by auto
    moreover have "rev (norm_step rooted new part) = replicate (Suc k) ''..'' @ []"
      using 3 k(1) ys by (simp add: norm_step_def replicate_append_same)
    ultimately show ?thesis unfolding ups_first_def by (metis empty_iff list.set(1))
  next
    case 4
    then have r: "rev (norm_step rooted new part) = butlast (rev new)" by (auto simp: norm_step_def butlast_rev)
    show ?thesis
    proof (cases ys rule: rev_cases)
      case Nil
      have "new = []"
      proof (rule ccontr)
        assume new: "new \<noteq> []"
        then have "hd new = last (replicate k ''..'')" using k(1) Nil by (metis append_Nil2 hd_rev rev_rev_ident)
        moreover have "k \<noteq> 0" using new k(1) Nil by (cases k) auto
        ultimately show False using 4(2) new by simp
      qed
      then show ?thesis using r by (simp add: ups_first_nil)
    next
      case (snoc zs z)
      then have "butlast (rev new) = replicate k ''..'' @ zs" using k(1) by (simp add: butlast_append)
      then show ?thesis using r k(2,3) snoc unfolding ups_first_def by auto
    qed
  qed
qed

lemma norm_components_ups: "ups_first (initial_slashes p > 0) (norm_components p)"
proof -
  have "ups_first rooted (rev new) \<Longrightarrow> ups_first rooted (rev (foldl (norm_step rooted) new parts))" for rooted new parts
    by (induction parts arbitrary: new) (simp_all add: norm_step_ups)
  from this [of "initial_slashes p > 0" "[]"] show ?thesis by (simp add: norm_components_def ups_first_nil)
qed

lemma norm_components_parts: "x \<in> set (norm_components p) \<Longrightarrow> x \<noteq> [] \<and> x \<noteq> ''.'' \<and> CHR ''/'' \<notin> set x"
proof -
  have "\<forall>x \<in> set (foldl (norm_step rooted) new parts). x \<in> set new \<or> (x \<in> set parts \<and> x \<noteq> [] \<and> x \<noteq> ''.'')" for rooted new parts
  proof (induction parts arbitrary: new)
    case (Cons a parts)
    have "set (norm_step rooted new a) \<subseteq> set new \<union> (if a = [] \<or> a = ''.'' then {} else {a})"
      by (cases new) (auto simp: norm_step_def)
    then show ?case using Cons.IH [of "norm_step rooted new a"] by (fastforce split: if_splits)
  qed simp
  moreover assume "x \<in> set (norm_components p)"
  ultimately show ?thesis unfolding norm_components_def by (fastforce dest: split_slash_parts)
qed

section \<open>Where scp copies\<close>

lemma hd_slashes: "xs \<noteq> [] \<Longrightarrow> hd xs \<noteq> [] \<Longrightarrow> hd (slashes xs) = hd (hd xs)"
  by (cases xs rule: slashes.cases) auto

lemma slashes_nonempty: "xs \<noteq> [] \<Longrightarrow> hd xs \<noteq> [] \<Longrightarrow> slashes xs \<noteq> []"
  by (cases xs rule: slashes.cases) auto

definition with_slash :: "string \<Rightarrow> string" where
  "with_slash base = (if base = [] \<or> last base = CHR ''/'' then base else base @ ''/'')"

text \<open>A relative path of scp is taken below the sandbox, component by component, after its dots are resolved: what
  is left starts with all the steps up, so it stays inside exactly when there is none; a tilde is refused.\<close>

theorem scp_path_exact:
  assumes "path = [] \<or> hd path \<noteq> CHR ''/''"
  shows "\<exists>ups xs. norm_components path = replicate ups ''..'' @ xs \<and> ''..'' \<notin> set xs \<and>
    remote_path fill c executor_sandbox t path =
      (if tilde (normpath path) then Inl (Command_failed exit_invalid_parameter)
       else Inr (with_slash (fill (thermos_sandbox c executor_sandbox) t)
         @ (if norm_components path = [] then ''.'' else slashes (norm_components path))))"
proof -
  let ?cs = "norm_components path"
  obtain ups xs where u: "?cs = replicate ups ''..'' @ xs" "''..'' \<notin> set xs"
    using norm_components_ups [of path] by (auto simp: ups_first_def)
  have i: "initial_slashes path = 0" using assms by (cases path) (auto simp: initial_slashes_def)
  have parts: "\<forall>x \<in> set ?cs. x \<noteq> [] \<and> CHR ''/'' \<notin> set x" using norm_components_parts by blast
  define p where "p = (if ?cs = [] then [''.''] else ?cs)"
  have pp: "p \<noteq> []" "\<forall>x \<in> set p. x \<noteq> [] \<and> CHR ''/'' \<notin> set x" using parts by (auto simp: p_def)
  have n: "normpath path = slashes p"
    using i parts slashes_nonempty [of ?cs] by (auto simp: normpath_def p_def)
  have "hd p \<in> set p" using pp(1) by simp
  then have h: "hd p \<noteq> []" "CHR ''/'' \<notin> set (hd p)" using pp(2) by auto
  then have "hd (normpath path) \<noteq> CHR ''/''" using n hd_slashes [OF pp(1)] by (metis hd_in_set)
  moreover have "split_slash (normpath path) = p" unfolding n using pp by (intro split_slashes) auto
  moreover have "foldl posix_join base p = with_slash base @ slashes p" for base
    unfolding with_slash_def using pp by (intro foldl_posix_join) auto
  ultimately have "remote_path fill c executor_sandbox t path =
      (if tilde (normpath path) then Inl (Command_failed exit_invalid_parameter)
       else Inr (with_slash (fill (thermos_sandbox c executor_sandbox) t) @ slashes p))"
    by (simp add: remote_path_def Let_def)
  then show ?thesis using u by (intro exI [of _ ups] exI [of _ xs]) (simp add: p_def)
qed

lemma scp_path_exact_witness:
  "normpath ''logs/./a/../../../b'' = ''../b'' \<and>
   (\<exists>ups xs. norm_components ''logs/./a/../../../b'' = replicate ups ''..'' @ xs \<and> ''..'' \<notin> set xs \<and>
    remote_path (\<lambda>s _. s) \<lparr>rc_slave_root = ''/r'', rc_run_directory = ''latest''\<rparr> False
      \<lparr>rt_id = ''t'', rt_host = ''h'', rt_role = ''ann'', rt_instance = 0, rt_ports = []\<rparr> ''logs/./a/../../../b'' =
      (if tilde (normpath ''logs/./a/../../../b'') then Inl (Command_failed exit_invalid_parameter)
       else Inr (with_slash (thermos_sandbox \<lparr>rc_slave_root = ''/r'', rc_run_directory = ''latest''\<rparr> False)
         @ (if norm_components ''logs/./a/../../../b'' = [] then ''.'' else slashes (norm_components ''logs/./a/../../../b'')))))"
  by (intro conjI scp_path_exact) (code_simp, simp)

section \<open>What is started\<close>

lemma started_only_safe:
  "cmd \<in> set (fst (execute_remote program show options (host, role, command))) \<Longrightarrow>
     ssh_safe host \<and> ssh_safe role \<and> cmd = [''ssh'', ''-n'', ''-q''] @ options @ [role @ ''@'' @ host, command]"
  by (auto simp: execute_remote_def ssh_run_command_def Let_def split: if_splits)

text \<open>A newline at the end of a host passes the check, and a user that starts like an option does too.\<close>

lemma safe_with_newline: "ssh_safe (''host'' @ [newline])"
  by (simp add: ssh_safe_def newline_def safe_char_def)

lemma safe_option: "ssh_safe ''-F''"
  by (simp add: ssh_safe_def newline_def safe_char_def)

text \<open>The exit code of run says nothing of the commands: it is 0 whenever the tasks were found.\<close>

lemma run_exits_zero: "run_verb fill program show c o' role command (True, ts) = Inr (r, n) \<Longrightarrow> n = 0"
  by (simp add: run_verb_def resolve_instances_def exit_ok_def)

text \<open>A tunnel is to a port the task has, or the command fails without starting ssh.\<close>

lemma tunnels_to_known_ports:
  "parse_tunnel t spec = Inr (p, remote) \<Longrightarrow> \<exists>name. map_of (rt_ports t) name = Some remote"
  by (auto simp: parse_tunnel_def split: list.splits option.splits)

lemma bad_tunnel_starts_nothing:
  assumes "parse_tunnel t spec = Inl e" "spec \<in> set tunnels"
  shows "\<exists>e. ssh_verb fill dec program c o' instances command tunnels (True, Some (t # ts)) = Inl e"
proof -
  have "\<nexists>ps. traverse (parse_tunnel t) tunnels = Inr ps"
    using assms by (auto simp: traverse_Inr_iff list_all2_conv_all_nth in_set_conv_nth)
  then obtain e' where "traverse (parse_tunnel t) tunnels = Inl e'" by (cases "traverse (parse_tunnel t) tunnels") auto
  then show ?thesis by (simp add: ssh_verb_def first_task_def)
qed

end
