(* ===== verification/Announcer.thy ===== *)
theory Announcer
  imports JobConfig Status
begin

text \<open>
  Announcing a task in ZooKeeper, \<^verbatim>\<open>apache/aurora/executor/common/announcer.py\<close>: the end points of the task, the
  checker that starts the announcer, and the announcer itself, whose thread joins the server set while expirations
  and the stop come from other threads.  Their steps interleave in any order; ZooKeeper and the group of
  \<^verbatim>\<open>twitter.common.zookeeper\<close> answer a join with a member, with its error member, or with an exception.
\<close>

section \<open>End points\<close>

type_synonym endpoint = "string \<times> int"

text \<open>The ports that are resolved are integers, so all of them become end points.\<close>

definition make_endpoints :: "string \<Rightarrow> (string \<times> int) list \<Rightarrow> string \<Rightarrow> endpoint \<times> (string \<times> endpoint) list" where
  "make_endpoints hostname portmap primary_port =
     ((hostname, case map_of portmap primary_port of None \<Rightarrow> 0 | Some p \<Rightarrow> p), map (\<lambda>(name, port). (name, (hostname, port))) portmap)"

record announce_config =
  nc_primary_port :: string
  nc_zk_path :: "string option"

record announce_task =
  nt_announce :: "announce_config option"
  nt_slave_host :: string
  nt_role :: string
  nt_environment :: string
  nt_name :: string
  nt_initial_interval :: rat
  nt_interval :: rat
  nt_max_failures :: int

record announce_options =
  np_allow_custom_path :: bool
  np_hostname :: "string option"
  np_root :: string

definition path_part :: "string \<Rightarrow> string \<Rightarrow> string" where
  "path_part a b =
     (if b \<noteq> [] \<and> hd b = CHR ''/'' then b
      else if a = [] \<or> last a = CHR ''/'' then a @ b else a @ ''/'' @ b)"

definition make_zk_path :: "string \<Rightarrow> announce_task \<Rightarrow> string" where
  "make_zk_path base t = foldl path_part base [nt_role t, nt_environment t, nt_name t]"

record announce_plan =
  pl_path :: string
  pl_timeout :: rat
  pl_endpoint :: endpoint
  pl_additional :: "(string \<times> endpoint) list"

text \<open>\<^verbatim>\<open>from_assigned_task\<close> on the resolved ports: nothing to announce, an error that ends the executor, or a plan.\<close>

datatype announce_choice = No_announce | Executor_error | Announce announce_plan

definition from_assigned_task :: "announce_options \<Rightarrow> (string \<times> int) list \<Rightarrow> announce_task \<Rightarrow> announce_choice" where
  "from_assigned_task opts portmap t =
     (case nt_announce t of
        None \<Rightarrow> No_announce
      | Some a \<Rightarrow>
          let host = (case np_hostname opts of Some (c # cs) \<Rightarrow> c # cs | _ \<Rightarrow> nt_slave_host t);
              (endpoint, additional) = make_endpoints host portmap (nc_primary_port a);
              plan = (\<lambda>path. Announce \<lparr>pl_path = path, pl_timeout = nt_initial_interval t + of_int (nt_max_failures t) * nt_interval t,
                 pl_endpoint = endpoint, pl_additional = additional\<rparr>)
          in case nc_zk_path a of
               None \<Rightarrow> plan (make_zk_path (np_root opts) t)
             | Some p \<Rightarrow> if np_allow_custom_path opts then plan p else Executor_error)"

section \<open>The announcer\<close>

text \<open>A membership is a member's number or the error member, which the group returns when a join fails with an
  exception of ZooKeeper.\<close>

datatype membership = Member nat | Error_member

text \<open>Where the thread is.  \<open>Joined\<close> has the membership that the group returned but not stored yet; \<open>Settled\<close> has
  stored it, and has still to clear the time of its termination.\<close>

datatype place = Not_started | At_head | Waiting | Checking | Joining | Joined membership | Settled | Died | Over

record announcer =
  an_membership :: "membership option"
  an_terminated :: "rat option"
  an_rejoin :: bool
  an_thread :: bool
  an_stopped :: bool
  an_at :: place
  an_zk :: "nat list"
  an_next :: nat

definition new_announcer :: "rat \<Rightarrow> announcer" where
  "new_announcer now = \<lparr>an_membership = None, an_terminated = Some now, an_rejoin = False, an_thread = False, an_stopped = False,
     an_at = Not_started, an_zk = [], an_next = 0\<rparr>"

text \<open>What the other threads and ZooKeeper do, and the thread's own steps.\<close>

datatype announcer_event = Start | Stop | Expire rat nat | Thread_step | Join_fails | Join_refused | Join_succeeds

definition on_expiration :: "rat \<Rightarrow> announcer \<Rightarrow> announcer" where
  "on_expiration now s =
     (if an_thread s then s\<lparr>an_membership := None, an_terminated := Some now, an_rejoin := True\<rparr> else s\<lparr>an_membership := None\<rparr>)"

definition cancel_membership :: "announcer \<Rightarrow> announcer" where
  "cancel_membership s =
     (case an_membership s of Some (Member n) \<Rightarrow> s\<lparr>an_zk := filter (\<lambda>m. m \<noteq> n) (an_zk s)\<rparr> | _ \<Rightarrow> s)"

text \<open>One step of the thread outside the join itself.\<close>

definition thread_step :: "announcer \<Rightarrow> announcer option" where
  "thread_step s =
     (case an_at s of
        At_head \<Rightarrow> Some (s\<lparr>an_at := if an_stopped s then Over else Waiting\<rparr>)
      | Waiting \<Rightarrow> Some (if an_rejoin s then s\<lparr>an_rejoin := False, an_at := Checking\<rparr> else s\<lparr>an_at := At_head\<rparr>)
      | Checking \<Rightarrow> Some (s\<lparr>an_at := if an_membership s = None then Joining else Died\<rparr>)
      | Joined m \<Rightarrow> Some (s\<lparr>an_membership := Some m, an_at := Settled\<rparr>)
      | Settled \<Rightarrow> Some (s\<lparr>an_terminated := None, an_at := At_head\<rparr>)
      | _ \<Rightarrow> None)"

definition announcer_step :: "announcer_event \<Rightarrow> announcer \<Rightarrow> announcer option" where
  "announcer_step e s =
     (case e of
        Start \<Rightarrow> if an_at s = Not_started then Some (s\<lparr>an_thread := True, an_at := At_head, an_rejoin := True\<rparr>) else None
      | Stop \<Rightarrow> if an_thread s then Some (cancel_membership (s\<lparr>an_thread := False, an_stopped := True\<rparr>)) else None
      | Expire now n \<Rightarrow> if n \<in> set (an_zk s) then Some (on_expiration now (s\<lparr>an_zk := filter (\<lambda>m. m \<noteq> n) (an_zk s)\<rparr>)) else None
      | Thread_step \<Rightarrow> thread_step s
      | Join_fails \<Rightarrow> if an_at s = Joining then Some s else None
      | Join_refused \<Rightarrow> if an_at s = Joining then Some (s\<lparr>an_at := Joined Error_member\<rparr>) else None
      | Join_succeeds \<Rightarrow>
          if an_at s = Joining
          then Some (s\<lparr>an_at := Joined (Member (an_next s)), an_zk := an_zk s @ [an_next s], an_next := an_next s + 1\<rparr>) else None)"

definition disconnected_time :: "rat \<Rightarrow> announcer \<Rightarrow> rat" where
  "disconnected_time now s = (case an_terminated s of None \<Rightarrow> 0 | Some t \<Rightarrow> now - t)"

inductive announces :: "rat \<Rightarrow> announcer \<Rightarrow> bool" for t0 where
  announces_new: "announces t0 (new_announcer t0)"
| announces_step: "announces t0 s \<Longrightarrow> announcer_step e s = Some s' \<Longrightarrow> announces t0 s'"

fun run_events :: "announcer_event list \<Rightarrow> announcer \<Rightarrow> announcer option" where
  "run_events [] s = Some s"
| "run_events (e # es) s = (case announcer_step e s of None \<Rightarrow> None | Some s' \<Rightarrow> run_events es s')"

section \<open>The checker\<close>

text \<open>\<^verbatim>\<open>_start\<close>: whether ZooKeeper was reached in time; the status it reports, and whether the announcer is started.\<close>

definition checker_start :: "bool \<Rightarrow> status_result option \<times> bool" where
  "checker_start reached =
     (if reached then (None, True)
      else (Some \<lparr>sr_reason = Some ''Creating Announcer Serverset timed out.'', sr_status = TASK_FAILED\<rparr>, False))"

section \<open>Registered, or on the way\<close>












section \<open>Runs that end badly\<close>

lemma run_events_announces: "announces t s \<Longrightarrow> run_events es s = Some s' \<Longrightarrow> announces t s'"
  by (induction es arbitrary: s) (auto intro: announces_step split: option.splits)


text \<open>A stop during the join is lost: the thread goes on trying, and a join that succeeds afterwards leaves the
  stopped task registered, with the thread over and the membership never cancelled.\<close>

theorem stop_during_join_leaks:
  "\<exists>s. announces t s \<and> an_stopped s \<and> an_at s = Over \<and> an_zk s = [0]
     \<and> run_events [Start, Thread_step, Thread_step, Thread_step, Join_fails, Stop, Join_succeeds, Thread_step, Thread_step, Thread_step]
         (new_announcer t) = Some s"
proof -
  obtain s where s: "run_events [Start, Thread_step, Thread_step, Thread_step, Join_fails, Stop, Join_succeeds, Thread_step, Thread_step, Thread_step]
      (new_announcer t) = Some s" "an_stopped s" "an_at s = Over" "an_zk s = [0]"
    by (simp add: announcer_step_def thread_step_def new_announcer_def cancel_membership_def)
  then show ?thesis using run_events_announces [OF announces_new s(1)] by blast
qed

text \<open>An expiration between the return of a join and the storing of its member kills the thread at its next round:
  it finds the dead member and raises.  The announcer never joins again.\<close>

lemma early_expiration_kills:
  "\<exists>s. run_events [Start, Thread_step, Thread_step, Thread_step, Join_succeeds, Expire 9 0, Thread_step, Thread_step, Thread_step, Thread_step, Thread_step]
      (new_announcer t) = Some s \<and> an_at s = Died \<and> an_thread s \<and> an_zk s = []"
  by (simp add: announcer_step_def thread_step_def new_announcer_def on_expiration_def)

lemma died_for_ever:
  "an_at s = Died \<Longrightarrow> announcer_step e s = Some s' \<Longrightarrow> an_at s' = Died \<and> set (an_zk s') \<subseteq> set (an_zk s)"
  by (auto simp: announcer_step_def thread_step_def on_expiration_def cancel_membership_def
      split: announcer_event.splits if_splits option.splits membership.splits)

text \<open>A join that ZooKeeper refuses counts as joined: nothing is registered, no time is counted as disconnected, and the
  thread has nothing to do.\<close>

lemma refused_counts_as_joined:
  "\<exists>s. run_events [Start, Thread_step, Thread_step, Thread_step, Join_refused, Thread_step, Thread_step] (new_announcer t) = Some s
     \<and> an_zk s = [] \<and> disconnected_time now s = 0 \<and> \<not> an_rejoin s \<and> an_membership s = Some Error_member"
  by (simp add: announcer_step_def thread_step_def new_announcer_def disconnected_time_def)

end
