(* ===== verification/Paths.thy ===== *)
theory Paths
  imports Prelude ProcessLog
begin

text \<open>
  Where the files of a task are, and finding tasks by their files: \<^verbatim>\<open>apache/thermos/common/path.py\<close>,
  \<^verbatim>\<open>apache/thermos/monitoring/detector.py\<close>, and the detectors of Mesos executors,
  \<^verbatim>\<open>apache/aurora/executor/common/executor_detector.py\<close> and \<^verbatim>\<open>path_detector.py\<close>.  What a glob finds is an argument;
  the regular expressions are written out as they match.
\<close>

section \<open>Templates\<close>

text \<open>A part of a template: text, or a text and the key that is filled in after it.\<close>

datatype part = Fixed string | Key string string

definition dir_template :: "(string \<times> part list) list" where
  "dir_template =
     [(''task_path'', [Key [] ''root'', Fixed ''tasks'', Key [] ''state'', Key [] ''task_id'']),
      (''checkpoint_path'', [Key [] ''root'', Fixed ''checkpoints'', Key [] ''task_id'']),
      (''runner_checkpoint'', [Key [] ''root'', Fixed ''checkpoints'', Key [] ''task_id'', Fixed ''runner'']),
      (''process_checkpoint'', [Key [] ''root'', Fixed ''checkpoints'', Key [] ''task_id'', Key ''coordinator.'' ''process'']),
      (''process_logbase'', [Key [] ''log_dir'']),
      (''process_logdir'', [Key [] ''log_dir'', Key [] ''process'', Key [] ''run''])]"

text \<open>The values known so far; a key without one stands for itself.  The values hold no percent signs.\<close>

record task_path =
  tp_data :: "(string \<times> string) list"
  tp_filename :: "string option"

datatype path_error = Unknown_path | Underspecified_path | Key_is_none

definition given :: "(string \<times> string option) list \<Rightarrow> task_path \<Rightarrow> path_error + task_path" where
  "given kw tp =
     (if \<exists>(k, v) \<in> set kw. v = None then Inl Key_is_none
      else Inr (tp\<lparr>tp_data := map (\<lambda>(k, v). (k, the v)) kw @ tp_data tp\<rparr>))"

definition with_filename :: "string \<Rightarrow> task_path \<Rightarrow> task_path" where
  "with_filename f tp = tp\<lparr>tp_filename := Some f\<rparr>"

definition part_text :: "(string \<times> string) list \<Rightarrow> part \<Rightarrow> string option" where
  "part_text d p = (case p of Fixed s \<Rightarrow> Some s | Key s k \<Rightarrow> map_option (\<lambda>v. s @ v) (map_of d k))"

text \<open>\<^verbatim>\<open>os.path.join\<close> of the templates, which are not empty and do not begin with a slash, before anything is filled in.\<close>

fun join_parts :: "string list \<Rightarrow> string" where
  "join_parts [] = []"
| "join_parts [x] = x"
| "join_parts (x # xs) = x @ ''/'' @ join_parts xs"

definition getpath :: "string \<Rightarrow> task_path \<Rightarrow> path_error + string" where
  "getpath pathname tp =
     (case map_of dir_template pathname of
        None \<Rightarrow> Inl Unknown_path
      | Some ps \<Rightarrow>
          let texts = map (part_text (tp_data tp)) ps;
              tail = (case tp_filename tp of Some (c # cs) \<Rightarrow> [c # cs] | _ \<Rightarrow> []) in
          if (\<exists>f \<in> set tail. hd f = CHR ''/'') then Inr (hd tail)
          else if None \<in> set texts then Inl Underspecified_path
          else Inr (join_parts (map the texts @ tail)))"

definition task_data :: "(string \<times> string) list \<Rightarrow> task_path" where
  "task_data d = \<lparr>tp_data = d, tp_filename = None\<rparr>"

section \<open>Matching\<close>

definition space :: "char \<Rightarrow> bool" where
  "space c = (let n = (of_char c :: nat) in n \<in> {9, 10, 11, 12, 13, 28, 29, 30, 31, 32, 133, 160})"

definition digit :: "char \<Rightarrow> bool" where
  "digit c = (let n = (of_char c :: nat) in 48 \<le> n \<and> n \<le> 57)"

definition after_prefix :: "string \<Rightarrow> string \<Rightarrow> string option" where
  "after_prefix p s = (if take (length p) s = p then Some (drop (length p) s) else None)"

text \<open>\<^verbatim>\<open>(\S+)/\<close> and what \<open>ok\<close> accepts: the first group is as long as it can be, so the cut is at the last slash after
  which the rest fits.  The cuts of a text, the last one first.\<close>

fun cuts :: "string \<Rightarrow> (string \<times> string) list" where
  "cuts [] = []"
| "cuts (c # cs) = map (\<lambda>(a, b). (c # a, b)) (cuts cs) @ (if c = CHR ''/'' then [([], cs)] else [])"

definition greedy_cut :: "(string \<Rightarrow> bool) \<Rightarrow> string \<Rightarrow> (string \<times> string) option" where
  "greedy_cut ok s = find (\<lambda>(a, b). a \<noteq> [] \<and> ok b) (cuts s)"

definition solid :: "string \<Rightarrow> string" where
  "solid s = takeWhile (\<lambda>c. \<not> space c) s"

text \<open>\<^verbatim>\<open>root/tasks/(\S+)/(\S+)\<close>: a match need not reach the end of the path.\<close>

definition match_task :: "string \<Rightarrow> string \<Rightarrow> (string \<times> string) option" where
  "match_task base path =
     Option.bind (after_prefix (base @ ''/tasks/'') path) (\<lambda>rest. greedy_cut (\<lambda>b. b \<noteq> []) (solid rest))"

definition get_task_ids :: "(string \<Rightarrow> string list) \<Rightarrow> string \<Rightarrow> string option \<Rightarrow> (string \<times> string) list" where
  "get_task_ids glob base state =
     filter (\<lambda>(s, _). state = None \<or> state = Some s)
       (List.map_filter (match_task base)
         (glob (base @ ''/tasks/'' @ (case state of Some (c # cs) \<Rightarrow> c # cs | _ \<Rightarrow> ''*'') @ ''/*'')))"

text \<open>\<^verbatim>\<open>log_dir/(\S+)/(\d+)\<close>, for a directory without characters that mean something in a regular expression: it is not
  escaped.\<close>

definition match_run :: "string \<Rightarrow> string \<Rightarrow> (string \<times> nat) option" where
  "match_run log_dir path =
     Option.bind (after_prefix (log_dir @ ''/'') path) (\<lambda>rest.
       map_option (\<lambda>(p, r). (p, undecimal (takeWhile digit r)))
         (greedy_cut (\<lambda>b. b \<noteq> [] \<and> digit (hd b)) (solid rest)))"

definition get_process_runs :: "(string \<Rightarrow> string list) \<Rightarrow> string \<Rightarrow> (string \<times> nat) list" where
  "get_process_runs glob log_dir = List.map_filter (match_run log_dir) (glob (log_dir @ ''/*/*''))"

definition log_file :: "string \<Rightarrow> string \<times> nat \<Rightarrow> string \<Rightarrow> string" where
  "log_file log_dir pr logtype = join_parts [log_dir, fst pr, decimal (snd pr), logtype]"

definition get_process_logs :: "(string \<Rightarrow> bool) \<Rightarrow> (string \<Rightarrow> string list) \<Rightarrow> string \<Rightarrow> string list" where
  "get_process_logs exists glob log_dir =
     [path. pr \<leftarrow> get_process_runs glob log_dir, logtype \<leftarrow> [''stdout'', ''stderr''], path \<leftarrow> [log_file log_dir pr logtype], exists path]"

definition get_checkpoint :: "string \<Rightarrow> string \<Rightarrow> path_error + string" where
  "get_checkpoint base task_id = getpath ''runner_checkpoint'' (task_data [(''root'', base), (''task_id'', task_id)])"

text \<open>\<^verbatim>\<open>root/checkpoints/task_id/coordinator.(\S+)\<close>; the paths that match.\<close>

definition match_checkpoint :: "string \<Rightarrow> string \<Rightarrow> string \<Rightarrow> string option" where
  "match_checkpoint base task_id path =
     Option.bind (after_prefix (join_parts [base, ''checkpoints'', task_id, ''coordinator.'']) path) (\<lambda>rest.
       if solid rest = [] then None else Some (solid rest))"

definition get_process_checkpoints :: "(string \<Rightarrow> string list) \<Rightarrow> string \<Rightarrow> string \<Rightarrow> string list" where
  "get_process_checkpoints glob base task_id =
     filter (\<lambda>path. match_checkpoint base task_id path \<noteq> None) (glob (join_parts [base, ''checkpoints'', task_id, ''coordinator.*'']))"

section \<open>Detectors of paths\<close>

definition chained_paths :: "string list list \<Rightarrow> string list" where
  "chained_paths found = remdups (concat found)"

section \<open>Executors of Mesos\<close>

text \<open>A path by its components, of which an absolute one has an empty first.\<close>

record executor_path =
  ep_root :: "string list"
  ep_slave :: string
  ep_framework :: string
  ep_executor :: string
  ep_run :: string

definition executor_components :: "executor_path \<Rightarrow> string list" where
  "executor_components e = ep_root e @ [''slaves'', ep_slave e, ''frameworks'', ep_framework e, ''executors'', ep_executor e, ''runs'', ep_run e]"

text \<open>The last eight components decide.  No component holds white space, and none of the root is needed.\<close>

definition match_executor :: "string list \<Rightarrow> executor_path option" where
  "match_executor cs =
     (case rev cs of
        r # a # e # b # f # c # s # d # base \<Rightarrow>
          if a = ''runs'' \<and> b = ''executors'' \<and> c = ''frameworks'' \<and> d = ''slaves'' \<and> base \<noteq> []
          then Some \<lparr>ep_root = rev base, ep_slave = s, ep_framework = f, ep_executor = e, ep_run = r\<rparr> else None
      | _ \<Rightarrow> None)"

text \<open>\<^verbatim>\<open>find_root\<close> goes up from the path until the directory of an executor.\<close>

definition root_from_path :: "string list \<Rightarrow> string list option" where
  "root_from_path cs = map_option ep_root (match_executor cs)"

fun find_root_up :: "string list \<Rightarrow> string list option" where
  "find_root_up rcs =
     (if length rcs \<le> 1 then None
      else case root_from_path (rev rcs) of Some r \<Rightarrow> Some r | None \<Rightarrow> find_root_up (tl rcs))"

declare find_root_up.simps [simp del]

definition find_root :: "string list \<Rightarrow> string list option" where
  "find_root cs = find_root_up (rev cs)"

definition mesos_paths :: "(string list \<Rightarrow> bool) \<Rightarrow> (string list \<Rightarrow> bool) \<Rightarrow> string \<Rightarrow> string list list \<Rightarrow> string list list" where
  "mesos_paths islink exists sandbox_path globbed =
     [executor_components e @ [sandbox_path]. e \<leftarrow> List.map_filter match_executor globbed,
        \<not> islink (executor_components e) \<and> exists (executor_components e @ [sandbox_path])]"

section \<open>Facts about matching\<close>

lemma after_prefix_append [simp]: "after_prefix p (p @ s) = Some s"
  by (simp add: after_prefix_def)

lemma after_prefix_iff: "after_prefix p s = Some r \<longleftrightarrow> s = p @ r"
  by (metis after_prefix_def after_prefix_append append_take_drop_id option.inject option.distinct(1))

lemma cuts_mem: "(a, b) \<in> set (cuts s) \<longleftrightarrow> s = a @ CHR ''/'' # b"
proof (induction s arbitrary: a)
  case (Cons c s)
  have "(c # list, b) \<in> (\<lambda>(a, b). (c # a, b)) ` set (cuts s) \<longleftrightarrow> (list, b) \<in> set (cuts s)" for list
    by (auto simp: image_iff) (metis case_prod_conv)
  then show ?case by (cases a) (auto simp: Cons.IH)
qed simp

lemma cuts_none: "CHR ''/'' \<notin> set s \<Longrightarrow> cuts s = []"
  by (induction s) auto

lemma cuts_last: "CHR ''/'' \<notin> set b \<Longrightarrow> \<exists>more. cuts (a @ CHR ''/'' # b) = (a, b) # more"
  by (induction a) (auto simp: cuts_none)

lemma greedy_cut_last:
  assumes "CHR ''/'' \<notin> set b" "a \<noteq> []" "ok b"
  shows "greedy_cut ok (a @ CHR ''/'' # b) = Some (a, b)"
  using cuts_last [OF assms(1), of a] assms(2,3) by (auto simp: greedy_cut_def)

lemma solid_id: "\<forall>c \<in> set s. \<not> space c \<Longrightarrow> solid s = s"
  by (simp add: solid_def takeWhile_eq_all_conv)

lemma slash_solid [simp]: "\<not> space (CHR ''/'')"
  by (simp add: space_def)

lemma join_task: "join_parts [base, ''tasks'', state, task_id] = (base @ ''/tasks/'') @ state @ CHR ''/'' # task_id"
  by simp

text \<open>A task is found under the state and the id whose path it has.\<close>

lemma task_roundtrip:
  assumes "state \<noteq> []" "task_id \<noteq> []" "\<forall>c \<in> set state. \<not> space c" "\<forall>c \<in> set task_id. \<not> space c \<and> c \<noteq> CHR ''/''"
  shows "match_task base (join_parts [base, ''tasks'', state, task_id]) = Some (state, task_id)"
proof -
  have "solid (state @ CHR ''/'' # task_id) = state @ CHR ''/'' # task_id" using assms by (intro solid_id) auto
  moreover have "CHR ''/'' \<notin> set task_id" using assms(4) by blast
  ultimately show ?thesis unfolding match_task_def join_task after_prefix_append using assms(1,2)
    by (simp add: greedy_cut_last)
qed

lemma getpath_task: "getpath ''task_path'' (task_data [(''root'', base), (''state'', state), (''task_id'', task_id)])
   = Inr (join_parts [base, ''tasks'', state, task_id])"
  by (simp add: getpath_def dir_template_def part_text_def task_data_def Let_def)

lemma getpath_run: "getpath ''process_logdir'' (task_data [(''root'', base), (''task_id'', task_id), (''process'', p), (''run'', r), (''log_dir'', l)])
   = Inr (join_parts [l, p, r])"
  by (simp add: getpath_def dir_template_def part_text_def task_data_def Let_def)

lemma incomplete_path: "getpath ''task_path'' (task_data [(''root'', base), (''state'', state)]) = Inl Underspecified_path"
  by (simp add: getpath_def dir_template_def part_text_def task_data_def Let_def)

text \<open>A task that the runner put under a path is found with its state and id, and in the order of the paths.\<close>

definition clean_id :: "string \<Rightarrow> bool" where
  "clean_id s = (s \<noteq> [] \<and> (\<forall>c \<in> set s. \<not> space c \<and> c \<noteq> CHR ''/''))"

text \<open>The detector finds the tasks whose paths the glob lists, each with the state and the id that made the path, if
  no state or id has white space or a slash.\<close>

theorem detects_tasks:
  assumes "\<forall>(s, i) \<in> set tasks. clean_id s \<and> clean_id i"
    and "glob (base @ ''/tasks/'' @ (case state of Some (c # cs) \<Rightarrow> c # cs | _ \<Rightarrow> ''*'') @ ''/*'')
      = map (\<lambda>(s, i). join_parts [base, ''tasks'', s, i]) tasks"
  shows "get_task_ids glob base state = filter (\<lambda>(s, _). state = None \<or> state = Some s) tasks"
proof -
  have "List.map_filter (match_task base) (map (\<lambda>(s, i). join_parts [base, ''tasks'', s, i]) tasks) = tasks"
    using assms(1)
  proof (induction tasks)
    case (Cons t tasks)
    obtain s i where t: "t = (s, i)" by (cases t)
    have "match_task base (join_parts [base, ''tasks'', s, i]) = Some (s, i)"
      using Cons.prems t by (intro task_roundtrip) (auto simp: clean_id_def)
    then show ?case using Cons t by (simp add: map_filter_simps del: join_parts.simps)
  qed (simp add: map_filter_simps)
  then show ?thesis unfolding get_task_ids_def assms(2) by simp
qed

lemma detects_tasks_witness:
  "get_task_ids (\<lambda>p. if p = ''/v/tasks/active/*'' then [''/v/tasks/active/t-1'', ''/v/tasks/active/t-2''] else []) ''/v'' (Some ''active'')
     = [(''active'', ''t-1''), (''active'', ''t-2'')]"
  by (subst detects_tasks [where tasks = "[(''active'', ''t-1''), (''active'', ''t-2'')]"]) (auto simp: clean_id_def space_def)

section \<open>Runs of processes\<close>

lemma decimal_digits: "\<forall>c \<in> set (decimal n). digit c"
proof (induction n rule: decimal.induct)
  case (1 n)
  have d: "digit (char_of (48 + k :: nat))" if "k < 10" for k
    using that by (simp add: digit_def)
  show ?case
  proof (cases "n < 10")
    case True
    then show ?thesis using d by (simp add: decimal.simps [of n])
  next
    case False
    then show ?thesis using 1 d [of "n mod 10"] by (simp add: decimal.simps [of n])
  qed
qed

lemma decimal_not_empty: "decimal n \<noteq> []"
  by (cases "n < 10") (simp_all add: decimal.simps [of n])

lemma digit_not_space: "digit c \<Longrightarrow> \<not> space c"
  by (auto simp: digit_def space_def Let_def)

lemma digit_not_slash: "digit c \<Longrightarrow> c \<noteq> CHR ''/''"
  by (auto simp: digit_def)

text \<open>A run of a process is found under the process and the number that made its path, if the name of the process
  has no white space.\<close>

theorem run_roundtrip:
  assumes "process \<noteq> []" "\<forall>c \<in> set process. \<not> space c"
    and "getpath ''process_logdir'' (task_data [(''root'', base), (''task_id'', task_id), (''process'', process), (''run'', decimal n), (''log_dir'', log_dir)])
      = Inr path"
  shows "match_run log_dir path = Some (process, n)"
proof -
  have path: "path = (log_dir @ ''/'') @ (process @ CHR ''/'' # decimal n)"
    using assms(3) unfolding getpath_run by simp
  have "\<forall>c \<in> set (process @ CHR ''/'' # decimal n). \<not> space c"
    using assms(2) decimal_digits [of n] digit_not_space by auto
  then have solid: "solid (process @ CHR ''/'' # decimal n) = process @ CHR ''/'' # decimal n" by (rule solid_id)
  have "CHR ''/'' \<notin> set (decimal n)" using decimal_digits [of n] digit_not_slash by blast
  moreover have "digit (hd (decimal n))" using decimal_digits [of n] decimal_not_empty [of n] by simp
  ultimately have cut: "greedy_cut (\<lambda>b. b \<noteq> [] \<and> digit (hd b)) (process @ CHR ''/'' # decimal n) = Some (process, decimal n)"
    using assms(1) decimal_not_empty [of n] by (intro greedy_cut_last) auto
  have number: "takeWhile digit (decimal n) = decimal n" using decimal_digits [of n] by (simp add: takeWhile_eq_all_conv)
  show ?thesis unfolding match_run_def path after_prefix_append
    by (simp add: solid cut number undecimal_decimal del: takeWhile_eq_all_conv)
qed

lemma run_roundtrip_witness: "match_run ''/l'' ''/l/web.1/12'' = Some (''web.1'', 12)"
proof (rule run_roundtrip)
  show "getpath ''process_logdir'' (task_data [(''root'', []), (''task_id'', []), (''process'', ''web.1''), (''run'', decimal 12), (''log_dir'', ''/l'')])
      = Inr ''/l/web.1/12''"
    unfolding getpath_run by code_simp
qed (auto simp: space_def)

text \<open>A process whose name has a space is not found, though such a name is valid; and what merely begins with a number
  counts as a run.\<close>

lemma spaced_process_lost: "match_run ''/l'' (join_parts [''/l'', ''my job'', decimal 0]) = None"
  by code_simp

lemma backup_counts_as_run: "match_run ''/l'' ''/l/web/3.bak'' = Some (''web'', 3)"
  by code_simp

section \<open>Executors\<close>

lemma executor_roundtrip: "ep_root e \<noteq> [] \<Longrightarrow> match_executor (executor_components e) = Some e"
  by (simp add: match_executor_def executor_components_def)

lemma match_executor_components: "match_executor cs = Some e \<Longrightarrow> executor_components e = cs"
  by (auto simp: match_executor_def executor_components_def split: list.splits if_splits)

text \<open>The root of a path below an executor is that of the nearest executor above it.\<close>

lemma find_root_above:
  assumes "ep_root e \<noteq> []"
  shows "find_root (executor_components e) = Some (ep_root e)"
proof -
  have "\<not> length (rev (executor_components e)) \<le> 1" by (simp add: executor_components_def)
  then show ?thesis unfolding find_root_def find_root_up.simps [of "rev (executor_components e)"]
    by (simp add: root_from_path_def executor_roundtrip [OF assms])
qed

end
