(* ===== verification/Launch.thy ===== *)
theory Launch
  imports Schema TaskRunner RunnerProcess Cli
begin

text \<open>
  From the executor to a runner: the command line that \<^verbatim>\<open>apache/aurora/executor/thermos_task_runner.py\<close> builds, the
  options and the main of \<^verbatim>\<open>apache/thermos/runner/thermos_runner.py\<close>, and the construction and recovery of the
  \<^verbatim>\<open>TaskRunner\<close> of \<^verbatim>\<open>apache/thermos/core/runner.py\<close>.  The host (users, names, files) and what Pystachio answers about a
  task are arguments.
\<close>

section \<open>The executor's side\<close>

record sandbox_view =
  sv_root :: string
  sv_container_root :: "string option"
  sv_chrooted :: bool
  sv_image :: bool

record thermos_runner =
  th_pex :: string
  th_task_id :: string
  th_ports :: "(string \<times> int) list"
  th_sandbox :: sandbox_view
  th_checkpoint_root :: string
  th_chroot :: bool
  th_preserve_env :: bool
  th_role :: "string option"
  th_hostname :: string
  th_log_destination :: "string option"
  th_log_mode :: "string option"
  th_rotate_size :: "int option"
  th_rotate_backups :: "int option"
  th_containerizer :: "string option"
  th_task_filename :: string

record provider =
  pv_pex :: string
  pv_checkpoint_root :: string
  pv_artifact_dir :: string
  pv_preserve_env :: bool
  pv_log_destination :: "string option"
  pv_log_mode :: "string option"
  pv_rotate_size :: "int option"
  pv_rotate_backups :: "int option"
  pv_containerizer :: "string option"

datatype launch_error = Task_launch_error string | Ports_failure config_error | Decode_failure task_error

text \<open>\<^verbatim>\<open>open\<close> is whether the file of the task can be created, \<^verbatim>\<open>typechecks\<close> what the wrapper finds.\<close>

definition new_thermos_runner :: "string \<Rightarrow> bool \<Rightarrow> bool \<Rightarrow> provider \<Rightarrow> string \<Rightarrow> string option \<Rightarrow> (string \<times> int) list
    \<Rightarrow> sandbox_view \<Rightarrow> string option \<Rightarrow> (launch_error, thermos_runner) res" where
  "new_thermos_runner gethostname opens typechecks p task_id role ports sandbox hostname =
     (if \<not> opens then Inl (Py OSError)
      else if \<not> typechecks then Inl (Own (Task_launch_error ''Failed to load task''))
      else Inr \<lparr>th_pex = pv_pex p, th_task_id = task_id, th_ports = ports, th_sandbox = sandbox,
        th_checkpoint_root = pv_checkpoint_root p, th_chroot = sv_chrooted sandbox, th_preserve_env = pv_preserve_env p,
        th_role = role,
        th_hostname = (case hostname of Some (c # cs) \<Rightarrow> c # cs | _ \<Rightarrow> gethostname),
        th_log_destination = pv_log_destination p, th_log_mode = pv_log_mode p, th_rotate_size = pv_rotate_size p,
        th_rotate_backups = pv_rotate_backups p, th_containerizer = pv_containerizer p,
        th_task_filename = pv_artifact_dir p @ ''/task.json''\<rparr>)"

definition get_role :: "string option option \<Rightarrow> bool \<Rightarrow> string \<Rightarrow> string option" where
  "get_role override docker role = (case override of Some r \<Rightarrow> r | None \<Rightarrow> if docker then None else Some role)"

definition check_containerizer :: "(string \<Rightarrow> bool) \<Rightarrow> (string \<Rightarrow> bool) \<Rightarrow> provider \<Rightarrow> sandbox_view \<Rightarrow> (launch_error, unit) res" where
  "check_containerizer isfile executable p sandbox =
     (if \<not> sv_image sandbox then Inr ()
      else case pv_containerizer p of
             None \<Rightarrow> Inl (Own (Task_launch_error ''no mesos_containerizer_path was set''))
           | Some path \<Rightarrow>
               if \<not> isfile path then Inl (Own (Task_launch_error ''mesos_containerizer_path does not exist''))
               else if \<not> executable path then Inl (Own (Task_launch_error ''mesos_containerizer_path is not marked as executable''))
               else Inr ())"

text \<open>\<^verbatim>\<open>apache/aurora/executor/common/task_info.py\<close>: the data of a task are a job, or a task of an instance; \<open>blob\<close> is what
  the data decode to, if they are JSON, and says whether it is a container and has an instance.\<close>

datatype task_info_error = Task_info_error | Unbound_refs | Other_task_error task_error

record task_blob =
  tb_container :: bool
  tb_has_instance :: bool

text \<open>A job has to be valid and to leave no reference open, and is interpolated; an instance is taken as it is.\<close>

definition mesos_task_instance :: "string option \<Rightarrow> task_blob option \<Rightarrow> 't \<Rightarrow> (task_error, unit) res \<times> 't
    \<Rightarrow> (task_info_error, 't) res" where
  "mesos_task_instance data blob as_instance from_job =
     (if data = None \<or> data = Some [] then Inl (Own Task_info_error)
      else case blob of
             None \<Rightarrow> Inl (Own Task_info_error)
           | Some b \<Rightarrow>
               if \<not> tb_container b then Inl (Py TypeError)
               else if tb_has_instance b then Inr as_instance
               else (case from_job of (valid, interpolated) \<Rightarrow>
                 (case valid of
                    Inl (Own InvalidTaskError) \<Rightarrow> Inl (Own Unbound_refs)
                  | Inl (Own e) \<Rightarrow> Inl (Own (Other_task_error e))
                  | Inl (Py e) \<Rightarrow> Inl (Py e)
                  | Inr _ \<Rightarrow> Inr interpolated)))"

text \<open>The ports of the announcer's map, overridden by those the scheduler assigned, resolved; ports that stay names are left out.\<close>

definition task_ports_resolved :: "portmap option \<Rightarrow> (string \<times> int) list \<Rightarrow> (config_error, (string \<times> int) list) res option" where
  "task_ports_resolved announced assigned_ports =
     (let m = foldl (\<lambda>m (n, p). AList.update n (Port_number p) m) (case announced of None \<Rightarrow> [] | Some a \<Rightarrow> a) assigned_ports in
      map_option (\<lambda>r. rbind r (\<lambda>ps. Inr (List.map_filter (\<lambda>(n, p). case p of Port_number k \<Rightarrow> Some (n, k) | Port_name _ \<Rightarrow> None) ps)))
        (resolve_ports m))"

text \<open>The task of the scheduler: its lifecycle once it is decoded, and its resolved ports.\<close>

record assigned =
  as_task_id :: string
  as_docker :: bool
  as_role :: string
  as_host :: "string option"
  as_decoded :: "(task_info_error, http_lifecycle option) res"
  as_resolved :: "(config_error, (string \<times> int) list) res"
  as_typechecks :: bool

type_synonym wrapped_runner = "thermos_runner \<times> (int \<times> (string \<times> int) list) option"

text \<open>The errors of decoding are caught as values that are wrong; the others, and those of the ports, pass.\<close>

definition decoded_lifecycle :: "assigned \<Rightarrow> (launch_error, http_lifecycle option) res" where
  "decoded_lifecycle a =
     (let caught = Inl (Own (Task_launch_error ''Could not deserialize Thermos task from AssignedTask'')) in
      case as_decoded a of
        Inr l \<Rightarrow> Inr l
      | Inl (Own (Other_task_error e)) \<Rightarrow> Inl (Own (Decode_failure e))
      | Inl (Own _) \<Rightarrow> caught
      | Inl (Py e) \<Rightarrow> if e = ValueError then caught else Inl (Py e))"

definition assigned_ports :: "assigned \<Rightarrow> (launch_error, (string \<times> int) list) res" where
  "assigned_ports a =
     (case as_resolved a of Inl (Own e) \<Rightarrow> Inl (Own (Ports_failure e)) | Inl (Py e) \<Rightarrow> Inl (Py e) | Inr ps \<Rightarrow> Inr ps)"

definition runner_from_assigned_task :: "(string \<Rightarrow> bool) \<Rightarrow> (string \<Rightarrow> bool) \<Rightarrow> string \<Rightarrow> bool \<Rightarrow> string option option
    \<Rightarrow> provider \<Rightarrow> assigned \<Rightarrow> sandbox_view \<Rightarrow> (launch_error, wrapped_runner) res" where
  "runner_from_assigned_task isfile executable gethostname opens override p a sandbox =
     rbind (check_containerizer isfile executable p sandbox) (\<lambda>_.
     rbind (decoded_lifecycle a) (\<lambda>lifecycle.
     rbind (assigned_ports a) (\<lambda>ports.
     rbind (new_thermos_runner gethostname opens (as_typechecks a) p (as_task_id a)
              (get_role override (as_docker a) (as_role a)) ports sandbox (as_host a)) (\<lambda>r.
     Inr (r, http_wrap lifecycle (map_of ports))))))"

definition show_int :: "int \<Rightarrow> string" where
  "show_int i = (if i < 0 then CHR ''-'' # decimal (nat (- i)) else decimal (nat i))"

definition flag_arg :: "string \<Rightarrow> string option \<Rightarrow> string list" where
  "flag_arg f v = (case v of None \<Rightarrow> [] | Some x \<Rightarrow> [''--'' @ f @ CHR ''='' # x])"

definition setuid_of :: "string \<Rightarrow> thermos_runner \<Rightarrow> string option" where
  "setuid_of me r = (if me = ''root'' then (case th_role r of Some (c # cs) \<Rightarrow> Some (c # cs) | _ \<Rightarrow> None) else None)"

text \<open>A path that is \<^verbatim>\<open>None\<close> is printed as such.\<close>

definition cmdline :: "string \<Rightarrow> string \<Rightarrow> string option \<Rightarrow> thermos_runner \<Rightarrow> string list" where
  "cmdline python me log_dir r =
     [python, th_pex r] @
     flag_arg ''log_dir'' log_dir @
     flag_arg ''checkpoint_root'' (Some (th_checkpoint_root r)) @
     flag_arg ''sandbox'' (Some (sv_root (th_sandbox r))) @
     flag_arg ''container_sandbox'' (sv_container_root (th_sandbox r)) @
     flag_arg ''task_id'' (Some (th_task_id r)) @
     flag_arg ''thermos_json'' (Some (th_task_filename r)) @
     flag_arg ''hostname'' (Some (th_hostname r)) @
     flag_arg ''process_logger_destination'' (th_log_destination r) @
     flag_arg ''process_logger_mode'' (th_log_mode r) @
     flag_arg ''rotate_log_size_mb'' (map_option show_int (th_rotate_size r)) @
     flag_arg ''rotate_log_backups'' (map_option show_int (th_rotate_backups r)) @
     flag_arg ''setuid'' (setuid_of me r) @
     (if th_chroot r then [''--enable_chroot''] else []) @
     (if th_preserve_env r then [''--preserve_env''] else []) @
     (if sv_image (th_sandbox r)
      then flag_arg ''mesos_containerizer_path'' (Some (case th_containerizer r of None \<Rightarrow> ''None'' | Some p \<Rightarrow> p)) else []) @
     concat (map (\<lambda>(name, port). flag_arg ''port'' (Some (name @ CHR '':'' # show_int port))) (th_ports r))"

section \<open>The options of the runner\<close>

record runner_opts =
  op_thermos_json :: "string option"
  op_sandbox :: "string option"
  op_container_sandbox :: "string option"
  op_checkpoint_root :: "string option"
  op_task_id :: "string option"
  op_setuid :: "string option"
  op_hostname :: "string option"
  op_containerizer :: "string option"
  op_log_destination :: "string option"
  op_log_mode :: "string option"
  op_rotate_size :: "int option"
  op_rotate_backups :: "int option"
  op_chroot :: bool
  op_preserve_env :: bool
  op_ports :: "(string \<times> int) list"

definition default_opts :: runner_opts where
  "default_opts = \<lparr>op_thermos_json = None, op_sandbox = None, op_container_sandbox = None, op_checkpoint_root = None,
     op_task_id = None, op_setuid = None, op_hostname = None, op_containerizer = None, op_log_destination = None,
     op_log_mode = None, op_rotate_size = None, op_rotate_backups = None, op_chroot = False, op_preserve_env = False,
     op_ports = []\<rparr>"

datatype opt_error = Bad_port | Bad_number | Takes_no_value | Needs_value | No_such_option

text \<open>\<^verbatim>\<open>add_port_to\<close>: a name, a colon and a number.\<close>

definition add_port :: "string \<Rightarrow> (string \<times> int) list \<Rightarrow> opt_error + (string \<times> int) list" where
  "add_port value ports =
     (case split_at (CHR '':'') value of
        [name, port] \<Rightarrow> (case py_int port of None \<Rightarrow> Inl Bad_port | Some n \<Rightarrow> Inr (AList.update name n ports))
      | _ \<Rightarrow> Inl Bad_port)"

text \<open>A number that begins with a zero is in another radix.\<close>

definition option_int :: "(string \<Rightarrow> int option) \<Rightarrow> string \<Rightarrow> opt_error + int" where
  "option_int radix s =
     (case (if take 1 s = ''0'' \<and> s \<noteq> ''0'' then radix s else py_int s) of None \<Rightarrow> Inl Bad_number | Some n \<Rightarrow> Inr n)"

text \<open>\<open>others\<close> are the options that the modules of the application add; they do not touch these.\<close>

definition set_opt :: "(string \<Rightarrow> int option) \<Rightarrow> string list \<Rightarrow> string \<Rightarrow> string \<Rightarrow> runner_opts \<Rightarrow> opt_error + runner_opts" where
  "set_opt radix others f v op =
     (if f = ''thermos_json'' then Inr (op\<lparr>op_thermos_json := Some v\<rparr>)
      else if f = ''sandbox'' then Inr (op\<lparr>op_sandbox := Some v\<rparr>)
      else if f = ''container_sandbox'' then Inr (op\<lparr>op_container_sandbox := Some v\<rparr>)
      else if f = ''checkpoint_root'' then Inr (op\<lparr>op_checkpoint_root := Some v\<rparr>)
      else if f = ''task_id'' then Inr (op\<lparr>op_task_id := Some v\<rparr>)
      else if f = ''setuid'' then Inr (op\<lparr>op_setuid := Some v\<rparr>)
      else if f = ''hostname'' then Inr (op\<lparr>op_hostname := Some v\<rparr>)
      else if f = ''mesos_containerizer_path'' then Inr (op\<lparr>op_containerizer := Some v\<rparr>)
      else if f = ''process_logger_destination'' then Inr (op\<lparr>op_log_destination := Some v\<rparr>)
      else if f = ''process_logger_mode'' then Inr (op\<lparr>op_log_mode := Some v\<rparr>)
      else if f = ''rotate_log_size_mb'' then rbind (option_int radix v) (\<lambda>n. Inr (op\<lparr>op_rotate_size := Some n\<rparr>))
      else if f = ''rotate_log_backups'' then rbind (option_int radix v) (\<lambda>n. Inr (op\<lparr>op_rotate_backups := Some n\<rparr>))
      else if f = ''port'' then rbind (add_port v (op_ports op)) (\<lambda>ps. Inr (op\<lparr>op_ports := ps\<rparr>))
      else if f = ''enable_chroot'' \<or> f = ''preserve_env'' then Inl Takes_no_value
      else if f \<in> set others then Inr op else Inl No_such_option)"

text \<open>The parser reads long options by their full names, each with its value after the equals sign or in the next argument,
  and stops at the first argument that is none.\<close>

fun parse_args :: "(string \<Rightarrow> int option) \<Rightarrow> string list \<Rightarrow> string list \<Rightarrow> runner_opts \<Rightarrow> opt_error + runner_opts \<times> string list" where
  "parse_args radix others [] op = Inr (op, [])"
| "parse_args radix others (a # as) op =
     (if take 2 a \<noteq> ''--'' then Inr (op, a # as)
      else if a = ''--'' then Inr (op, as)
      else if CHR ''='' \<in> set a then
        rbind (set_opt radix others (takeWhile (\<lambda>c. c \<noteq> CHR ''='') (drop 2 a)) (tl (dropWhile (\<lambda>c. c \<noteq> CHR ''='') a)) op)
          (parse_args radix others as)
      else if a = ''--enable_chroot'' then parse_args radix others as (op\<lparr>op_chroot := True\<rparr>)
      else if a = ''--preserve_env'' then parse_args radix others as (op\<lparr>op_preserve_env := True\<rparr>)
      else (case as of [] \<Rightarrow> Inl Needs_value
            | v # as' \<Rightarrow> rbind (set_opt radix others (drop 2 a) v op) (parse_args radix others as')))"

section \<open>The main of the runner\<close>

datatype main_end = Exits int | Uncaught string | Finished

text \<open>\<open>loaded\<close> is the loaded file: \<open>None\<close> if it did not load, or the outcome of the validation.\<close>

definition get_task_from_options :: "(task_error, unit) res option \<Rightarrow> main_end option" where
  "get_task_from_options loaded =
     (case loaded of None \<Rightarrow> Some (Exits 2) | Some (Inl _) \<Rightarrow> Some (Uncaught ''InvalidTaskError'') | Some (Inr _) \<Rightarrow> None)"

datatype run_end = Run_returned | Run_internal_error | Run_invalid_task | Run_state_error | Run_unknown_user | Run_interrupted
  | Run_system_exit int | Run_other_error

text \<open>\<^verbatim>\<open>runner_teardown\<close>: the checkpoint is closed first, which needs one; \<open>op\<close> is whether kill or lose returned.\<close>

definition runner_teardown :: "bool \<Rightarrow> bool \<Rightarrow> main_end" where
  "runner_teardown has_ckpt op = (if \<not> has_ckpt then Uncaught ''AttributeError'' else if \<not> op then Uncaught ''kill'' else Exits 0)"

definition run_exit :: "bool \<Rightarrow> bool \<Rightarrow> run_end \<Rightarrow> main_end" where
  "run_exit has_ckpt op e =
     (case e of
        Run_returned \<Rightarrow> Finished
      | Run_internal_error \<Rightarrow> Exits internal_error
      | Run_invalid_task \<Rightarrow> Exits invalid_task
      | Run_state_error \<Rightarrow> Exits terminal_task
      | Run_unknown_user \<Rightarrow> Exits unknown_user
      | Run_interrupted \<Rightarrow> runner_teardown has_ckpt op
      | Run_system_exit n \<Rightarrow> Exits n
      | Run_other_error \<Rightarrow> Exits unknown_error)"

text \<open>What the program finds: the file, the ports its task needs, the users of the host, and what the construction of the
  runner and its run end with.\<close>

record main_world =
  mw_exists :: "string \<Rightarrow> bool"
  mw_checked :: "(task_error, unit) res option"
  mw_ports :: "string list"
  mw_me :: string
  mw_users :: "string set"
  mw_constructed :: "string + unit"
  mw_run :: run_end
  mw_has_ckpt :: bool
  mw_op :: bool

definition nonempty :: "string option \<Rightarrow> bool" where
  "nonempty s = (s \<noteq> None \<and> s \<noteq> Some [])"

definition proxy_main :: "main_world \<Rightarrow> runner_opts \<Rightarrow> main_end" where
  "proxy_main w op =
     (if \<not> (nonempty (op_thermos_json op) \<and> mw_exists w (the (op_thermos_json op)) \<and> nonempty (op_sandbox op) \<and> nonempty (op_checkpoint_root op))
      then Uncaught ''AssertionError''
      else case get_task_from_options (mw_checked w) of
             Some e \<Rightarrow> e
           | None \<Rightarrow>
               if \<not> set (mw_ports w) \<subseteq> fst ` set (op_ports op) then Exits internal_error
               else if (if nonempty (op_setuid op) then the (op_setuid op) else mw_me w) \<notin> mw_users w then Exits unknown_user
               else case mw_constructed w of
                      Inl e \<Rightarrow> Uncaught e
                    | Inr _ \<Rightarrow> run_exit (mw_has_ckpt w) (mw_op w) (mw_run w))"

section \<open>The runner gets what the executor means\<close>

lemma take_decimal_zero: "take 1 (decimal n) = ''0'' \<Longrightarrow> decimal n = ''0''"
proof (induction n rule: decimal.induct)
  case (1 n)
  show ?case
  proof (cases "n < 10")
    case True
    then show ?thesis using 1(2) by (subst decimal.simps, subst (asm) decimal.simps) simp
  next
    case False
    have "take 1 (decimal n) = take 1 (decimal (n div 10))"
      using False decimal_nonempty [of "n div 10"] by (subst decimal.simps) (cases "decimal (n div 10)", auto)
    then have "decimal (n div 10) = ''0''" using 1 False by simp
    moreover have "decimal 0 = ''0''" by code_simp
    ultimately have "n div 10 = 0" by (metis decimal_eq_iff)
    then show ?thesis using False by simp
  qed
qed

lemma py_int_show [simp]: "py_int (show_int i) = Some i"
proof (cases "i < 0")
  case False
  then show ?thesis by (simp add: show_int_def)
next
  case True
  let ?d = "decimal (nat (- i))"
  have "\<not> blank c" if "c \<in> set ?d" for c using decimal_chars [OF that] by (auto simp: blank_def)
  moreover have "\<not> blank (CHR ''-'')" by (simp add: blank_def)
  ultimately have "dropWhile blank (CHR ''-'' # ?d) = CHR ''-'' # ?d" "dropWhile blank (rev (CHR ''-'' # ?d)) = rev (CHR ''-'' # ?d)"
    by (auto intro!: dropWhile_none)
  then have strip: "rev (dropWhile blank (rev (dropWhile blank (CHR ''-'' # ?d)))) = CHR ''-'' # ?d" by simp
  have "digits_value 0 False ?d = Some (int (nat (- i)))" using digits_value_decimal [of 0 False "nat (- i)" "[]"] decimal_nonempty by simp
  then show ?thesis using True by (simp add: show_int_def py_int_def strip del: dropWhile.simps rev.simps)
qed

lemma option_int_show [simp]: "option_int radix (show_int i) = Inr i"
proof -
  have "take 1 (show_int i) = ''0'' \<Longrightarrow> show_int i = ''0''"
    using take_decimal_zero [of "nat i"] by (auto simp: show_int_def)
  then show ?thesis by (auto simp: option_int_def simp del: take_Suc_Cons)
qed

lemma show_int_chars: "c \<in> set (show_int i) \<Longrightarrow> c \<in> set ''-0123456789''"
  using decimal_chars [of c] by (fastforce simp: show_int_def split: if_splits)

lemma add_port_show:
  assumes "CHR '':'' \<notin> set name"
  shows "add_port (name @ CHR '':'' # show_int n) ports = Inr (AList.update name n ports)"
proof -
  have "CHR '':'' \<notin> set (show_int n)" using show_int_chars [of _ n] by fastforce
  then show ?thesis using assms by (simp add: add_port_def split_at_cut split_at_none)
qed

definition set_given :: "(string \<Rightarrow> int option) \<Rightarrow> string list \<Rightarrow> string \<Rightarrow> string option \<Rightarrow> runner_opts \<Rightarrow> opt_error + runner_opts" where
  "set_given radix others f v op = (case v of None \<Rightarrow> Inr op | Some x \<Rightarrow> set_opt radix others f x op)"

lemma takeWhile_flag: "CHR ''='' \<notin> set f \<Longrightarrow> takeWhile (\<lambda>c. c \<noteq> CHR ''='') (f @ CHR ''='' # x) = f"
  by (induction f) auto

lemma dropWhile_flag: "CHR ''='' \<notin> set f \<Longrightarrow> dropWhile (\<lambda>c. c \<noteq> CHR ''='') (f @ CHR ''='' # x) = CHR ''='' # x"
  by (induction f) auto

lemma parse_flag:
  assumes "CHR ''='' \<notin> set f"
  shows "parse_args radix others (flag_arg f v @ as) op = rbind (set_given radix others f v op) (parse_args radix others as)"
  using assms by (cases v) (auto simp: flag_arg_def set_given_def takeWhile_flag dropWhile_flag numeral_2_eq_2)

lemma parse_ports:
  assumes "\<forall>(name, n) \<in> set ports. CHR '':'' \<notin> set name"
  shows "parse_args radix others (concat (map (\<lambda>(name, port). flag_arg ''port'' (Some (name @ CHR '':'' # show_int port))) ports)) op
    = Inr (op\<lparr>op_ports := foldl (\<lambda>ps (name, n). AList.update name n ps) (op_ports op) ports\<rparr>, [])"
  using assms
proof (induction ports arbitrary: op)
  case (Cons p ports)
  obtain name n where p: "p = (name, n)" by (cases p)
  have "set_given radix others ''port'' (Some (name @ CHR '':'' # show_int n)) op = Inr (op\<lparr>op_ports := AList.update name n (op_ports op)\<rparr>)"
    using Cons.prems p by (simp add: set_given_def set_opt_def add_port_show)
  then show ?case using Cons p by (simp add: parse_flag)
qed simp

lemma foldl_update_distinct:
  assumes "distinct (map fst ports)" "fst ` set ports \<inter> fst ` set acc = {}"
  shows "foldl (\<lambda>ps (name, n). AList.update name n ps) acc ports = acc @ ports"
  using assms
proof (induction ports arbitrary: acc)
  case (Cons p ports)
  obtain name n where p: "p = (name, n)" by (cases p)
  have "AList.update name n acc = acc @ [(name, n)]"
    using Cons.prems p by (induction acc) auto
  then show ?case using Cons.prems p Cons.IH [of "acc @ [(name, n)]"] by auto
qed simp

lemma foldl_update_empty: "distinct (map fst ports) \<Longrightarrow> foldl (\<lambda>ps (name, n). AList.update name n ps) [] ports = ports"
  by (simp add: foldl_update_distinct)

lemma set_given_simps:
  "op_thermos_json op = None \<Longrightarrow> set_given radix others ''thermos_json'' v op = Inr (op\<lparr>op_thermos_json := v\<rparr>)"
  "op_sandbox op = None \<Longrightarrow> set_given radix others ''sandbox'' v op = Inr (op\<lparr>op_sandbox := v\<rparr>)"
  "op_container_sandbox op = None \<Longrightarrow> set_given radix others ''container_sandbox'' v op = Inr (op\<lparr>op_container_sandbox := v\<rparr>)"
  "op_checkpoint_root op = None \<Longrightarrow> set_given radix others ''checkpoint_root'' v op = Inr (op\<lparr>op_checkpoint_root := v\<rparr>)"
  "op_task_id op = None \<Longrightarrow> set_given radix others ''task_id'' v op = Inr (op\<lparr>op_task_id := v\<rparr>)"
  "op_setuid op = None \<Longrightarrow> set_given radix others ''setuid'' v op = Inr (op\<lparr>op_setuid := v\<rparr>)"
  "op_hostname op = None \<Longrightarrow> set_given radix others ''hostname'' v op = Inr (op\<lparr>op_hostname := v\<rparr>)"
  "op_containerizer op = None \<Longrightarrow> set_given radix others ''mesos_containerizer_path'' v op = Inr (op\<lparr>op_containerizer := v\<rparr>)"
  "op_log_destination op = None \<Longrightarrow> set_given radix others ''process_logger_destination'' v op = Inr (op\<lparr>op_log_destination := v\<rparr>)"
  "op_log_mode op = None \<Longrightarrow> set_given radix others ''process_logger_mode'' v op = Inr (op\<lparr>op_log_mode := v\<rparr>)"
  "op_rotate_size op = None \<Longrightarrow> set_given radix others ''rotate_log_size_mb'' (map_option show_int n) op = Inr (op\<lparr>op_rotate_size := n\<rparr>)"
  "op_rotate_backups op = None \<Longrightarrow> set_given radix others ''rotate_log_backups'' (map_option show_int n) op = Inr (op\<lparr>op_rotate_backups := n\<rparr>)"
  by (auto simp: set_given_def set_opt_def split: option.split)

lemma set_given_other: "''log_dir'' \<in> set others \<Longrightarrow> set_given radix others ''log_dir'' v op = Inr op"
  by (auto simp: set_given_def set_opt_def split: option.split)

lemma keep_flag: "\<not> op_chroot op \<Longrightarrow> op\<lparr>op_chroot := False\<rparr> = op" "\<not> op_preserve_env op \<Longrightarrow> op\<lparr>op_preserve_env := False\<rparr> = op"
  by (cases op; simp)+

lemma parse_flag_bool:
  "\<not> op_chroot op \<Longrightarrow> parse_args radix others ((if b then [''--enable_chroot''] else []) @ as) op = parse_args radix others as (op\<lparr>op_chroot := b\<rparr>)"
  "\<not> op_preserve_env op \<Longrightarrow> parse_args radix others ((if b then [''--preserve_env''] else []) @ as) op = parse_args radix others as (op\<lparr>op_preserve_env := b\<rparr>)"
  by (simp_all add: keep_flag)

lemma if_flag: "(if b then flag_arg f v else []) = flag_arg f (if b then v else None)"
  by (simp add: flag_arg_def)

text \<open>C8: The runner that the executor starts reads back, from its command line, the task, the paths, the user, the log
  settings and the ports that the executor has for it, if no name of a port has a colon.\<close>

theorem cmdline_roundtrip:
  assumes "\<forall>(name, n) \<in> set (th_ports r). CHR '':'' \<notin> set name" "distinct (map fst (th_ports r))" "''log_dir'' \<in> set others"
    and "sv_image (th_sandbox r) \<longrightarrow> th_containerizer r \<noteq> None"
  shows "parse_args radix others (drop 2 (cmdline python me log_dir r)) default_opts =
    Inr (\<lparr>op_thermos_json = Some (th_task_filename r), op_sandbox = Some (sv_root (th_sandbox r)),
       op_container_sandbox = sv_container_root (th_sandbox r), op_checkpoint_root = Some (th_checkpoint_root r),
       op_task_id = Some (th_task_id r), op_setuid = setuid_of me r, op_hostname = Some (th_hostname r),
       op_containerizer = (if sv_image (th_sandbox r) then th_containerizer r else None),
       op_log_destination = th_log_destination r, op_log_mode = th_log_mode r, op_rotate_size = th_rotate_size r,
       op_rotate_backups = th_rotate_backups r, op_chroot = th_chroot r, op_preserve_env = th_preserve_env r,
       op_ports = th_ports r\<rparr>, [])"
proof -
  have "drop 2 (cmdline python me log_dir r) = tl (tl (cmdline python me log_dir r))"
    by (simp add: cmdline_def numeral_2_eq_2)
  moreover have "(if sv_image (th_sandbox r) then Some (case th_containerizer r of None \<Rightarrow> ''None'' | Some p \<Rightarrow> p) else None)
      = (if sv_image (th_sandbox r) then th_containerizer r else None)"
    using assms(4) by auto
  ultimately show ?thesis using assms(1-3)
    by (simp add: cmdline_def if_flag parse_flag parse_flag_bool set_given_simps set_given_other parse_ports foldl_update_empty
        default_opts_def del: parse_args.simps)
qed

definition sample_thermos_runner :: thermos_runner where
  "sample_thermos_runner = \<lparr>th_pex = ''r.pex'', th_task_id = ''t=1'', th_ports = [(''http'', 80), (''admin'', 8081)],
     th_sandbox = \<lparr>sv_root = ''/s'', sv_container_root = Some ''/mnt'', sv_chrooted = False, sv_image = True\<rparr>,
     th_checkpoint_root = ''/c'', th_chroot = False, th_preserve_env = True, th_role = Some ''www'', th_hostname = ''h'',
     th_log_destination = None, th_log_mode = Some ''rotate'', th_rotate_size = Some 100, th_rotate_backups = None,
     th_containerizer = Some ''/bin/mc'', th_task_filename = ''/a/task.json''\<rparr>"

lemma cmdline_roundtrip_witness:
  "\<exists>op. parse_args (\<lambda>_. None) [''log_dir''] (drop 2 (cmdline ''py'' ''root'' (Some ''/log'') sample_thermos_runner)) default_opts = Inr (op, []) \<and>
     op_setuid op = Some ''www'' \<and> op_task_id op = Some ''t=1'' \<and> op_ports op = [(''http'', 80), (''admin'', 8081)] \<and> op_rotate_size op = Some 100"
  by (subst cmdline_roundtrip) (simp_all add: sample_thermos_runner_def setuid_of_def)

text \<open>Without the provider's check, the path of the containerizer would be the text \<open>None\<close>; with it, it is a path.\<close>

lemma provided_containerizer:
  assumes "runner_from_assigned_task isfile executable me opens override p a sandbox = Inr (r, w)" "sv_image sandbox"
  shows "th_containerizer r \<noteq> None"
  using assms by (auto simp: runner_from_assigned_task_def check_containerizer_def new_thermos_runner_def rbind_Inr_iff
      split: option.splits if_splits)

lemma provided_ports:
  assumes "runner_from_assigned_task isfile executable me opens override p a sandbox = Inr (r, w)"
  shows "as_resolved a = Inr (th_ports r)"
  using assms by (auto simp: runner_from_assigned_task_def assigned_ports_def new_thermos_runner_def rbind_Inr_iff
      split: option.splits if_splits sum.splits exn.splits)

text \<open>A cycle in the portmap of the announcer is an error that the provider does not turn into one of its own.\<close>

lemma port_cycle_escapes:
  assumes "check_containerizer isfile executable p sandbox = Inr ()" "as_decoded a = Inr l" "as_resolved a = Inl (Own e)"
  shows "runner_from_assigned_task isfile executable me opens override p a sandbox = Inl (Own (Ports_failure e))"
  using assms by (simp add: runner_from_assigned_task_def decoded_lifecycle_def assigned_ports_def)

text \<open>The ports always resolve or raise.\<close>

lemma task_ports_end: "task_ports_resolved announced ports \<noteq> None"
proof -
  obtain r where "resolve_ports (foldl (\<lambda>m (n, p). AList.update n (Port_number p) m) (case announced of None \<Rightarrow> [] | Some a \<Rightarrow> a) ports) = Some r"
    using resolve_ports_ends by blast
  then show ?thesis by (simp add: task_ports_resolved_def Let_def)
qed

text \<open>Data that already are a task of an instance are not validated, and their references may be open.\<close>

lemma instance_not_validated:
  "data \<noteq> None \<Longrightarrow> data \<noteq> Some [] \<Longrightarrow> tb_container b \<Longrightarrow> tb_has_instance b \<Longrightarrow>
     mesos_task_instance data (Some b) t (Inl e, t') = Inr t"
  by (simp add: mesos_task_instance_def)

text \<open>Data that are JSON but no container break the decoding with an error that is not caught.\<close>

lemma scalar_data_escape:
  "d \<noteq> [] \<Longrightarrow> mesos_task_instance (Some d) (Some \<lparr>tb_container = False, tb_has_instance = i\<rparr>) t j = Inl (Py TypeError)"
  by (simp add: mesos_task_instance_def)

text \<open>A port whose name has a colon reaches the runner as an option it cannot read.\<close>

lemma colon_port_refused:
  "add_port (''a:b'' @ CHR '':'' # show_int 80) [] = Inl Bad_port"
  by code_simp

section \<open>How the runner ends\<close>

text \<open>The runner is constructed before the handlers of its exceptions: an invalid task ends it with a traceback and not with
  the exit code that the executor knows.\<close>

lemma constructor_error_uncaught:
  assumes "mw_constructed w = Inl what" "get_task_from_options (mw_checked w) = None"
    "set (mw_ports w) \<subseteq> fst ` set (op_ports op)" "nonempty (op_setuid op)" "the (op_setuid op) \<in> mw_users w"
    "nonempty (op_thermos_json op)" "mw_exists w (the (op_thermos_json op))" "nonempty (op_sandbox op)" "nonempty (op_checkpoint_root op)"
  shows "proxy_main w op = Uncaught what"
  using assms by (simp add: proxy_main_def)

text \<open>Interrupted before it has taken control, the runner has no checkpoint to close.\<close>

lemma early_interrupt: "run_exit False op Run_interrupted = Uncaught ''AttributeError''"
  by (simp add: run_exit_def runner_teardown_def)

end
