(* ===== verification/Recovery.thy ===== *)
theory Recovery
  imports Schema TaskRunner ProcessLog
begin

text \<open>
  The construction of a \<^verbatim>\<open>TaskRunner\<close> and the recovery of its state from the checkpoint, the rest of
  \<^verbatim>\<open>apache/thermos/core/runner.py\<close>: \<^verbatim>\<open>__init__\<close>, \<^verbatim>\<open>_replay_runner_ckpt\<close>, \<^verbatim>\<open>get\<close>, the header and the processes it makes,
  and \<^verbatim>\<open>quitquitquit\<close> of \<^verbatim>\<open>apache/aurora/executor/thermos_task_runner.py\<close>, which binds to a task in this way.
  The host and what Pystachio answers about a task are arguments; an interpolated task comes with the references it
  leaves open.
\<close>

section \<open>What a runner is made of\<close>

record runner_args =
  ra_task :: task_view
  ra_interpolate :: "string \<Rightarrow> (string \<times> int) list \<Rightarrow> string \<Rightarrow> task_view \<times> string list"
  ra_checkpoint_root :: string
  ra_sandbox :: "string option"
  ra_log_dir :: "string option"
  ra_task_id :: "string option"
  ra_portmap :: "(string \<times> int) list"
  ra_user :: "string option"
  ra_chroot :: bool
  ra_hostname :: "string option"
  ra_logger_destination :: "string option"
  ra_logger_mode :: "string option"
  ra_rotate_size :: "int option"
  ra_rotate_backups :: "int option"
  ra_preserve_env :: bool
  ra_containerizer :: "string option"
  ra_container_sandbox :: "string option"

record host_view =
  ho_now :: rat
  ho_date :: string
  ho_hostname :: string
  ho_me :: string
  ho_euid :: int
  ho_uid :: "string \<Rightarrow> int option"

record runner_fields =
  rn_args :: runner_args
  rn_task_id :: string
  rn_user :: string
  rn_launch_time :: rat
  rn_log_dir :: string
  rn_hostname :: string
  rn_task :: task_view

datatype init_error = Init_invalid_task | Init_task task_error | Init_schedule plan_error | Init_runner runner_failure | Init_stream

type_synonym init_exn = "init_error exn"

definition given_text :: "string option \<Rightarrow> string \<Rightarrow> string" where
  "given_text v d = (case v of Some (c # cs) \<Rightarrow> c # cs | _ \<Rightarrow> d)"

text \<open>\<^verbatim>\<open>%06d\<close> of a number that is not negative.\<close>

definition six_digits :: "nat \<Rightarrow> string" where
  "six_digits n = replicate (6 - length (decimal n)) CHR ''0'' @ decimal n"

definition synthesized_id :: "host_view \<Rightarrow> string \<Rightarrow> string" where
  "synthesized_id h name =
     name @ ''-'' @ ho_date h @ ''.'' @ six_digits (nat \<lfloor>(ho_now h - of_int \<lfloor>ho_now h\<rfloor>) * 10 ^ 6\<rfloor>)"

definition join_sandbox :: "string option \<Rightarrow> (init_error, string) res" where
  "join_sandbox sandbox = (case sandbox of None \<Rightarrow> Inl (Py TypeError) | Some s \<Rightarrow>
     Inr (if s = [] then ''.logs'' else if last s = CHR ''/'' then s @ ''.logs'' else s @ ''/.logs''))"

text \<open>Only \<^verbatim>\<open>InvalidTaskError\<close> becomes the runner's \<^verbatim>\<open>InvalidTask\<close>; the other errors pass.\<close>

fun of_task_exn :: "task_error exn \<Rightarrow> init_exn" where
  "of_task_exn (Own InvalidTaskError) = Own Init_invalid_task"
| "of_task_exn (Own e) = Own (Init_task e)"
| "of_task_exn (Py e) = Py e"

definition translated :: "(task_error, 'a) res \<Rightarrow> (init_error, 'a) res" where
  "translated r = (case r of Inl e \<Rightarrow> Inl (of_task_exn e) | Inr x \<Rightarrow> Inr x)"

fun of_plan_exn :: "plan_error exn \<Rightarrow> init_exn" where
  "of_plan_exn (Own e) = Own (Init_schedule e)"
| "of_plan_exn (Py e) = Py e"

fun of_runner_exn :: "runner_exn \<Rightarrow> init_exn" where
  "of_runner_exn (Own e) = Own (Init_runner e)"
| "of_runner_exn (Py e) = Py e"

definition make_plan :: "task_spec \<Rightarrow> (process_config \<Rightarrow> bool) \<Rightarrow> (init_error, task_planner) res" where
  "make_plan t f =
     (case ts_processes t of
        None \<Rightarrow> Inl (Py TypeError)
      | Some ps \<Rightarrow> (case task_planner_init (plan_task t ps) (Some f) of Inl e \<Rightarrow> Inl (of_plan_exn e) | Inr tp \<Rightarrow> Inr tp))"

text \<open>The object before the replay: nothing is running and nothing is written.\<close>

definition blank_runner :: "task_spec \<Rightarrow> task_planner \<Rightarrow> task_planner \<Rightarrow> runner" where
  "blank_runner t regular finalizing =
     \<lparr>tk_state = empty_runner_state, tk_regular = regular, tk_finalizing = finalizing, tk_plan = None,
      tk_known = (case ts_processes t of None \<Rightarrow> [] | Some ps \<Rightarrow> map sp_name ps), tk_processes = Map.empty,
      tk_watcher = new_muxer, tk_recovery = True, tk_terminal_state = None, tk_finalization_start = None,
      tk_preemption_deadline = None, tk_max_failures = ts_max_failures t, tk_max_concurrency = ts_max_concurrency t,
      tk_finalization_wait = of_int (case ts_finalization_wait t of None \<Rightarrow> 0 | Some w \<Rightarrow> w), tk_effects = []\<rparr>"

section \<open>The replay\<close>

definition header_ckpt :: "runner_header \<Rightarrow> runner_ckpt" where
  "header_ckpt h = \<lparr>rc_header = Some h, rc_process = None, rc_task = None\<rparr>"

text \<open>\<^verbatim>\<open>on_initialization\<close> validates the task once more, with the ports of the header.\<close>

definition on_initialization :: "task_view \<Rightarrow> runner_header \<Rightarrow> runner \<Rightarrow> runner \<times> init_exn option" where
  "on_initialization t h r =
     (case rbind (assert_valid_task t) (\<lambda>_. assert_valid_ports t (fst ` set (rh_ports h))) of
        Inl (Own e) \<Rightarrow> (r, Some (Own (Init_task e)))
      | Inl (Py e) \<Rightarrow> (r, Some (Py e))
      | Inr _ \<Rightarrow> (ckpt_write r (header_ckpt h), None))"

definition lift_exn :: "runner_out \<Rightarrow> runner \<times> init_exn option" where
  "lift_exn out = (fst out, map_option of_runner_exn (snd out))"

definition replay_event :: "task_view \<Rightarrow> rat \<Rightarrow> (runner \<Rightarrow> string list) \<Rightarrow> unit event \<Rightarrow> runner \<Rightarrow> runner \<times> init_exn option" where
  "replay_event t now running ev r =
     (case ev of
        On_initialization _ h \<Rightarrow> on_initialization t h r
      | On_process_transition _ _ _ \<Rightarrow> lift_exn (handle_process_event now ev r)
      | On_process _ _ _ \<Rightarrow> lift_exn (handle_process_event now ev r)
      | _ \<Rightarrow> lift_exn (handle_task_event now [] (running r) ev r))"

fun replay_events :: "task_view \<Rightarrow> rat \<Rightarrow> (runner \<Rightarrow> string list) \<Rightarrow> unit event list \<Rightarrow> runner \<Rightarrow> runner \<times> init_exn option" where
  "replay_events t now running [] r = (r, None)"
| "replay_events t now running (ev # evs) r = then_do (replay_event t now running ev r) (replay_events t now running evs)"

text \<open>\<^verbatim>\<open>_replay_runner_ckpt\<close>: each record is dispatched in recovery; \<open>broken\<close> is a reading that ends in an error.\<close>

fun replay_runner_ckpt :: "task_view \<Rightarrow> rat \<Rightarrow> (runner \<Rightarrow> string list) \<Rightarrow> bool \<Rightarrow> runner_ckpt list \<Rightarrow> runner \<Rightarrow> runner \<times> init_exn option" where
  "replay_runner_ckpt t now running broken [] r = (r, if broken then Some (Own Init_stream) else None)"
| "replay_runner_ckpt t now running broken (rc # rcs) r =
     (case dispatch runner_dispatcher True False (tk_state r) rc of
        (st, ev, e) \<Rightarrow>
          then_do (then_do (replay_events t now running ev (r\<lparr>tk_state := st\<rparr>))
                     (\<lambda>r. (r, map_option (\<lambda>e. of_runner_exn (of_ckpt_exn e)) e)))
            (replay_runner_ckpt t now running broken rcs))"

section \<open>Construction\<close>

text \<open>What is on disk: the copy of the task, and the checkpoint, if there is one.\<close>

record disk_view =
  di_task :: "task_spec option option"
  di_checkpoint :: "ckpt_stream option"

definition runner_user :: "host_view \<Rightarrow> runner_args \<Rightarrow> (init_error, string) res" where
  "runner_user h a =
     (let user = given_text (ra_user a) (ho_me h) in
      if user \<noteq> ho_me h \<and> ho_euid h \<noteq> 0 then Inl (Py ValueError) else Inr user)"

definition runner_task_id :: "host_view \<Rightarrow> runner_args \<Rightarrow> string" where
  "runner_task_id h a =
     given_text (ra_task_id a) (synthesized_id h (case ts_name (tv_spec (ra_task a)) of None \<Rightarrow> ''Empty'' | Some n \<Rightarrow> n))"

definition make_fields :: "host_view \<Rightarrow> disk_view \<Rightarrow> runner_args \<Rightarrow> (init_error, runner_fields) res" where
  "make_fields h d a =
     (let task_id = runner_task_id h a in
      rbind (runner_user h a) (\<lambda>user.
      rbind (case ra_log_dir a of Some (c # cs) \<Rightarrow> Inr (c # cs) | _ \<Rightarrow> join_sandbox (ra_sandbox a)) (\<lambda>log_dir.
      rbind (translated (rbind (assert_valid_task (ra_task a)) (\<lambda>_. assert_valid_ports (ra_task a) (fst ` set (ra_portmap a))))) (\<lambda>_.
      case ra_interpolate a task_id (ra_portmap a) user of
        (t, missing) \<Rightarrow>
          if missing \<noteq> [] then Inl (Own Init_invalid_task)
          else rbind (translated (assert_same_task (di_task d) (tv_spec t))) (\<lambda>_.
            Inr \<lparr>rn_args = a, rn_task_id = task_id, rn_user = user, rn_launch_time = ho_now h, rn_log_dir = log_dir,
                 rn_hostname = given_text (ra_hostname a) (ho_hostname h), rn_task = t\<rparr>)))))"

definition new_runner :: "host_view \<Rightarrow> disk_view \<Rightarrow> (runner \<Rightarrow> string list) \<Rightarrow> runner_args \<Rightarrow> (init_error, runner_fields \<times> runner) res" where
  "new_runner h d running a =
     rbind (make_fields h d a) (\<lambda>f.
     rbind (make_plan (tv_spec (rn_task f)) (\<lambda>p. \<not> pc_final p)) (\<lambda>regular.
     rbind (make_plan (tv_spec (rn_task f)) pc_final) (\<lambda>finalizing.
     let r = blank_runner (tv_spec (rn_task f)) regular finalizing in
     case di_checkpoint d of
       None \<Rightarrow> Inr (f, r)
     | Some s \<Rightarrow>
         (case replay_runner_ckpt (rn_task f) (ho_now h) running (cs_broken s) (cs_updates s) r of
            (_, Some e) \<Rightarrow> Inl e
          | (r', None) \<Rightarrow> Inr (f, r')))))"

text \<open>\<^verbatim>\<open>_initialize_ckpt_header\<close>: an unknown user gives a header without a uid.\<close>

definition initial_header :: "host_view \<Rightarrow> runner_fields \<Rightarrow> runner_header" where
  "initial_header h f =
     \<lparr>rh_task_id = rn_task_id f, rh_launch_time_ms = \<lfloor>rn_launch_time f * 1000\<rfloor>,
      rh_sandbox = (case ra_sandbox (rn_args f) of None \<Rightarrow> [] | Some s \<Rightarrow> s), rh_log_dir = Some (rn_log_dir f),
      rh_hostname = rn_hostname f, rh_user = rn_user f, rh_uid = ho_uid h (rn_user f), rh_ports = ra_portmap (rn_args f)\<rparr>"

text \<open>\<^verbatim>\<open>has_running_processes\<close>, of the scan of the process tree.\<close>

definition has_running_processes :: "tree_scan \<Rightarrow> bool" where
  "has_running_processes scan = list_ex (\<lambda>(_, t). has_pids t) scan"

text \<open>The process of \<^verbatim>\<open>_task_process_from_process_name\<close>: the number of its run is that of the runs so far, less one.\<close>

record process_args =
  pa_name :: string
  pa_sequence :: int
  pa_run :: int
  pa_sandbox :: "string option"
  pa_user :: string
  pa_chroot :: bool
  pa_logger :: "string \<times> string \<times> int option \<times> int option"
  pa_preserve_env :: bool
  pa_containerizer :: "string option"
  pa_container_sandbox :: "string option"

definition task_process :: "(string \<Rightarrow> logger_config option) \<Rightarrow> runner_fields \<Rightarrow> runner \<Rightarrow> string \<Rightarrow> int \<Rightarrow> (runner_failure, process_args) res" where
  "task_process loggers f r n seq =
     (case rs_processes (tk_state r) (Some n) of
        None \<Rightarrow> Inl (Py KeyError)
      | Some runs \<Rightarrow>
          if n \<notin> set (tk_known r) then Inl (Own Internal_error)
          else Inr \<lparr>pa_name = n, pa_sequence = seq, pa_run = int (length runs) - 1, pa_sandbox = ra_sandbox (rn_args f),
            pa_user = rn_user f, pa_chroot = ra_chroot (rn_args f),
            pa_logger = logger_args ''file'' ''standard'' 104857600 5 (ra_logger_destination (rn_args f)) (ra_logger_mode (rn_args f))
              (ra_rotate_size (rn_args f)) (ra_rotate_backups (rn_args f)) (loggers n),
            pa_preserve_env = ra_preserve_env (rn_args f), pa_containerizer = ra_containerizer (rn_args f),
            pa_container_sandbox = ra_container_sandbox (rn_args f)\<rparr>)"

section \<open>Binding to a task\<close>

text \<open>The arguments that \<^verbatim>\<open>get\<close> passes: those of the header, and otherwise the defaults.  The user is the caller.\<close>

definition header_args :: "task_view \<Rightarrow> (string \<Rightarrow> (string \<times> int) list \<Rightarrow> string \<Rightarrow> task_view \<times> string list) \<Rightarrow> string \<Rightarrow> string
    \<Rightarrow> runner_header \<Rightarrow> runner_args" where
  "header_args t interpolate ckpt_root task_id hdr =
     \<lparr>ra_task = t, ra_interpolate = interpolate, ra_checkpoint_root = ckpt_root, ra_sandbox = Some (rh_sandbox hdr),
      ra_log_dir = rh_log_dir hdr, ra_task_id = Some task_id, ra_portmap = rh_ports hdr, ra_user = None, ra_chroot = False,
      ra_hostname = Some (rh_hostname hdr), ra_logger_destination = None, ra_logger_mode = None, ra_rotate_size = None,
      ra_rotate_backups = None, ra_preserve_env = False, ra_containerizer = None, ra_container_sandbox = None\<rparr>"

text \<open>\<open>loaded\<close> is the file of the active task, if there is one: \<open>None\<close> if it does not load.  The loader's validation is
  outside the handler of exceptions.\<close>

definition get_runner :: "host_view \<Rightarrow> disk_view \<Rightarrow> (runner \<Rightarrow> string list)
    \<Rightarrow> (string \<Rightarrow> (string \<times> int) list \<Rightarrow> string \<Rightarrow> task_view \<times> string list)
    \<Rightarrow> string \<Rightarrow> string \<Rightarrow> task_view option option \<Rightarrow> (task_error, (runner_fields \<times> runner) option) res" where
  "get_runner h d running interpolate task_id ckpt_root loaded =
     (case loaded of
        None \<Rightarrow> Inr None
      | Some None \<Rightarrow> Inr None
      | Some (Some t) \<Rightarrow>
          rbind (assert_valid_task t) (\<lambda>_.
          case (case di_checkpoint d of None \<Rightarrow> Inr None | Some s \<Rightarrow> from_file False s) of
            Inl _ \<Rightarrow> Inr None
          | Inr None \<Rightarrow> Inr None
          | Inr (Some st) \<Rightarrow>
              (case rs_header st of
                 None \<Rightarrow> Inr None
               | Some hdr \<Rightarrow>
                   (case new_runner h d running (header_args t interpolate ckpt_root task_id hdr) of
                      Inl _ \<Rightarrow> Inr None
                    | Inr fr \<Rightarrow> Inr (Some fr)))))"

datatype quit_end = Quit_killed runner | Quit_logged | Quit_no_runner

text \<open>\<^verbatim>\<open>quitquitquit\<close>: the errors of the class \<^verbatim>\<open>TaskRunner\<close> are logged, all others pass.\<close>

definition quitquitquit :: "(task_error, (runner_fields \<times> runner) option) res \<Rightarrow> (runner \<Rightarrow> runner_out) \<Rightarrow> init_exn + quit_end" where
  "quitquitquit got kill =
     (case got of
        Inl (Own e) \<Rightarrow> Inl (Own (Init_task e))
      | Inl (Py e) \<Rightarrow> Inl (Py e)
      | Inr None \<Rightarrow> Inr Quit_no_runner
      | Inr (Some (_, r)) \<Rightarrow>
          (case kill r of
             (r', None) \<Rightarrow> Inr (Quit_killed r')
           | (_, Some (Own e)) \<Rightarrow>
               if e \<in> {Internal_error, Invalid_task, State_error, Permission_error} then Inr Quit_logged
               else Inl (Own (Init_runner e))
           | (_, Some (Py e)) \<Rightarrow> Inl (Py e)))"

section \<open>Recovery reads what the file says\<close>

















definition sample_view :: task_view where
  "sample_view = \<lparr>tv_spec = default_task\<lparr>ts_name := Some ''t'', ts_processes := Some [default_process ''a'' ''true'']\<rparr>,
     tv_typechecks = True, tv_open = [], tv_process_open = [[]], tv_unbindable = (\<lambda>_. [])\<rparr>"

definition sample_host :: host_view where
  "sample_host = \<lparr>ho_now = 5, ho_date = ''d'', ho_hostname = ''h'', ho_me = ''u'', ho_euid = 7, ho_uid = (\<lambda>_. Some 7)\<rparr>"

definition sample_header :: runner_header where
  "sample_header = \<lparr>rh_task_id = ''t-1'', rh_launch_time_ms = 1000, rh_sandbox = ''/s'', rh_log_dir = Some ''/l'',
     rh_hostname = ''h'', rh_user = ''u'', rh_uid = Some 7, rh_ports = []\<rparr>"

definition sample_stream :: ckpt_stream where
  "sample_stream = \<lparr>cs_updates = [header_ckpt sample_header,
      task_ckpt \<lparr>ts_state = Some T_ACTIVE, ts_timestamp_ms = Some 1000, ts_runner_pid = Some 1, ts_runner_uid = Some 7\<rparr>,
      process_ckpt (empty_status\<lparr>ps_process := Some ''a'', ps_state := Some P_WAITING, ps_seq := Some 0\<rparr>)], cs_broken = False\<rparr>"

definition sample_args :: runner_args where
  "sample_args = header_args sample_view (\<lambda>_ _ _. (sample_view, [])) ''/r'' ''t-1'' sample_header"

lemma no_Inl: "(\<forall>e. x \<noteq> Inl e) \<longleftrightarrow> (\<exists>y. x = Inr y)"
  by (cases x) auto

abbreviation sample_disk :: disk_view where
  "sample_disk \<equiv> \<lparr>di_task = None, di_checkpoint = None\<rparr>"



text \<open>The signals: a task whose checkpoint says that it is being cleaned has its running processes signalled by whoever
  constructs a runner for it.\<close>

definition cleaning_stream :: ckpt_stream where
  "cleaning_stream = \<lparr>cs_updates = cs_updates sample_stream @
      [process_ckpt (empty_status\<lparr>ps_process := Some ''a'', ps_state := Some P_FORKED, ps_seq := Some 1,
         ps_fork_time := Some 1, ps_coordinator_pid := Some 3\<rparr>),
       task_ckpt \<lparr>ts_state = Some T_CLEANING, ts_timestamp_ms = Some 2000, ts_runner_pid = Some 1, ts_runner_uid = Some 7\<rparr>],
     cs_broken = False\<rparr>"

lemma recovery_signals:
  "(case new_runner sample_host (sample_disk\<lparr>di_checkpoint := Some cleaning_stream\<rparr>) (\<lambda>_. [''a'']) sample_args of
      Inr (_, r) \<Rightarrow> tk_effects r = [Rebind ''a'' (Some 3) (Some 1), Terminate_orphans, Terminate_process ''a''] | Inl _ \<Rightarrow> False)"
  by code_simp

section \<open>Construction and binding\<close>

lemma no_sandbox_raises:
  assumes "ra_sandbox a = None" "ra_log_dir a = None" "runner_user h a = Inr user"
  shows "new_runner h d running a = Inl (Py TypeError)"
  using assms by (simp add: new_runner_def make_fields_def join_sandbox_def Let_def)

lemma new_runner_fields:
  assumes "new_runner h d running a = Inr (f, r)"
  shows "make_fields h d a = Inr f"
proof -
  obtain f0 where f0: "make_fields h d a = Inr f0" using assms by (auto simp: new_runner_def rbind_Inr_iff)
  obtain regular finalizing where
    "(let r = blank_runner (tv_spec (rn_task f0)) regular finalizing in
      case di_checkpoint d of None \<Rightarrow> Inr (f0, r)
      | Some s \<Rightarrow> (case replay_runner_ckpt (rn_task f0) (ho_now h) running (cs_broken s) (cs_updates s) r of
            (_, Some e) \<Rightarrow> Inl e | (r', None) \<Rightarrow> Inr (f0, r'))) = Inr (f, r)"
    using assms f0 by (auto simp: new_runner_def rbind_Inr_iff)
  then have "f = f0" by (auto simp: Let_def split: option.splits prod.splits)
  then show ?thesis using f0 by simp
qed

lemma make_fields_user:
  assumes "make_fields h d a = Inr f"
  shows "rn_args f = a \<and> runner_user h a = Inr (rn_user f) \<and> rn_task_id f = runner_task_id h a"
proof -
  obtain user where user: "runner_user h a = Inr user" using assms by (auto simp: make_fields_def Let_def rbind_Inr_iff)
  obtain t missing where t: "ra_interpolate a (runner_task_id h a) (ra_portmap a) user = (t, missing)" by (metis prod.collapse)
  obtain log_dir where "(if missing \<noteq> [] then Inl (Own Init_invalid_task)
        else rbind (translated (assert_same_task (di_task d) (tv_spec t))) (\<lambda>_.
            Inr \<lparr>rn_args = a, rn_task_id = runner_task_id h a, rn_user = user, rn_launch_time = ho_now h, rn_log_dir = log_dir,
                 rn_hostname = given_text (ra_hostname a) (ho_hostname h), rn_task = t\<rparr>)) = Inr f"
    using assms user t unfolding make_fields_def Let_def by (auto simp: rbind_Inr_iff)
  then have "f = \<lparr>rn_args = a, rn_task_id = runner_task_id h a, rn_user = user, rn_launch_time = ho_now h, rn_log_dir = log_dir,
                 rn_hostname = given_text (ra_hostname a) (ho_hostname h), rn_task = t\<rparr>"
    by (auto simp: rbind_Inr_iff split: if_splits)
  then show ?thesis using user by simp
qed

text \<open>Running as another user needs the superuser.\<close>

lemma other_user_needs_root:
  assumes "new_runner h d running a = Inr (f, r)" "rn_user f \<noteq> ho_me h"
  shows "ho_euid h = 0"
proof -
  have "runner_user h a = Inr (rn_user f)" using make_fields_user [OF new_runner_fields [OF assms(1)]] by blast
  then show ?thesis using assms(2) by (auto simp: runner_user_def Let_def split: if_splits)
qed

text \<open>C20: A runner bound to a running task by its checkpoint, as \<open>quitquitquit\<close> of the executor does, starts the processes
  that are left, the finalizing ones, as the user who bound it, not as the user of the task's header, and outside the chroot
  and the container of the task.\<close>

theorem bound_runner_runs_as_caller:
  assumes "get_runner h d running interpolate task_id ckpt_root loaded = Inr (Some (f, r))" "task_process loggers f r n seq = Inr p"
  shows "pa_user p = ho_me h \<and> \<not> pa_chroot p \<and> pa_containerizer p = None \<and> pa_container_sandbox p = None"
proof -
  obtain t hdr where "new_runner h d running (header_args t interpolate ckpt_root task_id hdr) = Inr (f, r)"
    using assms(1) by (auto simp: get_runner_def rbind_Inr_iff split: option.splits sum.splits)
  from make_fields_user [OF new_runner_fields [OF this]] assms(2) show ?thesis
    by (auto simp: task_process_def header_args_def given_text_def runner_user_def Let_def split: option.splits if_splits)
qed

lemma bound_runner_runs_as_caller_witness:
  "\<exists>f r p. get_runner (sample_host\<lparr>ho_me := ''root'', ho_euid := 0\<rparr>) (sample_disk\<lparr>di_checkpoint := Some sample_stream\<rparr>) (\<lambda>_. [])
       (\<lambda>_ _ _. (sample_view, [])) ''t-1'' ''/r'' (Some (Some sample_view)) = Inr (Some (f, r)) \<and>
     rh_user sample_header = ''u'' \<and> task_process (\<lambda>_. None) f r ''a'' 1 = Inr p \<and> pa_user p = ''root''"
proof -
  have "(case get_runner (sample_host\<lparr>ho_me := ''root'', ho_euid := 0\<rparr>) (sample_disk\<lparr>di_checkpoint := Some sample_stream\<rparr>) (\<lambda>_. [])
       (\<lambda>_ _ _. (sample_view, [])) ''t-1'' ''/r'' (Some (Some sample_view)) of
     Inr (Some (f, r)) \<Rightarrow> (case task_process (\<lambda>_. None) f r ''a'' 1 of Inr _ \<Rightarrow> True | Inl _ \<Rightarrow> False) | _ \<Rightarrow> False)"
    by code_simp
  then obtain f r p where "get_runner (sample_host\<lparr>ho_me := ''root'', ho_euid := 0\<rparr>) (sample_disk\<lparr>di_checkpoint := Some sample_stream\<rparr>) (\<lambda>_. [])
       (\<lambda>_ _ _. (sample_view, [])) ''t-1'' ''/r'' (Some (Some sample_view)) = Inr (Some (f, r))" "task_process (\<lambda>_. None) f r ''a'' 1 = Inr p"
    by (auto simp: no_Inl split: sum.splits option.splits)
  moreover from bound_runner_runs_as_caller [OF this] have "pa_user p = ''root''" by (simp add: sample_host_def)
  ultimately show ?thesis by (auto simp: sample_header_def)
qed

text \<open>The loader validates the task outside the handler of exceptions, so a bad file of an active task breaks the binding.\<close>

lemma bad_file_escapes:
  "assert_valid_task t = Inl (Own e) \<Longrightarrow>
     quitquitquit (get_runner h d running interpolate task_id ckpt_root (Some (Some t))) kill = Inl (Own (Init_task e))"
  by (simp add: get_runner_def quitquitquit_def)

end
