(* ===== verification/TaskAnswers.thy ===== *)
theory TaskAnswers
  imports Observer ResourceMonitor Paths Recovery
begin

text \<open>
  The answers of the observer that join several parts, the rest of \<^verbatim>\<open>apache/thermos/observer/task_observer.py\<close>: counts and
  lists of tasks, what they consume, their processes, logs and files.  The keys of the tables, in their order, the names of a
  directory and the file system's predicates are arguments.
\<close>

section \<open>Tables\<close>

datatype kind = Active_tasks | Finished_tasks | All_tasks

definition kind_of :: "string \<Rightarrow> kind option" where
  "kind_of s = (if s = ''active'' then Some Active_tasks else if s = ''finished'' then Some Finished_tasks
     else if s = ''all'' then Some All_tasks else None)"

definition tasks_table :: "observer \<Rightarrow> kind \<Rightarrow> string \<Rightarrow> string option" where
  "tasks_table ob k = (case k of Active_tasks \<Rightarrow> ob_active ob | Finished_tasks \<Rightarrow> ob_finished ob | All_tasks \<Rightarrow> all_tasks ob)"

text \<open>\<open>keys\<close> are the ids in the tables, each once.\<close>

definition in_table :: "observer \<Rightarrow> string list \<Rightarrow> kind \<Rightarrow> string list" where
  "in_table ob keys k = filter (\<lambda>i. tasks_table ob k i \<noteq> None) keys"

definition get_tasks_of_type :: "observer \<Rightarrow> string list \<Rightarrow> string \<Rightarrow> string list" where
  "get_tasks_of_type ob keys type = (case kind_of type of None \<Rightarrow> [] | Some k \<Rightarrow> in_table ob keys k)"

definition task_count :: "observer \<Rightarrow> string list \<Rightarrow> kind \<Rightarrow> nat" where
  "task_count ob keys k = length (in_table ob keys k)"

definition count_of_type :: "observer \<Rightarrow> string list \<Rightarrow> string \<Rightarrow> pyexc + nat" where
  "count_of_type ob keys type = (case kind_of type of None \<Rightarrow> Inl KeyError | Some k \<Rightarrow> Inr (task_count ob keys k))"

record main_page =
  mp_tasks :: "string list"
  mp_type :: string
  mp_offset :: int
  mp_num :: int
  mp_count :: nat

text \<open>\<^verbatim>\<open>main\<close> up to the rows, which are made when the page is rendered.\<close>

definition main_of :: "observer \<Rightarrow> string list \<Rightarrow> (string \<Rightarrow> rat option) \<Rightarrow> string option \<Rightarrow> int option \<Rightarrow> int option
    \<Rightarrow> pyexc + main_page" where
  "main_of ob keys mtime type offset num =
     (let t = (case type of Some (c # cs) \<Rightarrow> c # cs | _ \<Rightarrow> ''all'') in
      rbind (tasks_page (map (\<lambda>i. (i, mtime i)) (get_tasks_of_type ob keys t)) offset num) (\<lambda>(ids, o2, n).
      rbind (count_of_type ob keys t) (\<lambda>count.
        Inr \<lparr>mp_tasks = ids, mp_type = t, mp_offset = o2, mp_num = n, mp_count = count\<rparr>)))"

text \<open>The process of a name, among those of the task's configuration, if that can be read.\<close>

definition process_from_name :: "observer \<Rightarrow> (string \<Rightarrow> spec_process list option) \<Rightarrow> string \<Rightarrow> string \<Rightarrow> spec_process option" where
  "process_from_name ob conf i name =
     (if all_tasks ob i = None then None
      else case conf i of None \<Rightarrow> None | Some ps \<Rightarrow> find (\<lambda>p. sp_name p = name) ps)"

section \<open>Consumption\<close>

text \<open>The monitor that a task found active gets.\<close>

definition monitored :: "bool \<Rightarrow> resource_monitor \<Rightarrow> resource_monitor option" where
  "monitored disabled m = (if disabled then None else Some m)"

text \<open>\<^verbatim>\<open>_sample\<close> of a task, whose monitor, if it is active, is \<open>monitor i\<close>, or \<open>None\<close> for the monitor that measures nothing.\<close>

definition task_sample :: "observer \<Rightarrow> (string \<Rightarrow> resource_monitor option) \<Rightarrow> rat \<Rightarrow> string \<Rightarrow> pyexc + process_sample \<times> int" where
  "task_sample ob monitor now i =
     (if ob_active ob i = None then Inr (empty_sample, 0)
      else rbind (case monitor i of None \<Rightarrow> Inr (null_sample_at now) | Some m \<Rightarrow> sample_at now m) (\<lambda>(_, a).
        Inr (ag_sample a, ag_disk a)))"

definition process_consumption :: "observer \<Rightarrow> (string \<Rightarrow> string \<Rightarrow> pyexc + process_sample) \<Rightarrow> string \<Rightarrow> string \<Rightarrow> pyexc + process_sample" where
  "process_consumption ob by_process i name = (if ob_active ob i = None then Inr empty_sample else by_process i name)"

section \<open>Statuses and processes\<close>

definition state_text :: "task_state option \<Rightarrow> string" where
  "state_text s = (case s of None \<Rightarrow> ''UNKNOWN'' | Some T_ACTIVE \<Rightarrow> ''ACTIVE'' | Some T_CLEANING \<Rightarrow> ''CLEANING''
     | Some T_FINALIZING \<Rightarrow> ''FINALIZING'' | Some T_SUCCESS \<Rightarrow> ''SUCCESS'' | Some T_FAILED \<Rightarrow> ''FAILED''
     | Some T_KILLED \<Rightarrow> ''KILLED'' | Some T_LOST \<Rightarrow> ''LOST'')"

definition task_statuses :: "observer \<Rightarrow> (string \<Rightarrow> runner_state) \<Rightarrow> string \<Rightarrow> pyexc + (string \<times> rat) list" where
  "task_statuses ob states i =
     (case headed_state ob states i of
        None \<Rightarrow> Inr []
      | Some (_, st) \<Rightarrow>
          (case rs_statuses st of
             None \<Rightarrow> Inl TypeError
           | Some ss \<Rightarrow> traverse (\<lambda>s. case ts_timestamp_ms s of None \<Rightarrow> Inl TypeError
               | Some ms \<Rightarrow> Inr (state_text (ts_state s), of_int ms / 1000)) ss))"

text \<open>\<^verbatim>\<open>tasks\<close> takes the configuration out of what \<^verbatim>\<open>_task\<close> gives, which is empty for a task that is not known.\<close>

definition tasks_of :: "(string \<Rightarrow> pyexc + task_info option) \<Rightarrow> string list \<Rightarrow> pyexc + (string \<times> task_info) list" where
  "tasks_of info ids =
     traverse (\<lambda>i. rbind (info i) (\<lambda>t. case t of None \<Rightarrow> Inl KeyError | Some d \<Rightarrow> Inr (i, d))) ids"

text \<open>\<^verbatim>\<open>process\<close> with what a running process uses.\<close>

definition process_used :: "observer \<Rightarrow> (string \<Rightarrow> runner_state) \<Rightarrow> (string \<Rightarrow> string \<Rightarrow> pyexc + process_sample) \<Rightarrow> string \<Rightarrow> string
    \<Rightarrow> int option \<Rightarrow> pyexc + (process_tuple \<times> process_sample option) option" where
  "process_used ob states by_process i name run =
     rbind (process_info ob states i (Some name) run) (\<lambda>p.
       case p of
         None \<Rightarrow> Inr None
       | Some t \<Rightarrow> if pt_state t = P_RUNNING then rbind (process_consumption ob by_process i name) (\<lambda>u. Inr (Some (t, Some u)))
                   else Inr (Some (t, None)))"

text \<open>\<^verbatim>\<open>_processes\<close>: each process of the table with its latest run, bucket by bucket.\<close>

definition processes_of :: "observer \<Rightarrow> (string \<Rightarrow> runner_state) \<Rightarrow> (string \<Rightarrow> string \<Rightarrow> pyexc + process_sample) \<Rightarrow> string list
    \<Rightarrow> string \<Rightarrow> pyexc + (string \<times> (process_tuple \<times> process_sample option) option) list" where
  "processes_of ob states by_process names i =
     traverse (\<lambda>n. rbind (process_used ob states by_process i n None) (\<lambda>p. Inr (n, p)))
       (concat (map (\<lambda>b. List.map_filter id (task_processes ob states (map Some names) i b)) [Waiting, Running, Success, Failed, Killed]))"

section \<open>Logs and files\<close>

text \<open>\<^verbatim>\<open>logs\<close>: the directory of a run; a header without a directory of logs cannot be filled in.\<close>

definition logs_of :: "observer \<Rightarrow> (string \<Rightarrow> runner_state) \<Rightarrow> string \<Rightarrow> string \<Rightarrow> int option \<Rightarrow> pyexc + (string \<times> string) option" where
  "logs_of ob states i name run =
     (case headed_state ob states i of
        None \<Rightarrow> Inr None
      | Some (h, st) \<Rightarrow>
          rbind (get_run_number st (Some name) run) (\<lambda>number.
          case number of
            None \<Rightarrow> Inr None
          | Some k \<Rightarrow>
              (case all_tasks ob i of
                 None \<Rightarrow> Inr None
               | Some rt \<Rightarrow>
                   (case rh_log_dir h of
                      None \<Rightarrow> Inl ValueError
                    | Some l \<Rightarrow>
                        (case getpath ''process_logdir''
                           (task_data [(''root'', rt), (''task_id'', i), (''process'', name), (''run'', decimal (nat k)), (''log_dir'', l)]) of
                           Inl _ \<Rightarrow> Inl ValueError
                         | Inr p \<Rightarrow> Inr (Some (p @ ''/stdout'', p @ ''/stderr'')))))))"

record file_list =
  fl_chroot :: string
  fl_path :: string
  fl_dirs :: "string list"
  fl_files :: "string list"

definition files_of :: "(string \<Rightarrow> string) \<Rightarrow> (string \<Rightarrow> bool) \<Rightarrow> (string \<Rightarrow> string list) \<Rightarrow> observer \<Rightarrow> (string \<Rightarrow> runner_state)
    \<Rightarrow> string \<Rightarrow> string option \<Rightarrow> file_list option" where
  "files_of realpath isdir listdir ob states i path =
     (case headed_state ob states i of
        None \<Rightarrow> None
      | Some (h, _) \<Rightarrow>
          (case sanitize_path realpath (rh_sandbox h) (Some (case path of None \<Rightarrow> ''.'' | Some p \<Rightarrow> p)) of
             None \<Rightarrow> None
           | Some (chroot, p) \<Rightarrow>
               let dir = join_path chroot p in
               if \<not> isdir dir then None
               else Some \<lparr>fl_chroot = chroot, fl_path = p, fl_dirs = filter (\<lambda>n. isdir (join_path dir n)) (listdir dir),
                          fl_files = filter (\<lambda>n. \<not> isdir (join_path dir n)) (listdir dir)\<rparr>))"

section \<open>Facts\<close>

text \<open>A task is active or finished; the tables of a healthy observer do not overlap, and then the counts add up.\<close>

lemma counts_add_up:
  assumes "\<And>i. ob_active ob i = None \<or> ob_finished ob i = None"
  shows "task_count ob keys All_tasks = task_count ob keys Active_tasks + task_count ob keys Finished_tasks"
proof (induction keys)
  case (Cons i keys)
  then show ?case using assms [of i]
    by (auto simp: task_count_def in_table_def tasks_table_def all_tasks_def map_add_def split: option.splits)
qed (simp add: task_count_def in_table_def)

text \<open>A page of an unknown type raises, though the list of its tasks was already found empty.\<close>

lemma unknown_type_raises:
  assumes "kind_of t = None" "t \<noteq> []"
  shows "get_tasks_of_type ob keys t = [] \<and> main_of ob keys mtime (Some t) offset num = Inl KeyError"
  using assms by (cases t) (auto simp: get_tasks_of_type_def main_of_def count_of_type_def tasks_page_def by_mtime_def Let_def split: prod.split)

text \<open>The information about a list of tasks fails as a whole when one of them is not known.\<close>

lemma unknown_task_fails_all:
  assumes "i \<in> set ids" "info i = Inr None" "\<And>j. j \<in> set ids \<Longrightarrow> \<exists>d. info j = Inr d"
  shows "tasks_of info ids = Inl KeyError"
proof -
  have "\<exists>i \<in> set ids. info i = Inr None \<Longrightarrow> (\<And>j. j \<in> set ids \<Longrightarrow> \<exists>d. info j = Inr d) \<Longrightarrow> tasks_of info ids = Inl KeyError" for ids
  proof (induction ids)
    case (Cons j ids)
    obtain d where d: "info j = Inr d" using Cons.prems(2) [of j] by auto
    show ?case
    proof (cases d)
      case (Some t)
      then have "tasks_of info ids = Inl KeyError" using Cons d by auto
      then show ?thesis using d Some by (simp add: tasks_of_def)
    qed (simp add: tasks_of_def d)
  qed simp
  then show ?thesis using assms by blast
qed

text \<open>A header of before the directory of logs was recorded.\<close>

lemma old_header_has_no_logs:
  assumes "headed_state ob states i = Some (h, st)" "rh_log_dir h = None" "rs_processes st (Some n) = Some (run # runs)"
  shows "logs_of ob states i n None = Inl ValueError"
proof -
  have "all_tasks ob i \<noteq> None" using assms(1) by (auto simp: headed_state_def raw_state_def split: if_splits)
  then show ?thesis using assms by (auto simp: logs_of_def get_run_number_def Let_def)
qed

text \<open>The directory into which a process of the runner writes its logs.\<close>

definition process_log_dir :: "runner_fields \<Rightarrow> process_args \<Rightarrow> path_error + string" where
  "process_log_dir f p =
     getpath ''process_logdir''
       (task_data [(''root'', ra_checkpoint_root (rn_args f)), (''task_id'', rn_task_id f), (''process'', pa_name p),
          (''run'', decimal (nat (pa_run p))), (''log_dir'', rn_log_dir f)])"

text \<open>C35: The observer looks for the logs of a process, asked for no particular run, where the process that the runner made
  last writes them.\<close>

theorem logs_where_written:
  assumes "task_process loggers f r n seq = Inr p" "rs_processes (tk_state r) (Some n) \<noteq> Some []"
    and "all_tasks ob i = Some task_root" "states i = tk_state r" "rs_header (tk_state r) = Some (initial_header h f)"
  shows "\<exists>dir. process_log_dir f p = Inr dir \<and> logs_of ob states i n None = Inr (Some (dir @ ''/stdout'', dir @ ''/stderr''))"
proof -
  obtain runs where runs: "rs_processes (tk_state r) (Some n) = Some runs" "runs \<noteq> []"
    and p: "pa_name p = n" "pa_run p = int (length runs) - 1"
    using assms(1,2) by (auto simp: task_process_def split: option.splits if_splits)
  have "(- 1) mod int (length runs) = int (length runs) - 1"
    using runs(2) by (simp add: zmod_minus1)
  then have number: "get_run_number (tk_state r) (Some n) None = Inr (Some (pa_run p))"
    using runs p by (simp add: get_run_number_def)
  have "headed_state ob states i = Some (initial_header h f, tk_state r)"
    using assms(3-5) by (simp add: headed_state_def raw_state_def)
  then show ?thesis using number assms(3) p(1)
    by (simp add: logs_of_def process_log_dir_def getpath_run initial_header_def del: join_parts.simps)
qed

definition sample_observer :: observer where
  "sample_observer = new_observer\<lparr>ob_active := [''t-1'' \<mapsto> ''/r'']\<rparr>"

lemma logs_where_written_witness:
  "\<exists>f r p dir. task_process (\<lambda>_. None) f r ''a'' 1 = Inr p \<and> process_log_dir f p = Inr dir \<and>
     logs_of sample_observer (\<lambda>_. tk_state r) ''t-1'' ''a'' None = Inr (Some (dir @ ''/stdout'', dir @ ''/stderr''))"
proof -
  have "(case new_runner sample_host (sample_disk\<lparr>di_checkpoint := Some sample_stream\<rparr>) (\<lambda>_. []) sample_args of
     Inr (f, r) \<Rightarrow> (case rs_processes (tk_state r) (Some ''a'') of Some rs \<Rightarrow> rs \<noteq> [] \<and> ''a'' \<in> set (tk_known r) | _ \<Rightarrow> False) | Inl _ \<Rightarrow> False)"
    by code_simp
  then obtain f :: runner_fields and r0 :: runner and runs where r0: "rs_processes (tk_state r0) (Some ''a'') = Some runs" "runs \<noteq> []" "''a'' \<in> set (tk_known r0)"
    by (auto split: sum.splits option.splits)
  define r where "r = r0\<lparr>tk_state := (tk_state r0)\<lparr>rs_header := Some (initial_header sample_host f)\<rparr>\<rparr>"
  obtain p where p: "task_process (\<lambda>_. None) f r ''a'' 1 = Inr p" using r0 by (simp add: task_process_def r_def)
  have known: "all_tasks sample_observer ''t-1'' = Some ''/r''"
    by (simp add: all_tasks_def sample_observer_def new_observer_def)
  have runs: "rs_processes (tk_state r) (Some ''a'') \<noteq> Some []" using r0 by (simp add: r_def)
  have "rs_header (tk_state r) = Some (initial_header sample_host f)" by (simp add: r_def)
  from logs_where_written [OF p runs known _ this, of "\<lambda>_. tk_state r"] show ?thesis using p by blast
qed

end
