(* ===== verification/Docker.thy ===== *)
theory Docker
  imports Prelude JobConfig Urls "HOL-Library.AList"
begin

text \<open>
  Resolving the tag of a Docker image at a registry, \<^verbatim>\<open>apache/aurora/client/docker/docker_client.py\<close>.  The registries are
  the argument \<open>net\<close>, which answers a request after those made before.  The headers that every resolution begins with are an
  object of the module, so they are part of the state.
\<close>

section \<open>Requests\<close>

type_synonym header = "string \<times> string"

datatype http_method = Head | Get

record http_request =
  rq_method :: http_method
  rq_url :: string
  rq_params :: "header list"
  rq_headers :: "header list"

record http_response =
  re_status :: int
  re_headers :: "string \<Rightarrow> string option"
  re_json :: "(string \<Rightarrow> string option) option"

type_synonym registries = "http_request list \<Rightarrow> http_request \<Rightarrow> http_response"

datatype docker_error = Docker_client_exception | Http_status_error int

record docker_world =
  dw_sent :: "http_request list"
  dw_accept :: "header list"

type_synonym 'a docker = "docker_world \<Rightarrow> (docker_error, 'a) res \<times> docker_world"

definition dreturn :: "'a \<Rightarrow> 'a docker" where "dreturn x w = (Inr x, w)"

definition draise :: "docker_error exn \<Rightarrow> 'a docker" where "draise e w = (Inl e, w)"

definition dbind :: "'a docker \<Rightarrow> ('a \<Rightarrow> 'b docker) \<Rightarrow> 'b docker" where
  "dbind m f w = (case m w of (Inl e, w') \<Rightarrow> (Inl e, w') | (Inr x, w') \<Rightarrow> f x w')"

definition lift :: "(docker_error, 'a) res \<Rightarrow> 'a docker" where "lift r w = (r, w)"

definition request :: "registries \<Rightarrow> http_request \<Rightarrow> http_response docker" where
  "request net q w = (Inr (net (dw_sent w) q), w\<lparr>dw_sent := dw_sent w @ [q]\<rparr>)"

definition head_request :: "string \<Rightarrow> header list \<Rightarrow> http_request" where
  "head_request url hs = \<lparr>rq_method = Head, rq_url = url, rq_params = [], rq_headers = hs\<rparr>"

definition raise_for_status :: "http_response \<Rightarrow> (docker_error, unit) res" where
  "raise_for_status r = (if 400 \<le> re_status r \<and> re_status r < 600 then Inl (Own (Http_status_error (re_status r))) else Inr ())"

section \<open>The challenge\<close>

definition put :: "header list \<Rightarrow> string \<Rightarrow> string \<Rightarrow> header list" where
  "put hs k v = AList.update k v hs"

text \<open>The items between commas, in the second word of the challenge; a value may not hold an equals sign.\<close>

fun parse_challenge :: "string list \<Rightarrow> string option \<Rightarrow> header list \<Rightarrow> (docker_error, string option \<times> header list) res" where
  "parse_challenge [] domain args = Inr (domain, args)"
| "parse_challenge (t # ts) domain args =
     (case split_at (CHR ''='') (filter (\<lambda>c. c \<noteq> CHR 0x22) t) of
        [k, v] \<Rightarrow>
          if k = ''realm'' then parse_challenge ts (Some v) args
          else parse_challenge ts domain (if k = ''error'' then args else put args k v)
      | _ \<Rightarrow> Inl (Py ValueError))"

definition challenge_items :: "string \<Rightarrow> (docker_error, string list) res" where
  "challenge_items www =
     (case split_at (CHR '' '') www of _ # items # _ \<Rightarrow> Inr (split_at (CHR '','') items) | _ \<Rightarrow> Inl (Py IndexError))"

definition get_auth_token :: "registries \<Rightarrow> string \<Rightarrow> string docker" where
  "get_auth_token net www =
     dbind (lift (rbind (challenge_items www) (\<lambda>items. parse_challenge items None []))) (\<lambda>(domain, args).
     case domain of
       None \<Rightarrow> draise (Py NameError)
     | Some d \<Rightarrow>
         if d = [] then draise (Own Docker_client_exception)
         else dbind (request net \<lparr>rq_method = Get, rq_url = d, rq_params = args, rq_headers = []\<rparr>) (\<lambda>r.
           dbind (lift (raise_for_status r)) (\<lambda>_.
           if re_status r \<noteq> 200 then draise (Own Docker_client_exception)
           else case re_json r of
                  None \<Rightarrow> draise (Py ValueError)
                | Some j \<Rightarrow> (case j ''token'' of None \<Rightarrow> draise (Own Docker_client_exception) | Some t \<Rightarrow> dreturn t))))"

definition get_auth_challenge :: "http_response \<Rightarrow> (docker_error, string) res" where
  "get_auth_challenge r = (case re_headers r ''Www-Authenticate'' of None \<Rightarrow> Inl (Own Docker_client_exception) | Some w \<Rightarrow> Inr w)"

definition solve_auth_challenge :: "registries \<Rightarrow> http_response \<Rightarrow> header docker" where
  "solve_auth_challenge net r =
     dbind (lift (get_auth_challenge r)) (\<lambda>www.
       if hd (split_at (CHR '' '') www) = ''Bearer''
       then dbind (get_auth_token net www) (\<lambda>t. dreturn (''Authorization'', ''Bearer '' @ t))
       else draise (Own Docker_client_exception))"

section \<open>Resolution\<close>

definition default_registry :: string where "default_registry = ''https://registry-1.docker.io''"

definition manifests_url :: "string \<Rightarrow> string \<Rightarrow> string \<Rightarrow> string" where
  "manifests_url registry name tag = registry @ ''/v2/'' @ name @ ''/manifests/'' @ tag"

definition text_of :: "string option \<Rightarrow> string" where
  "text_of v = (case v of None \<Rightarrow> ''None'' | Some s \<Rightarrow> s)"

definition image_ref :: "string \<Rightarrow> string \<Rightarrow> http_response \<Rightarrow> (docker_error, string) res" where
  "image_ref registry name r =
     (let named = name @ ''@'' @ text_of (re_headers r ''Docker-Content-Digest'') in
      if registry = default_registry then Inr named
      else case urlparse registry of Inl e \<Rightarrow> Inl (Py e) | Inr (_, netloc) \<Rightarrow> Inr (netloc @ ''/'' @ named))"

definition finish :: "string \<Rightarrow> string \<Rightarrow> http_response \<Rightarrow> (docker_error, string) res" where
  "finish registry name r =
     (if re_status r = 200 then image_ref registry name r
      else rbind (raise_for_status r) (\<lambda>_. Inl (Own Docker_client_exception)))"

text \<open>The headers given are those of the module: the token is put into them.\<close>

definition accept_put :: "header \<Rightarrow> unit docker" where
  "accept_put h w = (Inr (), w\<lparr>dw_accept := put (dw_accept w) (fst h) (snd h)\<rparr>)"

definition accept_headers :: "header list docker" where
  "accept_headers w = (Inr (dw_accept w), w)"

definition resolve_image :: "registries \<Rightarrow> string \<Rightarrow> string \<Rightarrow> string \<Rightarrow> string docker" where
  "resolve_image net registry name tag =
     dbind accept_headers (\<lambda>hs.
     dbind (request net (head_request (manifests_url registry name tag) hs)) (\<lambda>r.
       if re_status r = 401 then
         dbind (solve_auth_challenge net r) (\<lambda>auth.
         dbind (accept_put auth) (\<lambda>_.
         dbind accept_headers (\<lambda>hs'.
         dbind (request net (head_request (manifests_url registry name tag) hs')) (\<lambda>r'.
           if re_status r' = 401 then draise (Own Docker_client_exception) else lift (finish registry name r')))))
       else lift (finish registry name r)))"

definition version_check :: "registries \<Rightarrow> string \<Rightarrow> bool docker" where
  "version_check net registry =
     dbind (request net (head_request (registry @ ''/v2/'') [])) (\<lambda>r.
     dbind (if re_status r = 401
            then dbind (solve_auth_challenge net r) (\<lambda>auth. request net (head_request (registry @ ''/v2/'') [auth]))
            else dreturn r) (\<lambda>r'.
     if re_status r' = 200 then dreturn True else dbind (lift (raise_for_status r')) (\<lambda>_. dreturn False)))"

text \<open>A cluster without a registry has the default one.\<close>

definition docker_registry :: "string option \<Rightarrow> string" where
  "docker_registry r = (case r of None \<Rightarrow> default_registry | Some x \<Rightarrow> x)"

definition resolve :: "registries \<Rightarrow> string option \<Rightarrow> string \<Rightarrow> string \<Rightarrow> string docker" where
  "resolve net cluster_registry name tag =
     (let registry = docker_registry cluster_registry in
      dbind (version_check net registry) (\<lambda>ok.
        if ok then resolve_image net registry name tag else draise (Own Docker_client_exception)))"

section \<open>Facts\<close>

lemmas docker_defs = dreturn_def draise_def lift_def request_def accept_put_def accept_headers_def

lemma dbind_Inr: "dbind m f w = (Inr y, w'') \<longleftrightarrow> (\<exists>x w'. m w = (Inr x, w') \<and> f x w' = (Inr y, w''))"
  by (auto simp: dbind_def split: prod.split sum.split)

text \<open>A reference names the image that was asked for, at the digest of a successful answer to a request for its manifest.\<close>

definition answered :: "registries \<Rightarrow> http_request list \<Rightarrow> http_request \<Rightarrow> http_response \<Rightarrow> bool" where
  "answered net sent q r = (\<exists>past rest. sent = past @ q # rest \<and> net past q = r)"

lemma answered_last: "answered net (sent @ [q]) q (net sent q)"
  unfolding answered_def by blast

lemma finish_Inr: "finish registry name r = Inr ref \<Longrightarrow> re_status r = 200 \<and> image_ref registry name r = Inr ref"
  by (auto simp: finish_def rbind_Inr_iff split: if_splits)

lemma resolve_image_answered:
  assumes "resolve_image net registry name tag w = (Inr ref, w')"
  shows "\<exists>hs r. answered net (dw_sent w') (head_request (manifests_url registry name tag) hs) r \<and> re_status r = 200 \<and>
    image_ref registry name r = Inr ref"
proof -
  let ?q = "\<lambda>hs. head_request (manifests_url registry name tag) hs"
  let ?r = "net (dw_sent w) (?q (dw_accept w))"
  show ?thesis
  proof (cases "re_status ?r = 401")
    case True
    then obtain auth w1 where "w' = (w1\<lparr>dw_accept := put (dw_accept w1) (fst auth) (snd auth)\<rparr>)
        \<lparr>dw_sent := dw_sent w1 @ [?q (put (dw_accept w1) (fst auth) (snd auth))]\<rparr>"
      "finish registry name (net (dw_sent w1) (?q (put (dw_accept w1) (fst auth) (snd auth)))) = Inr ref"
      using assms by (auto simp: resolve_image_def dbind_Inr docker_defs split: if_splits)
    then show ?thesis using finish_Inr answered_last by fastforce
  next
    case False
    then have "w' = w\<lparr>dw_sent := dw_sent w @ [?q (dw_accept w)]\<rparr>" "finish registry name ?r = Inr ref"
      using assms by (auto simp: resolve_image_def dbind_Inr docker_defs)
    then show ?thesis using finish_Inr answered_last by fastforce
  qed
qed

text \<open>An image that resolves names the repository that was asked for, at the digest that the registry gave with a
  successful answer to a request for the manifest of the tag.\<close>

theorem resolved_at_digest:
  assumes "resolve net cluster_registry name tag w = (Inr ref, w')"
  shows "\<exists>hs r. answered net (dw_sent w') (head_request (manifests_url (docker_registry cluster_registry) name tag) hs) r \<and>
    re_status r = 200 \<and> image_ref (docker_registry cluster_registry) name r = Inr ref"
proof -
  obtain w1 where "resolve_image net (docker_registry cluster_registry) name tag w1 = (Inr ref, w')"
    using assms by (auto simp: resolve_def Let_def dbind_Inr docker_defs split: if_splits)
  then show ?thesis by (rule resolve_image_answered)
qed

text \<open>No operation forgets a request; the check of the version leaves the headers of the module alone.\<close>

definition grows :: "'a docker \<Rightarrow> bool" where
  "grows m = (\<forall>w. \<exists>ext. dw_sent (snd (m w)) = dw_sent w @ ext)"

definition keeps_accept :: "'a docker \<Rightarrow> bool" where
  "keeps_accept m = (\<forall>w. dw_accept (snd (m w)) = dw_accept w)"

lemma grows_simps [simp]: "grows (dreturn x)" "grows (draise e)" "grows (lift r)" "grows (request net q)" "grows (accept_put h)"
  "grows accept_headers"
  by (simp_all add: grows_def docker_defs)

lemma keeps_simps [simp]: "keeps_accept (dreturn x)" "keeps_accept (draise e)" "keeps_accept (lift r)" "keeps_accept (request net q)"
  by (simp_all add: keeps_accept_def docker_defs)

lemma grows_bind [intro!]:
  assumes "grows m" "\<And>x. grows (f x)"
  shows "grows (dbind m f)"
  unfolding grows_def
proof
  fix w
  obtain r w1 where m: "m w = (r, w1)" by (metis prod.collapse)
  obtain e1 where e1: "dw_sent w1 = dw_sent w @ e1" using assms(1) m by (metis grows_def snd_conv)
  show "\<exists>ext. dw_sent (snd (dbind m f w)) = dw_sent w @ ext"
  proof (cases r)
    case (Inr x)
    obtain e2 where "dw_sent (snd (f x w1)) = dw_sent w1 @ e2" using assms(2) by (metis grows_def)
    then show ?thesis using m e1 Inr by (simp add: dbind_def)
  qed (use m e1 in \<open>simp add: dbind_def\<close>)
qed

lemma keeps_bind [intro!]:
  assumes "keeps_accept m" "\<And>x. keeps_accept (f x)"
  shows "keeps_accept (dbind m f)"
  unfolding keeps_accept_def
proof
  fix w
  obtain r w1 where m: "m w = (r, w1)" by (metis prod.collapse)
  have "dw_accept w1 = dw_accept w" using assms(1) m by (metis keeps_accept_def snd_conv)
  then show "dw_accept (snd (dbind m f w)) = dw_accept w"
    using assms(2) m by (cases r) (auto simp: dbind_def keeps_accept_def)
qed

lemma solve_grows [simp]: "grows (solve_auth_challenge net r)"
  by (auto simp: solve_auth_challenge_def get_auth_token_def split: option.split prod.split)

lemma solve_keeps [simp]: "keeps_accept (solve_auth_challenge net r)"
  by (auto simp: solve_auth_challenge_def get_auth_token_def split: option.split prod.split)

lemma version_check_keeps: "keeps_accept (version_check net registry)"
  by (auto simp: version_check_def)

lemma version_check_grows: "grows (version_check net registry)"
  by (auto simp: version_check_def)

lemma resolve_image_first:
  "\<exists>ext. dw_sent (snd (resolve_image net registry name tag w)) =
     dw_sent w @ head_request (manifests_url registry name tag) (dw_accept w) # ext"
proof -
  let ?q = "head_request (manifests_url registry name tag) (dw_accept w)"
  define rest where "rest = (\<lambda>r. if re_status r = 401 then
         dbind (solve_auth_challenge net r) (\<lambda>auth.
         dbind (accept_put auth) (\<lambda>_.
         dbind accept_headers (\<lambda>hs'.
         dbind (request net (head_request (manifests_url registry name tag) hs')) (\<lambda>r'.
           if re_status r' = 401 then draise (Own Docker_client_exception) else lift (finish registry name r')))))
       else lift (finish registry name r))"
  have "grows (rest r)" for r by (auto simp: rest_def)
  then obtain ext where "dw_sent (snd (rest (net (dw_sent w) ?q) (w\<lparr>dw_sent := dw_sent w @ [?q]\<rparr>))) = (dw_sent w @ [?q]) @ ext"
    unfolding grows_def by (metis docker_world.select_convs(1) docker_world.surjective docker_world.update_convs(1))
  moreover have "resolve_image net registry name tag w = rest (net (dw_sent w) ?q) (w\<lparr>dw_sent := dw_sent w @ [?q]\<rparr>)"
    by (simp add: resolve_image_def rest_def dbind_def docker_defs)
  ultimately show ?thesis by simp
qed

text \<open>A token that one registry gave stays in the headers of the module, and every later resolution sends it to its own
  registry with the first request for the manifest, whichever registry that is.\<close>

theorem token_sent_to_next_registry:
  assumes "map_of (dw_accept w) ''Authorization'' = Some token" "version_check net (docker_registry cluster_registry) w = (Inr True, w1)"
    and "resolve net cluster_registry name tag w = (out, w')"
  shows "\<exists>q \<in> set (drop (length (dw_sent w)) (dw_sent w')).
    rq_url q = manifests_url (docker_registry cluster_registry) name tag \<and> map_of (rq_headers q) ''Authorization'' = Some token"
proof -
  let ?q = "head_request (manifests_url (docker_registry cluster_registry) name tag) (dw_accept w)"
  have keep: "dw_accept w1 = dw_accept w"
    using version_check_keeps [of net "docker_registry cluster_registry"] assms(2) by (metis keeps_accept_def snd_conv)
  obtain ext1 where sent: "dw_sent w1 = dw_sent w @ ext1"
    using version_check_grows [of net "docker_registry cluster_registry"] assms(2) by (metis grows_def snd_conv)
  have "resolve_image net (docker_registry cluster_registry) name tag w1 = (out, w')"
    using assms(2,3) by (simp add: resolve_def Let_def dbind_def)
  then obtain ext where "dw_sent w' = dw_sent w @ ext1 @ ?q # ext"
    using resolve_image_first [of net "docker_registry cluster_registry" name tag w1] keep sent by auto
  then have "?q \<in> set (drop (length (dw_sent w)) (dw_sent w'))" by simp
  then show ?thesis using assms(1) by (force simp: head_request_def)
qed

text \<open>Two registries, of which the first asks for a token and the second does not.\<close>

definition two_registries :: registries where
  "two_registries past q =
     (if rq_url q = ''https://auth'' then \<lparr>re_status = 200, re_headers = Map.empty, re_json = Some [''token'' \<mapsto> ''secret'']\<rparr>
      else if begins (rq_url q) ''https://a/'' \<and> map_of (rq_headers q) ''Authorization'' = None
      then \<lparr>re_status = 401, re_headers = [''Www-Authenticate'' \<mapsto> ''Bearer realm=https://auth,service=a''], re_json = None\<rparr>
      else \<lparr>re_status = 200, re_headers = [''Docker-Content-Digest'' \<mapsto> ''sha256:1''], re_json = None\<rparr>)"

definition accept_world :: docker_world where
  "accept_world = \<lparr>dw_sent = [], dw_accept = [(''Accept'', ''v2'')]\<rparr>"

lemma resolved_at_digest_witness:
  "fst (resolve two_registries (Some ''https://a'') ''n'' ''t'' accept_world) = Inr ''a/n@sha256:1'' \<and>
   (\<exists>hs r. answered two_registries (dw_sent (snd (resolve two_registries (Some ''https://a'') ''n'' ''t'' accept_world)))
      (head_request ''https://a/v2/n/manifests/t'' hs) r \<and> re_status r = 200)"
proof -
  have ref: "fst (resolve two_registries (Some ''https://a'') ''n'' ''t'' accept_world) = Inr ''a/n@sha256:1''" by code_simp
  then obtain w' where "resolve two_registries (Some ''https://a'') ''n'' ''t'' accept_world = (Inr ''a/n@sha256:1'', w')"
    by (metis prod.collapse)
  from resolved_at_digest [OF this] ref this show ?thesis by (auto simp: docker_registry_def manifests_url_def)
qed

lemma token_sent_to_next_registry_witness:
  "\<exists>q \<in> set (dw_sent (snd (resolve two_registries (Some ''https://b'') ''m'' ''t''
       (snd (resolve two_registries (Some ''https://a'') ''n'' ''t'' accept_world))))).
     rq_url q = ''https://b/v2/m/manifests/t'' \<and> map_of (rq_headers q) ''Authorization'' = Some ''Bearer secret''"
proof -
  define w where "w = snd (resolve two_registries (Some ''https://a'') ''n'' ''t'' accept_world)"
  have token: "map_of (dw_accept w) ''Authorization'' = Some ''Bearer secret''" unfolding w_def by code_simp
  have "fst (version_check two_registries (docker_registry (Some ''https://b'')) w) = Inr True" unfolding w_def by code_simp
  then obtain w1 where w1: "version_check two_registries (docker_registry (Some ''https://b'')) w = (Inr True, w1)" by (metis prod.collapse)
  obtain out w' where w': "resolve two_registries (Some ''https://b'') ''m'' ''t'' w = (out, w')" by (metis prod.collapse)
  from token_sent_to_next_registry [OF token w1 w'] show ?thesis using w'
    by (auto simp: w_def docker_registry_def manifests_url_def dest!: in_set_dropD)
qed

text \<open>Challenges as registries send them: a scope of several actions, and a space after a comma.\<close>

lemma scope_with_actions_raises:
  "rbind (challenge_items ''Bearer realm=https://auth,scope=repository:n:pull,push'') (\<lambda>items. parse_challenge items None []) = Inl (Py ValueError)"
  by code_simp

lemma spaced_challenge_raises:
  "rbind (challenge_items ''Bearer realm=https://auth, service=a'') (\<lambda>items. parse_challenge items None []) = Inl (Py ValueError)"
  by code_simp

lemma no_realm_raises:
  "fst (get_auth_token net ''Bearer service=a'' w) = Inl (Py NameError)"
proof -
  have "rbind (challenge_items ''Bearer service=a'') (\<lambda>items. parse_challenge items None []) = Inr (None, [(''service'', ''a'')])" by code_simp
  then show ?thesis by (simp add: get_auth_token_def dbind_def docker_defs)
qed

end
