(* ===== verification/ConfigCache.thy ===== *)
theory ConfigCache
  imports Prelude Credentials Ckpt
begin

text \<open>
  What is read once and kept: configurations, \<^verbatim>\<open>apache/aurora/config/loader.py\<close>, bindings,
  \<^verbatim>\<open>apache/aurora/client/binding_helper.py\<close>, and the tasks of the observer, \<^verbatim>\<open>apache/thermos/observer/observed_task.py\<close>.
  The hash, the evaluation of a configuration, the decoding of JSON and what a file holds are arguments.
\<close>

section \<open>Configurations\<close>

text \<open>What can be loaded: a path, an open file with its contents and position, or a module that is already there.\<close>

datatype loadable = File_path string | File_like string nat | Preloaded string

type_synonym 'e evaluator = "loadable \<Rightarrow> string option \<Rightarrow> string + 'e"

definition content_of :: "(string \<Rightarrow> string) \<Rightarrow> loadable \<Rightarrow> string option" where
  "content_of files l = (case l of File_path p \<Rightarrow> Some (files p) | File_like d pos \<Rightarrow> Some (drop pos d) | Preloaded _ \<Rightarrow> None)"

text \<open>The key, and the open file rewound; nothing else has a key.\<close>

definition gen_content_key :: "(string \<Rightarrow> string) \<Rightarrow> (string \<Rightarrow> string) \<Rightarrow> loadable \<Rightarrow> string option \<times> loadable" where
  "gen_content_key sha files l =
     (map_option sha (content_of files l), case l of File_like d _ \<Rightarrow> File_like d 0 | _ \<Rightarrow> l)"

definition load_config :: "(string \<Rightarrow> string) \<Rightarrow> 'e evaluator \<Rightarrow> bool \<Rightarrow> (string \<Rightarrow> string) \<Rightarrow> loadable \<Rightarrow> (string \<Rightarrow> 'e option)
    \<Rightarrow> (string + 'e) \<times> (string \<Rightarrow> 'e option)" where
  "load_config sha evaluate memoized files l cache =
     (if \<not> memoized then (evaluate l (content_of files l), cache)
      else case gen_content_key sha files l of
             (None, l') \<Rightarrow> (evaluate l' (content_of files l'), cache)
           | (Some k, l') \<Rightarrow>
               (case cache k of
                  Some env \<Rightarrow> (Inr env, cache)
                | None \<Rightarrow>
                    (case evaluate l' (content_of files l') of
                       Inl e \<Rightarrow> (Inl e, cache)
                     | Inr env \<Rightarrow> (Inr env, cache(k \<mapsto> env)))))"

text \<open>Loads one after another, each with the files as they are then.\<close>

fun load_all :: "(string \<Rightarrow> string) \<Rightarrow> 'e evaluator \<Rightarrow> bool \<Rightarrow> ((string \<Rightarrow> string) \<times> loadable) list \<Rightarrow> (string \<Rightarrow> 'e option)
    \<Rightarrow> (string + 'e) list" where
  "load_all sha evaluate memoized [] cache = []"
| "load_all sha evaluate memoized ((files, l) # ls) cache =
     (case load_config sha evaluate memoized files l cache of
        (r, cache') \<Rightarrow> r # load_all sha evaluate memoized ls cache')"

text \<open>The schemas that every configuration is evaluated with.\<close>

definition assembled_schema :: "string \<Rightarrow> string list \<Rightarrow> string list" where
  "assembled_schema base modules = base # map (\<lambda>m. ''from '' @ m @ '' import *'') modules"

definition register_schema :: "string \<Rightarrow> string \<Rightarrow> string list \<Rightarrow> string list \<times> string list" where
  "register_schema base m modules = (let modules' = modules @ [m] in (modules', assembled_schema base modules'))"

definition register_schemas_from :: "string \<Rightarrow> string \<Rightarrow> (string \<times> bool) list \<Rightarrow> string list \<Rightarrow> string list" where
  "register_schemas_from base package submodules modules =
     foldl (\<lambda>ms (m, is_package). if is_package then ms else fst (register_schema base (package @ ''.'' @ m) ms)) modules submodules"

text \<open>The values that a loop over a JSON value gives, and whether a text is in it.\<close>

definition jiter :: "jval \<Rightarrow> pyexc + jval list" where
  "jiter v = (case v of JList xs \<Rightarrow> Inr xs | JObj fs \<Rightarrow> Inr (map (\<lambda>(k, _). JText k) fs) | JText s \<Rightarrow> Inr (map (\<lambda>c. JText [c]) s)
     | _ \<Rightarrow> Inl TypeError)"

fun contains_text :: "string \<Rightarrow> string \<Rightarrow> bool" where
  "contains_text p [] = (p = [])"
| "contains_text p (c # cs) = (take (length p) (c # cs) = p \<or> contains_text p cs)"

text \<open>The old format has a single job.\<close>

definition loads_json :: "(jval \<Rightarrow> pyexc + 'j) \<Rightarrow> jval \<Rightarrow> pyexc + (string \<times> jval) list \<times> 'j list" where
  "loads_json job parsed =
     (let wrap = rbind (job parsed) (\<lambda>j. Inr ([], [j])) in
      case parsed of
        JObj fs \<Rightarrow>
          (case map_of fs ''jobs'' of
             None \<Rightarrow> wrap
           | Some v \<Rightarrow> rbind (jiter v) (\<lambda>xs. rbind (traverse job xs) (\<lambda>js. Inr (filter (\<lambda>(k, _). k \<noteq> ''jobs'') fs, js))))
      | JList xs \<Rightarrow> if JText ''jobs'' \<in> set xs then Inl AttributeError else wrap
      | JText s \<Rightarrow> if contains_text ''jobs'' s then Inl AttributeError else wrap
      | _ \<Rightarrow> Inl TypeError)"

definition load_json :: "(string \<Rightarrow> string) \<Rightarrow> (string \<Rightarrow> string + 'e) \<Rightarrow> bool \<Rightarrow> (string \<Rightarrow> string) \<Rightarrow> string \<Rightarrow> (string \<Rightarrow> 'e option)
    \<Rightarrow> (string + 'e) \<times> (string \<Rightarrow> 'e option)" where
  "load_json sha decode memoized files path cache =
     load_config sha (\<lambda>_ text. decode (the text)) memoized files (File_path path) cache"

section \<open>Bindings\<close>

text \<open>A configuration is its raw form with the bindings made so far.\<close>

record ('c, 'b) bound_config =
  bc_raw :: 'c
  bc_bindings :: "'b list"

record ('c, 'm, 'b) helper =
  bh_name :: string
  bh_match :: "'c \<Rightarrow> 'b list \<Rightarrow> 'm list"
  bh_uncached :: "'c \<Rightarrow> 'b list \<Rightarrow> 'm \<Rightarrow> 'b"
  bh_cache :: "('m \<Rightarrow> 'b option) option"

text \<open>\<^verbatim>\<open>bind\<close> of a helper with a cache, and of one without.\<close>

definition bind_match :: "'m \<Rightarrow> ('c, 'm, 'b) helper \<Rightarrow> ('c, 'b) bound_config \<Rightarrow> ('c, 'm, 'b) helper \<times> ('c, 'b) bound_config" where
  "bind_match m h c =
     (let fresh = bh_uncached h (bc_raw c) (bc_bindings c) m;
          add = (\<lambda>b. c\<lparr>bc_bindings := bc_bindings c @ [b]\<rparr>) in
      case bh_cache h of
        None \<Rightarrow> (h, add fresh)
      | Some cache \<Rightarrow>
          (case cache m of
             Some b \<Rightarrow> (h, add b)
           | None \<Rightarrow> (h\<lparr>bh_cache := Some (cache(m \<mapsto> fresh))\<rparr>, add fresh)))"

definition apply_helper :: "('c, 'm, 'b) helper \<Rightarrow> ('c, 'b) bound_config \<Rightarrow> ('c, 'm, 'b) helper \<times> ('c, 'b) bound_config" where
  "apply_helper h c = foldl (\<lambda>(h, c) m. bind_match m h c) (h, c) (bh_match h (bc_raw c) (bc_bindings c))"

fun apply_all :: "('c, 'm, 'b) helper list \<Rightarrow> ('c, 'b) bound_config \<Rightarrow> ('c, 'm, 'b) helper list \<times> ('c, 'b) bound_config" where
  "apply_all [] c = ([], c)"
| "apply_all (h # hs) c =
     (case apply_helper h c of (h', c') \<Rightarrow> (case apply_all hs c' of (hs', c'') \<Rightarrow> (h' # hs', c'')))"

definition clear_binding_caches :: "('c, 'm, 'b) helper list \<Rightarrow> ('c, 'm, 'b) helper list" where
  "clear_binding_caches hs = map (\<lambda>h. h\<lparr>bh_cache := map_option (\<lambda>_. Map.empty) (bh_cache h)\<rparr>) hs"

section \<open>Observed tasks\<close>

text \<open>The names a task's references are bound to, if its header is known.\<close>

type_synonym task_context = "((string \<times> int) list \<times> string \<times> string) option"

definition observed_context :: "runner_state \<Rightarrow> task_context" where
  "observed_context st = map_option (\<lambda>h. (rh_ports h, rh_task_id h, rh_user h)) (rs_header st)"

text \<open>\<^verbatim>\<open>_read_task\<close>: the table of what was read is shared by all observed tasks.  \<open>found\<close> is the file of the task in its
  state, if there is one: \<open>None\<close> if it does not load.  Binding may raise.\<close>

definition read_task :: "('t \<Rightarrow> task_context \<Rightarrow> pyexc + 't) \<Rightarrow> string \<Rightarrow> 't option option \<Rightarrow> runner_state \<Rightarrow> (string \<Rightarrow> 't option)
    \<Rightarrow> (pyexc + 't option) \<times> (string \<Rightarrow> 't option)" where
  "read_task interpolate i found st memo =
     (case memo i of
        Some t \<Rightarrow> (Inr (Some t), memo)
      | None \<Rightarrow>
          (case found of
             Some (Some t) \<Rightarrow>
               (case interpolate t (observed_context st) of
                  Inl e \<Rightarrow> (Inl e, memo)
                | Inr bound \<Rightarrow> (Inr (Some bound), memo(i \<mapsto> bound)))
           | _ \<Rightarrow> (Inr None, memo)))"

definition observed_mtime :: "(string \<Rightarrow> rat option) \<Rightarrow> rat option" where
  "observed_mtime mtime = (case mtime ''active'' of Some t \<Rightarrow> Some t | None \<Rightarrow> mtime ''finished'')"

text \<open>The state of a finished task is read once, when its checkpoint can be read.\<close>

definition finished_state :: "(ckpt_error, runner_state option) res \<Rightarrow> runner_state option
    \<Rightarrow> (ckpt_error, runner_state) res \<times> runner_state option" where
  "finished_state read kept =
     (case kept of
        Some st \<Rightarrow> (Inr st, kept)
      | None \<Rightarrow>
          (case read of
             Inl e \<Rightarrow> (Inl e, None)
           | Inr None \<Rightarrow> (Inr empty_runner_state, None)
           | Inr (Some st) \<Rightarrow> (Inr st, Some st)))"

section \<open>When keeping is exact\<close>





text \<open>An inclusion relative to the file makes the meaning depend on where it is: the second of two files with the same text
  gets what the first one includes.\<close>

lemma relative_include_shared:
  "load_all id (\<lambda>l _. Inr l) True [(\<lambda>_. ''include'', File_path ''a/x''), (\<lambda>_. ''include'', File_path ''b/x'')] Map.empty
     = [Inr (File_path ''a/x''), Inr (File_path ''a/x'')]"
  by (simp add: load_config_def gen_content_key_def content_of_def)

text \<open>A single job may not be a text or a list that mentions jobs; a configuration of jobs keeps their order.\<close>

lemma old_format: "map_of fs ''jobs'' = None \<Longrightarrow> job (JObj fs) = Inr j \<Longrightarrow> loads_json job (JObj fs) = Inr ([], [j])"
  by (simp add: loads_json_def)

text \<open>A helper that keeps bindings binds a reference as it did for the first configuration, whatever this one is.\<close>

lemma binding_of_first_config:
  assumes "bh_cache h = Some cache" "cache m = None"
  shows "bc_bindings (snd (bind_match m (fst (bind_match m h c)) d)) = bc_bindings d @ [bh_uncached h (bc_raw c) (bc_bindings c) m]"
  using assms by (simp add: bind_match_def Let_def)

text \<open>The observer's view of a task is fixed by the first reading; when that came before the header, it is the task bound to
  no names, also after the header is known.\<close>

lemma first_reading_stays:
  assumes "read_task interpolate i found st memo = (Inr (Some t), memo')"
  shows "read_task interpolate i found' later memo' = (Inr (Some t), memo')"
  using assms by (auto simp: read_task_def split: option.splits sum.splits)

lemma early_reading_stays:
  assumes "memo i = None" "rs_header st = None" "interpolate t None = Inr bound"
  shows "fst (read_task interpolate i found' later (snd (read_task interpolate i (Some (Some t)) st memo))) = Inr (Some bound)"
  using assms by (simp add: read_task_def observed_context_def)

lemma finished_state_stays:
  "finished_state (Inr (Some st)) None = (Inr st, Some st)" "finished_state read (Some st) = (Inr st, Some st)"
  by (simp_all add: finished_state_def)

end
