(* ===== verification/Clusters.thy ===== *)
theory Clusters
  imports Prelude Credentials
begin

text \<open>
  The map of the clusters a client can talk to, \<^verbatim>\<open>apache/aurora/common/clusters.py\<close> and \<^verbatim>\<open>cluster.py\<close>.  The traits are
  schemas of Pystachio, so what one accepts and what values it gives are arguments; so is the decoded JSON of a file.
\<close>

section \<open>A cluster\<close>

record trait =
  tr_check :: "fields \<Rightarrow> bool"
  tr_value :: "fields \<Rightarrow> string \<Rightarrow> jval option option"

record cluster =
  cl_fields :: fields
  cl_traits :: "trait list"

datatype cluster_error = Cluster_not_found | Unparsable

definition new_cluster :: "fields \<Rightarrow> cluster" where
  "new_cluster fs = \<lparr>cl_fields = fs, cl_traits = []\<rparr>"

definition check_trait :: "trait \<Rightarrow> cluster \<Rightarrow> (cluster_error, unit) res" where
  "check_trait t c = (if tr_check t (cl_fields c) then Inr () else Inl (Py TypeError))"

definition with_traits :: "trait list \<Rightarrow> cluster \<Rightarrow> (cluster_error, cluster) res" where
  "with_traits ts c =
     rbind (traverse (\<lambda>t. check_trait t (new_cluster (cl_fields c))) ts) (\<lambda>_. Inr ((new_cluster (cl_fields c))\<lparr>cl_traits := ts\<rparr>))"

text \<open>An attribute: of the first trait that has it, where it may be empty, or of the cluster itself.\<close>

fun trait_value :: "trait list \<Rightarrow> fields \<Rightarrow> string \<Rightarrow> jval option option" where
  "trait_value [] fs a = None"
| "trait_value (t # ts) fs a = (case tr_value t fs a of None \<Rightarrow> trait_value ts fs a | Some v \<Rightarrow> Some v)"

definition cluster_attribute :: "string \<Rightarrow> cluster \<Rightarrow> (cluster_error, jval) res" where
  "cluster_attribute a c =
     (case trait_value (cl_traits c) (cl_fields c) a of
        Some None \<Rightarrow> Inr JNull
      | Some (Some v) \<Rightarrow> Inr v
      | None \<Rightarrow> (case map_of (cl_fields c) a of Some v \<Rightarrow> Inr v | None \<Rightarrow> Inl (Py AttributeError)))"

section \<open>The map\<close>

type_synonym clusters = "(jval \<times> cluster) list"

text \<open>An operation gives the map it leaves and what it raised.  Adding takes the cluster without its traits.\<close>

definition add_cluster :: "trait \<Rightarrow> cluster \<Rightarrow> clusters \<Rightarrow> clusters \<times> cluster_error exn option" where
  "add_cluster name_trait c cs =
     (let c' = new_cluster (cl_fields c) in
      case check_trait name_trait c' of
        Inl e \<Rightarrow> (cs, Some e)
      | Inr _ \<Rightarrow> (case cluster_attribute ''name'' c' of
            Inl e \<Rightarrow> (cs, Some e)
          | Inr n \<Rightarrow> (AList.update n c' cs, None)))"

fun update_clusters :: "trait \<Rightarrow> cluster list \<Rightarrow> clusters \<Rightarrow> clusters \<times> cluster_error exn option" where
  "update_clusters name_trait [] cs = (cs, None)"
| "update_clusters name_trait (c # rest) cs = then_do (add_cluster name_trait c cs) (update_clusters name_trait rest)"

definition replace_clusters :: "trait \<Rightarrow> cluster list \<Rightarrow> clusters \<Rightarrow> clusters \<times> cluster_error exn option" where
  "replace_clusters name_trait l cs = update_clusters name_trait l []"

text \<open>\<open>body\<close> is what runs with the patched map.\<close>

definition patch :: "trait \<Rightarrow> cluster list \<Rightarrow> (clusters \<Rightarrow> clusters \<times> cluster_error exn option) \<Rightarrow> clusters
    \<Rightarrow> clusters \<times> cluster_error exn option" where
  "patch name_trait l body cs = (cs, snd (then_do (replace_clusters name_trait l cs) body))"

definition is_text :: "jval \<Rightarrow> bool" where
  "is_text v = (case v of JText _ \<Rightarrow> True | _ \<Rightarrow> False)"

text \<open>The message of the error lists the names, which have to be texts.\<close>

definition get_cluster :: "clusters \<Rightarrow> jval \<Rightarrow> (cluster_error, cluster) res" where
  "get_cluster cs n =
     (case map_of cs n of
        Some c \<Rightarrow> Inr c
      | None \<Rightarrow> if list_all (\<lambda>(k, _). is_text k) cs then Inl (Own Cluster_not_found) else Inl (Py TypeError))"

section \<open>Files\<close>

definition named_cluster :: "jval \<Rightarrow> (cluster_error, cluster list) res" where
  "named_cluster v =
     (case v of JObj fs \<Rightarrow> Inr (if map_of fs ''name'' = None then [] else [new_cluster fs]) | _ \<Rightarrow> Inl (Own Unparsable))"

definition iter_clusters :: "jval option \<Rightarrow> (cluster_error, cluster list) res" where
  "iter_clusters doc =
     rbind (case doc of Some (JList xs) \<Rightarrow> Inr xs | Some (JObj fs) \<Rightarrow> Inr (map snd fs) | _ \<Rightarrow> Inl (Own Unparsable))
       (\<lambda>xs. rbind (traverse named_cluster xs) (\<lambda>cs. Inr (concat cs)))"

definition clusters_from_file :: "trait \<Rightarrow> jval option \<Rightarrow> (cluster_error, clusters) res" where
  "clusters_from_file name_trait doc =
     rbind (iter_clusters doc) (\<lambda>l. case replace_clusters name_trait l [] of (_, Some e) \<Rightarrow> Inl e | (cs, None) \<Rightarrow> Inr cs)"

text \<open>\<^verbatim>\<open>load\<close>: the files that exist, in the order of the search path.\<close>

fun load_clusters :: "trait \<Rightarrow> jval option list \<Rightarrow> clusters \<Rightarrow> clusters \<times> cluster_error exn option" where
  "load_clusters name_trait [] cs = (cs, None)"
| "load_clusters name_trait (doc # docs) cs =
     (case clusters_from_file name_trait doc of
        Inl e \<Rightarrow> (cs, Some e)
      | Inr new \<Rightarrow> then_do (update_clusters name_trait (map snd new) cs) (load_clusters name_trait docs))"

section \<open>Facts\<close>

definition keyed :: "cluster list \<Rightarrow> (jval \<times> cluster) list" where
  "keyed l = map (\<lambda>c. (jget (cl_fields c) ''name'', new_cluster (cl_fields c))) l"

lemma add_cluster_ok:
  assumes "add_cluster name_trait c cs = (cs', None)"
  shows "map_of cs' = (map_of cs)(jget (cl_fields c) ''name'' \<mapsto> new_cluster (cl_fields c))"
  using assms by (auto simp: add_cluster_def check_trait_def cluster_attribute_def new_cluster_def Let_def jget_def update_conv'
      split: if_splits option.splits)

lemma update_clusters_ok:
  "update_clusters name_trait l cs = (cs', None) \<Longrightarrow> map_of cs' = map_of cs ++ map_of (rev (keyed l))"
proof (induction l arbitrary: cs)
  case (Cons c l)
  then obtain cs1 where "add_cluster name_trait c cs = (cs1, None)" "update_clusters name_trait l cs1 = (cs', None)"
    by (auto simp: then_do_ok)
  then show ?case using Cons.IH add_cluster_ok by (fastforce simp: keyed_def)
qed (simp add: keyed_def)

text \<open>Inside the map every cluster is under its own name.\<close>

definition own_names :: "clusters \<Rightarrow> bool" where
  "own_names cs = (\<forall>(n, c) \<in> set cs. n = jget (cl_fields c) ''name'' \<and> c = new_cluster (cl_fields c))"

lemma update_in: "(n, c) \<in> set (AList.update k v cs) \<Longrightarrow> (n, c) \<in> set cs \<or> (n = k \<and> c = v)"
  by (induction cs) (auto split: if_splits)

lemma add_own_names: "own_names cs \<Longrightarrow> own_names (fst (add_cluster name_trait c cs))"
  by (auto simp: own_names_def add_cluster_def check_trait_def cluster_attribute_def new_cluster_def Let_def jget_def
      dest!: update_in split: option.splits if_splits)

lemma update_own_names: "own_names cs \<Longrightarrow> own_names (fst (update_clusters name_trait l cs))"
proof (induction l arbitrary: cs)
  case (Cons c l)
  obtain cs1 e where a: "add_cluster name_trait c cs = (cs1, e)" by (metis prod.collapse)
  then have "own_names cs1" using add_own_names [OF Cons.prems, of name_trait c] by simp
  then show ?case using Cons.IH a by (cases e) auto
qed simp

lemma add_distinct: "distinct (map fst cs) \<Longrightarrow> distinct (map fst (fst (add_cluster name_trait c cs)))"
  by (auto simp: add_cluster_def Let_def distinct_update split: sum.split)

lemma update_distinct: "distinct (map fst cs) \<Longrightarrow> distinct (map fst (fst (update_clusters name_trait l cs)))"
proof (induction l arbitrary: cs)
  case (Cons c l)
  obtain cs1 e where a: "add_cluster name_trait c cs = (cs1, e)" by (metis prod.collapse)
  then have "distinct (map fst cs1)" using add_distinct [OF Cons.prems, of name_trait c] by simp
  then show ?case using Cons.IH a by (cases e) auto
qed simp

lemma keyed_own: "own_names cs \<Longrightarrow> keyed (map snd cs) = cs"
  by (induction cs) (auto simp: keyed_def own_names_def)

text \<open>What a file says of a name is what its last entry of that name says.\<close>

lemma clusters_file_names:
  assumes "clusters_from_file name_trait doc = Inr cs"
  shows "\<exists>l. iter_clusters doc = Inr l \<and> map_of cs = map_of (rev (keyed l)) \<and> own_names cs \<and> distinct (map fst cs)"
proof -
  obtain l where l1: "iter_clusters doc = Inr l" "(case update_clusters name_trait l [] of (_, Some e) \<Rightarrow> Inl e | (cs, None) \<Rightarrow> Inr cs) = Inr cs"
    using assms by (auto simp: clusters_from_file_def replace_clusters_def rbind_Inr_iff)
  then have l: "iter_clusters doc = Inr l" "update_clusters name_trait l [] = (cs, None)"
    by (auto split: prod.splits option.splits)
  have "own_names cs" "distinct (map fst cs)"
    using update_own_names [of "[]" name_trait l] update_distinct [of "[]" name_trait l] l(2) by (simp_all add: own_names_def)
  then show ?thesis using l update_clusters_ok [OF l(2)] by auto
qed

definition entries :: "jval option list \<Rightarrow> (jval \<times> cluster) list" where
  "entries docs = concat (map (\<lambda>doc. case iter_clusters doc of Inl _ \<Rightarrow> [] | Inr l \<Rightarrow> keyed l) docs)"

lemma map_of_rev_distinct: "distinct (map fst xs) \<Longrightarrow> map_of (rev xs) = map_of xs"
  by (rule map_of_inject_set [THEN iffD2]) (simp_all add: rev_map [symmetric])

text \<open>A load of the search path that does not raise leaves each name with what the last entry of that name says, across
  the files in their order; the names no file has are left as they were.\<close>

theorem last_entry_wins:
  assumes "load_clusters name_trait docs cs = (cs', None)"
  shows "map_of cs' = map_of cs ++ map_of (rev (entries docs))"
  using assms
proof (induction docs arbitrary: cs)
  case (Cons doc docs)
  obtain new where new: "clusters_from_file name_trait doc = Inr new"
    using Cons.prems by (cases "clusters_from_file name_trait doc") auto
  then obtain cs1 where cs1: "update_clusters name_trait (map snd new) cs = (cs1, None)" "load_clusters name_trait docs cs1 = (cs', None)"
    using Cons.prems by (auto simp: then_do_ok)
  obtain l where l: "iter_clusters doc = Inr l" "map_of new = map_of (rev (keyed l))" "own_names new" "distinct (map fst new)"
    using clusters_file_names [OF new] by blast
  have "map_of cs1 = map_of cs ++ map_of (rev (keyed l))"
    using update_clusters_ok [OF cs1(1)] l(2) keyed_own [OF l(3)] map_of_rev_distinct [OF l(4)] by simp
  then show ?case using Cons.IH [OF cs1(2)] l(1) by (simp add: entries_def)
qed (simp add: entries_def)

definition any_name :: trait where
  "any_name = \<lparr>tr_check = (\<lambda>fs. map_of fs ''name'' \<noteq> None), tr_value = (\<lambda>_ _. None)\<rparr>"

definition two_files :: "jval option list" where
  "two_files = [Some (JList [JObj [(''name'', JText ''a''), (''zk'', JText ''old'')], JObj [(''zk'', JText ''nameless'')]]),
     Some (JObj [(''x'', JObj [(''name'', JText ''a''), (''zk'', JText ''new'')])])]"

lemma last_entry_wins_witness:
  "\<exists>cs. load_clusters any_name two_files [] = (cs, None) \<and>
     map_of cs (JText ''a'') = Some (new_cluster [(''name'', JText ''a''), (''zk'', JText ''new'')])"
proof -
  have "snd (load_clusters any_name two_files []) = None" by code_simp
  then obtain cs where cs: "load_clusters any_name two_files [] = (cs, None)" by (metis prod.collapse)
  have "map_of (rev (entries two_files)) (JText ''a'') = Some (new_cluster [(''name'', JText ''a''), (''zk'', JText ''new'')])"
    by (simp add: entries_def two_files_def iter_clusters_def named_cluster_def keyed_def new_cluster_def jget_def)
  then show ?thesis using cs last_entry_wins [OF cs] by simp
qed

text \<open>Whatever happens under a patch, the map is afterwards what it was.\<close>

lemma patch_restores: "fst (patch name_trait l body cs) = cs"
  by (simp add: patch_def)

text \<open>A list of clusters with one that is not accepted leaves the ones before it.\<close>

lemma half_an_update:
  assumes "tr_check name_trait (cl_fields c)" "map_of (cl_fields c) ''name'' = Some n" "\<not> tr_check name_trait (cl_fields d)"
  shows "update_clusters name_trait [c, d] [] = ([(n, new_cluster (cl_fields c))], Some (Py TypeError))"
  using assms by (simp add: add_cluster_def check_trait_def cluster_attribute_def new_cluster_def Let_def)

end
