(* ===== verification/Signals.thy ===== *)
theory Signals
  imports Prelude ProcessLog Urls
begin

text \<open>
  Asking a process whether it is healthy: over HTTP, \<^verbatim>\<open>apache/aurora/common/health_check/http_signaler.py\<close>, or with a
  command, \<^verbatim>\<open>shell.py\<close>.  What the network and the command do is the argument; answers are decoded text.
\<close>

section \<open>HTTP\<close>

record signaler =
  sg_url_base :: string
  sg_timeout :: rat

text \<open>\<open>env\<close> is the variable of the environment: what \<^verbatim>\<open>float\<close> makes of it, if it is set.\<close>

definition new_signaler :: "nat \<Rightarrow> string \<Rightarrow> rat option \<Rightarrow> (pyexc + rat) option \<Rightarrow> pyexc + signaler" where
  "new_signaler port host timeout_secs env =
     rbind (case timeout_secs of Some t \<Rightarrow> Inr t | None \<Rightarrow> (case env of Some v \<Rightarrow> v | None \<Rightarrow> Inr 1)) (\<lambda>t.
       Inr \<lparr>sg_url_base = ''http://'' @ host @ '':'' @ decimal port, sg_timeout = t\<rparr>)"

definition signal_url :: "signaler \<Rightarrow> string \<Rightarrow> string" where
  "signal_url s endpoint = sg_url_base s @ endpoint"

text \<open>What the opener does: an answer, an error of HTTP or of a socket with the name of its class, a status that is an error,
  an unreachable host, or anything else.\<close>

datatype http_outcome = Answer string int | Class_error string | Status_error int | Url_error string | Other_error string

definition query :: "signaler \<Rightarrow> string \<Rightarrow> http_outcome \<Rightarrow> string + (string \<times> int)" where
  "query s endpoint out =
     (let failed = (\<lambda>reason. Inl (''Failed to signal '' @ signal_url s endpoint @ '': '' @ reason)) in
      case out of
        Answer body status \<Rightarrow> Inr (body, status)
      | Class_error c \<Rightarrow> failed (''Error within '' @ c)
      | Status_error status \<Rightarrow> Inr ([], status)
      | Url_error e \<Rightarrow> failed e
      | Other_error e \<Rightarrow> failed (''Unexpected error: '' @ e))"

definition white :: "char \<Rightarrow> bool" where
  "white c = (c \<in> {CHR '' '', CHR 0x09, CHR 0x0A, CHR 0x0B, CHR 0x0C, CHR 0x0D, CHR 0x1C, CHR 0x1D, CHR 0x1E, CHR 0x1F})"

definition strip_white :: "string \<Rightarrow> string" where
  "strip_white s = rev (dropWhile white (rev (dropWhile white s)))"

definition failure_reason_length :: nat where "failure_reason_length = 10"

definition shorten :: "string \<Rightarrow> string" where
  "shorten s = (if length s < failure_reason_length then s else take (failure_reason_length - 3) s @ ''...'')"

definition signed :: "int \<Rightarrow> string" where
  "signed i = (if i < 0 then CHR ''-'' # decimal (nat (- i)) else decimal (nat i))"

text \<open>A call: an expected response or code that is empty, or zero, is not looked at.\<close>

definition signal :: "signaler \<Rightarrow> string \<Rightarrow> string option \<Rightarrow> int option \<Rightarrow> http_outcome \<Rightarrow> bool \<times> string option" where
  "signal s endpoint expected_response expected_code out =
     (case query s endpoint out of
        Inl e \<Rightarrow> (False, Some e)
      | Inr (body, status) \<Rightarrow>
          let response = lowercase (strip_white body);
              differs = (case expected_response of Some (c # cs) \<Rightarrow> response \<noteq> lowercase (c # cs) | _ \<Rightarrow> False);
              wrong = (case expected_code of Some k \<Rightarrow> k \<noteq> 0 \<and> status \<noteq> k | None \<Rightarrow> False) in
          if differs
          then (False, Some (''Response differs from expected response (expected '' @ [CHR 0x22] @ shorten (the expected_response)
                  @ [CHR 0x22] @ '', got '' @ [CHR 0x22] @ shorten response @ [CHR 0x22] @ '')''))
          else if wrong
          then (False, Some (''Response code differs from expected response (expected '' @ signed (the expected_code) @ '', got ''
                  @ signed status @ '')''))
          else (True, None))"

section \<open>Commands\<close>

datatype shell_outcome = Returned_zero | Returned int string | Timed_out | Failed_with string | Bad_value

definition shell_check :: "string \<Rightarrow> shell_outcome \<Rightarrow> bool \<times> string option" where
  "shell_check raw_cmd out =
     (case out of
        Returned_zero \<Rightarrow> (True, None)
      | Returned n text \<Rightarrow>
          (False, Some (''Command '' @ [CHR 0x27] @ raw_cmd @ [CHR 0x27] @ '' returned non-zero exit status '' @ signed n
             @ '' with output '' @ [CHR 0x27] @ text @ [CHR 0x27]))
      | Timed_out \<Rightarrow> (False, Some ''Health check timed out.'')
      | Failed_with e \<Rightarrow> (False, Some (''OSError: '' @ e))
      | Bad_value \<Rightarrow> (False, Some ''Invalid commmand.''))"

section \<open>What a healthy answer is\<close>

text \<open>A signal succeeds exactly when there was an answer, a status that is an error included, whose text and code are those
  that were expected, if any were.\<close>

lemma signal_exact:
  "fst (signal s endpoint expected_response expected_code out) \<longleftrightarrow>
     (\<exists>body status. (out = Answer body status \<or> out = Status_error status \<and> body = []) \<and>
        (expected_response \<in> {None, Some []} \<or> lowercase (strip_white body) = lowercase (the expected_response)) \<and>
        (expected_code \<in> {None, Some 0, Some status}))"
  by (cases out; auto simp: signal_def query_def Let_def split: option.splits list.splits)

text \<open>So a server that answers with an error is well when no code is expected, and a reason is given exactly for a failure.\<close>

lemma error_status_is_well: "signal s endpoint None None (Status_error 500) = (True, None)"
  by (simp add: signal_def query_def)

lemma reason_iff_failure: "snd (signal s endpoint r c out) = None \<longleftrightarrow> fst (signal s endpoint r c out)"
  by (cases out; auto simp: signal_def query_def Let_def split: option.splits list.splits)

lemma shell_reason_iff_failure: "snd (shell_check cmd out) = None \<longleftrightarrow> fst (shell_check cmd out)"
  by (cases out) (simp_all add: shell_check_def)

text \<open>The reason does not carry a long response, but it does carry the whole output of a command.\<close>

lemma shorten_bound: "length (shorten s) \<le> failure_reason_length"
  by (simp add: shorten_def failure_reason_length_def)

text \<open>The response expected is lowered but not stripped, so one with white space around it is never given.\<close>

lemma spaced_expectation_fails: "\<not> fst (signal s endpoint (Some '' ok'') None (Answer '' ok'' 200))"
proof -
  have "lowercase (strip_white '' ok'') = ''ok''" "lowercase '' ok'' = '' ok''" by code_simp+
  then show ?thesis by (simp add: signal_exact)
qed

end
