(* ===== verification/Endpoints.thy ===== *)
theory Endpoints
  imports Scheduler JobConfig "HOL-Library.Sublist"
begin

text \<open>
  What a member of a server set announces, \<^verbatim>\<open>twitter/common/zookeeper/serverset/endpoint.py\<close>: end points, statuses and
  instances, their JSON and the reading of it.  A document is the value of its JSON; what the operating system takes
  as an address (\<^verbatim>\<open>socket.inet_pton\<close>) is an argument.  The types of the thrift form are not generated from anything in
  the repository, so \<^verbatim>\<open>unpack_thrift\<close> raises.
\<close>

datatype json = Jnull | Jbool bool | Jint int | Jfloat rat | Jstr string | Jarr "json list" | Jobj "(string \<times> json) list"

section \<open>End points\<close>

record address =
  ad_host :: string
  ad_port :: int
  ad_inet :: "string option"
  ad_inet6 :: "string option"

text \<open>An address that is not a string makes \<^verbatim>\<open>inet_pton\<close> raise a \<^verbatim>\<open>TypeError\<close>, one that it does not take a \<^verbatim>\<open>ValueError\<close>.\<close>

definition check_inet :: "(string \<Rightarrow> bool) \<Rightarrow> json \<Rightarrow> pyexc + string option" where
  "check_inet takes v = (case v of Jnull \<Rightarrow> Inr None
     | Jstr s \<Rightarrow> if takes s then Inr (Some s) else Inl ValueError | _ \<Rightarrow> Inl TypeError)"

text \<open>\<^verbatim>\<open>Endpoint.__init__\<close>; a truth value is an integer of Python, 0 or 1.\<close>

definition int_value :: "json \<Rightarrow> int option" where
  "int_value v = (case v of Jint n \<Rightarrow> Some n | Jbool b \<Rightarrow> Some (of_bool b) | _ \<Rightarrow> None)"

definition new_address :: "(string \<Rightarrow> bool) \<Rightarrow> (string \<Rightarrow> bool) \<Rightarrow> json \<Rightarrow> json \<Rightarrow> json \<Rightarrow> json \<Rightarrow> pyexc + address" where
  "new_address v4 v6 host port inet inet6 =
     (case host of
        Jstr h \<Rightarrow>
          (case int_value port of
             None \<Rightarrow> Inl ValueError
           | Some p \<Rightarrow> rbind (check_inet v4 inet) (\<lambda>i4. rbind (check_inet v6 inet6) (\<lambda>i6.
               Inr \<lparr>ad_host = h, ad_port = p, ad_inet = i4, ad_inet6 = i6\<rparr>)))
      | _ \<Rightarrow> Inl ValueError)"

definition get_or_null :: "(string \<times> json) list \<Rightarrow> string \<Rightarrow> json" where
  "get_or_null d k = (case map_of d k of None \<Rightarrow> Jnull | Some v \<Rightarrow> v)"

definition item :: "(string \<times> json) list \<Rightarrow> string \<Rightarrow> pyexc + json" where
  "item d k = (case map_of d k of None \<Rightarrow> Inl KeyError | Some v \<Rightarrow> Inr v)"

definition address_from_dict :: "(string \<Rightarrow> bool) \<Rightarrow> (string \<Rightarrow> bool) \<Rightarrow> json \<Rightarrow> pyexc + address" where
  "address_from_dict v4 v6 value =
     (case value of
        Jobj d \<Rightarrow> rbind (item d ''host'') (\<lambda>h. rbind (item d ''port'') (\<lambda>p.
                    new_address v4 v6 h p (get_or_null d ''inet'') (get_or_null d ''inet6'')))
      | _ \<Rightarrow> Inl AttributeError)"

definition some_field :: "string \<Rightarrow> ('a \<Rightarrow> json) \<Rightarrow> 'a option \<Rightarrow> (string \<times> json) list" where
  "some_field k f v = (case v of None \<Rightarrow> [] | Some x \<Rightarrow> [(k, f x)])"

definition address_to_dict :: "address \<Rightarrow> json" where
  "address_to_dict a =
     Jobj ([(''host'', Jstr (ad_host a)), (''port'', Jint (ad_port a))]
           @ some_field ''inet'' Jstr (ad_inet a) @ some_field ''inet6'' Jstr (ad_inet6 a))"

section \<open>Statuses\<close>

datatype service_status = DEAD | STARTING | ALIVE | STOPPING | STOPPED | S_WARNING

definition status_map :: "(int \<times> string \<times> service_status) list" where
  "status_map = [(0, ''DEAD'', DEAD), (1, ''STARTING'', STARTING), (2, ''ALIVE'', ALIVE), (3, ''STOPPING'', STOPPING),
                 (4, ''STOPPED'', STOPPED), (5, ''WARNING'', S_WARNING)]"

definition status_from_id :: "int \<Rightarrow> pyexc + service_status" where
  "status_from_id n = (case map_of status_map n of None \<Rightarrow> Inl ValueError | Some (_, s) \<Rightarrow> Inr s)"

text \<open>The loop of \<^verbatim>\<open>from_string\<close>; what is no string equals no name.\<close>

fun status_search :: "json \<Rightarrow> (int \<times> string \<times> service_status) list \<Rightarrow> pyexc + service_status" where
  "status_search v [] = Inl ValueError"
| "status_search v ((_, name, s) # rest) = (if v = Jstr name then Inr s else status_search v rest)"

definition status_from_string :: "json \<Rightarrow> pyexc + service_status" where
  "status_from_string v = status_search v status_map"

fun service_status_name :: "service_status \<Rightarrow> string" where
  "service_status_name DEAD = ''DEAD''"
| "service_status_name STARTING = ''STARTING''"
| "service_status_name ALIVE = ''ALIVE''"
| "service_status_name STOPPING = ''STOPPING''"
| "service_status_name STOPPED = ''STOPPED''"
| "service_status_name S_WARNING = ''WARNING''"

section \<open>Instances\<close>

record member_instance =
  in_service :: address
  in_additional :: "(string \<times> address) list"
  in_status :: service_status
  in_shard :: "int option"
  in_member :: "int option"

text \<open>\<^verbatim>\<open>ServiceInstance(endpoint, additional, shard=shard)\<close>, as \<^verbatim>\<open>ServerSet.join\<close> makes it.\<close>

definition joined_instance :: "address \<Rightarrow> (string \<times> address) list \<Rightarrow> int option \<Rightarrow> member_instance" where
  "joined_instance e additional shard =
     \<lparr>in_service = e, in_additional = additional, in_status = ALIVE, in_shard = shard, in_member = None\<rparr>"

definition instance_to_dict :: "member_instance \<Rightarrow> json" where
  "instance_to_dict i =
     Jobj ([(''serviceEndpoint'', address_to_dict (in_service i)),
            (''additionalEndpoints'', Jobj (map (\<lambda>(name, a). (name, address_to_dict a)) (in_additional i))),
            (''status'', Jstr (service_status_name (in_status i)))]
           @ some_field ''shard'' Jint (in_shard i) @ some_field ''member_id'' Jint (in_member i))"

text \<open>\<^verbatim>\<open>__check_int\<close>: what \<^verbatim>\<open>int\<close> makes of a value, \<^verbatim>\<open>None\<close> for a string that is no number; other types raise.\<close>

definition truncate_rat :: "rat \<Rightarrow> int" where
  "truncate_rat q = (if 0 \<le> q then \<lfloor>q\<rfloor> else \<lceil>q\<rceil>)"

definition check_int :: "json \<Rightarrow> pyexc + int option" where
  "check_int v =
     (case v of
        Jnull \<Rightarrow> Inr None
      | Jint n \<Rightarrow> Inr (Some n)
      | Jbool b \<Rightarrow> Inr (Some (of_bool b))
      | Jfloat q \<Rightarrow> Inr (Some (truncate_rat q))
      | Jstr s \<Rightarrow> Inr (py_int s)
      | _ \<Rightarrow> Inl TypeError)"

definition instance_keys :: "string list" where
  "instance_keys = [''status'', ''serviceEndpoint'', ''additionalEndpoints'']"

text \<open>The test of the keys works on strings and lists too, which the subscripts then refuse.\<close>

definition has_keys :: "(string \<Rightarrow> bool) \<Rightarrow> pyexc + unit" where
  "has_keys present = (if list_all present instance_keys then Inr () else Inl ValueError)"

definition additional_from :: "(string \<Rightarrow> bool) \<Rightarrow> (string \<Rightarrow> bool) \<Rightarrow> json \<Rightarrow> pyexc + (string \<times> address) list" where
  "additional_from v4 v6 v =
     (case v of
        Jobj d \<Rightarrow> traverse (\<lambda>(name, value). rbind (address_from_dict v4 v6 value) (\<lambda>a. Inr (name, a))) d
      | _ \<Rightarrow> Inl AttributeError)"

definition unpack_json :: "(string \<Rightarrow> bool) \<Rightarrow> (string \<Rightarrow> bool) \<Rightarrow> json \<Rightarrow> json \<Rightarrow> pyexc + member_instance" where
  "unpack_json v4 v6 doc member_id =
     (case doc of
        Jobj d \<Rightarrow>
          rbind (has_keys (\<lambda>k. map_of d k \<noteq> None)) (\<lambda>_.
          rbind (item d ''additionalEndpoints'') (\<lambda>ad.
          rbind (additional_from v4 v6 ad) (\<lambda>additional.
          rbind (check_int (get_or_null d ''shard'')) (\<lambda>shard.
          rbind (check_int member_id) (\<lambda>member.
          rbind (item d ''serviceEndpoint'') (\<lambda>sv.
          rbind (address_from_dict v4 v6 sv) (\<lambda>service.
          rbind (item d ''status'') (\<lambda>st.
          rbind (status_from_string st) (\<lambda>status.
            Inr \<lparr>in_service = service, in_additional = additional, in_status = status, in_shard = shard, in_member = member\<rparr>)))))))))
      | Jstr s \<Rightarrow> rbind (has_keys (\<lambda>k. sublist k s)) (\<lambda>_. Inl TypeError)
      | Jarr vs \<Rightarrow> rbind (has_keys (\<lambda>k. Jstr k \<in> set vs)) (\<lambda>_. Inl TypeError)
      | _ \<Rightarrow> Inl TypeError)"

text \<open>\<^verbatim>\<open>unpack\<close>: no instance where the JSON cannot be read (\<open>None\<close>) or used, since the thrift form is not there either.\<close>

definition unpack :: "(string \<Rightarrow> bool) \<Rightarrow> (string \<Rightarrow> bool) \<Rightarrow> json option \<Rightarrow> json \<Rightarrow> member_instance option" where
  "unpack v4 v6 doc member_id =
     (case doc of
        None \<Rightarrow> None
      | Some v \<Rightarrow> (case unpack_json v4 v6 v member_id of Inl _ \<Rightarrow> None | Inr i \<Rightarrow> Some i))"

text \<open>\<^verbatim>\<open>__key\<close>: the additional end points count only as the set of their lines.\<close>

definition additional_lines :: "(int \<Rightarrow> string) \<Rightarrow> member_instance \<Rightarrow> string list" where
  "additional_lines str i =
     map (\<lambda>(name, a). name @ ''=>'' @ ad_host a @ '':'' @ str (ad_port a)) (in_additional i)"

definition instance_eq :: "(int \<Rightarrow> string) \<Rightarrow> member_instance \<Rightarrow> member_instance \<Rightarrow> bool" where
  "instance_eq str i j =
     (in_service i = in_service j \<and> set (additional_lines str i) = set (additional_lines str j)
      \<and> in_status i = in_status j \<and> in_shard i = in_shard j \<and> in_member i = in_member j)"

section \<open>Writing and reading\<close>

definition address_ok :: "(string \<Rightarrow> bool) \<Rightarrow> (string \<Rightarrow> bool) \<Rightarrow> address \<Rightarrow> bool" where
  "address_ok v4 v6 a = (pred_option v4 (ad_inet a) \<and> pred_option v6 (ad_inet6 a))"

definition instance_ok :: "(string \<Rightarrow> bool) \<Rightarrow> (string \<Rightarrow> bool) \<Rightarrow> member_instance \<Rightarrow> bool" where
  "instance_ok v4 v6 i = (address_ok v4 v6 (in_service i) \<and> list_all (address_ok v4 v6) (map snd (in_additional i)))"

lemma address_read_back [simp]:
  "address_from_dict v4 v6 (address_to_dict a) = (if address_ok v4 v6 a then Inr a else Inl ValueError)"
  by (cases a)
    (auto simp: address_from_dict_def address_to_dict_def address_ok_def item_def get_or_null_def new_address_def
       int_value_def check_inet_def some_field_def split: option.splits)

lemma check_inet_takes: "check_inet takes v = Inr w \<Longrightarrow> pred_option takes w"
  by (auto simp: check_inet_def split: json.splits if_splits)

lemma new_address_ok: "new_address v4 v6 h p i4 i6 = Inr a \<Longrightarrow> address_ok v4 v6 a"
  by (cases h; cases "int_value p") (auto simp: new_address_def address_ok_def rbind_Inr_iff dest: check_inet_takes)

lemma address_read_ok: "address_from_dict v4 v6 v = Inr a \<Longrightarrow> address_ok v4 v6 a"
  by (cases v) (auto simp: address_from_dict_def rbind_Inr_iff dest: new_address_ok)

lemma status_read_back [simp]: "status_from_string (Jstr (service_status_name s)) = Inr s"
  by (cases s) (simp_all add: status_from_string_def status_map_def)

lemma additional_read_back:
  "additional_from v4 v6 (Jobj (map (\<lambda>(name, a). (name, address_to_dict a)) xs))
     = (if list_all (address_ok v4 v6) (map snd xs) then Inr xs else Inl ValueError)"
  by (induction xs) (auto simp: additional_from_def split: if_splits)

lemma additional_read_ok:
  assumes "additional_from v4 v6 v = Inr xs"
  shows "list_all (address_ok v4 v6) (map snd xs)"
proof -
  obtain d where d: "v = Jobj d" and tr: "traverse (\<lambda>(name, value). rbind (address_from_dict v4 v6 value) (\<lambda>a. Inr (name, a))) d = Inr xs"
    using assms by (auto simp: additional_from_def split: json.splits)
  show ?thesis using tr
    by (induction d arbitrary: xs) (auto simp: rbind_Inr_iff dest: address_read_ok)
qed

definition int_or_null :: "int option \<Rightarrow> json" where
  "int_or_null m = (case m of None \<Rightarrow> Jnull | Some n \<Rightarrow> Jint n)"

lemma check_int_or_null [simp]: "check_int (int_or_null m) = Inr m"
  by (auto simp: int_or_null_def check_int_def split: option.splits)

lemma shard_read_back:
  "check_int (get_or_null (some_field ''shard'' Jint n @ some_field ''member_id'' Jint m) ''shard'') = Inr n"
  by (auto simp: get_or_null_def some_field_def check_int_def split: option.splits)

lemma instance_read_back:
  "unpack_json v4 v6 (instance_to_dict i) (int_or_null m)
     = (if instance_ok v4 v6 i then Inr (i\<lparr>in_member := m\<rparr>) else Inl ValueError)"
  using shard_read_back [of "in_shard i" "in_member i"]
  by (cases i)
    (auto simp: unpack_json_def instance_to_dict_def has_keys_def instance_keys_def item_def get_or_null_def
       additional_read_back instance_ok_def)

lemma instance_read_ok:
  assumes "unpack_json v4 v6 doc m = Inr i"
  shows "instance_ok v4 v6 i"
  using assms
  by (auto simp: unpack_json_def instance_ok_def rbind_Inr_iff dest: address_read_ok additional_read_ok split: json.splits)

text \<open>What a member announces is what the others read of it, under the number they know it by; what names an address
  that is none is no instance, and raises nothing.\<close>

theorem announced_is_read:
  "unpack v4 v6 (Some (instance_to_dict i)) (int_or_null m)
     = (if instance_ok v4 v6 i then Some (i\<lparr>in_member := m\<rparr>) else None)"
  by (simp add: unpack_def instance_read_back)

text \<open>Whatever was read can be announced again, and is read the same.\<close>

theorem read_is_announced:
  assumes "unpack v4 v6 doc m = Some i"
  shows "unpack v4 v6 (Some (instance_to_dict i)) (int_or_null (in_member i)) = Some i"
  using assms by (auto simp: unpack_def instance_read_back dest: instance_read_ok split: option.splits sum.splits)

text \<open>Equality of instances does not look at the addresses of the additional end points.\<close>

theorem equal_but_elsewhere:
  "let i = (\<lambda>inet. joined_instance \<lparr>ad_host = ''h'', ad_port = 1, ad_inet = None, ad_inet6 = None\<rparr>
        [(''http'', \<lparr>ad_host = ''h'', ad_port = 2, ad_inet = inet, ad_inet6 = None\<rparr>)] None)
   in instance_eq str (i (Some ''10.0.0.1'')) (i (Some ''10.0.0.2'')) \<and> i (Some ''10.0.0.1'') \<noteq> i (Some ''10.0.0.2'')"
  by (simp add: instance_eq_def joined_instance_def additional_lines_def Let_def)

end
