(* ===== verification/ZkGroup.thy ===== *)
theory ZkGroup
  imports Scheduler Cli "HOL-Library.AList" "HOL-Library.Multiset"
begin

text \<open>
  The members of a ZooKeeper node, \<^verbatim>\<open>twitter/common/zookeeper/group/group_base.py\<close> and \<^verbatim>\<open>kazoo_group.py\<close>: futures for what a
  member holds, callbacks that wait for them or for a state of the connection, and the requests the group has with
  ZooKeeper.  The closures of the source are the constructors of \<open>job\<close>, a request stays in \<open>gr_sent\<close> until its completion
  comes, and the completions, the watches and the states of the connection come in any order.  An operation gives the
  group it leaves, the callbacks it called in order, and what it raised.  Where the source goes through a set, its order
  is that of the keys \<open>arr\<close>.
\<close>

section \<open>Names of nodes\<close>

type_synonym member = int

definition error_id :: member where "error_id = - 1"

definition basename :: "string \<Rightarrow> string" where
  "basename p = rev (takeWhile (\<lambda>c. c \<noteq> CHR ''/'') (rev p))"

definition member_prefix :: string where "member_prefix = ''member_''"

definition znode_owned :: "string \<Rightarrow> bool" where
  "znode_owned z = (take (length member_prefix) (basename z) = member_prefix)"

definition znode_to_id :: "string \<Rightarrow> pyexc + member" where
  "znode_to_id z =
     (if \<not> znode_owned z then Inl AssertionError
      else case py_int (drop (length member_prefix) (basename z)) of None \<Rightarrow> Inl ValueError | Some n \<Rightarrow> Inr n)"

text \<open>\<^verbatim>\<open>'%010d'\<close>: ten characters at least, the sign counted.\<close>

definition ten_digits :: "int \<Rightarrow> string" where
  "ten_digits n =
     (let d = decimal (nat \<bar>n\<bar>); sign = (if n < 0 then ''-'' else '''')
      in sign @ replicate (10 - length sign - length d) (CHR ''0'') @ d)"

definition id_to_znode :: "member \<Rightarrow> string" where
  "id_to_znode n = member_prefix @ ten_digits n"

text \<open>\<^verbatim>\<open>'/' + '/'.join(filter(None, path.split('/')))\<close>, and \<^verbatim>\<open>posixpath.join\<close> with the name of a member.\<close>

definition normalize_path :: "string \<Rightarrow> string" where
  "normalize_path p = ''/'' @ join_with ''/'' (filter (\<lambda>s. s \<noteq> []) (split_on (CHR ''/'') p))"

definition member_path :: "string \<Rightarrow> member \<Rightarrow> string" where
  "member_path path n = (if path \<noteq> [] \<and> last path = CHR ''/'' then path @ id_to_znode n else path @ ''/'' @ id_to_znode n)"

section \<open>Access lists\<close>

datatype acl_item = Acl string string string | Acl_dict "(string \<times> string) list" | Not_acl

definition translate_acl :: "acl_item \<Rightarrow> pyexc + string \<times> string \<times> string" where
  "translate_acl a =
     (case a of
        Acl_dict d \<Rightarrow>
          (case (map_of d ''perms'', map_of d ''scheme'', map_of d ''id'') of
             (Some p, Some s, Some i) \<Rightarrow> Inr (p, s, i) | _ \<Rightarrow> Inl TypeError)
      | _ \<Rightarrow> Inl TypeError)"

text \<open>\<open>None\<close> is \<^verbatim>\<open>None\<close>, \<open>Some None\<close> what is no list.\<close>

definition is_acl :: "acl_item \<Rightarrow> bool" where
  "is_acl a = (case a of Acl _ _ _ \<Rightarrow> True | _ \<Rightarrow> False)"

definition acl_parts :: "acl_item \<Rightarrow> string \<times> string \<times> string" where
  "acl_parts a = (case a of Acl p s i \<Rightarrow> (p, s, i) | _ \<Rightarrow> ([], [], []))"

definition translate_acl_list :: "acl_item list option option \<Rightarrow> pyexc + (string \<times> string \<times> string) list option" where
  "translate_acl_list acls =
     (case acls of
        None \<Rightarrow> Inr None
      | Some None \<Rightarrow> Inl TypeError
      | Some (Some as) \<Rightarrow>
          if list_all is_acl as then Inr (Some (map acl_parts as))
          else rbind (traverse translate_acl as) (\<lambda>ts. Inr (Some ts)))"

section \<open>The state\<close>

text \<open>What a future gives: the content of the member, or the error member.\<close>

datatype 'b info = Content 'b | Gone

datatype 'b progress = Pending | Running | Settled_to "'b info"

record ('b, 'c) future =
  fu_state :: "'b progress"
  fu_waiters :: "'c list"

datatype connection = Zk_connected | Zk_suspended | Zk_lost

text \<open>The two kinds of monitors: the one that an active group runs on its own, and that of a call of
  \<^verbatim>\<open>KazooGroup.monitor\<close> with the members it was given and its capture.\<close>

datatype monitor = Own_monitor | Watching "member list" nat

datatype 'b job =
    Get_info member
  | Create 'b nat "nat option"
  | Check_node nat string
  | Notify_expiry nat
  | Expire nat
  | Remove_node member nat
  | List_children monitor
  | Find_node monitor

datatype 'b reply = Info "'b info" | Members_are "member list" | Joined_as member | Cancelled bool | Expired

datatype group_error = InvalidStateError | InvalidMemberError | KazooError

record ('b, 'c) kgroup =
  gr_state :: connection
  gr_queue :: "(connection \<times> 'b job) list"
  gr_members :: "(member \<times> ('b, 'c) future) list"
  gr_monitors :: "(member list \<times> 'c) list"
  gr_captures :: "(nat \<times> 'c) list"
  gr_next :: nat
  gr_sent :: "'b job list"

type_synonym ('b, 'c) calls = "('c \<times> 'b reply) list"

type_synonym ('b, 'c) outcome = "('b, 'c) kgroup \<times> ('b, 'c) calls \<times> group_error exn option"

definition member_ids :: "('b, 'c) kgroup \<Rightarrow> member list" where
  "member_ids g = map fst (gr_members g)"

section \<open>Captures and callbacks for a state of the connection\<close>

text \<open>A capture calls back once: it is in \<open>gr_captures\<close> until then.  Those of the monitors of an active group are only known to
  its queue, so they are the callbacks there.\<close>

definition new_capture :: "'c \<Rightarrow> ('b, 'c) kgroup \<Rightarrow> nat \<times> ('b, 'c) kgroup" where
  "new_capture c g = (gr_next g, g\<lparr>gr_captures := gr_captures g @ [(gr_next g, c)], gr_next := gr_next g + 1\<rparr>)"

definition set_capture :: "nat \<Rightarrow> 'b reply \<Rightarrow> ('b, 'c) kgroup \<Rightarrow> ('b, 'c) kgroup \<times> ('b, 'c) calls" where
  "set_capture k v g =
     (case map_of (gr_captures g) k of
        None \<Rightarrow> (g, [])
      | Some c \<Rightarrow> (g\<lparr>gr_captures := filter (\<lambda>(j, _). j \<noteq> k) (gr_captures g)\<rparr>, [(c, v)]))"

definition send :: "'b job \<Rightarrow> ('b, 'c) kgroup \<Rightarrow> ('b, 'c) kgroup" where
  "send j g = g\<lparr>gr_sent := gr_sent g @ [j]\<rparr>"

definition run_now :: "'b job \<Rightarrow> ('b, 'c) kgroup \<Rightarrow> ('b, 'c) kgroup \<times> ('b, 'c) calls" where
  "run_now j g = (case j of Expire k \<Rightarrow> set_capture k Expired g | _ \<Rightarrow> (send j g, []))"

definition once_with :: "('b job \<Rightarrow> ('b, 'c) kgroup \<Rightarrow> ('b, 'c) kgroup \<times> ('b, 'c) calls) \<Rightarrow> connection \<Rightarrow> 'b job
    \<Rightarrow> ('b, 'c) kgroup \<Rightarrow> ('b, 'c) kgroup \<times> ('b, 'c) calls" where
  "once_with run s j g =
     (if gr_state g \<noteq> s then (g\<lparr>gr_queue := gr_queue g @ [(s, j)]\<rparr>, []) else run j g)"

text \<open>What a closure does when it is called: the notifier of expirations waits for the loss of the session, the others
  send their request.\<close>

definition run_job :: "'b job \<Rightarrow> ('b, 'c) kgroup \<Rightarrow> ('b, 'c) kgroup \<times> ('b, 'c) calls" where
  "run_job j g = (case j of Notify_expiry k \<Rightarrow> once_with run_now Zk_lost (Expire k) g | _ \<Rightarrow> run_now j g)"

text \<open>\<^verbatim>\<open>_once\<close>.\<close>

definition once :: "connection \<Rightarrow> 'b job \<Rightarrow> ('b, 'c) kgroup \<Rightarrow> ('b, 'c) kgroup \<times> ('b, 'c) calls" where
  "once = once_with run_job"

fun run_jobs :: "'b job list \<Rightarrow> ('b, 'c) kgroup \<Rightarrow> ('b, 'c) kgroup \<times> ('b, 'c) calls" where
  "run_jobs [] g = (g, [])"
| "run_jobs (j # js) g =
     (case run_job j g of (g1, c1) \<Rightarrow> (case run_jobs js g1 of (g2, c2) \<Rightarrow> (g2, c1 @ c2)))"

text \<open>\<^verbatim>\<open>__state_listener\<close>.\<close>

definition state_listener :: "connection \<Rightarrow> ('b, 'c) kgroup \<Rightarrow> ('b, 'c) kgroup \<times> ('b, 'c) calls" where
  "state_listener s g =
     run_jobs (map snd (filter (\<lambda>(t, _). t = s) (gr_queue g)))
       (g\<lparr>gr_state := s, gr_queue := filter (\<lambda>(t, _). t \<noteq> s) (gr_queue g)\<rparr>)"

section \<open>Futures\<close>

definition new_future :: "('b, 'c) future" where
  "new_future = \<lparr>fu_state = Pending, fu_waiters = []\<rparr>"

text \<open>\<^verbatim>\<open>Future.set_result\<close> calls the waiters in their order; on a future that is done it raises (Python 3.8 and later).\<close>

definition set_result :: "'b info \<Rightarrow> ('b, 'c) future \<Rightarrow> group_error exn + ('b, 'c) future \<times> ('b, 'c) calls" where
  "set_result v f =
     (case fu_state f of
        Settled_to _ \<Rightarrow> Inl (Own InvalidStateError)
      | _ \<Rightarrow> Inr (\<lparr>fu_state = Settled_to v, fu_waiters = []\<rparr>, map (\<lambda>c. (c, Info v)) (fu_waiters f)))"

definition put_member :: "member \<Rightarrow> ('b, 'c) future \<Rightarrow> ('b, 'c) kgroup \<Rightarrow> ('b, 'c) kgroup" where
  "put_member m f g = g\<lparr>gr_members := AList.update m f (gr_members g)\<rparr>"

definition drop_member :: "member \<Rightarrow> ('b, 'c) kgroup \<Rightarrow> ('b, 'c) kgroup" where
  "drop_member m g = g\<lparr>gr_members := AList.delete m (gr_members g)\<rparr>"

text \<open>\<^verbatim>\<open>info\<close>; a call without a callback of its own is the one of \<^verbatim>\<open>_monitor_members\<close> that ignores the answer.\<close>

definition the_future :: "member \<Rightarrow> ('b, 'c) kgroup \<Rightarrow> ('b, 'c) future" where
  "the_future m g = (case map_of (gr_members g) m of None \<Rightarrow> new_future | Some f \<Rightarrow> f)"

definition add_waiter :: "'c option \<Rightarrow> ('b, 'c) future \<Rightarrow> ('b, 'c) future \<times> ('b, 'c) calls" where
  "add_waiter c f =
     (case c of
        None \<Rightarrow> (f, [])
      | Some c \<Rightarrow> (case fu_state f of Settled_to v \<Rightarrow> (f, [(c, Info v)]) | _ \<Rightarrow> (f\<lparr>fu_waiters := fu_waiters f @ [c]\<rparr>, [])))"

definition info :: "member \<Rightarrow> 'c option \<Rightarrow> ('b, 'c) kgroup \<Rightarrow> ('b, 'c) outcome" where
  "info m c g =
     (if m = error_id then (g, [], Some (Own InvalidMemberError))
      else case add_waiter c (the_future m g) of (f, calls) \<Rightarrow>
        if fu_state f = Pending then (send (Get_info m) (put_member m (f\<lparr>fu_state := Running\<rparr>) g), calls, None)
        else (put_member m f g, calls, None))"

text \<open>What ZooKeeper answers.\<close>

datatype 'a answer = Gives 'a | Disconnected | No_node | Zk_error

definition settle_popped :: "member \<Rightarrow> ('b, 'c) kgroup \<Rightarrow> ('b, 'c) outcome" where
  "settle_popped m g =
     (case map_of (gr_members g) m of
        None \<Rightarrow> (g, [], None)
      | Some f \<Rightarrow> (case set_result Gone f of
                    Inl e \<Rightarrow> (drop_member m g, [], Some e)
                  | Inr (_, calls) \<Rightarrow> (drop_member m g, calls, None)))"

definition info_completion :: "member \<Rightarrow> 'b answer \<Rightarrow> ('b, 'c) kgroup \<Rightarrow> ('b, 'c) outcome" where
  "info_completion m r g =
     (case r of
        Disconnected \<Rightarrow> (case once Zk_connected (Get_info m) g of (g', calls) \<Rightarrow> (g', calls, None))
      | Gives b \<Rightarrow>
          (case map_of (gr_members g) m of
             None \<Rightarrow> (g, [], Some (Py KeyError))
           | Some f \<Rightarrow> (case set_result (Content b) f of
                         Inl e \<Rightarrow> (g, [], Some e)
                       | Inr (f', calls) \<Rightarrow> (put_member m f' g, calls, None)))
      | _ \<Rightarrow> settle_popped m g)"

section \<open>Joining and cancelling\<close>

text \<open>\<^verbatim>\<open>join\<close>: the capture of the membership, and that of the expiration if there is a callback for it.\<close>

definition join :: "'b \<Rightarrow> 'c \<Rightarrow> 'c option \<Rightarrow> ('b, 'c) kgroup \<Rightarrow> ('b, 'c) kgroup" where
  "join b c expire g =
     (case new_capture c g of (k, g1) \<Rightarrow>
        (case expire of
           None \<Rightarrow> send (Create b k None) g1
         | Some x \<Rightarrow> (case new_capture x g1 of (e, g2) \<Rightarrow> send (Create b k (Some e)) g2)))"

definition acreate_completion :: "'b \<Rightarrow> nat \<Rightarrow> nat option \<Rightarrow> string answer \<Rightarrow> ('b, 'c) kgroup \<Rightarrow> ('b, 'c) outcome" where
  "acreate_completion b k expire r g =
     (case r of
        Disconnected \<Rightarrow> (case once Zk_connected (Create b k expire) g of (g', calls) \<Rightarrow> (g', calls, None))
      | Gives path \<Rightarrow>
          (case znode_to_id path of
             Inl e \<Rightarrow> (g, [], Some (Py e))
           | Inr m \<Rightarrow>
               (case set_result (Content b) (the_future m g) of
                  Inl e \<Rightarrow> (g, [], Some e)
                | Inr (f, calls) \<Rightarrow>
                    (case (case expire of
                             None \<Rightarrow> (put_member m f g, [])
                           | Some x \<Rightarrow> (case once Zk_connected (Notify_expiry x) (put_member m f g) of
                                          (g1, c1) \<Rightarrow> (send (Check_node x path) g1, c1))) of
                       (g2, c2) \<Rightarrow> (case set_capture k (Joined_as m) g2 of (g3, c3) \<Rightarrow> (g3, calls @ c2 @ c3, None)))))
      | _ \<Rightarrow> (case set_capture k (Joined_as error_id) g of (g', calls) \<Rightarrow> (g', calls, None)))"

text \<open>\<^verbatim>\<open>exists_completion\<close> of \<^verbatim>\<open>join\<close>: whether the node is there; other errors are raised.  And its watch.\<close>

definition check_completion :: "nat \<Rightarrow> string \<Rightarrow> bool answer \<Rightarrow> ('b, 'c) kgroup \<Rightarrow> ('b, 'c) outcome" where
  "check_completion x path r g =
     (case r of
        Gives there \<Rightarrow> if there then (g, [], None) else (case set_capture x Expired g of (g', calls) \<Rightarrow> (g', calls, None))
      | Disconnected \<Rightarrow> (case once Zk_connected (Check_node x path) g of (g', calls) \<Rightarrow> (g', calls, None))
      | _ \<Rightarrow> (g, [], Some (Own KazooError)))"

datatype watch_event = Created_event | Deleted_event | Changed_event | Child_event | No_event

definition check_watch :: "nat \<Rightarrow> watch_event \<Rightarrow> ('b, 'c) kgroup \<Rightarrow> ('b, 'c) kgroup \<times> ('b, 'c) calls" where
  "check_watch x ev g = (if ev = Deleted_event then set_capture x Expired g else (g, []))"

definition cancel :: "member \<Rightarrow> 'c \<Rightarrow> ('b, 'c) kgroup \<Rightarrow> ('b, 'c) kgroup" where
  "cancel m c g = (case new_capture c g of (k, g1) \<Rightarrow> send (Remove_node m k) g1)"

text \<open>\<^verbatim>\<open>adelete_completion\<close>.  It takes \<^verbatim>\<open>member.id\<close> out of a dictionary whose keys are members, and a member equals no
  number: nothing goes, and the future that is settled is a new one.\<close>

definition adelete_completion :: "member \<Rightarrow> nat \<Rightarrow> unit answer \<Rightarrow> ('b, 'c) kgroup \<Rightarrow> ('b, 'c) kgroup \<times> ('b, 'c) calls" where
  "adelete_completion m k r g =
     (case r of
        Disconnected \<Rightarrow> once Zk_connected (Remove_node m k) g
      | _ \<Rightarrow> set_capture k (Cancelled (r \<noteq> Zk_error)) g)"

section \<open>The children\<close>

text \<open>The loop over the members that left, which a future that is done ends.\<close>

fun drop_left :: "member list \<Rightarrow> ('b, 'c) kgroup \<Rightarrow> ('b, 'c) outcome" where
  "drop_left [] g = (g, [], None)"
| "drop_left (m # ms) g =
     (case settle_popped m g of
        (g1, c1, Some e) \<Rightarrow> (g1, c1, Some e)
      | (g1, c1, None) \<Rightarrow> (case drop_left ms g1 of (g2, c2, e) \<Rightarrow> (g2, c1 @ c2, e)))"

definition add_new :: "member list \<Rightarrow> ('b, 'c) kgroup \<Rightarrow> ('b, 'c) kgroup" where
  "add_new ms g = fold (\<lambda>m. put_member m new_future) ms g"

definition child_ids :: "string list \<Rightarrow> pyexc + member list" where
  "child_ids children = rbind (traverse znode_to_id (filter znode_owned children)) (\<lambda>ids. Inr (remdups ids))"

text \<open>Any order of a set is the one by some key.\<close>

type_synonym order = "member \<Rightarrow> nat"

definition members_left :: "order \<Rightarrow> member list \<Rightarrow> ('b, 'c) kgroup \<Rightarrow> member list" where
  "members_left arr ids g = sort_key arr (filter (\<lambda>m. m \<notin> set ids) (member_ids g))"

definition members_new :: "order \<Rightarrow> member list \<Rightarrow> ('b, 'c) kgroup \<Rightarrow> member list" where
  "members_new arr ids g = sort_key arr (filter (\<lambda>m. m \<notin> set (member_ids g)) ids)"

text \<open>\<^verbatim>\<open>_update_children\<close>; it gives the new members too.\<close>

definition update_children :: "order \<Rightarrow> member list \<Rightarrow> ('b, 'c) kgroup \<Rightarrow> ('b, 'c) outcome" where
  "update_children arr ids g =
     (case drop_left (members_left arr ids g) g of
        (g1, c1, Some e) \<Rightarrow> (g1, c1, Some e)
      | (g1, c1, None) \<Rightarrow> (add_new (members_new arr ids g) g1, c1, None))"

definition set_different :: "nat \<Rightarrow> member list \<Rightarrow> ('b, 'c) kgroup \<Rightarrow> bool \<times> ('b, 'c) kgroup \<times> ('b, 'c) calls" where
  "set_different k current g =
     (if set current \<noteq> set (member_ids g) then (True, set_capture k (Members_are (member_ids g)) g) else (False, g, []))"

section \<open>Monitors\<close>

text \<open>\<^verbatim>\<open>ActiveKazooGroup.monitor\<close>: the callback is called at once where the members differ already.\<close>

definition monitor :: "member list \<Rightarrow> 'c \<Rightarrow> ('b, 'c) kgroup \<Rightarrow> ('b, 'c) kgroup \<times> ('b, 'c) calls" where
  "monitor current c g =
     (if set current \<noteq> set (member_ids g) then (g, [(c, Members_are (member_ids g))])
      else (g\<lparr>gr_monitors := gr_monitors g @ [(current, c)]\<rparr>, []))"

text \<open>\<^verbatim>\<open>KazooGroup.monitor\<close>.\<close>

definition plain_monitor :: "member list \<Rightarrow> 'c \<Rightarrow> ('b, 'c) kgroup \<Rightarrow> ('b, 'c) kgroup" where
  "plain_monitor current c g = (case new_capture c g of (k, g1) \<Rightarrow> send (List_children (Watching current k)) g1)"

text \<open>\<^verbatim>\<open>wait_exists\<close>, \<^verbatim>\<open>exists_watch\<close>, \<^verbatim>\<open>exists_completion\<close> are the same in both; \<open>expired\<close> is the state of an expired session.\<close>

definition exists_watch :: "monitor \<Rightarrow> bool \<Rightarrow> watch_event \<Rightarrow> ('b, 'c) kgroup \<Rightarrow> ('b, 'c) kgroup" where
  "exists_watch w expired ev g =
     (if expired \<or> ev = Deleted_event then send (Find_node w) g
      else if ev = Created_event then send (List_children w) g else g)"

definition exists_completion :: "monitor \<Rightarrow> bool answer \<Rightarrow> ('b, 'c) kgroup \<Rightarrow> ('b, 'c) kgroup \<times> ('b, 'c) calls" where
  "exists_completion w r g =
     (case r of
        Gives there \<Rightarrow> (if there then send (List_children w) g else g, [])
      | Disconnected \<Rightarrow> once Zk_connected (Find_node w) g
      | No_node \<Rightarrow> (send (Find_node w) g, [])
      | Zk_error \<Rightarrow> (g, []))"

datatype keeper_state = Keeper_connected | Keeper_expired | Keeper_other

definition get_watch :: "monitor \<Rightarrow> keeper_state \<Rightarrow> watch_event \<Rightarrow> ('b, 'c) kgroup \<Rightarrow> ('b, 'c) kgroup \<times> ('b, 'c) calls" where
  "get_watch w ks ev g =
     (if ks = Keeper_expired then (send (Find_node w) g, [])
      else if ks \<noteq> Keeper_connected then (g, [])
      else if ev = Deleted_event then (send (Find_node w) g, [])
      else case w of
        Own_monitor \<Rightarrow> (send (List_children w) g, [])
      | Watching current k \<Rightarrow>
          if ev \<noteq> Child_event then (g, [])
          else (case set_different k current g of
                  (True, g', calls) \<Rightarrow> (g', calls)
                | (False, g', calls) \<Rightarrow> (send (List_children w) g', calls)))"

text \<open>The loop over the monitors of an active group: those with other members are told and go.\<close>

fun tell_monitors :: "member list \<Rightarrow> (member list \<times> 'c) list \<Rightarrow> ('b, 'c) kgroup \<Rightarrow> ('b, 'c) kgroup \<times> ('b, 'c) calls" where
  "tell_monitors ids [] g = (g, [])"
| "tell_monitors ids ((current, c) # rest) g =
     (if set current \<noteq> set ids
      then case tell_monitors ids rest g of (g2, c2) \<Rightarrow> (g2, (c, Members_are ids) # c2)
      else tell_monitors ids rest (g\<lparr>gr_monitors := gr_monitors g @ [(current, c)]\<rparr>))"

fun fetch_infos :: "member list \<Rightarrow> ('b, 'c) kgroup \<Rightarrow> ('b, 'c) kgroup \<times> group_error exn option" where
  "fetch_infos [] g = (g, None)"
| "fetch_infos (m # ms) g =
     (case info m None g of (g1, _, Some e) \<Rightarrow> (g1, Some e) | (g1, _, None) \<Rightarrow> fetch_infos ms g1)"

definition get_completion :: "order \<Rightarrow> monitor \<Rightarrow> string list answer \<Rightarrow> ('b, 'c) kgroup \<Rightarrow> ('b, 'c) outcome" where
  "get_completion arr w r g =
     (case r of
        Disconnected \<Rightarrow> (case once Zk_connected (List_children w) g of (g', calls) \<Rightarrow> (g', calls, None))
      | No_node \<Rightarrow> (send (Find_node w) g, [], None)
      | Zk_error \<Rightarrow>
          (case w of
             Own_monitor \<Rightarrow> (g, [], None)
           | Watching _ k \<Rightarrow> (case set_capture k (Members_are [error_id]) g of (g', calls) \<Rightarrow> (g', calls, None)))
      | Gives children \<Rightarrow>
          (case child_ids children of
             Inl e \<Rightarrow> (g, [], Some (Py e))
           | Inr ids \<Rightarrow>
               (case update_children arr ids g of
                  (g1, c1, Some e) \<Rightarrow> (g1, c1, Some e)
                | (g1, c1, None) \<Rightarrow>
                    (case w of
                       Watching current k \<Rightarrow> (case set_different k current g1 of (_, g2, c2) \<Rightarrow> (g2, c1 @ c2, None))
                     | Own_monitor \<Rightarrow>
                         (case fetch_infos (members_new arr ids g) g1 of
                            (g2, Some e) \<Rightarrow> (g2, c1, Some e)
                          | (g2, None) \<Rightarrow>
                              (case tell_monitors ids (gr_monitors g2) (g2\<lparr>gr_monitors := []\<rparr>) of
                                 (g3, c3) \<Rightarrow> (g3, c1 @ c3, None)))))))"

text \<open>\<^verbatim>\<open>list\<close> asks again after every lost connection, once it is back; \<open>None\<close> where the answers given do not end it.\<close>

fun list_members :: "string list answer list \<Rightarrow> (group_error exn + member list) option" where
  "list_members [] = None"
| "list_members (r # rs) =
     (case r of
        Gives children \<Rightarrow> 
          Some (case traverse znode_to_id (filter znode_owned children) of Inl e \<Rightarrow> Inl (Py e) | Inr ids \<Rightarrow> Inr (sort ids))
      | No_node \<Rightarrow> Some (Inr [])
      | Disconnected \<Rightarrow> list_members rs
      | Zk_error \<Rightarrow> Some (Inl (Own KazooError)))"

section \<open>Construction\<close>

definition new_group :: "connection \<Rightarrow> ('b, 'c) kgroup" where
  "new_group s = \<lparr>gr_state = s, gr_queue = [], gr_members = [], gr_monitors = [], gr_captures = [], gr_next = 0, gr_sent = []\<rparr>"

definition active_group :: "connection \<Rightarrow> ('b, 'c) kgroup" where
  "active_group s = send (List_children Own_monitor) (new_group s)"

section \<open>Steps\<close>

datatype ('b, 'c) group_event =
    State_is connection
  | Info_call member 'c
  | Join_call 'b 'c "'c option"
  | Cancel_call member 'c
  | Monitor_call "member list" 'c
  | Plain_monitor_call "member list" 'c
  | Info_done member "'b answer"
  | Create_done 'b nat "nat option" "string answer"
  | Check_done nat string "bool answer"
  | Check_watch nat watch_event
  | Remove_done member nat "unit answer"
  | Children_done monitor "string list answer"
  | Find_done monitor "bool answer"
  | Exists_watch monitor bool watch_event
  | Get_watch monitor keeper_state watch_event

text \<open>A completion is for a request that was sent; what it raises stays in the thread of the client of ZooKeeper.\<close>

definition completes :: "'b job \<Rightarrow> (('b, 'c) kgroup \<Rightarrow> ('b, 'c) outcome) \<Rightarrow> ('b, 'c) kgroup \<Rightarrow> ('b, 'c) outcome option" where
  "completes j f g =
     (if j \<in> set (gr_sent g) then Some (f (g\<lparr>gr_sent := remove1 j (gr_sent g)\<rparr>)) else None)"

definition quiet :: "('b, 'c) kgroup \<times> ('b, 'c) calls \<Rightarrow> ('b, 'c) outcome" where
  "quiet r = (fst r, snd r, None)"

fun group_step :: "order \<Rightarrow> ('b, 'c) group_event \<Rightarrow> ('b, 'c) kgroup \<Rightarrow> ('b, 'c) outcome option" where
  "group_step arr (State_is s) g = Some (quiet (state_listener s g))"
| "group_step arr (Info_call m c) g = Some (info m (Some c) g)"
| "group_step arr (Join_call b c x) g = Some (join b c x g, [], None)"
| "group_step arr (Cancel_call m c) g = Some (cancel m c g, [], None)"
| "group_step arr (Monitor_call ms c) g = Some (quiet (monitor ms c g))"
| "group_step arr (Plain_monitor_call ms c) g = Some (plain_monitor ms c g, [], None)"
| "group_step arr (Info_done m r) g = completes (Get_info m) (info_completion m r) g"
| "group_step arr (Create_done b k x r) g = completes (Create b k x) (acreate_completion b k x r) g"
| "group_step arr (Check_done x p r) g = completes (Check_node x p) (check_completion x p r) g"
| "group_step arr (Check_watch x ev) g = Some (quiet (check_watch x ev g))"
| "group_step arr (Remove_done m k r) g = completes (Remove_node m k) (\<lambda>g. quiet (adelete_completion m k r g)) g"
| "group_step arr (Children_done w r) g = completes (List_children w) (get_completion arr w r) g"
| "group_step arr (Find_done w r) g = completes (Find_node w) (\<lambda>g. quiet (exists_completion w r g)) g"
| "group_step arr (Exists_watch w expired ev) g = Some (exists_watch w expired ev g, [], None)"
| "group_step arr (Get_watch w ks ev) g = Some (quiet (get_watch w ks ev g))"

fun run_group :: "(order \<times> ('b, 'c) group_event) list \<Rightarrow> ('b, 'c) kgroup \<Rightarrow> (('b, 'c) kgroup \<times> ('b, 'c) calls) option" where
  "run_group [] g = Some (g, [])"
| "run_group ((arr, ev) # evs) g =
     (case group_step arr ev g of
        None \<Rightarrow> None
      | Some (g1, c1, _) \<Rightarrow> map_option (\<lambda>(g2, c2). (g2, c1 @ c2)) (run_group evs g1))"

section \<open>Nobody who asks for a member is forgotten\<close>

definition waiting :: "('b, 'c) kgroup \<Rightarrow> 'c multiset" where
  "waiting g = mset (concat (map (fu_waiters \<circ> snd) (gr_members g)))"

definition is_info :: "'b reply \<Rightarrow> bool" where
  "is_info r = (case r of Info _ \<Rightarrow> True | _ \<Rightarrow> False)"

definition answered :: "('b, 'c) calls \<Rightarrow> 'c multiset" where
  "answered calls = mset (map fst (filter (is_info \<circ> snd) calls))"

definition asked :: "('b, 'c) group_event \<Rightarrow> 'c multiset" where
  "asked ev = (case ev of Info_call m c \<Rightarrow> if m = error_id then {#} else {#c#} | _ \<Rightarrow> {#})"

text \<open>A future that is running has its request on the way or waiting for the connection, and nobody waits for another.\<close>

definition jobs_ahead :: "('b, 'c) kgroup \<Rightarrow> 'b job set" where
  "jobs_ahead g = set (gr_sent g) \<union> {j. (Zk_connected, j) \<in> set (gr_queue g)}"

definition future_ok :: "'b job set \<Rightarrow> member \<Rightarrow> ('b, 'c) future \<Rightarrow> bool" where
  "future_ok js m f = (if fu_state f = Running then Get_info m \<in> js else fu_waiters f = [])"

definition group_ok :: "('b, 'c) kgroup \<Rightarrow> bool" where
  "group_ok g = (distinct (member_ids g) \<and> (\<forall>(m, f)\<in>set (gr_members g). future_ok (jobs_ahead g) m f))"

definition group_ok_with :: "'b job set \<Rightarrow> ('b, 'c) kgroup \<Rightarrow> bool" where
  "group_ok_with js g =
     (distinct (member_ids g) \<and> (\<forall>(m, f)\<in>set (gr_members g). future_ok (jobs_ahead g \<union> js) m f))"

definition balanced :: "('b, 'c) kgroup \<Rightarrow> 'c multiset \<Rightarrow> ('b, 'c) outcome \<Rightarrow> bool" where
  "balanced g q r = (case r of (g', calls, _) \<Rightarrow> group_ok g' \<and> waiting g' + answered calls = waiting g + q)"

text \<open>Steps that leave the members alone and lose no request for one.\<close>

definition kept :: "('b, 'c) kgroup \<Rightarrow> ('b, 'c) kgroup \<Rightarrow> bool" where
  "kept g g' = (gr_members g' = gr_members g \<and> (\<forall>m. Get_info m \<in> jobs_ahead g \<longrightarrow> Get_info m \<in> jobs_ahead g'))"

definition calm :: "('b, 'c) kgroup \<Rightarrow> ('b, 'c) kgroup \<times> ('b, 'c) calls \<Rightarrow> bool" where
  "calm g r = (kept g (fst r) \<and> answered (snd r) = {#})"

lemma kept_refl [simp]: "kept g g" by (simp add: kept_def)

lemma kept_trans: "kept g g1 \<Longrightarrow> kept g1 g2 \<Longrightarrow> kept g g2" by (auto simp: kept_def)

lemma answered_simps [simp]:
  "answered [] = {#}"
  "answered (a @ b) = answered a + answered b"
  "answered ((c, v) # calls) = (if is_info v then {#c#} else {#}) + answered calls"
  by (auto simp: answered_def)

lemma is_info_simps [simp]:
  "is_info (Info v)" "\<not> is_info (Members_are ms)" "\<not> is_info (Joined_as m)" "\<not> is_info (Cancelled b)" "\<not> is_info Expired"
  by (simp_all add: is_info_def)

lemma kept_send: "kept g (send j g)" by (auto simp: kept_def send_def jobs_ahead_def)

lemma kept_fields [simp]:
  "kept g (g\<lparr>gr_captures := cs\<rparr>)" "kept g (g\<lparr>gr_monitors := ms\<rparr>)" "kept g (g\<lparr>gr_captures := cs, gr_next := n\<rparr>)"
  by (simp_all add: kept_def jobs_ahead_def)

lemma kept_new_capture: "new_capture c g = (k, g') \<Longrightarrow> kept g g'" by (auto simp: new_capture_def)

lemma calm_set_capture: "\<not> is_info v \<Longrightarrow> calm g (set_capture k v g)"
  by (auto simp: calm_def set_capture_def split: option.splits)

lemma calm_via: "kept g g1 \<Longrightarrow> calm g1 r \<Longrightarrow> calm g r"
  by (auto simp: calm_def intro: kept_trans)

lemma calm_run_now: "calm g (run_now j g)"
  by (cases j) (auto simp: run_now_def calm_set_capture kept_send calm_def [of _ "(_, [])"])

lemma calm_once_with: "calm g (run j g) \<Longrightarrow> calm g (once_with run s j g)"
  by (auto simp: once_with_def calm_def kept_def jobs_ahead_def)

lemma calm_run_job: "calm g (run_job j g)"
  by (cases j) (simp_all add: run_job_def calm_run_now calm_once_with)

lemma calm_once: "calm g (once s j g)"
  by (simp add: once_def calm_once_with calm_run_job)

lemma calm_run_jobs: "calm g (run_jobs js g)"
proof (induction js arbitrary: g)
  case Nil
  then show ?case by (simp add: calm_def)
next
  case (Cons j js)
  then show ?case using calm_run_job [of g j] by (auto simp: calm_def split: prod.splits intro: kept_trans) (metis fst_conv snd_conv kept_trans)+
qed

lemma sent_grows: "set (gr_sent g) \<subseteq> set (gr_sent (fst (run_job j g)))"
  by (cases j) (auto simp: run_job_def run_now_def once_with_def send_def set_capture_def split: option.splits)

lemma sent_grows_jobs: "set (gr_sent g) \<subseteq> set (gr_sent (fst (run_jobs js g)))"
proof (induction js arbitrary: g)
  case (Cons j js)
  have "set (gr_sent (fst (run_job j g))) \<subseteq> set (gr_sent (fst (run_jobs js (fst (run_job j g)))))" by (rule Cons)
  then show ?case using sent_grows [of g j] by (auto split: prod.splits)
qed simp

lemma run_jobs_sends: "Get_info m \<in> set js \<Longrightarrow> Get_info m \<in> set (gr_sent (fst (run_jobs js g)))"
proof (induction js arbitrary: g)
  case (Cons j js)
  show ?case
  proof (cases "j = Get_info m")
    case True
    have "Get_info m \<in> set (gr_sent (fst (run_job j g)))" by (simp add: True run_job_def run_now_def send_def)
    then show ?thesis using sent_grows_jobs [of "fst (run_job j g)" js] by (auto split: prod.splits)
  next
    case False
    then have "Get_info m \<in> set (gr_sent (fst (run_jobs js (fst (run_job j g)))))" using Cons by simp
    then show ?thesis by (auto split: prod.splits)
  qed
qed simp

lemma calm_state_listener: "calm g (state_listener s g)"
proof -
  let ?g = "g\<lparr>gr_state := s, gr_queue := filter (\<lambda>(t, _). t \<noteq> s) (gr_queue g)\<rparr>"
  let ?js = "map snd (filter (\<lambda>(t, _). t = s) (gr_queue g))"
  have c: "calm ?g (run_jobs ?js ?g)" by (rule calm_run_jobs)
  have "Get_info m \<in> jobs_ahead (fst (run_jobs ?js ?g))" if m: "Get_info m \<in> jobs_ahead g" for m
  proof (cases "s = Zk_connected \<and> (s, Get_info m) \<in> set (gr_queue g)")
    case True
    then have "Get_info m \<in> set ?js" by force
    then show ?thesis using run_jobs_sends by (fastforce simp: jobs_ahead_def)
  next
    case False
    then have "Get_info m \<in> jobs_ahead ?g" using m by (auto simp: jobs_ahead_def)
    then show ?thesis using c by (auto simp: calm_def kept_def)
  qed
  then show ?thesis using c by (simp add: state_listener_def calm_def kept_def)
qed

lemma group_ok_kept: "group_ok g \<Longrightarrow> kept g g' \<Longrightarrow> group_ok g'"
  by (fastforce simp: group_ok_def kept_def member_ids_def future_ok_def split: if_splits)

lemma waiting_kept: "kept g g' \<Longrightarrow> waiting g' = waiting g"
  by (simp add: kept_def waiting_def)

lemma calm_balanced: "group_ok g \<Longrightarrow> calm g r \<Longrightarrow> balanced g {#} (quiet r)"
  by (auto simp: balanced_def quiet_def calm_def waiting_kept intro: group_ok_kept)

lemma calm_balancedI: "group_ok g \<Longrightarrow> calm g (g', calls) \<Longrightarrow> balanced g {#} (g', calls, e)"
  by (auto simp: balanced_def calm_def waiting_kept intro: group_ok_kept)

lemma kept_balancedI: "group_ok g \<Longrightarrow> kept g g' \<Longrightarrow> balanced g {#} (g', [], e)"
  by (auto simp: balanced_def waiting_kept intro: group_ok_kept)

lemma balanced_then:
  assumes "balanced g q (g1, c1, None)" "balanced g1 p (g2, c2, e)"
  shows "balanced g (q + p) (g2, c1 @ c2, e)"
  using assms by (auto simp: balanced_def add.assoc add.left_commute) (metis add.assoc add.commute)

section \<open>One member changes\<close>

lemma update_waiters:
  "distinct (map fst ms) \<Longrightarrow>
   mset (concat (map (fu_waiters \<circ> snd) (AList.update m f ms))) + (case map_of ms m of None \<Rightarrow> {#} | Some f0 \<Rightarrow> mset (fu_waiters f0))
     = mset (concat (map (fu_waiters \<circ> snd) ms)) + mset (fu_waiters f)"
  by (induction ms) (auto simp: ac_simps split: option.splits)

lemma delete_waiters:
  "distinct (map fst ms) \<Longrightarrow>
   mset (concat (map (fu_waiters \<circ> snd) (AList.delete m ms))) + (case map_of ms m of None \<Rightarrow> {#} | Some f0 \<Rightarrow> mset (fu_waiters f0))
     = mset (concat (map (fu_waiters \<circ> snd) ms))"
proof (induction ms)
  case (Cons p ms)
  obtain k f where p: "p = (k, f)" by force
  show ?case
  proof (cases "k = m")
    case True
    then have "m \<notin> set (map fst ms)" using Cons.prems p by auto
    then have "AList.delete m ms = ms" by (simp add: delete_idem)
    then show ?thesis using True p by (simp add: ac_simps)
  next
    case False
    then show ?thesis using Cons p by (simp add: ac_simps)
  qed
qed simp

lemma waiters_the_future: "(case map_of (gr_members g) m of None \<Rightarrow> {#} | Some f \<Rightarrow> mset (fu_waiters f)) = mset (fu_waiters (the_future m g))"
  by (simp add: the_future_def new_future_def split: option.splits)

lemma waiting_put: "distinct (member_ids g) \<Longrightarrow> waiting (put_member m f g) + mset (fu_waiters (the_future m g)) = waiting g + mset (fu_waiters f)"
  using update_waiters [of "gr_members g" m f] by (simp add: waiting_def put_member_def member_ids_def waiters_the_future)

lemma waiting_drop: "distinct (member_ids g) \<Longrightarrow> waiting (drop_member m g) + mset (fu_waiters (the_future m g)) = waiting g"
  using delete_waiters [of "gr_members g" m] by (simp add: waiting_def drop_member_def member_ids_def waiters_the_future)

lemma jobs_ahead_put [simp]: "jobs_ahead (put_member m f g) = jobs_ahead g" "jobs_ahead (drop_member m g) = jobs_ahead g"
  by (simp_all add: jobs_ahead_def put_member_def drop_member_def)

lemma group_ok_put:
  assumes "group_ok_with {Get_info m} g" "future_ok (jobs_ahead g) m f"
  shows "group_ok (put_member m f g)"
proof -
  have "distinct (map fst (AList.update m f (gr_members g)))"
    using assms(1) by (simp add: group_ok_with_def member_ids_def distinct_update)
  moreover have "future_ok (jobs_ahead g) k x" if "(k, x) \<in> set (AList.update m f (gr_members g))" for k x
  proof (cases "k = m")
    case True
    then have "x = f" using that calculation by (metis map_of_eq_Some_iff map_of_is_SomeI update_Some_unfold)
    then show ?thesis using True assms(2) by simp
  next
    case False
    then have "(k, x) \<in> set (gr_members g)"
      using that calculation assms(1) by (metis group_ok_with_def member_ids_def map_of_eq_Some_iff update_Some_unfold)
    then show ?thesis using assms(1) False by (auto simp: group_ok_with_def future_ok_def split: if_splits)
  qed
  ultimately show ?thesis by (auto simp: group_ok_def member_ids_def put_member_def jobs_ahead_def)
qed

lemma group_ok_drop: "group_ok_with {Get_info m} g \<Longrightarrow> group_ok (drop_member m g)"
  by (auto simp: group_ok_def group_ok_with_def member_ids_def drop_member_def jobs_ahead_def distinct_delete
      future_ok_def AList.delete_eq distinct_map_filter split: if_splits)

lemma group_ok_weaken: "group_ok g \<Longrightarrow> group_ok_with js g"
  by (auto simp: group_ok_def group_ok_with_def future_ok_def split: if_splits)

lemma waiters_settled:
  assumes "group_ok_with js g" "map_of (gr_members g) m = Some f" "fu_state f \<noteq> Running"
  shows "fu_waiters f = []"
  using assms by (auto simp: group_ok_with_def future_ok_def dest!: map_of_SomeD)

lemma group_ok_with_distinct: "group_ok_with js g \<Longrightarrow> distinct (member_ids g)"
  by (simp add: group_ok_with_def)

lemma answered_infos [simp]: "answered (map (\<lambda>c. (c, Info v)) cs) = mset cs"
  by (induction cs) simp_all

lemma exchange:
  fixes a :: "'x multiset"
  assumes "a + x = g + f" "f + c = x + q"
  shows "a + c = g + q"
proof -
  have "a + c + x = g + (f + c)" using assms(1) by (simp add: ac_simps)
  also have "\<dots> = g + q + x" using assms(2) by (simp add: ac_simps)
  finally show ?thesis by simp
qed

lemma set_result_Inr:
  assumes "set_result v f = Inr (f', calls)"
  shows "fu_state f' = Settled_to v" "fu_waiters f' = []" "answered calls = mset (fu_waiters f)"
  using assms by (auto simp: set_result_def split: progress.splits)

lemma set_result_Inl: "set_result v f = Inl e \<Longrightarrow> \<exists>w. fu_state f = Settled_to w"
  by (auto simp: set_result_def split: progress.splits)

lemma the_future_waiters:
  assumes "group_ok_with js g" "fu_state (the_future m g) \<noteq> Running"
  shows "fu_waiters (the_future m g) = []"
  using assms by (auto simp: the_future_def new_future_def waiters_settled split: option.splits)

lemma settle_put_balanced:
  assumes ok: "group_ok_with {Get_info m} g" and r: "set_result v (the_future m g) = Inr (f, calls)"
  shows "balanced g {#} (put_member m f g, calls, e)"
proof -
  have "group_ok (put_member m f g)"
    using ok set_result_Inr [OF r] by (intro group_ok_put) (auto simp: future_ok_def)
  then show ?thesis
    using waiting_put [OF group_ok_with_distinct [OF ok], of m f] set_result_Inr [OF r] by (simp add: balanced_def)
qed

lemma settle_popped_balanced:
  assumes ok: "group_ok_with {Get_info m} g"
  shows "balanced g {#} (settle_popped m g)"
proof (cases "map_of (gr_members g) m")
  case None
  then have "m \<notin> set (member_ids g)" by (simp add: map_of_eq_None_iff member_ids_def)
  then have "drop_member m g = g" by (simp add: drop_member_def member_ids_def delete_idem)
  then show ?thesis using None group_ok_drop [OF ok] by (simp add: settle_popped_def balanced_def)
next
  case (Some f)
  then have f: "the_future m g = f" by (simp add: the_future_def)
  have w: "waiting (drop_member m g) + mset (fu_waiters f) = waiting g"
    using waiting_drop [OF group_ok_with_distinct [OF ok], of m] f by simp
  show ?thesis
  proof (cases "set_result Gone f")
    case (Inl e)
    then have "fu_waiters f = []" using ok Some waiters_settled set_result_Inl by fastforce
    then show ?thesis using Some Inl w group_ok_drop [OF ok] by (simp add: settle_popped_def balanced_def)
  next
    case (Inr p)
    obtain f' calls where p: "p = (f', calls)" by force
    then show ?thesis using Some Inr w group_ok_drop [OF ok] set_result_Inr(3) [of Gone f f' calls]
      by (simp add: settle_popped_def balanced_def)
  qed
qed

lemma info_balanced:
  assumes ok: "group_ok g"
  shows "balanced g (if m = error_id then {#} else case c of None \<Rightarrow> {#} | Some x \<Rightarrow> {#x#}) (info m c g)"
proof (cases "m = error_id")
  case True
  then show ?thesis using ok by (simp add: info_def balanced_def)
next
  case False
  let ?f = "the_future m g"
  obtain f calls where aw: "add_waiter c ?f = (f, calls)" by force
  have w: "mset (fu_waiters f) + answered calls = mset (fu_waiters ?f) + (case c of None \<Rightarrow> {#} | Some x \<Rightarrow> {#x#})"
    and st: "fu_state f = fu_state ?f"
    using aw by (auto simp: add_waiter_def split: option.splits progress.splits)
  have d: "distinct (member_ids g)" using ok by (simp add: group_ok_def)
  have okw: "group_ok_with {Get_info m} g" using ok by (rule group_ok_weaken)
  show ?thesis
  proof (cases "fu_state f = Pending")
    case True
    let ?g = "put_member m (f\<lparr>fu_state := Running\<rparr>) g"
    let ?h = "send (Get_info m) g"
    have "group_ok_with {Get_info m} ?h" using ok group_ok_kept [OF ok kept_send] by (intro group_ok_weaken)
    then have "group_ok (put_member m (f\<lparr>fu_state := Running\<rparr>) ?h)"
      by (rule group_ok_put) (simp add: future_ok_def jobs_ahead_def send_def)
    moreover have "put_member m (f\<lparr>fu_state := Running\<rparr>) ?h = send (Get_info m) ?g" by (simp add: put_member_def send_def)
    moreover have "waiting (send (Get_info m) ?g) = waiting ?g" by (simp add: waiting_def send_def)
    moreover have "waiting ?g + mset (fu_waiters ?f) = waiting g + mset (fu_waiters f)"
      using waiting_put [OF d, of m "f\<lparr>fu_state := Running\<rparr>"] by simp
    ultimately show ?thesis using True False aw exchange [OF _ w] by (simp add: info_def balanced_def)
  next
    case np: False
    have "future_ok (jobs_ahead g) m f"
    proof (cases "fu_state f = Running")
      case True
      then have "map_of (gr_members g) m = Some ?f" using st by (auto simp: the_future_def new_future_def split: option.splits)
      then have "Get_info m \<in> jobs_ahead g" using ok True st by (auto simp: group_ok_def future_ok_def dest!: map_of_SomeD)
      then show ?thesis using True by (simp add: future_ok_def)
    next
      case False
      then obtain v where v: "fu_state ?f = Settled_to v" using np st False by (cases "fu_state ?f") auto
      then have "f = ?f" using aw by (auto simp: add_waiter_def split: option.splits)
      then show ?thesis using the_future_waiters [OF okw, of m] v by (simp add: future_ok_def)
    qed
    then have "group_ok (put_member m f g)" by (rule group_ok_put [OF okw])
    moreover have "waiting (put_member m f g) + mset (fu_waiters ?f) = waiting g + mset (fu_waiters f)"
      using waiting_put [OF d, of m f] by simp
    ultimately show ?thesis using np False aw exchange [OF _ w] by (simp add: info_def balanced_def)
  qed
qed

section \<open>The completions keep the balance\<close>

lemma balanced_group_ok: "balanced g q (g', calls, e) \<Longrightarrow> group_ok g'"
  by (simp add: balanced_def)

lemma balanced_error: "balanced g q (g', calls, e) \<Longrightarrow> balanced g q (g', calls, e')"
  by (simp add: balanced_def)

lemma balanced_kept:
  assumes "balanced g q (g1, c1, e1)" "calm g1 (g2, c2)"
  shows "balanced g q (g2, c1 @ c2, e)"
  using assms waiting_kept [of g1 g2] group_ok_kept [of g1 g2] by (simp add: balanced_def calm_def)

lemma requeued:
  assumes "group_ok_with {Get_info m} g"
  shows "balanced g {#} (fst (once Zk_connected (Get_info m) g), snd (once Zk_connected (Get_info m) g), e)"
proof -
  have c: "calm g (once Zk_connected (Get_info m) g)" by (rule calm_once)
  have "Get_info m \<in> jobs_ahead (fst (once Zk_connected (Get_info m) g))"
    by (simp add: once_def once_with_def run_job_def run_now_def send_def jobs_ahead_def)
  then have "group_ok (fst (once Zk_connected (Get_info m) g))"
    using assms c
    by (fastforce simp: group_ok_def group_ok_with_def calm_def kept_def member_ids_def future_ok_def split: if_splits)
  then show ?thesis using c by (simp add: balanced_def calm_def waiting_kept)
qed

lemma info_completion_balanced:
  assumes ok: "group_ok_with {Get_info m} g"
  shows "balanced g {#} (info_completion m r g)"
proof (cases r)
  case (Gives b)
  show ?thesis
  proof (cases "map_of (gr_members g) m")
    case None
    then have "drop_member m g = g" by (simp add: drop_member_def member_ids_def map_of_eq_None_iff delete_idem)
    then have "group_ok g" using group_ok_drop [OF ok] by simp
    then show ?thesis using Gives None by (simp add: info_completion_def balanced_def)
  next
    case (Some f)
    then have f: "the_future m g = f" by (simp add: the_future_def)
    show ?thesis
    proof (cases "set_result (Content b) f")
      case (Inl e)
      then obtain v where v: "fu_state f = Settled_to v" using set_result_Inl by blast
      have "group_ok g" unfolding group_ok_def
      proof (intro conjI ballI, goal_cases)
        case 1 show ?case using ok by (simp add: group_ok_with_def)
      next
        case (2 p)
        obtain k x where p: "p = (k, x)" by force
        have d: "distinct (map fst (gr_members g))" using ok by (simp add: group_ok_with_def member_ids_def)
        have "future_ok (jobs_ahead g \<union> {Get_info m}) k x" using ok 2 p by (auto simp: group_ok_with_def)
        moreover have "k = m \<Longrightarrow> x = f" using 2 p Some d by (metis map_of_is_SomeI option.inject)
        ultimately show ?case using p v by (auto simp: future_ok_def split: if_splits)
      qed
      then show ?thesis using Gives Some Inl by (simp add: info_completion_def balanced_def)
    next
      case (Inr p)
      obtain f' calls where p: "p = (f', calls)" by force
      then have "balanced g {#} (put_member m f' g, calls, None)" using Inr f by (intro settle_put_balanced [OF ok]) simp
      then show ?thesis using Gives Some Inr p by (simp add: info_completion_def)
    qed
  qed
next
  case Disconnected
  then show ?thesis using requeued [OF ok] by (simp add: info_completion_def case_prod_beta)
qed (simp_all add: info_completion_def settle_popped_balanced [OF ok])

lemma drop_left_balanced: "group_ok g \<Longrightarrow> balanced g {#} (drop_left ms g)"
proof (induction ms arbitrary: g)
  case Nil
  then show ?case by (simp add: balanced_def)
next
  case (Cons m ms)
  obtain g1 c1 e1 where s: "settle_popped m g = (g1, c1, e1)" by (metis prod_cases3)
  have b: "balanced g {#} (g1, c1, e1)" using settle_popped_balanced [OF group_ok_weaken [OF Cons.prems], of m] s by simp
  show ?case
  proof (cases e1)
    case (Some e)
    then show ?thesis using s b by simp
  next
    case None
    obtain g2 c2 e2 where d: "drop_left ms g1 = (g2, c2, e2)" by (metis prod_cases3)
    have "balanced g1 {#} (g2, c2, e2)" using Cons.IH [OF balanced_group_ok [OF b]] d by simp
    then show ?thesis using balanced_then [OF b [unfolded None]] s d None by simp
  qed
qed

lemma drop_left_members:
  "drop_left ms g = (g', calls, None) \<Longrightarrow> gr_members g' = filter (\<lambda>(m, _). m \<notin> set ms) (gr_members g)"
proof (induction ms arbitrary: g calls)
  case (Cons m ms)
  obtain g1 c1 e1 where s: "settle_popped m g = (g1, c1, e1)" by (metis prod_cases3)
  then have e1: "e1 = None" using Cons.prems by (cases e1) auto
  have m1: "gr_members g1 = filter (\<lambda>(k, _). k \<noteq> m) (gr_members g)"
  proof (cases "map_of (gr_members g) m")
    case None
    then have "g1 = g" using s by (simp add: settle_popped_def)
    moreover have "m \<notin> fst ` set (gr_members g)" using None by (simp add: map_of_eq_None_iff)
    ultimately show ?thesis 
      by (simp, subst filter_True) force+
  next
    case (Some f)
    then have "g1 = drop_member m g" using s by (auto simp: settle_popped_def split: sum.splits prod.splits)
    then show ?thesis by (auto simp: drop_member_def AList.delete_eq intro!: filter_cong)
  qed
  obtain c2 where d: "drop_left ms g1 = (g', c2, None)" using Cons.prems s e1 by (auto split: prod.splits)
  show ?case using Cons.IH [OF d] m1 by (auto intro!: filter_cong)
qed simp

lemma add_new_balanced:
  assumes "group_ok g" "set ms \<inter> set (member_ids g) = {}" "distinct ms"
  shows "balanced g {#} (add_new ms g, [], e)"
  using assms
proof (induction ms arbitrary: g)
  case Nil
  then show ?case by (simp add: add_new_def balanced_def)
next
  case (Cons m ms)
  let ?g = "put_member m new_future g"
  have n: "the_future m g = new_future" using Cons.prems(2) by (simp add: the_future_def member_ids_def map_of_eq_None_iff [THEN iffD2])
  have "group_ok ?g" using Cons.prems(1) by (intro group_ok_put) (auto simp: group_ok_weaken future_ok_def new_future_def)
  moreover have "waiting ?g = waiting g" using waiting_put [of g m new_future] Cons.prems(1) n by (simp add: group_ok_def)
  ultimately have b: "balanced g {#} (?g, [], None)" by (simp add: balanced_def)
  have "set (member_ids ?g) = insert m (set (member_ids g))"
    by (simp add: member_ids_def put_member_def dom_update)
  then have "balanced ?g {#} (add_new ms ?g, [], e)" using Cons \<open>group_ok ?g\<close> by (intro Cons.IH) auto
  then show ?case using balanced_then [OF b] by (simp add: add_new_def)
qed

lemma child_ids_distinct: "child_ids children = Inr ids \<Longrightarrow> distinct ids"
  by (auto simp: child_ids_def rbind_Inr_iff)

lemma update_children_balanced:
  assumes ok: "group_ok g" and d: "distinct ids"
  shows "balanced g {#} (update_children arr ids g)"
proof -
  obtain g1 c1 e1 where l: "drop_left (members_left arr ids g) g = (g1, c1, e1)" by (metis prod_cases3)
  have b: "balanced g {#} (g1, c1, e1)" using drop_left_balanced [OF ok, of "members_left arr ids g"] l by simp
  show ?thesis
  proof (cases e1)
    case (Some e)
    then show ?thesis using l b by (simp add: update_children_def)
  next
    case None
    have m: "gr_members g1 = filter (\<lambda>(m, _). m \<notin> set (members_left arr ids g)) (gr_members g)"
      using drop_left_members l None by blast
    have "set (members_new arr ids g) \<inter> set (member_ids g1) = {}" "distinct (members_new arr ids g)"
      using d by (auto simp: members_new_def member_ids_def m)
    then have "balanced g1 {#} (add_new (members_new arr ids g) g1, [], None)"
      using balanced_group_ok [OF b] by (intro add_new_balanced) auto
    then show ?thesis using balanced_then [OF b [unfolded None], of "{#}" _ "[]"] l None by (simp add: update_children_def)
  qed
qed

lemma fetch_infos_balanced: "group_ok g \<Longrightarrow> balanced g {#} (fst (fetch_infos ms g), [], e)"
proof (induction ms arbitrary: g)
  case Nil
  then show ?case by (simp add: balanced_def)
next
  case (Cons m ms)
  obtain g1 c1 e1 where s: "info m None g = (g1, c1, e1)" by (metis prod_cases3)
  have c1: "c1 = []" using s by (auto simp: info_def add_waiter_def split: if_splits)
  have b: "balanced g {#} (g1, [], e1)" using info_balanced [OF Cons.prems, of m None] s c1 by (simp split: if_splits)
  show ?case
  proof (cases e1)
    case (Some x)
    then show ?thesis using s balanced_error [OF b] by simp
  next
    case None
    then show ?thesis using s balanced_then [OF b [unfolded None] Cons.IH [OF balanced_group_ok [OF b]]] by simp
  qed
qed

lemma tell_monitors_exact:
  "tell_monitors ids ms g =
     (g\<lparr>gr_monitors := gr_monitors g @ filter (\<lambda>(current, _). set current = set ids) ms\<rparr>,
      map (\<lambda>(_, c). (c, Members_are ids)) (filter (\<lambda>(current, _). set current \<noteq> set ids) ms))"
  by (induction ids ms g rule: tell_monitors.induct) auto

lemma answered_told [simp]: "answered (map (\<lambda>(_, c). (c, Members_are ids)) ms) = {#}"
  by (induction ms) auto

lemma calm_tell: "calm g (tell_monitors ids ms g)"
  by (simp add: tell_monitors_exact calm_def)

lemma calm_set_different: "calm g (snd (set_different k current g))"
  by (simp add: set_different_def calm_set_capture) (simp add: calm_def)

lemma calm_send: "calm g (send j g, [])"
  by (simp add: calm_def kept_send)

lemma calm_idle [simp]: "calm g (g, [])"
  by (simp add: calm_def)

lemma get_completion_balanced:
  assumes ok: "group_ok g"
  shows "balanced g {#} (get_completion arr w r g)"
proof (cases r)
  case (Gives children)
  show ?thesis
  proof (cases "child_ids children")
    case (Inl e)
    then show ?thesis using Gives ok by (simp add: get_completion_def balanced_def)
  next
    case (Inr ids)
    obtain g1 c1 e1 where u: "update_children arr ids g = (g1, c1, e1)" by (metis prod_cases3)
    have b: "balanced g {#} (g1, c1, e1)"
      using update_children_balanced [OF ok child_ids_distinct [OF Inr], of arr] u by simp
    show ?thesis
    proof (cases e1)
      case (Some e)
      then show ?thesis using Gives Inr u b by (simp add: get_completion_def)
    next
      case None
      show ?thesis
      proof (cases w)
        case (Watching current k)
        obtain t g2 c2 where d: "set_different k current g1 = (t, g2, c2)" by (metis prod_cases3)
        then have "calm g1 (g2, c2)" using calm_set_different [of g1 k current] by simp
        then have "balanced g {#} (g2, c1 @ c2, None)" by (rule balanced_kept [OF b])
        then show ?thesis using Gives Inr u None Watching d by (simp add: get_completion_def)
      next
        case Own_monitor
        obtain g2 e2 where f: "fetch_infos (members_new arr ids g) g1 = (g2, e2)" by force
        have b2: "balanced g {#} (g2, c1, e)" for e
          using balanced_then [OF b [unfolded None] fetch_infos_balanced [OF balanced_group_ok [OF b], of "members_new arr ids g"]] f
          by simp
        obtain g3 c3 where t: "tell_monitors ids (gr_monitors g2) (g2\<lparr>gr_monitors := []\<rparr>) = (g3, c3)" by force
        have "calm g2 (g3, c3)"
          using calm_via [OF kept_fields(2) calm_tell] t by metis
        then have "balanced g {#} (g3, c1 @ c3, None)" by (rule balanced_kept [OF b2])
        then show ?thesis using Gives Inr u None Own_monitor f t b2
          by (cases e2) (simp_all add: get_completion_def)
      qed
    qed
  qed
next
  case Disconnected
  then show ?thesis using calm_balancedI [OF ok, of _ _ None] calm_once [of g Zk_connected "List_children w"]
    by (simp add: get_completion_def case_prod_beta)
next
  case No_node
  then show ?thesis using kept_balancedI [OF ok kept_send] by (simp add: get_completion_def)
next
  case Zk_error
  then show ?thesis using ok calm_balancedI [OF ok, of _ _ None] calm_set_capture [of "Members_are [error_id]" g]
    by (auto simp: get_completion_def case_prod_beta balanced_def [of _ _ "(g, [], None)"] split: monitor.splits)
qed

lemma taken_waiting [simp]: "waiting (g\<lparr>gr_sent := js\<rparr>) = waiting g"
  by (simp add: waiting_def)

lemma taken_ok:
  assumes "group_ok g"
  shows "group_ok_with {j} (g\<lparr>gr_sent := remove1 j (gr_sent g)\<rparr>)"
proof -
  have "jobs_ahead g \<subseteq> jobs_ahead (g\<lparr>gr_sent := remove1 j (gr_sent g)\<rparr>) \<union> {j}"
    by (auto simp: jobs_ahead_def in_set_remove1)
  then show ?thesis using assms by (fastforce simp: group_ok_def group_ok_with_def member_ids_def future_ok_def split: if_splits)
qed

lemma group_ok_with_other: "group_ok_with {j} g \<Longrightarrow> (\<And>m. j \<noteq> Get_info m) \<Longrightarrow> group_ok g"
  by (fastforce simp: group_ok_def group_ok_with_def future_ok_def split: if_splits)

lemma completes_balanced:
  assumes "group_ok g" "completes j f g = Some r"
    and "\<And>h. group_ok_with {j} h \<Longrightarrow> balanced h {#} (f h)"
  shows "balanced g {#} r"
  using assms(2,3) taken_ok [OF assms(1), of j] by (fastforce simp: completes_def balanced_def split: if_splits)

lemma completes_other_balanced:
  assumes "group_ok g" "completes j f g = Some r" "\<And>m. j \<noteq> Get_info m"
    and "\<And>h. group_ok h \<Longrightarrow> balanced h {#} (f h)"
  shows "balanced g {#} r"
  using assms(1,2) by (rule completes_balanced) (use assms(3,4) group_ok_with_other in blast)

lemma completes_calm:
  assumes "group_ok g" "completes j (\<lambda>g. quiet (f g)) g = Some r" "\<And>m. j \<noteq> Get_info m" "\<And>h. calm h (f h)"
  shows "balanced g {#} r"
  using assms(1,2,3) by (rule completes_other_balanced) (simp add: calm_balanced assms(4))

lemma acreate_balanced:
  assumes ok: "group_ok g"
  shows "balanced g {#} (acreate_completion b k x r g)"
proof (cases r)
  case (Gives path)
  show ?thesis
  proof (cases "znode_to_id path")
    case (Inl e)
    then show ?thesis using Gives ok by (simp add: acreate_completion_def balanced_def)
  next
    case (Inr m)
    show ?thesis
    proof (cases "set_result (Content b) (the_future m g)")
      case (Inl e)
      then show ?thesis using Gives Inr ok by (simp add: acreate_completion_def balanced_def)
    next
      case s: (Inr p)
      obtain f calls where p: "p = (f, calls)" by force
      have b1: "balanced g {#} (put_member m f g, calls, None)"
        using settle_put_balanced [OF group_ok_weaken [OF ok]] s p by blast
      define r2 where "r2 = (case x of None \<Rightarrow> (put_member m f g, [])
          | Some x \<Rightarrow> (case once Zk_connected (Notify_expiry x) (put_member m f g) of (g1, c1) \<Rightarrow> (send (Check_node x path) g1, c1)))"
      have "calm (put_member m f g) r2"
        using calm_once [of "put_member m f g" Zk_connected]
        by (auto simp: r2_def calm_def case_prod_beta intro: kept_trans kept_send split: option.splits)
      moreover obtain g2 c2 where r2: "r2 = (g2, c2)" by force
      ultimately have b2: "balanced g {#} (g2, calls @ c2, None)" using balanced_kept [OF b1] by simp
      obtain g3 c3 where c: "set_capture k (Joined_as m) g2 = (g3, c3)" by force
      then have "calm g2 (g3, c3)" using calm_set_capture [of "Joined_as m" g2 k] by simp
      then have "balanced g {#} (g3, (calls @ c2) @ c3, None)" by (rule balanced_kept [OF b2])
      then show ?thesis using Gives Inr s p c r2 by (simp add: acreate_completion_def r2_def [symmetric])
    qed
  qed
qed (use ok calm_once [of g Zk_connected "Create b k x"] calm_set_capture [of "Joined_as error_id" g k] in
   \<open>simp_all add: acreate_completion_def case_prod_beta calm_balancedI\<close>)

lemma kept_captures:
  "kept g (join b c x g)" "kept g (cancel m c g)" "kept g (plain_monitor ms c g)"
  by (auto simp: join_def cancel_def plain_monitor_def intro: kept_trans [OF kept_new_capture] kept_send
      split: prod.splits option.splits) (metis kept_new_capture kept_send kept_trans)+

lemma calm_monitor: "calm g (monitor ms c g)"
  by (simp add: monitor_def calm_def)

lemma check_balanced:
  assumes ok: "group_ok g"
  shows "balanced g {#} (check_completion x p r g)"
  using ok calm_balancedI [OF ok, of _ _ None] calm_once [of g Zk_connected "Check_node x p"] calm_set_capture [of Expired g x]
  by (cases r) (auto simp: check_completion_def case_prod_beta balanced_def [of _ _ "(g, [], _)"])

lemma group_step_balanced:
  assumes "group_ok g" "group_step arr ev g = Some r"
  shows "balanced g (asked ev) r"
proof (cases ev)
  case (Info_done m a)
  then show ?thesis using assms info_completion_balanced by (auto simp: asked_def intro: completes_balanced)
next
  case (Info_call m c)
  then show ?thesis using assms info_balanced [OF assms(1), of m "Some c"] by (auto simp: asked_def)
next
  case (Create_done b k x a)
  then show ?thesis using assms completes_other_balanced [where j = "Create b k x", OF assms(1) _ _ acreate_balanced] by (simp add: asked_def)
next
  case (Check_done x p a)
  then show ?thesis using assms completes_other_balanced [where j = "Check_node x p", OF assms(1) _ _ check_balanced] by (simp add: asked_def)
next
  case (Children_done w a)
  then show ?thesis using assms completes_other_balanced [where j = "List_children w", OF assms(1) _ _ get_completion_balanced]
    by (simp add: asked_def)
next
  case (Remove_done m k a)
  have "calm h (adelete_completion m k a h)" for h
    by (simp add: adelete_completion_def calm_once calm_set_capture split: answer.splits)
  from completes_calm [OF assms(1), where j = "Remove_node m k" and f = "adelete_completion m k a" and r = r, OF _ _ this] show ?thesis
    using Remove_done assms(2) by (simp add: asked_def)
next
  case (Find_done w a)
  have "calm h (exists_completion w a h)" for h
    by (cases a) (simp_all add: exists_completion_def calm_once calm_send)
  from completes_calm [OF assms(1), where j = "Find_node w" and f = "exists_completion w a" and r = r, OF _ _ this] show ?thesis
    using Find_done assms(2) by (simp add: asked_def)
next
  case (Get_watch w ks e)
  have "calm g (get_watch w ks e g)"
  proof (cases w)
    case (Watching current k)
    obtain t g' calls where d: "set_different k current g = (t, g', calls)" by (metis prod_cases3)
    then have "calm g (g', calls)" using calm_set_different [of g k current] by simp
    moreover from this have "calm g (send (List_children w) g', calls)" by (simp add: calm_def kept_trans [OF _ kept_send])
    ultimately show ?thesis using Watching d by (cases t) (simp_all add: get_watch_def calm_send)
  qed (simp add: get_watch_def calm_send)
  then show ?thesis using Get_watch assms by (auto simp: asked_def intro!: calm_balanced)
qed (use assms in \<open>auto simp: asked_def check_watch_def exists_watch_def calm_set_capture calm_def [of _ "(_, [])"]
     intro!: calm_balanced calm_state_listener calm_monitor kept_balancedI kept_captures kept_send\<close>)

fun all_asked :: "(order \<times> ('b, 'c) group_event) list \<Rightarrow> 'c multiset" where
  "all_asked [] = {#}"
| "all_asked ((_, ev) # evs) = asked ev + all_asked evs"

lemma run_balanced:
  assumes "group_ok g" "run_group evs g = Some (g', calls)"
  shows "group_ok g' \<and> waiting g' + answered calls = waiting g + all_asked evs"
  using assms
proof (induction evs arbitrary: g calls)
  case (Cons p evs)
  obtain arr ev where p: "p = (arr, ev)" by force
  obtain g1 c1 e where s: "group_step arr ev g = Some (g1, c1, e)" using Cons.prems p by (auto split: option.splits)
  obtain c2 where r: "run_group evs g1 = Some (g', c2)" "calls = c1 @ c2" using Cons.prems s p by (auto split: option.splits)
  have "balanced g (asked ev) (g1, c1, e)" by (rule group_step_balanced [OF Cons.prems(1) s])
  then have b: "group_ok g1" "waiting g1 + answered c1 = waiting g + asked ev" by (simp_all add: balanced_def)
  have "group_ok g'" "waiting g' + answered c2 = waiting g1 + all_asked evs" using Cons.IH [OF b(1) r(1)] by simp_all
  then show ?case using b(2) r(2) p by simp (metis add.assoc add.commute)
qed simp

section \<open>What the group promises\<close>

text \<open>Over any run, whoever asked for a member has been answered once or still waits, and then its future is running, with
  the request for the member on the way or waiting for the connection: nobody is forgotten and nobody called twice.\<close>

definition attended :: "('b, 'c) kgroup \<Rightarrow> bool" where
  "attended g = list_all (\<lambda>(m, f). fu_waiters f = [] \<or> (fu_state f = Running
      \<and> (Get_info m \<in> set (gr_sent g) \<or> (Zk_connected, Get_info m) \<in> set (gr_queue g)))) (gr_members g)"

lemma group_ok_attended: "group_ok g \<Longrightarrow> attended g"
  by (fastforce simp: group_ok_def attended_def list_all_iff future_ok_def jobs_ahead_def split: if_splits)

text \<open>C15: over any run, whoever asked for a member has been answered once or still waits, and then its future is running,
  with the request for the member on the way or waiting for the connection: nobody is forgotten and nobody called twice.\<close>

theorem info_answered_once:
  "(case run_group evs (active_group s) of
      None \<Rightarrow> True
    | Some (g, calls) \<Rightarrow> answered calls + waiting g = all_asked evs \<and> attended g)"
proof (cases "run_group evs (active_group s)")
  case (Some p)
  obtain g calls where p: "p = (g, calls)" by force
  have "group_ok (active_group s)" by (simp add: active_group_def send_def new_group_def group_ok_def member_ids_def)
  then have "group_ok g \<and> waiting g + answered calls = waiting (active_group s :: ('a, 'b) kgroup) + all_asked evs"
    using run_balanced Some p by fastforce
  moreover have "waiting (active_group s :: ('a, 'b) kgroup) = {#}" by (simp add: active_group_def send_def new_group_def waiting_def)
  ultimately show ?thesis using Some p group_ok_attended by (auto simp: ac_simps)
qed simp

text \<open>A listing of the children that goes through: the members are its members, the monitors that waited for others are told,
  and those that go on waiting have the members of the listing.\<close>

lemma set_capture_fields:
  "gr_monitors (fst (set_capture k v g)) = gr_monitors g" "gr_members (fst (set_capture k v g)) = gr_members g"
  by (simp_all add: set_capture_def split: option.splits)

lemma put_ids: "set (member_ids (put_member m f g)) = insert m (set (member_ids g))"
  by (simp add: member_ids_def put_member_def dom_update)

lemma put_monitors [simp]: "gr_monitors (put_member m f g) = gr_monitors g" "gr_monitors (drop_member m g) = gr_monitors g"
    "gr_monitors (send j g) = gr_monitors g" "member_ids (send j g) = member_ids g"
  by (simp_all add: put_member_def drop_member_def send_def member_ids_def)

lemma add_new_ids: "set (member_ids (add_new ms g)) = set (member_ids g) \<union> set ms \<and> gr_monitors (add_new ms g) = gr_monitors g"
  by (induction ms arbitrary: g) (auto simp: add_new_def put_ids)

lemma drop_left_monitors: "gr_monitors (fst (drop_left ms g)) = gr_monitors g"
proof (induction ms arbitrary: g)
  case (Cons m ms)
  obtain g1 c1 e1 where s: "settle_popped m g = (g1, c1, e1)" by (metis prod_cases3)
  then have "gr_monitors g1 = gr_monitors g" by (auto simp: settle_popped_def split: option.splits sum.splits prod.splits)
  then show ?case using s Cons.IH [of g1] by (cases e1) (auto simp: case_prod_beta)
qed simp

lemma update_children_ids:
  assumes "update_children arr ids g = (g', calls, None)"
  shows "set (member_ids g') = set ids" "gr_monitors g' = gr_monitors g"
proof -
  obtain g1 where d: "drop_left (members_left arr ids g) g = (g1, calls, None)" and g': "g' = add_new (members_new arr ids g) g1"
    using assms by (auto simp: update_children_def split: prod.splits option.splits)
  have "gr_members g1 = filter (\<lambda>(m, _). m \<notin> set (members_left arr ids g)) (gr_members g)" by (rule drop_left_members [OF d])
  then have "set (member_ids g1) = set (member_ids g) \<inter> set ids" by (force simp: member_ids_def members_left_def)
  then show "set (member_ids g') = set ids" by (auto simp: g' add_new_ids members_new_def)
  show "gr_monitors g' = gr_monitors g" using drop_left_monitors [of "members_left arr ids g" g] d by (simp add: g' add_new_ids)
qed

lemma info_ids: "info m c g = (g', calls, None) \<Longrightarrow> set (member_ids g') = insert m (set (member_ids g)) \<and> gr_monitors g' = gr_monitors g"
  by (auto simp: info_def put_ids split: if_splits prod.splits)

lemma fetch_infos_ids:
  "fetch_infos ms g = (g', None) \<Longrightarrow> set (member_ids g') = set (member_ids g) \<union> set ms \<and> gr_monitors g' = gr_monitors g"
proof (induction ms arbitrary: g)
  case (Cons m ms)
  obtain g1 c1 e1 where s: "info m None g = (g1, c1, e1)" by (metis prod_cases3)
  then have e: "e1 = None" using Cons.prems by (cases e1) auto
  then show ?case using Cons s info_ids [of m None g g1 c1] by auto
qed simp

theorem listing_goes_through:
  assumes "get_completion arr Own_monitor (Gives children) g = (g', calls, None)" "child_ids children = Inr ids"
  shows "set (member_ids g') = set ids \<and> gr_monitors g' = filter (\<lambda>(current, _). set current = set ids) (gr_monitors g)"
proof -
  obtain g1 c1 g2 where u: "update_children arr ids g = (g1, c1, None)" and f: "fetch_infos (members_new arr ids g) g1 = (g2, None)"
    and g': "g' = fst (tell_monitors ids (gr_monitors g2) (g2\<lparr>gr_monitors := []\<rparr>))"
    using assms by (auto simp: get_completion_def split: prod.splits option.splits)
  have "set (members_new arr ids g) \<subseteq> set ids" by (auto simp: members_new_def)
  then have "set (member_ids g2) = set ids" "gr_monitors g2 = gr_monitors g"
    using fetch_infos_ids [OF f] update_children_ids [OF u] by auto
  then show ?thesis by (simp add: g' member_ids_def tell_monitors_exact)
qed

text \<open>But a member that left and had been read does not go through: the future of what was read cannot be settled again, and
  neither the new members nor the monitors are reached.  One such member, and the listing is lost on them.\<close>

theorem known_departure_lost:
  assumes "map_of (gr_members g) m = Some f" "fu_state f = Settled_to v" "child_ids children = Inr ids"
    "filter (\<lambda>k. k \<notin> set ids) (member_ids g) = [m]"
  shows "get_completion arr Own_monitor (Gives children) g = (drop_member m g, [], Some (Own InvalidStateError))"
  using assms by (simp add: get_completion_def update_children_def members_left_def settle_popped_def set_result_def)

text \<open>A cancelled member stays among the members, whatever ZooKeeper answered, and what was read of it is still given.\<close>

lemma set_capture_members: "gr_members (fst (once Zk_connected j g)) = gr_members g"
  using calm_once [of g Zk_connected j] by (simp add: calm_def kept_def)

theorem cancel_keeps_member: "gr_members (fst (adelete_completion m k r g)) = gr_members g"
  using set_capture_members [of "Remove_node m k" g] set_capture_fields(2) [of k _ g]
  by (simp add: adelete_completion_def split: answer.splits)

section \<open>Numbers of members and names of nodes\<close>

lemma digits_value_zeros: "digits_value 0 b (replicate k (CHR ''0'') @ ds) = digits_value 0 (b \<or> 0 < k) ds"
  by (induction k arbitrary: b) (auto simp: digit_of_def)

lemma ten_digits_chars: "c \<in> set (ten_digits n) \<Longrightarrow> c \<in> set ''0123456789-''"
  using decimal_chars [of c "nat \<bar>n\<bar>"] by (auto simp: ten_digits_def Let_def split: if_splits)

lemma py_int_ten_digits [simp]: "py_int (ten_digits n) = Some n"
proof -
  let ?d = "decimal (nat \<bar>n\<bar>)"
  have "\<not> blank c" if "c \<in> set (ten_digits n)" for c using ten_digits_chars [OF that] by (auto simp: blank_def)
  then have strip: "rev (dropWhile blank (rev (dropWhile blank (ten_digits n)))) = ten_digits n"
    by (metis dropWhile_none rev_rev_ident set_rev)
  have v: "digits_value 0 False (replicate k (CHR ''0'') @ ?d) = Some \<bar>n\<bar>" for k
    using digits_value_decimal [of 0 "0 < k" "nat \<bar>n\<bar>" "[]"] decimal_nonempty by (simp add: digits_value_zeros)
  show ?thesis
  proof (cases "n < 0")
    case True
    then show ?thesis using v [of "9 - length ?d"] by (simp add: py_int_def strip) (simp add: ten_digits_def Let_def)
  next
    case False
    then have t: "ten_digits n = replicate (10 - length ?d) (CHR ''0'') @ ?d" by (simp add: ten_digits_def Let_def)
    obtain c cs where c: "ten_digits n = c # cs" using decimal_nonempty by (cases "ten_digits n") (auto simp: t)
    have "c \<in> set (replicate (10 - length ?d) (CHR ''0'') @ ?d)" using c t by (metis list.set_intros(1))
    then have "c \<in> set ''0123456789''" using decimal_chars [of c "nat \<bar>n\<bar>"] by (auto split: if_splits)
    then have "py_int (c # cs) = digits_value 0 False (c # cs)" using strip c by (auto simp: py_int_def)
    then show ?thesis using v [of "10 - length ?d"] c t False by simp
  qed
qed

lemma basename_plain: "CHR ''/'' \<notin> set z \<Longrightarrow> basename (p @ CHR ''/'' # z) = z"
proof -
  assume "CHR ''/'' \<notin> set z"
  then have "takeWhile (\<lambda>c. c \<noteq> CHR ''/'') (rev z @ CHR ''/'' # rev p) = rev z"
    by (subst takeWhile_append2) auto
  then show ?thesis by (simp add: basename_def)
qed

lemma znode_no_slash: "CHR ''/'' \<notin> set (id_to_znode n)"
  using ten_digits_chars [of "CHR ''/''" n] by (auto simp: id_to_znode_def member_prefix_def)

theorem member_path_read_back: "znode_to_id (member_path path n) = Inr n"
proof -
  have "member_path path n = (if path \<noteq> [] \<and> last path = CHR ''/'' then butlast path else path) @ CHR ''/'' # id_to_znode n"
    by (cases path rule: rev_cases) (auto simp: member_path_def)
  then obtain p where p: "member_path path n = p @ CHR ''/'' # id_to_znode n" by blast
  have "basename (member_path path n) = id_to_znode n" using p basename_plain [OF znode_no_slash] by simp
  then show ?thesis by (simp add: znode_to_id_def znode_owned_def id_to_znode_def)
qed

section \<open>Who is called\<close>

text \<open>The callbacks a group calls are those it was given: \<open>Pc\<close> holds of the callbacks of captures, \<open>Pw m\<close> of those that wait for \<open>m\<close>.\<close>

definition captures_by :: "('c \<Rightarrow> bool) \<Rightarrow> (nat \<times> 'c) list \<Rightarrow> bool" where
  "captures_by Pc cs = list_all (\<lambda>p. Pc (snd p)) cs"

definition waiters_by :: "(member \<Rightarrow> 'c \<Rightarrow> bool) \<Rightarrow> (member \<times> ('b, 'c) future) list \<Rightarrow> bool" where
  "waiters_by Pw ms = list_all (\<lambda>p. list_all (Pw (fst p)) (fu_waiters (snd p))) ms"

definition proper :: "('c \<Rightarrow> bool) \<Rightarrow> (member \<Rightarrow> 'c \<Rightarrow> bool) \<Rightarrow> ('b, 'c) kgroup \<Rightarrow> bool" where
  "proper Pc Pw g = (captures_by Pc (gr_captures g) \<and> waiters_by Pw (gr_members g))"

lemma captures_by_simps [simp]:
  "captures_by Pc []" "captures_by Pc (cs @ ds) \<longleftrightarrow> captures_by Pc cs \<and> captures_by Pc ds"
  "captures_by Pc (p # cs) \<longleftrightarrow> Pc (snd p) \<and> captures_by Pc cs"
  by (simp_all add: captures_by_def)

lemma captures_by_filter: "captures_by Pc cs \<Longrightarrow> captures_by Pc (filter P cs)"
  by (simp add: captures_by_def list_all_iff)

lemma captures_by_lookup: "captures_by Pc cs \<Longrightarrow> map_of cs k = Some c \<Longrightarrow> Pc c"
  by (induction cs) (auto split: if_splits)

lemma waiters_by_update: "waiters_by Pw ms \<Longrightarrow> list_all (Pw m) (fu_waiters f) \<Longrightarrow> waiters_by Pw (AList.update m f ms)"
  by (induction ms) (simp_all add: waiters_by_def)

lemma waiters_by_delete: "waiters_by Pw ms \<Longrightarrow> waiters_by Pw (AList.delete m ms)"
  by (simp add: waiters_by_def list_all_iff AList.delete_eq)

lemma waiters_by_lookup: "waiters_by Pw ms \<Longrightarrow> map_of ms m = Some f \<Longrightarrow> list_all (Pw m) (fu_waiters f)"
  by (induction ms) (auto simp: waiters_by_def split: if_splits)

definition from_callers :: "('c \<Rightarrow> bool) \<Rightarrow> (member \<Rightarrow> 'c \<Rightarrow> bool) \<Rightarrow> ('b, 'c) calls \<Rightarrow> bool" where
  "from_callers Pc Pw calls = (\<forall>(c, r)\<in>set calls. Pc c \<or> (\<exists>m. Pw m c))"

definition tame :: "('c \<Rightarrow> bool) \<Rightarrow> (member \<Rightarrow> 'c \<Rightarrow> bool) \<Rightarrow> ('b, 'c) kgroup \<Rightarrow> ('b, 'c) kgroup \<times> ('b, 'c) calls \<Rightarrow> bool" where
  "tame Pc Pw g r = (proper Pc Pw g \<longrightarrow>
     proper Pc Pw (fst r) \<and> from_callers Pc Pw (snd r) \<and> gr_monitors (fst r) = gr_monitors g)"

definition tame_out :: "('c \<Rightarrow> bool) \<Rightarrow> (member \<Rightarrow> 'c \<Rightarrow> bool) \<Rightarrow> ('b, 'c) kgroup \<Rightarrow> ('b, 'c) outcome \<Rightarrow> bool" where
  "tame_out Pc Pw g r = tame Pc Pw g (fst r, fst (snd r))"

lemma from_callers_simps [simp]:
  "from_callers Pc Pw []"
  "from_callers Pc Pw (a @ b) \<longleftrightarrow> from_callers Pc Pw a \<and> from_callers Pc Pw b"
  "from_callers Pc Pw (c # a) \<longleftrightarrow> (Pc (fst c) \<or> (\<exists>m. Pw m (fst c))) \<and> from_callers Pc Pw a"
  by (auto simp: from_callers_def)

lemma tame_out_simps [simp]: "tame_out Pc Pw g (g', calls, e) = tame Pc Pw g (g', calls)"
  "tame_out Pc Pw g (quiet r) = tame Pc Pw g r"
  by (simp_all add: tame_out_def quiet_def)

lemma tame_idle [simp]: "tame Pc Pw g (g, [])" by (simp add: tame_def)

lemma tame_then: "tame Pc Pw g (g1, c1) \<Longrightarrow> tame Pc Pw g1 (g2, c2) \<Longrightarrow> tame Pc Pw g (g2, c1 @ c2)"
  by (auto simp: tame_def)

lemma tame_then_idle: "tame Pc Pw g (g1, []) \<Longrightarrow> tame Pc Pw g1 (g2, c2) \<Longrightarrow> tame Pc Pw g (g2, c2)"
  by (auto simp: tame_def)

lemma tame_send [simp]: "tame Pc Pw g (send j g, [])"
  by (simp add: tame_def proper_def send_def)

lemma tame_set_capture: "tame Pc Pw g (set_capture k v g)"
  by (auto simp: tame_def proper_def set_capture_def captures_by_filter dest: captures_by_lookup split: option.splits)

lemma tame_new_capture: "Pc c \<Longrightarrow> new_capture c g = (k, g') \<Longrightarrow> tame Pc Pw g (g', [])"
  by (auto simp: tame_def proper_def new_capture_def)

lemma tame_run_now: "tame Pc Pw g (run_now j g)"
  by (cases j) (simp_all add: run_now_def tame_set_capture)

lemma tame_once_with: "tame Pc Pw g (run j g) \<Longrightarrow> tame Pc Pw g (once_with run s j g)"
  by (auto simp: once_with_def tame_def proper_def)

lemma tame_run_job: "tame Pc Pw g (run_job j g)"
  by (cases j) (simp_all add: run_job_def tame_run_now tame_once_with)

lemma tame_once: "tame Pc Pw g (once s j g)"
  by (simp add: once_def tame_once_with tame_run_job)

lemma tame_run_jobs: "tame Pc Pw g (run_jobs js g)"
proof (induction js arbitrary: g)
  case (Cons j js)
  obtain g1 c1 where s: "run_job j g = (g1, c1)" by force
  obtain g2 c2 where t: "run_jobs js g1 = (g2, c2)" by force
  show ?case using tame_then [of Pc Pw g g1 c1 g2 c2] tame_run_job [of Pc Pw g j] Cons.IH [of g1] s t by simp
qed simp

lemma tame_state_listener: "tame Pc Pw g (state_listener s g)"
  using tame_run_jobs [of Pc Pw "g\<lparr>gr_state := s, gr_queue := filter (\<lambda>(t, _). t \<noteq> s) (gr_queue g)\<rparr>"]
  by (simp add: state_listener_def tame_def proper_def)

lemma tame_put:
  assumes "proper Pc Pw g \<Longrightarrow> list_all (Pw m) (fu_waiters f)"
  shows "tame Pc Pw g (put_member m f g, [])"
  using assms by (simp add: tame_def proper_def put_member_def waiters_by_update)

lemma tame_drop: "tame Pc Pw g (drop_member m g, [])"
  by (simp add: tame_def proper_def drop_member_def waiters_by_delete)

lemma proper_future: "proper Pc Pw g \<Longrightarrow> list_all (Pw m) (fu_waiters (the_future m g))"
  by (auto simp: proper_def the_future_def new_future_def waiters_by_lookup split: option.splits)

lemma tame_calls:
  assumes "tame Pc Pw g (g', [])" "proper Pc Pw g \<Longrightarrow> from_callers Pc Pw calls"
  shows "tame Pc Pw g (g', calls)"
  using assms by (auto simp: tame_def)

lemma from_callers_infos: "list_all (Pw m) cs \<Longrightarrow> from_callers Pc Pw (map (\<lambda>c. (c, Info v)) cs)"
  by (induction cs) auto

lemma set_result_callers:
  assumes "set_result v (the_future m g) = Inr (f, calls)" "proper Pc Pw g"
  shows "from_callers Pc Pw calls" "fu_waiters f = []"
  using assms(1) from_callers_infos [OF proper_future [OF assms(2)]]
  by (auto simp: set_result_def split: progress.splits)

lemma tame_settle_put:
  assumes "set_result v (the_future m g) = Inr (f, calls)"
  shows "tame Pc Pw g (put_member m f g, calls)"
proof (rule tame_calls)
  show "tame Pc Pw g (put_member m f g, [])" by (rule tame_put) (simp add: set_result_callers(2) [OF assms])
  show "from_callers Pc Pw calls" if "proper Pc Pw g" by (rule set_result_callers(1) [OF assms that])
qed

lemma tame_settle_popped: "tame_out Pc Pw g (settle_popped m g)"
proof (cases "map_of (gr_members g) m")
  case None
  then show ?thesis by (simp add: settle_popped_def)
next
  case (Some f)
  then have f: "the_future m g = f" by (simp add: the_future_def)
  show ?thesis
  proof (cases "set_result Gone f")
    case (Inl e)
    then show ?thesis using Some by (simp add: settle_popped_def tame_drop)
  next
    case (Inr p)
    obtain f' calls where p: "p = (f', calls)" by force
    then have r: "set_result Gone (the_future m g) = Inr (f', calls)" using Inr f by simp
    have "tame Pc Pw g (drop_member m g, calls)" by (rule tame_calls [OF tame_drop set_result_callers(1) [OF r]])
    then show ?thesis using Some Inr p by (simp add: settle_popped_def)
  qed
qed

lemma tame_info:
  assumes c: "\<And>x. c = Some x \<Longrightarrow> Pw m x"
  shows "tame_out Pc Pw g (info m c g)"
proof (cases "m = error_id")
  case True
  then show ?thesis by (simp add: info_def)
next
  case False
  obtain f calls where aw: "add_waiter c (the_future m g) = (f, calls)" by force
  have calls: "from_callers Pc Pw calls"
  proof (cases c)
    case (Some x)
    then have "Pw m x" by (rule c)
    then have "\<exists>m. Pw m x" ..
    then show ?thesis using aw Some by (cases "fu_state (the_future m g)") (auto simp: add_waiter_def)
  qed (use aw in \<open>simp add: add_waiter_def\<close>)
  have w: "list_all (Pw m) (fu_waiters f)" if p: "proper Pc Pw g"
  proof (cases c)
    case (Some x)
    then have "Pw m x" by (rule c)
    then show ?thesis using aw Some proper_future [OF p, of m] by (cases "fu_state (the_future m g)") (auto simp: add_waiter_def)
  qed (use aw proper_future [OF p, of m] in \<open>simp add: add_waiter_def\<close>)
  have "tame Pc Pw g (put_member m f g, [])" by (rule tame_put) (rule w)
  then have "tame Pc Pw g (put_member m f g, calls)" by (rule tame_calls) (rule calls)
  moreover have "tame Pc Pw g (put_member m (f\<lparr>fu_state := Running\<rparr>) g, [])" by (rule tame_put) (simp add: w)
  then have "tame Pc Pw g (send (Get_info m) (put_member m (f\<lparr>fu_state := Running\<rparr>) g), calls)"
    by (rule tame_calls [OF tame_then_idle [OF _ tame_send]]) (rule calls)
  ultimately show ?thesis using aw False by (simp add: info_def)
qed

lemma tame_info_completion: "tame_out Pc Pw g (info_completion m r g)"
proof (cases r)
  case (Gives b)
  show ?thesis
  proof (cases "map_of (gr_members g) m")
    case None
    then show ?thesis using Gives by (simp add: info_completion_def)
  next
    case (Some f)
    then have "the_future m g = f" by (simp add: the_future_def)
    then show ?thesis using Gives Some tame_settle_put [of "Content b" m g] by (auto simp: info_completion_def split: sum.splits prod.splits)
  qed
next
  case Disconnected
  then show ?thesis using tame_once [of Pc Pw g Zk_connected "Get_info m"] by (simp add: info_completion_def case_prod_beta)
qed (simp_all add: info_completion_def tame_settle_popped)

lemma tame_captures:
  "Pc c \<Longrightarrow> (\<And>y. x = Some y \<Longrightarrow> Pc y) \<Longrightarrow> tame Pc Pw g (join b c x g, [])"
  "Pc c \<Longrightarrow> tame Pc Pw g (cancel m c g, [])"
  by (auto simp: join_def cancel_def new_capture_def send_def tame_def proper_def split: option.splits)

lemma tame_acreate: "tame_out Pc Pw g (acreate_completion b k x r g)"
proof (cases r)
  case (Gives path)
  show ?thesis
  proof (cases "znode_to_id path")
    case (Inl e)
    then show ?thesis using Gives by (simp add: acreate_completion_def)
  next
    case (Inr m)
    show ?thesis
    proof (cases "set_result (Content b) (the_future m g)")
      case (Inl e)
      then show ?thesis using Gives Inr by (simp add: acreate_completion_def)
    next
      case s: (Inr p)
      obtain f calls where p: "p = (f, calls)" by force
      have t1: "tame Pc Pw g (put_member m f g, calls)" using tame_settle_put s p by blast
      define r2 where "r2 = (case x of None \<Rightarrow> (put_member m f g, [])
          | Some x \<Rightarrow> (case once Zk_connected (Notify_expiry x) (put_member m f g) of (g1, c1) \<Rightarrow> (send (Check_node x path) g1, c1)))"
      obtain g2 c2 where r2: "r2 = (g2, c2)" by force
      have "tame Pc Pw (put_member m f g) (g2, c2)"
      proof (cases x)
        case None
        then show ?thesis using r2 by (simp add: r2_def)
      next
        case (Some y)
        obtain g1 c1 where o1: "once Zk_connected (Notify_expiry y) (put_member m f g) = (g1, c1)" by force
        then have "tame Pc Pw (put_member m f g) (g1, c1)" using tame_once [of Pc Pw "put_member m f g" Zk_connected] by metis
        from tame_then [OF this tame_send] show ?thesis using r2 Some o1 by (auto simp: r2_def)
      qed
      from tame_then [OF t1 this] have t2: "tame Pc Pw g (g2, calls @ c2)" .
      obtain g3 c3 where c: "set_capture k (Joined_as m) g2 = (g3, c3)" by force
      then have "tame Pc Pw g2 (g3, c3)" using tame_set_capture [of Pc Pw g2 k] by metis
      from tame_then [OF t2 this] show ?thesis using Gives Inr s p c r2 by (simp add: acreate_completion_def r2_def [symmetric])
    qed
  qed
qed (use tame_once [of Pc Pw g Zk_connected "Create b k x"] tame_set_capture [of Pc Pw g k] in
   \<open>simp_all add: acreate_completion_def case_prod_beta\<close>)

lemma tame_drop_left: "tame_out Pc Pw g (drop_left ms g)"
proof (induction ms arbitrary: g)
  case (Cons m ms)
  obtain g1 c1 e1 where s: "settle_popped m g = (g1, c1, e1)" by (metis prod_cases3)
  obtain g2 c2 e2 where d: "drop_left ms g1 = (g2, c2, e2)" by (metis prod_cases3)
  have "tame Pc Pw g (g1, c1)" "tame Pc Pw g1 (g2, c2)" using tame_settle_popped [of Pc Pw g m] Cons.IH [of g1] s d by simp_all
  then show ?case using s d tame_then by (cases e1) auto
qed simp

lemma tame_add_new: "tame Pc Pw g (add_new ms g, [])"
proof (induction ms arbitrary: g)
  case (Cons m ms)
  have "tame Pc Pw g (put_member m new_future g, [])" by (intro tame_put) (simp add: new_future_def)
  from tame_then_idle [OF this Cons.IH] show ?case by (simp add: add_new_def)
qed (simp add: add_new_def)

lemma tame_update_children: "tame_out Pc Pw g (update_children arr ids g)"
proof -
  obtain g1 c1 e1 where d: "drop_left (members_left arr ids g) g = (g1, c1, e1)" by (metis prod_cases3)
  have t: "tame Pc Pw g (g1, c1)" using tame_drop_left [of Pc Pw g "members_left arr ids g"] d by simp
  then show ?thesis using d tame_then [OF t tame_add_new] by (cases e1) (simp_all add: update_children_def)
qed

lemma tame_fetch_infos: "tame Pc Pw g (fst (fetch_infos ms g), [])"
proof (induction ms arbitrary: g)
  case (Cons m ms)
  obtain g1 c1 e1 where s: "info m None g = (g1, c1, e1)" by (metis prod_cases3)
  have "c1 = []" using s by (auto simp: info_def add_waiter_def split: if_splits)
  then have "tame Pc Pw g (g1, [])" using tame_info [of None Pw m Pc g] s by simp
  then show ?case using s tame_then_idle [OF _ Cons.IH] by (cases e1) simp_all
qed simp

lemma tame_set_different: "tame Pc Pw g (snd (set_different k current g))"
  by (simp add: set_different_def tame_set_capture)

lemma proper_taken [simp]: "proper Pc Pw (g\<lparr>gr_sent := js\<rparr>) = proper Pc Pw g"
  by (simp add: proper_def)

lemma tame_taken: "tame Pc Pw (g\<lparr>gr_sent := js\<rparr>) r \<Longrightarrow> tame Pc Pw g r"
  by (simp add: tame_def)

lemma tame_completes:
  assumes "completes j f g = Some r" "\<And>h. tame_out Pc Pw h (f h)"
  shows "tame_out Pc Pw g r"
  using assms(1) assms(2) [of "g\<lparr>gr_sent := remove1 j (gr_sent g)\<rparr>"]
  by (auto simp: completes_def tame_out_def intro: tame_taken split: if_splits)

text \<open>The listing for the group's own monitor: it raises, or tells the monitors with other members.\<close>

lemma own_listing:
  assumes "get_completion arr Own_monitor r g = (g', calls, e)"
  shows "tame Pc Pw g (g', calls)
    \<or> (\<exists>g1 c1 ids. tame Pc Pw g (g1, c1) \<and> set (member_ids g1) = set ids
        \<and> g' = g1\<lparr>gr_monitors := filter (\<lambda>(current, _). set current = set ids) (gr_monitors g)\<rparr>
        \<and> calls = c1 @ map (\<lambda>(_, c). (c, Members_are ids)) (filter (\<lambda>(current, _). set current \<noteq> set ids) (gr_monitors g)))"
proof (cases r)
  case (Gives children)
  show ?thesis
  proof (cases "child_ids children")
    case (Inl x)
    then show ?thesis using Gives assms by (simp add: get_completion_def)
  next
    case (Inr ids)
    obtain g1 c1 e1 where u: "update_children arr ids g = (g1, c1, e1)" by (metis prod_cases3)
    have t1: "tame Pc Pw g (g1, c1)" using tame_update_children [of Pc Pw g arr ids] u by simp
    show ?thesis
    proof (cases e1)
      case (Some x)
      then show ?thesis using Gives Inr assms u t1 by (simp add: get_completion_def)
    next
      case None
      obtain g2 e2 where f: "fetch_infos (members_new arr ids g) g1 = (g2, e2)" by force
      have "tame Pc Pw g1 (g2, [])" using tame_fetch_infos [of Pc Pw g1 "members_new arr ids g"] f by simp
      from tame_then [OF t1 this] have t2: "tame Pc Pw g (g2, c1)" by simp
      show ?thesis
      proof (cases e2)
        case (Some x)
        then show ?thesis using Gives Inr assms u None f t2 by (simp add: get_completion_def)
      next
        case n2: None
        have ids: "set (member_ids g2) = set ids" "gr_monitors g2 = gr_monitors g"
          using fetch_infos_ids [OF f [unfolded n2]] update_children_ids [OF u [unfolded None]] by (auto simp: members_new_def)
        have "g' = g2\<lparr>gr_monitors := filter (\<lambda>(current, _). set current = set ids) (gr_monitors g)\<rparr>"
          "calls = c1 @ map (\<lambda>(_, c). (c, Members_are ids)) (filter (\<lambda>(current, _). set current \<noteq> set ids) (gr_monitors g))"
          using Gives Inr assms u None f n2 ids by (simp_all add: get_completion_def tell_monitors_exact)
        then show ?thesis using t2 ids(1) by blast
      qed
    qed
  qed
next
  case Disconnected
  then show ?thesis using assms tame_once [of Pc Pw g Zk_connected "List_children Own_monitor"]
    by (simp add: get_completion_def split: prod.splits)
qed (use assms in \<open>auto simp: get_completion_def\<close>)

lemma tame_get_completion: "tame_out Pc Pw g (get_completion arr (Watching current k) r g)"
proof (cases r)
  case (Gives children)
  show ?thesis
  proof (cases "child_ids children")
    case (Inl x)
    then show ?thesis using Gives by (simp add: get_completion_def)
  next
    case (Inr ids)
    obtain g1 c1 e1 where u: "update_children arr ids g = (g1, c1, e1)" by (metis prod_cases3)
    have t1: "tame Pc Pw g (g1, c1)" using tame_update_children [of Pc Pw g arr ids] u by simp
    obtain t g2 c2 where d: "set_different k current g1 = (t, g2, c2)" by (metis prod_cases3)
    then have "tame Pc Pw g1 (g2, c2)" using tame_set_different [of Pc Pw g1 k current] by simp
    from tame_then [OF t1 this] show ?thesis using Gives Inr u t1 d by (cases e1) (simp_all add: get_completion_def)
  qed
qed (use tame_once [of Pc Pw g Zk_connected "List_children (Watching current k)"] tame_set_capture [of Pc Pw g k] in
   \<open>simp_all add: get_completion_def case_prod_beta\<close>)

text \<open>The callbacks that an event brings.\<close>

definition event_by :: "('c \<Rightarrow> bool) \<Rightarrow> (member \<Rightarrow> 'c \<Rightarrow> bool) \<Rightarrow> ('b, 'c) group_event \<Rightarrow> bool" where
  "event_by Pc Pw ev =
     (case ev of
        Info_call m c \<Rightarrow> Pw m c
      | Join_call b c x \<Rightarrow> Pc c \<and> pred_option Pc x
      | Cancel_call m c \<Rightarrow> Pc c
      | Monitor_call ms c \<Rightarrow> False
      | Plain_monitor_call ms c \<Rightarrow> False
      | Children_done Own_monitor r \<Rightarrow> False
      | _ \<Rightarrow> True)"

lemma tame_group_step:
  assumes "group_step arr ev g = Some r" "event_by Pc Pw ev"
  shows "tame_out Pc Pw g r"
proof (cases ev)
  case (Info_call m c)
  then show ?thesis using assms tame_info [of "Some c" Pw m Pc g] by (auto simp: event_by_def)
next
  case (Info_done m a)
  then show ?thesis using assms tame_completes [OF _ tame_info_completion, of "Get_info m"] by simp
next
  case (Create_done b k x a)
  then show ?thesis using assms tame_completes [OF _ tame_acreate, of "Create b k x"] by simp
next
  case (Check_done x p a)
  have "tame_out Pc Pw h (check_completion x p a h)" for h
    using tame_once [of Pc Pw h Zk_connected "Check_node x p"] tame_set_capture [of Pc Pw h x]
    by (cases a) (simp_all add: check_completion_def case_prod_beta)
  from tame_completes [OF _ this, of "Check_node x p"] show ?thesis using Check_done assms by simp
next
  case (Remove_done m k a)
  have "tame Pc Pw h (adelete_completion m k a h)" for h
    by (cases a) (simp_all add: adelete_completion_def tame_once tame_set_capture)
  then have "tame_out Pc Pw h (quiet (adelete_completion m k a h))" for h by simp
  from tame_completes [OF _ this, of "Remove_node m k"] show ?thesis using Remove_done assms by simp
next
  case (Find_done w a)
  have "tame Pc Pw h (exists_completion w a h)" for h
    by (cases a) (simp_all add: exists_completion_def tame_once)
  then have "tame_out Pc Pw h (quiet (exists_completion w a h))" for h by simp
  from tame_completes [OF _ this, of "Find_node w"] show ?thesis using Find_done assms by simp
next
  case (Children_done w a)
  then obtain current k where "w = Watching current k" using assms(2) by (cases w) (simp_all add: event_by_def)
  then show ?thesis using Children_done assms tame_completes [OF _ tame_get_completion, of "List_children w"] by simp
next
  case (Get_watch w ks e)
  have "tame Pc Pw g (get_watch w ks e g)"
  proof (cases w)
    case (Watching current k)
    obtain t g' calls where d: "set_different k current g = (t, g', calls)" by (metis prod_cases3)
    then have t: "tame Pc Pw g (g', calls)" using tame_set_different [of Pc Pw g k current] by simp
    from tame_then [OF t tame_send] show ?thesis using Watching d t by (cases t) (simp_all add: get_watch_def)
  qed (simp add: get_watch_def)
  then show ?thesis using Get_watch assms by auto
next
  case (Join_call b c x)
  then show ?thesis using assms tame_captures(1) [of Pc c x] by (cases x) (auto simp: event_by_def)
qed (use assms in \<open>auto simp: event_by_def check_watch_def exists_watch_def tame_set_capture tame_state_listener tame_captures\<close>)

end
