(* ===== verification/Serversets.thy ===== *)
theory Serversets
  imports ZkGroup Endpoints Launch
begin

text \<open>
  A server set over an active group, \<^verbatim>\<open>twitter/common/zookeeper/serverset/serverset.py\<close>: the members it knows, with what could
  be read of them, and the callbacks \<^verbatim>\<open>on_join\<close> and \<^verbatim>\<open>on_leave\<close>, whose calls are a log.  The callbacks that the server
  set gives the group are \<open>Sv_monitor\<close> and \<open>Sv_member\<close>; those of other callers of the group are \<open>User\<close>.
\<close>

section \<open>The server set\<close>

datatype listener = Sv_monitor | Sv_member member | User nat

datatype 'i change = Joins member 'i | Leaves member 'i

record ('b, 'i) serverset =
  sv_group :: "('b, listener) kgroup"
  sv_members :: "(member \<times> 'i) list"
  sv_log :: "'i change list"
  sv_raised :: "group_error exn list"

text \<open>What the callback of a member makes of the answer: \<^verbatim>\<open>ServiceInstance.unpack\<close> without a number, which gives \<^verbatim>\<open>None\<close> for the
  error member too, since that is no JSON.  The definitions below take it as \<open>rd\<close>.\<close>

definition read_info :: "(string \<Rightarrow> bool) \<Rightarrow> (string \<Rightarrow> bool) \<Rightarrow> json option info \<Rightarrow> member_instance option" where
  "read_info v4 v6 v = (case v of Content doc \<Rightarrow> unpack v4 v6 doc Jnull | Gone \<Rightarrow> None)"

definition member_callback :: "('b info \<Rightarrow> 'i) \<Rightarrow> member \<Rightarrow> 'b info \<Rightarrow> ('b, 'i) serverset \<Rightarrow> ('b, 'i) serverset" where
  "member_callback rd m v sv = sv\<lparr>sv_members := AList.update m (rd v) (sv_members sv), sv_log := sv_log sv @ [Joins m (rd v)]\<rparr>"

definition member_call :: "('b info \<Rightarrow> 'i) \<Rightarrow> listener \<times> 'b reply \<Rightarrow> ('b, 'i) serverset \<Rightarrow> ('b, 'i) serverset" where
  "member_call rd c sv = (case c of (Sv_member m, Info v) \<Rightarrow> member_callback rd m v sv | _ \<Rightarrow> sv)"

definition leave :: "member \<Rightarrow> ('b, 'i) serverset \<Rightarrow> ('b, 'i) serverset" where
  "leave m sv =
     (case map_of (sv_members sv) m of
        None \<Rightarrow> sv
      | Some i \<Rightarrow> sv\<lparr>sv_members := AList.delete m (sv_members sv), sv_log := sv_log sv @ [Leaves m i]\<rparr>)"

fun ask_infos :: "('b info \<Rightarrow> 'i) \<Rightarrow> member list \<Rightarrow> ('b, 'i) serverset \<Rightarrow> ('b, 'i) serverset \<times> group_error exn option" where
  "ask_infos rd [] sv = (sv, None)"
| "ask_infos rd (m # ms) sv =
     (case info m (Some (Sv_member m)) (sv_group sv) of
        (g, calls, Some e) \<Rightarrow> (sv\<lparr>sv_group := g\<rparr>, Some e)
      | (g, calls, None) \<Rightarrow> ask_infos rd ms (fold (member_call rd) calls (sv\<lparr>sv_group := g\<rparr>)))"

definition known :: "('b, 'i) serverset \<Rightarrow> member list" where
  "known sv = map fst (sv_members sv)"

text \<open>\<^verbatim>\<open>_internal_monitor\<close>: one round, which gives the members to go on with where the group calls back at once.\<close>

definition monitor_round :: "('b info \<Rightarrow> 'i) \<Rightarrow> order \<Rightarrow> member list \<Rightarrow> ('b, 'i) serverset
    \<Rightarrow> ('b, 'i) serverset \<times> group_error exn option \<times> member list option" where
  "monitor_round rd arr ms sv =
     (let old = sort_key arr (filter (\<lambda>m. m \<notin> set ms) (known sv));
          new = sort_key arr (filter (\<lambda>m. m \<notin> set (known sv)) ms)
      in case ask_infos rd new (fold leave old sv) of
           (sv1, Some e) \<Rightarrow> (sv1, Some e, None)
         | (sv1, None) \<Rightarrow>
             (case monitor ms Sv_monitor (sv_group sv1) of
                (g, [(_, Members_are ms')]) \<Rightarrow> (sv1\<lparr>sv_group := g\<rparr>, None, Some ms')
              | (g, _) \<Rightarrow> (sv1\<lparr>sv_group := g\<rparr>, None, None)))"

lemma group_member_call [simp]: "sv_group (fold (member_call rd) calls sv) = sv_group sv"
  by (induction calls arbitrary: sv)
    (auto simp: member_call_def member_callback_def split: listener.splits reply.splits prod.splits)

lemma group_leave [simp]: "sv_group (fold leave ms sv) = sv_group sv"
  by (induction ms arbitrary: sv) (auto simp: leave_def split: option.splits)

lemma ask_infos_ids:
  "ask_infos rd ms sv = (sv', None) \<Longrightarrow> set (member_ids (sv_group sv')) = set (member_ids (sv_group sv)) \<union> set ms"
proof (induction ms arbitrary: sv)
  case (Cons m ms)
  obtain g calls e where s: "info m (Some (Sv_member m)) (sv_group sv) = (g, calls, e)" by (metis prod_cases3)
  then have "e = None" using Cons.prems by (cases e) auto
  then show ?case using Cons s info_ids [of m "Some (Sv_member m)" "sv_group sv" g calls] by auto
qed simp

lemma monitor_round_again:
  assumes "monitor_round rd arr ms sv = (sv', e, Some ms')"
  shows "set ms \<noteq> set (member_ids (sv_group sv)) \<and> set ms' = set (member_ids (sv_group sv'))"
proof -
  define new where "new = sort_key arr (filter (\<lambda>m. m \<notin> set (known sv)) ms)"
  define sv0 where "sv0 = fold leave (sort_key arr (filter (\<lambda>m. m \<notin> set ms) (known sv))) sv"
  obtain sv1 where a: "ask_infos rd new sv0 = (sv1, None)"
    using assms by (auto simp: monitor_round_def new_def sv0_def Let_def split: prod.splits option.splits)
  have ids: "set (member_ids (sv_group sv1)) = set (member_ids (sv_group sv)) \<union> set new"
    using ask_infos_ids [OF a] by (simp add: sv0_def)
  have "set ms \<noteq> set (member_ids (sv_group sv1)) \<and> ms' = member_ids (sv_group sv1) \<and> sv_group sv' = sv_group sv1"
    using assms a by (auto simp: monitor_round_def new_def [symmetric] sv0_def [symmetric] Let_def monitor_def split: if_splits)
  then show ?thesis using ids by (auto simp: new_def)
qed

function internal_monitor :: "('b info \<Rightarrow> 'i) \<Rightarrow> order \<Rightarrow> member list \<Rightarrow> ('b, 'i) serverset \<Rightarrow> ('b, 'i) serverset \<times> group_error exn option" where
  "internal_monitor rd arr ms sv =
     (case monitor_round rd arr ms sv of
        (sv', e, None) \<Rightarrow> (sv', e)
      | (sv', e, Some ms') \<Rightarrow> internal_monitor rd arr ms' sv')"
  by auto
termination
  by (relation "measure (\<lambda>(rd, arr, ms, sv). if set ms = set (member_ids (sv_group sv)) then 0 else 1)")
    (auto dest: monitor_round_again [OF sym])

declare internal_monitor.simps [simp del]

text \<open>The callbacks of a step, in their order; what the monitor raises stays in the thread of the client of ZooKeeper.\<close>

fun handle_calls :: "('b info \<Rightarrow> 'i) \<Rightarrow> order \<Rightarrow> ('b, listener) calls \<Rightarrow> ('b, 'i) serverset \<Rightarrow> ('b, 'i) serverset" where
  "handle_calls rd arr [] sv = sv"
| "handle_calls rd arr (c # cs) sv =
     handle_calls rd arr cs
       (case c of
          (Sv_monitor, Members_are ms) \<Rightarrow>
            (case internal_monitor rd arr ms sv of
               (sv', None) \<Rightarrow> sv' | (sv', Some e) \<Rightarrow> sv'\<lparr>sv_raised := sv_raised sv' @ [e]\<rparr>)
        | _ \<Rightarrow> member_call rd c sv)"

text \<open>Others use the group to join, cancel and ask; the monitor is the server set's own.\<close>

fun by_user :: "('b, nat) group_event \<Rightarrow> ('b, listener) group_event option" where
  "by_user (Monitor_call ms c) = None"
| "by_user (Plain_monitor_call ms c) = None"
| "by_user ev = Some (map_group_event id User ev)"

definition serverset_step :: "('b info \<Rightarrow> 'i) \<Rightarrow> order \<Rightarrow> ('b, nat) group_event \<Rightarrow> ('b, 'i) serverset \<Rightarrow> ('b, 'i) serverset option" where
  "serverset_step rd arr ev sv =
     (case by_user ev of
        None \<Rightarrow> None
      | Some ev' \<Rightarrow> (case group_step arr ev' (sv_group sv) of
                      None \<Rightarrow> None
                    | Some (g, calls, _) \<Rightarrow> Some (handle_calls rd arr calls (sv\<lparr>sv_group := g\<rparr>))))"

text \<open>\<^verbatim>\<open>ServerSet.__init__\<close> with a callback, and the runs after it.\<close>

definition new_serverset :: "('b info \<Rightarrow> 'i) \<Rightarrow> connection \<Rightarrow> ('b, 'i) serverset" where
  "new_serverset rd s =
     fst (internal_monitor rd (\<lambda>_. 0) [] \<lparr>sv_group = active_group s, sv_members = [], sv_log = [], sv_raised = []\<rparr>)"

fun run_serverset :: "('b info \<Rightarrow> 'i) \<Rightarrow> (order \<times> ('b, nat) group_event) list \<Rightarrow> ('b, 'i) serverset \<Rightarrow> ('b, 'i) serverset option" where
  "run_serverset rd [] sv = Some sv"
| "run_serverset rd ((arr, ev) # evs) sv =
     (case serverset_step rd arr ev sv of None \<Rightarrow> None | Some sv' \<Rightarrow> run_serverset rd evs sv')"

section \<open>The log of the callbacks\<close>

text \<open>What the callbacks tell whoever keeps the members by them; a leave must be of a known member, as it joined.\<close>

fun replay_changes :: "'i change list \<Rightarrow> (member \<Rightarrow> 'i option) \<Rightarrow> (member \<Rightarrow> 'i option) option" where
  "replay_changes [] ms = Some ms"
| "replay_changes (Joins m i # cs) ms = replay_changes cs (ms(m := Some i))"
| "replay_changes (Leaves m i # cs) ms = (if ms m = Some i then replay_changes cs (ms(m := None)) else None)"

definition log_ok :: "('b, 'i) serverset \<Rightarrow> bool" where
  "log_ok sv = (distinct (known sv) \<and> replay_changes (sv_log sv) (\<lambda>_. None) = Some (map_of (sv_members sv)))"







lemma log_ok_group [simp]: "log_ok (sv\<lparr>sv_group := g\<rparr>) = log_ok sv" "log_ok (sv\<lparr>sv_raised := es\<rparr>) = log_ok sv"
  by (simp_all add: log_ok_def known_def)





lemma handle_other:
  assumes "\<nexists>ms. c = (Sv_monitor, Members_are ms)"
  shows "handle_calls rd arr (c # calls) sv = handle_calls rd arr calls (member_call rd c sv)"
proof -
  obtain l r where c: "c = (l, r)" by force
  show ?thesis
  proof (cases l)
    case Sv_monitor
    then show ?thesis using assms c by (cases r) simp_all
  qed (simp_all add: c)
qed


lemma run_serverset_keeps:
  assumes "\<And>arr ev sv sv'. I sv \<Longrightarrow> serverset_step rd arr ev sv = Some sv' \<Longrightarrow> I sv'"
  shows "I sv \<Longrightarrow> run_serverset rd evs sv = Some sv' \<Longrightarrow> I sv'"
proof (induction evs arbitrary: sv)
  case (Cons p evs)
  obtain arr ev where p: "p = (arr, ev)" by force
  obtain sv1 where s: "serverset_step rd arr ev sv = Some sv1" "run_serverset rd evs sv1 = Some sv'"
    using Cons.prems(2) p by (auto split: option.splits)
  show ?case using Cons.IH [OF assms [OF Cons.prems(1) s(1)] s(2)] .
qed simp


section \<open>The members follow the monitor\<close>

definition by_others :: "listener \<Rightarrow> bool" where
  "by_others c = (case c of User _ \<Rightarrow> True | _ \<Rightarrow> False)"

definition for_member :: "member \<Rightarrow> listener \<Rightarrow> bool" where
  "for_member m c = (case c of User _ \<Rightarrow> True | Sv_member k \<Rightarrow> k = m | Sv_monitor \<Rightarrow> False)"

text \<open>The members asked for and not answered yet.\<close>

definition outstanding :: "('b, listener) kgroup \<Rightarrow> member set" where
  "outstanding g = {m. Sv_member m \<in># waiting g}"

abbreviation group_fine :: "('b, listener) kgroup \<Rightarrow> bool" where
  "group_fine g \<equiv> group_ok g \<and> proper by_others for_member g"

lemma outstanding_members:
  assumes "proper by_others for_member g"
  shows "outstanding g \<subseteq> set (member_ids g)"
proof
  fix m assume "m \<in> outstanding g"
  then obtain k f where f: "(k, f) \<in> set (gr_members g)" "Sv_member m \<in> set (fu_waiters f)"
    by (auto simp: outstanding_def waiting_def)
  then have "for_member k (Sv_member m)" using assms by (auto simp: proper_def waiters_by_def list_all_iff)
  then show "m \<in> set (member_ids g)" using f(1) by (force simp: for_member_def member_ids_def)
qed

lemma monitors_frame [simp]:
  "group_ok (g\<lparr>gr_monitors := ms\<rparr>) = group_ok g" "proper Pc Pw (g\<lparr>gr_monitors := ms\<rparr>) = proper Pc Pw g"
  "outstanding (g\<lparr>gr_monitors := ms\<rparr>) = outstanding g" "member_ids (g\<lparr>gr_monitors := ms\<rparr>) = member_ids g"
  "waiting (g\<lparr>gr_monitors := ms\<rparr>) = waiting g"
  by (simp_all add: group_ok_def proper_def outstanding_def waiting_def member_ids_def jobs_ahead_def)

definition answered_members :: "('b, listener) calls \<Rightarrow> member set" where
  "answered_members calls = {m. Sv_member m \<in># answered calls}"

lemma balanced_outstanding:
  assumes "balanced g q (g', calls, e)"
  shows "outstanding g' \<union> answered_members calls = outstanding g \<union> {m. Sv_member m \<in># q}"
proof -
  have "waiting g' + answered calls = waiting g + q" using assms by (simp add: balanced_def)
  then have "set_mset (waiting g') \<union> set_mset (answered calls) = set_mset (waiting g) \<union> set_mset q" by (metis set_mset_union)
  then show ?thesis by (auto simp: outstanding_def answered_members_def)
qed

lemma known_calls:
  "set (known (fold (member_call rd) calls sv)) = set (known sv) \<union> answered_members calls"
proof (induction calls arbitrary: sv)
  case Nil
  then show ?case by (simp add: answered_members_def)
next
  case (Cons c calls)
  obtain l r where c: "c = (l, r)" by force
  have "set (known (member_call rd c sv)) = set (known sv) \<union> answered_members [c]"
    by (cases l; cases r)
      (simp_all add: c member_call_def member_callback_def known_def dom_update answered_members_def)
  moreover have "answered_members (c # calls) = answered_members [c] \<union> answered_members calls"
    by (auto simp: answered_members_def c)
  ultimately show ?case using Cons.IH [of "member_call rd c sv"] by auto
qed

lemma raised_calls [simp]: "sv_raised (fold (member_call rd) calls sv) = sv_raised sv"
  by (induction calls arbitrary: sv)
    (auto simp: member_call_def member_callback_def split: listener.splits reply.splits prod.splits)

lemma known_leaves: "set (known (fold leave ms sv)) = set (known sv) - set ms"
proof (induction ms arbitrary: sv)
  case (Cons m ms)
  have "set (known (leave m sv)) = set (known sv) - {m}"
    by (force simp: leave_def known_def AList.delete_eq map_of_eq_None_iff split: option.splits)
  then show ?case using Cons.IH [of "leave m sv"] by auto
qed simp

lemma raised_leaves [simp]: "sv_raised (fold leave ms sv) = sv_raised sv"
  by (induction ms arbitrary: sv) (auto simp: leave_def split: option.splits)

lemma known_group [simp]: "known (sv\<lparr>sv_group := g\<rparr>) = known sv" by (simp add: known_def)

lemma ask_infos_follow:
  assumes "group_fine (sv_group sv)" "ask_infos rd ms sv = (sv', e)"
  shows "group_fine (sv_group sv') \<and> gr_monitors (sv_group sv') = gr_monitors (sv_group sv) \<and> sv_raised sv' = sv_raised sv
    \<and> (e = None \<longrightarrow> set (known sv') \<union> outstanding (sv_group sv') = set (known sv) \<union> outstanding (sv_group sv) \<union> set ms)"
  using assms
proof (induction ms arbitrary: sv)
  case (Cons m ms)
  obtain g calls e1 where s: "info m (Some (Sv_member m)) (sv_group sv) = (g, calls, e1)" by (metis prod_cases3)
  have b: "balanced (sv_group sv) (if m = error_id then {#} else {#Sv_member m#}) (g, calls, e1)"
    using info_balanced [of "sv_group sv" m "Some (Sv_member m)"] Cons.prems(1) s by (cases "m = error_id") simp_all
  have "tame by_others for_member (sv_group sv) (g, calls)"
    using tame_info [of "Some (Sv_member m)" for_member m by_others "sv_group sv"] s by (simp add: for_member_def)
  then have t: "proper by_others for_member g" "gr_monitors g = gr_monitors (sv_group sv)"
    using Cons.prems(1) by (simp_all add: tame_def)
  have fine: "group_fine g" using b t by (simp add: balanced_def)
  show ?case
  proof (cases e1)
    case (Some x)
    then show ?thesis using Cons.prems(2) s fine t by auto
  next
    case None
    then have m: "m \<noteq> error_id" using s by (auto simp: info_def)
    let ?sv = "fold (member_call rd) calls (sv\<lparr>sv_group := g\<rparr>)"
    have r: "ask_infos rd ms ?sv = (sv', e)" using Cons.prems(2) s None by simp
    have "set (known ?sv) \<union> outstanding g = set (known sv) \<union> outstanding (sv_group sv) \<union> {m}"
      using balanced_outstanding [OF b] m known_calls [of rd calls "sv\<lparr>sv_group := g\<rparr>"] by auto
    then show ?thesis using Cons.IH [OF _ r] fine t by auto
  qed
qed simp

lemma round_follows:
  assumes "group_fine (sv_group sv)" "gr_monitors (sv_group sv) = []" "set ms = set (member_ids (sv_group sv))"
    "monitor_round rd arr ms sv = (sv', e, again)"
  shows "again = None \<and> group_fine (sv_group sv') \<and> sv_raised sv' = sv_raised sv
    \<and> (case e of None \<Rightarrow> gr_monitors (sv_group sv') = [(ms, Sv_monitor)] \<and> set ms = set (known sv') \<union> outstanding (sv_group sv')
        | Some _ \<Rightarrow> gr_monitors (sv_group sv') = [])"
proof -
  define new where "new = sort_key arr (filter (\<lambda>m. m \<notin> set (known sv)) ms)"
  define old where "old = sort_key arr (filter (\<lambda>m. m \<notin> set ms) (known sv))"
  let ?sv = "fold leave old sv"
  obtain sv1 e1 where a: "ask_infos rd new ?sv = (sv1, e1)" by force
  have f: "group_fine (sv_group sv1)" "gr_monitors (sv_group sv1) = []" "sv_raised sv1 = sv_raised sv"
    "e1 = None \<Longrightarrow> set (known sv1) \<union> outstanding (sv_group sv1) = set (known ?sv) \<union> outstanding (sv_group sv) \<union> set new"
    using ask_infos_follow [OF _ a] assms(1,2) by simp_all
  show ?thesis
  proof (cases e1)
    case (Some x)
    then show ?thesis using assms(4) a f by (cases e) (simp_all add: monitor_round_def new_def [symmetric] old_def [symmetric])
  next
    case None
    have "set new \<subseteq> set (member_ids (sv_group sv))" using assms(3) by (auto simp: new_def)
    then have same: "set (member_ids (sv_group sv1)) = set ms" using ask_infos_ids [of rd new ?sv sv1] a None assms(3) by auto
    have "outstanding (sv_group sv) \<subseteq> set ms" using outstanding_members assms(1,3) by blast
    moreover have "set (known ?sv) = set (known sv) \<inter> set ms" by (auto simp: known_leaves old_def)
    ultimately have "set (known sv1) \<union> outstanding (sv_group sv1) = set ms" using f(4) None by (auto simp: new_def)
    then show ?thesis using assms(4) a None f(1-3) same
      by (auto simp: monitor_round_def new_def [symmetric] old_def [symmetric] monitor_def)
  qed
qed

definition follows :: "('b, 'i) serverset \<Rightarrow> bool" where
  "follows sv =
     (group_fine (sv_group sv)
      \<and> (case sv_raised sv of
           [] \<Rightarrow> (\<exists>ms. gr_monitors (sv_group sv) = [(ms, Sv_monitor)] \<and> set ms = set (known sv) \<union> outstanding (sv_group sv))
         | _ \<Rightarrow> gr_monitors (sv_group sv) = []))"

lemma handle_tame:
  "from_callers by_others for_member calls \<Longrightarrow> handle_calls rd arr calls sv = fold (member_call rd) calls sv"
proof (induction calls arbitrary: sv)
  case (Cons c calls)
  then have "fst c \<noteq> Sv_monitor" by (auto simp: by_others_def for_member_def)
  then have "handle_calls rd arr (c # calls) sv = handle_calls rd arr calls (member_call rd c sv)" by (intro handle_other) auto
  then show ?case using Cons by simp
qed simp

lemma handle_append: "handle_calls rd arr (a @ b) sv = handle_calls rd arr b (handle_calls rd arr a sv)"
  by (induction a arbitrary: sv) (simp_all del: handle_calls.simps(2) add: handle_calls.simps(2))

lemma follows_monitor:
  assumes "group_fine (sv_group sv)" "gr_monitors (sv_group sv) = []" "set ms = set (member_ids (sv_group sv))" "sv_raised sv = []"
  shows "follows (handle_calls rd arr [(Sv_monitor, Members_are ms)] sv)"
proof -
  obtain sv' e again where r: "monitor_round rd arr ms sv = (sv', e, again)" by (metis prod_cases3)
  note f = round_follows [OF assms(1-3) r]
  then have "internal_monitor rd arr ms sv = (sv', e)" using r by (subst internal_monitor.simps) simp
  then show ?thesis using f assms(4) by (cases e) (simp_all add: follows_def)
qed

lemma follows_tame:
  assumes "follows sv" "balanced (sv_group sv) q (g, calls, e)" "tame by_others for_member (sv_group sv) (g, calls)"
    "\<And>m. Sv_member m \<notin># q"
  shows "follows (fold (member_call rd) calls (sv\<lparr>sv_group := g\<rparr>))"
proof -
  have t: "proper by_others for_member g" "gr_monitors g = gr_monitors (sv_group sv)"
    using assms(1,3) by (simp_all add: tame_def follows_def)
  have "group_ok g" using assms(2) by (simp add: balanced_def)
  moreover have "set (known (fold (member_call rd) calls (sv\<lparr>sv_group := g\<rparr>))) \<union> outstanding g = set (known sv) \<union> outstanding (sv_group sv)"
    using balanced_outstanding [OF assms(2)] assms(4) known_calls [of rd calls "sv\<lparr>sv_group := g\<rparr>"] by auto
  ultimately show ?thesis using assms(1) t by (simp add: follows_def split: list.splits)
qed

lemma asked_by_user: "by_user ev = Some ev' \<Longrightarrow> Sv_member m \<notin># asked ev'"
  by (cases ev) (auto simp: asked_def split: if_splits)

lemma event_by_user:
  assumes "by_user ev = Some ev'" "\<nexists>r. ev' = Children_done Own_monitor r"
  shows "event_by by_others for_member ev'"
proof (cases ev)
  case (Join_call b c x)
  then show ?thesis using assms(1) by (cases x) (auto simp: event_by_def by_others_def)
qed (use assms in \<open>auto simp: event_by_def by_others_def for_member_def split: monitor.splits\<close>)

lemma follows_listing:
  assumes "follows sv" "group_step arr (Children_done Own_monitor r) (sv_group sv) = Some (g, calls, e)"
  shows "follows (handle_calls rd arr calls (sv\<lparr>sv_group := g\<rparr>))"
proof -
  have ok: "group_ok (sv_group sv)" using assms(1) by (simp add: follows_def)
  have b: "balanced (sv_group sv) {#} (g, calls, e)" using group_step_balanced [OF ok assms(2)] by (simp add: asked_def)
  let ?h = "(sv_group sv)\<lparr>gr_sent := remove1 (List_children Own_monitor) (gr_sent (sv_group sv))\<rparr>"
  have "get_completion arr Own_monitor r ?h = (g, calls, e)" using assms(2) by (simp add: completes_def split: if_splits)
  from own_listing [OF this, of by_others for_member]
  consider (tame) "tame by_others for_member (sv_group sv) (g, calls)"
    | (told) g1 c1 ids where "tame by_others for_member (sv_group sv) (g1, c1)" "set (member_ids g1) = set ids"
        "g = g1\<lparr>gr_monitors := filter (\<lambda>(current, _). set current = set ids) (gr_monitors (sv_group sv))\<rparr>"
        "calls = c1 @ map (\<lambda>(_, c). (c, Members_are ids)) (filter (\<lambda>(current, _). set current \<noteq> set ids) (gr_monitors (sv_group sv)))"
    using tame_taken by fastforce
  then show ?thesis
  proof cases
    case tame
    then have "from_callers by_others for_member calls" using assms(1) by (simp add: tame_def follows_def)
    then show ?thesis using follows_tame [OF assms(1) b tame] by (simp add: handle_tame)
  next
    case told
    have t: "proper by_others for_member g1" "from_callers by_others for_member c1" "gr_monitors g1 = gr_monitors (sv_group sv)"
      using told(1) assms(1) by (simp_all add: tame_def follows_def)
    have infos: "answered_members calls = answered_members c1" by (simp add: told(4) answered_members_def)
    let ?sv = "fold (member_call rd) c1 (sv\<lparr>sv_group := g\<rparr>)"
    have known: "set (known ?sv) \<union> outstanding g1 = set (known sv) \<union> outstanding (sv_group sv)"
      using balanced_outstanding [OF b] infos known_calls [of rd c1 "sv\<lparr>sv_group := g\<rparr>"] told(3) by auto
    have fine: "group_fine g" using b t(1) told(3) by (simp add: balanced_def)
    have first: "handle_calls rd arr calls (sv\<lparr>sv_group := g\<rparr>) = handle_calls rd arr (drop (length c1) calls) ?sv"
      using t(2) by (simp add: told(4) handle_append handle_tame)
    show ?thesis
    proof (cases "sv_raised sv")
      case (Cons x xs)
      then have "gr_monitors (sv_group sv) = []" using assms(1) by (simp add: follows_def)
      then show ?thesis using first told fine Cons by (simp add: follows_def)
    next
      case Nil
      then obtain ms where ms: "gr_monitors (sv_group sv) = [(ms, Sv_monitor)]" "set ms = set (known sv) \<union> outstanding (sv_group sv)"
        using assms(1) by (auto simp: follows_def)
      show ?thesis
      proof (cases "set ms = set ids")
        case True
        then show ?thesis using first told fine Nil ms known by (simp add: follows_def)
      next
        case False
        then have "handle_calls rd arr calls (sv\<lparr>sv_group := g\<rparr>) = handle_calls rd arr [(Sv_monitor, Members_are ids)] ?sv"
          using first told(4) ms by simp
        moreover have "follows (handle_calls rd arr [(Sv_monitor, Members_are ids)] ?sv)"
          using fine told(2,3) ms False Nil by (intro follows_monitor) simp_all
        ultimately show ?thesis by simp
      qed
    qed
  qed
qed

lemma follows_step:
  assumes "follows sv" "serverset_step rd arr ev sv = Some sv'"
  shows "follows sv'"
proof -
  obtain ev' g calls e where s: "by_user ev = Some ev'" "group_step arr ev' (sv_group sv) = Some (g, calls, e)"
    "sv' = handle_calls rd arr calls (sv\<lparr>sv_group := g\<rparr>)"
    using assms(2) by (auto simp: serverset_step_def split: option.splits)
  have ok: "group_ok (sv_group sv)" using assms(1) by (simp add: follows_def)
  show ?thesis
  proof (cases "\<exists>r. ev' = Children_done Own_monitor r")
    case True
    then show ?thesis using follows_listing [OF assms(1)] s by blast
  next
    case False
    have t: "tame by_others for_member (sv_group sv) (g, calls)"
      using tame_group_step [OF s(2) event_by_user [OF s(1) False]] by simp
    then have "from_callers by_others for_member calls" using assms(1) by (simp add: tame_def follows_def)
    then show ?thesis
      using follows_tame [OF assms(1) group_step_balanced [OF ok s(2)] t] asked_by_user [OF s(1)] s(3) by (simp add: handle_tame)
  qed
qed

text \<open>C10: unless its monitor has raised, which takes a node with the number of the error member, a server set waits for a
  change of just the members it was last told; those it knows, and those it has asked for and got no answer on, are these.\<close>

theorem serverset_follows_monitor:
  "(case run_serverset rd evs (new_serverset rd s) of
      None \<Rightarrow> True
    | Some sv \<Rightarrow>
        (case sv_raised sv of
           [] \<Rightarrow> (\<exists>ms. gr_monitors (sv_group sv) = [(ms, Sv_monitor)] \<and> set ms = set (known sv) \<union> outstanding (sv_group sv))
         | _ \<Rightarrow> gr_monitors (sv_group sv) = []))"
proof -
  let ?sv = "\<lparr>sv_group = active_group s, sv_members = [], sv_log = [], sv_raised = []\<rparr> :: ('a, 'b) serverset"
  obtain sv' e again where r: "monitor_round rd (\<lambda>_. 0) [] ?sv = (sv', e, again)" by (metis prod_cases3)
  have "group_fine (sv_group ?sv)"
    by (simp add: active_group_def send_def new_group_def group_ok_def member_ids_def proper_def waiters_by_def)
  then have f: "again = None \<and> group_fine (sv_group sv') \<and> sv_raised sv' = sv_raised ?sv
    \<and> (case e of None \<Rightarrow> gr_monitors (sv_group sv') = [([], Sv_monitor)] \<and> set [] = set (known sv') \<union> outstanding (sv_group sv')
        | Some _ \<Rightarrow> gr_monitors (sv_group sv') = [])"
    by (intro round_follows [OF _ _ _ r]) (simp_all add: active_group_def send_def new_group_def member_ids_def)
  have "e = None" using r by (auto simp: monitor_round_def known_def split: prod.splits list.splits reply.splits)
  moreover have "new_serverset rd s = sv'" unfolding new_serverset_def using r f by (subst internal_monitor.simps) simp
  ultimately have init: "follows (new_serverset rd s)" using f by (simp add: follows_def)
  have "follows sv" if "run_serverset rd evs (new_serverset rd s) = Some sv" for sv 
    by (rule run_serverset_keeps [where I = follows, OF _ init that]) (rule follows_step)
  then show ?thesis by (cases "run_serverset rd evs (new_serverset rd s)") (simp_all add: follows_def)
qed

section \<open>Listing the server set\<close>

text \<open>The group that is taken for a client of Kazoo: the active one where somebody wants to be called.\<close>

datatype group_class = Kazoo_group | Active_kazoo_group

definition pick_kazoo_group :: "bool \<Rightarrow> bool \<Rightarrow> bool \<Rightarrow> group_class option" where
  "pick_kazoo_group is_kazoo on_join on_leave =
     (if \<not> is_kazoo then None else if \<not> on_join \<and> \<not> on_leave then Some Kazoo_group else Some Active_kazoo_group)"

text \<open>\<^verbatim>\<open>__iter__\<close>, with what asking for each member gave; and \<^verbatim>\<open>join\<close>, the document that is announced.\<close>

definition list_instances :: "(string \<Rightarrow> bool) \<Rightarrow> (string \<Rightarrow> bool) \<Rightarrow> (member \<Rightarrow> json option info) \<Rightarrow> member list
    \<Rightarrow> member_instance option list" where
  "list_instances v4 v6 infos ms =
     map (\<lambda>m. case infos m of Content doc \<Rightarrow> unpack v4 v6 doc (Jint m) | Gone \<Rightarrow> None) ms"

definition join_serverset :: "address \<Rightarrow> (string \<times> address) list \<Rightarrow> int option \<Rightarrow> listener \<Rightarrow> listener option
    \<Rightarrow> (json option, listener) kgroup \<Rightarrow> (json option, listener) kgroup" where
  "join_serverset e additional shard c expire g = join (Some (instance_to_dict (joined_instance e additional shard))) c expire g"

text \<open>What the client of the scheduler sees of an instance, through \<^verbatim>\<open>getattr\<close>: nothing of \<^verbatim>\<open>None\<close>.\<close>

definition as_service :: "member_instance option \<Rightarrow> service_instance" where
  "as_service i =
     (case i of
        None \<Rightarrow> \<lparr>si_additional = [], si_service = None\<rparr>
      | Some i \<Rightarrow> \<lparr>si_additional = map (\<lambda>(name, a). (name, ad_host a, show_int (ad_port a))) (in_additional i),
                   si_service = Some (ad_host (in_service i), show_int (ad_port (in_service i)))\<rparr>)"

text \<open>The URI the client makes of a leader that joined the server set, from the document it announced.\<close>

definition uri_at :: "string \<Rightarrow> address \<Rightarrow> string" where
  "uri_at scheme a = scheme @ ''://'' @ ad_host a @ '':'' @ show_int (ad_port a)"

definition leader_uri :: "address \<Rightarrow> (string \<times> address) list \<Rightarrow> string" where
  "leader_uri e additional =
     (case map_of additional ''https'' of
        Some a \<Rightarrow> uri_at ''https'' a
      | None \<Rightarrow> (case map_of additional ''http'' of Some a \<Rightarrow> uri_at ''http'' a | None \<Rightarrow> uri_at ''http'' e))"

lemma map_of_texts: "map_of (map (\<lambda>(name, a). (name, f a)) xs) k = map_option f (map_of xs k)"
  by (induction xs) auto

theorem leader_found:
  "resolve (Some (map as_service (list_instances v4 v6
      (infos(m := Content (Some (instance_to_dict (joined_instance e additional shard))))) (m # ms))))
     = Inr (if instance_ok v4 v6 (joined_instance e additional shard) then Some (leader_uri e additional) else None)"
proof -
  have u: "unpack v4 v6 (Some (instance_to_dict (joined_instance e additional shard))) (Jint m)
      = (if instance_ok v4 v6 (joined_instance e additional shard) then Some (joined_instance e additional shard\<lparr>in_member := Some m\<rparr>) else None)"
    using announced_is_read [of v4 v6 "joined_instance e additional shard" "Some m"] by (simp add: int_or_null_def)
  show ?thesis
  proof (cases "instance_ok v4 v6 (joined_instance e additional shard)")
    case False
    then show ?thesis using u by (simp add: list_instances_def as_service_def resolve_def)
  next
    case True
    then show ?thesis using u
      by (simp add: list_instances_def as_service_def resolve_def leader_uri_def uri_at_def uri_of_def joined_instance_def
          map_of_texts split: option.splits)
  qed
qed

section \<open>Runs\<close>

text \<open>A member that is asked for when the set changes again is asked for again, and joins twice.\<close>

definition sample_listing :: "member list \<Rightarrow> ('b, nat) group_event" where
  "sample_listing ms = Children_done Own_monitor (Gives (map id_to_znode ms))"

definition sample_changed :: "('b, nat) group_event" where
  "sample_changed = Get_watch Own_monitor Keeper_connected Child_event"

definition sample_run :: "(unit, nat) group_event list \<Rightarrow> unit info change list option" where
  "sample_run evs = map_option sv_log (run_serverset id (map (\<lambda>ev. (nat, ev)) evs) (new_serverset id Zk_connected))"

theorem joins_twice:
  "sample_run [sample_listing [1], sample_changed, sample_listing [1, 2], Info_done 1 (Gives ()), Info_done 2 (Gives ())]
     = Some [Joins 1 (Content ()), Joins 1 (Content ()), Joins 2 (Content ())]"
  by code_simp

text \<open>A member that is gone before it could be read joins as what \<^verbatim>\<open>unpack\<close> makes of the error member, and leaves later.\<close>

theorem joins_gone:
  "sample_run [sample_listing [1], Info_done 1 No_node, sample_changed, sample_listing []] = Some [Joins 1 Gone, Leaves 1 Gone]"
  by code_simp

text \<open>A member that was read leaves without anybody being told: the listing that lacks it is lost, and so is the next member in it;
  both are found at the next one.\<close>

theorem departure_told_late:
  "sample_run [sample_listing [1], Info_done 1 (Gives ()), sample_changed, sample_listing [2]] = Some [Joins 1 (Content ())]
   \<and> sample_run [sample_listing [1], Info_done 1 (Gives ()), sample_changed, sample_listing [2], sample_changed, sample_listing [2],
       Info_done 2 (Gives ())]
     = Some [Joins 1 (Content ()), Leaves 1 (Content ()), Joins 2 (Content ())]"
  by code_simp

end
