(* ===== verification/Pages.thy ===== *)
theory Pages
  imports TaskAnswers JobConfig
begin

text \<open>
  The pages of the observer, \<^verbatim>\<open>apache/thermos/observer/http\<close>: the handlers of \<^verbatim>\<open>json.py\<close>, \<^verbatim>\<open>http_observer.py\<close> and
  \<^verbatim>\<open>file_browser.py\<close> as what they make of the answers of the observer, and the chunks of a file.  A handler gives a page,
  the error 404, or raises.  The templates, which write the pages, are output.
\<close>

datatype 'a served = Page 'a | Not_found | Raises pyexc

fun serve :: "pyexc + 'a \<Rightarrow> ('a \<Rightarrow> 'b served) \<Rightarrow> 'b served" where
  "serve (Inl e) f = Raises e"
| "serve (Inr x) f = f x"

section \<open>Parameters\<close>

definition int_arg :: "string \<Rightarrow> pyexc + int" where
  "int_arg s = (case py_int s of None \<Rightarrow> Inl ValueError | Some n \<Rightarrow> Inr n)"

text \<open>A comma separated list of tasks is decoded with \<^verbatim>\<open>urllib.unquote\<close>, which is not there in Python 3.\<close>

definition task_ids_arg :: "string option \<Rightarrow> pyexc + string list" where
  "task_ids_arg v = (case v of Some (c # cs) \<Rightarrow> Inl AttributeError | _ \<Rightarrow> Inr [])"

section \<open>The JSON handlers\<close>

definition handle_json_task_ids :: "observer \<Rightarrow> string list \<Rightarrow> (string \<Rightarrow> rat option) \<Rightarrow> string option \<Rightarrow> string option \<Rightarrow> string option
    \<Rightarrow> pyexc + main_page" where
  "handle_json_task_ids ob keys mtime which offset num =
     rbind (case offset of None \<Rightarrow> Inr 0 | Some s \<Rightarrow> int_arg s) (\<lambda>o1.
     rbind (case num of None \<Rightarrow> Inr 20 | Some s \<Rightarrow> int_arg s) (\<lambda>n.
       main_of ob keys mtime which (Some o1) (Some n)))"

definition handle_json_task_id_count :: "observer \<Rightarrow> string list \<Rightarrow> nat \<times> nat \<times> nat" where
  "handle_json_task_id_count ob keys = (task_count ob keys Active_tasks, task_count ob keys Finished_tasks, task_count ob keys All_tasks)"

definition handle_json_tasks :: "(string \<Rightarrow> pyexc + task_info option) \<Rightarrow> string option \<Rightarrow> pyexc + (string \<times> task_info) list" where
  "handle_json_tasks info v = rbind (task_ids_arg v) (tasks_of info)"

definition handle_json_task :: "(string \<Rightarrow> pyexc + task_info option) \<Rightarrow> string \<Rightarrow> pyexc + (string \<times> task_info) list" where
  "handle_json_task info i = tasks_of info [i]"

text \<open>\<^verbatim>\<open>process\<close> turns the run into a number only when the process is known; every process has a name.\<close>

definition handle_json_process :: "observer \<Rightarrow> (string \<Rightarrow> runner_state) \<Rightarrow> (string \<Rightarrow> string \<Rightarrow> pyexc + process_sample) \<Rightarrow> string
    \<Rightarrow> string option \<Rightarrow> string option \<Rightarrow> pyexc + (process_tuple \<times> process_sample option) option" where
  "handle_json_process ob states by_process i process run =
     (case process of
        None \<Rightarrow> Inr None
      | Some name \<Rightarrow>
          (case headed_state ob states i of
             None \<Rightarrow> Inr None
           | Some (_, st) \<Rightarrow>
               if rs_processes st (Some name) = None then Inr None
               else rbind (case run of None \<Rightarrow> Inr None | Some s \<Rightarrow> rbind (int_arg s) (\<lambda>n. Inr (Some n)))
                      (process_used ob states by_process i name)))"

definition handle_json_processes :: "(string \<Rightarrow> pyexc + 'p) \<Rightarrow> string option \<Rightarrow> pyexc + (string \<times> 'p) list" where
  "handle_json_processes processes v =
     rbind (task_ids_arg v) (traverse (\<lambda>i. rbind (processes i) (\<lambda>p. Inr (i, p))))"

section \<open>The pages of tasks\<close>

definition handle_main :: "observer \<Rightarrow> string list \<Rightarrow> (string \<Rightarrow> rat option) \<Rightarrow> string option \<Rightarrow> string option \<Rightarrow> string option
    \<Rightarrow> main_page served" where
  "handle_main ob keys mtime type offset num =
     (if \<not> (type = None \<or> (\<exists>t\<in>{''all'', ''finished'', ''active''}. type = Some t)) then Not_found
      else let number = (\<lambda>v. case v of None \<Rightarrow> Some None | Some s \<Rightarrow> map_option Some (py_int s)) in
        case number offset of
          None \<Rightarrow> Not_found
        | Some o1 \<Rightarrow> (case number num of
                       None \<Rightarrow> Not_found
                     | Some n \<Rightarrow> serve (main_of ob keys mtime type o1 n) Page))"

definition get_task :: "(string \<Rightarrow> pyexc + task_info option) \<Rightarrow> string \<Rightarrow> task_info served" where
  "get_task info i = serve (info i) (\<lambda>t. case t of None \<Rightarrow> Not_found | Some d \<Rightarrow> Page d)"

record 'p task_page =
  tp_task :: task_info
  tp_statuses :: "(string \<times> rat) list"
  tp_processes :: "(string \<times> 'p) list"
  tp_chroot :: string
  tp_launch_time :: rat
  tp_hostname :: string

text \<open>\<open>processes\<close> is what \<^verbatim>\<open>_processes\<close> gives for the task; a task without processes is not found.\<close>

definition handle_task :: "observer \<Rightarrow> (string \<Rightarrow> runner_state) \<Rightarrow> (string \<Rightarrow> pyexc + task_info option) \<Rightarrow> (string \<Rightarrow> pyexc + (string \<times> 'p) list)
    \<Rightarrow> string \<Rightarrow> 'p task_page served" where
  "handle_task ob states info processes i =
     (case get_task info i of
        Not_found \<Rightarrow> Not_found
      | Raises e \<Rightarrow> Raises e
      | Page t \<Rightarrow>
          serve (processes i) (\<lambda>ps.
            if ps = [] then Not_found
            else serve (task_statuses ob states i) (\<lambda>ss.
              (case task_state_dict ob states i of
                 None \<Rightarrow> Page \<lparr>tp_task = t, tp_statuses = ss, tp_processes = ps, tp_chroot = [], tp_launch_time = 0, tp_hostname = ''localhost''\<rparr>
               | Some (_, launch, sandbox, host, _) \<Rightarrow>
                   Page \<lparr>tp_task = t, tp_statuses = ss, tp_processes = ps, tp_chroot = sandbox, tp_launch_time = launch, tp_hostname = host\<rparr>))))"

text \<open>The raw task: the host and the configuration, here the information about the task.\<close>

definition handle_rawtask :: "observer \<Rightarrow> (string \<Rightarrow> runner_state) \<Rightarrow> (string \<Rightarrow> pyexc + task_info option) \<Rightarrow> string \<Rightarrow> (string \<times> task_info) served" where
  "handle_rawtask ob states info i =
     (case get_task info i of
        Not_found \<Rightarrow> Not_found
      | Raises e \<Rightarrow> Raises e
      | Page t \<Rightarrow> Page (case task_state_dict ob states i of None \<Rightarrow> ''localhost'' | Some (_, _, _, host, _) \<Rightarrow> host, t))"

record process_page =
  pp_state :: process_state
  pp_cmdline :: string
  pp_used :: "process_sample option"
  pp_runs :: "(int \<times> (process_tuple \<times> process_sample option) option) list"

definition handle_process :: "observer \<Rightarrow> (string \<Rightarrow> runner_state) \<Rightarrow> (string \<Rightarrow> string \<Rightarrow> pyexc + process_sample) \<Rightarrow> (string \<Rightarrow> spec_process list option)
    \<Rightarrow> (spec_process \<Rightarrow> string) \<Rightarrow> string \<Rightarrow> string \<Rightarrow> process_page served" where
  "handle_process ob states by_process conf cmdline i name =
     serve (process_used ob states by_process i name None) (\<lambda>current.
       case current of
         None \<Rightarrow> Not_found
       | Some (t, used) \<Rightarrow>
           (case process_from_name ob conf i name of
              None \<Rightarrow> Not_found
            | Some p \<Rightarrow>
                serve (traverse (\<lambda>run. rbind (process_used ob states by_process i name (Some run)) (\<lambda>r. Inr (run, r))) [0..pt_run t - 1])
                  (\<lambda>runs. Page \<lparr>pp_state = pt_state t, pp_cmdline = cmdline p, pp_used = used, pp_runs = (pt_run t, Some (t, used)) # runs\<rparr>)))"

section \<open>Chunks of files\<close>

text \<open>A parameter of a request, or its default, the number -1; the empty text and that number are both taken for -1.\<close>

definition chunk_arg :: "string option \<Rightarrow> int option" where
  "chunk_arg v = (case v of Some (c # cs) \<Rightarrow> py_int (c # cs) | _ \<Rightarrow> Some (- 1))"

text \<open>\<^verbatim>\<open>escape\<close> of \<^verbatim>\<open>xml.sax.saxutils\<close>.\<close>

definition escape :: "string \<Rightarrow> string" where
  "escape s = concat (map (\<lambda>c. if c = CHR ''&'' then ''&amp;'' else if c = CHR ''<'' then ''&lt;'' else if c = CHR ''>'' then ''&gt;'' else [c]) s)"

text \<open>What a chunk answers: nothing, or where it starts, how many bytes it has, and their text if there are any.\<close>

datatype chunk = No_chunk | Chunk int nat "string option"

text \<open>A file at the time it was looked at, its length, and its content when it is read, which may have grown or shrunk.\<close>

record 'b file_view =
  fv_length :: nat
  fv_content :: "'b list"

definition read_bytes :: "'b list \<Rightarrow> int \<Rightarrow> int \<Rightarrow> pyexc + 'b list" where
  "read_bytes content offset n =
     (if offset < 0 then Inl OSError
      else if n < - 1 then Inl ValueError
      else if n = - 1 then Inr (drop (nat offset) content)
      else Inr (take (nat n) (drop (nat offset) content)))"

text \<open>\<^verbatim>\<open>_read_chunk\<close>; \<open>None\<close> where the path is no file or cannot be looked at.  The largest length of a chunk is declared, and not used.\<close>

definition read_chunk :: "('b list \<Rightarrow> string) \<Rightarrow> 'b file_view option \<Rightarrow> string option \<Rightarrow> string option \<Rightarrow> pyexc + chunk" where
  "read_chunk decode f offset length' =
     (case (chunk_arg length', chunk_arg offset, f) of
        (Some n, Some k, Some v) \<Rightarrow>
          (let o1 = (if k = - 1 then int (fv_length v) else k);
               n1 = (if n = - 1 then int (fv_length v) - o1 else n)
           in rbind (read_bytes (fv_content v) o1 n1) (\<lambda>data.
                Inr (if data = [] then Chunk o1 0 None else Chunk o1 (length data) (Some (escape (decode data))))))
      | _ \<Rightarrow> Inr No_chunk)"

section \<open>The file browser\<close>

definition logtype_path :: "string \<Rightarrow> string \<times> string \<Rightarrow> string option" where
  "logtype_path t p = (if t = ''stdout'' then Some (fst p) else if t = ''stderr'' then Some (snd p) else None)"

text \<open>The path of the log of a run, \<open>None\<close> for an unknown type; the page of a log and its data both look it up.\<close>

definition log_path :: "observer \<Rightarrow> (string \<Rightarrow> runner_state) \<Rightarrow> string \<Rightarrow> string \<Rightarrow> string \<Rightarrow> string \<Rightarrow> pyexc + string option" where
  "log_path ob states i process run logtype =
     rbind (int_arg run) (\<lambda>n. rbind (logs_of ob states i process (Some n)) (\<lambda>types.
       Inr (case types of None \<Rightarrow> None | Some p \<Rightarrow> logtype_path logtype p)))"

definition handle_logs :: "(string \<Rightarrow> string) \<Rightarrow> (string \<Rightarrow> bool) \<Rightarrow> observer \<Rightarrow> (string \<Rightarrow> runner_state) \<Rightarrow> string \<Rightarrow> string \<Rightarrow> string \<Rightarrow> string
    \<Rightarrow> string option served" where
  "handle_logs realpath exists ob states i process run logtype =
     serve (log_path ob states i process run logtype) (\<lambda>p.
       case p of None \<Rightarrow> Not_found | Some path \<Rightarrow> Page (map_option snd (valid_path realpath exists ob states i (Some path))))"

definition handle_logdata :: "('b list \<Rightarrow> string) \<Rightarrow> (string \<Rightarrow> 'b file_view option) \<Rightarrow> observer \<Rightarrow> (string \<Rightarrow> runner_state) \<Rightarrow> string
    \<Rightarrow> string \<Rightarrow> string \<Rightarrow> string \<Rightarrow> string option \<Rightarrow> string option \<Rightarrow> pyexc + chunk" where
  "handle_logdata decode view ob states i process run logtype offset len =
     rbind (log_path ob states i process run logtype) (\<lambda>p.
       case p of None \<Rightarrow> Inr No_chunk | Some path \<Rightarrow> read_chunk decode (view path) offset len)"

definition handle_file :: "string \<Rightarrow> string option \<Rightarrow> (string \<times> string) served" where
  "handle_file i path = (case path of None \<Rightarrow> Not_found | Some p \<Rightarrow> Page (i, p))"

definition handle_filedata :: "(string \<Rightarrow> string) \<Rightarrow> (string \<Rightarrow> bool) \<Rightarrow> ('b list \<Rightarrow> string) \<Rightarrow> (string \<Rightarrow> 'b file_view option) \<Rightarrow> observer
    \<Rightarrow> (string \<Rightarrow> runner_state) \<Rightarrow> string \<Rightarrow> string option \<Rightarrow> string option \<Rightarrow> string option \<Rightarrow> pyexc + chunk" where
  "handle_filedata realpath exists decode view ob states i path offset len =
     (if path = None then Inr No_chunk
      else case valid_file realpath exists (\<lambda>p. view p \<noteq> None) ob states i path of
        None \<Rightarrow> Inr No_chunk
      | Some (chroot, p) \<Rightarrow> read_chunk decode (view (join_path chroot p)) offset len)"

definition handle_dir :: "(string \<Rightarrow> string) \<Rightarrow> (string \<Rightarrow> bool) \<Rightarrow> observer \<Rightarrow> (string \<Rightarrow> runner_state) \<Rightarrow> string \<Rightarrow> string option
    \<Rightarrow> (string \<times> string) served" where
  "handle_dir realpath exists ob states i path =
     (case valid_path realpath exists ob states i (if path = Some [] then None else path) of
        None \<Rightarrow> Not_found | Some cp \<Rightarrow> Page cp)"

text \<open>A download gives the root and the path in it to \<^verbatim>\<open>bottle.static_file\<close>.\<close>

definition handle_download :: "(string \<Rightarrow> string) \<Rightarrow> (string \<Rightarrow> bool) \<Rightarrow> observer \<Rightarrow> (string \<Rightarrow> runner_state) \<Rightarrow> string \<Rightarrow> string option
    \<Rightarrow> (string \<times> string) served" where
  "handle_download realpath exists ob states i path =
     (case valid_path realpath exists ob states i path of None \<Rightarrow> Not_found | Some cp \<Rightarrow> Page cp)"

section \<open>Facts\<close>

lemma tagged_keys: "traverse (\<lambda>k. rbind (g k) (\<lambda>r. Inr (k, r))) ks = Inr rs \<Longrightarrow> map fst rs = ks"
  by (induction ks arbitrary: rs) (auto simp: rbind_Inr_iff)

text \<open>The page of a process has each of its runs up to the current one, once.\<close>

lemma process_page_runs:
  assumes "handle_process ob states by_process conf cmdline i name = Page p"
  shows "\<exists>n. map fst (pp_runs p) = n # [0..n - 1] \<and> distinct (map fst (pp_runs p))"
proof -
  obtain t used runs where r: "pp_runs p = (pt_run t, Some (t, used)) # runs"
    "traverse (\<lambda>run. rbind (process_used ob states by_process i name (Some run)) (\<lambda>r. Inr (run, r))) [0..pt_run t - 1] = Inr runs"
  proof (cases "process_used ob states by_process i name None")
    case (Inr c)
    show ?thesis using assms Inr that
      by (cases "traverse (\<lambda>run. rbind (process_used ob states by_process i name (Some run)) (\<lambda>r. Inr (run, r))) [0..pt_run (fst (the c)) - 1]")
        (auto simp: handle_process_def split: option.splits)
  qed (use assms in \<open>simp add: handle_process_def\<close>)
  have "map fst runs = [0..pt_run t - 1]" by (rule tagged_keys [OF r(2)])
  then show ?thesis using r(1) by auto
qed

text \<open>An offset behind the end of the file, as after its log was rotated, raises without a length: the length is taken below -1.\<close>

lemma behind_end_raises:
  assumes "chunk_arg offset = Some k" "k > int (fv_length v) + 1"
  shows "read_chunk decode (Some v) offset None = Inl ValueError"
  using assms by (simp add: read_chunk_def chunk_arg_def read_bytes_def Let_def)

lemma negative_offset_raises:
  assumes "chunk_arg offset = Some k" "k < - 1" "chunk_arg len = Some n"
  shows "read_chunk decode (Some v) offset len = Inl OSError"
  using assms by (simp add: read_chunk_def read_bytes_def Let_def)

text \<open>A reader that asks for a length and goes on from where each chunk ended: the chunks are the content from where it started,
  in order, without a gap.\<close>

fun follow_chunks :: "nat \<Rightarrow> nat \<Rightarrow> nat \<Rightarrow> 'b list \<Rightarrow> 'b list" where
  "follow_chunks 0 k n content = []"
| "follow_chunks (Suc rounds) k n content =
     (case read_bytes content (int k) (int n) of
        Inl _ \<Rightarrow> []
      | Inr data \<Rightarrow> data @ follow_chunks rounds (k + length data) n content)"

theorem chunks_in_order: "follow_chunks rounds k n content = take (rounds * n) (drop k content)"
proof (induction rounds arbitrary: k)
  case (Suc rounds)
  let ?data = "take n (drop k content)"
  have "follow_chunks (Suc rounds) k n content = ?data @ take (rounds * n) (drop (k + length ?data) content)"
    using Suc.IH by (simp add: read_bytes_def)
  also have "drop (k + length ?data) content = drop (length ?data) (drop k content)" by (simp add: add.commute)
  also have "?data @ take (rounds * n) (drop (length ?data) (drop k content)) = take (n + rounds * n) (drop k content)"
    by (simp add: take_add min_def)
  finally show ?case by simp
qed simp

text \<open>The data of a log is read at its path, whatever that leads to; the data of a file only inside the sandbox.  So a link in place
  of a log shows any file of the host.\<close>

theorem log_link_followed:
  assumes "log_path ob states i process run logtype = Inr (Some path)" "view path = Some v"
    and "sanitize_path realpath sandbox (Some path) = None" "headed_state ob states i = Some (h, st)" "rh_sandbox h = sandbox"
  shows "handle_filedata realpath exists decode view ob states i (Some path) None None = Inr No_chunk
    \<and> handle_logdata decode view ob states i process run logtype None None = read_chunk decode (Some v) None None"
  using assms by (simp add: handle_filedata_def handle_logdata_def valid_file_def valid_path_def)

end
